(* ===== verification/Go_Prelude.thy ===== *)
theory Go_Prelude
  imports Main "HOL-Library.AList" "HOL-Library.Sublist"
begin

text \<open>
  The vocabulary the component theories share: the parts of Go's standard library the
  sources use (\<open>strings\<close>, \<open>strconv\<close>, maps with a fixed iteration order), and generic
  lemmas on lists and association lists.

  Strings are lists of bytes, as Go's are. Case folding (\<open>strings.ToLower\<close>) is modelled on
  the ASCII letters; the names the sources fold (tiers, divisions, object names, platforms)
  are ASCII. A Go map whose size or iteration the code observes is an association list with
  distinct keys; other maps are partial functions.
\<close>

named_theorems go_simps \<open>unfolding rules for the small standard library functions\<close>

type_synonym 'a fallible = "string + 'a"

text \<open>Where the code can also panic, the result of a call is an \<open>outcome\<close>.\<close>

datatype 'a outcome = Ok 'a | Err string | Panic string

primrec bind_ok :: "'a outcome \<Rightarrow> ('a \<Rightarrow> 'b outcome) \<Rightarrow> 'b outcome" where
  "bind_ok (Ok a) f = f a"
| "bind_ok (Err e) f = Err e"
| "bind_ok (Panic e) f = Panic e"

lemma bind_ok_Ok: "bind_ok x f = Ok b \<longleftrightarrow> (\<exists>a. x = Ok a \<and> f a = Ok b)"
  by (cases x) simp_all

text \<open>A loop that returns true at the first element of a test that may panic.\<close>

fun any_ok :: "('a \<Rightarrow> bool outcome) \<Rightarrow> 'a list \<Rightarrow> bool outcome" where
  "any_ok f [] = Ok False"
| "any_ok f (x # xs) = bind_ok (f x) (\<lambda>b. if b then Ok True else any_ok f xs)"

text \<open>Loops that collect the elements of a test, or the results of calls, that may panic.\<close>

fun filter_ok :: "('a \<Rightarrow> bool outcome) \<Rightarrow> 'a list \<Rightarrow> 'a list outcome" where
  "filter_ok f [] = Ok []"
| "filter_ok f (x # xs) =
     bind_ok (f x) (\<lambda>b. bind_ok (filter_ok f xs) (\<lambda>ys. Ok (if b then x # ys else ys)))"

fun map_ok :: "('a \<Rightarrow> 'b outcome) \<Rightarrow> 'a list \<Rightarrow> 'b list outcome" where
  "map_ok f [] = Ok []"
| "map_ok f (x # xs) = bind_ok (f x) (\<lambda>y. bind_ok (map_ok f xs) (\<lambda>ys. Ok (y # ys)))"

definition is_ok :: "'a outcome \<Rightarrow> bool" where
  "is_ok x \<longleftrightarrow> (\<exists>a. x = Ok a)"

lemma is_ok_simps [simp]: "is_ok (Ok a)" "\<not> is_ok (Err e)" "\<not> is_ok (Panic e)"
  by (simp_all add: is_ok_def)

lemma is_ok_bind: "is_ok x \<Longrightarrow> (\<And>a. x = Ok a \<Longrightarrow> is_ok (f a)) \<Longrightarrow> is_ok (bind_ok x f)"
  by (cases x) simp_all

lemma any_ok_total: "(\<And>x. x \<in> set xs \<Longrightarrow> is_ok (f x)) \<Longrightarrow> is_ok (any_ok f xs)"
  by (induction xs) (auto intro: is_ok_bind)

lemma filter_ok_total: "(\<And>x. x \<in> set xs \<Longrightarrow> is_ok (f x)) \<Longrightarrow> is_ok (filter_ok f xs)"
  by (induction xs) (auto intro!: is_ok_bind)

lemma map_ok_total: "(\<And>x. x \<in> set xs \<Longrightarrow> is_ok (f x)) \<Longrightarrow> is_ok (map_ok f xs)"
  by (induction xs) (auto intro!: is_ok_bind)

lemma filter_ok_Ok: "filter_ok f xs = Ok ys \<Longrightarrow> set ys = {x \<in> set xs. f x = Ok True}"
  by (induction xs arbitrary: ys) (auto simp: bind_ok_Ok split: if_splits)

lemma filter_ok_subseq: "filter_ok f xs = Ok ys \<Longrightarrow> subseq ys xs"
  by (induction xs arbitrary: ys) (auto simp: bind_ok_Ok split: if_splits)

subsection \<open>strings\<close>

definition to_lower_char :: "char \<Rightarrow> char" where
  "to_lower_char c =
     (let n = (of_char c :: nat) in if 65 \<le> n \<and> n \<le> 90 then char_of (n + 32) else c)"

definition to_lower :: "string \<Rightarrow> string" where
  "to_lower s = map to_lower_char s"

definition has_prefix :: "string \<Rightarrow> string \<Rightarrow> bool" where
  "has_prefix s p \<longleftrightarrow> take (length p) s = p"

definition has_suffix :: "string \<Rightarrow> string \<Rightarrow> bool" where
  "has_suffix s p \<longleftrightarrow> length p \<le> length s \<and> drop (length s - length p) s = p"

definition trim_prefix :: "string \<Rightarrow> string \<Rightarrow> string" where
  "trim_prefix s p = (if has_prefix s p then drop (length p) s else s)"

definition trim_suffix :: "string \<Rightarrow> string \<Rightarrow> string" where
  "trim_suffix s p = (if has_suffix s p then take (length s - length p) s else s)"

text \<open>\<open>strings.Split\<close> on a one-byte separator: always at least one field.\<close>

fun split_on :: "char \<Rightarrow> string \<Rightarrow> string list" where
  "split_on c [] = [[]]"
| "split_on c (x # xs) =
     (if x = c then [] # split_on c xs
      else case split_on c xs of [] \<Rightarrow> [[x]] | w # ws \<Rightarrow> (x # w) # ws)"

lemma split_on_ne [simp]: "split_on c s \<noteq> []"
  by (cases s) (auto split: list.splits)

lemma has_prefix_append [simp]: "has_prefix (p @ s) p"
  by (simp add: has_prefix_def)

lemma has_prefix_iff: "has_prefix s p \<longleftrightarrow> (\<exists>t. s = p @ t)"
  unfolding has_prefix_def by (metis append_eq_conv_conj)

lemma trim_prefix_append [simp]: "trim_prefix (p @ s) p = s"
  by (simp add: trim_prefix_def)

lemma length_to_lower [simp]: "length (to_lower s) = length s"
  by (simp add: to_lower_def)

lemma to_lower_append [simp]: "to_lower (s @ t) = to_lower s @ to_lower t"
  by (simp add: to_lower_def)

lemma split_on_no_sep: "c \<notin> set s \<Longrightarrow> split_on c s = [s]"
  by (induction s) auto

lemma split_on_append_sep:
  "c \<notin> set a \<Longrightarrow> split_on c (a @ c # b) = a # split_on c b"
  by (induction a) auto

lemma to_lower_char_idem [simp]: "to_lower_char (to_lower_char c) = to_lower_char c"
proof (cases "65 \<le> (of_char c :: nat) \<and> (of_char c :: nat) \<le> 90")
  case True
  then have "(of_char (char_of ((of_char c :: nat) + 32)) :: nat) = of_char c + 32"
    by simp
  with True show ?thesis by (simp add: to_lower_char_def Let_def)
next
  case False
  then have "to_lower_char c = c" by (auto simp: to_lower_char_def Let_def)
  then show ?thesis by simp
qed

lemma to_lower_idem [simp]: "to_lower (to_lower s) = to_lower s"
  by (simp add: to_lower_def)

subsection \<open>strconv\<close>

definition digit_val :: "char \<Rightarrow> nat option" where
  "digit_val c =
     (let n = (of_char c :: nat) in if 48 \<le> n \<and> n \<le> 57 then Some (n - 48) else None)"

definition digit_char :: "nat \<Rightarrow> char" where
  "digit_char d = char_of (48 + d)"

fun digits_val :: "nat \<Rightarrow> string \<Rightarrow> nat option" where
  "digits_val acc [] = Some acc"
| "digits_val acc (c # cs) =
     (case digit_val c of None \<Rightarrow> None | Some d \<Rightarrow> digits_val (10 * acc + d) cs)"

text \<open>
  \<open>strconv.ParseInt(s, 10, 64)\<close> (and \<open>Atoi\<close> on a 64-bit machine): an optional sign, at
  least one digit, and the value in the range of \<open>int64\<close>.
\<close>

definition int64_min :: int where "int64_min = - (2 ^ 63)"
definition int64_max :: int where "int64_max = 2 ^ 63 - 1"

definition parse_digits :: "string \<Rightarrow> nat option" where
  "parse_digits s = (if s = [] then None else digits_val 0 s)"

definition range64 :: "int \<Rightarrow> int option" where
  "range64 i = (if int64_min \<le> i \<and> i \<le> int64_max then Some i else None)"

definition parse_int :: "string \<Rightarrow> int option" where
  "parse_int s =
     (case s of
        [] \<Rightarrow> None
      | c # cs \<Rightarrow>
          if c = CHR ''-'' then Option.bind (parse_digits cs) (\<lambda>n. range64 (- int n))
          else if c = CHR ''+'' then Option.bind (parse_digits cs) (\<lambda>n. range64 (int n))
          else Option.bind (parse_digits s) (\<lambda>n. range64 (int n)))"

text \<open>\<open>%d\<close> of an integer.\<close>

fun show_nat :: "nat \<Rightarrow> string" where
  "show_nat n = (if n < 10 then [digit_char n] else show_nat (n div 10) @ [digit_char (n mod 10)])"

declare show_nat.simps [simp del]

definition show_int :: "int \<Rightarrow> string" where
  "show_int i = (if i < 0 then CHR ''-'' # show_nat (nat (- i)) else show_nat (nat i))"

lemma digit_val_char [simp]: "d < 10 \<Longrightarrow> digit_val (digit_char d) = Some d"
  by (simp add: digit_val_def digit_char_def)

lemma digits_val_append:
  "digits_val acc (s @ t) = Option.bind (digits_val acc s) (\<lambda>a. digits_val a t)"
  by (induction s arbitrary: acc) (auto split: option.splits)

lemma show_nat_ne [simp]: "show_nat n \<noteq> []"
  by (subst show_nat.simps) simp

lemma digits_val_show_nat: "digits_val 0 (show_nat n) = Some n"
proof (induction n rule: show_nat.induct)
  case (1 n)
  show ?case
  proof (cases "n < 10")
    case True
    then show ?thesis by (subst show_nat.simps) simp
  next
    case False
    with "1.IH" have "digits_val 0 (show_nat (n div 10)) = Some (n div 10)" by simp
    with False show ?thesis
      by (subst show_nat.simps) (simp add: digits_val_append)
  qed
qed

lemma digit_char_not_sign:
  "d < 10 \<Longrightarrow> digit_char d \<noteq> CHR ''-'' \<and> digit_char d \<noteq> CHR ''+''"
proof -
  assume "d < 10"
  then have "digit_val (digit_char d) \<noteq> None" by simp
  moreover have "digit_val CHR ''-'' = None" "digit_val CHR ''+'' = None"
    by (simp_all add: digit_val_def)
  ultimately show ?thesis by metis
qed

lemma show_nat_chars: "c \<in> set (show_nat n) \<Longrightarrow> \<exists>d<10. c = digit_char d"
proof (induction n rule: show_nat.induct)
  case (1 n)
  show ?case
  proof (cases "n < 10")
    case True
    with "1.prems" show ?thesis by (subst (asm) show_nat.simps) auto
  next
    case False
    with "1.prems" have "c \<in> set (show_nat (n div 10)) \<or> c = digit_char (n mod 10)"
      by (subst (asm) show_nat.simps) auto
    with "1.IH" False show ?thesis by (auto intro: exI [of _ "n mod 10"])
  qed
qed

lemma parse_show_nat: "int n \<le> int64_max \<Longrightarrow> parse_int (show_nat n) = Some (int n)"
proof -
  assume n: "int n \<le> int64_max"
  obtain c cs where s: "show_nat n = c # cs"
    by (cases "show_nat n") auto
  then obtain d where "d < 10" "c = digit_char d"
    using show_nat_chars [of c n] by auto
  then have c: "c \<noteq> CHR ''-''" "c \<noteq> CHR ''+''"
    by (simp_all add: digit_char_not_sign)
  have "parse_digits (c # cs) = Some n"
    using digits_val_show_nat [of n] s by (simp add: parse_digits_def)
  then show ?thesis
    using c n by (simp add: parse_int_def s range64_def int64_min_def)
qed

text \<open>Every \<open>int64\<close> survives being printed and parsed again.\<close>

lemma parse_show_int:
  assumes "int64_min \<le> i" and "i \<le> int64_max"
  shows "parse_int (show_int i) = Some i"
proof (cases "i < 0")
  case True
  then have "parse_digits (show_nat (nat (- i))) = Some (nat (- i))"
    by (simp add: parse_digits_def digits_val_show_nat)
  with True assms show ?thesis
    by (simp add: show_int_def parse_int_def range64_def int64_min_def int64_max_def)
next
  case False
  with assms show ?thesis by (simp add: show_int_def parse_show_nat)
qed

lemma digit_char_inj: "d < 10 \<Longrightarrow> e < 10 \<Longrightarrow> digit_char d = digit_char e \<Longrightarrow> d = e"
  by (metis digit_val_char option.inject)

lemma show_nat_inj: "show_nat m = show_nat n \<Longrightarrow> m = n"
  by (metis digits_val_show_nat option.inject)

lemma show_int_inj: "show_int i = show_int j \<Longrightarrow> i = j"
proof -
  have minus: "show_nat n \<noteq> CHR ''-'' # s" for n s
    using show_nat_chars [of "CHR ''-''" n] digit_char_not_sign by fastforce
  assume eq: "show_int i = show_int j"
  consider "i < 0" "j < 0" | "\<not> i < 0" "\<not> j < 0" | "i < 0" "\<not> j < 0" | "\<not> i < 0" "j < 0"
    by blast
  then show "i = j"
  proof cases
    case 1
    with eq have "nat (- i) = nat (- j)" by (auto simp: show_int_def intro: show_nat_inj)
    with 1 show ?thesis by simp
  next
    case 2
    with eq have "nat i = nat j" by (auto simp: show_int_def intro: show_nat_inj)
    with 2 show ?thesis by simp
  qed (use eq minus in \<open>auto simp: show_int_def\<close>, metis minus)
qed

subsection \<open>Lists\<close>

text \<open>The first index of an element, as the loops \<open>for i, x := range xs\<close> with a \<open>break\<close> find it.\<close>

fun index_of :: "'a \<Rightarrow> 'a list \<Rightarrow> nat option" where
  "index_of x [] = None"
| "index_of x (y # ys) = (if x = y then Some 0 else map_option Suc (index_of x ys))"

lemma index_of_bound: "index_of x xs = Some i \<Longrightarrow> i < length xs \<and> xs ! i = x"
  by (induction xs arbitrary: i) (auto split: if_splits)

lemma index_of_None: "index_of x xs = None \<longleftrightarrow> x \<notin> set xs"
  by (induction xs) auto

text \<open>Removing the first match, as the loops with \<open>append(xs[:i], xs[i+1:]...); break\<close> do.\<close>

fun remove_first :: "('a \<Rightarrow> bool) \<Rightarrow> 'a list \<Rightarrow> 'a list" where
  "remove_first P [] = []"
| "remove_first P (x # xs) = (if P x then xs else x # remove_first P xs)"

lemma set_remove_first_subset: "set (remove_first P xs) \<subseteq> set xs"
  by (induction xs) auto

lemma subseq_remove_first: "subseq (remove_first P xs) xs"
  by (induction xs) (auto intro: list_emb_Cons)

lemma distinct_map_remove_first:
  "distinct (map f xs) \<Longrightarrow> distinct (map f (remove_first P xs))"
  by (induction xs) (auto dest: set_mp [OF set_remove_first_subset])

lemma subseq_mem: "subseq xs ys \<Longrightarrow> x \<in> set xs \<Longrightarrow> x \<in> set ys"
  by (induction rule: list_emb.induct) auto

lemma subseq_distinct: "subseq xs ys \<Longrightarrow> distinct ys \<Longrightarrow> distinct xs"
  by (induction rule: list_emb.induct) (auto dest: list_emb_set)

subsection \<open>Maps with counters\<close>

text \<open>
  A map with counters, in the order its keys were added: \<open>m[k] += d\<close>, where a missing key reads
  as zero.
\<close>

definition get0 :: "('k \<times> 'v :: monoid_add) list \<Rightarrow> 'k \<Rightarrow> 'v" where
  "get0 m k = (case map_of m k of None \<Rightarrow> 0 | Some n \<Rightarrow> n)"

definition bump :: "'v \<Rightarrow> 'k \<Rightarrow> ('k \<times> 'v :: monoid_add) list \<Rightarrow> ('k \<times> 'v) list" where
  "bump d k m = AList.update k (get0 m k + d) m"

lemma bump_lookup: "get0 (bump d k m) j = (if j = k then get0 m j + d else get0 m j)"
  by (simp add: bump_def get0_def update_conv)

lemma bump_distinct: "distinct (map fst m) \<Longrightarrow> distinct (map fst (bump d k m))"
  by (simp add: bump_def distinct_update)

lemma bump_keys: "fst ` set (bump d k m) = insert k (fst ` set m)"
  by (simp add: bump_def dom_update)

lemma map_of_update [simp]: "map_of (AList.update k v m) = (map_of m)(k \<mapsto> v)"
  by (simp add: update_conv')

lemma map_of_delete [simp]: "map_of (AList.delete k m) = (map_of m)(k := None)"
  by (simp add: delete_conv')

lemma length_distinct_keys: "distinct (map fst m) \<Longrightarrow> length m = card (dom (map_of m))"
  by (metis distinct_card dom_map_of_conv_image_fst length_map set_map)

end
