(* ===== verification/Queue_Positions.thy ===== *)
theory Queue_Positions
  imports Go_Prelude
begin

text \<open>
  The matchmaking core of \<open>lolqueue-master/match.go\<close>: ranks, criteria, the assignment of
  positions and the viability test.

  Players are shared by pointer: a \<open>pid\<close> is a \<open>*Player\<close> and a \<open>pheap\<close> the memory they point
  into, because \<open>IsViableMatch\<close> rewrites the criteria of the players it looks at.
\<close>

subsection \<open>Data\<close>

type_synonym position = string

definition Top :: position where "Top = ''top''"
definition Mid :: position where "Mid = ''mid''"
definition Jungle :: position where "Jungle = ''jungle''"
definition Adc :: position where "Adc = ''adc''"
definition Support :: position where "Support = ''support''"
definition any :: position where "any = ''any''"

record rank =
  Tier :: string
  Division :: string

definition orderedTiers :: "string list" where
  "orderedTiers =
     [''bronze'', ''silver'', ''gold'', ''platinum'', ''diamond'', ''master'', ''challenger'']"

definition orderedDivisions :: "string list" where
  "orderedDivisions = [''v'', ''iv'', ''iii'', ''ii'', ''i'']"

definition Val :: "rank \<Rightarrow> int" where
  "Val r =
     (let res = (case index_of (to_lower (Tier r)) orderedTiers of
                   Some i \<Rightarrow> int i * 10 | None \<Rightarrow> 0)
      in case index_of (to_lower (Division r)) orderedDivisions of
           Some i \<Rightarrow> res + int i | None \<Rightarrow> res)"

record criteria =
  cRegion :: string
  MyPositions :: "position list"
  MinPlayers :: int
  MinRank :: rank
  MaxRank :: rank

record player =
  SummonerName :: string
  SummonerID :: int
  Region :: string
  pRank :: rank
  Criteria :: criteria
  InvitationPending :: bool

type_synonym pid = nat
type_synonym pheap = "pid \<Rightarrow> player"

definition playerKey :: "string \<Rightarrow> string \<Rightarrow> string" where
  "playerKey name region = to_lower (name @ ''-'' @ region)"

definition Key :: "player \<Rightarrow> string" where
  "Key p = playerKey (SummonerName p) (Region p)"

text \<open>
  A match; \<open>Invited\<close> is a slice while the search runs and a list of players afterwards.
  \<open>Accepted\<close> is the Go map as an association list. \<open>Started\<close> (the time the match was built, only
  ever sent to the clients) is left out.
\<close>

record 'inv match =
  MatchID :: int
  Invited :: 'inv
  Accepted :: "(string \<times> bool) list"
  Positions :: "position list"

subsection \<open>Criteria\<close>

fun satisfied_loop :: "pheap \<Rightarrow> criteria \<Rightarrow> pid list \<Rightarrow> bool" where
  "satisfied_loop h c [] = True"
| "satisfied_loop h c (p # ps) =
     (if cRegion c \<noteq> Region (h p) then False
      else let rankVal = Val (pRank (h p)) in
        if rankVal < Val (MinRank c) \<or> rankVal > Val (MaxRank c) then False
        else satisfied_loop h c ps)"

definition Satisfied :: "pheap \<Rightarrow> criteria \<Rightarrow> pid list \<Rightarrow> bool" where
  "Satisfied h c invited =
     (if \<not> satisfied_loop h c invited then False
      else if MinPlayers c > int (length invited) then False
      else True)"

subsection \<open>Positions\<close>

text \<open>
  \<open>resolvePositions\<close> tries, for each desired list in turn and each position of it, to extend
  the fixed ones, and recurses on the lists after it. \<open>tryDesired\<close> is its outer loop (\<open>n\<close> is
  \<open>len(fixed)+len(desired)\<close>, computed before the loop) and \<open>tryPos\<close> its inner loop. The result
  \<open>[]\<close> stands for \<open>nil\<close>.
\<close>

function (sequential)
  resolvePositions :: "position list \<Rightarrow> position list list \<Rightarrow> position list" and
  tryDesired :: "position list \<Rightarrow> nat \<Rightarrow> position list list \<Rightarrow> position list" and
  tryPos :: "position list \<Rightarrow> nat \<Rightarrow> position list \<Rightarrow> position list list \<Rightarrow> position list option"
where
  "resolvePositions fixed desired =
     (if desired = [] then fixed
      else tryDesired fixed (length fixed + length desired) desired)"
| "tryDesired fixed n [] = []"
| "tryDesired fixed n (d # ds) =
     (case tryPos fixed n d ds of Some res \<Rightarrow> res | None \<Rightarrow> tryDesired fixed n ds)"
| "tryPos fixed n [] ds = None"
| "tryPos fixed n (pos # ps) ds =
     (if pos \<noteq> any \<and> pos \<in> set fixed then tryPos fixed n ps ds
      else let res = resolvePositions (fixed @ [pos]) ds in
        if length res = n then Some res else tryPos fixed n ps ds)"
  by pat_completeness auto
termination
  by (relation "measures
    [\<lambda>x. case x of Inl (f, ds) \<Rightarrow> 2 * length ds + 1
           | Inr (Inl (f, n, ds)) \<Rightarrow> 2 * length ds
           | Inr (Inr (f, n, ps, ds)) \<Rightarrow> 2 * length ds + 1,
     \<lambda>x. case x of Inl (f, ds) \<Rightarrow> 0
           | Inr (Inl (f, n, ds)) \<Rightarrow> 0
           | Inr (Inr (f, n, ps, ds)) \<Rightarrow> Suc (length ps)]") auto

declare resolvePositions.simps [simp del]

subsection \<open>Viable matches\<close>

text \<open>A player open to \<open>any\<close> position among several wants only \<open>any\<close>.\<close>

definition normalise :: "player \<Rightarrow> player" where
  "normalise p =
     (if list_ex (\<lambda>pos. pos = any \<and> length (MyPositions (Criteria p)) > 1)
           (MyPositions (Criteria p))
      then p\<lparr>Criteria := (Criteria p)\<lparr>MyPositions := [any]\<rparr>\<rparr> else p)"

fun desiredPositions :: "pheap \<Rightarrow> pid list \<Rightarrow> pheap \<times> position list list" where
  "desiredPositions h [] = (h, [])"
| "desiredPositions h (p # ps) =
     (let h1 = h(p := normalise (h p)); (h2, ds) = desiredPositions h1 ps
      in (h2, MyPositions (Criteria (h1 p)) # ds))"

definition IsViableMatch :: "pheap \<Rightarrow> 'inv \<Rightarrow> pid list \<Rightarrow> pheap \<times> 'inv match option" where
  "IsViableMatch h handle players =
     (if length players > 5 \<or> length players < 2 then (h, None)
      else let (h', desired) = desiredPositions h players;
               positions = resolvePositions [] desired in
        if positions = [] then (h', None)
        else let m = \<lparr>MatchID = -1, Invited = handle, Accepted = [], Positions = positions\<rparr> in
          if \<not> list_all (\<lambda>p. Satisfied h' (Criteria (h' p)) players) players then (h', None)
          else (h', Some m))"

subsection \<open>Ranks\<close>

lemma Val_bounds: "0 \<le> Val r \<and> Val r \<le> 64"
proof -
  have t: "index_of (to_lower (Tier r)) orderedTiers = Some i \<Longrightarrow> i < 7" for i
    using index_of_bound [of "to_lower (Tier r)" orderedTiers i] by (simp add: orderedTiers_def)
  have d: "index_of (to_lower (Division r)) orderedDivisions = Some i \<Longrightarrow> i < 5" for i
    using index_of_bound [of "to_lower (Division r)" orderedDivisions i]
    by (simp add: orderedDivisions_def)
  show ?thesis
    using t d by (fastforce simp: Val_def Let_def split: option.splits)
qed

lemma Val_lex:
  assumes "index_of (to_lower (Tier r)) orderedTiers = Some t"
    and "index_of (to_lower (Division r)) orderedDivisions = Some d"
    and "index_of (to_lower (Tier r')) orderedTiers = Some t'"
    and "index_of (to_lower (Division r')) orderedDivisions = Some d'"
  shows "Val r < Val r' \<longleftrightarrow> t < t' \<or> (t = t' \<and> d < d')"
proof -
  have "d < 5" "d' < 5"
    using assms(2,4) [THEN index_of_bound] by (simp_all add: orderedDivisions_def)
  then show ?thesis using assms by (auto simp: Val_def)
qed

subsection \<open>Criteria\<close>

lemma satisfied_loop_iff:
  "satisfied_loop h c ps \<longleftrightarrow>
     (\<forall>p\<in>set ps. cRegion c = Region (h p) \<and> Val (MinRank c) \<le> Val (pRank (h p))
                  \<and> Val (pRank (h p)) \<le> Val (MaxRank c))"
  by (induction ps) (auto simp: Let_def)

lemma Satisfied_iff:
  "Satisfied h c ps \<longleftrightarrow>
     (\<forall>p\<in>set ps. cRegion c = Region (h p) \<and> Val (MinRank c) \<le> Val (pRank (h p))
                  \<and> Val (pRank (h p)) \<le> Val (MaxRank c))
     \<and> MinPlayers c \<le> int (length ps)"
  by (auto simp: Satisfied_def satisfied_loop_iff)

subsection \<open>Assignments of positions\<close>

text \<open>
  What a resolver of positions promises: \<open>assignment fixed ds qs\<close> says that \<open>qs\<close> picks one
  position from each list of \<open>ds\<close>, none (but \<open>any\<close>) twice or among the fixed ones.
\<close>

fun assignment :: "position list \<Rightarrow> position list list \<Rightarrow> position list \<Rightarrow> bool" where
  "assignment fixed [] [] = True"
| "assignment fixed (d # ds) (q # qs) =
     (q \<in> set d \<and> (q = any \<or> q \<notin> set fixed) \<and> assignment (fixed @ [q]) ds qs)"
| "assignment fixed _ _ = False"

lemma assignment_length: "assignment fixed ds qs \<Longrightarrow> length qs = length ds"
  by (induction fixed ds qs rule: assignment.induct) auto

lemma assignment_nth:
  "assignment fixed ds qs \<Longrightarrow> i < length ds \<Longrightarrow> qs ! i \<in> set (ds ! i)"
  by (induction fixed ds qs arbitrary: i rule: assignment.induct) (auto simp: nth_Cons split: nat.splits)

lemma assignment_distinct:
  assumes "assignment fixed ds qs" and "distinct (filter (\<lambda>q. q \<noteq> any) fixed)"
  shows "distinct (filter (\<lambda>q. q \<noteq> any) (fixed @ qs))"
  using assms by (induction fixed ds qs rule: assignment.induct) auto

locale position_resolver =
  fixes resolve :: "position list \<Rightarrow> position list list \<Rightarrow> position list"
  assumes resolve_sound:
      "resolve fixed ds \<noteq> [] \<Longrightarrow> \<exists>qs. resolve fixed ds = fixed @ qs \<and> assignment fixed ds qs"
    and resolve_complete:
      "assignment fixed ds qs \<Longrightarrow> ds \<noteq> [] \<Longrightarrow> resolve fixed ds \<noteq> []"
begin

lemma resolve_nonempty_iff:
  "ds \<noteq> [] \<Longrightarrow> resolve [] ds \<noteq> [] \<longleftrightarrow> (\<exists>qs. assignment [] ds qs)"
  using resolve_sound [of "[]" ds] resolve_complete [of "[]" ds] by auto

lemma resolve_assignment: "resolve [] ds \<noteq> [] \<Longrightarrow> assignment [] ds (resolve [] ds)"
  using resolve_sound [of "[]" ds] by auto

lemma resolve_length: "resolve [] ds \<noteq> [] \<Longrightarrow> length (resolve [] ds) = length ds"
  by (rule assignment_length [OF resolve_assignment])

lemma resolve_in_desired:
  "resolve [] ds \<noteq> [] \<Longrightarrow> i < length ds \<Longrightarrow> resolve [] ds ! i \<in> set (ds ! i)"
  by (rule assignment_nth [OF resolve_assignment])

lemma resolve_no_clash:
  "resolve [] ds \<noteq> [] \<Longrightarrow> distinct (filter (\<lambda>q. q \<noteq> any) (resolve [] ds))"
  using assignment_distinct [OF resolve_assignment, of ds] by simp

end

text \<open>\<open>resolvePositions\<close> keeps the contract.\<close>

lemma tryPos_length: "tryPos fixed n ps ds = Some res \<Longrightarrow> length res = n"
  by (induction ps) (auto simp: Let_def split: if_splits)

lemma tryDesired_length: "tryDesired fixed n ds = [] \<or> length (tryDesired fixed n ds) = n"
  by (induction ds) (auto dest: tryPos_length split: option.splits)

lemma resolve_length_or:
  "resolvePositions fixed ds = [] \<or> length (resolvePositions fixed ds) = length fixed + length ds"
  using tryDesired_length [of fixed "length fixed + length ds" ds]
  by (simp add: resolvePositions.simps [of fixed ds])

lemma tryPos_too_long: "length fixed + length ds + 1 < n \<Longrightarrow> tryPos fixed n ps ds = None"
proof (induction ps)
  case (Cons p ps)
  have "length (resolvePositions (fixed @ [p]) ds) \<noteq> n"
    using resolve_length_or [of "fixed @ [p]" ds] Cons.prems by auto
  with Cons show ?case by (simp add: Let_def)
qed simp

lemma tryDesired_too_long: "length fixed + length ds < n \<Longrightarrow> tryDesired fixed n ds = []"
  by (induction ds) (auto simp: tryPos_too_long)

lemma tryPos_Some:
  "tryPos fixed n ps ds = Some res \<Longrightarrow>
     \<exists>p\<in>set ps. (p = any \<or> p \<notin> set fixed) \<and> res = resolvePositions (fixed @ [p]) ds \<and> length res = n"
  by (induction ps) (auto simp: Let_def split: if_splits)

lemma tryPos_finds:
  "p \<in> set ps \<Longrightarrow> p = any \<or> p \<notin> set fixed \<Longrightarrow> length (resolvePositions (fixed @ [p]) ds) = n \<Longrightarrow>
     tryPos fixed n ps ds \<noteq> None"
  by (induction ps) (auto simp: Let_def)

lemma resolvePositions_Cons:
  "resolvePositions fixed (d # ds) =
     (case tryPos fixed (length fixed + length ds + 1) d ds of Some res \<Rightarrow> res | None \<Rightarrow> [])"
  by (subst resolvePositions.simps) (simp add: tryDesired_too_long split: option.splits)

lemma resolvePositions_Nil [simp]: "resolvePositions fixed [] = fixed"
  by (subst resolvePositions.simps) simp

lemma resolvePositions_sound:
  "resolvePositions fixed ds \<noteq> [] \<Longrightarrow>
     \<exists>qs. resolvePositions fixed ds = fixed @ qs \<and> assignment fixed ds qs"
proof (induction ds arbitrary: fixed)
  case Nil
  then show ?case by (intro exI [of _ "[]"]) simp
next
  case (Cons d ds)
  from Cons.prems obtain res where
    res: "tryPos fixed (length fixed + length ds + 1) d ds = Some res"
      "resolvePositions fixed (d # ds) = res"
    by (auto simp: resolvePositions_Cons split: option.splits)
  then obtain p where p: "p \<in> set d" "p = any \<or> p \<notin> set fixed"
      "res = resolvePositions (fixed @ [p]) ds" "length res = length fixed + length ds + 1"
    using tryPos_Some by blast
  then have "res \<noteq> []" by auto
  with Cons.IH [of "fixed @ [p]"] p(3) obtain qs where
    "res = fixed @ [p] @ qs" "assignment (fixed @ [p]) ds qs" by auto
  with p res(2) show ?case by (intro exI [of _ "p # qs"]) simp
qed

lemma resolvePositions_complete:
  "assignment fixed ds qs \<Longrightarrow> length (resolvePositions fixed ds) = length fixed + length ds"
proof (induction fixed ds qs rule: assignment.induct)
  case (2 fixed d ds q qs)
  then have "length (resolvePositions (fixed @ [q]) ds) = length fixed + length ds + 1" by simp
  with "2.prems" have "tryPos fixed (length fixed + length ds + 1) d ds \<noteq> None"
    by (intro tryPos_finds [where p = q]) auto
  then show ?case
    by (auto simp: resolvePositions_Cons dest: tryPos_length)
qed auto

interpretation rp: position_resolver resolvePositions
proof unfold_locales
  show "\<exists>qs. resolvePositions fixed ds = fixed @ qs \<and> assignment fixed ds qs"
    if "resolvePositions fixed ds \<noteq> []" for fixed ds
    using that by (rule resolvePositions_sound)
  show "resolvePositions fixed ds \<noteq> []" if "assignment fixed ds qs" "ds \<noteq> []" for fixed ds qs
    using resolvePositions_complete [OF that(1)] that(2) by auto
qed

subsection \<open>Viability\<close>

text \<open>
  \<open>want\<close> is what a player's position list means to the resolver, \<open>viable_players\<close> the
  condition under which a group of players is a match.
\<close>

definition want :: "pheap \<Rightarrow> pid \<Rightarrow> position list" where
  "want h p = MyPositions (Criteria (normalise (h p)))"

definition viable_players :: "pheap \<Rightarrow> pid list \<Rightarrow> bool" where
  "viable_players h ps \<longleftrightarrow>
     2 \<le> length ps \<and> length ps \<le> 5
     \<and> (\<exists>qs. assignment [] (map (want h) ps) qs)
     \<and> (\<forall>p\<in>set ps. Satisfied h (Criteria (h p)) ps)"

text \<open>\<open>renormed h h'\<close>: \<open>h'\<close> differs from \<open>h\<close> by normalised position lists only.\<close>

definition renormed :: "pheap \<Rightarrow> pheap \<Rightarrow> bool" where
  "renormed h h' \<longleftrightarrow> (\<forall>q. h' q = h q \<or> h' q = normalise (h q))"

lemma normalise_idem [simp]: "normalise (normalise p) = normalise p"
  by (auto simp: normalise_def list_ex_iff)

lemma normalise_fields [simp]:
  "SummonerName (normalise p) = SummonerName p" "SummonerID (normalise p) = SummonerID p"
  "Region (normalise p) = Region p" "pRank (normalise p) = pRank p"
  "InvitationPending (normalise p) = InvitationPending p"
  "cRegion (Criteria (normalise p)) = cRegion (Criteria p)"
  "MinPlayers (Criteria (normalise p)) = MinPlayers (Criteria p)"
  "MinRank (Criteria (normalise p)) = MinRank (Criteria p)"
  "MaxRank (Criteria (normalise p)) = MaxRank (Criteria p)"
  by (auto simp: normalise_def)

lemma renormed_refl [simp]: "renormed h h"
  by (simp add: renormed_def)

lemma renormed_trans: "renormed h h' \<Longrightarrow> renormed h' h'' \<Longrightarrow> renormed h h''"
  unfolding renormed_def by (metis normalise_idem)

lemma renormed_normalise: "renormed h h' \<Longrightarrow> normalise (h' q) = normalise (h q)"
  unfolding renormed_def by (metis normalise_idem)

lemma renormed_fields:
  assumes "renormed h h'"
  shows "SummonerName (h' q) = SummonerName (h q)" "SummonerID (h' q) = SummonerID (h q)"
    "Region (h' q) = Region (h q)" "pRank (h' q) = pRank (h q)"
    "InvitationPending (h' q) = InvitationPending (h q)"
    "cRegion (Criteria (h' q)) = cRegion (Criteria (h q))"
    "MinPlayers (Criteria (h' q)) = MinPlayers (Criteria (h q))"
    "MinRank (Criteria (h' q)) = MinRank (Criteria (h q))"
    "MaxRank (Criteria (h' q)) = MaxRank (Criteria (h q))"
  using assms unfolding renormed_def by (metis normalise_fields)+

lemma renormed_want: "renormed h h' \<Longrightarrow> want h' = want h"
  by (rule ext) (simp add: want_def renormed_normalise)

lemma renormed_Satisfied:
  "renormed h h' \<Longrightarrow> Satisfied h' (Criteria (h' p)) ps = Satisfied h (Criteria (h p)) ps"
  by (simp add: Satisfied_iff renormed_fields)

lemma renormed_viable: "renormed h h' \<Longrightarrow> viable_players h' ps = viable_players h ps"
  by (simp add: viable_players_def renormed_want renormed_Satisfied)

lemma desiredPositions_eq:
  "desiredPositions h ps = (\<lambda>q. if q \<in> set ps then normalise (h q) else h q, map (want h) ps)"
proof (induction ps arbitrary: h)
  case (Cons p ps)
  let ?h1 = "h(p := normalise (h p))"
  have w: "want ?h1 = want h" by (auto simp: want_def fun_eq_iff)
  show ?case
    by (auto simp: Let_def Cons.IH [of ?h1] w) (auto simp: want_def fun_eq_iff)
qed simp

lemma renormed_desired: "renormed h (fst (desiredPositions h ps))"
  by (auto simp: renormed_def desiredPositions_eq)

text \<open>
  The viability test, as an equation: it normalises the players it looked at, and returns a
  match exactly for the viable groups, with the resolver's positions.
\<close>

lemma IsViableMatch_eq:
  "IsViableMatch h handle ps =
     (if length ps > 5 \<or> length ps < 2 then (h, None)
      else (\<lambda>q. if q \<in> set ps then normalise (h q) else h q,
            if viable_players h ps
            then Some \<lparr>MatchID = -1, Invited = handle, Accepted = [],
                       Positions = resolvePositions [] (map (want h) ps)\<rparr>
            else None))"
proof (cases "length ps > 5 \<or> length ps < 2")
  case True
  then show ?thesis by (simp add: IsViableMatch_def)
next
  case False
  let ?h = "\<lambda>q. if q \<in> set ps then normalise (h q) else h q"
  have ne: "map (want h) ps \<noteq> []" using False by auto
  have s: "Satisfied ?h (Criteria (?h p)) ps = Satisfied h (Criteria (h p)) ps" for p
    using renormed_Satisfied [OF renormed_desired [of h ps]] by (simp add: desiredPositions_eq)
  show ?thesis
    using False rp.resolve_nonempty_iff [OF ne] s
    by (auto simp: IsViableMatch_def desiredPositions_eq Let_def viable_players_def list_all_iff)
qed

lemma IsViableMatch_renormed: "renormed h (fst (IsViableMatch h handle ps))"
  by (auto simp: IsViableMatch_eq renormed_def)

lemma IsViableMatch_Some_iff: "snd (IsViableMatch h handle ps) \<noteq> None \<longleftrightarrow> viable_players h ps"
  by (auto simp: IsViableMatch_eq viable_players_def)

lemma IsViableMatch_SomeD:
  assumes "IsViableMatch h handle ps = (h', Some m)"
  shows "viable_players h ps" "Invited m = handle" "MatchID m = -1" "Accepted m = []"
    "Positions m = resolvePositions [] (map (want h) ps)" "renormed h h'"
    "assignment [] (map (want h) ps) (Positions m)"
proof -
  show v: "viable_players h ps" and "Invited m = handle" "MatchID m = -1" "Accepted m = []"
    and pos: "Positions m = resolvePositions [] (map (want h) ps)"
    using assms by (auto simp: IsViableMatch_eq split: if_splits)
  show "renormed h h'" using IsViableMatch_renormed [of h handle ps] assms by simp
  have "map (want h) ps \<noteq> []" using v by (auto simp: viable_players_def)
  then have "resolvePositions [] (map (want h) ps) \<noteq> []"
    using v rp.resolve_nonempty_iff by (auto simp: viable_players_def)
  then show "assignment [] (map (want h) ps) (Positions m)"
    unfolding pos by (rule rp.resolve_assignment)
qed

subsection \<open>Properties\<close>

text \<open>
  Ranks are compared tier first and division second, in the order of the two tables.
\<close>

theorem rank_order:
  assumes "index_of (to_lower (Tier r)) orderedTiers = Some t"
    and "index_of (to_lower (Division r)) orderedDivisions = Some d"
    and "index_of (to_lower (Tier r')) orderedTiers = Some t'"
    and "index_of (to_lower (Division r')) orderedDivisions = Some d'"
  shows "Val r < Val r' \<longleftrightarrow> t < t' \<or> (t = t' \<and> d < d')"
  by (rule Val_lex [OF assms])

theorem rank_order_witness:
  "Val \<lparr>Tier = ''Silver'', Division = ''I''\<rparr> < Val \<lparr>Tier = ''GOLD'', Division = ''v''\<rparr>
   \<longleftrightarrow> (1::nat) < 2 \<or> ((1::nat) = 2 \<and> (4::nat) < 0)"
  by (rule rank_order; code_simp)

text \<open>
  C35: The search for positions is exact: it returns positions, one of each player's list and none
  but \<open>any\<close> twice, if and only if such a choice exists.
\<close>

theorem positions_found:
  assumes "ds \<noteq> []"
  shows "(resolvePositions [] ds \<noteq> [] \<longleftrightarrow> (\<exists>qs. assignment [] ds qs))
     \<and> (resolvePositions [] ds \<noteq> [] \<longrightarrow> assignment [] ds (resolvePositions [] ds)
          \<and> distinct (filter (\<lambda>q. q \<noteq> any) (resolvePositions [] ds)))"
  using rp.resolve_nonempty_iff [OF assms] rp.resolve_assignment rp.resolve_no_clash by blast

theorem positions_found_witness:
  "assignment [] [[Top, Jungle], [Top], [any]] (resolvePositions [] [[Top, Jungle], [Top], [any]])"
proof -
  have "resolvePositions [] [[Top, Jungle], [Top], [any]] \<noteq> []" by code_simp
  then show ?thesis using positions_found [of "[[Top, Jungle], [Top], [any]]"] by blast
qed

text \<open>
  The viability test accepts exactly the groups of two to five players whose criteria all
  hold of the group and whose positions can be assigned; it only normalises position lists.
\<close>

theorem viability_exact:
  "(snd (IsViableMatch h inv ps) \<noteq> None \<longleftrightarrow>
      2 \<le> length ps \<and> length ps \<le> 5 \<and> (\<exists>qs. assignment [] (map (want h) ps) qs)
      \<and> list_all (\<lambda>p. Satisfied h (Criteria (h p)) ps) ps)
   \<and> renormed h (fst (IsViableMatch h inv ps))"
  using IsViableMatch_Some_iff [of h inv ps] IsViableMatch_renormed [of h inv ps]
  by (simp only: viable_players_def list_all_iff)

end
