(* ===== verification/Queue_Search.thy ===== *)
theory Queue_Search
  imports Queue_Positions
begin

text \<open>
  The search of \<open>lolqueue-master/match.go\<close> for a match among the waiting players:
  \<open>bestMatchFor\<close> and \<open>Make\<close>. The slices the search builds with \<open>append\<close> are modelled with
  their backing arrays (\<open>slice\<close>, \<open>qstore\<close>): sibling iterations of the search can share one,
  and what the code returns depends on it.
\<close>

subsection \<open>The search, over slices\<close>

text \<open>
  A slice is an array, a length and a capacity (all slices here start at offset 0). \<open>append\<close>
  writes in place when there is room and copies to an array of twice the capacity otherwise
  (the growth rule of the Go runtime below 1024 elements; the search never exceeds 11). The
  list kept for an array holds the elements written so far.
\<close>

record slice =
  sl_arr :: nat
  sl_len :: nat
  sl_cap :: nat

record qstore =
  heap :: pheap
  arrays :: "pid list list"

definition contents :: "qstore \<Rightarrow> slice \<Rightarrow> pid list" where
  "contents st s = take (sl_len s) (arrays st ! sl_arr s)"

definition grow :: "nat \<Rightarrow> nat" where
  "grow cap = (if cap = 0 then 1 else 2 * cap)"

definition append1 :: "qstore \<Rightarrow> slice \<Rightarrow> pid \<Rightarrow> qstore \<times> slice" where
  "append1 st s c =
     (if sl_len s < sl_cap s
      then let a = arrays st ! sl_arr s in
        (st\<lparr>arrays := (arrays st)[sl_arr s := take (sl_len s) a @ [c] @ drop (Suc (sl_len s)) a]\<rparr>,
         s\<lparr>sl_len := Suc (sl_len s)\<rparr>)
      else (st\<lparr>arrays := arrays st @ [contents st s @ [c]]\<rparr>,
            \<lparr>sl_arr = length (arrays st), sl_len = Suc (sl_len s), sl_cap = grow (sl_cap s)\<rparr>))"

definition new_slice :: "qstore \<Rightarrow> pid \<Rightarrow> qstore \<times> slice" where
  "new_slice st p =
     (st\<lparr>arrays := arrays st @ [[p]]\<rparr>, \<lparr>sl_arr = length (arrays st), sl_len = 1, sl_cap = 1\<rparr>)"

definition viable :: "qstore \<Rightarrow> slice \<Rightarrow> qstore \<times> slice match option" where
  "viable st s =
     (let (h, m) = IsViableMatch (heap st) s (contents st s) in (st\<lparr>heap := h\<rparr>, m))"

definition better :: "slice match option \<Rightarrow> slice match option \<Rightarrow> slice match option" where
  "better best consider =
     (case consider of
        None \<Rightarrow> best
      | Some m \<Rightarrow>
          (case best of
             None \<Rightarrow> Some m
           | Some b \<Rightarrow> if sl_len (Invited b) < sl_len (Invited m) then Some m else Some b))"

text \<open>\<open>bestMatchFor\<close> and its loop over the candidates.\<close>

function (sequential)
  bestMatchFor :: "qstore \<Rightarrow> slice \<Rightarrow> pid list \<Rightarrow> qstore \<times> slice match option" and
  considerAll :: "qstore \<Rightarrow> slice \<Rightarrow> slice match option \<Rightarrow> pid list \<Rightarrow> qstore \<times> slice match option"
where
  "bestMatchFor st s candidates =
     (if sl_len s > 10 then (st, None)
      else let (st', best) = considerAll st s None candidates in
        (case best of None \<Rightarrow> viable st' s | Some b \<Rightarrow> viable st' (Invited b)))"
| "considerAll st s best [] = (st, best)"
| "considerAll st s best (c # cs) =
     (let (st1, s') = append1 st s c; (st2, consider) = bestMatchFor st1 s' cs
      in considerAll st2 s (better best consider) cs)"
  by pat_completeness auto
termination
  by (relation "measure (\<lambda>x. case x of Inl (st, s, cs) \<Rightarrow> Suc (2 * length cs)
                                     | Inr (st, s, b, cs) \<Rightarrow> 2 * length cs)") auto

declare bestMatchFor.simps [simp del]

text \<open>\<open>Make\<close>: the players of the match are read from its slice when it returns.\<close>

fun Make_loop :: "qstore \<Rightarrow> pid list \<Rightarrow> qstore \<times> pid list match option" where
  "Make_loop st [] = (st, None)"
| "Make_loop st (p # ps) =
     (let (st1, s) = new_slice st p; (st2, m) = bestMatchFor st1 s ps in
      case m of
        Some m \<Rightarrow> (st2, Some \<lparr>MatchID = MatchID m, Invited = contents st2 (Invited m),
                            Accepted = Accepted m, Positions = Positions m\<rparr>)
      | None \<Rightarrow> Make_loop st2 ps)"

definition Make :: "pheap \<Rightarrow> pid list \<Rightarrow> pheap \<times> pid list match option" where
  "Make h active = (let (st, m) = Make_loop \<lparr>heap = h, arrays = []\<rparr> active in (heap st, m))"

subsection \<open>The store: what the search keeps of the slices it does not own\<close>

text \<open>
  A slice of the search (\<open>slice_ok\<close>): inside its array, at least half full, its capacity a
  small power of two or at least eight. \<open>keeps st st' s\<close>: between \<open>st\<close> and \<open>st'\<close> only
  positions of \<open>s\<close>'s array beyond its length, and new arrays, were written, and players were
  at most normalised.
\<close>

definition slice_ok :: "qstore \<Rightarrow> slice \<Rightarrow> bool" where
  "slice_ok st s \<longleftrightarrow>
     sl_arr s < length (arrays st) \<and> 1 \<le> sl_len s \<and> sl_len s \<le> sl_cap s
     \<and> sl_len s \<le> length (arrays st ! sl_arr s) \<and> sl_cap s < 2 * sl_len s
     \<and> (sl_cap s = 1 \<or> sl_cap s = 2 \<or> sl_cap s = 4 \<or> 8 \<le> sl_cap s)"

definition keeps :: "qstore \<Rightarrow> qstore \<Rightarrow> slice \<Rightarrow> bool" where
  "keeps st st' s \<longleftrightarrow>
     length (arrays st) \<le> length (arrays st')
     \<and> (\<forall>b < length (arrays st). b \<noteq> sl_arr s \<longrightarrow> arrays st' ! b = arrays st ! b)
     \<and> take (sl_len s) (arrays st' ! sl_arr s) = take (sl_len s) (arrays st ! sl_arr s)
     \<and> length (arrays st ! sl_arr s) \<le> length (arrays st' ! sl_arr s)
     \<and> renormed (heap st) (heap st')"

lemma keeps_refl [simp]: "keeps st st s"
  by (simp add: keeps_def)

lemma keeps_trans: "slice_ok st s \<Longrightarrow> keeps st st1 s \<Longrightarrow> keeps st1 st2 s \<Longrightarrow> keeps st st2 s"
  by (auto simp: keeps_def intro: renormed_trans)

lemma keeps_contents: "keeps st st' s \<Longrightarrow> contents st' s = contents st s"
  by (simp add: keeps_def contents_def)

lemma keeps_viable: "keeps st st' s \<Longrightarrow> viable_players (heap st') ps = viable_players (heap st) ps"
  by (simp add: keeps_def renormed_viable)

text \<open>Slices in other arrays, and shorter ones in the same array, are untouched.\<close>

lemma keeps_other:
  assumes "keeps st st' s" and "slice_ok st t"
    and "sl_arr t \<noteq> sl_arr s \<or> sl_len t \<le> sl_len s"
  shows "contents st' t = contents st t" and "slice_ok st' t"
proof -
  have "take (sl_len t) (arrays st' ! sl_arr t) = take (sl_len t) (arrays st ! sl_arr t)"
  proof (cases "sl_arr t = sl_arr s")
    case True
    then have "sl_len t \<le> sl_len s" using assms(3) by simp
    moreover have "take (sl_len s) (arrays st' ! sl_arr s) = take (sl_len s) (arrays st ! sl_arr s)"
      using assms(1) by (simp add: keeps_def)
    ultimately show ?thesis
      using True by (metis min.absorb1 take_take)
  qed (use assms in \<open>auto simp: keeps_def slice_ok_def\<close>)
  then show "contents st' t = contents st t" by (simp add: contents_def)
  show "slice_ok st' t"
    using assms(1,2) by (cases "sl_arr t = sl_arr s") (auto simp: keeps_def slice_ok_def)
qed

lemma keeps_slice_ok: "keeps st st' s \<Longrightarrow> slice_ok st s \<Longrightarrow> slice_ok st' s"
  using keeps_other(2) by blast

lemma length_contents: "slice_ok st s \<Longrightarrow> length (contents st s) = sl_len s"
  by (simp add: contents_def slice_ok_def)

lemma append1_ok:
  assumes "slice_ok st s" and "append1 st s c = (st1, s')"
  shows "slice_ok st1 s'" and "contents st1 s' = contents st s @ [c]"
    and "sl_len s' = Suc (sl_len s)" and "keeps st st1 s" and "heap st1 = heap st"
    and "sl_arr s' = sl_arr s \<and> sl_cap s' = sl_cap s \<and> sl_len s < sl_cap s
         \<or> sl_arr s' = length (arrays st) \<and> sl_len s = sl_cap s"
  using assms
  by (auto simp: append1_def slice_ok_def contents_def keeps_def grow_def Let_def nth_append
      split: if_splits)

lemma viable_eq:
  "viable st s = (st\<lparr>heap := fst (IsViableMatch (heap st) s (contents st s))\<rparr>,
                  snd (IsViableMatch (heap st) s (contents st s)))"
  by (simp add: viable_def split_def Let_def)

lemma viable_keeps: "viable st s = (st', m) \<Longrightarrow> keeps st st' t \<and> arrays st' = arrays st"
  by (auto simp: viable_eq keeps_def IsViableMatch_renormed)

lemma viable_Some_iff: "snd (viable st s) \<noteq> None \<longleftrightarrow> viable_players (heap st) (contents st s)"
  using IsViableMatch_Some_iff [of "heap st" s "contents st s"] by (simp add: viable_eq)

subsection \<open>What a returned match is\<close>

text \<open>
  \<open>good_match st m ps\<close>: the match \<open>m\<close> refers to a sound slice holding \<open>ps\<close>, a viable group, and
  has an assignment of positions for it.
\<close>

definition good_match :: "qstore \<Rightarrow> slice match \<Rightarrow> pid list \<Rightarrow> bool" where
  "good_match st m ps \<longleftrightarrow>
     slice_ok st (Invited m) \<and> contents st (Invited m) = ps \<and> viable_players (heap st) ps
     \<and> MatchID m = -1 \<and> Accepted m = [] \<and> assignment [] (map (want (heap st)) ps) (Positions m)"

lemma viable_good:
  assumes "viable st s = (st', Some m)" and "slice_ok st s"
  shows "good_match st' m (contents st s)" and "Invited m = s"
proof -
  have iv: "IsViableMatch (heap st) s (contents st s) = (heap st', Some m)"
    and ar: "arrays st' = arrays st"
    using assms(1) by (auto simp: viable_eq prod_eq_iff)
  note d = IsViableMatch_SomeD [OF iv]
  show "Invited m = s" by (rule d)
  then show "good_match st' m (contents st s)"
    using d ar assms(2)
    by (simp add: good_match_def slice_ok_def contents_def renormed_viable renormed_want)
qed

text \<open>
  The invariant of the loop over the candidates \<open>C\<close>: the best match so far still refers to the
  players of the search prefix followed by some candidates in queue order. When it shares the
  array of the prefix its last player may have been replaced by a later candidate, so it need
  not be viable any more.
\<close>

definition best_ok :: "nat \<Rightarrow> qstore \<Rightarrow> slice \<Rightarrow> slice match option \<Rightarrow> pid list \<Rightarrow> bool" where
  "best_ok n st s best C \<longleftrightarrow>
     (\<forall>b. best = Some b \<longrightarrow>
        slice_ok st (Invited b) \<and> sl_len (Invited b) \<le> 5
        \<and> (\<exists>qs. contents st (Invited b) = contents st s @ qs \<and> subseq qs C)
        \<and> (sl_arr (Invited b) = sl_arr s \<or> n \<le> sl_arr (Invited b))
        \<and> (sl_arr (Invited b) = sl_arr s \<longrightarrow> sl_cap (Invited b) = sl_cap s \<and> sl_len s < sl_cap s))"

lemma best_ok_None [simp]: "best_ok n st s None C"
  by (simp add: best_ok_def)

lemma best_short:
  assumes "slice_ok st s" and "best_ok n st s (Some b) C" and "sl_arr (Invited b) = sl_arr s"
  shows "sl_len (Invited b) \<le> Suc (sl_len s)"
proof -
  have "sl_len (Invited b) \<le> sl_cap s" "sl_len (Invited b) \<le> 5"
    using assms(2,3) by (auto simp: best_ok_def slice_ok_def)
  then show ?thesis using assms(1) by (auto simp: slice_ok_def)
qed

text \<open>Appending the next candidate keeps the invariant, replacing the last player at most.\<close>

lemma best_ok_append:
  assumes ok: "slice_ok st s" and best: "best_ok n st s best C" and c: "c \<in> set C"
    and app: "append1 st s c = (st1, s')"
  shows "best_ok n st1 s best C"
proof (cases best)
  case (Some b)
  let ?b = "Invited b"
  from best Some obtain qs where b: "slice_ok st ?b" "sl_len ?b \<le> 5"
      "contents st ?b = contents st s @ qs" "subseq qs C"
      "sl_arr ?b = sl_arr s \<Longrightarrow> sl_cap ?b = sl_cap s \<and> sl_len s < sl_cap s"
      "sl_arr ?b = sl_arr s \<or> n \<le> sl_arr ?b"
    by (auto simp: best_ok_def)
  note a = append1_ok [OF ok app]
  have len: "sl_len ?b = sl_len s + length qs"
    using b(3) length_contents [OF b(1)] length_contents [OF ok] by simp
  have cs: "contents st1 s = contents st s" by (rule keeps_contents [OF a(4)])
  show ?thesis
  proof (cases "sl_arr ?b = sl_arr s \<and> qs \<noteq> []")
    case False
    then have "sl_arr ?b \<noteq> sl_arr s \<or> sl_len ?b \<le> sl_len s" using len by auto
    from keeps_other [OF a(4) b(1) this] show ?thesis
      using Some b cs by (auto simp: best_ok_def)
  next
    case True
    then have cap: "sl_cap ?b = sl_cap s" "sl_len s < sl_cap s" using b(5) by auto
    have "length qs \<noteq> 0" using True by simp
    then have one: "sl_len ?b = Suc (sl_len s)"
      using best_short [OF ok best [unfolded Some]] True len by (cases qs) auto
    have st1: "st1 = fst (append1 st s c)" by (simp add: app)
    have "contents st1 ?b = contents st s @ [c]" and "slice_ok st1 ?b"
      using True cap one b(1) ok
      by (auto simp: st1 append1_def Let_def contents_def slice_ok_def)
    moreover have "subseq [c] C" using c by (simp add: subseq_singleton_left)
    ultimately show ?thesis
      using Some b(2) cap cs True by (auto simp: best_ok_def intro!: exI [of _ "[c]"])
  qed
qed simp

text \<open>The rest of the iteration, which owns the extended slice, keeps it too.\<close>

lemma keeps_extended:
  assumes ok: "slice_ok st s" and app: "append1 st s c = (st1, s')" and k: "keeps st1 st2 s'"
  shows "keeps st st2 s"
proof -
  note a = append1_ok [OF ok app]
  have lt: "sl_arr s < length (arrays st)" using ok by (simp add: slice_ok_def)
  from a(6) show ?thesis
  proof
    assume "sl_arr s' = sl_arr s \<and> sl_cap s' = sl_cap s \<and> sl_len s < sl_cap s"
    moreover have "take (sl_len s) xs = take (sl_len s) (take (sl_len s') xs)" for xs :: "pid list"
      using a(3) by (simp add: min_def)
    ultimately have "keeps st1 st2 s" using k unfolding keeps_def by metis
    with a(4) show ?thesis using keeps_trans [OF ok] by blast
  next
    assume n: "sl_arr s' = length (arrays st) \<and> sl_len s = sl_cap s"
    then have st1: "arrays st1 = arrays st @ [contents st s @ [c]]" "heap st1 = heap st"
      using app by (auto simp: append1_def)
    then have "arrays st2 ! b = arrays st ! b" if "b < length (arrays st)" for b
      using k n that by (auto simp: keeps_def nth_append)
    then show ?thesis using k st1 lt by (auto simp: keeps_def)
  qed
qed

lemma best_ok_extended:
  assumes ok: "slice_ok st s" and best: "best_ok n st s best C" and c: "c \<in> set C"
    and app: "append1 st s c = (st1, s')" and k: "keeps st1 st2 s'"
  shows "best_ok n st2 s best C"
proof (cases best)
  case (Some b)
  let ?b = "Invited b"
  note a = append1_ok [OF ok app]
  have b1: "best_ok n st1 s best C" by (rule best_ok_append [OF ok best c app])
  have ok1: "slice_ok st1 s" by (rule keeps_slice_ok [OF a(4) ok])
  have lt: "sl_arr ?b < length (arrays st)"
    using best Some by (auto simp: best_ok_def slice_ok_def)
  have "sl_arr ?b \<noteq> sl_arr s' \<or> sl_len ?b \<le> sl_len s'"
    using a(3,6) lt best_short [OF ok1 b1 [unfolded Some]] by auto
  then have "contents st2 ?b = contents st1 ?b" "slice_ok st2 ?b"
    using keeps_other [OF k, of ?b] b1 Some by (auto simp: best_ok_def)
  moreover have "contents st2 s = contents st1 s"
    using keeps_contents [OF keeps_extended [OF ok app k]] keeps_contents [OF a(4)] by simp
  ultimately show ?thesis using b1 Some by (auto simp: best_ok_def)
qed simp

subsection \<open>The search is sound\<close>

text \<open>
  \<open>result_ok st st' s cs r\<close>: the contract of a search from \<open>s\<close> over the candidates \<open>cs\<close>.
\<close>

definition result_ok :: "qstore \<Rightarrow> qstore \<Rightarrow> slice \<Rightarrow> pid list \<Rightarrow> slice match option \<Rightarrow> bool" where
  "result_ok st st' s cs r \<longleftrightarrow>
     keeps st st' s
     \<and> (\<forall>m. r = Some m \<longrightarrow>
          (\<exists>qs. good_match st' m (contents st s @ qs) \<and> subseq qs cs)
          \<and> (sl_arr (Invited m) = sl_arr s \<and> sl_cap (Invited m) = sl_cap s
             \<or> length (arrays st) \<le> sl_arr (Invited m)))"

lemma good_match_len: "good_match st m ps \<Longrightarrow> sl_len (Invited m) \<le> 5"
  by (metis good_match_def length_contents viable_players_def)

lemma best_ok_better:
  assumes ok: "slice_ok st s" and app: "append1 st s c = (st1, s')"
    and best: "best_ok n st2 s best C" and res: "result_ok st1 st2 s' cs r"
    and sub: "subseq (c # cs) C" and n: "n \<le> length (arrays st)"
  shows "best_ok n st2 s (better best r) C"
proof (cases r)
  case (Some m)
  note a = append1_ok [OF ok app]
  have k: "keeps st st2 s"
    using res keeps_extended [OF ok app] by (auto simp: result_ok_def)
  from res Some obtain qs where m: "good_match st2 m (contents st1 s' @ qs)" "subseq qs cs"
    by (auto simp: result_ok_def)
  have "contents st2 (Invited m) = contents st2 s @ c # qs"
    using m(1) a(2) keeps_contents [OF k] by (simp add: good_match_def)
  moreover have "subseq (c # qs) C"
    using m(2) sub by (meson subseq_Cons2 subseq_order.order_trans)
  moreover have "sl_cap (Invited m) = sl_cap s \<and> sl_len s < sl_cap s"
    if "sl_arr (Invited m) = sl_arr s"
    using res Some that a(6) ok a(4) by (auto simp: result_ok_def slice_ok_def keeps_def)
  moreover have "sl_arr (Invited m) = sl_arr s \<or> n \<le> sl_arr (Invited m)"
    using res Some a(4,6) n by (auto simp: result_ok_def keeps_def)
  ultimately have "best_ok n st2 s (Some m) C"
    using m(1) good_match_len [OF m(1)] by (auto simp: best_ok_def good_match_def)
  then show ?thesis using best Some by (auto simp: better_def split: option.splits)
qed (use best in \<open>simp add: better_def\<close>)


lemma search_sound:
  "slice_ok st s \<Longrightarrow> result_ok st (fst (bestMatchFor st s cs)) s cs (snd (bestMatchFor st s cs))"
  "slice_ok st s \<Longrightarrow> subseq cs C \<Longrightarrow> n \<le> length (arrays st) \<Longrightarrow> best_ok n st s best C \<Longrightarrow>
     keeps st (fst (considerAll st s best cs)) s
     \<and> best_ok n (fst (considerAll st s best cs)) s (snd (considerAll st s best cs)) C"
proof (induction st s cs and st s best cs arbitrary: and C n rule: bestMatchFor_considerAll.induct)
  case (1 st s cs)
  show ?case
  proof (cases "sl_len s > 10")
    case True
    then show ?thesis by (simp add: bestMatchFor.simps [of st s cs] result_ok_def)
  next
    case False
    obtain st' best where ca: "considerAll st s None cs = (st', best)" by fastforce
    with "1.IH" [OF False "1.prems", of cs "length (arrays st)"]
    have l: "keeps st st' s" "best_ok (length (arrays st)) st' s best cs" by simp_all
    let ?t = "case best of None \<Rightarrow> s | Some b \<Rightarrow> Invited b"
    have r: "bestMatchFor st s cs = viable st' ?t"
      using False ca by (simp add: bestMatchFor.simps [of st s cs] split: option.splits)
    have cs: "contents st' s = contents st s" by (rule keeps_contents [OF l(1)])
    have t: "slice_ok st' ?t" "\<exists>qs. contents st' ?t = contents st s @ qs \<and> subseq qs cs"
      "sl_arr ?t = sl_arr s \<and> sl_cap ?t = sl_cap s \<or> length (arrays st) \<le> sl_arr ?t"
      using l(2) keeps_slice_ok [OF l(1) "1.prems"] cs
      by (auto simp: best_ok_def split: option.splits)
    obtain st'' m where v: "viable st' ?t = (st'', m)" by fastforce
    have "keeps st st'' s"
      using keeps_trans [OF "1.prems" l(1)] viable_keeps [OF v, of s] by blast
    with r v t viable_good [of st' ?t st''] show ?thesis
      by (fastforce simp: result_ok_def)
  qed
next
  case (2 st s best)
  then show ?case by simp
next
  case (3 st s best c cs)
  obtain st1 s' where app: "append1 st s c = (st1, s')" by fastforce
  obtain st2 r where bm: "bestMatchFor st1 s' cs = (st2, r)" by fastforce
  note a = append1_ok [OF "3.prems"(1) app]
  have res: "result_ok st1 st2 s' cs r"
    using "3.IH"(1) [OF app [symmetric] refl a(1)] bm by simp
  have k: "keeps st st2 s"
    using keeps_extended [OF "3.prems"(1) app] res by (simp add: result_ok_def)
  have c: "c \<in> set C" using "3.prems"(2) by (auto dest: list_emb_set)
  have "best_ok n st2 s best C"
    using best_ok_extended [OF "3.prems"(1,4) c app] res by (simp add: result_ok_def)
  then have b: "best_ok n st2 s (better best r) C"
    using best_ok_better [OF "3.prems"(1) app _ res "3.prems"(2,3)] by blast
  have "slice_ok st2 s" "n \<le> length (arrays st2)" "subseq cs C"
    using keeps_slice_ok [OF k "3.prems"(1)] k "3.prems"(2,3)
    by (auto simp: keeps_def dest: subseq_Cons')
  with "3.IH"(2) [OF app [symmetric] refl bm [symmetric] refl, of C n] b
  show ?case using app bm keeps_trans [OF "3.prems"(1) k] by simp
qed


subsection \<open>The search is complete for pairs\<close>

text \<open>
  A slice whose array is full is never shared by the iterations over the candidates, so the
  best match found for it stays what it was.
\<close>

definition best_good :: "qstore \<Rightarrow> slice \<Rightarrow> slice match option \<Rightarrow> bool" where
  "best_good st s best \<longleftrightarrow>
     (\<forall>b. best = Some b \<longrightarrow> slice_ok st (Invited b) \<and> sl_arr (Invited b) \<noteq> sl_arr s
        \<and> viable_players (heap st) (contents st (Invited b)))"

lemma best_good_step:
  assumes ok: "slice_ok st s" and full: "sl_len s = sl_cap s" and best: "best_good st s best"
    and app: "append1 st s c = (st1, s')" and bm: "bestMatchFor st1 s' cs = (st2, r)"
  shows "best_good st2 s (better best r)" and "keeps st st2 s"
proof -
  note a = append1_ok [OF ok app]
  have new: "sl_arr s' = length (arrays st)" using a(6) full by simp
  have res: "result_ok st1 st2 s' cs r"
    using search_sound(1) [OF a(1), of cs] bm by simp
  then have k1: "keeps st1 st2 s'" by (simp add: result_ok_def)
  show k: "keeps st st2 s" by (rule keeps_extended [OF ok app k1])
  have old: "slice_ok st2 t \<and> contents st2 t = contents st t" if "slice_ok st t" "sl_arr t \<noteq> sl_arr s" for t
  proof -
    have "slice_ok st1 t" "contents st1 t = contents st t"
      using keeps_other [OF a(4) that(1)] that(2) by auto
    moreover have "sl_arr t \<noteq> sl_arr s'" using that(1) new by (auto simp: slice_ok_def)
    ultimately show ?thesis using keeps_other [OF k1] by auto
  qed
  have "renormed (heap st) (heap st2)" using k by (simp add: keeps_def)
  then have b: "best_good st2 s best"
    using best old by (auto simp: best_good_def renormed_viable)
  have "sl_arr s < length (arrays st)" "length (arrays st) \<le> length (arrays st1)"
    using ok a(4) by (auto simp: slice_ok_def keeps_def)
  then have "best_good st2 s r"
    using res new by (fastforce simp: best_good_def result_ok_def good_match_def)
  with b show "best_good st2 s (better best r)"
    by (auto simp: better_def best_good_def split: option.splits)
qed

lemma better_Some: "better best r = None \<longleftrightarrow> best = None \<and> r = None"
  by (auto simp: better_def split: option.splits)

lemma considerAll_full:
  "slice_ok st s \<Longrightarrow> sl_len s = sl_cap s \<Longrightarrow> best_good st s best \<Longrightarrow>
     considerAll st s best cs = (st', best') \<Longrightarrow>
     best_good st' s best' \<and> keeps st st' s \<and> (best \<noteq> None \<longrightarrow> best' \<noteq> None)"
proof (induction cs arbitrary: st best)
  case (Cons c cs)
  obtain st1 s' where app: "append1 st s c = (st1, s')" by fastforce
  obtain st2 r where bm: "bestMatchFor st1 s' cs = (st2, r)" by fastforce
  note g = best_good_step [OF Cons.prems(1,2,3) app bm]
  have "considerAll st2 s (better best r) cs = (st', best')"
    using Cons.prems(4) app bm by simp
  from Cons.IH [OF keeps_slice_ok [OF g(2) Cons.prems(1)] Cons.prems(2) g(1) this]
  show ?case using keeps_trans [OF Cons.prems(1) g(2)] by (auto simp: better_Some)
qed simp

lemma bestMatchFor_full:
  assumes ok: "slice_ok st s" and full: "sl_len s = sl_cap s" and len: "sl_len s \<le> 10"
    and ca: "considerAll st s None cs = (st', best)"
    and or: "best \<noteq> None \<or> viable_players (heap st) (contents st s)"
  shows "snd (bestMatchFor st s cs) \<noteq> None"
proof -
  have g: "best_good st' s best" "keeps st st' s"
    using considerAll_full [OF ok full _ ca] by (auto simp: best_good_def)
  show ?thesis
  proof (cases best)
    case None
    then have "viable_players (heap st') (contents st' s)"
      using or by (simp add: None keeps_contents [OF g(2)] keeps_viable [OF g(2)])
    then show ?thesis
      using None ca len viable_Some_iff [of st' s] by (simp add: bestMatchFor.simps [of st s cs])
  next
    case (Some b)
    then show ?thesis
      using g(1) ca len viable_Some_iff [of st' "Invited b"]
      by (simp add: bestMatchFor.simps [of st s cs] best_good_def)
  qed
qed

text \<open>With the pair \<open>[a, b]\<close> viable and \<open>b\<close> among the candidates, the search from \<open>a\<close> succeeds.\<close>

lemma new_slice_ok:
  assumes "new_slice st p = (st1, s)"
  shows "slice_ok st1 s" "contents st1 s = [p]" "sl_len s = 1" "sl_cap s = 1" "heap st1 = heap st"
  using assms by (auto simp: new_slice_def slice_ok_def contents_def)

lemma considerAll_pair:
  assumes "slice_ok st s" and "contents st s = [a]" and "sl_cap s = 1" and "best_good st s best"
    and "b \<in> set cs" and "viable_players (heap st) [a, b]" and "considerAll st s best cs = (st', best')"
  shows "best' \<noteq> None"
  using assms
proof (induction cs arbitrary: st best)
  case (Cons c cs)
  have len: "sl_len s = 1" using length_contents [OF Cons.prems(1)] Cons.prems(2) by simp
  obtain st1 s' where app: "append1 st s c = (st1, s')" by fastforce
  obtain st2 r where bm: "bestMatchFor st1 s' cs = (st2, r)" by fastforce
  note a = append1_ok [OF Cons.prems(1) app]
  have full: "sl_len s = sl_cap s" using len Cons.prems(3) by simp
  note g = best_good_step [OF Cons.prems(1) full Cons.prems(4) app bm]
  have ca: "considerAll st2 s (better best r) cs = (st', best')"
    using Cons.prems(7) app bm by simp
  have ok2: "slice_ok st2 s" by (rule keeps_slice_ok [OF g(2) Cons.prems(1)])
  show ?case
  proof (cases "c = b")
    case True
    have "sl_len s' = sl_cap s'" "contents st1 s' = [a, b]"
      using app len Cons.prems(2,3) True a(2) by (auto simp: append1_def grow_def)
    then have "r \<noteq> None"
      using bestMatchFor_full [OF a(1), of cs] a(3,5) len bm Cons.prems(6)
      by (cases "considerAll st1 s' None cs") fastforce
    then show ?thesis
      using considerAll_full [OF ok2 full g(1) ca] by (simp add: better_Some)
  next
    case False
    have "viable_players (heap st2) [a, b]" "contents st2 s = [a]"
      using Cons.prems(2,6) g(2) keeps_contents [OF g(2)] by (auto simp: keeps_viable)
    with Cons.IH [OF ok2 _ Cons.prems(3) g(1) _ _ ca] Cons.prems(5) False show ?thesis by simp
  qed
qed simp


subsection \<open>Make\<close>

lemma subseq_Cons_pair: "subseq [a, b] (p # ps) \<Longrightarrow> a = p \<and> b \<in> set ps \<or> subseq [a, b] ps"
  by (cases "a = p") (auto simp: subseq_Cons2_iff subseq_singleton_left)

lemma Make_loop_sound:
  assumes "Make_loop st active = (st', r)"
  shows "renormed (heap st) (heap st')
     \<and> (\<forall>m. r = Some m \<longrightarrow> subseq (Invited m) active \<and> viable_players (heap st) (Invited m)
          \<and> MatchID m = -1 \<and> Accepted m = []
          \<and> assignment [] (map (want (heap st)) (Invited m)) (Positions m))"
  using assms
proof (induction active arbitrary: st)
  case (Cons p ps)
  obtain st1 s where ns: "new_slice st p = (st1, s)" by fastforce
  obtain st2 m where bm: "bestMatchFor st1 s ps = (st2, m)" by fastforce
  note n = new_slice_ok [OF ns]
  have res: "result_ok st1 st2 s ps m" using search_sound(1) [OF n(1), of ps] bm by simp
  have rn: "renormed (heap st) (heap st2)" using res n(5) by (simp add: result_ok_def keeps_def)
  show ?case
  proof (cases m)
    case None
    then have "Make_loop st2 ps = (st', r)" using Cons.prems ns bm by simp
    from Cons.IH [OF this] show ?thesis
      using rn by (auto simp: renormed_viable renormed_want intro: renormed_trans)
  next
    case (Some b)
    with res obtain qs where "good_match st2 b ([p] @ qs)" "subseq qs ps"
      using n(2) by (auto simp: result_ok_def)
    with Some Cons.prems ns bm rn show ?thesis
      by (auto simp: good_match_def renormed_viable renormed_want)
  qed
qed simp

lemma Make_sound:
  assumes "Make h active = (h', Some m)"
  shows "subseq (Invited m) active" "viable_players h (Invited m)" "MatchID m = -1" "Accepted m = []"
    "assignment [] (map (want h) (Invited m)) (Positions m)" "renormed h h'"
  using assms Make_loop_sound [of "\<lparr>heap = h, arrays = []\<rparr>" active]
  by (auto simp: Make_def split: prod.splits)

lemma Make_renormed: "renormed h (fst (Make h active))"
  using Make_loop_sound [of "\<lparr>heap = h, arrays = []\<rparr>" active]
  by (auto simp: Make_def split: prod.splits)

lemma Make_loop_pair:
  "subseq [a, b] active \<Longrightarrow> viable_players (heap st) [a, b] \<Longrightarrow> snd (Make_loop st active) \<noteq> None"
proof (induction active arbitrary: st rule: list.induct)
  case (Cons p ps)
  obtain st1 s where ns: "new_slice st p = (st1, s)" by fastforce
  obtain st2 m where bm: "bestMatchFor st1 s ps = (st2, m)" by fastforce
  obtain st3 best where ca: "considerAll st1 s None ps = (st3, best)" by fastforce
  note n = new_slice_ok [OF ns]
  show ?case
  proof (cases "a = p \<and> b \<in> set ps")
    case True
    then have "best \<noteq> None"
      using considerAll_pair [OF n(1,2,4) _ _ _ ca, of b] n(5) Cons.prems(2)
      by (auto simp: best_good_def)
    then have "m \<noteq> None"
      using bestMatchFor_full [OF n(1) _ _ ca] n(3,4) bm by simp
    then show ?thesis using ns bm by (auto split: option.splits)
  next
    case False
    then have sub: "subseq [a, b] ps" using subseq_Cons_pair [OF Cons.prems(1)] by argo
    have "keeps st1 st2 s" using search_sound(1) [OF n(1), of ps] bm by (simp add: result_ok_def)
    from keeps_viable [OF this] have "viable_players (heap st2) [a, b]"
      using Cons.prems(2) n(5) by simp
    from Cons.IH [OF sub this] show ?thesis
      using ns bm by (auto split: option.splits)
  qed
qed simp

lemma Make_pair:
  "subseq [a, b] active \<Longrightarrow> viable_players h [a, b] \<Longrightarrow> snd (Make h active) \<noteq> None"
  using Make_loop_pair [of a b active "\<lparr>heap = h, arrays = []\<rparr>"]
  by (simp add: Make_def split_def Let_def)

subsection \<open>Properties\<close>

text \<open>
  C4: A match that \<open>Make\<close> returns is a viable group of waiting players, in queue order, with an
  assignment of positions; nobody has answered yet.
\<close>

theorem Make_viable:
  assumes "Make h active = (h', Some m)"
  shows "subseq (Invited m) active \<and> viable_players h (Invited m) \<and> MatchID m = -1 \<and> Accepted m = []
     \<and> assignment [] (map (want h) (Invited m)) (Positions m) \<and> renormed h h'"
  using Make_sound [OF assms] by blast

text \<open>
  C36: The search does not miss a pair: when two of the waiting players make a viable match, some
  match is found.
\<close>

theorem Make_finds_pair:
  assumes "subseq [a, b] active" and "viable_players h [a, b]"
  shows "snd (Make h active) \<noteq> None"
  by (rule Make_pair [OF assms])

text \<open>Four players of one region who want a match of four, and one of another region.\<close>

definition four_and_one :: pheap where
  "four_and_one p =
     (let reg = (if p < 4 then ''na'' else ''eu'') in
      \<lparr>SummonerName = ''a'', SummonerID = int p, Region = reg, pRank = \<lparr>Tier = ''gold'', Division = ''iii''\<rparr>,
       Criteria = \<lparr>cRegion = reg, MyPositions = [any], MinPlayers = (if p < 4 then 4 else 2),
                   MinRank = \<lparr>Tier = ''bronze'', Division = ''v''\<rparr>,
                   MaxRank = \<lparr>Tier = ''challenger'', Division = ''i''\<rparr>\<rparr>,
       InvitationPending = False\<rparr>)"

lemma four_found: "snd (Make four_and_one [0, 1, 2, 3]) \<noteq> None"
  by code_simp

lemma four_lost: "snd (Make four_and_one [0, 1, 2, 3, 4]) = None"
  by code_simp

text \<open>
  Larger groups can be missed. Four players who want a match of four are matched among
  themselves; with a fifth player of another region behind them nobody is: the branches of the
  search that append the fourth and the fifth player share an array, the later one overwrites
  the match found by the earlier one, and the final test rejects it.
\<close>

theorem match_of_four_lost:
  "snd (Make four_and_one [0, 1, 2, 3]) \<noteq> None \<and> snd (Make four_and_one [0, 1, 2, 3, 4]) = None"
  using four_found four_lost by simp

end
