(* ===== verification/Queue_Server.thy ===== *)
theory Queue_Server
  imports Queue_Search
begin

text \<open>
  The matchmaking server: \<open>lolqueue-master/server.go\<close> and the client side of a session in
  \<open>client.go\<close>. The server's state is shared by the goroutines of the sessions, of the match
  search and of the match timeouts; each of their critical sections is one action, and a
  goroutine is the list of the actions it still has to run. The step relation at the end
  interleaves them in any order.

  A \<open>*Client\<close> is a \<open>cid\<close> (an index into \<open>clients\<close>) and a \<open>*Match\<close> held by the server an \<open>mref\<close>
  (an index into \<open>matches\<close>): the server updates \<open>Accepted\<close> through the pointer. The out channel of
  a client is the list of the messages sent on it; a full channel (50 messages that no writer
  takes) would block the sender, which is not modelled. Delays are not modelled either: a
  goroutine that sleeps may go on at any later time.
\<close>

subsection \<open>Messages and sessions\<close>

type_synonym cid = nat
type_synonym mref = nat

datatype msg =
    PlayerStatus pid bool nat
  | Invite mref
  | Made "pid list match"
  | Fail
  | Error_msg string
  | Pong

datatype request =
    ActivateRequest bool "criteria option"
  | MatchRSVP int bool
  | ClientPing
  | OtherRequest

record client =
  cplayer :: pid
  outMsgs :: "msg list"
  disconnects :: "nat list"
  isDone :: bool

record server =
  activePlayers :: "pid list"
  clientsByPlayer :: "int \<rightharpoonup> cid list"
  pendingInvitations :: "int \<rightharpoonup> bool"
  pendingMatches :: "(int \<times> mref) list"
  matchID :: int
  players :: pheap
  clients :: "client list"
  matches :: "pid list match list"

definition NewServer :: "pheap \<Rightarrow> server" where
  "NewServer h =
     \<lparr>activePlayers = [], clientsByPlayer = Map.empty, pendingInvitations = Map.empty,
      pendingMatches = [], matchID = 0, players = h, clients = [], matches = []\<rparr>"

definition upd_client :: "cid \<Rightarrow> (client \<Rightarrow> client) \<Rightarrow> server \<Rightarrow> server" where
  "upd_client c f st = st\<lparr>clients := (clients st)[c := f (clients st ! c)]\<rparr>"

definition send :: "msg \<Rightarrow> cid \<Rightarrow> server \<Rightarrow> server" where
  "send m c = upd_client c (\<lambda>cl. cl\<lparr>outMsgs := outMsgs cl @ [m]\<rparr>)"

text \<open>\<open>Disconnect\<close> only starts the goroutine, which \<open>disconnect_fires\<close> runs (delays in ms).\<close>

definition Disconnect :: "nat \<Rightarrow> cid \<Rightarrow> server \<Rightarrow> server" where
  "Disconnect delay c = upd_client c (\<lambda>cl. cl\<lparr>disconnects := disconnects cl @ [delay]\<rparr>)"

definition disconnect_fires :: "nat \<Rightarrow> cid \<Rightarrow> server \<Rightarrow> server" where
  "disconnect_fires delay c = upd_client c
     (\<lambda>cl. cl\<lparr>disconnects := remove1 delay (disconnects cl), isDone := True\<rparr>)"

definition sid :: "server \<Rightarrow> pid \<Rightarrow> int" where
  "sid st p = SummonerID (players st p)"

definition key_of :: "server \<Rightarrow> pid \<Rightarrow> string" where
  "key_of st p = Key (players st p)"

definition clientsForPlayer :: "server \<Rightarrow> pid \<Rightarrow> cid list" where
  "clientsForPlayer st p = (case clientsByPlayer st (sid st p) of None \<Rightarrow> [] | Some cs \<Rightarrow> cs)"

definition client_player :: "server \<Rightarrow> cid \<Rightarrow> pid" where
  "client_player st c = cplayer (clients st ! c)"

subsection \<open>Sessions of a player\<close>

definition add :: "cid \<Rightarrow> server \<Rightarrow> server" where
  "add c st =
     (let i = sid st (client_player st c) in
      st\<lparr>clientsByPlayer := (clientsByPlayer st)(i \<mapsto>
           clientsForPlayer st (client_player st c) @ [c])\<rparr>)"

definition remove :: "cid \<Rightarrow> server \<Rightarrow> server" where
  "remove c st =
     (let i = sid st (client_player st c); cs = clientsForPlayer st (client_player st c) in
      if cs = [] then st
      else let cs' = remove_first (\<lambda>c'. c' = c) cs;
               st1 = st\<lparr>clientsByPlayer := (clientsByPlayer st)(i \<mapsto> cs')\<rparr> in
        if cs' \<noteq> [] then st1
        else st1\<lparr>clientsByPlayer := (clientsByPlayer st1)(i := None),
                 activePlayers := remove_first (\<lambda>p. sid st p = i) (activePlayers st)\<rparr>)"

definition activate :: "pid \<Rightarrow> server \<Rightarrow> server" where
  "activate p st =
     (if list_ex (\<lambda>q. sid st q = sid st p) (activePlayers st) then st
      else st\<lparr>activePlayers := activePlayers st @ [p],
              players := (players st)(p := (players st p)\<lparr>InvitationPending := False\<rparr>)\<rparr>)"

definition ActivatePlayer :: "pid \<Rightarrow> criteria option \<Rightarrow> server \<Rightarrow> server" where
  "ActivatePlayer p crit st =
     (let cs = clientsForPlayer st p;
          st1 = (case crit of
                   None \<Rightarrow> st
                 | Some c \<Rightarrow> st\<lparr>players := (players st)(p := (players st p)\<lparr>Criteria := c\<rparr>)\<rparr>);
          st2 = activate p st1
      in fold (\<lambda>c s. send (PlayerStatus p True (length (activePlayers s))) c s) cs st2)"

subsection \<open>Answers to an invitation\<close>

definition pendingMatchFor :: "pid \<Rightarrow> server \<Rightarrow> mref option" where
  "pendingMatchFor p st =
     map_option snd (find (\<lambda>(k, m). p \<in> set (Invited (matches st ! m))) (pendingMatches st))"

text \<open>The part of \<open>rsvp\<close> under the lock; \<open>m\<close> is the match found before.\<close>

definition rsvp_apply :: "pid \<Rightarrow> mref \<Rightarrow> bool \<Rightarrow> server \<Rightarrow> server" where
  "rsvp_apply p m accept st =
     (let st1 = st\<lparr>matches := (matches st)[m := (matches st ! m)
                   \<lparr>Accepted := AList.update (key_of st p) accept (Accepted (matches st ! m))\<rparr>]\<rparr>
      in fold (\<lambda>c. if \<not> accept then Disconnect 0 c else send (Invite m) c)
           (clientsForPlayer st p) st1)"

definition notify_made :: "pid list match option \<Rightarrow> cid \<Rightarrow> server \<Rightarrow> server" where
  "notify_made made c st =
     (case made of
        Some m \<Rightarrow> Disconnect 5000 c (send (Made m) c st)
      | None \<Rightarrow>
          let st1 = send Fail c st; p = client_player st c in
          st1\<lparr>players := (players st1)(p := (players st1 p)\<lparr>InvitationPending := False\<rparr>)\<rparr>)"

definition checkIfMatchMade :: "int \<Rightarrow> server \<Rightarrow> server" where
  "checkIfMatchMade k st =
     (case map_of (pendingMatches st) k of
        None \<Rightarrow> st
      | Some m \<Rightarrow>
          let match = matches st ! m in
          if length (Accepted match) \<noteq> length (Invited match) then st
          else let
            participants = filter (\<lambda>p. map_of (Accepted match) (key_of st p) = Some True) (Invited match);
            st1 = st\<lparr>pendingMatches := AList.delete k (pendingMatches st),
                     pendingInvitations :=
                       fold (\<lambda>p pi. pi(sid st p := None)) (Invited match) (pendingInvitations st)\<rparr>;
            (h, made) = IsViableMatch (players st1) participants participants;
            st2 = st1\<lparr>players := h\<rparr>
          in fold (\<lambda>p s. fold (notify_made made) (clientsForPlayer s p) s) participants st2)"

subsection \<open>The search for a match\<close>

text \<open>
  The result of \<open>lookForMatch\<close> is the match found; the code then starts its timeout goroutine
  and returns true.
\<close>

definition available :: "server \<Rightarrow> pid list" where
  "available st = filter (\<lambda>p. pendingInvitations st (sid st p) = None) (activePlayers st)"

definition invite :: "mref \<Rightarrow> pid \<Rightarrow> server \<Rightarrow> server" where
  "invite m p st =
     (let st1 = st\<lparr>pendingInvitations := (pendingInvitations st)(sid st p \<mapsto> True)\<rparr>
      in fold (send (Invite m)) (clientsForPlayer st1 p) st1)"

definition lookForMatch :: "server \<Rightarrow> server \<times> mref option" where
  "lookForMatch st =
     (let (h, found) = Make (players st) (available st); st1 = st\<lparr>players := h\<rparr> in
      case found of
        None \<Rightarrow> (st1, None)
      | Some match \<Rightarrow>
          let k = matchID st1 mod 10000000 + 1; m = length (matches st1);
              st2 = st1\<lparr>matchID := k, matches := matches st1 @ [match\<lparr>MatchID := k\<rparr>],
                        pendingMatches := AList.update k m (pendingMatches st1)\<rparr>
          in (fold (invite m) (Invited match) st2, Some m))"

subsection \<open>Requests of a client\<close>

definition validateCriteria :: "criteria \<Rightarrow> criteria fallible" where
  "validateCriteria c =
     (if cRegion c = '''' then Inl ''region required''
      else let
        c1 = (if MinPlayers c \<le> 1 then c\<lparr>MinPlayers := 2\<rparr> else c);
        c2 = (if Division (MinRank c1) = '''' \<or> Tier (MinRank c1) = ''''
              then c1\<lparr>MinRank := \<lparr>Tier = ''V'', Division = ''Bronze''\<rparr>\<rparr> else c1);
        c3 = (if Division (MaxRank c2) = '''' \<or> Tier (MaxRank c2) = ''''
              then c2\<lparr>MaxRank := \<lparr>Tier = ''I'', Division = ''Challenger''\<rparr>\<rparr> else c2);
        c4 = (if MyPositions c3 = [] then c3\<lparr>MyPositions := [any]\<rparr> else c3)
      in Inr c4)"

text \<open>
  The actions of the goroutines: \<open>ARsvp\<close> looks up the pending match and \<open>AApply\<close> records the
  answer (together \<open>rsvp\<close>, whose deferred call is \<open>ACheck\<close>); \<open>ATimeout\<close> is the loop of
  \<open>handleMatchTimeout\<close>, with the invitees still to look at; \<open>AReader\<close> waits for the next
  request of a client, and \<open>AClose\<close> is what \<open>OnConnect\<close> defers.
\<close>

datatype act =
    ARsvp pid bool
  | AApply pid mref bool
  | ACheck int
  | ATimeout mref "pid list"
  | AReader cid
  | AClose cid

fun exec :: "act \<Rightarrow> server \<Rightarrow> server \<times> act list" where
  "exec (ARsvp p accept) st =
     (case pendingMatchFor p st of
        None \<Rightarrow> (st, [])
      | Some m \<Rightarrow> (st, [AApply p m accept]))"
| "exec (AApply p m accept) st =
     (rsvp_apply p m accept st, [ACheck (MatchID (matches st ! m))])"
| "exec (ACheck k) st = (checkIfMatchMade k st, [])"
| "exec (ATimeout m []) st = (st, [])"
| "exec (ATimeout m (p # ps)) st =
     (st, (if map_of (Accepted (matches st ! m)) (key_of st p) = None then [ARsvp p False] else [])
          @ [ATimeout m ps])"
| "exec (AReader c) st = (st, [AReader c])"
| "exec (AClose c) st = (Disconnect 0 c (remove c st), [])"

text \<open>A request, as \<open>startReader\<close> handles it; returning ends the session.\<close>

fun handle_request :: "cid \<Rightarrow> request \<Rightarrow> server \<Rightarrow> server \<times> act list" where
  "handle_request c (ActivateRequest active crit) st =
     (let activateOr = (\<lambda>crit. (if active then ActivatePlayer (client_player st c) crit st
                                else Disconnect 250 c st, [AReader c]))
      in case crit of
           None \<Rightarrow> activateOr None
         | Some c0 \<Rightarrow>
             (case validateCriteria c0 of
                Inl e \<Rightarrow> (send (Error_msg e) c st, [AClose c])
              | Inr c1 \<Rightarrow> activateOr (Some (c1\<lparr>cRegion := Region (players st (client_player st c))\<rparr>))))"
| "handle_request c (MatchRSVP k accept) st = (st, [ARsvp (client_player st c) accept, AReader c])"
| "handle_request c ClientPing st = (send Pong c st, [AReader c])"
| "handle_request c OtherRequest st = (st, [AReader c])"

text \<open>
  A session that has been authenticated (\<open>OnConnect\<close> after \<open>addPlayer\<close>): \<open>p\<close> is the player
  object just built for it.
\<close>

definition OnConnect :: "pid \<Rightarrow> server \<Rightarrow> server \<times> act list" where
  "OnConnect p st =
     (let c = length (clients st);
          st1 = st\<lparr>clients := clients st @ [\<lparr>cplayer = p, outMsgs = [], disconnects = [], isDone = False\<rparr>]\<rparr>;
          st2 = add c st1
      in (send (PlayerStatus p False (length (activePlayers st2))) c st2, [AReader c]))"

subsection \<open>The interleaving\<close>

type_synonym system = "server \<times> act list list"

inductive step :: "system \<Rightarrow> system \<Rightarrow> bool" where
  connect: "OnConnect p st = (st', acts) \<Longrightarrow> step (st, ts) (st', ts @ [acts])"
| look_none: "lookForMatch st = (st', None) \<Longrightarrow> step (st, ts) (st', ts)"
| look_some: "lookForMatch st = (st', Some m) \<Longrightarrow>
    step (st, ts) (st', ts @ [[ATimeout m (Invited (matches st' ! m))]])"
| run: "exec a st = (st', acts) \<Longrightarrow> step (st, ts1 @ (a # t) # ts2) (st', ts1 @ (acts @ t) # ts2)"
| request: "\<not> isDone (clients st ! c) \<Longrightarrow> handle_request c r st = (st', acts) \<Longrightarrow>
    step (st, ts1 @ (AReader c # t) # ts2) (st', ts1 @ (acts @ t) # ts2)"
| expire: "step (st, ts1 @ (AReader c # t) # ts2) (Disconnect 1000 c st, ts1 @ (AReader c # t) # ts2)"
| hang_up: "step (st, ts1 @ (AReader c # t) # ts2) (st, ts1 @ (AClose c # t) # ts2)"
| fires: "delay \<in> set (disconnects (clients st ! c)) \<Longrightarrow> step (st, ts) (disconnect_fires delay c st, ts)"

inductive reachable :: "system \<Rightarrow> bool" where
  init: "reachable (NewServer h, [])"
| more: "reachable s \<Longrightarrow> step s s' \<Longrightarrow> reachable s'"

subsection \<open>What the parts of the server do to its view\<close>

text \<open>
  The invariants speak of the server without its client objects, and of a player only
  through the identity the server keeps it by: the \<open>view\<close> of a state.
\<close>

type_synonym view =
  "pid list \<times> (int \<rightharpoonup> bool) \<times> (int \<times> mref) list \<times> int \<times> (pid \<Rightarrow> int) \<times> (pid \<Rightarrow> string) \<times> pid list match list"

definition view :: "server \<Rightarrow> view" where
  "view st = (activePlayers st, pendingInvitations st, pendingMatches st, matchID st,
              sid st, key_of st, matches st)"

lemma viewD:
  assumes "view st = view st'"
  shows "activePlayers st = activePlayers st'" "pendingInvitations st = pendingInvitations st'"
    "pendingMatches st = pendingMatches st'" "matchID st = matchID st'" "sid st = sid st'"
    "key_of st = key_of st'" "matches st = matches st'"
  using assms by (simp_all add: view_def)

lemma view_upd_client [simp]: "view (upd_client c f st) = view st"
  by (simp add: view_def upd_client_def sid_def key_of_def fun_eq_iff)

lemma view_send [simp]: "view (send m c st) = view st"
  by (simp add: send_def)

lemma view_Disconnect [simp]: "view (Disconnect d c st) = view st"
  by (simp add: Disconnect_def)

lemma view_disconnect_fires [simp]: "view (disconnect_fires d c st) = view st"
  by (simp add: disconnect_fires_def)

lemma view_fold: "(\<And>x s. view (f x s) = view s) \<Longrightarrow> view (fold f xs st) = view st"
  by (induction xs arbitrary: st) simp_all

lemma Key_upd [simp]:
  "Key (p\<lparr>InvitationPending := b\<rparr>) = Key p" "Key (p\<lparr>Criteria := cr\<rparr>) = Key p"
  by (simp_all add: Key_def)

lemma view_notify_made [simp]: "view (notify_made made c st) = view st"
proof (cases made)
  case None
  have "view (send Fail c st) = view st" by simp
  then show ?thesis
    using None by (auto simp: notify_made_def Let_def view_def sid_def key_of_def fun_eq_iff)
qed (simp add: notify_made_def)

lemma view_add [simp]: "view (add c st) = view st"
  by (simp add: add_def Let_def view_def sid_def key_of_def fun_eq_iff)

lemma view_OnConnect: "view (fst (OnConnect p st)) = view st"
proof -
  have "view (add c (st\<lparr>clients := cs\<rparr>)) = view st" for c cs
    unfolding view_add by (simp add: view_def sid_def key_of_def fun_eq_iff)
  then show ?thesis by (simp add: OnConnect_def Let_def)
qed

lemma view_ActivatePlayer:
  "view (ActivatePlayer p cr st) =
     (let (act, rest) = view st in
      (if list_ex (\<lambda>q. sid st q = sid st p) act then act else act @ [p], rest))"
proof -
  have a: "view (fold (\<lambda>c s. send (PlayerStatus p True (length (activePlayers s))) c s) cs s) = view s"
    for cs s by (rule view_fold) simp
  show ?thesis
    unfolding ActivatePlayer_def Let_def a
    by (auto simp: activate_def view_def sid_def key_of_def fun_eq_iff list_ex_iff split: option.splits)
qed

lemma view_remove:
  "view (remove c st) =
     (let (act, rest) = view st in
      (if clientsForPlayer st (client_player st c) \<noteq> []
          \<and> remove_first (\<lambda>c'. c' = c) (clientsForPlayer st (client_player st c)) = []
       then remove_first (\<lambda>p. sid st p = sid st (client_player st c)) act else act, rest))"
  by (auto simp: remove_def Let_def view_def sid_def key_of_def fun_eq_iff)

lemma view_rsvp_apply:
  "view (rsvp_apply p m accept st) =
     (activePlayers st, pendingInvitations st, pendingMatches st, matchID st, sid st, key_of st,
      (matches st)[m := (matches st ! m)
        \<lparr>Accepted := AList.update (key_of st p) accept (Accepted (matches st ! m))\<rparr>])"
proof -
  have a: "view (fold (\<lambda>c. if \<not> accept then Disconnect 0 c else send (Invite m) c) cs s) = view s"
    for cs s by (rule view_fold) simp
  show ?thesis
    unfolding rsvp_apply_def Let_def a by (simp add: view_def sid_def key_of_def fun_eq_iff)
qed

lemma renormed_ids:
  assumes "renormed (players st) h"
  shows "sid (st\<lparr>players := h\<rparr>) = sid st" "key_of (st\<lparr>players := h\<rparr>) = key_of st"
  using assms by (simp_all add: sid_def key_of_def Key_def renormed_fields fun_eq_iff)

lemma view_checkIfMatchMade:
  "view (checkIfMatchMade k st) =
     (case map_of (pendingMatches st) k of
        Some m \<Rightarrow>
          if length (Accepted (matches st ! m)) = length (Invited (matches st ! m))
          then (activePlayers st,
                fold (\<lambda>p pi. pi(sid st p := None)) (Invited (matches st ! m)) (pendingInvitations st),
                AList.delete k (pendingMatches st), matchID st, sid st, key_of st, matches st)
          else view st
      | None \<Rightarrow> view st)"
proof -
  have a: "view (fold (\<lambda>p s. fold (notify_made made) (clientsForPlayer s p) s) ps s) = view s"
    for made ps s by (rule view_fold) (simp add: view_fold)
  have b: "SummonerID (fst (IsViableMatch h ps qs) x) = SummonerID (h x)"
    "Key (fst (IsViableMatch h ps qs) x) = Key (h x)" for h x and ps qs :: "pid list"
    using IsViableMatch_renormed [of h ps qs] by (simp_all add: Key_def renormed_fields)
  show ?thesis
    by (auto simp: checkIfMatchMade_def Let_def split_def a split: option.splits)
      (simp_all add: view_def sid_def key_of_def fun_eq_iff b)
qed

lemma view_invite:
  "view (fold (invite m) ps st) =
     (activePlayers st, fold (\<lambda>p pi. pi(sid st p \<mapsto> True)) ps (pendingInvitations st),
      pendingMatches st, matchID st, sid st, key_of st, matches st)"
proof (induction ps arbitrary: st)
  case (Cons p ps)
  have "view (invite m p st) = (activePlayers st, (pendingInvitations st)(sid st p \<mapsto> True),
      pendingMatches st, matchID st, sid st, key_of st, matches st)"
    unfolding invite_def Let_def by (simp add: view_fold) (simp add: view_def sid_def key_of_def fun_eq_iff)
  then have "activePlayers (invite m p st) = activePlayers st"
    "pendingInvitations (invite m p st) = (pendingInvitations st)(sid st p \<mapsto> True)"
    "pendingMatches (invite m p st) = pendingMatches st" "matchID (invite m p st) = matchID st"
    "sid (invite m p st) = sid st" "key_of (invite m p st) = key_of st"
    "matches (invite m p st) = matches st"
    by (simp_all add: view_def)
  with Cons.IH [of "invite m p st"] show ?case by simp
qed (simp add: view_def)

subsection \<open>The contract of the match maker\<close>

text \<open>
  What the server needs of \<open>Make\<close>: the invited players are some of the available ones, in
  queue order, between two and five, no answer is recorded yet, and players keep their identity.
\<close>

locale match_maker =
  fixes make :: "pheap \<Rightarrow> pid list \<Rightarrow> pheap \<times> pid list match option"
  assumes make_subseq: "make h act = (h', Some m) \<Longrightarrow> subseq (Invited m) act"
    and make_size: "make h act = (h', Some m) \<Longrightarrow> 2 \<le> length (Invited m) \<and> length (Invited m) \<le> 5"
    and make_fresh: "make h act = (h', Some m) \<Longrightarrow> Accepted m = []"
    and make_ids: "make h act = (h', r) \<Longrightarrow>
      SummonerID (h' p) = SummonerID (h p) \<and> Key (h' p) = Key (h p)"
begin

lemma make_mem: "make h act = (h', Some m) \<Longrightarrow> p \<in> set (Invited m) \<Longrightarrow> p \<in> set act"
  by (rule subseq_mem [OF make_subseq])

lemma make_distinct:
  assumes "make h act = (h', Some m)" and "distinct (map f act)"
  shows "distinct (map f (Invited m))"
  using subseq_distinct [OF subseq_map [OF make_subseq [OF assms(1)]] assms(2)] .

end

interpretation mm: match_maker Make
proof unfold_locales
  fix h act h' m
  assume mk: "Make h act = (h', Some m)"
  note s = Make_sound [OF mk]
  show "subseq (Invited m) act" "Accepted m = []" by (fact s)+
  show "2 \<le> length (Invited m) \<and> length (Invited m) \<le> 5" using s(2) by (simp add: viable_players_def)
next
  fix h act h' r p
  assume "Make h act = (h', r)"
  then have "renormed h h'" using Make_renormed [of h act] by simp
  then show "SummonerID (h' p) = SummonerID (h p) \<and> Key (h' p) = Key (h p)"
    by (simp add: Key_def renormed_fields)
qed

lemma view_lookForMatch_None:
  assumes "lookForMatch st = (st', None)"
  shows "view st' = view st"
proof -
  obtain h r where mk: "Make (players st) (available st) = (h, r)" by fastforce
  show ?thesis
    using assms mm.make_ids [OF mk] mk
    by (auto simp: lookForMatch_def Let_def view_def sid_def key_of_def fun_eq_iff split: option.splits)
qed

lemma lookForMatch_Some:
  assumes "lookForMatch st = (st', Some m)"
  obtains match h k where "Make (players st) (available st) = (h, Some match)"
    and "k = matchID st mod 10000000 + 1" and "m = length (matches st)"
    and "view st' = (activePlayers st,
           fold (\<lambda>p pi. pi(sid st p \<mapsto> True)) (Invited match) (pendingInvitations st),
           AList.update k m (pendingMatches st), k, sid st, key_of st, matches st @ [match\<lparr>MatchID := k\<rparr>])"
proof -
  obtain h r where mk: "Make (players st) (available st) = (h, r)" by fastforce
  with assms obtain match where r: "r = Some match" and m: "m = length (matches st)"
    by (auto simp: lookForMatch_def Let_def split: option.splits)
  have ids: "sid (st\<lparr>players := h\<rparr>) = sid st" "key_of (st\<lparr>players := h\<rparr>) = key_of st"
    using mm.make_ids [OF mk] by (auto simp: sid_def key_of_def)
  show ?thesis
  proof (rule that)
    show "Make (players st) (available st) = (h, Some match)" using mk r by simp
    show "view st' = (activePlayers st,
           fold (\<lambda>p pi. pi(sid st p \<mapsto> True)) (Invited match) (pendingInvitations st),
           AList.update (matchID st mod 10000000 + 1) m (pendingMatches st),
           matchID st mod 10000000 + 1, sid st, key_of st,
           matches st @ [match\<lparr>MatchID := matchID st mod 10000000 + 1\<rparr>])"
      using assms mk r m ids
      by (auto simp: lookForMatch_def Let_def view_invite)
        (simp_all add: sid_def key_of_def mm.make_ids [OF mk] fun_eq_iff)
  qed (use m in simp_all)
qed

subsection \<open>The invariant\<close>

definition pending_ok :: "server \<Rightarrow> int \<Rightarrow> mref \<Rightarrow> bool" where
  "pending_ok st k m \<longleftrightarrow>
     m < length (matches st) \<and> MatchID (matches st ! m) = k \<and> 1 \<le> k \<and> k \<le> 10000000
     \<and> 2 \<le> length (Invited (matches st ! m)) \<and> length (Invited (matches st ! m)) \<le> 5
     \<and> distinct (map (sid st) (Invited (matches st ! m)))
     \<and> (\<forall>p \<in> set (Invited (matches st ! m)). pendingInvitations st (sid st p) \<noteq> None)"

definition summoners :: "server \<Rightarrow> mref \<Rightarrow> int set" where
  "summoners st m = sid st ` set (Invited (matches st ! m))"

definition answers_ok :: "server \<Rightarrow> mref \<Rightarrow> bool" where
  "answers_ok st m \<longleftrightarrow>
     distinct (map fst (Accepted (matches st ! m)))
     \<and> fst ` set (Accepted (matches st ! m)) \<subseteq> key_of st ` set (Invited (matches st ! m))"

definition server_inv :: "server \<Rightarrow> bool" where
  "server_inv st \<longleftrightarrow>
     distinct (map (sid st) (activePlayers st))
     \<and> 0 \<le> matchID st \<and> matchID st \<le> 10000000
     \<and> distinct (map fst (pendingMatches st))
     \<and> (\<forall>(k, m) \<in> set (pendingMatches st). pending_ok st k m)
     \<and> (\<forall>(k, m) \<in> set (pendingMatches st). \<forall>(k', m') \<in> set (pendingMatches st).
          k \<noteq> k' \<longrightarrow> summoners st m \<inter> summoners st m' = {})
     \<and> (\<forall>m < length (matches st). answers_ok st m)"

text \<open>What is still to be done, by any goroutine; \<open>answers\<close> are the actions that will record one.\<close>

definition todo :: "act list list \<Rightarrow> act set" where
  "todo ts = (\<Union>t \<in> set ts. set t)"

fun answers :: "mref \<Rightarrow> pid \<Rightarrow> act \<Rightarrow> bool" where
  "answers m p (ATimeout m' ps) = (m' = m \<and> p \<in> set ps)"
| "answers m p (ARsvp p' b) = (p' = p)"
| "answers m p (AApply p' m' b) = (p' = p \<and> m' = m)"
| "answers m p _ = False"

definition applies_ok :: "server \<Rightarrow> act set \<Rightarrow> bool" where
  "applies_ok st A \<longleftrightarrow>
     (\<forall>p m b. AApply p m b \<in> A \<longrightarrow> m < length (matches st) \<and> p \<in> set (Invited (matches st ! m)))"

definition answered :: "server \<Rightarrow> mref \<Rightarrow> pid \<Rightarrow> bool" where
  "answered st m p \<longleftrightarrow> key_of st p \<in> fst ` set (Accepted (matches st ! m))"

text \<open>
  Progress: a match with all its answers has a check on the way, and every invitee of a pending
  match has answered or some goroutine will answer.
\<close>

definition progress :: "server \<Rightarrow> act set \<Rightarrow> bool" where
  "progress st A \<longleftrightarrow>
     (\<forall>(k, m) \<in> set (pendingMatches st).
        (length (Accepted (matches st ! m)) = length (Invited (matches st ! m)) \<longrightarrow> ACheck k \<in> A)
        \<and> (\<forall>p \<in> set (Invited (matches st ! m)). answered st m p \<or> (\<exists>a \<in> A. answers m p a)))"

definition system_inv :: "server \<Rightarrow> act set \<Rightarrow> bool" where
  "system_inv st A \<longleftrightarrow> server_inv st \<and> applies_ok st A \<and> progress st A"

lemma system_inv_view:
  assumes "view st = view st'"
  shows "system_inv st A = system_inv st' A"
  by (simp only: system_inv_def server_inv_def pending_ok_def summoners_def answers_ok_def
      applies_ok_def progress_def answered_def viewD [OF assms])

lemma system_inv_mono:
  assumes "system_inv st A" and "A \<subseteq> B"
    and "\<And>p m b. AApply p m b \<in> B \<Longrightarrow> AApply p m b \<in> A"
  shows "system_inv st B"
proof -
  have "progress st B" using assms(1,2) unfolding system_inv_def progress_def by blast
  moreover have "applies_ok st B" using assms(1,3) unfolding system_inv_def applies_ok_def by blast
  ultimately show ?thesis using assms(1) by (simp add: system_inv_def)
qed

lemma todo_simps [simp]:
  "todo (ts1 @ ts2) = todo ts1 \<union> todo ts2" "todo (t # ts) = set t \<union> todo ts" "todo [] = {}"
  by (auto simp: todo_def)

text \<open>An action that will not answer any more may be dropped, and a check that is not due.\<close>

lemma system_inv_drop:
  assumes "system_inv st (insert a R)"
    and "\<And>k m p. (k, m) \<in> set (pendingMatches st) \<Longrightarrow> p \<in> set (Invited (matches st ! m)) \<Longrightarrow>
       answers m p a \<Longrightarrow> answered st m p \<or> (\<exists>a' \<in> B \<union> R. answers m p a')"
    and "\<And>k m. (k, m) \<in> set (pendingMatches st) \<Longrightarrow> a = ACheck k \<Longrightarrow>
       length (Accepted (matches st ! m)) \<noteq> length (Invited (matches st ! m))"
    and "\<And>p m b. AApply p m b \<in> B \<Longrightarrow> m < length (matches st) \<and> p \<in> set (Invited (matches st ! m))"
  shows "system_inv st (B \<union> R)"
proof -
  have P: "progress st (insert a R)" using assms(1) by (simp add: system_inv_def)
  have "progress st (B \<union> R)"
    unfolding progress_def
  proof (intro ballI, clarify, intro conjI ballI impI)
    fix k m assume km: "(k, m) \<in> set (pendingMatches st)"
    have pr: "length (Accepted (matches st ! m)) = length (Invited (matches st ! m)) \<Longrightarrow> ACheck k \<in> insert a R"
      "p \<in> set (Invited (matches st ! m)) \<Longrightarrow> answered st m p \<or> (\<exists>a' \<in> insert a R. answers m p a')" for p
      using bspec [OF P [unfolded progress_def] km] by simp_all
    show "ACheck k \<in> B \<union> R"
      if "length (Accepted (matches st ! m)) = length (Invited (matches st ! m))"
      using pr(1) [OF that] assms(3) [OF km] that by auto
    show "answered st m p \<or> (\<exists>a' \<in> B \<union> R. answers m p a')"
      if "p \<in> set (Invited (matches st ! m))" for p
      using pr(2) [OF that] assms(2) [OF km that] by blast
  qed
  moreover have "applies_ok st (B \<union> R)"
    using assms(1,4) unfolding system_inv_def applies_ok_def by blast
  ultimately show ?thesis using assms(1) by (simp add: system_inv_def)
qed

lemma update_distinct_iff:
  assumes "distinct (map fst al)"
  shows "(k', v') \<in> set (AList.update k v al) \<longleftrightarrow> (if k' = k then v' = v else (k', v') \<in> set al)"
proof -
  have "(k', v') \<in> set (AList.update k v al) \<longleftrightarrow> map_of (AList.update k v al) k' = Some v'"
    using distinct_update [OF assms] map_of_eq_Some_iff by metis
  also have "... \<longleftrightarrow> (if k' = k then v' = v else (k', v') \<in> set al)"
    using assms by (auto simp: update_conv map_of_eq_Some_iff)
  finally show ?thesis .
qed

lemma delete_iff: "(k', v') \<in> set (AList.delete k al) \<longleftrightarrow> k' \<noteq> k \<and> (k', v') \<in> set al"
  by (auto simp: AList.delete_eq)

lemma fold_upd_Some:
  "fold (\<lambda>p pi. pi(f p \<mapsto> v)) ps pi x = (if x \<in> f ` set ps then Some v else pi x)"
  by (induction ps arbitrary: pi) auto

lemma fold_upd_None:
  "fold (\<lambda>p pi. pi(f p := None)) ps pi x = (if x \<in> f ` set ps then None else pi x)"
  by (induction ps arbitrary: pi) auto

lemma pendingMatchFor_SomeD:
  assumes "pendingMatchFor p st = Some m"
  obtains k where "(k, m) \<in> set (pendingMatches st)" and "p \<in> set (Invited (matches st ! m))"
  using assms by (auto simp: pendingMatchFor_def find_Some_iff) (metis nth_mem)

lemma pendingMatchFor_unique:
  assumes inv: "server_inv st" and km: "(k, m) \<in> set (pendingMatches st)"
    and p: "p \<in> set (Invited (matches st ! m))"
  shows "pendingMatchFor p st = Some m"
proof -
  have "find (\<lambda>(k, m). p \<in> set (Invited (matches st ! m))) (pendingMatches st) \<noteq> None"
    unfolding find_None_iff using km p by auto
  then obtain m' where m': "pendingMatchFor p st = Some m'" by (auto simp: pendingMatchFor_def)
  then obtain k' where k': "(k', m') \<in> set (pendingMatches st)" "p \<in> set (Invited (matches st ! m'))"
    by (rule pendingMatchFor_SomeD)
  have "sid st p \<in> summoners st m \<inter> summoners st m'" using p k'(2) by (simp add: summoners_def)
  then have "k = k'" using inv km k'(1) by (fastforce simp: server_inv_def)
  then have "m = m'" using inv km k'(1) by (metis server_inv_def eq_key_imp_eq_value)
  with m' show ?thesis by simp
qed

lemma system_inv_active:
  assumes inv: "system_inv st A" and v: "view st' = (act, snd (view st))" and d: "distinct (map (sid st) act)"
  shows "system_inv st' A"
proof -
  have f: "activePlayers st' = act" "pendingInvitations st' = pendingInvitations st"
    "pendingMatches st' = pendingMatches st" "matchID st' = matchID st" "sid st' = sid st"
    "key_of st' = key_of st" "matches st' = matches st"
    using v by (simp_all add: view_def)
  show ?thesis
    using inv d
    unfolding system_inv_def server_inv_def pending_ok_def summoners_def answers_ok_def
      applies_ok_def progress_def answered_def f
    by (elim conjE, intro conjI) assumption+
qed

lemma inv_AApply:
  assumes inv: "system_inv st (insert (AApply p m b) R)"
  shows "system_inv (rsvp_apply p m b st) (insert (ACheck (MatchID (matches st ! m))) R)"
proof -
  let ?st = "rsvp_apply p m b st" and ?A = "AList.update (key_of st p) b (Accepted (matches st ! m))"
  have s: "server_inv st" and a: "applies_ok st (insert (AApply p m b) R)"
    and pr: "progress st (insert (AApply p m b) R)"
    using inv by (simp_all add: system_inv_def)
  have m: "m < length (matches st)" and p: "p \<in> set (Invited (matches st ! m))"
    using a by (auto simp: applies_ok_def)
  have f: "activePlayers ?st = activePlayers st" "pendingInvitations ?st = pendingInvitations st"
    "pendingMatches ?st = pendingMatches st" "matchID ?st = matchID st" "sid ?st = sid st"
    "key_of ?st = key_of st" "matches ?st = (matches st)[m := (matches st ! m)\<lparr>Accepted := ?A\<rparr>]"
    using view_rsvp_apply [of p m b st] by (simp_all add: view_def)
  have i: "Invited (matches ?st ! n) = Invited (matches st ! n)"
    "MatchID (matches ?st ! n) = MatchID (matches st ! n)"
    "Accepted (matches ?st ! n) = (if n = m then ?A else Accepted (matches st ! n))" for n
    using m by (auto simp: f nth_list_update)
  have "answers_ok ?st n" if "n < length (matches st)" for n
  proof -
    have "answers_ok st n" using s that by (simp add: server_inv_def)
    then show ?thesis using p by (auto simp: answers_ok_def i f(6) dom_update distinct_update)
  qed
  then have s': "server_inv ?st"
    using s by (simp add: server_inv_def pending_ok_def summoners_def i f(1-6)) (simp add: f)
  have a': "applies_ok ?st (insert (ACheck (MatchID (matches st ! m))) R)"
    using a by (auto simp: applies_ok_def i) (simp_all add: f)
  have "progress ?st (insert (ACheck (MatchID (matches st ! m))) R)"
    unfolding progress_def
  proof (intro ballI, clarify, intro conjI ballI impI)
    fix k n assume "(k, n) \<in> set (pendingMatches ?st)"
    then have kn: "(k, n) \<in> set (pendingMatches st)" by (simp add: f)
    note old = bspec [OF pr [unfolded progress_def] kn]
    have k: "MatchID (matches st ! n) = k" using s kn by (auto simp: server_inv_def pending_ok_def)
    show "ACheck k \<in> insert (ACheck (MatchID (matches st ! m))) R"
      if "length (Accepted (matches ?st ! n)) = length (Invited (matches ?st ! n))"
      using old that k by (auto simp: i split: if_splits)
    show "answered ?st n q \<or> (\<exists>a \<in> insert (ACheck (MatchID (matches st ! m))) R. answers n q a)"
      if "q \<in> set (Invited (matches ?st ! n))" for q
    proof -
      have "answered st n q \<or> (\<exists>a \<in> insert (AApply p m b) R. answers n q a)"
        using old that by (simp add: i)
      then show ?thesis by (auto simp: answered_def i f(6) dom_update)
    qed
  qed
  with s' a' show ?thesis by (simp add: system_inv_def)
qed

lemma inv_ACheck:
  assumes inv: "system_inv st (insert (ACheck k) R)"
  shows "system_inv (checkIfMatchMade k st) R"
proof (cases "\<exists>m. map_of (pendingMatches st) k = Some m
    \<and> length (Accepted (matches st ! m)) = length (Invited (matches st ! m))")
  case False
  then have "view (checkIfMatchMade k st) = view st"
    by (auto simp: view_checkIfMatchMade split: option.splits)
  moreover have "system_inv st ({} \<union> R)"
  proof (rule system_inv_drop [OF inv])
    fix k' m assume "(k', m) \<in> set (pendingMatches st)" and "ACheck k = ACheck k'"
    then have "map_of (pendingMatches st) k = Some m"
      using inv by (simp add: system_inv_def server_inv_def map_of_eq_Some_iff)
    then show "length (Accepted (matches st ! m)) \<noteq> length (Invited (matches st ! m))"
      using False by simp
  qed simp_all
  ultimately show ?thesis using system_inv_view [of "checkIfMatchMade k st" st R] by simp
next
  case True
  then obtain m where m: "map_of (pendingMatches st) k = Some m"
      "length (Accepted (matches st ! m)) = length (Invited (matches st ! m))" by auto
  let ?st = "checkIfMatchMade k st"
  have f: "activePlayers ?st = activePlayers st"
    "pendingInvitations ?st = fold (\<lambda>p pi. pi(sid st p := None)) (Invited (matches st ! m)) (pendingInvitations st)"
    "pendingMatches ?st = AList.delete k (pendingMatches st)" "matchID ?st = matchID st" "sid ?st = sid st"
    "key_of ?st = key_of st" "matches ?st = matches st"
    using view_checkIfMatchMade [of k st] m by (simp_all add: view_def)
  have s: "server_inv st" and a: "applies_ok st (insert (ACheck k) R)"
    and pr: "progress st (insert (ACheck k) R)"
    using inv by (simp_all add: system_inv_def)
  have km: "(k, m) \<in> set (pendingMatches st)" using m(1) by (rule map_of_SomeD)
  have "pending_ok ?st k' m'" if "(k', m') \<in> set (pendingMatches ?st)" for k' m'
  proof -
    from that have k': "k' \<noteq> k" "(k', m') \<in> set (pendingMatches st)" by (auto simp: f delete_iff)
    then have "summoners st m' \<inter> summoners st m = {}" "pending_ok st k' m'"
      using s km by (fastforce simp: server_inv_def)+
    then show ?thesis by (auto simp: pending_ok_def f fold_upd_None summoners_def)
  qed
  then have po: "\<forall>(k', m') \<in> set (pendingMatches ?st). pending_ok ?st k' m'" by blast
  have dj: "\<forall>(k', m') \<in> set (pendingMatches ?st). \<forall>(k'', m'') \<in> set (pendingMatches ?st).
      k' \<noteq> k'' \<longrightarrow> summoners ?st m' \<inter> summoners ?st m'' = {}"
    using s by (fastforce simp: server_inv_def f summoners_def delete_iff)
  have "server_inv ?st"
    using s po dj by (simp add: server_inv_def answers_ok_def f distinct_delete)
  moreover have "progress ?st R"
    unfolding progress_def
  proof (intro ballI, clarify, intro conjI ballI impI)
    fix k' n assume "(k', n) \<in> set (pendingMatches ?st)"
    then have kn: "k' \<noteq> k" "(k', n) \<in> set (pendingMatches st)" by (auto simp: f delete_iff)
    note old = bspec [OF pr [unfolded progress_def] kn(2)]
    show "ACheck k' \<in> R" if "length (Accepted (matches ?st ! n)) = length (Invited (matches ?st ! n))"
      using old that kn(1) by (simp add: f)
    show "answered ?st n q \<or> (\<exists>a \<in> R. answers n q a)" if "q \<in> set (Invited (matches ?st ! n))" for q
      using old that by (simp add: f answered_def)
  qed
  ultimately show ?thesis using a by (simp add: system_inv_def applies_ok_def f)
qed

lemma inv_look:
  assumes inv: "system_inv st A" and look: "lookForMatch st = (st', Some m)"
  shows "system_inv st' (insert (ATimeout m (Invited (matches st' ! m))) A)"
proof -
  obtain match h k where mk: "Make (players st) (available st) = (h, Some match)"
    and k: "k = matchID st mod 10000000 + 1" and m: "m = length (matches st)"
    and v: "view st' = (activePlayers st,
           fold (\<lambda>p pi. pi(sid st p \<mapsto> True)) (Invited match) (pendingInvitations st),
           AList.update k m (pendingMatches st), k, sid st, key_of st, matches st @ [match\<lparr>MatchID := k\<rparr>])"
    using look by (rule lookForMatch_Some)
  have f: "activePlayers st' = activePlayers st"
    "pendingInvitations st' = fold (\<lambda>p pi. pi(sid st p \<mapsto> True)) (Invited match) (pendingInvitations st)"
    "pendingMatches st' = AList.update k m (pendingMatches st)" "matchID st' = k" "sid st' = sid st"
    "key_of st' = key_of st" "matches st' = matches st @ [match\<lparr>MatchID := k\<rparr>]"
    using v by (simp_all add: view_def)
  have s: "server_inv st" and a: "applies_ok st A" and pr: "progress st A"
    using inv by (simp_all add: system_inv_def)
  have new: "matches st' ! m = match\<lparr>MatchID := k\<rparr>" by (simp add: f m)
  have old: "n < length (matches st) \<Longrightarrow> matches st' ! n = matches st ! n" for n
    by (simp add: f nth_append)
  have len: "length (matches st') = Suc (length (matches st))" by (simp add: f)
  have pend: "(k', n) \<in> set (pendingMatches st') \<longleftrightarrow> (if k' = k then n = m else (k', n) \<in> set (pendingMatches st))"
    for k' n unfolding f using s by (intro update_distinct_iff) (simp add: server_inv_def)
  have ok: "(k', n) \<in> set (pendingMatches st) \<Longrightarrow> pending_ok st k' n" for k' n
    using s by (auto simp: server_inv_def)
  have lt: "(k', n) \<in> set (pendingMatches st) \<Longrightarrow> n < length (matches st)" for k' n
    using ok by (simp add: pending_ok_def)
  have d: "distinct (map (sid st) (available st))"
    using s by (simp add: available_def server_inv_def distinct_map_filter)
  have kb: "1 \<le> k" "k \<le> 10000000" unfolding k by simp_all
  have pok: "pending_ok st' k' n" if "(k', n) \<in> set (pendingMatches st')" for k' n
  proof (cases "k' = k")
    case True
    then show ?thesis
      using that pend kb mm.make_size [OF mk] mm.make_distinct [OF mk d]
      by (simp add: pending_ok_def new f(2,5) fold_upd_Some) (simp add: f m)
  next
    case False
    then have "(k', n) \<in> set (pendingMatches st)" using that pend by simp
    with ok [OF this] show ?thesis
      by (auto simp: pending_ok_def old f(2,5) fold_upd_Some) (simp_all add: f)
  qed
  have fresh: "summoners st' n \<inter> summoners st' m = {}" if "(k', n) \<in> set (pendingMatches st)" for k' n
  proof -
    have "pendingInvitations st i = None" if "i \<in> summoners st' m" for i
      using that mm.make_mem [OF mk] by (auto simp: summoners_def new f(5) available_def)
    moreover have "pendingInvitations st i \<noteq> None" if "i \<in> summoners st' n" for i
      using ok [OF \<open>(k', n) \<in> set (pendingMatches st)\<close>] that
      by (auto simp: summoners_def pending_ok_def old f(5))
    ultimately show ?thesis by blast
  qed
  have same: "summoners st' n = summoners st n" if "n < length (matches st)" for n
    using old [OF that] by (simp add: summoners_def f(5))
  have dj: "summoners st' n \<inter> summoners st' n' = {}"
    if "(k', n) \<in> set (pendingMatches st')" "(k'', n') \<in> set (pendingMatches st')" "k' \<noteq> k''" for k' n k'' n'
  proof (cases "k' = k \<or> k'' = k")
    case True
    then show ?thesis using that pend fresh [of k' n] fresh [of k'' n'] by (auto split: if_splits)
  next
    case False
    then have "(k', n) \<in> set (pendingMatches st)" "(k'', n') \<in> set (pendingMatches st)"
      using that pend by simp_all
    moreover from this have "summoners st n \<inter> summoners st n' = {}"
      using s that(3) by (fastforce simp: server_inv_def)
    ultimately show ?thesis using same lt by simp
  qed
  have ans: "answers_ok st' n" if "n < length (matches st')" for n
  proof (cases "n = m")
    case True
    then show ?thesis using mm.make_fresh [OF mk] by (simp add: answers_ok_def new)
  next
    case False
    then have "n < length (matches st)" using that by (simp add: f m)
    with s old [OF this] show ?thesis by (simp add: server_inv_def answers_ok_def f(6))
  qed
  have "server_inv st'"
    unfolding server_inv_def
  proof (intro conjI)
    show "distinct (map (sid st') (activePlayers st'))" "distinct (map fst (pendingMatches st'))"
      using s by (simp_all add: server_inv_def f(1,3,5) distinct_update)
    show "0 \<le> matchID st'" "matchID st' \<le> 10000000" using kb by (simp_all add: f(4))
    show "\<forall>(k, m) \<in> set (pendingMatches st'). pending_ok st' k m" using pok by blast
    show "\<forall>(k, m) \<in> set (pendingMatches st'). \<forall>(k', m') \<in> set (pendingMatches st').
            k \<noteq> k' \<longrightarrow> summoners st' m \<inter> summoners st' m' = {}" using dj by blast
    show "\<forall>m < length (matches st'). answers_ok st' m" using ans by blast
  qed
  moreover have "applies_ok st' (insert (ATimeout m (Invited (matches st' ! m))) A)"
    using a old by (auto simp: applies_ok_def len intro: less_SucI)
  moreover have "progress st' (insert (ATimeout m (Invited (matches st' ! m))) A)"
    unfolding progress_def
  proof (intro ballI, clarify, intro conjI ballI impI)
    fix k' n assume kn: "(k', n) \<in> set (pendingMatches st')"
    show "ACheck k' \<in> insert (ATimeout m (Invited (matches st' ! m))) A"
      if "length (Accepted (matches st' ! n)) = length (Invited (matches st' ! n))"
    proof (cases "k' = k")
      case True
      then show ?thesis using kn pend that new mm.make_fresh [OF mk] mm.make_size [OF mk] by auto
    next
      case False
      then have kn': "(k', n) \<in> set (pendingMatches st)" using kn pend by simp
      from bspec [OF pr [unfolded progress_def] this] show ?thesis using that old [OF lt [OF kn']] by simp
    qed
    show "answered st' n q \<or> (\<exists>a \<in> insert (ATimeout m (Invited (matches st' ! m))) A. answers n q a)"
      if "q \<in> set (Invited (matches st' ! n))" for q
    proof (cases "k' = k")
      case True
      then show ?thesis using kn pend that by simp
    next
      case False
      then have kn': "(k', n) \<in> set (pendingMatches st)" using kn pend by simp
      from bspec [OF pr [unfolded progress_def] this] show ?thesis
        using that old [OF lt [OF kn']] by (auto simp: answered_def f(6))
    qed
  qed
  ultimately show ?thesis by (simp add: system_inv_def)
qed

lemma inv_remove:
  assumes "system_inv st A"
  shows "system_inv (remove c st) A"
proof -
  let ?cs = "clientsForPlayer st (client_player st c)"
  let ?act = "if ?cs \<noteq> [] \<and> remove_first (\<lambda>c'. c' = c) ?cs = []
       then remove_first (\<lambda>p. sid st p = sid st (client_player st c)) (activePlayers st)
       else activePlayers st"
  have "view (remove c st) = (?act, snd (view st))"
    unfolding view_remove by (simp add: view_def)
  moreover have "distinct (map (sid st) ?act)"
    using assms by (simp add: system_inv_def server_inv_def distinct_map_remove_first)
  ultimately show ?thesis by (rule system_inv_active [OF assms])
qed

lemma inv_ActivatePlayer:
  assumes "system_inv st A"
  shows "system_inv (ActivatePlayer p cr st) A"
proof -
  let ?act = "if list_ex (\<lambda>q. sid st q = sid st p) (activePlayers st) then activePlayers st
              else activePlayers st @ [p]"
  have "view (ActivatePlayer p cr st) = (?act, snd (view st))"
    unfolding view_ActivatePlayer by (simp add: view_def)
  moreover have "distinct (map (sid st) ?act)"
    using assms by (auto simp: system_inv_def server_inv_def list_ex_iff)
  ultimately show ?thesis by (rule system_inv_active [OF assms])
qed

lemma inv_exec:
  assumes inv: "system_inv st (insert a R)" and e: "exec a st = (st', acts)"
  shows "system_inv st' (set acts \<union> R)"
proof (cases a)
  case (ARsvp p b)
  have u: "pendingMatchFor p st = Some m"
    if "(k, m) \<in> set (pendingMatches st)" "p \<in> set (Invited (matches st ! m))" for k m
    using pendingMatchFor_unique that inv by (simp add: system_inv_def)
  have st': "st' = st" using e ARsvp by (auto split: option.splits)
  show ?thesis
    unfolding st'
  proof (rule system_inv_drop [OF inv])
    fix k m q assume km: "(k, m) \<in> set (pendingMatches st)" "q \<in> set (Invited (matches st ! m))" "answers m q a"
    then have "pendingMatchFor p st = Some m" "q = p" using u ARsvp by simp_all
    then have "acts = [AApply p m b]" using e ARsvp by simp
    then show "answered st m q \<or> (\<exists>a' \<in> set acts \<union> R. answers m q a')" using \<open>q = p\<close> by simp
  next
    fix q m b' assume "AApply q m b' \<in> set acts"
    then have q: "q = p" and m: "pendingMatchFor p st = Some m" using e ARsvp by (auto split: option.splits)
    from m obtain k where k: "(k, m) \<in> set (pendingMatches st)" "p \<in> set (Invited (matches st ! m))"
      by (rule pendingMatchFor_SomeD)
    then have "pending_ok st k m" using inv by (auto simp: system_inv_def server_inv_def)
    with k(2) q show "m < length (matches st) \<and> q \<in> set (Invited (matches st ! m))"
      by (simp add: pending_ok_def)
  qed (use ARsvp in simp_all)
next
  case (AApply p m b)
  then show ?thesis using inv_AApply inv e by auto
next
  case (ACheck k)
  then show ?thesis using inv_ACheck inv e by auto
next
  case (ATimeout m ps)
  show ?thesis
  proof (cases ps)
    case Nil
    then have "st' = st" "acts = []" using e ATimeout by simp_all
    then show ?thesis using system_inv_drop [OF inv, of "{}"] ATimeout Nil by simp
  next
    case (Cons p ps')
    have st': "st' = st" using e ATimeout Cons by simp
    show ?thesis
      unfolding st'
    proof (rule system_inv_drop [OF inv])
      fix k m' q assume "answers m' q a"
      then have m': "m' = m" "q = p \<or> q \<in> set ps'" using ATimeout Cons by auto
      show "answered st m' q \<or> (\<exists>a' \<in> set acts \<union> R. answers m' q a')"
      proof (cases "answered st m' q \<or> q \<in> set ps'")
        case True
        then show ?thesis using e ATimeout Cons m' by auto
      next
        case False
        then have "map_of (Accepted (matches st ! m)) (key_of st p) = None" "q = p"
          using m' by (auto simp: answered_def map_of_eq_None_iff)
        then show ?thesis using e ATimeout Cons by auto
      qed
    qed (use e ATimeout Cons in \<open>auto split: if_splits\<close>)
  qed
next
  case (AReader c)
  then show ?thesis using inv e by auto
next
  case (AClose c)
  have "system_inv st ({} \<union> R)" by (rule system_inv_drop [OF inv]) (use AClose in simp_all)
  then have "system_inv (remove c st) R" by (simp add: inv_remove)
  then show ?thesis
    using e AClose system_inv_view [of "Disconnect 0 c (remove c st)" "remove c st"] by auto
qed

lemma inv_add_passive:
  assumes "system_inv st R" and "\<And>p m b. AApply p m b \<notin> B"
  shows "system_inv st (B \<union> R)"
  by (rule system_inv_mono [OF assms(1)]) (use assms(2) in auto)

lemma inv_request:
  assumes inv: "system_inv st (insert (AReader c) R)" and r: "handle_request c r st = (st', acts)"
  shows "system_inv st' (set acts \<union> R)"
proof -
  have no: "AApply p m b \<notin> set acts" for p m b
    using r by (cases "(c, r, st)" rule: handle_request.cases) (auto simp: Let_def split: option.splits sum.splits)
  have R: "system_inv st R"
    using system_inv_drop [OF inv, of "{}"] by simp
  have v: "system_inv (send m c st) R" "system_inv (Disconnect d c st) R" for m d
    using R system_inv_view [of "send m c st" st] system_inv_view [of "Disconnect d c st" st] by simp_all
  have "system_inv st' R"
    using r R v inv_ActivatePlayer [OF R]
    by (cases "(c, r, st)" rule: handle_request.cases)
      (auto simp: Let_def split: option.splits sum.splits if_splits)
  then show ?thesis using no by (intro inv_add_passive)
qed

lemma step_inv:
  "step s s' \<Longrightarrow> system_inv (fst s) (todo (snd s)) \<Longrightarrow> system_inv (fst s') (todo (snd s'))"
proof (induction rule: step.induct)
  case (connect p st st' acts ts)
  have v: "view st' = view st" using view_OnConnect [of p st] connect.hyps by simp
  then have "system_inv st' (todo ts)" using connect.prems system_inv_view [OF v] by simp
  moreover have "set acts = {AReader (length (clients st))}"
    using connect.hyps by (auto simp: OnConnect_def Let_def)
  ultimately show ?case
    using inv_add_passive [of st' "todo ts" "set acts"] by (simp add: Un_commute)
next
  case (look_none st st' ts)
  then show ?case using system_inv_view [OF view_lookForMatch_None] by simp
next
  case (look_some st st' m ts)
  then show ?case using inv_look by simp
next
  case (run a st st' acts ts1 t ts2)
  then show ?case using inv_exec [of st a "todo ts1 \<union> set t \<union> todo ts2"] by (simp add: Un_ac)
next
  case (request st c r st' acts ts1 t ts2)
  then show ?case using inv_request [of st c "todo ts1 \<union> set t \<union> todo ts2"] by (simp add: Un_ac)
next
  case (expire st ts1 c t ts2)
  then show ?case using system_inv_view [of "Disconnect 1000 c st" st] by simp
next
  case (hang_up st ts1 c t ts2)
  then have "system_inv st ({AClose c} \<union> (todo ts1 \<union> set t \<union> todo ts2))"
    by (intro system_inv_drop [where a = "AReader c"]) (simp_all add: Un_ac)
  then show ?case by (simp add: Un_ac)
next
  case (fires delay st c ts)
  then show ?case using system_inv_view [of "disconnect_fires delay c st" st] by simp
qed

lemma reachable_inv: "reachable s \<Longrightarrow> system_inv (fst s) (todo (snd s))"
proof (induction rule: reachable.induct)
  case (init h)
  show ?case
    by (simp add: system_inv_def server_inv_def applies_ok_def progress_def NewServer_def)
qed (rule step_inv)

subsection \<open>Properties\<close>

lemma reachable_server_inv: "reachable (st, ts) \<Longrightarrow> server_inv st"
  using reachable_inv [of "(st, ts)"] by (simp add: system_inv_def)

lemma one_invitation:
  assumes "reachable (st, ts)" and "(k, m) \<in> set (pendingMatches st)"
    and "(k', m') \<in> set (pendingMatches st)"
    and "p \<in> set (Invited (matches st ! m))" and "q \<in> set (Invited (matches st ! m'))"
    and "sid st p = sid st q"
  shows "k = k' \<and> m = m' \<and> p = q"
proof -
  note inv = reachable_server_inv [OF assms(1)]
  have "sid st p \<in> summoners st m" using assms(4) by (simp add: summoners_def)
  moreover have "sid st p \<in> summoners st m'" using assms(5) by (simp add: summoners_def assms(6))
  ultimately have k: "k = k'" using inv assms(2,3) by (fastforce simp: server_inv_def)
  then have m: "m = m'" using inv assms(2,3) by (metis server_inv_def eq_key_imp_eq_value)
  have "pending_ok st k m" using inv assms(2) by (auto simp: server_inv_def)
  then have "inj_on (sid st) (set (Invited (matches st ! m)))"
    by (simp add: pending_ok_def distinct_map)
  with assms(4-6) m have "p = q" by (simp add: inj_on_def)
  with k m show ?thesis by simp
qed

text \<open>
  C1: A summoner is never invited to two pending matches at once, however the goroutines
  interleave.
\<close>

theorem one_invitation_each:
  assumes "reachable (st, ts)" and "(k, m) \<in> set (pendingMatches st)"
    and "(k', m') \<in> set (pendingMatches st)"
    and "p \<in> set (Invited (matches st ! m))" and "q \<in> set (Invited (matches st ! m'))"
    and "sid st p = sid st q"
  shows "k = k' \<and> m = m' \<and> p = q"
  by (rule one_invitation [OF assms])

text \<open>
  C18: When nothing is left to do but to wait for requests, no match whose invitees have distinct
  keys is still pending: each has been decided.
\<close>

theorem quiescent_decided:
  assumes "reachable (st, ts)" and "\<forall>t \<in> set ts. \<forall>a \<in> set t. \<exists>c. a = AReader c"
    and "(k, m) \<in> set (pendingMatches st)"
  shows "\<not> distinct (map (key_of st) (Invited (matches st ! m)))"
proof
  assume d: "distinct (map (key_of st) (Invited (matches st ! m)))"
  have inv: "system_inv st (todo ts)" using reachable_inv [OF assms(1)] by simp
  have A: "a \<in> todo ts \<Longrightarrow> \<exists>c. a = AReader c" for a using assms(2) by (auto simp: todo_def)
  note pr = bspec [OF conjunct2 [OF conjunct2 [OF inv [unfolded system_inv_def]],
      unfolded progress_def] assms(3)]
  have "answered st m p" if p: "p \<in> set (Invited (matches st ! m))" for p
  proof -
    have "answered st m p \<or> (\<exists>a \<in> todo ts. answers m p a)" using pr p by simp
    then show ?thesis using A by fastforce
  qed
  then have "key_of st ` set (Invited (matches st ! m)) \<subseteq> fst ` set (Accepted (matches st ! m))"
    by (auto simp: answered_def)
  moreover have "answers_ok st m"
    using inv assms(3) by (auto simp: system_inv_def server_inv_def pending_ok_def)
  ultimately have "set (map fst (Accepted (matches st ! m))) = set (map (key_of st) (Invited (matches st ! m)))"
    and "distinct (map fst (Accepted (matches st ! m)))"
    by (auto simp: answers_ok_def)
  then have "length (Accepted (matches st ! m)) = length (Invited (matches st ! m))"
    using d by (metis distinct_card length_map)
  then have "ACheck k \<in> todo ts" using pr by simp
  then show False using A by blast
qed

text \<open>
  The goroutines do finish: each action leaves less to do than it was, so one that serves no
  client runs out of actions after \<open>weight\<close> steps at most.
\<close>

fun weight :: "act \<Rightarrow> nat" where
  "weight (ARsvp p b) = 3"
| "weight (AApply p m b) = 2"
| "weight (ACheck k) = 1"
| "weight (ATimeout m ps) = 4 * length ps + 1"
| "weight (AReader c) = 0"
| "weight (AClose c) = 1"

fun run_acts :: "nat \<Rightarrow> act list \<Rightarrow> server \<Rightarrow> server \<times> act list" where
  "run_acts n [] st = (st, [])"
| "run_acts 0 t st = (st, t)"
| "run_acts (Suc n) (a # t) st = (let (st', acts) = exec a st in run_acts n (acts @ t) st')"

lemma exec_weight:
  assumes "exec a st = (st', acts)" and "\<And>c. a \<noteq> AReader c"
  shows "sum_list (map weight acts) < weight a" and "AReader c \<notin> set acts"
  using assms by (cases "(a, st)" rule: exec.cases; auto split: option.splits)+

text \<open>
  A goroutine that only answers, checks or times out invitations terminates: run on its own,
  it has nothing left to do after as many steps as its weight.
\<close>

theorem goroutines_finish:
  assumes "\<And>c. AReader c \<notin> set t" and "sum_list (map weight t) \<le> n"
  shows "snd (run_acts n t st) = []"
  using assms
proof (induction n t st rule: run_acts.induct)
  case (2 a t st)
  then show ?case using exec_weight(1) by (cases a) auto
next
  case (3 n a t st)
  obtain st' acts where e: "exec a st = (st', acts)" by fastforce
  have "a \<noteq> AReader c" for c using "3.prems"(1) [of c] by auto
  note w = exec_weight [OF e this]
  have "AReader c \<notin> set (acts @ t)" for c using w(2) "3.prems"(1) [of c] by auto
  moreover have "sum_list (map weight (acts @ t)) \<le> n" using w(1) "3.prems"(2) by simp
  ultimately show ?case using "3.IH" [OF e [symmetric]] e by simp
qed simp

text \<open>
  What the search invites: available players in queue order, a viable group, which from then
  on have a pending invitation and a match under the next number.
\<close>

theorem lookForMatch_invites:
  assumes "lookForMatch st = (st', Some m)"
  shows "subseq (Invited (matches st' ! m)) (available st)
     \<and> viable_players (players st) (Invited (matches st' ! m))
     \<and> Accepted (matches st' ! m) = []
     \<and> map_of (pendingMatches st') (matchID st mod 10000000 + 1) = Some m
     \<and> pendingInvitations st' = (\<lambda>i. if i \<in> sid st ` set (Invited (matches st' ! m))
          then Some True else pendingInvitations st i)"
proof -
  obtain match h k where mk: "Make (players st) (available st) = (h, Some match)"
    and k: "k = matchID st mod 10000000 + 1" and m: "m = length (matches st)"
    and v: "view st' = (activePlayers st,
           fold (\<lambda>p pi. pi(sid st p \<mapsto> True)) (Invited match) (pendingInvitations st),
           AList.update k m (pendingMatches st), k, sid st, key_of st, matches st @ [match\<lparr>MatchID := k\<rparr>])"
    using assms by (rule lookForMatch_Some)
  have new: "matches st' ! m = match\<lparr>MatchID := k\<rparr>" using v m by (simp add: view_def)
  have pi: "pendingInvitations st' =
      fold (\<lambda>p pi. pi(sid st p \<mapsto> True)) (Invited match) (pendingInvitations st)"
    and "map_of (pendingMatches st') k = Some m"
    using v by (simp_all add: view_def update_conv)
  then show ?thesis
    using Make_sound [OF mk] by (simp add: new k pi fold_upd_Some fun_eq_iff)
qed

text \<open>
  C37: When the last invitee has answered, the check decides the match: it is no longer pending
  and none of its invitees has a pending invitation. All of them, the players of a made match
  included, stay in the queue.
\<close>

theorem check_decides:
  assumes "map_of (pendingMatches st) k = Some m"
    and "length (Accepted (matches st ! m)) = length (Invited (matches st ! m))"
  shows "map_of (pendingMatches (checkIfMatchMade k st)) k = None
     \<and> (\<forall>p \<in> set (Invited (matches st ! m)). pendingInvitations (checkIfMatchMade k st) (sid st p) = None)
     \<and> activePlayers (checkIfMatchMade k st) = activePlayers st"
  using view_checkIfMatchMade [of k st] assms
  by (auto simp: view_def fold_upd_None delete_conv')

text \<open>
  An answer only counts from the session the invitation names: the answer of another session
  of the same summoner (another player object) finds no match and is dropped.
\<close>

theorem other_session_ignored:
  assumes "reachable (st, ts)" and "(k, m) \<in> set (pendingMatches st)"
    and "p \<in> set (Invited (matches st ! m))" and "sid st p' = sid st p" and "p' \<noteq> p"
  shows "exec (ARsvp p' accept) st = (st, [])"
proof -
  have "pendingMatchFor p' st = None"
  proof (cases "pendingMatchFor p' st")
    case (Some m')
    then obtain k' where "(k', m') \<in> set (pendingMatches st)" "p' \<in> set (Invited (matches st ! m'))"
      by (rule pendingMatchFor_SomeD)
    from one_invitation [OF assms(1,2) this(1) assms(3) this(2)] show ?thesis using assms(4,5) by simp
  qed simp
  then show ?thesis by simp
qed

text \<open>A goroutine that runs on its own is one interleaving.\<close>

lemma run_acts_reachable:
  "run_acts n t st = (st', t') \<Longrightarrow> reachable (st, ts1 @ t # ts2) \<Longrightarrow> reachable (st', ts1 @ t' # ts2)"
proof (induction n t st rule: run_acts.induct)
  case (3 n a t st)
  obtain st1 acts where e: "exec a st = (st1, acts)" by fastforce
  have "reachable (st1, ts1 @ (acts @ t) # ts2)"
    using "3.prems"(2) run [OF e] by (rule more)
  then show ?case using "3.IH" [OF e [symmetric]] "3.prems"(1) e by simp
qed simp_all

lemma clients_fold_upd:
  "distinct cs \<Longrightarrow> c < length (clients s) \<Longrightarrow>
     clients (fold (\<lambda>c. upd_client c f) cs s) ! c = (if c \<in> set cs then f (clients s ! c) else clients s ! c)"
proof (induction cs arbitrary: s)
  case (Cons a cs)
  then show ?case by (cases "a = c") (auto simp: upd_client_def)
qed simp

text \<open>
  The answers of a session are recorded under its player's key; a refusal asks every session
  of the player to disconnect, an acceptance sends each the updated invitation.
\<close>

theorem rsvp_recorded:
  assumes "m < length (matches st)" and "distinct (clientsForPlayer st p)"
    and "c \<in> set (clientsForPlayer st p)" and "c < length (clients st)"
  shows "map_of (Accepted (matches (rsvp_apply p m accept st) ! m)) (key_of st p) = Some accept
     \<and> (clients (rsvp_apply p m accept st) ! c =
          (if accept then (clients st ! c)\<lparr>outMsgs := outMsgs (clients st ! c) @ [Invite m]\<rparr>
           else (clients st ! c)\<lparr>disconnects := disconnects (clients st ! c) @ [0]\<rparr>))"
proof
  show "map_of (Accepted (matches (rsvp_apply p m accept st) ! m)) (key_of st p) = Some accept"
    using view_rsvp_apply [of p m accept st] assms(1) by (simp add: view_def update_conv)
  show "clients (rsvp_apply p m accept st) ! c =
          (if accept then (clients st ! c)\<lparr>outMsgs := outMsgs (clients st ! c) @ [Invite m]\<rparr>
           else (clients st ! c)\<lparr>disconnects := disconnects (clients st ! c) @ [0]\<rparr>)"
    using assms(2-4)
    by (cases accept) (simp_all add: rsvp_apply_def send_def Disconnect_def clients_fold_upd)
qed

text \<open>
  Criteria that are accepted name a region, ask for at least two players and want some
  position.
\<close>

theorem validateCriteria_ok:
  assumes "validateCriteria c = Inr c'"
  shows "cRegion c' = cRegion c \<and> cRegion c' \<noteq> '''' \<and> 2 \<le> MinPlayers c' \<and> MyPositions c' \<noteq> []
     \<and> (2 \<le> MinPlayers c \<longrightarrow> MinPlayers c' = MinPlayers c)
     \<and> (MyPositions c \<noteq> [] \<longrightarrow> MyPositions c' = MyPositions c)"
  using assms by (auto simp: validateCriteria_def Let_def split: if_splits)

lemma Val_default: "Val \<lparr>Tier = ''I'', Division = ''Challenger''\<rparr> = 0"
  by code_simp

text \<open>
  The default for the highest rank has its tier and division exchanged, so it counts as the
  lowest rank there is: criteria sent without it accept no player above Bronze V.
\<close>

theorem default_max_rank:
  assumes "validateCriteria c = Inr c'" and "Tier (MaxRank c) = '''' \<or> Division (MaxRank c) = ''''"
    and "Satisfied h c' ps" and "p \<in> set ps"
  shows "Val (pRank (h p)) = 0"
proof -
  have "MaxRank c' = \<lparr>Tier = ''I'', Division = ''Challenger''\<rparr>"
    using assms(1,2) by (auto simp: validateCriteria_def Let_def split: if_splits)
  then have "Val (pRank (h p)) \<le> 0"
    using assms(3,4) by (auto simp: Satisfied_iff Val_default)
  then show ?thesis using Val_bounds [of "pRank (h p)"] by simp
qed

end
