(* ===== verification/Queue_Demo.thy ===== *)
theory Queue_Demo
  imports Queue_Server
begin

text \<open>
  Concrete sessions of the matchmaking server: two players connect, become active and are
  invited to a match. The properties of the queue theories are applied to them.
\<close>

subsection \<open>A session with two players\<close>

definition demo_player :: "string \<Rightarrow> pid \<Rightarrow> player" where
  "demo_player name p =
     \<lparr>SummonerName = name, SummonerID = int p, Region = ''na'',
      pRank = \<lparr>Tier = ''Gold'', Division = ''II''\<rparr>,
      Criteria = \<lparr>cRegion = '''', MyPositions = [], MinPlayers = 0,
                  MinRank = \<lparr>Tier = '''', Division = ''''\<rparr>, MaxRank = \<lparr>Tier = '''', Division = ''''\<rparr>\<rparr>,
      InvitationPending = False\<rparr>"

definition demo_criteria :: criteria where
  "demo_criteria =
     \<lparr>cRegion = ''na'', MyPositions = [Mid, any], MinPlayers = 0,
      MinRank = \<lparr>Tier = '''', Division = ''''\<rparr>, MaxRank = \<lparr>Tier = ''Master'', Division = ''I''\<rparr>\<rparr>"

text \<open>Two players connect, become active and are invited; \<open>twins\<close> have the same name.\<close>

definition distinct_names :: "pid \<Rightarrow> player" where
  "distinct_names p = demo_player (if p = 0 then ''Ashe'' else ''Braum'') p"

definition twins :: "pid \<Rightarrow> player" where
  "twins p = demo_player ''Ashe'' p"

definition demo :: "pheap \<Rightarrow> server" where
  "demo h =
     (let st1 = fst (OnConnect 0 (NewServer h)); st2 = fst (OnConnect 1 st1);
          st3 = fst (handle_request 0 (ActivateRequest True (Some demo_criteria)) st2);
          st4 = fst (handle_request 1 (ActivateRequest True (Some demo_criteria)) st3)
      in fst (lookForMatch st4))"

definition demo_invited :: "pheap \<Rightarrow> server \<Rightarrow> bool" where
  "demo_invited h st \<longleftrightarrow>
     pendingMatches st = [(1, 0)] \<and> map Invited (matches st) = [[0, 1]]
     \<and> map Accepted (matches st) = [[]] \<and> map (sid st) [0, 1] = [0, 1]
     \<and> map (key_of st) [0, 1] = map (\<lambda>p. Key (h p)) [0, 1]"

lemma OnConnect_acts: "OnConnect p st = (fst (OnConnect p st), [AReader (length (clients st))])"
  by (simp add: OnConnect_def Let_def)

lemma demo_steps:
  assumes "snd (handle_request 0 r st2) = [AReader 0]" and "snd (handle_request 1 r st3) = [AReader 1]"
    and "clients (NewServer h) = []" "length (clients st1) = 1"
    and "\<not> isDone (clients st2 ! 0)" "\<not> isDone (clients st3 ! 1)"
    and "snd (lookForMatch st4) = Some 0"
    and "st1 = fst (OnConnect 0 (NewServer h))" "st2 = fst (OnConnect 1 st1)"
      "st3 = fst (handle_request 0 r st2)" "st4 = fst (handle_request 1 r st3)"
      "st5 = fst (lookForMatch st4)"
  shows "reachable (st5, [[AReader 0], [AReader 1], [ATimeout 0 (Invited (matches st5 ! 0))]])"
proof -
  have "reachable (st1, [] @ [[AReader 0]])"
    using more [OF init connect [OF OnConnect_acts, where p = 0], where h2 = h] assms(3,8) by auto
  then have "reachable (st2, [[AReader 0]] @ [[AReader 1]])"
    using more [OF _ connect [OF OnConnect_acts, where p = 1]] assms(4,9) by fastforce
  then have "reachable (st2, [] @ (AReader 0 # []) # [[AReader 1]])" by simp
  from more [OF this request [where r = r]] have "reachable (st3, [] @ ([AReader 0] @ []) # [[AReader 1]])"
    using assms(1,5,10) by (metis prod.collapse)
  then have "reachable (st3, [[AReader 0]] @ (AReader 1 # []) # [])" by simp
  from more [OF this request [where r = r]] have "reachable (st4, [[AReader 0]] @ ([AReader 1] @ []) # [])"
    using assms(2,6,11) by (metis prod.collapse)
  from more [OF this look_some] show ?thesis using assms(7,12) by (metis append_Cons append_Nil append_Nil2 prod.collapse)
qed


definition demo_ok :: "pheap \<Rightarrow> bool" where
  "demo_ok h =
     (let r = ActivateRequest True (Some demo_criteria);
          st1 = fst (OnConnect 0 (NewServer h)); st2 = fst (OnConnect 1 st1);
          st3 = fst (handle_request 0 r st2); st4 = fst (handle_request 1 r st3);
          st5 = fst (lookForMatch st4)
      in snd (handle_request 0 r st2) = [AReader 0] \<and> snd (handle_request 1 r st3) = [AReader 1]
         \<and> length (clients st1) = 1 \<and> \<not> isDone (clients st2 ! 0) \<and> \<not> isDone (clients st3 ! 1)
         \<and> snd (lookForMatch st4) = Some 0
         \<and> pendingMatches st5 = [(1, 0)] \<and> Invited (matches st5 ! 0) = [0, 1]
         \<and> sid st5 0 = 0 \<and> sid st5 1 = 1)"

definition two_objects :: "pid \<Rightarrow> player" where
  "two_objects p = (distinct_names p)\<lparr>SummonerID := if p = 2 then 0 else int p\<rparr>"

lemma demo_ok1: "demo_ok distinct_names"
  by code_simp

lemma demo_ok2: "demo_ok twins"
  by code_simp

lemma demo_ok3: "demo_ok two_objects"
  by code_simp

lemma demo_reachable:
  assumes "demo_ok h"
  shows "reachable (demo h, [[AReader 0], [AReader 1], [ATimeout 0 [0, 1]]])"
    "pendingMatches (demo h) = [(1, 0)]" "Invited (matches (demo h) ! 0) = [0, 1]"
    "sid (demo h) 0 = 0" "sid (demo h) 1 = 1"
proof -
  show i: "pendingMatches (demo h) = [(1, 0)]" "Invited (matches (demo h) ! 0) = [0, 1]"
    "sid (demo h) 0 = 0" "sid (demo h) 1 = 1"
    using assms by (simp_all add: demo_ok_def demo_def Let_def)
  have "reachable (demo h, [[AReader 0], [AReader 1], [ATimeout 0 (Invited (matches (demo h) ! 0))]])"
    unfolding demo_def Let_def
    by (rule demo_steps [OF _ _ _ _ _ _ _ refl refl refl refl refl])
      (use assms [unfolded demo_ok_def Let_def] in \<open>elim conjE, assumption | simp add: NewServer_def\<close>)+
  then show "reachable (demo h, [[AReader 0], [AReader 1], [ATimeout 0 [0, 1]]])" by (simp add: i)
qed

theorem one_invitation_each_witness:
  "pendingMatches (demo distinct_names) = [(1, 0)] \<and> (1::int) = 1 \<and> (0::mref) = 0 \<and> (0::pid) = 0"
  using one_invitation_each [OF demo_reachable(1) [OF demo_ok1], of 1 0 1 0 0 0]
    demo_reachable(2-5) [OF demo_ok1] by simp

lemma twins_timeout:
  "snd (run_acts 9 [ATimeout 0 [0, 1]] (demo twins)) = []"
  "pendingMatches (fst (run_acts 9 [ATimeout 0 [0, 1]] (demo twins))) = [(1, 0)]"
  by code_simp+

theorem quiescent_decided_witness:
  "let st = fst (run_acts 9 [ATimeout 0 [0, 1]] (demo twins)) in
     \<not> distinct (map (key_of st) (Invited (matches st ! 0)))"
proof -
  let ?st = "fst (run_acts 9 [ATimeout 0 [0, 1]] (demo twins))"
  have "run_acts 9 [ATimeout 0 [0, 1]] (demo twins) = (?st, [])"
    using twins_timeout(1) by (simp add: prod_eq_iff)
  from run_acts_reachable [OF this, of "[[AReader 0], [AReader 1]]" "[]"]
  have "reachable (?st, [[AReader 0], [AReader 1], []])"
    using demo_reachable(1) [OF demo_ok2] by simp
  then have "\<not> distinct (map (key_of ?st) (Invited (matches ?st ! 0)))"
    by (rule quiescent_decided [where k = 1]) (simp, unfold twins_timeout(2), simp)
  then show ?thesis by (simp only: Let_def not_False_eq_True)
qed

theorem goroutines_finish_witness: "snd (run_acts 3 [ARsvp 0 True] (demo twins)) = []"
  by (rule goroutines_finish) simp_all

definition demo_queue :: server where
  "demo_queue = (let h = distinct_names; r = ActivateRequest True (Some demo_criteria);
     st1 = fst (OnConnect 0 (NewServer h)); st2 = fst (OnConnect 1 st1);
     st3 = fst (handle_request 0 r st2) in fst (handle_request 1 r st3))"

lemma demo_queue_found: "lookForMatch demo_queue = (fst (lookForMatch demo_queue), Some 0)"
proof -
  have "snd (lookForMatch demo_queue) = Some 0"
    using demo_ok1 by (simp only: demo_ok_def demo_queue_def Let_def)
  then show ?thesis by (simp add: prod_eq_iff)
qed

theorem lookForMatch_invites_witness:
  "subseq (Invited (matches (fst (lookForMatch demo_queue)) ! 0)) (available demo_queue)"
  using lookForMatch_invites [OF demo_queue_found] by simp

definition demo_answered :: server where
  "demo_answered = rsvp_apply 1 0 True (rsvp_apply 0 0 True (demo distinct_names))"

lemma demo_answered:
  "map_of (pendingMatches demo_answered) 1 = Some 0"
  "length (Accepted (matches demo_answered ! 0)) = length (Invited (matches demo_answered ! 0))"
  by code_simp+

theorem check_decides_witness:
  "map_of (pendingMatches (checkIfMatchMade 1 demo_answered)) 1 = None
   \<and> activePlayers (checkIfMatchMade 1 demo_answered) = activePlayers demo_answered"
  using check_decides [OF demo_answered] by blast

theorem other_session_ignored_witness:
  "exec (ARsvp 2 True) (demo two_objects) = (demo two_objects, [])"
proof (rule other_session_ignored [OF demo_reachable(1) [OF demo_ok3], of 1 0 0])
  show "sid (demo two_objects) 2 = sid (demo two_objects) 0" by code_simp
qed (simp_all add: demo_reachable(2,3) [OF demo_ok3])

lemma demo_sessions:
  "length (matches (demo twins)) = 1" "clientsForPlayer (demo twins) 0 = [0]"
  "length (clients (demo twins)) = 2"
  by code_simp+

theorem rsvp_recorded_witness:
  "map_of (Accepted (matches (rsvp_apply 0 0 True (demo twins)) ! 0)) (key_of (demo twins) 0) = Some True"
  using rsvp_recorded [of 0 "demo twins" 0 0 True] by (simp add: demo_sessions)

lemma demo_validate:
  "validateCriteria demo_criteria = Inr \<lparr>cRegion = ''na'', MyPositions = [Mid, any], MinPlayers = 2,
      MinRank = \<lparr>Tier = ''V'', Division = ''Bronze''\<rparr>, MaxRank = \<lparr>Tier = ''Master'', Division = ''I''\<rparr>\<rparr>"
  by (simp add: validateCriteria_def demo_criteria_def)

theorem validateCriteria_ok_witness: "cRegion demo_criteria \<noteq> ''''"
  using validateCriteria_ok [OF demo_validate] by (simp add: demo_criteria_def)

definition bronze :: pheap where
  "bronze p = (distinct_names p)\<lparr>pRank := \<lparr>Tier = ''Bronze'', Division = ''V''\<rparr>\<rparr>"

definition open_criteria :: criteria where
  "open_criteria = demo_criteria\<lparr>MaxRank := \<lparr>Tier = '''', Division = ''''\<rparr>\<rparr>"

lemma open_validate:
  "validateCriteria open_criteria = Inr (open_criteria\<lparr>MinPlayers := 2,
      MinRank := \<lparr>Tier = ''V'', Division = ''Bronze''\<rparr>, MaxRank := \<lparr>Tier = ''I'', Division = ''Challenger''\<rparr>\<rparr>)"
  by (simp add: validateCriteria_def demo_criteria_def open_criteria_def)

theorem default_max_rank_witness: "Val (pRank (bronze 0)) = 0"
proof (rule default_max_rank [OF open_validate])
  show "Satisfied bronze (open_criteria\<lparr>MinPlayers := 2, MinRank := \<lparr>Tier = ''V'', Division = ''Bronze''\<rparr>,
      MaxRank := \<lparr>Tier = ''I'', Division = ''Challenger''\<rparr>\<rparr>) [0, 1]"
    by code_simp
qed (simp_all add: open_criteria_def)

text \<open>The match maker itself, on two players whose criteria are those of \<open>four_and_one\<close>.\<close>

lemma demo_pair: "viable_players (\<lambda>p. four_and_one 4) [0, 1]"
proof -
  have "snd (IsViableMatch (\<lambda>p. four_and_one 4) () [0, 1]) \<noteq> None" by code_simp
  then show ?thesis by (simp only: IsViableMatch_Some_iff)
qed

theorem Make_finds_pair_witness: "snd (Make (\<lambda>p. four_and_one 4) [0, 1]) \<noteq> None"
  by (rule Make_finds_pair [OF _ demo_pair]) simp

lemma demo_make:
  "Make (\<lambda>p. four_and_one 4) [0, 1] =
     (fst (Make (\<lambda>p. four_and_one 4) [0, 1]), Some (the (snd (Make (\<lambda>p. four_and_one 4) [0, 1]))))"
  using Make_pair [OF _ demo_pair, of "[0, 1]"] by (simp add: prod_eq_iff)

theorem Make_viable_witness:
  "viable_players (\<lambda>p. four_and_one 4) (Invited (the (snd (Make (\<lambda>p. four_and_one 4) [0, 1]))))"
  using Make_viable [OF demo_make] by blast

end
