(* ===== verification/Observer_Download.thy ===== *)
theory Observer_Download
  imports Go_Prelude
begin

text \<open>
  The download of a replay: \<open>lolobserver-master/download_state.go\<close> with the file saver
  (\<open>file_saver.go\<close>) and the retries of the spectator calls (\<open>riot_spectator_util.go\<close>).

  The Riot API and the remote file store are not part of the repository. They are the
  parameter \<open>env\<close>: the answer to the \<open>n\<close>-th request, and whether the \<open>n\<close>-th write or move of a
  file succeeds. A \<open>world\<close> counts them and holds the remote files. An \<open>error\<close> value of the code
  is an \<open>err\<close>, with \<open>None\<close> for \<open>nil\<close>. Log lines are left out.
\<close>

subsection \<open>The outside\<close>

record participant =
  Bot :: bool
  pSummonerID :: int

record current_game =
  GameID :: int
  PlatformID :: string
  MapID :: int
  GameMode :: string
  GameQueueConfigID :: int
  Participants :: "participant list"
  EncryptionKey :: string

record chunk_info =
  ChunkID :: int
  KeyFrameID :: int
  EndGameChunkID :: int
  NextChunkID :: int
  NextAvailableChunk :: int
  Duration :: int

datatype 'v answer = Nil_answer | Chunk_info chunk_info | Current_game current_game | Data 'v

datatype riot_request =
    LastChunkInfo string string string
  | GameDataChunk string string string int
  | KeyFrame string string string int
  | SpectatorGameMetaData string string int
  | Version string string

type_synonym err = "string option"

record 'v env =
  riot :: "nat \<Rightarrow> riot_request \<Rightarrow> string + 'v answer"
  write_file :: "nat \<Rightarrow> err"
  move :: "nat \<Rightarrow> string \<Rightarrow> err"
  GameIDStr :: "current_game \<Rightarrow> string"

record 'v world =
  nreq :: nat
  nwrite :: nat
  nmove :: nat
  remote :: "string \<rightharpoonup> 'v answer"

definition call :: "'v env \<Rightarrow> riot_request \<Rightarrow> 'v world \<Rightarrow> (string + 'v answer) \<times> 'v world" where
  "call env r w = (riot env (nreq w) r, w\<lparr>nreq := Suc (nreq w)\<rparr>)"

subsection \<open>Retries\<close>

text \<open>
  The loop both retry functions share: at most \<open>n\<close> attempts, until one succeeds; the result is
  that of the last attempt, \<open>res\<close> before the first.
\<close>

fun retry :: "nat \<Rightarrow> ('w \<Rightarrow> ('e + 'a) \<times> 'w) \<Rightarrow> 'e + 'a \<Rightarrow> 'w \<Rightarrow> ('e + 'a) \<times> 'w" where
  "retry 0 f res w = (res, w)"
| "retry (Suc n) f res w =
     (case f w of
        (Inr a, w') \<Rightarrow> (Inr a, w')
      | (Inl e, w') \<Rightarrow> retry n f (Inl e) w')"

type_synonym 'v spectator = "'v world \<Rightarrow> (string + 'v answer) \<times> 'v world"

definition riotWithRetry :: "'v spectator \<Rightarrow> nat \<Rightarrow> 'v spectator" where
  "riotWithRetry f numAttempts = retry numAttempts f (Inr Nil_answer)"

definition chunkInfo :: "'v env \<Rightarrow> string \<Rightarrow> string \<Rightarrow> string \<Rightarrow> 'v spectator" where
  "chunkInfo env server platformID gameID = call env (LastChunkInfo server platformID gameID)"

definition gameDataChunk :: "'v env \<Rightarrow> string \<Rightarrow> string \<Rightarrow> string \<Rightarrow> int \<Rightarrow> 'v spectator" where
  "gameDataChunk env server platformID gameID chunkID =
     call env (GameDataChunk server platformID gameID chunkID)"

definition keyframe :: "'v env \<Rightarrow> string \<Rightarrow> string \<Rightarrow> string \<Rightarrow> int \<Rightarrow> 'v spectator" where
  "keyframe env server platformID gameID keyframeID =
     call env (KeyFrame server platformID gameID keyframeID)"

definition meta :: "'v env \<Rightarrow> string \<Rightarrow> string \<Rightarrow> string \<Rightarrow> 'v spectator" where
  "meta env server platformID gameID w =
     (case parse_int gameID of
        None \<Rightarrow> (Inl (''strconv.ParseInt: parsing '' @ gameID), w)
      | Some matchID \<Rightarrow> call env (SpectatorGameMetaData server platformID matchID) w)"

definition version :: "'v env \<Rightarrow> string \<Rightarrow> string \<Rightarrow> 'v spectator" where
  "version env server platformID = call env (Version server platformID)"

subsection \<open>The file saver\<close>

definition getPath :: "string \<Rightarrow> string \<Rightarrow> string" where
  "getPath dir base = trim_suffix dir ''/'' @ ''/'' @ trim_prefix base ''/''"

definition try_move :: "'v env \<Rightarrow> string \<Rightarrow> 'v answer \<Rightarrow> 'v world \<Rightarrow> (string + unit) \<times> 'v world" where
  "try_move env destpath v w =
     (let w' = w\<lparr>nmove := Suc (nmove w)\<rparr> in
      case move env (nmove w) destpath of
        Some e \<Rightarrow> (Inl e, w')
      | None \<Rightarrow> (Inr (), w'\<lparr>remote := (remote w')(destpath \<mapsto> v)\<rparr>))"

definition err_of :: "string + unit \<Rightarrow> err" where
  "err_of r = (case r of Inl e \<Rightarrow> Some e | Inr _ \<Rightarrow> None)"

definition SaveAs :: "'v env \<Rightarrow> string \<Rightarrow> 'v answer \<Rightarrow> string \<Rightarrow> nat \<Rightarrow> 'v world \<Rightarrow> err \<times> 'v world" where
  "SaveAs env destDir v name maxAttempts w =
     (let w1 = w\<lparr>nwrite := Suc (nwrite w)\<rparr> in
      case write_file env (nwrite w) of
        Some e \<Rightarrow> (Some e, w1)
      | None \<Rightarrow>
          let (r, w2) = retry maxAttempts (try_move env (getPath destDir name) v) (Inr ()) w1
          in (err_of r, w2))"

subsection \<open>The state of a download\<close>

record replay_state =
  currentGame :: current_game
  lastChunkInfo :: chunk_info
  remoteGame :: bool
  chunks :: "int \<Rightarrow> bool"
  keyframes :: "int \<Rightarrow> bool"
  hasMeta :: bool
  hasVersion :: bool

text \<open>\<open>filepath.Base\<close>.\<close>

definition drop_slashes :: "string \<Rightarrow> string" where
  "drop_slashes s = rev (dropWhile (\<lambda>c. c = CHR ''/'') (rev s))"

definition base_name :: "string \<Rightarrow> string" where
  "base_name path =
     (if path = [] then ''.''
      else let p = drop_slashes path in
        if p = [] then ''/'' else rev (takeWhile (\<lambda>c. c \<noteq> CHR ''/'') (rev p)))"

definition parseChunkKeyframe :: "string \<Rightarrow> replay_state \<Rightarrow> err \<times> replay_state" where
  "parseChunkKeyframe basename r =
     (case split_on CHR ''_'' basename of
        [kind, number] \<Rightarrow>
          if kind \<noteq> ''chunk'' \<and> kind \<noteq> ''keyframe'' then (None, r)
          else (case parse_int number of
                  None \<Rightarrow> (Some (''cannot parse chunk/keyframe num from filename '' @ basename), r)
                | Some num \<Rightarrow>
                    if kind = ''chunk'' then (None, r\<lparr>chunks := (chunks r)(num := True)\<rparr>)
                    else (None, r\<lparr>keyframes := (keyframes r)(num := True)\<rparr>))
      | _ \<Rightarrow> (None, r))"

fun load :: "string list \<Rightarrow> replay_state \<Rightarrow> err \<times> replay_state" where
  "load [] r = (None, r)"
| "load (path # paths) r =
     (let base = base_name path in
      if base = ''current_game.json'' then load paths (r\<lparr>remoteGame := True\<rparr>)
      else if base = ''meta.json'' then load paths (r\<lparr>hasMeta := True\<rparr>)
      else if base = ''version'' then load paths (r\<lparr>hasVersion := True\<rparr>)
      else (case parseChunkKeyframe base r of
              (Some e, r') \<Rightarrow> (Some e, r')
            | (None, r') \<Rightarrow> load paths r'))"

definition no_chunk_info :: chunk_info where
  "no_chunk_info = \<lparr>ChunkID = 0, KeyFrameID = 0, EndGameChunkID = 0, NextChunkID = 0,
                    NextAvailableChunk = 0, Duration = 0\<rparr>"

definition NewReplaySaveState :: "current_game \<Rightarrow> string list \<Rightarrow> err \<times> replay_state" where
  "NewReplaySaveState game existingFiles =
     load existingFiles
       \<lparr>currentGame = game, lastChunkInfo = no_chunk_info, remoteGame = False,
        chunks = (\<lambda>_. False), keyframes = (\<lambda>_. False), hasMeta = False, hasVersion = False\<rparr>"

definition ShouldDownload :: "current_game \<Rightarrow> bool" where
  "ShouldDownload g =
     (let nonBots = length (filter (\<lambda>p. \<not> Bot p) (Participants g)) in
      if nonBots \<noteq> 10 then False
      else if MapID g \<noteq> 11 then False
      else if GameMode g \<noteq> ''CLASSIC'' then False
      else GameQueueConfigID g \<in> set [0, 2, 42, 400, 410, 420, 440])"

definition sanitizeLastChunk :: "chunk_info \<Rightarrow> chunk_info" where
  "sanitizeLastChunk c =
     (let c1 = c\<lparr>Duration := 30000, NextAvailableChunk := 0\<rparr> in
      if NextChunkID c1 < ChunkID c1 then c1\<lparr>NextChunkID := ChunkID c1\<rparr> else c1)"

text \<open>In milliseconds.\<close>

definition sleepDur :: "replay_state \<Rightarrow> int" where
  "sleepDur rs =
     (let dur = NextAvailableChunk (lastChunkInfo rs);
          dur' = (if dur < 1000 then 1000 else dur)
      in dur' + 1000)"

subsection \<open>The save functions\<close>

type_synonym 'v save = "replay_state \<Rightarrow> 'v world \<Rightarrow> err \<times> replay_state \<times> 'v world"

text \<open>What the save functions do with a call that must succeed: fetch, mark, save.\<close>

definition fetch_save ::
  "'v env \<Rightarrow> string \<Rightarrow> 'v spectator \<Rightarrow> nat \<Rightarrow> (replay_state \<Rightarrow> replay_state) \<Rightarrow> string \<Rightarrow> 'v save" where
  "fetch_save env saver f n mark name rs w =
     (case riotWithRetry f n w of
        (Inl e, w1) \<Rightarrow> (Some e, rs, w1)
      | (Inr out, w1) \<Rightarrow> let (e, w2) = SaveAs env saver out name 3 w1 in (e, mark rs, w2))"

definition saveCurrentGame :: "'v env \<Rightarrow> string \<Rightarrow> 'v save" where
  "saveCurrentGame env saver rs w =
     (if remoteGame rs then (None, rs, w)
      else let (e, w1) = SaveAs env saver (Current_game (currentGame rs)) ''current_game.json'' 3 w
        in (e, rs, w1))"

definition saveChunkInfo :: "'v env \<Rightarrow> string \<Rightarrow> string \<Rightarrow> 'v save" where
  "saveChunkInfo env server saver rs w =
     (let f = chunkInfo env server (PlatformID (currentGame rs)) (GameIDStr env (currentGame rs)) in
      case riotWithRetry f 15 w of
        (Inl e, w1) \<Rightarrow> (Some e, rs, w1)
      | (Inr (Chunk_info out), w1) \<Rightarrow>
          let info = sanitizeLastChunk out;
              (e, w2) = SaveAs env saver (Chunk_info info) ''last_chunk.json'' 3 w1
          in (e, rs\<lparr>lastChunkInfo := info\<rparr>, w2)
      | (Inr _, w1) \<Rightarrow> (Some ''panic: interface conversion'', rs, w1))"

definition saveChunk :: "'v env \<Rightarrow> string \<Rightarrow> string \<Rightarrow> int \<Rightarrow> 'v save" where
  "saveChunk env server saver chunkNum rs w =
     (if chunks rs chunkNum then (None, rs, w)
      else fetch_save env saver
        (gameDataChunk env server (PlatformID (currentGame rs)) (GameIDStr env (currentGame rs)) chunkNum)
        15 (\<lambda>rs. rs\<lparr>chunks := (chunks rs)(chunkNum := True)\<rparr>) (''chunk_'' @ show_int chunkNum) rs w)"

definition saveKeyframe :: "'v env \<Rightarrow> string \<Rightarrow> string \<Rightarrow> int \<Rightarrow> 'v save" where
  "saveKeyframe env server saver keyframeNum rs w =
     (if keyframes rs keyframeNum then (None, rs, w)
      else fetch_save env saver
        (keyframe env server (PlatformID (currentGame rs)) (GameIDStr env (currentGame rs)) keyframeNum)
        15 (\<lambda>rs. rs\<lparr>keyframes := (keyframes rs)(keyframeNum := True)\<rparr>)
        (''keyframe_'' @ show_int keyframeNum) rs w)"

definition saveMeta :: "'v env \<Rightarrow> string \<Rightarrow> string \<Rightarrow> 'v save" where
  "saveMeta env server saver rs w =
     (if hasMeta rs then (None, rs, w)
      else fetch_save env saver
        (meta env server (PlatformID (currentGame rs)) (GameIDStr env (currentGame rs)))
        15 (\<lambda>rs. rs\<lparr>hasMeta := True\<rparr>) ''meta.json'' rs w)"

definition saveVersion :: "'v env \<Rightarrow> string \<Rightarrow> string \<Rightarrow> 'v save" where
  "saveVersion env server saver rs w =
     (if hasVersion rs then (None, rs, w)
      else fetch_save env saver (version env server (PlatformID (currentGame rs)))
        10 (\<lambda>rs. rs\<lparr>hasVersion := True\<rparr>) ''version'' rs w)"

subsection \<open>Save\<close>

text \<open>
  The loops over the numbers \<open>1..last\<close>, with the message of a failure. \<open>wrap\<close> is \<open>fmt.Errorf\<close>
  around it.
\<close>

fun save_numbered :: "string \<Rightarrow> (int \<Rightarrow> 'v save) \<Rightarrow> int list \<Rightarrow> 'v save" where
  "save_numbered what f [] rs w = (None, rs, w)"
| "save_numbered what f (num # nums) rs w =
     (case f num rs w of
        (Some e, rs', w') \<Rightarrow> (Some (what @ '' (num: '' @ show_int num @ ''): '' @ e), rs', w')
      | (None, rs', w') \<Rightarrow> save_numbered what f nums rs' w')"

definition log_prefix :: "replay_state \<Rightarrow> string" where
  "log_prefix rs = ''match: '' @ show_int (GameID (currentGame rs)) @ '', failed to save''"

text \<open>
  One round of the loop: the chunk info and then every chunk and keyframe it announces. The
  second component tells whether the loop is left.
\<close>

definition save_round :: "'v env \<Rightarrow> string \<Rightarrow> string \<Rightarrow> replay_state \<Rightarrow> 'v world \<Rightarrow>
    err \<times> bool \<times> replay_state \<times> 'v world" where
  "save_round env server saver rs w =
     (case saveChunkInfo env server saver rs w of
        (Some e, rs1, w1) \<Rightarrow> (Some (log_prefix rs @ '' chunk info: '' @ e), True, rs1, w1)
      | (None, rs1, w1) \<Rightarrow>
     (case save_numbered (log_prefix rs @ '' chunk'') (saveChunk env server saver)
             [1..ChunkID (lastChunkInfo rs1)] rs1 w1 of
        (Some e, rs2, w2) \<Rightarrow> (Some e, True, rs2, w2)
      | (None, rs2, w2) \<Rightarrow>
     (case save_numbered (log_prefix rs @ '' keyframe'') (saveKeyframe env server saver)
             [1..KeyFrameID (lastChunkInfo rs2)] rs2 w2 of
        (Some e, rs3, w3) \<Rightarrow> (Some e, True, rs3, w3)
      | (None, rs3, w3) \<Rightarrow>
          let finalChunkNum = EndGameChunkID (lastChunkInfo rs3) in
          (None, finalChunkNum > 0 \<and> chunks rs3 finalChunkNum, rs3, w3))))"

partial_function (option) save_loop :: "'v env \<Rightarrow> string \<Rightarrow> string \<Rightarrow> replay_state \<Rightarrow> 'v world \<Rightarrow>
    (err \<times> replay_state \<times> 'v world) option" where
  "save_loop env server saver rs w =
     (case save_round env server saver rs w of
        (e, left, rs', w') \<Rightarrow>
          if left then Some (e, rs', w') else save_loop env server saver rs' w')"

definition Save :: "'v env \<Rightarrow> string \<Rightarrow> string \<Rightarrow> replay_state \<Rightarrow> 'v world \<Rightarrow>
    (err \<times> replay_state \<times> 'v world) option" where
  "Save env server saver rs w =
     (case saveCurrentGame env saver rs w of
        (Some e, rs1, w1) \<Rightarrow> Some (Some e, rs1, w1)
      | (None, rs1, w1) \<Rightarrow>
     (case save_loop env server saver rs1 w1 of
        None \<Rightarrow> None
      | Some (Some e, rs2, w2) \<Rightarrow> Some (Some e, rs2, w2)
      | Some (None, rs2, w2) \<Rightarrow>
     (case saveMeta env server saver rs2 w2 of
        (Some e, rs3, w3) \<Rightarrow> Some (Some (log_prefix rs @ '' meta: '' @ e), rs3, w3)
      | (None, rs3, w3) \<Rightarrow> Some (saveVersion env server saver rs3 w3))))"

subsection \<open>Contracts of the attempts\<close>

locale attempt =
  fixes try_once :: "'w \<Rightarrow> ('e + 'a) \<times> 'w" and inv :: "'w \<Rightarrow> bool" and good :: "'a \<Rightarrow> 'w \<Rightarrow> bool"
  assumes try_inv: "inv w \<Longrightarrow> inv (snd (try_once w))"
    and try_good: "inv w \<Longrightarrow> fst (try_once w) = Inr a \<Longrightarrow> good a (snd (try_once w))"
begin

lemma retry_inv: "inv w \<Longrightarrow> inv (snd (retry n try_once res w))"
proof (induction n arbitrary: res w)
  case (Suc n)
  show ?case using Suc.IH try_inv [OF Suc.prems] by (auto split: prod.splits sum.splits)
qed simp

lemma retry_good: "inv w \<Longrightarrow> 0 < n \<Longrightarrow> retry n try_once res w = (Inr a, w') \<Longrightarrow> good a w'"
proof (induction n arbitrary: res w)
  case (Suc n)
  show ?case
  proof (cases "fst (try_once w)")
    case (Inl e)
    then obtain w1 where t: "try_once w = (Inl e, w1)" by (metis prod.collapse)
    then have r: "retry n try_once (Inl e) w1 = (Inr a, w')" using Suc.prems(3) by simp
    have "inv w1" using try_inv [OF Suc.prems(1)] t by simp
    moreover from r have "0 < n" by (cases n) simp_all
    ultimately show ?thesis using Suc.IH r by blast
  next
    case (Inr b)
    then obtain w1 where t: "try_once w = (Inr b, w1)" by (metis prod.collapse)
    then show ?thesis using Suc.prems try_good [OF Suc.prems(1)] by simp
  qed
qed simp

text \<open>At most \<open>n\<close> attempts are made: when the first \<open>k < n\<close> fail, the next one decides.\<close>

lemma retry_first_success: "0 < n \<Longrightarrow> try_once w = (Inr a, w') \<Longrightarrow> retry n try_once res w = (Inr a, w')"
  by (cases n) simp_all

end

locale spectator_fn =
  fixes f :: "'v spectator"
  assumes f_remote: "remote (snd (f w)) = remote w"

sublocale spectator_fn \<subseteq> rem: attempt f "\<lambda>w. remote w = R" "\<lambda>_ w. remote w = R" for R
  by unfold_locales (simp_all add: f_remote)

context spectator_fn
begin

lemma riotWithRetry_remote: "riotWithRetry f n w = (r, w') \<Longrightarrow> remote w' = remote w"
  using rem.retry_inv [of w "remote w" n "Inr Nil_answer"] by (simp add: riotWithRetry_def)

end

lemma call_remote: "remote (snd (call env r w)) = remote w"
  by (simp add: call_def)

interpretation ci: spectator_fn "chunkInfo env s p g" for env s p g
  by unfold_locales (simp add: chunkInfo_def call_remote)

interpretation gc: spectator_fn "gameDataChunk env s p g n" for env s p g n
  by unfold_locales (simp add: gameDataChunk_def call_remote)

interpretation kf: spectator_fn "keyframe env s p g n" for env s p g n
  by unfold_locales (simp add: keyframe_def call_remote)

interpretation mt: spectator_fn "meta env s p g" for env s p g
  by unfold_locales (simp add: meta_def call_remote split: option.splits)

interpretation vs: spectator_fn "version env s p" for env s p
  by unfold_locales (simp add: version_def call_remote)

text \<open>Remote files are never removed.\<close>

definition grows :: "'v world \<Rightarrow> 'v world \<Rightarrow> bool" where
  "grows w w' \<longleftrightarrow> dom (remote w) \<subseteq> dom (remote w')"

lemma grows_refl [simp]: "grows w w"
  by (simp add: grows_def)

lemma grows_trans [trans]: "grows w w1 \<Longrightarrow> grows w1 w2 \<Longrightarrow> grows w w2"
  by (auto simp: grows_def)

interpretation mv: attempt "try_move env path v" "\<lambda>w. dom R \<subseteq> dom (remote w)"
    "\<lambda>_ w. remote w path = Some v" for env path v R
  by unfold_locales (auto simp: try_move_def Let_def split: option.splits)

definition has :: "string \<Rightarrow> 'v world \<Rightarrow> string \<Rightarrow> bool" where
  "has saver w name \<longleftrightarrow> remote w (getPath saver name) \<noteq> None"

lemma has_grows: "has saver w name \<Longrightarrow> grows w w' \<Longrightarrow> has saver w' name"
  by (auto simp: has_def grows_def)

lemma SaveAs_grows: "SaveAs env saver v name n w = (e, w') \<Longrightarrow> grows w w'"
  using mv.retry_inv [of "remote w" "w\<lparr>nwrite := Suc (nwrite w)\<rparr>" n env "getPath saver name" v "Inr ()"]
  by (auto simp: SaveAs_def Let_def grows_def split: option.splits prod.splits)

lemma SaveAs_saved:
  assumes "SaveAs env saver v name n w = (None, w')" and "0 < n"
  shows "remote w' (getPath saver name) = Some v"
proof -
  obtain r w2 where r: "retry n (try_move env (getPath saver name) v) (Inr ()) (w\<lparr>nwrite := Suc (nwrite w)\<rparr>) = (r, w2)"
    by fastforce
  with assms(1) have "err_of r = None" "w2 = w'"
    by (auto simp: SaveAs_def Let_def split: option.splits)
  then have "r = Inr ()" by (cases r) (simp_all add: err_of_def)
  with r \<open>w2 = w'\<close> mv.retry_good [of Map.empty _ n] assms(2) show ?thesis by fastforce
qed

subsection \<open>The marks are backed by files\<close>

definition backed :: "string \<Rightarrow> replay_state \<Rightarrow> 'v world \<Rightarrow> bool" where
  "backed saver rs w \<longleftrightarrow>
     (\<forall>n. chunks rs n \<longrightarrow> has saver w (''chunk_'' @ show_int n))
     \<and> (\<forall>n. keyframes rs n \<longrightarrow> has saver w (''keyframe_'' @ show_int n))
     \<and> (hasMeta rs \<longrightarrow> has saver w ''meta.json'') \<and> (hasVersion rs \<longrightarrow> has saver w ''version'')
     \<and> (remoteGame rs \<longrightarrow> has saver w ''current_game.json'')"

lemma backed_grows: "backed saver rs w \<Longrightarrow> grows w w' \<Longrightarrow> backed saver rs w'"
  using has_grows unfolding backed_def by blast

lemma fetch_save_ok:
  assumes "fetch_save env saver f n mark name rs w = (None, rs', w')" and "spectator_fn f"
  shows "rs' = mark rs \<and> has saver w' name \<and> grows w w'"
proof -
  obtain r w1 where r: "riotWithRetry f n w = (r, w1)" by fastforce
  with assms(1) obtain out where out: "r = Inr out" by (cases r) (simp_all add: fetch_save_def)
  obtain e w2 where s: "SaveAs env saver out name 3 w1 = (e, w2)" by fastforce
  have "e = None" "rs' = mark rs" "w2 = w'"
    using assms(1) r out s by (simp_all add: fetch_save_def)
  moreover have "grows w w1"
    using spectator_fn.riotWithRetry_remote [OF assms(2) r] by (simp add: grows_def)
  ultimately show ?thesis
    using SaveAs_grows [OF s] SaveAs_saved [of env saver out name 3 w1 w2] s
    by (auto simp: has_def intro: grows_trans)
qed

text \<open>A successful save function keeps the marks backed, and marks what it saved.\<close>

lemma saveCurrentGame_ok:
  assumes "saveCurrentGame env saver rs w = (None, rs', w')" and "backed saver rs w"
  shows "rs' = rs \<and> backed saver rs w' \<and> has saver w' ''current_game.json''"
proof (cases "remoteGame rs")
  case True
  then show ?thesis using assms by (auto simp: saveCurrentGame_def backed_def)
next
  case False
  obtain e w1 where s: "SaveAs env saver (Current_game (currentGame rs)) ''current_game.json'' 3 w = (e, w1)"
    by fastforce
  with assms(1) False have "e = None" "rs' = rs" "w1 = w'" by (simp_all add: saveCurrentGame_def)
  with s backed_grows [OF assms(2)] SaveAs_grows [OF s] SaveAs_saved [OF s [unfolded \<open>e = None\<close>]]
  show ?thesis by (simp add: has_def)
qed

lemma saveChunkInfo_ok:
  assumes "saveChunkInfo env server saver rs w = (None, rs', w')" and "backed saver rs w"
  shows "backed saver rs' w' \<and> (\<exists>info. rs' = rs\<lparr>lastChunkInfo := sanitizeLastChunk info\<rparr>)"
proof -
  let ?f = "chunkInfo env server (PlatformID (currentGame rs)) (GameIDStr env (currentGame rs))"
  obtain r w1 where r: "riotWithRetry ?f 15 w = (r, w1)" by fastforce
  with assms(1) obtain out where out: "r = Inr (Chunk_info out)"
    by (auto simp: saveChunkInfo_def Let_def split: sum.splits answer.splits)
  obtain e w2 where s: "SaveAs env saver (Chunk_info (sanitizeLastChunk out)) ''last_chunk.json'' 3 w1 = (e, w2)"
    by fastforce
  have rs: "rs' = rs\<lparr>lastChunkInfo := sanitizeLastChunk out\<rparr>" "w2 = w'"
    using assms(1) r out s by (auto simp: saveChunkInfo_def Let_def)
  have "grows w w1" using ci.riotWithRetry_remote [OF r] by (simp add: grows_def)
  then have "grows w w'" using SaveAs_grows [OF s] rs(2) grows_trans by blast
  then have "backed saver rs w'" by (rule backed_grows [OF assms(2)])
  then show ?thesis using rs(1) by (auto simp: backed_def)
qed

lemma saveChunk_ok:
  assumes "saveChunk env server saver num rs w = (None, rs', w')" and "backed saver rs w"
  shows "backed saver rs' w' \<and> lastChunkInfo rs' = lastChunkInfo rs
    \<and> (\<forall>n. chunks rs' n \<longleftrightarrow> chunks rs n \<or> n = num) \<and> keyframes rs' = keyframes rs
    \<and> remoteGame rs' = remoteGame rs"
proof (cases "chunks rs num")
  case True
  then show ?thesis using assms by (auto simp: saveChunk_def)
next
  case False
  with assms(1) have "fetch_save env saver
        (gameDataChunk env server (PlatformID (currentGame rs)) (GameIDStr env (currentGame rs)) num)
        15 (\<lambda>rs. rs\<lparr>chunks := (chunks rs)(num := True)\<rparr>) (''chunk_'' @ show_int num) rs w = (None, rs', w')"
    by (simp add: saveChunk_def)
  from fetch_save_ok [OF this gc.spectator_fn_axioms]
  have f: "rs' = rs\<lparr>chunks := (chunks rs)(num := True)\<rparr>" "has saver w' (''chunk_'' @ show_int num)"
    "grows w w'" by simp_all
  with backed_grows [OF assms(2) f(3)] show ?thesis by (auto simp: backed_def)
qed

lemma saveKeyframe_ok:
  assumes "saveKeyframe env server saver num rs w = (None, rs', w')" and "backed saver rs w"
  shows "backed saver rs' w' \<and> lastChunkInfo rs' = lastChunkInfo rs
    \<and> (\<forall>n. keyframes rs' n \<longleftrightarrow> keyframes rs n \<or> n = num) \<and> chunks rs' = chunks rs
    \<and> remoteGame rs' = remoteGame rs"
proof (cases "keyframes rs num")
  case True
  then show ?thesis using assms by (auto simp: saveKeyframe_def)
next
  case False
  with assms(1) have "fetch_save env saver
        (keyframe env server (PlatformID (currentGame rs)) (GameIDStr env (currentGame rs)) num)
        15 (\<lambda>rs. rs\<lparr>keyframes := (keyframes rs)(num := True)\<rparr>) (''keyframe_'' @ show_int num) rs w = (None, rs', w')"
    by (simp add: saveKeyframe_def)
  from fetch_save_ok [OF this kf.spectator_fn_axioms]
  have f: "rs' = rs\<lparr>keyframes := (keyframes rs)(num := True)\<rparr>" "has saver w' (''keyframe_'' @ show_int num)"
    "grows w w'" by simp_all
  with backed_grows [OF assms(2) f(3)] show ?thesis by (auto simp: backed_def)
qed

lemma saveMeta_ok:
  assumes "saveMeta env server saver rs w = (None, rs', w')" and "backed saver rs w"
  shows "backed saver rs' w' \<and> has saver w' ''meta.json'' \<and> grows w w'
    \<and> rs' = rs\<lparr>hasMeta := True\<rparr>"
proof (cases "hasMeta rs")
  case True
  then show ?thesis using assms by (auto simp: saveMeta_def backed_def)
next
  case False
  with assms(1) have "fetch_save env saver
        (meta env server (PlatformID (currentGame rs)) (GameIDStr env (currentGame rs)))
        15 (\<lambda>rs. rs\<lparr>hasMeta := True\<rparr>) ''meta.json'' rs w = (None, rs', w')"
    by (simp add: saveMeta_def)
  from fetch_save_ok [OF this mt.spectator_fn_axioms]
  show ?thesis using backed_grows [OF assms(2)] by (auto simp: backed_def)
qed

lemma saveVersion_ok:
  assumes "saveVersion env server saver rs w = (None, rs', w')" and "backed saver rs w"
  shows "backed saver rs' w' \<and> has saver w' ''version'' \<and> grows w w'
    \<and> rs' = rs\<lparr>hasVersion := True\<rparr>"
proof (cases "hasVersion rs")
  case True
  then show ?thesis using assms by (auto simp: saveVersion_def backed_def)
next
  case False
  with assms(1) have "fetch_save env saver (version env server (PlatformID (currentGame rs)))
        10 (\<lambda>rs. rs\<lparr>hasVersion := True\<rparr>) ''version'' rs w = (None, rs', w')"
    by (simp add: saveVersion_def)
  from fetch_save_ok [OF this vs.spectator_fn_axioms]
  show ?thesis using backed_grows [OF assms(2)] by (auto simp: backed_def)
qed

text \<open>The numbered loops: what one save keeps and adds, all of them keep and add.\<close>

locale numbered_saver =
  fixes save :: "int \<Rightarrow> 'v save" and keeps :: "replay_state \<Rightarrow> 'v world \<Rightarrow> bool"
    and marked :: "replay_state \<Rightarrow> int \<Rightarrow> bool"
  assumes save_keeps: "save n rs w = (None, rs', w') \<Longrightarrow> keeps rs w \<Longrightarrow> keeps rs' w'"
    and save_marks: "save n rs w = (None, rs', w') \<Longrightarrow> keeps rs w \<Longrightarrow> marked rs' k \<longleftrightarrow> marked rs k \<or> k = n"
begin

lemma save_numbered_ok:
  "save_numbered what save ns rs w = (None, rs', w') \<Longrightarrow> keeps rs w \<Longrightarrow>
     keeps rs' w' \<and> (\<forall>k. marked rs' k \<longleftrightarrow> marked rs k \<or> k \<in> set ns)"
proof (induction ns arbitrary: rs w)
  case (Cons n ns)
  obtain e rs1 w1 where s: "save n rs w = (e, rs1, w1)" by (metis prod_cases3)
  with Cons.prems(1) have e: "e = None" by (cases e) simp_all
  with s Cons.prems have "keeps rs1 w1" "\<And>k. marked rs1 k \<longleftrightarrow> marked rs k \<or> k = n"
    using save_keeps save_marks by blast+
  moreover have "save_numbered what save ns rs1 w1 = (None, rs', w')"
    using Cons.prems(1) s e by simp
  ultimately show ?case using Cons.IH by auto
qed simp

end

interpretation cs: numbered_saver "saveChunk env server saver"
    "\<lambda>rs w. backed saver rs w \<and> lastChunkInfo rs = info \<and> remoteGame rs = g" chunks
  for env server saver info g
  by unfold_locales (use saveChunk_ok in \<open>blast+\<close>)

interpretation ks: numbered_saver "saveKeyframe env server saver"
    "\<lambda>rs w. backed saver rs w \<and> lastChunkInfo rs = info \<and> remoteGame rs = g \<and> chunks rs = C" keyframes
  for env server saver info g C
  by unfold_locales (use saveKeyframe_ok in \<open>metis+\<close>)

subsection \<open>A round, the loop, and Save\<close>

text \<open>What a successful round leaves: everything the chunk info announces is marked.\<close>

definition round_done :: "replay_state \<Rightarrow> bool" where
  "round_done rs \<longleftrightarrow>
     (\<forall>n. 1 \<le> n \<and> n \<le> ChunkID (lastChunkInfo rs) \<longrightarrow> chunks rs n)
     \<and> (\<forall>n. 1 \<le> n \<and> n \<le> KeyFrameID (lastChunkInfo rs) \<longrightarrow> keyframes rs n)
     \<and> NextAvailableChunk (lastChunkInfo rs) = 0"

lemma sanitize_fields:
  "ChunkID (sanitizeLastChunk c) = ChunkID c" "KeyFrameID (sanitizeLastChunk c) = KeyFrameID c"
  "EndGameChunkID (sanitizeLastChunk c) = EndGameChunkID c"
  "NextAvailableChunk (sanitizeLastChunk c) = 0" "ChunkID c \<le> NextChunkID (sanitizeLastChunk c)"
  by (auto simp: sanitizeLastChunk_def Let_def)

lemma save_round_ok:
  assumes "save_round env server saver rs w = (None, left, rs', w')" and "backed saver rs w"
  shows "backed saver rs' w' \<and> round_done rs' \<and> remoteGame rs' = remoteGame rs
    \<and> (left \<longleftrightarrow> 0 < EndGameChunkID (lastChunkInfo rs') \<and> chunks rs' (EndGameChunkID (lastChunkInfo rs')))"
proof -
  obtain e1 rs1 w1 where 1: "saveChunkInfo env server saver rs w = (e1, rs1, w1)" by (metis prod_cases3)
  with assms(1) have e1: "e1 = None" by (cases e1) (simp_all add: save_round_def)
  obtain e2 rs2 w2 where 2: "save_numbered (log_prefix rs @ '' chunk'') (saveChunk env server saver)
      [1..ChunkID (lastChunkInfo rs1)] rs1 w1 = (e2, rs2, w2)" by (metis prod_cases3)
  with assms(1) 1 e1 have e2: "e2 = None" by (cases e2) (simp_all add: save_round_def)
  obtain e3 rs3 w3 where 3: "save_numbered (log_prefix rs @ '' keyframe'') (saveKeyframe env server saver)
      [1..KeyFrameID (lastChunkInfo rs2)] rs2 w2 = (e3, rs3, w3)" by (metis prod_cases3)
  with assms(1) 1 e1 2 e2 have e3: "e3 = None" by (cases e3) (simp_all add: save_round_def)
  have r: "rs' = rs3" "w' = w3"
    "left \<longleftrightarrow> 0 < EndGameChunkID (lastChunkInfo rs3) \<and> chunks rs3 (EndGameChunkID (lastChunkInfo rs3))"
    using assms(1) 1 e1 2 e2 3 e3 by (auto simp: save_round_def Let_def)
  obtain info where b1: "backed saver rs1 w1" "rs1 = rs\<lparr>lastChunkInfo := sanitizeLastChunk info\<rparr>"
    using saveChunkInfo_ok [OF 1 [unfolded e1] assms(2)] by blast
  note c = cs.save_numbered_ok [OF 2 [unfolded e2], of "lastChunkInfo rs1" "remoteGame rs1"]
  have b2: "backed saver rs2 w2" "lastChunkInfo rs2 = lastChunkInfo rs1" "remoteGame rs2 = remoteGame rs1"
    and c2: "\<And>k. chunks rs2 k \<longleftrightarrow> chunks rs1 k \<or> k \<in> set [1..ChunkID (lastChunkInfo rs1)]"
    using c b1(1) by simp_all
  note k = ks.save_numbered_ok [OF 3 [unfolded e3], of "lastChunkInfo rs2" "remoteGame rs2" "chunks rs2"]
  have b3: "backed saver rs3 w3" "lastChunkInfo rs3 = lastChunkInfo rs2" "remoteGame rs3 = remoteGame rs2"
    "chunks rs3 = chunks rs2"
    and k3: "\<And>k. keyframes rs3 k \<longleftrightarrow> keyframes rs2 k \<or> k \<in> set [1..KeyFrameID (lastChunkInfo rs2)]"
    using k b2(1) by simp_all
  show ?thesis
    using b1(2) b2 b3 c2 k3 r by (auto simp: round_done_def sanitize_fields)
qed

lemma save_loop_ok:
  assumes "save_loop env server saver rs w = Some (e, rs', w')"
  shows "e = None \<Longrightarrow> backed saver rs w \<Longrightarrow> backed saver rs' w' \<and> round_done rs'
    \<and> remoteGame rs' = remoteGame rs
    \<and> 0 < EndGameChunkID (lastChunkInfo rs') \<and> chunks rs' (EndGameChunkID (lastChunkInfo rs'))"
proof -
  have "case y of (e, rs', w') \<Rightarrow> e = None \<longrightarrow> backed saver rs w \<longrightarrow>
      backed saver rs' w' \<and> round_done rs' \<and> remoteGame rs' = remoteGame rs
      \<and> 0 < EndGameChunkID (lastChunkInfo rs') \<and> chunks rs' (EndGameChunkID (lastChunkInfo rs'))"
    if "save_loop env server saver rs w = Some y" for y
    using that
  proof (induction rule: save_loop.raw_induct [rotated, consumes 1, case_names step])
    case (step save_loop env server saver rs w y)
    obtain e left rs1 w1 where r: "save_round env server saver rs w = (e, left, rs1, w1)"
      by (metis prod_cases4)
    have err: "left" if "e \<noteq> None"
      using r that by (auto simp: save_round_def Let_def split: prod.splits option.splits)
    show ?case
    proof (cases left)
      case True
      then have "y = (e, rs1, w1)" using step(2) r by simp
      then show ?thesis using save_round_ok [of env server saver rs w left rs1 w1] r True by auto
    next
      case False
      then have e: "e = None" using err by blast
      have "save_loop env server saver rs1 w1 = Some y" using step(2) r False by simp
      from step(1) [OF this] show ?thesis
        using save_round_ok [of env server saver rs w left rs1 w1] r e by auto
    qed
  qed
  from this [OF assms] show "e = None \<Longrightarrow> backed saver rs w \<Longrightarrow> backed saver rs' w' \<and> round_done rs'
    \<and> remoteGame rs' = remoteGame rs
    \<and> 0 < EndGameChunkID (lastChunkInfo rs') \<and> chunks rs' (EndGameChunkID (lastChunkInfo rs'))"
    by simp
qed

text \<open>
  C5: A download that reports no error is complete: when every file it counted on at the start
  was there, the remote directory holds the game description, every chunk and every keyframe up
  to the numbers of the last chunk info, the last chunk of the game, the meta data and the version.
\<close>

theorem Save_complete:
  assumes "Save env server saver rs w = Some (None, rs', w')" and "backed saver rs w"
  shows "(\<forall>n. 1 \<le> n \<and> n \<le> ChunkID (lastChunkInfo rs') \<longrightarrow> has saver w' (''chunk_'' @ show_int n))
     \<and> (\<forall>n. 1 \<le> n \<and> n \<le> KeyFrameID (lastChunkInfo rs') \<longrightarrow> has saver w' (''keyframe_'' @ show_int n))
     \<and> 0 < EndGameChunkID (lastChunkInfo rs')
     \<and> has saver w' (''chunk_'' @ show_int (EndGameChunkID (lastChunkInfo rs')))
     \<and> has saver w' ''meta.json'' \<and> has saver w' ''version''"
proof -
  obtain e1 rs1 w1 where 1: "saveCurrentGame env saver rs w = (e1, rs1, w1)" by (metis prod_cases3)
  with assms(1) have e1: "e1 = None" by (cases e1) (simp_all add: Save_def)
  obtain y where y: "save_loop env server saver rs1 w1 = Some y"
    using assms(1) 1 e1 by (cases "save_loop env server saver rs1 w1") (simp_all add: Save_def)
  obtain e2 rs2 w2 where 2: "save_loop env server saver rs1 w1 = Some (e2, rs2, w2)"
    using y by (metis prod_cases3)
  with assms(1) 1 e1 have e2: "e2 = None" by (cases e2) (simp_all add: Save_def)
  obtain e3 rs3 w3 where 3: "saveMeta env server saver rs2 w2 = (e3, rs3, w3)" by (metis prod_cases3)
  with assms(1) 1 e1 2 e2 have e3: "e3 = None" by (cases e3) (simp_all add: Save_def)
  have 4: "saveVersion env server saver rs3 w3 = (None, rs', w')"
    using assms(1) 1 e1 2 e2 3 e3 by (simp add: Save_def)
  have b1: "backed saver rs1 w1" using saveCurrentGame_ok [OF 1 [unfolded e1] assms(2)] by simp
  note l = save_loop_ok [OF 2 e2 b1]
  note m = saveMeta_ok [OF 3 [unfolded e3] conjunct1 [OF l]]
  note v = saveVersion_ok [OF 4 conjunct1 [OF m]]
  have s: "lastChunkInfo rs' = lastChunkInfo rs2" "chunks rs' = chunks rs2" "keyframes rs' = keyframes rs2"
    using m v by simp_all
  have b: "backed saver rs' w'" by (rule conjunct1 [OF v])
  have "has saver w' ''meta.json''" using m v has_grows by blast
  moreover have "chunks rs' n" if "1 \<le> n" "n \<le> ChunkID (lastChunkInfo rs')" for n
    using l that unfolding s by (simp add: round_done_def)
  moreover have "keyframes rs' n" if "1 \<le> n" "n \<le> KeyFrameID (lastChunkInfo rs')" for n
    using l that unfolding s by (simp add: round_done_def)
  moreover have "0 < EndGameChunkID (lastChunkInfo rs')" "chunks rs' (EndGameChunkID (lastChunkInfo rs'))"
    using l unfolding s by simp_all
  ultimately show ?thesis using b v by (simp add: backed_def)
qed

text \<open>
  The pause between two rounds is always two seconds: the hint of the server is overwritten
  by \<open>sanitizeLastChunk\<close> before \<open>sleepDur\<close> reads it.
\<close>

theorem pause_is_two_seconds:
  assumes "save_round env server saver rs w = (None, left, rs', w')" and "backed saver rs w"
  shows "sleepDur rs' = 2000"
  using save_round_ok [OF assms] by (simp add: sleepDur_def round_done_def)

subsection \<open>When the servers answer, the download ends\<close>

text \<open>
  A healthy outside: every request is answered, every file is written and moved; and \<open>ends_by\<close>:
  from the \<open>k\<close>-th request on the chunk info announces the last chunk of the game.
\<close>

definition healthy :: "'v env \<Rightarrow> current_game \<Rightarrow> bool" where
  "healthy env g \<longleftrightarrow>
     (\<forall>n. write_file env n = None) \<and> (\<forall>n p. move env n p = None)
     \<and> (\<forall>n s p i. \<exists>c. riot env n (LastChunkInfo s p i) = Inr (Chunk_info c))
     \<and> (\<forall>n r. \<exists>v. riot env n r = Inr v) \<and> parse_int (GameIDStr env g) \<noteq> None"

definition ends_by :: "'v env \<Rightarrow> nat \<Rightarrow> bool" where
  "ends_by env k \<longleftrightarrow>
     (\<forall>n \<ge> k. \<forall>s p i c. riot env n (LastChunkInfo s p i) = Inr (Chunk_info c) \<longrightarrow>
        0 < EndGameChunkID c \<and> EndGameChunkID c \<le> ChunkID c)"

lemma SaveAs_healthy:
  assumes "healthy env g"
  shows "\<exists>w'. SaveAs env saver v name 3 w = (None, w') \<and> nreq w' = nreq w"
  using assms
  by (simp add: SaveAs_def healthy_def Let_def try_move_def err_of_def numeral_3_eq_3)

lemma call_healthy:
  assumes "healthy env g"
  shows "\<exists>v. riotWithRetry (call env r) (Suc n) w = (Inr v, w\<lparr>nreq := Suc (nreq w)\<rparr>)
     \<and> riot env (nreq w) r = Inr v"
proof -
  from assms obtain v where "riot env (nreq w) r = Inr v" unfolding healthy_def by blast
  then show ?thesis by (simp add: riotWithRetry_def call_def)
qed

text \<open>A step of a healthy download succeeds, keeps the game and makes no request undone.\<close>

definition goes_on :: "replay_state \<Rightarrow> 'v world \<Rightarrow> err \<times> replay_state \<times> 'v world \<Rightarrow> bool" where
  "goes_on rs w r \<longleftrightarrow>
     (\<exists>rs' w'. r = (None, rs', w') \<and> nreq w \<le> nreq w' \<and> currentGame rs' = currentGame rs
        \<and> lastChunkInfo rs' = lastChunkInfo rs)"

lemma fetch_save_healthy:
  assumes h: "healthy env g" and c: "f = call env r" and n: "0 < n"
    and "currentGame (mark rs) = currentGame rs" "lastChunkInfo (mark rs) = lastChunkInfo rs"
  shows "goes_on rs w (fetch_save env saver f n mark name rs w)"
proof -
  obtain m where m: "n = Suc m" using n by (cases n) simp_all
  obtain v where v: "riotWithRetry f n w = (Inr v, w\<lparr>nreq := Suc (nreq w)\<rparr>)"
    using call_healthy [OF h, of r m w] c m by blast
  obtain w' where w': "SaveAs env saver v name 3 (w\<lparr>nreq := Suc (nreq w)\<rparr>) = (None, w')"
      "nreq w' = Suc (nreq w)"
    using SaveAs_healthy [OF h, of saver v name "w\<lparr>nreq := Suc (nreq w)\<rparr>"] by auto
  show ?thesis using v w' assms(4,5) by (auto simp: goes_on_def fetch_save_def)
qed

lemma goes_on_refl [simp]: "goes_on rs w (None, rs, w)"
  by (simp add: goes_on_def)

lemma saves_healthy:
  assumes h: "healthy env (currentGame rs)"
  shows "goes_on rs w (saveChunk env server saver num rs w)"
    and "goes_on rs w (saveKeyframe env server saver num rs w)"
    and "goes_on rs w (saveMeta env server saver rs w)"
    and "goes_on rs w (saveVersion env server saver rs w)"
    and "goes_on rs w (saveCurrentGame env saver rs w)"
proof -
  show "goes_on rs w (saveChunk env server saver num rs w)"
    by (auto simp: saveChunk_def gameDataChunk_def intro!: fetch_save_healthy [OF h])
  show "goes_on rs w (saveKeyframe env server saver num rs w)"
    by (auto simp: saveKeyframe_def keyframe_def intro!: fetch_save_healthy [OF h])
  show "goes_on rs w (saveVersion env server saver rs w)"
    by (auto simp: saveVersion_def version_def intro!: fetch_save_healthy [OF h])
  obtain i where "parse_int (GameIDStr env (currentGame rs)) = Some i"
    using h by (auto simp: healthy_def)
  then have "meta env server p (GameIDStr env (currentGame rs)) = call env (SpectatorGameMetaData server p i)"
    for p by (simp add: meta_def fun_eq_iff)
  then show "goes_on rs w (saveMeta env server saver rs w)"
    by (auto simp: saveMeta_def intro!: fetch_save_healthy [OF h])
  obtain w' where "SaveAs env saver (Current_game (currentGame rs)) ''current_game.json'' 3 w = (None, w')"
      "nreq w' = nreq w"
    using SaveAs_healthy [OF h] by blast
  then show "goes_on rs w (saveCurrentGame env saver rs w)"
    by (simp add: saveCurrentGame_def goes_on_def)
qed

lemma save_numbered_healthy:
  assumes "\<And>n rs w. P rs \<Longrightarrow> goes_on rs w (f n rs w)"
    and "\<And>rs rs'. P rs \<Longrightarrow> currentGame rs' = currentGame rs \<Longrightarrow> P rs'"
  shows "P rs \<Longrightarrow> goes_on rs w (save_numbered what f ns rs w)"
proof (induction ns arbitrary: rs w)
  case (Cons n ns)
  from assms(1) [OF Cons.prems, of w n] obtain rs1 w1 where 1: "f n rs w = (None, rs1, w1)"
      "nreq w \<le> nreq w1" "currentGame rs1 = currentGame rs" "lastChunkInfo rs1 = lastChunkInfo rs"
    by (auto simp: goes_on_def)
  from Cons.IH [OF assms(2) [OF Cons.prems 1(3)], of w1] 1 show ?case
    by (fastforce simp: goes_on_def)
qed simp

lemma saveChunkInfo_healthy:
  assumes h: "healthy env (currentGame rs)"
  shows "\<exists>c w'. saveChunkInfo env server saver rs w = (None, rs\<lparr>lastChunkInfo := sanitizeLastChunk c\<rparr>, w')
     \<and> nreq w < nreq w' \<and> (ends_by env (nreq w) \<longrightarrow> 0 < EndGameChunkID c \<and> EndGameChunkID c \<le> ChunkID c)"
proof -
  let ?r = "LastChunkInfo server (PlatformID (currentGame rs)) (GameIDStr env (currentGame rs))"
  obtain v where v: "riotWithRetry (call env ?r) 15 w = (Inr v, w\<lparr>nreq := Suc (nreq w)\<rparr>)"
      "riot env (nreq w) ?r = Inr v"
    using call_healthy [OF h, of ?r 14 w] by auto
  obtain c where c: "riot env (nreq w) ?r = Inr (Chunk_info c)"
    using h unfolding healthy_def by blast
  have vc: "v = Chunk_info c" using v(2) c by simp
  obtain w' where w': "SaveAs env saver (Chunk_info (sanitizeLastChunk c)) ''last_chunk.json'' 3
      (w\<lparr>nreq := Suc (nreq w)\<rparr>) = (None, w')" "nreq w' = Suc (nreq w)"
    using SaveAs_healthy [OF h, of saver _ _ "w\<lparr>nreq := Suc (nreq w)\<rparr>"] by auto
  have "ends_by env (nreq w) \<longrightarrow> 0 < EndGameChunkID c \<and> EndGameChunkID c \<le> ChunkID c"
    using c unfolding ends_by_def by blast
  moreover have "saveChunkInfo env server saver rs w = (None, rs\<lparr>lastChunkInfo := sanitizeLastChunk c\<rparr>, w')"
    using v(1) vc w' by (simp add: saveChunkInfo_def chunkInfo_def)
  ultimately show ?thesis using w' by auto
qed

lemma save_round_healthy:
  assumes h: "healthy env (currentGame rs)"
  shows "\<exists>left rs' w'. save_round env server saver rs w = (None, left, rs', w') \<and> nreq w < nreq w'
     \<and> currentGame rs' = currentGame rs \<and> (ends_by env (nreq w) \<longrightarrow> backed saver rs w \<longrightarrow> left)"
proof -
  let ?P = "\<lambda>rs. healthy env (currentGame rs)"
  obtain c w1 where 1: "saveChunkInfo env server saver rs w = (None, rs\<lparr>lastChunkInfo := sanitizeLastChunk c\<rparr>, w1)"
      "nreq w < nreq w1" "ends_by env (nreq w) \<Longrightarrow> 0 < EndGameChunkID c \<and> EndGameChunkID c \<le> ChunkID c"
    using saveChunkInfo_healthy [OF h] by blast
  let ?rs1 = "rs\<lparr>lastChunkInfo := sanitizeLastChunk c\<rparr>"
  have h1: "?P ?rs1" using h by simp
  have g2: "goes_on ?rs1 w1 (save_numbered what (saveChunk env server saver) ns ?rs1 w1)" for what ns
    by (rule save_numbered_healthy [where P = ?P]) (use h1 in \<open>simp_all add: saves_healthy\<close>)
  then obtain rs2 w2 where 2: "save_numbered (log_prefix rs @ '' chunk'') (saveChunk env server saver)
      [1..ChunkID (lastChunkInfo ?rs1)] ?rs1 w1 = (None, rs2, w2)" "nreq w1 \<le> nreq w2"
      "currentGame rs2 = currentGame rs" "lastChunkInfo rs2 = lastChunkInfo ?rs1"
    unfolding goes_on_def by fastforce
  have h2: "?P rs2" using h 2(3) by simp
  have g3: "goes_on rs2 w2 (save_numbered what (saveKeyframe env server saver) ns rs2 w2)" for what ns
    by (rule save_numbered_healthy [where P = ?P]) (use h2 in \<open>simp_all add: saves_healthy\<close>)
  then obtain rs3 w3 where 3: "save_numbered (log_prefix rs @ '' keyframe'') (saveKeyframe env server saver)
      [1..KeyFrameID (lastChunkInfo rs2)] rs2 w2 = (None, rs3, w3)" "nreq w2 \<le> nreq w3"
      "currentGame rs3 = currentGame rs2" "lastChunkInfo rs3 = lastChunkInfo rs2"
    unfolding goes_on_def by fastforce
  let ?left = "EndGameChunkID (lastChunkInfo rs3) > 0 \<and> chunks rs3 (EndGameChunkID (lastChunkInfo rs3))"
  have r: "save_round env server saver rs w = (None, ?left, rs3, w3)"
    using 1(1) 2(1) 3(1) by (simp add: save_round_def Let_def)
  have "ends_by env (nreq w) \<longrightarrow> backed saver rs w \<longrightarrow> ?left"
  proof (intro impI)
    assume "ends_by env (nreq w)" and "backed saver rs w"
    then show ?left
      using save_round_ok [OF r] 1(3) 2(4) 3(4) by (simp add: round_done_def sanitize_fields)
  qed
  with r 1(2) 2(2,3) 3(2,3) show ?thesis by fastforce
qed

lemma save_loop_healthy:
  assumes "ends_by env k"
  shows "healthy env (currentGame rs) \<Longrightarrow> backed saver rs w \<Longrightarrow>
     \<exists>rs' w'. save_loop env server saver rs w = Some (None, rs', w') \<and> currentGame rs' = currentGame rs"
proof (induction "k - nreq w" arbitrary: rs w rule: less_induct)
  case less
  obtain left rs1 w1 where r: "save_round env server saver rs w = (None, left, rs1, w1)"
      "nreq w < nreq w1" "currentGame rs1 = currentGame rs"
      "ends_by env (nreq w) \<Longrightarrow> backed saver rs w \<Longrightarrow> left"
    using save_round_healthy [OF less.prems(1)] by blast
  show ?case
  proof (cases left)
    case True
    then show ?thesis using r by (simp add: save_loop.simps [of env server saver rs w])
  next
    case False
    have "\<not> k \<le> nreq w"
    proof
      assume "k \<le> nreq w"
      then have "ends_by env (nreq w)" using assms unfolding ends_by_def by (meson order_trans)
      then show False using r(4) less.prems(2) False by blast
    qed
    then have lt: "k - nreq w1 < k - nreq w" using r(2) by simp
    have "healthy env (currentGame rs1)" using less.prems(1) r(3) by simp
    moreover have "backed saver rs1 w1" using save_round_ok [OF r(1) less.prems(2)] by blast
    ultimately obtain rs' w' where "save_loop env server saver rs1 w1 = Some (None, rs', w')"
        "currentGame rs' = currentGame rs1"
      using less.hyps [OF lt] by blast
    then show ?thesis using r False by (simp add: save_loop.simps [of env server saver rs w])
  qed
qed

lemma Save_ends:
  assumes "healthy env (currentGame rs)" and "ends_by env k" and "backed saver rs w"
  shows "\<exists>rs' w'. Save env server saver rs w = Some (None, rs', w')"
proof -
  obtain rs1 w1 where 1: "saveCurrentGame env saver rs w = (None, rs1, w1)"
    using saves_healthy(5) [OF assms(1)] unfolding goes_on_def by blast
  have b1: "backed saver rs1 w1" and s1: "rs1 = rs" using saveCurrentGame_ok [OF 1 assms(3)] by simp_all
  obtain rs2 w2 where 2: "save_loop env server saver rs1 w1 = Some (None, rs2, w2)"
      "currentGame rs2 = currentGame rs1"
    using save_loop_healthy [OF assms(2) _ b1] assms(1) s1 by blast
  have h2: "healthy env (currentGame rs2)" using assms(1) 2(2) s1 by simp
  obtain rs3 w3 where 3: "saveMeta env server saver rs2 w2 = (None, rs3, w3)"
      "currentGame rs3 = currentGame rs2"
    using saves_healthy(3) [OF h2] unfolding goes_on_def by blast
  have "healthy env (currentGame rs3)" using h2 3(2) by simp
  then obtain rs4 w4 where "saveVersion env server saver rs3 w3 = (None, rs4, w4)"
    using saves_healthy(4) unfolding goes_on_def by blast
  then show ?thesis using 1 2 3 by (simp add: Save_def)
qed

text \<open>
  C34: When the servers answer and the chunk info announces the end of the game after some number
  of requests, the download returns, without an error.
\<close>

theorem Save_terminates:
  assumes "healthy env (currentGame rs)" and "ends_by env k" and "backed saver rs w"
  shows "\<exists>rs' w'. Save env server saver rs w = Some (None, rs', w')"
  by (rule Save_ends [OF assms])

subsection \<open>Resuming a download\<close>

lemma show_int_chars: "c \<in> set (show_int i) \<Longrightarrow> c = CHR ''-'' \<or> (\<exists>d < 10. c = digit_char d)"
  using show_nat_chars by (auto simp: show_int_def split: if_splits)

lemma show_int_plain: "CHR ''_'' \<notin> set (show_int i)" "CHR ''/'' \<notin> set (show_int i)"
proof -
  have "digit_val CHR ''_'' = None" "digit_val CHR ''/'' = None" by (simp_all add: digit_val_def)
  then show "CHR ''_'' \<notin> set (show_int i)" "CHR ''/'' \<notin> set (show_int i)"
    using show_int_chars [of "CHR ''_''" i] show_int_chars [of "CHR ''/''" i] by fastforce+
qed

lemma split_chunk_name: "split_on CHR ''_'' (''chunk_'' @ show_int n) = [''chunk'', show_int n]"
  using split_on_append_sep [of "CHR ''_''" "''chunk''" "show_int n"]
  by (simp add: split_on_no_sep show_int_plain)

lemma split_keyframe_name: "split_on CHR ''_'' (''keyframe_'' @ show_int n) = [''keyframe'', show_int n]"
  using split_on_append_sep [of "CHR ''_''" "''keyframe''" "show_int n"]
  by (simp add: split_on_no_sep show_int_plain)

lemma base_name_getPath:
  assumes "CHR ''/'' \<notin> set name" and "name \<noteq> []"
  shows "base_name (getPath dir name) = name"
proof -
  have tp: "trim_prefix name ''/'' = name"
    using assms by (auto simp: trim_prefix_def has_prefix_iff)
  obtain c cs where r: "rev name = c # cs" using assms(2) by (cases "rev name") simp_all
  then have "c \<in> set name" by (metis list.set_intros(1) set_rev)
  then have c: "c \<noteq> CHR ''/''" using assms(1) by auto
  have rv: "rev (getPath dir name) = rev name @ CHR ''/'' # rev (trim_suffix dir ''/'')"
    by (simp add: getPath_def tp)
  then have "dropWhile (\<lambda>c. c = CHR ''/'') (rev (getPath dir name)) = rev (getPath dir name)"
    using r c by simp
  then have "drop_slashes (getPath dir name) = getPath dir name" by (simp add: drop_slashes_def)
  moreover have "takeWhile (\<lambda>c. c \<noteq> CHR ''/'') (rev name @ CHR ''/'' # xs) = rev name" for xs
    using assms(1) by (subst takeWhile_append2) auto
  moreover have "getPath dir name \<noteq> []" by (simp add: getPath_def)
  ultimately show ?thesis by (simp add: base_name_def rv)
qed

text \<open>The names of the files of a replay, as \<open>Save\<close> writes them.\<close>

definition replay_file :: "string \<Rightarrow> bool" where
  "replay_file name \<longleftrightarrow>
     name \<in> {''current_game.json'', ''last_chunk.json'', ''meta.json'', ''version''}
     \<or> (\<exists>n. int64_min \<le> n \<and> n \<le> int64_max \<and> (name = ''chunk_'' @ show_int n \<or> name = ''keyframe_'' @ show_int n))"

definition note_files :: "string list \<Rightarrow> replay_state \<Rightarrow> replay_state" where
  "note_files names r = r
     \<lparr>remoteGame := remoteGame r \<or> ''current_game.json'' \<in> set names,
      chunks := (\<lambda>n. chunks r n \<or> ''chunk_'' @ show_int n \<in> set names),
      keyframes := (\<lambda>n. keyframes r n \<or> ''keyframe_'' @ show_int n \<in> set names),
      hasMeta := hasMeta r \<or> ''meta.json'' \<in> set names,
      hasVersion := hasVersion r \<or> ''version'' \<in> set names\<rparr>"

lemma note_files_Nil: "note_files [] r = r"
  by (simp add: note_files_def)

lemma load_one:
  assumes "replay_file name"
  shows "load (getPath dir name # paths) r = load paths (note_files [name] r)"
proof -
  have "CHR ''/'' \<notin> set name" "name \<noteq> []"
    using assms show_int_plain by (auto simp: replay_file_def)
  then have b: "base_name (getPath dir name) = name" by (rule base_name_getPath)
  have s: "split_on CHR ''_'' ''last_chunk.json'' = [''last'', ''chunk.json'']" by code_simp
  consider "name = ''current_game.json''" | "name = ''last_chunk.json''" | "name = ''meta.json''"
    | "name = ''version''"
    | n where "name = ''chunk_'' @ show_int n" "parse_int (show_int n) = Some n"
    | n where "name = ''keyframe_'' @ show_int n" "parse_int (show_int n) = Some n"
    using assms parse_show_int unfolding replay_file_def by blast
  then show ?thesis
  proof cases
    case (5 n)
    have "(chunks r)(n := True) = (\<lambda>k. chunks r k \<or> ''chunk_'' @ show_int k \<in> set [name])"
      using 5(1) by (auto simp: fun_eq_iff dest: show_int_inj)
    then show ?thesis
      using 5 b by (simp add: note_files_def parseChunkKeyframe_def split_chunk_name [simplified])
  next
    case (6 n)
    have "(keyframes r)(n := True) = (\<lambda>k. keyframes r k \<or> ''keyframe_'' @ show_int k \<in> set [name])"
      using 6(1) by (auto simp: fun_eq_iff dest: show_int_inj)
    then show ?thesis
      using 6 b by (simp add: note_files_def parseChunkKeyframe_def split_keyframe_name [simplified])
  qed (use b s in \<open>simp_all add: note_files_def parseChunkKeyframe_def\<close>)
qed

lemma note_files_append: "note_files ys (note_files xs r) = note_files (xs @ ys) r"
  by (auto simp: note_files_def)

lemma load_files:
  "list_all replay_file names \<Longrightarrow> load (map (getPath dir) names) r = (None, note_files names r)"
proof (induction names arbitrary: r)
  case (Cons name names)
  then show ?case by (simp add: load_one note_files_append del: load.simps)
qed (simp add: note_files_Nil)

text \<open>
  C40: A download resumes where it stopped: from a listing of files it has saved, in any order,
  the state marks exactly these.
\<close>

theorem resume_exact:
  assumes "list_all replay_file names"
  shows "NewReplaySaveState game (map (getPath dir) names) =
     (None, \<lparr>currentGame = game, lastChunkInfo = no_chunk_info,
             remoteGame = (''current_game.json'' \<in> set names),
             chunks = (\<lambda>n. ''chunk_'' @ show_int n \<in> set names),
             keyframes = (\<lambda>n. ''keyframe_'' @ show_int n \<in> set names),
             hasMeta = (''meta.json'' \<in> set names), hasVersion = (''version'' \<in> set names)\<rparr>)"
  by (simp add: NewReplaySaveState_def load_files [OF assms] note_files_def)

definition demo_game :: current_game where
  "demo_game = \<lparr>GameID = 7, PlatformID = ''NA1'', MapID = 11, GameMode = ''CLASSIC'',
     GameQueueConfigID = 420, Participants = [], EncryptionKey = ''k''\<rparr>"

theorem resume_exact_witness:
  "NewReplaySaveState demo_game (map (getPath ''gs://b/7-na1/'') [''chunk_'' @ show_int 12, ''version'']) =
     (None, \<lparr>currentGame = demo_game, lastChunkInfo = no_chunk_info, remoteGame = False,
             chunks = (\<lambda>n. ''chunk_'' @ show_int n \<in> set [''chunk_'' @ show_int 12, ''version'']),
             keyframes = (\<lambda>n. ''keyframe_'' @ show_int n \<in> set [''chunk_'' @ show_int 12, ''version'']),
             hasMeta = False, hasVersion = True\<rparr>)"
proof -
  have "replay_file (''chunk_'' @ show_int 12)"
    unfolding replay_file_def by (intro disjI2 exI [of _ 12]) (simp add: int64_min_def int64_max_def)
  moreover have "replay_file ''version''" by (simp add: replay_file_def)
  ultimately show ?thesis
    using resume_exact [of "[''chunk_'' @ show_int 12, ''version'']" demo_game "''gs://b/7-na1/''"] by simp
qed

subsection \<open>A download from start to end\<close>

text \<open>
  A game of three chunks and two keyframes, whose end is announced from the fifth request on.
\<close>

definition demo_env :: "unit env" where
  "demo_env =
     \<lparr>riot = (\<lambda>n r. case r of
        LastChunkInfo s p g \<Rightarrow> Inr (Chunk_info \<lparr>ChunkID = 3, KeyFrameID = 2,
          EndGameChunkID = (if n < 4 then 0 else 3), NextChunkID = 3, NextAvailableChunk = 9000, Duration = 0\<rparr>)
      | _ \<Rightarrow> Inr (Data ())),
      write_file = (\<lambda>_. None), move = (\<lambda>_ _. None), GameIDStr = (\<lambda>g. show_int (GameID g))\<rparr>"

definition demo_start :: "replay_state \<times> unit world" where
  "demo_start = (snd (NewReplaySaveState demo_game []),
     \<lparr>nreq = 0, nwrite = 0, nmove = 0, remote = Map.empty\<rparr>)"

lemma demo_start: "backed s (fst demo_start) (snd demo_start)" "currentGame (fst demo_start) = demo_game"
  by (simp_all add: demo_start_def NewReplaySaveState_def backed_def)

lemma demo_healthy: "healthy demo_env demo_game"
proof -
  have "parse_int (show_int 7) = Some 7"
    by (rule parse_show_int) (simp_all add: int64_min_def int64_max_def)
  then show ?thesis
    by (simp add: healthy_def demo_env_def demo_game_def split: riot_request.splits)
qed

lemma demo_ends: "ends_by demo_env 4"
  by (auto simp: ends_by_def demo_env_def)

theorem Save_terminates_witness:
  "\<exists>rs' w'. Save demo_env ''s'' ''d'' (fst demo_start) (snd demo_start) = Some (None, rs', w')"
  by (rule Save_terminates [OF _ demo_ends demo_start(1)]) (simp add: demo_start(2) demo_healthy)

theorem Save_complete_witness:
  "\<exists>rs' w'. Save demo_env ''s'' ''d'' (fst demo_start) (snd demo_start) = Some (None, rs', w')
     \<and> has ''d'' w' (''chunk_'' @ show_int (EndGameChunkID (lastChunkInfo rs')))"
proof -
  obtain rs' w' where "Save demo_env ''s'' ''d'' (fst demo_start) (snd demo_start) = Some (None, rs', w')"
    using Save_ends [OF _ demo_ends demo_start(1)] demo_start(2) demo_healthy by fastforce
  with Save_complete [OF this demo_start(1)] show ?thesis by blast
qed

theorem pause_is_two_seconds_witness:
  "\<exists>left rs' w'. save_round demo_env ''s'' ''d'' (fst demo_start) (snd demo_start) = (None, left, rs', w')
     \<and> sleepDur rs' = 2000"
proof -
  obtain left rs' w' where
    "save_round demo_env ''s'' ''d'' (fst demo_start) (snd demo_start) = (None, left, rs', w')"
    using save_round_healthy [of demo_env "fst demo_start"] demo_start(2) demo_healthy by fastforce
  with pause_is_two_seconds [OF this demo_start(1)] show ?thesis by blast
qed

end
