(* ===== verification/Observer_Watch.thy ===== *)
theory Observer_Watch
  imports Observer_Download
begin

text \<open>
  Who is watched and what happens to the matches found: \<open>lolobserver-master/who.go\<close>,
  \<open>user_watcher.go\<close> and the download and ingest steps of \<open>cmd/observer/observer.go\<close>.

  Go iterates over a map in an unspecified order; the map of the users is an association list,
  and its order is the order of the iteration. The Riot client, the region tables and the LRU
  cache are parameters.
\<close>

subsection \<open>The users\<close>

record loluser =
  luUserId :: string
  luSummonerId :: string
  luRegion :: string
  luBalance :: int

type_synonym user_map = "(string \<times> loluser list) list"

definition vp_list :: "int \<Rightarrow> string + loluser list \<Rightarrow> string + loluser list" where
  "vp_list minVantagePoints res =
     (case res of
        Inl e \<Rightarrow> Inl e
      | Inr us \<Rightarrow> Inr (filter (\<lambda>u. \<not> luBalance u < minVantagePoints) us))"

definition lookup_users :: "user_map \<Rightarrow> string \<Rightarrow> loluser list" where
  "lookup_users m s = (case map_of m s of None \<Rightarrow> [] | Some us \<Rightarrow> us)"

fun group_users :: "user_map \<Rightarrow> loluser list \<Rightarrow> user_map" where
  "group_users m [] = m"
| "group_users m (lu # us) =
     group_users (AList.update (luSummonerId lu) (lookup_users m (luSummonerId lu) @ [lu]) m) us"

record users_cache =
  CacheDur :: int
  lastPoll :: int
  cached :: user_map

text \<open>\<open>now\<close> is the time when the cache is asked, \<open>now'\<close> the time when the lister has answered.\<close>

definition BySummonerID ::
  "int \<Rightarrow> int \<Rightarrow> string + loluser list \<Rightarrow> users_cache \<Rightarrow> user_map \<times> users_cache" where
  "BySummonerID now now' listed l =
     (if lastPoll l + CacheDur l > now then (cached l, l)
      else case listed of
             Inl e \<Rightarrow> (cached l, l)
           | Inr us \<Rightarrow> let m = group_users [] us in (m, l\<lparr>lastPoll := now', cached := m\<rparr>))"

fun unique_ids :: "string list \<Rightarrow> loluser list \<Rightarrow> string list" where
  "unique_ids seen [] = []"
| "unique_ids seen (lu # us) =
     (if luSummonerId lu \<in> set seen then unique_ids seen us
      else luSummonerId lu # unique_ids (luSummonerId lu # seen) us)"

text \<open>The part of \<open>Summary\<close> that is computed: both counts and the summoner ids it prints.\<close>

definition Summary :: "loluser list \<Rightarrow> nat \<times> nat \<times> string list" where
  "Summary us = (length us, length (unique_ids [] us), unique_ids [] us)"

subsection \<open>The watcher\<close>

record match_users =
  CurrentGame :: current_game
  LolUsers :: "loluser list"
  Observed :: bool

definition lolUsersInGame :: "participant list \<Rightarrow> user_map \<Rightarrow> loluser list" where
  "lolUsersInGame ps m = concat (map (\<lambda>p. lookup_users m (show_int (pSummonerID p))) ps)"

record 'c outside =
  RegionFromString :: "string \<Rightarrow> string"
  PlatformFromRegion :: "string \<Rightarrow> string"
  ApiRegion :: "string \<Rightarrow> err"
  ApiCurrentGame :: "string \<Rightarrow> int \<Rightarrow> string + current_game"
  cache_get :: "string \<Rightarrow> 'c \<Rightarrow> bool \<times> 'c"
  cache_add :: "string \<Rightarrow> 'c \<Rightarrow> 'c"

definition cacheKey :: "current_game \<Rightarrow> string \<Rightarrow> string" where
  "cacheKey cg platform = show_int (GameID cg) @ ''-'' @ platform"

text \<open>One pass over the users: the matches sent on the channel, with the keys they are seen by.\<close>

fun watch_pass ::
  "'c outside \<Rightarrow> user_map \<Rightarrow> user_map \<Rightarrow> 'c \<Rightarrow> (string \<times> match_users) list \<times> 'c" where
  "watch_pass out userMap [] seen = ([], seen)"
| "watch_pass out userMap ((summonerID, users) # rest) seen =
     (let region = RegionFromString out (luRegion (hd users));
          platform = PlatformFromRegion out region in
      case parse_int summonerID of
        None \<Rightarrow> watch_pass out userMap rest seen
      | Some sID \<Rightarrow>
     (case ApiRegion out region of
        Some e \<Rightarrow> watch_pass out userMap rest seen
      | None \<Rightarrow>
     (case ApiCurrentGame out platform sID of
        Inl e \<Rightarrow> watch_pass out userMap rest seen
      | Inr cg \<Rightarrow>
          let (found, seen1) = cache_get out (cacheKey cg platform) seen in
          if found \<or> GameID cg \<le> 0 then watch_pass out userMap rest seen1
          else let m = \<lparr>CurrentGame = cg, LolUsers = lolUsersInGame (Participants cg) userMap,
                        Observed = False\<rparr>;
                   (ms, seen2) = watch_pass out userMap rest (cache_add out (cacheKey cg platform) seen1)
            in ((cacheKey cg platform, m) # ms, seen2))))"

subsection \<open>Download and ingest\<close>

text \<open>\<open>downloadLoop\<close>: the matches for which a download is started.\<close>

definition downloadLoop :: "match_users list \<Rightarrow> match_users list" where
  "downloadLoop ms = filter (\<lambda>m. ShouldDownload (CurrentGame m)) ms"

definition matchDir :: "string \<Rightarrow> current_game \<Rightarrow> string" where
  "matchDir outputPath g =
     trim_suffix outputPath ''/'' @ ''/'' @ show_int (GameID g) @ ''-'' @ to_lower (PlatformID g)"

text \<open>
  \<open>downloadMatch\<close>: \<open>saver_err\<close> is the error of \<open>NewFileSaver\<close> and \<open>listing\<close> what the file client
  lists (empty after an error). The result is the match sent on the channel; \<open>None\<close> outside
  means that the download does not return.
\<close>

definition downloadMatch ::
  "'v env \<Rightarrow> string \<Rightarrow> err \<Rightarrow> string list \<Rightarrow> match_users \<Rightarrow> 'v world \<Rightarrow> (match_users option \<times> 'v world) option" where
  "downloadMatch env outputPath saver_err listing m w =
     (case saver_err of
        Some e \<Rightarrow> Some (None, w)
      | None \<Rightarrow>
     (case NewReplaySaveState (CurrentGame m) listing of
        (Some e, rs) \<Rightarrow> Some (Some (m\<lparr>Observed := False\<rparr>), w)
      | (None, rs) \<Rightarrow>
     (case Save env '''' (matchDir outputPath (CurrentGame m)) rs w of
        None \<Rightarrow> None
      | Some (e, rs', w') \<Rightarrow> Some (Some (m\<lparr>Observed := (e = None)\<rparr>), w'))))"

fun summoners_loop :: "int list \<Rightarrow> loluser list \<Rightarrow> int list" where
  "summoners_loop seen [] = []"
| "summoners_loop seen (s # us) =
     (case parse_int (luSummonerId s) of
        None \<Rightarrow> summoners_loop seen us
      | Some sID \<Rightarrow> if sID \<in> set seen then summoners_loop seen us
                    else sID # summoners_loop (sID # seen) us)"

definition summoners :: "loluser list \<Rightarrow> int list" where
  "summoners us = summoners_loop [] us"

record match_download =
  MatchId :: int
  PlatformId :: string
  DKey :: string
  ReplayServer :: string
  ObservedSummonerIds :: "int list"

definition emitIngestionTask :: "string \<Rightarrow> match_users \<Rightarrow> match_download" where
  "emitIngestionTask replayServer ms =
     (let g = CurrentGame ms;
          i = \<lparr>MatchId = GameID g, PlatformId = PlatformID g, DKey = '''', ReplayServer = '''',
               ObservedSummonerIds = []\<rparr> in
      if Observed ms
      then i\<lparr>DKey := EncryptionKey g, ReplayServer := replayServer,
             ObservedSummonerIds := summoners (LolUsers ms)\<rparr>
      else i)"

subsection \<open>The groups of users\<close>

lemma lookup_update:
  "lookup_users (AList.update k v m) s = (if s = k then v else lookup_users m s)"
  by (simp add: lookup_users_def update_conv)

lemma group_users_lookup:
  "lookup_users (group_users m us) s = lookup_users m s @ filter (\<lambda>u. luSummonerId u = s) us"
  by (induction us arbitrary: m) (simp_all add: lookup_update)

lemma group_users_keys:
  "fst ` set (group_users m us) = fst ` set m \<union> luSummonerId ` set us"
  by (induction us arbitrary: m) (auto simp: dom_update)

lemma group_users_distinct: "distinct (map fst m) \<Longrightarrow> distinct (map fst (group_users m us))"
  by (induction us arbitrary: m) (simp_all add: distinct_update)

text \<open>
  The map of the users is exact: its keys are the summoners of the listed users, once each,
  and every entry is the non-empty list of the users of that summoner, in the order listed.
\<close>

theorem users_grouped:
  "distinct (map fst (group_users [] us)) \<and> set (map fst (group_users [] us)) = luSummonerId ` set us
   \<and> list_all (\<lambda>(s, g). g = filter (\<lambda>u. luSummonerId u = s) us \<and> g \<noteq> []) (group_users [] us)"
proof (intro conjI)
  show d: "distinct (map fst (group_users [] us))" by (simp add: group_users_distinct)
  show k: "set (map fst (group_users [] us)) = luSummonerId ` set us"
    using group_users_keys [of "[]" us] by simp
  have "g = filter (\<lambda>u. luSummonerId u = s) us \<and> g \<noteq> []" if "(s, g) \<in> set (group_users [] us)" for s g
  proof -
    have "map_of (group_users [] us) s = Some g" using d that by simp
    then have "g = filter (\<lambda>u. luSummonerId u = s) us"
      using group_users_lookup [of "[]" us s] by (simp add: lookup_users_def)
    moreover have "s \<in> luSummonerId ` set us" using k that by force
    ultimately show ?thesis by (auto simp: filter_empty_conv)
  qed
  then show "list_all (\<lambda>(s, g). g = filter (\<lambda>u. luSummonerId u = s) us \<and> g \<noteq> []) (group_users [] us)"
    by (auto simp: list_all_iff)
qed

lemma unique_ids_spec:
  "set (unique_ids seen us) = luSummonerId ` set us - set seen \<and> distinct (unique_ids seen us)"
  by (induction us arbitrary: seen) auto

lemma summoners_loop_spec:
  "set (summoners_loop seen us) = {i. \<exists>u \<in> set us. parse_int (luSummonerId u) = Some i} - set seen
   \<and> distinct (summoners_loop seen us)"
  by (induction us arbitrary: seen) (auto split: option.splits)

subsection \<open>Each match is announced once\<close>

text \<open>
  What the watcher relies on of the LRU cache, as its documentation states it: \<open>Get\<close> finds
  exactly what is held, and \<open>Add\<close> drops nothing while there are fewer than 10000 keys.
\<close>

definition lru_law :: "'c outside \<Rightarrow> ('c \<Rightarrow> string set) \<Rightarrow> bool" where
  "lru_law out held \<longleftrightarrow>
     (\<forall>k c. fst (cache_get out k c) = (k \<in> held c) \<and> held (snd (cache_get out k c)) = held c)
     \<and> (\<forall>k c. finite (held c) \<and> card (held c) < 10000 \<longrightarrow> held (cache_add out k c) = insert k (held c))"

lemma watch_pass_once:
  assumes law: "lru_law out held"
  shows "finite (held seen) \<Longrightarrow> card (held seen) + length todo \<le> 10000 \<Longrightarrow>
     watch_pass out userMap todo seen = (ms, seen') \<Longrightarrow>
     distinct (map fst ms) \<and> set (map fst ms) \<inter> held seen = {} \<and> held seen' = held seen \<union> set (map fst ms)"
proof (induction todo arbitrary: seen ms seen')
  case (Cons t rest)
  obtain summonerID users where t: "t = (summonerID, users)" by fastforce
  let ?reg = "RegionFromString out (luRegion (hd users))"
  let ?pl = "PlatformFromRegion out ?reg"
  have skip: ?case if "watch_pass out userMap rest seen1 = (ms, seen')" "held seen1 = held seen" for seen1
    using Cons.IH [of seen1 ms seen'] Cons.prems(1,2) that by simp
  show ?case
  proof (cases "parse_int summonerID")
    case None
    with Cons.prems(3) t show ?thesis by (intro skip [of seen]) simp_all
  next
    case (Some sID)
    note p = Some
    show ?thesis
    proof (cases "ApiRegion out ?reg")
      case (Some e)
      with p t Cons.prems(3) show ?thesis by (intro skip [of seen]) simp_all
    next
      case None
      note r = None
      show ?thesis
      proof (cases "ApiCurrentGame out ?pl sID")
        case (Inl e)
        with p r t Cons.prems(3) show ?thesis by (intro skip [of seen]) simp_all
      next
        case (Inr cg)
        let ?k = "cacheKey cg ?pl"
        obtain found seen1 where g: "cache_get out ?k seen = (found, seen1)" by fastforce
        then have h: "found \<longleftrightarrow> ?k \<in> held seen" "held seen1 = held seen"
          using law unfolding lru_law_def by (metis fst_conv, metis snd_conv)
        show ?thesis
        proof (cases "found \<or> GameID cg \<le> 0")
          case True
          with p r Inr g t Cons.prems(3) h(2) show ?thesis by (intro skip [of seen1]) simp_all
        next
          case False
          let ?seen2 = "cache_add out ?k seen1"
          obtain ms1 seen3 where w: "watch_pass out userMap rest ?seen2 = (ms1, seen3)" by fastforce
          have c: "finite (held seen1)" "card (held seen1) < 10000" using Cons.prems(1,2) h by simp_all
          then have h2: "held ?seen2 = insert ?k (held seen)" using law h unfolding lru_law_def by metis
          have "ms = (?k, \<lparr>CurrentGame = cg, LolUsers = lolUsersInGame (Participants cg) userMap,
                    Observed = False\<rparr>) # ms1" "seen' = seen3"
            using Cons.prems(3) p r Inr g t w False by (auto simp: Let_def)
          moreover have "distinct (map fst ms1) \<and> set (map fst ms1) \<inter> held ?seen2 = {}
              \<and> held seen3 = held ?seen2 \<union> set (map fst ms1)"
            using Cons.IH [OF _ _ w] Cons.prems(1,2) h2 False h(1) by simp
          ultimately show ?thesis using h2 False h(1) by auto
        qed
      qed
    qed
  qed
qed simp

text \<open>
  As long as the cache has room, a pass over the users announces each match once, and none
  that was announced before, even when several users play in it.
\<close>

theorem announced_once:
  assumes "lru_law out held" and "finite (held seen)" and "card (held seen) + length todo \<le> 10000"
    and "watch_pass out userMap todo seen = (ms, seen')"
  shows "distinct (map fst ms) \<and> set (map fst ms) \<inter> held seen = {}
     \<and> held seen' = held seen \<union> set (map fst ms)"
  by (rule watch_pass_once [OF assms])

text \<open>Two users in one game, and a cache that is a list of keys.\<close>

definition demo_outside :: "string list outside" where
  "demo_outside =
     \<lparr>RegionFromString = (\<lambda>s. s), PlatformFromRegion = (\<lambda>s. s), ApiRegion = (\<lambda>_. None),
      ApiCurrentGame = (\<lambda>_ _. Inr demo_game), cache_get = (\<lambda>k c. (k \<in> set c, c)),
      cache_add = (\<lambda>k c. k # c)\<rparr>"

definition demo_users :: user_map where
  "demo_users = group_users []
     [\<lparr>luUserId = ''u'', luSummonerId = ''12'', luRegion = ''na'', luBalance = 1\<rparr>,
      \<lparr>luUserId = ''v'', luSummonerId = ''13'', luRegion = ''na'', luBalance = 1\<rparr>]"

theorem announced_once_witness:
  "distinct (map fst (fst (watch_pass demo_outside demo_users demo_users [])))"
proof -
  have "lru_law demo_outside set" by (simp add: lru_law_def demo_outside_def)
  from announced_once [OF this, of "[]" demo_users demo_users] show ?thesis
    by (cases "watch_pass demo_outside demo_users demo_users []") (simp add: demo_users_def)
qed

subsection \<open>What is ingested\<close>

text \<open>
  The ingest task names each observed summoner once: its ids are the numbers that the users'
  summoner ids parse to, and there are none for a match that was not observed.
\<close>

theorem ingest_summoners:
  "distinct (ObservedSummonerIds (emitIngestionTask srv ms))
   \<and> set (ObservedSummonerIds (emitIngestionTask srv ms)) =
       (if Observed ms then {i. \<exists>u \<in> set (LolUsers ms). parse_int (luSummonerId u) = Some i} else {})"
  using summoners_loop_spec [of "[]" "LolUsers ms"]
  by (simp add: emitIngestionTask_def Let_def summoners_def)

text \<open>
  A match whose download failed is announced all the same, as not observed: only a failure
  to create the local directory drops it.
\<close>

theorem failed_download_emitted:
  assumes "downloadMatch env outputPath saver_err listing m w = Some (r, w')"
  shows "(r = None \<longleftrightarrow> saver_err \<noteq> None)
     \<and> (\<forall>m'. r = Some m' \<longrightarrow> CurrentGame m' = CurrentGame m \<and> LolUsers m' = LolUsers m)"
  using assms by (auto simp: downloadMatch_def split: option.splits prod.splits)

theorem failed_download_emitted_witness:
  "\<exists>m'. downloadMatch demo_env ''gs://b'' None [''chunk_x''] m (snd demo_start) = Some (Some m', snd demo_start)
     \<and> CurrentGame m' = CurrentGame m"
proof -
  have "fst (NewReplaySaveState (CurrentGame m) [''chunk_x'']) \<noteq> None"
    by (simp add: NewReplaySaveState_def base_name_def drop_slashes_def parseChunkKeyframe_def
        parse_int_def parse_digits_def digit_val_def)
  then have d: "downloadMatch demo_env ''gs://b'' None [''chunk_x''] m (snd demo_start) =
      Some (Some (m\<lparr>Observed := False\<rparr>), snd demo_start)"
    by (auto simp: downloadMatch_def split: option.splits prod.splits)
  from failed_download_emitted [OF this] d show ?thesis by auto
qed

end
