(* ===== verification/Elo_Parse.thy ===== *)
theory Elo_Parse
  imports Go_Prelude Complex_Main
begin

text \<open>
  The parser of the elo text format: \<open>lolelo-master/parse/parse.go\<close>. A line is an event name
  followed by keys and values, separated by tabs.

  \<open>float64\<close> values are reals. \<open>strconv.ParseFloat\<close> is modelled on plain decimals, the form the
  spectator program writes; other notations (exponents, \<open>inf\<close>) count as errors here. The decoding
  of the fields into an event (\<open>mapstructure\<close>) is a parameter.
\<close>

subsection \<open>Values\<close>

datatype val =
    IntV int
  | FloatV real
  | BoolV bool
  | PosV real real real
  | StrV string

definition is_digit :: "char \<Rightarrow> bool" where
  "is_digit c \<longleftrightarrow> digit_val c \<noteq> None"

definition strip_minus :: "string \<Rightarrow> string" where
  "strip_minus s = trim_prefix s ''-''"

text \<open>The regular expressions \<open>^-?[0-9]+$\<close> and \<open>^-?[0-9]*(\.[0-9]+)?$\<close>.\<close>

definition intRE :: "string \<Rightarrow> bool" where
  "intRE s \<longleftrightarrow> strip_minus s \<noteq> [] \<and> list_all is_digit (strip_minus s)"

definition floatRE :: "string \<Rightarrow> bool" where
  "floatRE s \<longleftrightarrow>
     (case dropWhile is_digit (strip_minus s) of
        [] \<Rightarrow> True
      | c # fs \<Rightarrow> c = CHR ''.'' \<and> fs \<noteq> [] \<and> list_all is_digit fs)"

text \<open>\<open>^X:(.+) Y:(.+) Z:(.+)$\<close>: each group takes as much as it can.\<close>

fun splits :: "string \<Rightarrow> string \<Rightarrow> (string \<times> string) list" where
  "splits sep [] = []"
| "splits sep (c # cs) =
     map (\<lambda>(a, b). (c # a, b)) (splits sep cs)
     @ (if has_prefix (c # cs) sep then [([], drop (length sep) (c # cs))] else [])"

definition no_newline :: "string \<Rightarrow> bool" where
  "no_newline s \<longleftrightarrow> CHR 0x0A \<notin> set s"

definition positionRE :: "string \<Rightarrow> (string \<times> string \<times> string) option" where
  "positionRE s =
     (if \<not> has_prefix s ''X:'' \<or> \<not> no_newline s then None
      else List.find (\<lambda>(x, y, z). x \<noteq> [] \<and> y \<noteq> [] \<and> z \<noteq> [])
        (concat (map (\<lambda>(x, r). map (\<lambda>(y, z). (x, y, z)) (splits '' Z:'' r)) (splits '' Y:'' (drop 2 s)))))"

text \<open>The value of a decimal: a sign, digits, and digits after a point.\<close>

definition dec_val :: "string \<Rightarrow> string \<Rightarrow> real option" where
  "dec_val whole fr =
     (if whole = [] \<and> fr = [] then None
      else case (digits_val 0 whole, digits_val 0 fr) of
             (Some w, Some f) \<Rightarrow> Some (real w + real f / 10 ^ length fr)
           | _ \<Rightarrow> None)"

definition parse_unsigned :: "string \<Rightarrow> real option" where
  "parse_unsigned s =
     (case split_on CHR ''.'' s of
        [w] \<Rightarrow> dec_val w []
      | [w, f] \<Rightarrow> dec_val w f
      | _ \<Rightarrow> None)"

definition ParseFloat :: "string \<Rightarrow> real option" where
  "ParseFloat s =
     (case s of
        [] \<Rightarrow> None
      | c # cs \<Rightarrow>
          if c = CHR ''-'' then map_option uminus (parse_unsigned cs)
          else if c = CHR ''+'' then parse_unsigned cs
          else parse_unsigned s)"

definition removeQuotes :: "string \<Rightarrow> string outcome" where
  "removeQuotes s =
     (if has_prefix s ''\"'' \<and> has_suffix s ''\"''
      then if length s < 2 then Panic ''slice bounds out of range''
           else Ok (take (length s - 2) (drop 1 s))
      else Ok s)"

definition parseLocation :: "string \<times> string \<times> string \<Rightarrow> val outcome" where
  "parseLocation strs =
     (case strs of (xs, ys, zs) \<Rightarrow>
        (case ParseFloat xs of
           None \<Rightarrow> Err (''strconv.ParseFloat: '' @ xs)
         | Some x \<Rightarrow>
        (case ParseFloat ys of
           None \<Rightarrow> Err (''strconv.ParseFloat: '' @ ys)
         | Some y \<Rightarrow>
        (case ParseFloat zs of
           None \<Rightarrow> Err (''strconv.ParseFloat: '' @ zs)
         | Some z \<Rightarrow> Ok (PosV x y z)))))"

definition getVal :: "string \<Rightarrow> val outcome" where
  "getVal s =
     (if intRE s then
        (case parse_int s of Some i \<Rightarrow> Ok (IntV i) | None \<Rightarrow> Err (''strconv.ParseInt: '' @ s))
      else if floatRE s then
        (case ParseFloat s of Some f \<Rightarrow> Ok (FloatV f) | None \<Rightarrow> Err (''strconv.ParseFloat: '' @ s))
      else if to_lower s = ''true'' then Ok (BoolV True)
      else if to_lower s = ''false'' then Ok (BoolV False)
      else (case positionRE s of
              Some m \<Rightarrow> parseLocation m
            | None \<Rightarrow> bind_ok (removeQuotes s) (\<lambda>r. Ok (StrV r))))"

subsection \<open>Lines\<close>

definition is_space :: "char \<Rightarrow> bool" where
  "is_space c \<longleftrightarrow> c \<in> set [CHR '' '', CHR 0x09, CHR 0x0A, CHR 0x0B, CHR 0x0C, CHR 0x0D]"

definition TrimSpace :: "string \<Rightarrow> string" where
  "TrimSpace s = rev (dropWhile is_space (rev (dropWhile is_space s)))"

type_synonym field_map = "(string \<times> val) list"

fun field_pairs :: "field_map \<Rightarrow> string list \<Rightarrow> field_map outcome" where
  "field_pairs m (k # v # rest) =
     bind_ok (removeQuotes k) (\<lambda>k'. bind_ok (getVal v) (\<lambda>v'. field_pairs (AList.update k' v' m) rest))"
| "field_pairs m _ = Ok m"

definition fields :: "string \<Rightarrow> field_map outcome" where
  "fields s =
     (let fs = split_on CHR 0x09 (TrimSpace s) in
      if length fs < 1 then Err ''must have at least 1 field''
      else if length fs mod 2 \<noteq> 1
        then Err (''expected odd number of elements, found '' @ show_nat (length fs))
      else field_pairs [(''event'', StrV (hd fs))] (tl fs))"

datatype elo_kind =
    KBasicAttack | KChampDie | KChampKill | KDamage | KDie | KGameEnd | KNetworkIDMapping string
  | KKill | KLevelUp | KNexusDestroyed | KOnCreate | KOnDelete | KPing | KSpellCast

definition event_kind :: "string \<Rightarrow> elo_kind option outcome" where
  "event_kind s =
     (if s = ''BASIC_ATTACK'' then Ok (Some KBasicAttack)
      else if s = ''CHAMP_DIE'' then Ok (Some KChampDie)
      else if s = ''CHAMP_KILL'' then Ok (Some KChampKill)
      else if s = ''DAMAGE'' then Ok (Some KDamage)
      else if s = ''DIE'' then Ok (Some KDie)
      else if s = ''GAME_END'' then Ok (Some KGameEnd)
      else if s = ''ID_BARRACKS'' \<or> s = ''ID_HERO'' \<or> s = ''ID_TURRET'' then Ok (Some (KNetworkIDMapping s))
      else if s = ''KILL'' then Ok (Some KKill)
      else if s = ''LEVEL_UP'' then Ok (Some KLevelUp)
      else if s = ''NEXUS_DESTROYED'' then Ok (Some KNexusDestroyed)
      else if s = ''ON_CREATE'' then Ok (Some KOnCreate)
      else if s = ''ON_DELETE'' then Ok (Some KOnDelete)
      else if s = ''PING'' then Ok (Some KPing)
      else if s = ''SPELL_CAST'' then Ok (Some KSpellCast)
      else if s \<in> set [''END_GAME'', ''GAME_STALL'', ''DAMPENER_RESPAWN'', ''DAMPENER_RESPAWN_SOON'',
                        ''SURRENDER_AGREED''] then Ok None
      else Err (''unepected event type ('' @ s @ '') for event''))"

definition EloEvent :: "(elo_kind \<Rightarrow> field_map \<Rightarrow> 'e outcome) \<Rightarrow> field_map \<Rightarrow> 'e option outcome" where
  "EloEvent decode m =
     (case map_of m ''event'' of
        None \<Rightarrow> Err ''no event key for event''
      | Some (StrV s) \<Rightarrow>
          bind_ok (event_kind s) (\<lambda>k. case k of
            None \<Rightarrow> Ok None
          | Some kind \<Rightarrow> bind_ok (decode kind m) (\<lambda>e. Ok (Some e)))
      | Some _ \<Rightarrow> Err ''unexpected event value for event'')"

text \<open>
  \<open>LogFile\<close>: \<open>opened\<close> is the error of opening the file, or its lines. When the file cannot be
  opened, the iterator is nil and its deferred \<open>Close\<close> dereferences it.
\<close>

fun log_lines :: "(elo_kind \<Rightarrow> field_map \<Rightarrow> 'e outcome) \<Rightarrow> nat \<Rightarrow> string list \<Rightarrow> 'e list outcome" where
  "log_lines decode n [] = Ok []"
| "log_lines decode n (l # ls) =
     bind_ok (fields l) (\<lambda>m.
       case EloEvent decode m of
         Panic p \<Rightarrow> Panic p
       | Err e \<Rightarrow> Err (''error parsing event from line '' @ show_nat (Suc n) @ '': '' @ e)
       | Ok ev \<Rightarrow> bind_ok (log_lines decode (Suc n) ls) (\<lambda>es.
           Ok (case ev of None \<Rightarrow> es | Some e \<Rightarrow> e # es)))"

definition LogFile ::
  "(elo_kind \<Rightarrow> field_map \<Rightarrow> 'e outcome) \<Rightarrow> string + string list \<Rightarrow> 'e list outcome" where
  "LogFile decode opened =
     (case opened of
        Inl e \<Rightarrow> Panic ''nil pointer dereference''
      | Inr ls \<Rightarrow> log_lines decode 0 ls)"

subsection \<open>Printing and parsing again\<close>

fun join :: "char \<Rightarrow> string list \<Rightarrow> string" where
  "join sep [] = []"
| "join sep [t] = t"
| "join sep (t # ts) = t @ sep # join sep ts"

lemma split_join: "ts \<noteq> [] \<Longrightarrow> \<forall>t \<in> set ts. sep \<notin> set t \<Longrightarrow> split_on sep (join sep ts) = ts"
  by (induction sep ts rule: join.induct) (simp_all add: split_on_no_sep split_on_append_sep)

text \<open>A plain token: not empty, without white space and quotes.\<close>

definition plain :: "string \<Rightarrow> bool" where
  "plain s \<longleftrightarrow> s \<noteq> [] \<and> list_all (\<lambda>c. \<not> is_space c \<and> c \<noteq> CHR ''\"'') s"

lemma show_int_chars': "c \<in> set (show_int i) \<Longrightarrow> c = CHR ''-'' \<or> is_digit c"
  using show_nat_chars by (fastforce simp: show_int_def is_digit_def split: if_splits)

lemma not_digits: "\<not> is_digit CHR ''-''" "\<not> is_digit CHR ''\"''" "is_space c \<Longrightarrow> \<not> is_digit c"
  by (auto simp: is_digit_def digit_val_def is_space_def)

lemma show_int_ne [simp]: "show_int i \<noteq> []"
  by (simp add: show_int_def)

lemma plain_show_int: "plain (show_int i)"
proof -
  have "\<not> is_space c \<and> c \<noteq> CHR ''\"''" if "c \<in> set (show_int i)" for c
    using show_int_chars' [OF that] not_digits by (auto simp: is_space_def)
  then show ?thesis by (simp add: plain_def list_all_iff)
qed

lemma show_nat_digits: "list_all is_digit (show_nat n)"
  using show_nat_chars by (fastforce simp: list_all_iff is_digit_def)

lemma strip_minus_show_int: "strip_minus (show_int i) = show_nat (nat \<bar>i\<bar>)"
proof -
  have "\<not> has_prefix (show_nat n) ''-''" for n
    using show_nat_digits [of n] not_digits(1)
    by (cases "show_nat n") (auto simp: has_prefix_def)
  then show ?thesis by (auto simp: strip_minus_def trim_prefix_def show_int_def has_prefix_def)
qed

lemma getVal_show_int:
  assumes "int64_min \<le> i" and "i \<le> int64_max"
  shows "getVal (show_int i) = Ok (IntV i)"
  using assms
  by (simp add: getVal_def intRE_def strip_minus_show_int show_nat_digits parse_show_int)

lemma removeQuotes_plain: "plain s \<Longrightarrow> removeQuotes s = Ok s"
  by (cases s) (auto simp: plain_def removeQuotes_def has_prefix_def)

lemma TrimSpace_id:
  assumes "s \<noteq> []" and "\<not> is_space (hd s)" and "\<not> is_space (last s)"
  shows "TrimSpace s = s"
proof -
  have "dropWhile is_space s = s" using assms(1,2) by (cases s) simp_all
  moreover have "dropWhile is_space (rev s) = rev s"
  proof -
    obtain a l where r: "rev s = a # l" using assms(1) by (metis list.exhaust rev_is_Nil_conv)
    then have "a = last s" by (metis hd_rev list.sel(1))
    then show ?thesis unfolding r using assms(3) by simp
  qed
  ultimately show ?thesis by (simp add: TrimSpace_def)
qed

lemma join_plain:
  assumes "ts \<noteq> []" and "\<forall>t \<in> set ts. plain t"
  shows "join sep ts \<noteq> [] \<and> \<not> is_space (hd (join sep ts)) \<and> \<not> is_space (last (join sep ts))"
  using assms
proof (induction sep ts rule: join.induct)
  case (2 sep t)
  then show ?case by (simp add: plain_def list_all_iff)
next
  case (3 sep t u ts)
  then have "t \<noteq> []" "\<not> is_space (hd t)" by (simp_all add: plain_def list_all_iff)
  with 3 show ?case by simp
qed simp

lemma field_pairs_ints:
  assumes "\<forall>(k, i) \<in> set kis. plain k \<and> int64_min \<le> i \<and> i \<le> int64_max"
  shows "field_pairs m (concat (map (\<lambda>(k, i). [k, show_int i]) kis)) =
     Ok (fold (\<lambda>(k, i). AList.update k (IntV i)) kis m)"
  using assms
  by (induction kis arbitrary: m) (auto simp: removeQuotes_plain getVal_show_int)

lemma even_tokens: "length (concat (map (\<lambda>(k, i). [k, f i]) kis)) = 2 * length kis"
  by (induction kis) auto

text \<open>
  A line of an event with integer fields, as the spectator writes it, is read back: the name
  under \<open>event\<close> and every field with its value, a later one replacing an earlier of the same key.
\<close>

theorem fields_roundtrip:
  assumes "plain name" and "\<forall>(k, i) \<in> set kis. plain k \<and> int64_min \<le> i \<and> i \<le> int64_max"
  shows "fields (join CHR 0x09 (name # concat (map (\<lambda>(k, i). [k, show_int i]) kis))) =
     Ok (fold (\<lambda>(k, i). AList.update k (IntV i)) kis [(''event'', StrV name)])"
proof -
  let ?ts = "name # concat (map (\<lambda>(k, i). [k, show_int i]) kis)"
  have pl: "\<forall>t \<in> set ?ts. plain t" using assms plain_show_int by auto
  have tab: "CHR 0x09 \<notin> set t" if "plain t" for t
    using that by (auto simp: plain_def list_all_iff is_space_def)
  have "TrimSpace (join CHR 0x09 ?ts) = join CHR 0x09 ?ts"
    using join_plain [of ?ts "CHR 0x09"] pl by (intro TrimSpace_id) simp_all
  moreover have "split_on CHR 0x09 (join CHR 0x09 ?ts) = ?ts"
    using pl tab by (intro split_join) auto
  moreover have "length ?ts mod 2 = 1" using even_tokens [of show_int kis] by simp
  ultimately show ?thesis
    using field_pairs_ints [OF assms(2)] by (simp add: fields_def)
qed

theorem fields_roundtrip_witness:
  "fields (join CHR 0x09 [''DIE'', ''network_id'', show_int 1073741850]) =
     Ok [(''event'', StrV ''DIE''), (''network_id'', IntV 1073741850)]"
  using fields_roundtrip [of "''DIE''" "[(''network_id'', 1073741850)]"]
  by (simp add: plain_def is_space_def int64_min_def int64_max_def)

text \<open>
  Two inputs crash the parser instead of giving an error: a file that cannot be opened (the
  deferred \<open>Close\<close> of a nil iterator) and a key or value that is a single quote.
\<close>

theorem parser_panics:
  "LogFile decode (Inl e) = Panic ''nil pointer dereference''
   \<and> fields (''DIE'' @ CHR 0x09 # ''network_id'' @ [CHR 0x09, CHR ''\"'']) = Panic ''slice bounds out of range''"
proof
  show "LogFile decode (Inl e) = Panic ''nil pointer dereference''" by (simp add: LogFile_def)
  show "fields (''DIE'' @ CHR 0x09 # ''network_id'' @ [CHR 0x09, CHR ''\"'']) = Panic ''slice bounds out of range''"
    by code_simp
qed

text \<open>
  Reading a file never drops an event silently: when it succeeds, every line had an odd number
  of fields and an event name that is known, and the events are those of the decoder, in order.
\<close>

lemma log_lines_ok:
  "log_lines decode n ls = Ok es \<Longrightarrow>
     \<exists>evs. length evs = length ls \<and> es = concat (map (\<lambda>ev. case ev of None \<Rightarrow> [] | Some e \<Rightarrow> [e]) evs)
       \<and> list_all2 (\<lambda>l ev. \<exists>m. fields l = Ok m \<and> EloEvent decode m = Ok ev) ls evs"
proof (induction decode n ls arbitrary: es rule: log_lines.induct)
  case (2 decode n l ls)
  from "2.prems" obtain m where m0: "fields l = Ok m"
      "(case EloEvent decode m of Panic p \<Rightarrow> Panic p
        | Err e \<Rightarrow> Err (''error parsing event from line '' @ show_nat (Suc n) @ '': '' @ e)
        | Ok ev \<Rightarrow> bind_ok (log_lines decode (Suc n) ls) (\<lambda>es. Ok (case ev of None \<Rightarrow> es | Some e \<Rightarrow> e # es))) = Ok es"
    by (auto simp: bind_ok_Ok)
  then obtain ev where ev: "EloEvent decode m = Ok ev" by (cases "EloEvent decode m") simp_all
  with m0 obtain es1 where m: "fields l = Ok m" "EloEvent decode m = Ok ev"
      "log_lines decode (Suc n) ls = Ok es1" "es = (case ev of None \<Rightarrow> es1 | Some e \<Rightarrow> e # es1)"
    by (auto simp: bind_ok_Ok)
  from "2.IH" [OF m(2,3)] obtain evs where "length evs = length ls"
      "es1 = concat (map (\<lambda>ev. case ev of None \<Rightarrow> [] | Some e \<Rightarrow> [e]) evs)"
      "list_all2 (\<lambda>l ev. \<exists>m. fields l = Ok m \<and> EloEvent decode m = Ok ev) ls evs"
    by blast
  with m show ?case by (intro exI [of _ "ev # evs"]) (auto split: option.splits)
qed simp

end
