(* ===== verification/Baseview.thy ===== *)
theory Baseview
  imports Go_Prelude Complex_Main
begin

text \<open>
  The standard match format, \<open>lolstats-master/baseview\<close>: positions, participants, the events, the
  ids of the objects of the map, its areas, and the kinds of wards. \<open>float64\<close> values are reals.
\<close>

subsection \<open>Positions, participants and teams\<close>

record position =
  X :: real
  Y :: real
  Z :: real

definition Distance :: "position \<Rightarrow> position \<Rightarrow> real" where
  "Distance p q = sqrt ((X p - X q) ^ 2 + (Y p - Y q) ^ 2 + (Z p - Z q) ^ 2)"

definition DistanceXY :: "position \<Rightarrow> position \<Rightarrow> real" where
  "DistanceXY p q = sqrt ((X p - X q) ^ 2 + (Y p - Y q) ^ 2)"

record participant =
  ParticipantID :: int
  pSummonerID :: int
  pSummonerName :: string
  ChampionID :: int
  Spell1 :: string
  Spell2 :: string

definition BlueTeam :: int where "BlueTeam = 100"
definition RedTeam :: int where "RedTeam = 200"

definition TeamID :: "int \<Rightarrow> int" where
  "TeamID participantID =
     (if participantID \<ge> 1 \<and> participantID \<le> 5 then BlueTeam
      else if participantID \<ge> 6 \<and> participantID \<le> 10 then RedTeam
      else 0)"

definition EnemyTeamID :: "int \<Rightarrow> int" where
  "EnemyTeamID participantID =
     (if TeamID participantID = BlueTeam then RedTeam
      else if TeamID participantID = RedTeam then BlueTeam
      else 0)"

lemma TeamID_blue: "TeamID p = BlueTeam \<longleftrightarrow> 1 \<le> p \<and> p \<le> 5"
  by (auto simp: TeamID_def BlueTeam_def RedTeam_def)

lemma TeamID_red: "TeamID p = RedTeam \<longleftrightarrow> 6 \<le> p \<and> p \<le> 10"
  by (auto simp: TeamID_def BlueTeam_def RedTeam_def)

subsection \<open>Actors, buildings and monsters\<close>

type_synonym actor_type = string

definition ActorHero :: actor_type where "ActorHero = ''hero''"
definition ActorMinion :: actor_type where "ActorMinion = ''minion''"
definition ActorMonster :: actor_type where "ActorMonster = ''monster''"
definition ActorTurret :: actor_type where "ActorTurret = ''turret''"
definition ActorInhibitor :: actor_type where "ActorInhibitor = ''inhibitor''"
definition ActorWard :: actor_type where "ActorWard = ''ward''"

lemmas actor_defs =
  ActorHero_def ActorMinion_def ActorMonster_def ActorTurret_def ActorInhibitor_def ActorWard_def

definition MonsterRiftHerald :: int where "MonsterRiftHerald = 300"
definition MonsterBaron :: int where "MonsterBaron = 301"
definition MonsterDragonElemental :: int where "MonsterDragonElemental = 302"
definition MonsterDragonElder :: int where "MonsterDragonElder = 303"
definition MonsterBlueSentinel :: int where "MonsterBlueSentinel = 304"
definition MonsterBlueSentinelMini :: int where "MonsterBlueSentinelMini = 305"
definition MonsterGromp :: int where "MonsterGromp = 306"
definition MonsterKrug :: int where "MonsterKrug = 307"
definition MonsterKrugMini :: int where "MonsterKrugMini = 308"
definition MonsterMurkwolf :: int where "MonsterMurkwolf = 309"
definition MonsterMurkwolfMini :: int where "MonsterMurkwolfMini = 310"
definition MonsterRazor :: int where "MonsterRazor = 311"
definition MonsterRazorMini :: int where "MonsterRazorMini = 312"
definition MonsterRedBramb :: int where "MonsterRedBramb = 313"
definition MonsterRedBrambMini :: int where "MonsterRedBrambMini = 314"
definition MonsterCrab :: int where "MonsterCrab = 315"

lemmas monster_defs =
  MonsterRiftHerald_def MonsterBaron_def MonsterDragonElemental_def MonsterDragonElder_def
  MonsterBlueSentinel_def MonsterBlueSentinelMini_def MonsterGromp_def MonsterKrug_def
  MonsterKrugMini_def MonsterMurkwolf_def MonsterMurkwolfMini_def MonsterRazor_def
  MonsterRazorMini_def MonsterRedBramb_def MonsterRedBrambMini_def MonsterCrab_def

definition IsEpicMonster :: "int \<Rightarrow> bool" where
  "IsEpicMonster i \<longleftrightarrow>
     i \<in> set [MonsterRiftHerald, MonsterBaron, MonsterDragonElemental, MonsterDragonElder]"

definition IsJungleMinion :: "int \<Rightarrow> bool" where
  "IsJungleMinion i \<longleftrightarrow>
     i \<in> set [MonsterBlueSentinel, MonsterBlueSentinelMini, MonsterGromp, MonsterKrug, MonsterKrugMini,
              MonsterMurkwolf, MonsterMurkwolfMini, MonsterRazor, MonsterRazorMini, MonsterRedBramb,
              MonsterRedBrambMini, MonsterCrab]"

definition TurretPositions :: "(int \<times> position) list" where
  "TurretPositions =
     [(101, \<lparr>X = 1364.939, Y = 6837.4, Z = 52.83815\<rparr>),
      (102, \<lparr>X = 994, Y = 10434, Z = 52.8381\<rparr>),
      (103, \<lparr>X = 1784.683, Y = 2325.73, Z = 95.74805\<rparr>),
      (104, \<lparr>X = 2219.66, Y = 1777.356, Z = 95.74808\<rparr>),
      (105, \<lparr>X = 3649.316, Y = 3670.658, Z = 95.74804\<rparr>),
      (106, \<lparr>X = 5038.548, Y = 4957.532, Z = 50.23169\<rparr>),
      (107, \<lparr>X = 5902, Y = 6336, Z = 51.79154\<rparr>),
      (108, \<lparr>X = 1198, Y = 4278, Z = 95.74805\<rparr>),
      (109, \<lparr>X = 4274, Y = 1258, Z = 95.74808\<rparr>),
      (110, \<lparr>X = 6844.213, Y = 1544.085, Z = 49.4502\<rparr>),
      (111, \<lparr>X = 10420.48, Y = 1048, Z = 51.35432\<rparr>),
      (201, \<lparr>X = 7940, Y = 13376, Z = 52.8381\<rparr>),
      (202, \<lparr>X = 4320, Y = 13854, Z = 52.8381\<rparr>),
      (203, \<lparr>X = 13078, Y = 12584, Z = 91.42981\<rparr>),
      (204, \<lparr>X = 12564, Y = 13084, Z = 91.42981\<rparr>),
      (205, \<lparr>X = 11110.61, Y = 11183.44, Z = 91.42981\<rparr>),
      (206, \<lparr>X = 9012, Y = 10066, Z = 52.3063\<rparr>),
      (207, \<lparr>X = 8900, Y = 8576, Z = 54.04472\<rparr>),
      (208, \<lparr>X = 10472.67, Y = 13598.79, Z = 91.79472\<rparr>),
      (209, \<lparr>X = 13604, Y = 10578, Z = 91.42978\<rparr>),
      (210, \<lparr>X = 13346, Y = 8340, Z = 52.3063\<rparr>),
      (211, \<lparr>X = 13854.49, Y = 4426.352, Z = 52.80367\<rparr>)]"

subsection \<open>Wards\<close>

text \<open>The limit of concurrent wards is \<open>None\<close> for \<open>math.Inf(1)\<close>.\<close>

record ward_kind =
  wardType :: string
  sightRange :: real
  concurrent :: "real option"

type_synonym ward_item = string

definition BlueTrinket :: ward_item where "BlueTrinket = ''BLUE_TRINKET''"
definition SightWard :: ward_item where "SightWard = ''SIGHT_WARD''"
definition YellowTrinket :: ward_item where "YellowTrinket = ''YELLOW_TRINKET''"
definition VisionWard :: ward_item where "VisionWard = ''VISION_WARD''"

lemmas ward_item_defs = BlueTrinket_def SightWard_def YellowTrinket_def VisionWard_def

definition BlueWard :: ward_kind where
  "BlueWard = \<lparr>wardType = ''blue'', sightRange = 500, concurrent = None\<rparr>"

definition PinkWard :: ward_kind where
  "PinkWard = \<lparr>wardType = ''pink'', sightRange = 1100, concurrent = Some 1\<rparr>"

definition YellowWard :: ward_kind where
  "YellowWard = \<lparr>wardType = ''yellow'', sightRange = 1100, concurrent = Some 3\<rparr>"

definition Ward :: "ward_item \<Rightarrow> ward_kind" where
  "Ward w =
     (if w = SightWard \<or> w = YellowTrinket then YellowWard
      else if w = BlueTrinket then BlueWard
      else if w = VisionWard then PinkWard
      else \<lparr>wardType = ''unknown'', sightRange = 0, concurrent = Some 1\<rparr>)"

subsection \<open>Events\<close>

record attack =
  CooldownExpires :: real
  aStart :: "position option"
  aEnd :: "position option"
  aAttackerID :: int
  aAttackerType :: actor_type
  Slot :: string
  TargetID :: int
  TargetType :: actor_type
  TargetPosition :: "position option"

record damage =
  Total :: real
  Percent :: real
  dAttackerID :: int
  dAttackerType :: actor_type
  VictimID :: int
  VictimType :: actor_type

record state_update =
  Gold :: int
  Health :: real
  HealthMax :: real
  InGrass :: bool
  MinionsKilled :: int
  NeutralMinionsKilled :: int
  Mana :: real
  ManaMax :: real
  suParticipantID :: int
  suPosition :: position
  UnderOwnTurret :: bool
  UnderEnemyTurret :: bool

record ward_placed =
  wpType :: string
  wpItemType :: ward_item
  wpParticipantID :: int
  wpPosition :: position
  wpTeamID :: int
  wpWardID :: int

datatype body =
    Attack attack
  | BuildingKill actor_type int
  | Damage damage
  | Death position int
  | EpicMonsterKill int int
  | GameEnd string
  | ItemUsed string real
  | LevelUp int int
  | SlotUpgrade int string int
  | StateUpdate state_update
  | Spawn int position
  | WardPlaced ward_placed
  | WardDeath int

record event =
  EventType :: string
  Seconds :: real
  Body :: body

text \<open>The type of event that \<open>parseEvent\<close> decodes into, by the value under \<open>event\<close>.\<close>

datatype event_kind =
    KAttack | KBuildingKill | KDamage | KDeath | KEpicMonsterKill | KGameEnd | KItemUsed | KLevelUp
  | KSlotUpgrade | KStateUpdate | KSpawn | KWardPlaced | KWardDeath

definition parseEvent_kind :: "string \<Rightarrow> event_kind fallible" where
  "parseEvent_kind s =
     (if s = ''attack'' then Inr KAttack
      else if s = ''building_kill'' then Inr KBuildingKill
      else if s = ''damage'' then Inr KDamage
      else if s = ''death'' then Inr KDeath
      else if s = ''epic_monster_kill'' then Inr KEpicMonsterKill
      else if s = ''game_end'' then Inr KGameEnd
      else if s = ''item_used'' then Inr KItemUsed
      else if s = ''level_up'' then Inr KLevelUp
      else if s = ''slot_upgrade'' then Inr KSlotUpgrade
      else if s = ''state_update'' then Inr KStateUpdate
      else if s = ''spawn'' then Inr KSpawn
      else if s = ''ward_placed'' then Inr KWardPlaced
      else if s = ''ward_death'' then Inr KWardDeath
      else Inl (''unknown event type: '' @ s))"

primrec body_kind :: "body \<Rightarrow> event_kind" where
  "body_kind (Attack a) = KAttack"
| "body_kind (BuildingKill t i) = KBuildingKill"
| "body_kind (Damage d) = KDamage"
| "body_kind (Death p v) = KDeath"
| "body_kind (EpicMonsterKill v k) = KEpicMonsterKill"
| "body_kind (GameEnd r) = KGameEnd"
| "body_kind (ItemUsed s c) = KItemUsed"
| "body_kind (LevelUp l p) = KLevelUp"
| "body_kind (SlotUpgrade l s p) = KSlotUpgrade"
| "body_kind (StateUpdate u) = KStateUpdate"
| "body_kind (Spawn p q) = KSpawn"
| "body_kind (WardPlaced w) = KWardPlaced"
| "body_kind (WardDeath i) = KWardDeath"

fun last_real_event :: "event list \<Rightarrow> real" where
  "last_real_event [] = 0"
| "last_real_event (e # es) =
     (case Body e of
        StateUpdate _ \<Rightarrow> last_real_event es
      | GameEnd _ \<Rightarrow> last_real_event es
      | _ \<Rightarrow> Seconds e)"

definition MatchDuration :: "event list \<Rightarrow> real" where
  "MatchDuration es = last_real_event (rev es)"

subsection \<open>Areas of the map\<close>

definition AreaBlueBase :: int where "AreaBlueBase = 1"
definition AreaBlueTopLane :: int where "AreaBlueTopLane = 2"
definition AreaBlueTopJungle :: int where "AreaBlueTopJungle = 3"
definition AreaBlueMidLane :: int where "AreaBlueMidLane = 4"
definition AreaBlueBotJungle :: int where "AreaBlueBotJungle = 5"
definition AreaBlueBotLane :: int where "AreaBlueBotLane = 6"
definition AreaTopRiver :: int where "AreaTopRiver = 7"
definition AreaBottomRiver :: int where "AreaBottomRiver = 8"
definition AreaRedBase :: int where "AreaRedBase = 9"
definition AreaRedTopLane :: int where "AreaRedTopLane = 10"
definition AreaRedTopJungle :: int where "AreaRedTopJungle = 11"
definition AreaRedMidLane :: int where "AreaRedMidLane = 12"
definition AreaRedBotJungle :: int where "AreaRedBotJungle = 13"
definition AreaRedBotLane :: int where "AreaRedBotLane = 14"

lemmas area_defs =
  AreaBlueBase_def AreaBlueTopLane_def AreaBlueTopJungle_def AreaBlueMidLane_def AreaBlueBotJungle_def
  AreaBlueBotLane_def AreaTopRiver_def AreaBottomRiver_def AreaRedBase_def AreaRedTopLane_def
  AreaRedTopJungle_def AreaRedMidLane_def AreaRedBotJungle_def AreaRedBotLane_def

datatype region = RegionTop | RegionMid | RegionBot | RegionJungle | RegionBase | RegionOther

primrec region_name :: "region \<Rightarrow> string" where
  "region_name RegionTop = ''TOP''"
| "region_name RegionMid = ''MID''"
| "region_name RegionBot = ''BOT''"
| "region_name RegionJungle = ''JUNGLE''"
| "region_name RegionBase = ''BASE''"
| "region_name RegionOther = ''OTHER''"

definition AreaToRegion :: "int \<Rightarrow> region" where
  "AreaToRegion i =
     (if i = AreaBlueBase \<or> i = AreaRedBase then RegionBase
      else if i = AreaBlueTopLane \<or> i = AreaRedTopLane then RegionTop
      else if i = AreaBlueMidLane \<or> i = AreaRedMidLane then RegionMid
      else if i = AreaBlueBotLane \<or> i = AreaRedBotLane then RegionBot
      else if i = AreaBlueTopJungle \<or> i = AreaBlueBotJungle \<or> i = AreaRedTopJungle
              \<or> i = AreaRedBotJungle \<or> i = AreaTopRiver \<or> i = AreaBottomRiver then RegionJungle
      else RegionOther)"

definition SRXMin :: real where "SRXMin = -120"
definition SRXMax :: real where "SRXMax = 14870"
definition SRYMin :: real where "SRYMin = -120"
definition SRYMax :: real where "SRYMax = 14980"

lemmas sr_defs = SRXMin_def SRXMax_def SRYMin_def SRYMax_def

definition isBlue :: "position \<Rightarrow> bool" where
  "isBlue p =
     (let distXMin = X p - SRYMin; distXMax = SRXMax - X p;
          distYMin = Y p - SRYMin; distYMax = SRYMax - Y p in
      if distXMin < distXMax \<and> distXMin < distYMin \<and> distXMin < distYMax then True
      else if distYMin < distXMin \<and> distYMin < distXMax \<and> distYMin < distYMax then True
      else False)"

definition ternary :: "bool \<Rightarrow> int \<Rightarrow> int \<Rightarrow> int" where
  "ternary c a b = (if c then a else b)"

definition AreaID :: "position \<Rightarrow> int" where
  "AreaID p0 =
     (let transposed = (\<not> isBlue p0);
          p = (if transposed then \<lparr>X = SRYMax - Y p0, Y = SRXMax - X p0, Z = Z p0\<rparr> else p0);
          hi = (if X p < Y p then Y p else X p); lo = (if X p < Y p then X p else Y p) in
      if X p < 4400 \<and> Y p < 4400 then ternary transposed AreaRedBase AreaBlueBase
      else if X p < 1900 \<or> Y p > 11700 then ternary transposed AreaRedTopLane AreaBlueTopLane
      else if Y p < 1900 \<or> X p > 11700 then ternary transposed AreaRedBotLane AreaBlueBotLane
      else if lo / hi > 86 / 100 then ternary transposed AreaRedMidLane AreaBlueMidLane
      else if X p \<le> Y p then ternary transposed AreaRedTopJungle AreaBlueTopJungle
      else if X p > Y p then ternary transposed AreaRedBotJungle AreaBlueBotJungle
      else 0)"

text \<open>
  Every position of the map has an area, and its region is a lane, the jungle or a base: the
  values \<open>-1\<close> of the comment and 0 of the default case never come out, and neither do the rivers.
\<close>

theorem area_total:
  "AreaID p \<in> {1..14} - {AreaTopRiver, AreaBottomRiver} \<and> AreaToRegion (AreaID p) \<noteq> RegionOther
   \<and> (isBlue p \<longleftrightarrow> AreaID p \<le> 6)"
  by (auto simp: AreaID_def Let_def ternary_def area_defs AreaToRegion_def)

end
