(* ===== verification/Elo_Events.thy ===== *)
theory Elo_Events
  imports Baseview
begin

text \<open>
  The elo events (\<open>lolelo-master/event/event.go\<close>) and the map from network ids to the objects of a
  match (\<open>network_id_util.go\<close>). Of the fields of an event those are kept that the conversion reads.
\<close>

subsection \<open>Events\<close>

record ping =
  pgGold :: int
  pgHealth :: real
  pgHealthMax :: real
  pgInGrass :: bool
  pgNetworkID :: int
  pgMana :: real
  pgManaMax :: real
  pgMinionsKilled :: int
  pgNeutralMinionsKilled :: int
  pgPosition :: position
  SlotQCooldownExp :: real
  SlotWCooldownExp :: real
  SlotECooldownExp :: real
  SlotRCooldownExp :: real
  SlotS1CooldownExp :: real
  SlotS2CooldownExp :: real
  pgUnderTurret :: bool
  pgUnderEnemyTurret :: bool

record spell_cast =
  PositionStart :: position
  PositionEnd :: position
  SpellName :: string
  scNetworkID :: int
  scSlot :: string
  scTargetNetworkID :: int
  scMatchSeconds :: real

record creation =
  ocNetworkID :: int
  ocSenderName :: string
  ocTeamID :: int
  ocPosition :: position
  ocMatchSeconds :: real

datatype elo_body =
    BasicAttackE int int position
  | ChampDieE int
  | ChampKillE int
  | DamageE real int int
  | DieE int
  | GameEndE
  | NetworkIDMappingE string int string
  | KillE int
  | LevelUpE int int
  | NexusDestroyedE string
  | OnCreateE creation
  | OnDeleteE int
  | PingE ping
  | SpellCastE spell_cast

record elo =
  Time :: real
  MatchSeconds :: real
  EloBody :: elo_body

text \<open>\<open>SetMatchSeconds\<close>, on the copies of the field that casts and creations carry as well.\<close>

definition set_match_seconds :: "real \<Rightarrow> elo \<Rightarrow> elo" where
  "set_match_seconds s e =
     e\<lparr>MatchSeconds := s,
       EloBody := (case EloBody e of
           SpellCastE c \<Rightarrow> SpellCastE (c\<lparr>scMatchSeconds := s\<rparr>)
         | OnCreateE c \<Rightarrow> OnCreateE (c\<lparr>ocMatchSeconds := s\<rparr>)
         | b \<Rightarrow> b)\<rparr>"

definition WardItemType :: "spell_cast \<Rightarrow> ward_item option" where
  "WardItemType s =
     (let n = to_lower (SpellName s) in
      if n = ''itemghostward'' then Some SightWard
      else if n = ''trinketorblvl3'' then Some BlueTrinket
      else if n = ''trinkettotemlvl1'' then Some YellowTrinket
      else if n = ''jammerdevice'' then Some VisionWard
      else None)"

subsection \<open>Names of objects\<close>

definition isMinion :: "string \<Rightarrow> bool" where
  "isMinion name \<longleftrightarrow> has_prefix (to_lower name) ''minion''"

definition isWard :: "string \<Rightarrow> bool" where
  "isWard name \<longleftrightarrow> to_lower name \<in> set [''sightward'', ''visionward'', ''jammerdevice'']"

definition inhibitorID :: "string \<Rightarrow> int" where
  "inhibitorID name =
     (let lower = to_lower name in
      if \<not> has_prefix lower ''barracks_'' then 0
      else let n = trim_prefix lower ''barracks_'' in
        if n = ''t1_l1'' then 130
        else if n = ''t1_c1'' then 131
        else if n = ''t1_r1'' then 132
        else if n = ''t2_l1'' then 230
        else if n = ''t2_c1'' then 231
        else if n = ''t2_r1'' then 232
        else 0)"

text \<open>The names of the turrets after \<open>turret_\<close>, with their ids.\<close>

definition turret_table :: "(string \<times> int) list" where
  "turret_table =
     [(''t1_l_02_a'', 101), (''t1_l_03_a'', 102), (''t1_c_01_a'', 103), (''t1_c_02_a'', 104),
      (''t1_c_03_a'', 105), (''t1_c_04_a'', 106), (''t1_c_05_a'', 107),
      (''t1_c_06_a'', 108), (''t1_l_01_a'', 108), (''t1_c_07_a'', 109), (''t1_r_01_a'', 109),
      (''t1_r_02_a'', 110), (''t1_r_03_a'', 111),
      (''t2_l_01_a'', 208), (''t2_c_06_a'', 208), (''t2_l_02_a'', 201), (''t2_l_03_a'', 202),
      (''t2_c_01_a'', 203), (''t2_c_02_a'', 204), (''t2_c_03_a'', 205), (''t2_c_04_a'', 206),
      (''t2_c_05_a'', 207), (''t2_r_01_a'', 209), (''t2_c_07_a'', 209), (''t2_r_02_a'', 210),
      (''t2_r_03_a'', 211), (''chaosturretshrine_a'', 212), (''orderturretshrine_a'', 112)]"

definition turretID :: "string \<Rightarrow> int" where
  "turretID name =
     (let lower = to_lower name in
      if \<not> has_prefix lower ''turret_'' then 0
      else case map_of turret_table (trim_prefix lower ''turret_'') of Some i \<Rightarrow> i | None \<Rightarrow> 0)"

definition monsterID :: "string \<Rightarrow> int" where
  "monsterID name =
     (let n = trim_prefix (to_lower name) ''sru_'' in
      if has_prefix n ''riftherald'' then MonsterRiftHerald
      else if has_prefix n ''baron'' \<and> \<not> has_prefix n ''baronspawn'' then MonsterBaron
      else if has_prefix n ''dragon'' then
        (if has_prefix n ''dragon_elder'' then MonsterDragonElder else MonsterDragonElemental)
      else if has_prefix n ''bluemini'' then MonsterBlueSentinelMini
      else if has_prefix n ''blue'' then MonsterBlueSentinel
      else if has_prefix n ''gromp'' then MonsterGromp
      else if has_prefix n ''krugmini'' \<or> has_prefix n ''minikrug'' then MonsterKrugMini
      else if has_prefix n ''krug'' then MonsterKrug
      else if has_prefix n ''murkwolfmini'' then MonsterMurkwolfMini
      else if has_prefix n ''murkwolf'' then MonsterMurkwolf
      else if has_prefix n ''razorbeakmini'' then MonsterRazorMini
      else if has_prefix n ''razorbeak'' then MonsterRazor
      else if has_prefix n ''redmini'' then MonsterRedBrambMini
      else if has_prefix n ''red'' then MonsterRedBramb
      else if has_prefix n ''crab'' then MonsterRedBramb
      else 0)"

definition lookupBaseviewID :: "string \<Rightarrow> int \<Rightarrow> actor_type \<times> int" where
  "lookupBaseviewID name networkID =
     (if isMinion name then (ActorMinion, networkID)
      else if isWard name then (ActorWard, networkID)
      else if turretID name \<noteq> 0 then (ActorTurret, turretID name)
      else if monsterID name \<noteq> 0 then (ActorMonster, monsterID name)
      else if inhibitorID name \<noteq> 0 then (ActorInhibitor, inhibitorID name)
      else ('''', networkID))"

subsection \<open>The map of network ids\<close>

text \<open>Every entry has an entity of its own, so the pointers of the map are modelled by the map.\<close>

record entity =
  eName :: string
  eType :: actor_type
  eID :: int

record network_ids =
  nameToPID :: "string \<Rightarrow> int"
  nIDToEntity :: "int \<rightharpoonup> entity"

definition NewNetworkIDMap :: network_ids where
  "NewNetworkIDMap = \<lparr>nameToPID = (\<lambda>_. 0), nIDToEntity = Map.empty\<rparr>"

text \<open>\<open>Get\<close>, which also resolves the participant of a hero and keeps it.\<close>

definition GetID :: "int \<Rightarrow> network_ids \<Rightarrow> entity fallible \<times> network_ids" where
  "GetID nID n =
     (if nID = 0 then (Inr \<lparr>eName = '''', eType = '''', eID = 0\<rparr>, n)
      else case nIDToEntity n nID of
        None \<Rightarrow> (Inl (''id not found: '' @ show_int nID), n)
      | Some e \<Rightarrow>
          if eType e = ActorHero \<and> eID e = 0 then
            let e' = e\<lparr>eID := nameToPID n (eName e)\<rparr>;
                n' = n\<lparr>nIDToEntity := (nIDToEntity n)(nID \<mapsto> e')\<rparr> in
            if eID e' = 0 then (Inl (''unknown participant id for hero: '' @ eName e), n')
            else (Inr e', n')
          else (Inr e, n))"

definition AddParticipant :: "int \<Rightarrow> string \<Rightarrow> network_ids \<Rightarrow> network_ids" where
  "AddParticipant pID name n = n\<lparr>nameToPID := (nameToPID n)(name := pID)\<rparr>"

definition AddEvent :: "elo \<Rightarrow> network_ids \<Rightarrow> network_ids" where
  "AddEvent e n =
     (case EloBody e of
        NetworkIDMappingE senderName networkID eloType \<Rightarrow>
          let ent = (if eloType = ''ID_HERO'' then \<lparr>eName = senderName, eType = ActorHero, eID = 0\<rparr>
                     else let (t, i) = lookupBaseviewID senderName networkID in
                       \<lparr>eName = senderName, eType = t, eID = i\<rparr>)
          in n\<lparr>nIDToEntity := (nIDToEntity n)(networkID \<mapsto> ent)\<rparr>
      | OnCreateE c \<Rightarrow>
          (case nIDToEntity n (ocNetworkID c) of
             Some _ \<Rightarrow> n
           | None \<Rightarrow> let (t, i) = lookupBaseviewID (ocSenderName c) (ocNetworkID c) in
               n\<lparr>nIDToEntity := (nIDToEntity n)(ocNetworkID c \<mapsto> \<lparr>eName = ocSenderName c, eType = t, eID = i\<rparr>)\<rparr>)
      | _ \<Rightarrow> n)"

subsection \<open>What an object's id says\<close>

lemma turretID_range: "turretID name = 0 \<or> turretID name \<in> {101..112} \<union> {201..212}"
proof -
  have "\<forall>(k, i) \<in> set turret_table. i \<in> {101..112} \<union> {201..212}"
    by (simp add: turret_table_def)
  then show ?thesis
    by (auto simp: turretID_def Let_def split: option.splits dest!: map_of_SomeD)
qed

lemma monsterID_range: "monsterID name = 0 \<or> monsterID name \<in> {300..314}"
  by (simp add: monsterID_def Let_def monster_defs)

lemma inhibitorID_range: "inhibitorID name \<in> {0, 130, 131, 132, 230, 231, 232}"
  by (simp add: inhibitorID_def Let_def)

text \<open>
  The type and the id of an object agree: a turret has a turret id, a monster a monster id and
  an inhibitor an inhibitor id, disjoint ranges apart from the participants; every other object
  keeps its network id. No object is ever a hero by its name, and none is a scuttle crab.
\<close>

theorem object_ids:
  "case lookupBaseviewID name nid of (t, i) \<Rightarrow>
     (if t = ActorTurret then i \<in> {101..112} \<union> {201..212}
      else if t = ActorMonster then i \<in> {300..314}
      else if t = ActorInhibitor then i \<in> {130, 131, 132, 230, 231, 232}
      else i = nid \<and> t \<noteq> ActorHero)"
  using turretID_range [of name] monsterID_range [of name] inhibitorID_range [of name]
  by (auto simp: lookupBaseviewID_def actor_defs)

text \<open>
  The scuttle crab is taken for the red brambleback: its constant is never the id of an object.
\<close>

theorem crab_is_red:
  "lookupBaseviewID ''Sru_Crab15.1.1'' nid = (ActorMonster, MonsterRedBramb)
   \<and> snd (lookupBaseviewID name 0) \<noteq> MonsterCrab"
proof
  have "monsterID ''Sru_Crab15.1.1'' = MonsterRedBramb" "turretID ''Sru_Crab15.1.1'' = 0"
    "isMinion ''Sru_Crab15.1.1'' = False" "isWard ''Sru_Crab15.1.1'' = False"
    by code_simp+
  then show "lookupBaseviewID ''Sru_Crab15.1.1'' nid = (ActorMonster, MonsterRedBramb)"
    by (simp add: lookupBaseviewID_def MonsterRedBramb_def)
  show "snd (lookupBaseviewID name 0) \<noteq> MonsterCrab"
    using turretID_range [of name] monsterID_range [of name] inhibitorID_range [of name]
    by (auto simp: lookupBaseviewID_def MonsterCrab_def)
qed

subsection \<open>Looking up twice\<close>

lemma GetID_again:
  assumes "GetID nID n = (r, n')"
  shows "fst (GetID m n') = fst (GetID m n)"
  using assms
  by (auto simp: GetID_def Let_def split: option.splits if_splits)

lemma GetID_names: "GetID nID n = (r, n') \<Longrightarrow> nameToPID n' = nameToPID n"
  by (auto simp: GetID_def Let_def split: option.splits if_splits)

end
