(* ===== verification/Elo_Convert.thy ===== *)
theory Elo_Convert
  imports Elo_Events "HOL-Library.Multiset"
begin

text \<open>
  The conversion of elo events to the baseview format: \<open>lolelo-master/event/to_baseview.go\<close>.
\<close>

subsection \<open>Looking ahead\<close>

fun nextPing :: "elo list \<Rightarrow> int \<Rightarrow> ping option" where
  "nextPing [] networkID = None"
| "nextPing (e # es) networkID =
     (case EloBody e of
        PingE t \<Rightarrow> if pgNetworkID t = networkID then Some t else nextPing es networkID
      | _ \<Rightarrow> nextPing es networkID)"

definition slot_exp :: "string \<Rightarrow> ping \<Rightarrow> real" where
  "slot_exp slotName p =
     (if slotName = ''Q'' then SlotQCooldownExp p
      else if slotName = ''W'' then SlotWCooldownExp p
      else if slotName = ''E'' then SlotECooldownExp p
      else if slotName = ''R'' then SlotRCooldownExp p
      else if slotName = ''Summoner1'' then SlotS1CooldownExp p
      else if slotName = ''Summoner2'' then SlotS2CooldownExp p
      else -1)"

fun cooldown_loop :: "elo \<Rightarrow> elo list \<Rightarrow> int \<Rightarrow> string \<Rightarrow> real" where
  "cooldown_loop first [] networkID slotName = MatchSeconds first"
| "cooldown_loop first (e # es) networkID slotName =
     (if MatchSeconds e - MatchSeconds first > 5 then MatchSeconds first
      else case EloBody e of
        PingE p \<Rightarrow>
          if pgNetworkID p \<noteq> networkID then cooldown_loop first es networkID slotName
          else if slot_exp slotName p > Time e
            then slot_exp slotName p + MatchSeconds first - Time first
          else cooldown_loop first es networkID slotName
      | _ \<Rightarrow> cooldown_loop first es networkID slotName)"

text \<open>\<open>getCooldown\<close> is only called with the events from the cast on, never with an empty list.\<close>

definition getCooldown :: "elo list \<Rightarrow> int \<Rightarrow> string \<Rightarrow> real" where
  "getCooldown events networkID slotName = cooldown_loop (hd events) events networkID slotName"

definition isWardCreate :: "string \<Rightarrow> bool" where
  "isWardCreate name \<longleftrightarrow> to_lower name \<in> set [''sightward'', ''visionward'', ''jammerdevice'']"

subsection \<open>Wards\<close>

definition ward_cost :: "creation \<Rightarrow> spell_cast \<Rightarrow> real" where
  "ward_cost create spell =
     DistanceXY (PositionEnd spell) (ocPosition create)
     + \<bar>ocMatchSeconds create - scMatchSeconds spell\<bar> * 100"

text \<open>The loop of \<open>firstMatching\<close>: \<open>best\<close> is the index and the cost of the best cast so far.\<close>

fun matching_loop ::
  "creation \<Rightarrow> spell_cast list \<Rightarrow> nat \<Rightarrow> nat option \<times> real \<Rightarrow> network_ids \<Rightarrow> nat option fallible \<times> network_ids"
where
  "matching_loop create [] i best ids = (Inr (fst best), ids)"
| "matching_loop create (spell # spells) i best ids =
     (case GetID (scNetworkID spell) ids of
        (Inl err, ids') \<Rightarrow> (Inl err, ids')
      | (Inr champ, ids') \<Rightarrow>
          if TeamID (eID champ) \<noteq> ocTeamID create
          then matching_loop create spells (Suc i) best ids'
          else if \<bar>ocMatchSeconds create - scMatchSeconds spell\<bar> > 30 then (Inr (fst best), ids')
          else matching_loop create spells (Suc i)
                 (if ward_cost create spell < snd best then (Some i, ward_cost create spell) else best) ids')"

definition firstMatching :: "creation \<Rightarrow> spell_cast list \<Rightarrow> network_ids \<Rightarrow> nat fallible \<times> network_ids" where
  "firstMatching create spells ids =
     (case matching_loop create spells 0 (None, 100000) ids of
        (Inl err, ids') \<Rightarrow> (Inl err, ids')
      | (Inr None, ids') \<Rightarrow> (Inl ''no spell_cast event found for ward_created'', ids')
      | (Inr (Some i), ids') \<Rightarrow> (Inr i, ids'))"

definition swap_front :: "nat \<Rightarrow> 'a list \<Rightarrow> 'a list" where
  "swap_front i xs = (if i > 0 then xs[0 := xs ! i, i := xs ! 0] else xs)"

definition ward_placed_event :: "creation \<Rightarrow> ward_item \<Rightarrow> int \<Rightarrow> event" where
  "ward_placed_event create item champ =
     \<lparr>EventType = ''ward_placed'', Seconds = ocMatchSeconds create - 1 / 100,
      Body = WardPlaced \<lparr>wpType = wardType (Ward item), wpItemType = item, wpParticipantID = champ,
        wpPosition = ocPosition create, wpTeamID = ocTeamID create, wpWardID = ocNetworkID create\<rparr>\<rparr>"

text \<open>
  The loop of \<open>placeWards\<close>. A cast in the list is always one that places a ward (the other case
  would be a nil dereference).
\<close>

fun place_loop :: "creation list \<Rightarrow> spell_cast list \<Rightarrow> network_ids \<Rightarrow> event list fallible \<times> network_ids" where
  "place_loop [] spells ids = (Inr [], ids)"
| "place_loop (create # creations) spells ids =
     (case firstMatching create spells ids of
        (Inl err, ids1) \<Rightarrow> (Inl err, ids1)
      | (Inr i, ids1) \<Rightarrow>
          let spells' = swap_front i spells; spell = hd spells' in
          (case GetID (scNetworkID spell) ids1 of
             (Inl err, ids2) \<Rightarrow> (Inl err, ids2)
           | (Inr champ, ids2) \<Rightarrow>
          (case WardItemType spell of
             None \<Rightarrow> (Inl ''panic: nil pointer dereference'', ids2)
           | Some item \<Rightarrow>
          (case place_loop creations (tl spells') ids2 of
             (Inl err, ids3) \<Rightarrow> (Inl err, ids3)
           | (Inr evs, ids3) \<Rightarrow> (Inr (ward_placed_event create item (eID champ) # evs), ids3)))))"

definition placeWards :: "creation list \<Rightarrow> spell_cast list \<Rightarrow> network_ids \<Rightarrow> event list fallible \<times> network_ids" where
  "placeWards creations spells ids =
     (if length spells \<noteq> length creations
      then (Inl (''found '' @ show_nat (length spells) @ '' ward spell cast events, but ''
                 @ show_nat (length creations) @ '' ward_created events''), ids)
      else place_loop creations spells ids)"

subsection \<open>The conversion\<close>

record conv =
  netIDs :: network_ids
  lastPosition :: "int \<Rightarrow> position"
  wardSpells :: "spell_cast list"
  wardCreations :: "creation list"
  out :: "event list"

definition get_two :: "int \<Rightarrow> int \<Rightarrow> network_ids \<Rightarrow> (entity \<times> entity) fallible \<times> network_ids" where
  "get_two a b ids =
     (case GetID a ids of
        (Inl err, ids1) \<Rightarrow> (Inl err, ids1)
      | (Inr x, ids1) \<Rightarrow>
          (case GetID b ids1 of
             (Inl err, ids2) \<Rightarrow> (Inl err, ids2)
           | (Inr y, ids2) \<Rightarrow> (Inr (x, y), ids2)))"

text \<open>
  One turn of the loop; \<open>events\<close> are the events from this one on. The result is the tag and the
  body of the event to add, if any.
\<close>

definition convert_one :: "elo list \<Rightarrow> elo \<Rightarrow> conv \<Rightarrow> (string \<times> body) option fallible \<times> conv" where
  "convert_one events e c =
     (case EloBody e of
        BasicAttackE nid target pos \<Rightarrow>
          (case get_two nid target (netIDs c) of
             (Inl err, ids) \<Rightarrow> (Inl err, c\<lparr>netIDs := ids\<rparr>)
           | (Inr (attacker, victim), ids) \<Rightarrow>
               (Inr (Some (''attack'', Attack
                  \<lparr>CooldownExpires = 0, aStart = None, aEnd = None, aAttackerID = eID attacker,
                   aAttackerType = eType attacker, Slot = ''basic'', TargetID = eID victim,
                   TargetType = eType victim, TargetPosition = Some pos\<rparr>)), c\<lparr>netIDs := ids\<rparr>))
      | ChampDieE nid \<Rightarrow>
          (case GetID nid (netIDs c) of
             (Inl err, ids) \<Rightarrow> (Inl err, c\<lparr>netIDs := ids\<rparr>)
           | (Inr champ, ids) \<Rightarrow>
               (Inr (Some (''death'', Death (lastPosition c nid) (eID champ))), c\<lparr>netIDs := ids\<rparr>))
      | DamageE dmg nid target \<Rightarrow>
          (case get_two nid target (netIDs c) of
             (Inl err, ids) \<Rightarrow> (Inl err, c\<lparr>netIDs := ids\<rparr>)
           | (Inr (attacker, victim), ids) \<Rightarrow>
               let senderMax = (case nextPing events target of None \<Rightarrow> 1000 | Some p \<Rightarrow> pgHealthMax p) in
               (Inr (Some (''damage'', Damage
                  \<lparr>Total = dmg, Percent = dmg * 100 / senderMax, dAttackerID = eID attacker,
                   dAttackerType = eType attacker, VictimID = eID victim, VictimType = eType victim\<rparr>)),
                c\<lparr>netIDs := ids\<rparr>))
      | DieE nid \<Rightarrow>
          (case GetID nid (netIDs c) of
             (Inl err, ids) \<Rightarrow> (Inl err, c\<lparr>netIDs := ids\<rparr>)
           | (Inr victim, ids) \<Rightarrow>
               (Inr (if eType victim = ActorTurret \<or> eType victim = ActorInhibitor
                     then Some (''building_kill'', BuildingKill (eType victim) (eID victim))
                     else if isWardCreate (eName victim) then Some (''ward_death'', WardDeath nid)
                     else None), c\<lparr>netIDs := ids\<rparr>))
      | LevelUpE level nid \<Rightarrow>
          if level > 0 then
            (case GetID nid (netIDs c) of
               (Inl err, ids) \<Rightarrow> (Inl err, c\<lparr>netIDs := ids\<rparr>)
             | (Inr champ, ids) \<Rightarrow>
                 (Inr (Some (''level_up'', LevelUp level (eID champ))), c\<lparr>netIDs := ids\<rparr>))
          else (Inr None, c)
      | OnCreateE t \<Rightarrow>
          (Inr None, if isWardCreate (ocSenderName t)
                     then c\<lparr>wardCreations := wardCreations c @ [t]\<rparr> else c)
      | PingE t \<Rightarrow>
          (case GetID (pgNetworkID t) (netIDs c) of
             (Inl err, ids) \<Rightarrow> (Inl err, c\<lparr>netIDs := ids\<rparr>)
           | (Inr person, ids) \<Rightarrow>
               (Inr (Some (''state_update'', StateUpdate
                  \<lparr>Gold = pgGold t, Health = pgHealth t, HealthMax = pgHealthMax t, InGrass = pgInGrass t,
                   MinionsKilled = pgMinionsKilled t, NeutralMinionsKilled = pgNeutralMinionsKilled t,
                   Mana = pgMana t, ManaMax = pgManaMax t, suParticipantID = eID person,
                   suPosition = pgPosition t,
                   UnderOwnTurret = (pgUnderTurret t \<and> \<not> pgUnderEnemyTurret t),
                   UnderEnemyTurret = pgUnderEnemyTurret t\<rparr>)),
                c\<lparr>netIDs := ids, lastPosition := (lastPosition c)(pgNetworkID t := pgPosition t)\<rparr>))
      | SpellCastE t \<Rightarrow>
          if WardItemType t \<noteq> None then (Inr None, c\<lparr>wardSpells := wardSpells c @ [t]\<rparr>)
          else
            (case get_two (scNetworkID t) (scTargetNetworkID t) (netIDs c) of
               (Inl err, ids) \<Rightarrow> (Inl err, c\<lparr>netIDs := ids\<rparr>)
             | (Inr (attacker, victim), ids) \<Rightarrow>
                 (Inr (Some (''attack'', Attack
                    \<lparr>CooldownExpires = getCooldown events (scNetworkID t) (scSlot t),
                     aStart = Some (PositionStart t), aEnd = Some (PositionEnd t),
                     aAttackerID = eID attacker, aAttackerType = eType attacker, Slot = scSlot t,
                     TargetID = eID victim, TargetType = eType victim, TargetPosition = None\<rparr>)),
                  c\<lparr>netIDs := ids\<rparr>))
      | _ \<Rightarrow> (Inr None, c))"

fun convert_events :: "elo list \<Rightarrow> conv \<Rightarrow> conv fallible" where
  "convert_events [] c = Inr c"
| "convert_events (e # es) c =
     (case convert_one (e # es) e c of
        (Inl err, c') \<Rightarrow> Inl err
      | (Inr None, c') \<Rightarrow> convert_events es c'
      | (Inr (Some (tag, b)), c') \<Rightarrow>
          convert_events es (c'\<lparr>out := out c' @ [\<lparr>EventType = tag, Seconds = MatchSeconds e, Body = b\<rparr>]\<rparr>))"

definition EloToBaseview :: "elo list \<Rightarrow> participant list \<Rightarrow> event list fallible" where
  "EloToBaseview events participants =
     (let ids0 = fold AddEvent events NewNetworkIDMap;
          ids = fold (\<lambda>p. AddParticipant (ParticipantID p) (pSummonerName p)) participants ids0;
          c0 = \<lparr>netIDs = ids, lastPosition = (\<lambda>_. \<lparr>X = 0, Y = 0, Z = 0\<rparr>), wardSpells = [],
                wardCreations = [], out = []\<rparr> in
      case convert_events events c0 of
        Inl err \<Rightarrow> Inl err
      | Inr c \<Rightarrow>
          (case placeWards (wardCreations c) (wardSpells c) (netIDs c) of
             (Inl err, _) \<Rightarrow> Inl err
           | (Inr wards, _) \<Rightarrow> Inr (sort_key Seconds (out c @ wards))))"

subsection \<open>Pairing wards\<close>

lemma matching_loop_state: "matching_loop create spells i best ids = (r, ids') \<Longrightarrow> fst (GetID m ids') = fst (GetID m ids)"
proof (induction spells arbitrary: i best ids)
  case (Cons spell spells)
  obtain g ids1 where g: "GetID (scNetworkID spell) ids = (g, ids1)" by fastforce
  consider "ids' = ids1" | i' best' where "matching_loop create spells i' best' ids1 = (r, ids')"
    using Cons.prems g by (auto split: sum.splits if_splits)
  then show ?case using Cons.IH GetID_again [OF g] by cases simp_all
qed simp

text \<open>
  A cast that can be paired with a creation: by a champion of its team, within thirty seconds.
\<close>

definition pairable :: "network_ids \<Rightarrow> creation \<Rightarrow> spell_cast \<Rightarrow> bool" where
  "pairable ids create spell \<longleftrightarrow>
     (\<exists>champ. fst (GetID (scNetworkID spell) ids) = Inr champ \<and> TeamID (eID champ) = ocTeamID create)
     \<and> \<bar>ocMatchSeconds create - scMatchSeconds spell\<bar> \<le> 30"

lemma pairable_state:
  "(\<And>m. fst (GetID m ids') = fst (GetID m ids)) \<Longrightarrow> pairable ids' = pairable ids"
  by (simp add: pairable_def fun_eq_iff)

text \<open>
  The loop returns the earlier best or a pairable cast; no pairable cast before the point where
  the loop stops is cheaper.
\<close>

lemma matching_loop_result:
  assumes "matching_loop create spells i best ids = (Inr (Some k), ids')"
  shows "(fst best = Some k \<or> (\<exists>j < length spells. k = i + j \<and> pairable ids create (spells ! j)
             \<and> ward_cost create (spells ! j) < snd best))"
  using assms
proof (induction spells arbitrary: i best ids)
  case (Cons spell spells)
  obtain g ids1 where g: "GetID (scNetworkID spell) ids = (g, ids1)" by fastforce
  have st: "pairable ids1 = pairable ids" using pairable_state GetID_again [OF g] by blast
  from Cons.prems g obtain champ where champ: "g = Inr champ" by (cases g) simp_all
  show ?case
  proof (cases "TeamID (eID champ) = ocTeamID create")
    case False
    then have "matching_loop create spells (Suc i) best ids1 = (Inr (Some k), ids')"
      using Cons.prems g champ by simp
    from Cons.IH [OF this] st show ?thesis by fastforce
  next
    case True
    note team = True
    show ?thesis
    proof (cases "\<bar>ocMatchSeconds create - scMatchSeconds spell\<bar> > 30")
      case True
      then show ?thesis using Cons.prems g champ team by simp
    next
      case False
      let ?best = "if ward_cost create spell < snd best then (Some i, ward_cost create spell) else best"
      have p: "pairable ids create spell" using g champ team False by (simp add: pairable_def)
      have "matching_loop create spells (Suc i) ?best ids1 = (Inr (Some k), ids')"
        using Cons.prems g champ team False by simp
      from Cons.IH [OF this] consider "fst ?best = Some k"
        | j where "j < length spells" "k = Suc i + j" "pairable ids create (spells ! j)"
            "ward_cost create (spells ! j) < snd ?best"
        using st by auto
      then show ?thesis
      proof cases
        case 1
        then show ?thesis using p by (cases "ward_cost create spell < snd best") fastforce+
      next
        case (2 j)
        then have "ward_cost create (spells ! j) < snd best" by (auto split: if_splits)
        then show ?thesis using 2 by (intro disjI2 exI [of _ "Suc j"]) simp
      qed
    qed
  qed
qed simp

lemma firstMatching_pairable:
  assumes "firstMatching create spells ids = (Inr k, ids')"
  shows "k < length spells \<and> pairable ids create (spells ! k)"
proof -
  obtain r ids1 where r: "matching_loop create spells 0 (None, 100000) ids = (r, ids1)" by fastforce
  with assms have "r = Inr (Some k)" "ids1 = ids'"
    by (auto simp: firstMatching_def split: sum.splits option.splits)
  with r matching_loop_result [of create spells 0 "(None, 100000)" ids k ids'] show ?thesis by auto
qed

lemma firstMatching_state: "firstMatching create spells ids = (r, ids') \<Longrightarrow> fst (GetID m ids') = fst (GetID m ids)"
  by (auto simp: firstMatching_def matching_loop_state split: prod.splits sum.splits option.splits)

lemma swap_front_mset: "i < length xs \<Longrightarrow> mset (swap_front i xs) = mset xs"
  by (auto simp: swap_front_def intro!: mset_swap)

lemma swap_front_hd: "i < length xs \<Longrightarrow> hd (swap_front i xs) = xs ! i \<and> swap_front i xs \<noteq> []"
  by (cases xs) (auto simp: swap_front_def nth_Cons split: nat.splits)


text \<open>
  What a placed ward says of the creation and the cast it was paired from.
\<close>

definition ward_from :: "network_ids \<Rightarrow> creation \<Rightarrow> spell_cast \<Rightarrow> event \<Rightarrow> bool" where
  "ward_from ids create spell ev \<longleftrightarrow>
     pairable ids create spell
     \<and> (\<exists>champ item. fst (GetID (scNetworkID spell) ids) = Inr champ \<and> WardItemType spell = Some item
          \<and> ev = ward_placed_event create item (eID champ))"

lemma place_loop_pairs:
  "place_loop creations spells ids = (Inr evs, ids') \<Longrightarrow> length spells = length creations \<Longrightarrow>
     \<exists>ss. mset ss = mset spells \<and> length evs = length creations
        \<and> (\<forall>i < length creations. ward_from ids (creations ! i) (ss ! i) (evs ! i))"
proof (induction creations arbitrary: spells ids evs)
  case (Cons create creations)
  obtain r ids1 where fm: "firstMatching create spells ids = (r, ids1)" by fastforce
  with Cons.prems(1) obtain k where k: "r = Inr k" by (cases r) simp_all
  let ?ss = "swap_front k spells"
  have kp: "k < length spells" "pairable ids create (spells ! k)"
    using firstMatching_pairable [OF fm [unfolded k]] by simp_all
  have hd: "hd ?ss = spells ! k" "?ss \<noteq> []" using swap_front_hd [OF kp(1)] by simp_all
  obtain g ids2 where g: "GetID (scNetworkID (hd ?ss)) ids1 = (g, ids2)" by fastforce
  with Cons.prems(1) fm k obtain champ where champ: "g = Inr champ" by (cases g) (simp_all add: Let_def)
  with Cons.prems(1) fm k g obtain item where item: "WardItemType (hd ?ss) = Some item"
    by (cases "WardItemType (hd ?ss)") (simp_all add: Let_def)
  obtain q ids3 where pl: "place_loop creations (tl ?ss) ids2 = (q, ids3)" by fastforce
  with Cons.prems(1) fm k g champ item obtain evs1 where
    evs1: "q = Inr evs1" "evs = ward_placed_event create item (eID champ) # evs1" "ids3 = ids'"
    by (cases q) (simp_all add: Let_def)
  have ms: "mset ?ss = mset spells" by (rule swap_front_mset [OF kp(1)])
  then have "length ?ss = length spells" by (metis size_mset)
  then have "length (tl ?ss) = length creations" using Cons.prems(2) by simp
  from Cons.IH [OF pl [unfolded evs1(1,3)] this] obtain ss where
    ss: "mset ss = mset (tl ?ss)" "length evs1 = length creations"
      "\<forall>i < length creations. ward_from ids2 (creations ! i) (ss ! i) (evs1 ! i)"
    by blast
  have st: "fst (GetID m ids1) = fst (GetID m ids)" "fst (GetID m ids2) = fst (GetID m ids)" for m
    using firstMatching_state [OF fm] GetID_again [OF g] by simp_all
  then have "ward_from ids2 = ward_from ids"
    by (simp add: ward_from_def fun_eq_iff pairable_def)
  moreover have "ward_from ids create (hd ?ss) (ward_placed_event create item (eID champ))"
    using kp(2) hd g champ item st by (auto simp: ward_from_def) (metis fst_conv)
  moreover have "mset (hd ?ss # ss) = mset spells"
    using ss(1) ms hd(2) by (metis list.collapse mset.simps(2))
  ultimately show ?case
    using ss evs1(2) by (intro exI [of _ "hd ?ss # ss"]) (auto simp: nth_Cons split: nat.splits)
qed simp

text \<open>
  C9: The pairing of wards loses and invents nothing: on success the casts are used once each, in
  some order, and the i-th event is the ward of the i-th creation, placed by the champion of its
  cast, a member of the ward's team, within thirty seconds of the creation.
\<close>

theorem wards_paired:
  assumes "placeWards creations spells ids = (Inr evs, ids')"
  shows "\<exists>ss. mset ss = mset spells \<and> length ss = length creations \<and> length evs = length creations
     \<and> (\<forall>i < length creations. ward_from ids (creations ! i) (ss ! i) (evs ! i))"
proof -
  have "place_loop creations spells ids = (Inr evs, ids')" "length spells = length creations"
    using assms by (auto simp: placeWards_def split: if_splits)
  from place_loop_pairs [OF this] obtain ss where "mset ss = mset spells" "length evs = length creations"
      "\<forall>i < length creations. ward_from ids (creations ! i) (ss ! i) (evs ! i)"
    by blast
  moreover from this \<open>length spells = length creations\<close> have "length ss = length creations"
    by (metis size_mset)
  ultimately show ?thesis by blast
qed

definition demo_pos :: position where "demo_pos = \<lparr>X = 100, Y = 200, Z = 0\<rparr>"

definition demo_ids :: network_ids where
  "demo_ids = \<lparr>nameToPID = (\<lambda>_. 3), nIDToEntity = [7 \<mapsto> \<lparr>eName = ''Ann'', eType = ActorHero, eID = 0\<rparr>]\<rparr>"

definition demo_create :: creation where
  "demo_create = \<lparr>ocNetworkID = 40, ocSenderName = ''SightWard'', ocTeamID = 100, ocPosition = demo_pos,
                  ocMatchSeconds = 61\<rparr>"

definition demo_cast :: spell_cast where
  "demo_cast = \<lparr>PositionStart = demo_pos, PositionEnd = demo_pos, SpellName = ''TrinketTotemLvl1'',
                scNetworkID = 7, scSlot = ''Trinket'', scTargetNetworkID = 0, scMatchSeconds = 60\<rparr>"

lemma demo_placed:
  "\<exists>ids'. placeWards [demo_create] [demo_cast] demo_ids
     = (Inr [ward_placed_event demo_create YellowTrinket 3], ids')"
proof -
  have "WardItemType demo_cast = Some YellowTrinket" by code_simp
  then show ?thesis
    by (simp add: Let_def placeWards_def firstMatching_def GetID_def demo_ids_def demo_create_def demo_cast_def
        ActorHero_def TeamID_def BlueTeam_def ward_cost_def DistanceXY_def swap_front_def)
qed

theorem wards_paired_witness:
  "\<exists>ss. mset ss = mset [demo_cast] \<and> length ss = 1
     \<and> ward_from demo_ids demo_create (ss ! 0) (ward_placed_event demo_create YellowTrinket 3)"
proof -
  obtain ids' where "placeWards [demo_create] [demo_cast] demo_ids
      = (Inr [ward_placed_event demo_create YellowTrinket 3], ids')"
    using demo_placed by blast
  from wards_paired [OF this] show ?thesis by simp
qed

subsection \<open>The events\<close>

text \<open>An event is well tagged when \<open>parseEvent\<close> reads its tag as the type of its body.\<close>

definition well_tagged :: "event \<Rightarrow> bool" where
  "well_tagged ev \<longleftrightarrow> parseEvent_kind (EventType ev) = Inr (body_kind (Body ev))"

lemma known_tags [simp]:
  "parseEvent_kind ''attack'' = Inr KAttack" "parseEvent_kind ''building_kill'' = Inr KBuildingKill"
  "parseEvent_kind ''damage'' = Inr KDamage" "parseEvent_kind ''death'' = Inr KDeath"
  "parseEvent_kind ''level_up'' = Inr KLevelUp" "parseEvent_kind ''state_update'' = Inr KStateUpdate"
  "parseEvent_kind ''ward_placed'' = Inr KWardPlaced" "parseEvent_kind ''ward_death'' = Inr KWardDeath"
  by (simp_all add: parseEvent_kind_def)

lemma convert_one_tag:
  assumes "convert_one events e c = (Inr (Some (tag, b)), c')"
  shows "parseEvent_kind tag = Inr (body_kind b) \<and> out c' = out c"
  using assms
  by (cases "EloBody e")
    (auto simp: convert_one_def Let_def split: prod.splits sum.splits if_splits)

lemma convert_one_out:
  assumes "convert_one events e c = (r, c')"
  shows "out c' = out c"
  using assms
  by (cases "EloBody e")
    (auto simp: convert_one_def Let_def split: prod.splits sum.splits if_splits option.splits)

lemma convert_events_tagged:
  "convert_events es c = Inr c' \<Longrightarrow> list_all well_tagged (out c) \<Longrightarrow>
     list_all well_tagged (out c') \<and> (\<exists>new. out c' = out c @ new \<and> length new \<le> length es)"
proof (induction es arbitrary: c)
  case (Cons e es)
  obtain r c1 where r: "convert_one (e # es) e c = (r, c1)" by fastforce
  with Cons.prems(1) obtain o' where o: "r = Inr o'" by (cases r) simp_all
  have out: "out c1 = out c" by (rule convert_one_out [OF r])
  show ?case
  proof (cases o')
    case None
    then have "convert_events es c1 = Inr c'" using Cons.prems(1) r o by simp
    from Cons.IH [OF this] Cons.prems(2) out show ?thesis by fastforce
  next
    case (Some tb)
    obtain tag b where tb: "tb = (tag, b)" by fastforce
    let ?ev = "\<lparr>EventType = tag, Seconds = MatchSeconds e, Body = b\<rparr>"
    have "convert_events es (c1\<lparr>out := out c1 @ [?ev]\<rparr>) = Inr c'"
      using Cons.prems(1) r o Some tb by simp
    moreover have "well_tagged ?ev"
      using convert_one_tag [of "e # es" e c tag b c1] r o Some tb by (simp add: well_tagged_def)
    ultimately show ?thesis using Cons.IH [of "c1\<lparr>out := out c1 @ [?ev]\<rparr>"] Cons.prems(2) out by fastforce
  qed
qed simp

text \<open>
  C19: The converted events are sorted by time, and each carries the tag under which the baseview
  decoder reads back an event of the same type.
\<close>

theorem conversion_sorted_tagged:
  assumes "EloToBaseview events ps = Inr evs"
  shows "sorted (map Seconds evs) \<and> list_all well_tagged evs"
proof -
  obtain c ids ws ids' where c: "convert_events events
      \<lparr>netIDs = ids, lastPosition = (\<lambda>_. \<lparr>X = 0, Y = 0, Z = 0\<rparr>), wardSpells = [], wardCreations = [], out = []\<rparr> = Inr c"
    and w: "placeWards (wardCreations c) (wardSpells c) (netIDs c) = (Inr ws, ids')"
    and evs: "evs = sort_key Seconds (out c @ ws)"
    using assms by (auto simp: EloToBaseview_def Let_def split: sum.splits prod.splits)
  have "list_all well_tagged (out c)" using convert_events_tagged [OF c] by simp
  moreover have "list_all well_tagged ws"
    using place_loop_pairs [of "wardCreations c" "wardSpells c" "netIDs c" ws ids'] w
    by (auto simp: placeWards_def list_all_length ward_from_def ward_placed_event_def well_tagged_def
        split: if_splits)
  ultimately show ?thesis by (auto simp: evs list_all_iff)
qed

definition demo_events :: "elo list" where
  "demo_events =
     [\<lparr>Time = 1, MatchSeconds = 2, EloBody = NetworkIDMappingE ''Ann'' 7 ''ID_HERO''\<rparr>,
      \<lparr>Time = 4, MatchSeconds = 5, EloBody = LevelUpE 2 7\<rparr>,
      \<lparr>Time = 3, MatchSeconds = 4, EloBody = ChampDieE 7\<rparr>]"

definition demo_people :: "participant list" where
  "demo_people = [\<lparr>ParticipantID = 3, pSummonerID = 9, pSummonerName = ''Ann'', ChampionID = 22,
                   Spell1 = ''Flash'', Spell2 = ''Smite''\<rparr>]"

theorem conversion_sorted_tagged_witness:
  "\<exists>evs. EloToBaseview demo_events demo_people = Inr evs \<and> sorted (map Seconds evs)
     \<and> list_all well_tagged evs \<and> map EventType evs = [''death'', ''level_up'']"
proof -
  obtain evs where evs: "EloToBaseview demo_events demo_people = Inr evs"
    "map EventType evs = [''death'', ''level_up'']"
    by (simp add: Let_def EloToBaseview_def demo_events_def demo_people_def AddEvent_def AddParticipant_def
        NewNetworkIDMap_def convert_one_def GetID_def placeWards_def ActorHero_def)
  with conversion_sorted_tagged [OF evs(1)] show ?thesis by simp
qed

end
