(* ===== verification/Elo_Validate.thy ===== *)
theory Elo_Validate
  imports Elo_Events "HOL-Library.Multiset"
begin

text \<open>
  The alignment of elo events with the match details of the Riot API:
  \<open>lolelo-master/validate/api_data.go\<close>. The match details are the records that the code reads of
  them; the names of the summoner spells (\<open>riot.SpellNamesByID\<close>) are a parameter. Warnings are left
  out.
\<close>

subsection \<open>Truncation\<close>

definition maxSecondsDiff :: real where "maxSecondsDiff = 30"

primrec significant :: "elo_body \<Rightarrow> bool" where
  "significant (BasicAttackE n t p) = False"
| "significant (ChampDieE n) = True"
| "significant (ChampKillE n) = True"
| "significant (DamageE d n t) = True"
| "significant (DieE n) = False"
| "significant GameEndE = False"
| "significant (NetworkIDMappingE s n t) = False"
| "significant (KillE n) = False"
| "significant (LevelUpE l n) = False"
| "significant (NexusDestroyedE s) = True"
| "significant (OnCreateE c) = False"
| "significant (OnDeleteE n) = False"
| "significant (PingE p) = False"
| "significant (SpellCastE s) = True"

text \<open>The loop runs from the last but one event down; without \<open>skip\<close> it never stops at an event.\<close>

definition eloDurationSeconds :: "elo list \<Rightarrow> bool \<Rightarrow> real" where
  "eloDurationSeconds events skip =
     (if events = [] then 0
      else case List.find (\<lambda>e. skip \<and> significant (EloBody e)) (rev (butlast events)) of
             None \<Rightarrow> 0
           | Some lastEvent \<Rightarrow> Time lastEvent - Time (hd events))"

definition CheckTruncation :: "elo list \<Rightarrow> int \<Rightarrow> unit fallible" where
  "CheckTruncation events matchDurationSecs =
     (if \<bar>eloDurationSeconds events True - real_of_int matchDurationSecs\<bar> > maxSecondsDiff
      then Inl ''elo duration differs from api match duration'' else Inr ())"

subsection \<open>Alignment\<close>

record api_event =
  EventType :: string
  VictimID :: int
  Timestamp :: int

record api_participant =
  apParticipantID :: int
  apChampionID :: int
  apSpell1ID :: int
  apSpell2ID :: int

record api_identity =
  aiParticipantID :: int
  aiSummonerID :: int
  aiSummonerName :: string

record match_detail =
  Frames :: "api_event list list"
  Participants :: "api_participant list"
  Identities :: "api_identity list"
  MatchDuration :: int

record participant_event =
  peParticipantID :: int
  peMatchSeconds :: real
  peEloSeconds :: real

definition apiDeaths :: "match_detail \<Rightarrow> participant_event list fallible" where
  "apiDeaths md =
     (let deaths = map (\<lambda>e. \<lparr>peParticipantID = VictimID e, peMatchSeconds = real_of_int (Timestamp e) / 1000,
                              peEloSeconds = 0\<rparr>)
                     (filter (\<lambda>e. EventType e = ''CHAMPION_KILL'') (concat (Frames md))) in
      if deaths = [] then Inl ''no deaths found in match details'' else Inr deaths)"

text \<open>
  The test for an unknown participant, \<open>ParticipantID < 1 && ParticipantID > 10\<close>, is kept as it is
  written.
\<close>

fun eloDeaths_loop ::
  "elo list \<Rightarrow> (string \<rightharpoonup> int) \<Rightarrow> (int \<rightharpoonup> int) \<Rightarrow> participant_event list \<Rightarrow> participant_event list fallible"
where
  "eloDeaths_loop [] pidOf byNetworkID deaths = Inr deaths"
| "eloDeaths_loop (e # es) pidOf byNetworkID deaths =
     (case EloBody e of
        NetworkIDMappingE senderName networkID t \<Rightarrow>
          eloDeaths_loop es pidOf
            (case pidOf senderName of
               None \<Rightarrow> byNetworkID
             | Some pID \<Rightarrow> byNetworkID(networkID \<mapsto> pID)) deaths
      | DieE networkID \<Rightarrow>
          (case byNetworkID networkID of
             None \<Rightarrow> eloDeaths_loop es pidOf byNetworkID deaths
           | Some pID \<Rightarrow>
               if pID < 1 \<and> pID > 10 then Inl ''unknown champDie participant''
               else eloDeaths_loop es pidOf byNetworkID
                 (deaths @ [\<lparr>peParticipantID = pID, peMatchSeconds = 0, peEloSeconds = Time e\<rparr>]))
      | _ \<Rightarrow> eloDeaths_loop es pidOf byNetworkID deaths)"

definition eloDeaths :: "elo list \<Rightarrow> (string \<rightharpoonup> int) \<Rightarrow> participant_event list fallible" where
  "eloDeaths events pidOf = eloDeaths_loop events pidOf Map.empty []"

definition death_counts :: "participant_event list \<Rightarrow> participant_event list \<Rightarrow> (int \<times> int) list" where
  "death_counts api elo =
     fold (\<lambda>d. bump (-1) (peParticipantID d)) elo (fold (\<lambda>d. bump 1 (peParticipantID d)) api [])"

definition validateDeathCounts :: "participant_event list \<Rightarrow> participant_event list \<Rightarrow> unit fallible" where
  "validateDeathCounts api elo =
     (case List.find (\<lambda>(pID, diff). pID > 0 \<and> pID \<le> 10 \<and> diff \<noteq> 0) (death_counts api elo) of
        None \<Rightarrow> Inr ()
      | Some (pID, diff) \<Rightarrow> Inl (''api and elo differ in deaths for participant '' @ show_int pID
                                @ '' by '' @ show_int diff))"

text \<open>The loop over the deaths; indexing past the end of \<open>elo\<close> panics.\<close>

fun death_diffs :: "participant_event list \<Rightarrow> participant_event list \<Rightarrow> real list outcome" where
  "death_diffs [] elo = Ok []"
| "death_diffs (a # api) [] = Panic ''index out of range''"
| "death_diffs (a # api) (e # elo) =
     bind_ok (death_diffs api elo) (\<lambda>ds. Ok ((peMatchSeconds a - peEloSeconds e) # ds))"

definition determineEloToAPIOffset :: "participant_event list \<Rightarrow> participant_event list \<Rightarrow> real outcome" where
  "determineEloToAPIOffset api elo =
     (case validateDeathCounts api elo of
        Inl err \<Rightarrow> Err err
      | Inr _ \<Rightarrow> bind_ok (death_diffs api elo) (\<lambda>diffs.
          if diffs = [] then Panic ''index out of range''
          else Ok (sort diffs ! (length diffs div 2))))"

definition UpdateMatchSeconds :: "elo list \<Rightarrow> real \<Rightarrow> elo list" where
  "UpdateMatchSeconds events off = map (\<lambda>e. set_match_seconds (max 0 (Time e + off)) e) events"

definition AlignAPI :: "elo list \<Rightarrow> match_detail \<Rightarrow> elo list outcome" where
  "AlignAPI events md =
     (case apiDeaths md of
        Inl err \<Rightarrow> Err err
      | Inr api \<Rightarrow>
          let names = fold (\<lambda>p m. m(aiSummonerName p \<mapsto> aiParticipantID p)) (Identities md) Map.empty in
          (case eloDeaths events names of
             Inl err \<Rightarrow> Err err
           | Inr elo \<Rightarrow> bind_ok (determineEloToAPIOffset api elo) (\<lambda>off. Ok (UpdateMatchSeconds events off))))"

subsection \<open>Participants\<close>

definition sortParticipants :: "(int \<times> participant) list \<Rightarrow> participant list fallible" where
  "sortParticipants m =
     (let ps = sort_key ParticipantID (map snd m) in
      case List.find (\<lambda>i. ParticipantID (ps ! i) \<noteq> int (i + 1)) [0..<length ps] of
        None \<Rightarrow> Inr ps
      | Some i \<Rightarrow> Inl (''participant at index '' @ show_nat i @ '' has participant id ''
                       @ show_int (ParticipantID (ps ! i))))"

definition zero_participant :: participant where
  "zero_participant = \<lparr>ParticipantID = 0, pSummonerID = 0, pSummonerName = '''', ChampionID = 0,
                       Spell1 = '''', Spell2 = ''''\<rparr>"

definition add_identity :: "api_identity \<Rightarrow> (int \<times> participant) list \<Rightarrow> (int \<times> participant) list" where
  "add_identity i m =
     (let p = (case map_of m (aiParticipantID i) of None \<Rightarrow> zero_participant | Some p \<Rightarrow> p) in
      AList.update (aiParticipantID i)
        (p\<lparr>pSummonerID := aiSummonerID i, pSummonerName := aiSummonerName i\<rparr>) m)"

definition ParticipantMapMD :: "(int \<Rightarrow> string) \<Rightarrow> match_detail \<Rightarrow> participant list fallible" where
  "ParticipantMapMD spellName md =
     (if Identities md = [] then Inl ''no participants found''
      else let
        byPID = fold (\<lambda>p. AList.update (apParticipantID p)
          \<lparr>ParticipantID = apParticipantID p, pSummonerID = 0, pSummonerName = '''',
           ChampionID = apChampionID p, Spell1 = spellName (apSpell1ID p), Spell2 = spellName (apSpell2ID p)\<rparr>)
          (Participants md) []
      in sortParticipants (fold add_identity (Identities md) byPID))"

subsection \<open>The offset\<close>

definition deaths_of :: "int \<Rightarrow> participant_event list \<Rightarrow> nat" where
  "deaths_of p ds = length (filter (\<lambda>d. peParticipantID d = p) ds)"

lemma fold_bump_lookup:
  "get0 (fold (\<lambda>d. bump c (peParticipantID d)) ds m) j = get0 m j + c * int (deaths_of j ds)"
  by (induction ds arbitrary: m) (auto simp: bump_lookup deaths_of_def algebra_simps)

lemma fold_bump_distinct:
  "distinct (map fst m) \<Longrightarrow> distinct (map fst (fold (\<lambda>d. bump c (peParticipantID d)) ds m))"
  by (induction ds arbitrary: m) (simp_all add: bump_distinct)

lemma validate_ok:
  assumes "validateDeathCounts api elo = Inr ()" and "1 \<le> p" and "p \<le> 10"
  shows "deaths_of p api = deaths_of p elo"
proof -
  let ?m = "death_counts api elo"
  have d: "distinct (map fst ?m)" by (simp add: death_counts_def fold_bump_distinct)
  have n: "get0 ?m p = int (deaths_of p api) - int (deaths_of p elo)"
    by (simp add: death_counts_def fold_bump_lookup get0_def [of "[]"])
  have "List.find (\<lambda>(pID, diff). pID > 0 \<and> pID \<le> 10 \<and> diff \<noteq> 0) ?m = None"
    using assms(1) by (auto simp: validateDeathCounts_def split: option.splits)
  then have "\<not> (\<exists>x \<in> set ?m. (\<lambda>(pID, diff). pID > 0 \<and> pID \<le> 10 \<and> diff \<noteq> 0) x)"
    by (auto simp: find_None_iff)
  then have "map_of ?m p = None \<or> map_of ?m p = Some 0"
    using assms(2,3) by (cases "map_of ?m p") (fastforce dest: map_of_SomeD)+
  with n show ?thesis by (auto simp: get0_def)
qed

lemma length_by_participant:
  assumes "\<forall>d \<in> set ds. 1 \<le> peParticipantID d \<and> peParticipantID d \<le> 10"
  shows "length ds = (\<Sum>p \<in> {1..10}. deaths_of p ds)"
  using assms
proof (induction ds)
  case (Cons d ds)
  have "deaths_of p (d # ds) = (if p = peParticipantID d then 1 else 0) + deaths_of p ds" for p
    by (simp add: deaths_of_def)
  then have "(\<Sum>p \<in> {1..10}. deaths_of p (d # ds)) = (\<Sum>p \<in> {1..10}. if p = peParticipantID d then 1 else 0)
      + (\<Sum>p \<in> {1..10}. deaths_of p ds)"
    by (simp add: sum.distrib)
  also have "(\<Sum>p \<in> {1..10}. if p = peParticipantID d then 1 else 0) = (1::nat)"
    using Cons.prems by (simp add: sum.delta)
  finally show ?case using Cons by simp
qed (simp add: deaths_of_def)

lemma death_diffs_ok: "length api = length elo \<Longrightarrow> \<exists>ds. death_diffs api elo = Ok ds \<and> length ds = length api"
  by (induction api elo rule: death_diffs.induct) auto

text \<open>
  When all deaths are of participants 1 to 10 and there is one, aligning does not index past the
  deaths of the elo data: it reports a difference in the counts, or its offset is a median of the
  differences in time, at least half of them on either side.
\<close>

theorem offset_is_median:
  assumes "\<forall>d \<in> set api. 1 \<le> peParticipantID d \<and> peParticipantID d \<le> 10"
    and "\<forall>d \<in> set elo. 1 \<le> peParticipantID d \<and> peParticipantID d \<le> 10" and "api \<noteq> []"
  shows "(\<exists>err. determineEloToAPIOffset api elo = Err err)
     \<or> (\<exists>ds off. death_diffs api elo = Ok ds \<and> determineEloToAPIOffset api elo = Ok off \<and> off \<in> set ds
          \<and> length ds \<le> 2 * length (filter (\<lambda>d. d \<le> off) ds)
          \<and> length ds \<le> 2 * length (filter (\<lambda>d. off \<le> d) ds))"
proof (cases "validateDeathCounts api elo")
  case (Inl err)
  then show ?thesis by (simp add: determineEloToAPIOffset_def)
next
  case (Inr u)
  then have v: "validateDeathCounts api elo = Inr ()" by simp
  have "length api = length elo"
    using length_by_participant [OF assms(1)] length_by_participant [OF assms(2)] validate_ok [OF v] by simp
  then obtain ds where ds: "death_diffs api elo = Ok ds" "length ds = length api"
    using death_diffs_ok by blast
  let ?n = "length ds div 2" and ?s = "sort ds"
  let ?off = "?s ! ?n"
  have ne: "ds \<noteq> []" using ds(2) assms(3) by auto
  then have lt: "?n < length ?s" by (simp add: div_less_dividend)
  have off: "determineEloToAPIOffset api elo = Ok ?off"
    using v ds(1) ne by (simp add: determineEloToAPIOffset_def)
  have mem: "?off \<in> set ds" using nth_mem [OF lt] by simp
  have cnt: "length (filter P ?s) = length (filter P ds)" for P
    by (metis mset_filter mset_sort size_mset)
  have "\<forall>x \<in> set (take (Suc ?n) ?s). x \<le> ?off"
    using lt by (auto simp: in_set_conv_nth intro!: sorted_nth_mono)
  then have "Suc ?n \<le> length (filter (\<lambda>d. d \<le> ?off) (take (Suc ?n) ?s))"
    using lt by simp
  also have "... \<le> length (filter (\<lambda>d. d \<le> ?off) ?s)"
    by (metis append_take_drop_id filter_append le_add1 length_append)
  finally have a: "Suc ?n \<le> length (filter (\<lambda>d. d \<le> ?off) ds)" by (simp add: cnt)
  have "\<forall>x \<in> set (drop ?n ?s). ?off \<le> x"
    by (auto simp: in_set_conv_nth intro!: sorted_nth_mono)
  then have "length ds - ?n \<le> length (filter (\<lambda>d. ?off \<le> d) (drop ?n ?s))"
    by simp
  also have "... \<le> length (filter (\<lambda>d. ?off \<le> d) ?s)"
    by (metis append_take_drop_id filter_append le_add2 length_append)
  finally have b: "length ds - ?n \<le> length (filter (\<lambda>d. ?off \<le> d) ds)" by (simp add: cnt)
  from a b have "length ds \<le> 2 * length (filter (\<lambda>d. d \<le> ?off) ds)"
    "length ds \<le> 2 * length (filter (\<lambda>d. ?off \<le> d) ds)" by linarith+
  with ds(1) off mem show ?thesis by blast
qed

theorem offset_is_median_witness:
  "(let api = [\<lparr>peParticipantID = 3, peMatchSeconds = 90, peEloSeconds = 0\<rparr>];
        elo = [\<lparr>peParticipantID = 3, peMatchSeconds = 0, peEloSeconds = 84\<rparr>] in
      \<exists>off. determineEloToAPIOffset api elo = Ok off \<and> 1 \<le> 2 * length (filter (\<lambda>d. d \<le> off) [6]))"
  using offset_is_median [of "[\<lparr>peParticipantID = 3, peMatchSeconds = 90, peEloSeconds = 0\<rparr>]"
      "[\<lparr>peParticipantID = 3, peMatchSeconds = 0, peEloSeconds = 84\<rparr>]"]
  by (auto simp: determineEloToAPIOffset_def validateDeathCounts_def death_counts_def bump_def get0_def)

text \<open>
  After the alignment the match times are not negative and in the order of the elo times.
\<close>

theorem aligned_times:
  assumes "AlignAPI events md = Ok events'"
  shows "map Time events' = map Time events \<and> (\<forall>e \<in> set events'. 0 \<le> MatchSeconds e)
     \<and> (sorted (map Time events) \<longrightarrow> sorted (map MatchSeconds events'))"
proof -
  obtain off where e: "events' = UpdateMatchSeconds events off"
    using assms by (auto simp: AlignAPI_def Let_def bind_ok_Ok split: sum.splits)
  have "Time (set_match_seconds s x) = Time x" "MatchSeconds (set_match_seconds s x) = s" for s x
    by (simp_all add: set_match_seconds_def)
  then show ?thesis
    by (auto simp: e UpdateMatchSeconds_def comp_def sorted_iff_nth_mono intro!: max.coboundedI2 add_right_mono)
qed

definition demo_elo :: "elo list" where
  "demo_elo =
     [\<lparr>Time = 1, MatchSeconds = 0, EloBody = NetworkIDMappingE ''Ann'' 7 ''ID_HERO''\<rparr>,
      \<lparr>Time = 84, MatchSeconds = 0, EloBody = DieE 7\<rparr>]"

definition demo_detail :: match_detail where
  "demo_detail =
     \<lparr>Frames = [[\<lparr>EventType = ''CHAMPION_KILL'', VictimID = 3, Timestamp = 90000\<rparr>]],
      Participants = [], Identities = [\<lparr>aiParticipantID = 3, aiSummonerID = 9, aiSummonerName = ''Ann''\<rparr>],
      MatchDuration = 95\<rparr>"

lemma demo_aligned: "AlignAPI demo_elo demo_detail = Ok (UpdateMatchSeconds demo_elo 6)"
  by (simp add: AlignAPI_def apiDeaths_def eloDeaths_def demo_elo_def demo_detail_def
      determineEloToAPIOffset_def validateDeathCounts_def death_counts_def bump_def get0_def)

theorem aligned_times_witness:
  "map MatchSeconds (UpdateMatchSeconds demo_elo 6) = [7, 90]
   \<and> sorted (map MatchSeconds (UpdateMatchSeconds demo_elo 6))"
  using aligned_times [OF demo_aligned]
  by (simp add: demo_elo_def UpdateMatchSeconds_def set_match_seconds_def)

subsection \<open>The participants\<close>

lemma map_ids_iff:
  "List.find (\<lambda>i. ParticipantID (ps ! i) \<noteq> int (i + 1)) [0..<length ps] = None
     \<longleftrightarrow> map ParticipantID ps = [1..int (length ps)]"
proof -
  have "[1..int (length ps)] ! i = int (i + 1)" if "i < length ps" for i
    using that by (subst nth_upto) simp_all
  then have "map ParticipantID ps = [1..int (length ps)]
      \<longleftrightarrow> (\<forall>i < length ps. ParticipantID (ps ! i) = int (i + 1))"
    by (simp only: list_eq_iff_nth_eq length_map length_upto) simp
  then show ?thesis by (auto simp: find_None_iff)
qed

lemma sorted_ids_mset:
  assumes "mset (map ParticipantID ps) = mset [1..int (length ps)]"
  shows "map ParticipantID (sort_key ParticipantID ps) = [1..int (length ps)]"
proof -
  have "sort (map ParticipantID ps) = map ParticipantID (sort_key ParticipantID ps)"
    by (rule properties_for_sort) simp_all
  moreover have "sort (map ParticipantID ps) = [1..int (length ps)]"
    using assms by (intro properties_for_sort) simp_all
  ultimately show ?thesis by simp
qed

text \<open>
  The list of participants has exactly the ids 1, 2, ..., n in this order; it is refused only
  when the ids of the map are not these.
\<close>

theorem participants_numbered:
  "case sortParticipants m of
     Inr ps \<Rightarrow> map ParticipantID ps = [1..int (length m)] \<and> mset ps = mset (map snd m)
   | Inl err \<Rightarrow> mset (map (ParticipantID \<circ> snd) m) \<noteq> mset [1..int (length m)]"
proof -
  let ?ps = "sort_key ParticipantID (map snd m)"
  have "map ParticipantID ?ps = [1..int (length m)]"
    if "mset (map (ParticipantID \<circ> snd) m) = mset [1..int (length m)]"
    using sorted_ids_mset [of "map snd m"] that by simp
  then show ?thesis
    using map_ids_iff [of ?ps]
    by (auto simp: sortParticipants_def Let_def split: sum.splits option.splits)
qed

end
