(* ===== verification/Go_Services.thy ===== *)
theory Go_Services
  imports Go_Prelude
begin

text \<open>
  What the services of the repository share: remote calls that may fail, 64-bit arithmetic,
  the claims of a caller (the \<open>users\<close> package vendored in every service), and the names of
  platforms and regions (the vendored \<open>riot\<close> package).

  The services speak to stores, queues and each other over the network. A call ends in one of
  three ways: it is done; it is refused, and has had no effect; or it has had its effect but
  the answer is lost, and the caller sees an error.
\<close>

subsection \<open>Remote calls\<close>

datatype fate = Done | Refused string | Late string

fun answer_of :: "fate \<Rightarrow> 'a \<Rightarrow> string + 'a" where
  "answer_of Done a = Inr a"
| "answer_of (Refused e) a = Inl e"
| "answer_of (Late e) a = Inl e"

fun effect_of :: "fate \<Rightarrow> ('w \<Rightarrow> 'w) \<Rightarrow> 'w \<Rightarrow> 'w" where
  "effect_of Done f w = f w"
| "effect_of (Refused e) f w = w"
| "effect_of (Late e) f w = f w"

lemma answer_of_Inr [simp]: "answer_of x a = Inr b \<longleftrightarrow> x = Done \<and> b = a"
  by (cases x) auto

lemma effect_of_cases: "effect_of x f w = w \<or> effect_of x f w = f w"
  by (cases x) auto

subsection \<open>64-bit integers\<close>

definition wrap64 :: "int \<Rightarrow> int" where
  "wrap64 i = (i + 2 ^ 63) mod 2 ^ 64 - 2 ^ 63"

definition add64 :: "int \<Rightarrow> int \<Rightarrow> int" where
  "add64 a b = wrap64 (a + b)"

definition is_int64 :: "int \<Rightarrow> bool" where
  "is_int64 i \<longleftrightarrow> int64_min \<le> i \<and> i \<le> int64_max"

lemma wrap64_id: "is_int64 i \<Longrightarrow> wrap64 i = i"
  by (simp add: is_int64_def int64_min_def int64_max_def wrap64_def)

lemma wrap64_range: "is_int64 (wrap64 i)"
proof -
  have "0 \<le> (i + 2 ^ 63) mod 2 ^ 64" "(i + 2 ^ 63) mod 2 ^ 64 < (2 ^ 64 :: int)" by simp_all
  then show ?thesis by (simp add: is_int64_def int64_min_def int64_max_def wrap64_def)
qed

text \<open>
  Adding to a value that is not negative: a sum that wraps around is negative. A check for a
  negative result therefore also catches the overflow.
\<close>

lemma add64_nonneg:
  assumes "0 \<le> a" "is_int64 a" "is_int64 b" "0 \<le> add64 a b"
  shows "add64 a b = a + b"
proof (cases "a + b < 2 ^ 63")
  case True
  with assms have "is_int64 (a + b)"
    by (simp add: is_int64_def int64_min_def int64_max_def)
  then show ?thesis by (simp add: add64_def wrap64_id)
next
  case False
  let ?c = "a + b + 2 ^ 63 - 2 ^ 64"
  have "?c mod 2 ^ 64 = ?c"
    using False assms(2,3)
    by (intro mod_pos_pos_trivial) (simp_all add: is_int64_def int64_max_def)
  moreover have "?c mod 2 ^ 64 = (a + b + 2 ^ 63) mod 2 ^ 64"
    by (rule minus_mod_self2)
  ultimately have "add64 a b = a + b - 2 ^ 64"
    unfolding add64_def wrap64_def by linarith
  with False assms show ?thesis
    by (simp add: is_int64_def int64_max_def)
qed

subsection \<open>The caller\<close>

record claims =
  Sub :: string
  Privileges :: "string list"

definition VantageGod :: string where "VantageGod = ''vs_god''"
definition LOLUsersAdmin :: string where "LOLUsersAdmin = ''lolusers_admin''"
definition LOLstatsRead :: string where "LOLstatsRead = ''lolstats_read''"
definition LOLstatsWrite :: string where "LOLstatsWrite = ''lolstats_write''"

definition HasPrivilege :: "claims \<Rightarrow> string \<Rightarrow> bool" where
  "HasPrivilege c priv \<longleftrightarrow> priv \<in> set (Privileges c) \<or> VantageGod \<in> set (Privileges c)"

text \<open>
  \<open>ValidateCtxClaims\<close>: the token of the request context (empty when there is none) is
  checked by the authorisation service, the parameter \<open>check\<close>; then every required privilege.
\<close>

definition ValidateCtxClaims ::
  "(string \<Rightarrow> string + claims) \<Rightarrow> string list \<Rightarrow> string \<Rightarrow> string + claims" where
  "ValidateCtxClaims check privs token =
     (if token = [] then Inl ''auth: no token in context''
      else case check token of
             Inl e \<Rightarrow> Inl e
           | Inr c \<Rightarrow> if list_all (HasPrivilege c) privs then Inr c else Inl ''privilege not found'')"

lemma ValidateCtxClaims_Inr:
  "ValidateCtxClaims check privs token = Inr c \<Longrightarrow> check token = Inr c \<and> list_all (HasPrivilege c) privs"
  by (auto simp: ValidateCtxClaims_def split: if_splits sum.splits)

subsection \<open>Platforms and regions\<close>

definition to_upper_char :: "char \<Rightarrow> char" where
  "to_upper_char c =
     (let n = (of_char c :: nat) in if 97 \<le> n \<and> n \<le> 122 then char_of (n - 32) else c)"

definition to_upper :: "string \<Rightarrow> string" where
  "to_upper s = map to_upper_char s"

definition PlatformFromString :: "string \<Rightarrow> string" where
  "PlatformFromString p = to_upper p"

definition RegionFromString :: "string \<Rightarrow> string" where
  "RegionFromString r = to_upper r"

definition platformsToRegions :: "(string \<times> string) list" where
  "platformsToRegions =
     [(''BR1'', ''BR''), (''EUN1'', ''EUNE''), (''EUW1'', ''EUW''), (''JP1'', ''JP''),
      (''KR'', ''KR''), (''LA1'', ''LAN''), (''LA2'', ''LAS''), (''NA1'', ''NA''),
      (''OC1'', ''OCE''), (''RU'', ''RU''), (''TR1'', ''TR''), (''PBE1'', ''PBE'')]"

definition RegionFromPlatform :: "string \<Rightarrow> string" where
  "RegionFromPlatform p = (case map_of platformsToRegions p of Some r \<Rightarrow> r | None \<Rightarrow> [])"

definition regionsToPlatforms :: "(string \<times> string) list" where
  "regionsToPlatforms = map (\<lambda>(p, r). (r, p)) platformsToRegions"

definition PlatformFromRegion :: "string \<Rightarrow> string" where
  "PlatformFromRegion r = (case map_of regionsToPlatforms r of Some p \<Rightarrow> p | None \<Rightarrow> [])"

text \<open>\<open>Region.String\<close>, which also the format verb \<open>%s\<close> uses.\<close>

definition region_string :: "string \<Rightarrow> string" where
  "region_string r = to_lower r"

end
