(* ===== verification/Users_Store.thy ===== *)
theory Users_Store
  imports Go_Services
begin

text \<open>
  The store of the lolusers service, \<open>lolusers-master/server/store.go\<close>: users, their balance of
  vantage points, and the records of purchases.

  The cloud datastore is not part of the repository. A \<open>db\<close> holds the entities of each kind by
  the name of their key, in the order a query returns them; \<open>datastore\<close>, a parameter, says how
  the \<open>n\<close>-th call ends: which fate an allocation, a read, a write or the commit of a transaction
  meets, which numbers it allocates, and after how many rows a query breaks off. A transaction
  reads and commits in one step, as the datastore's isolation promises.
\<close>

subsection \<open>Entities\<close>

text \<open>The \<open>LolUser\<close> of the store. The datastore does not keep the field \<open>ID\<close>, the name of the key.\<close>

record lol_user =
  ID :: string
  UserID :: string
  SummonerID :: string
  Region :: string
  Verification :: string
  VantagePointBalance :: int
  Confirmed :: bool

definition no_user :: lol_user where
  "no_user = \<lparr>ID = [], UserID = [], SummonerID = [], Region = [], Verification = [],
     VantagePointBalance = 0, Confirmed = False\<rparr>"

record purchase_record =
  prID :: string
  prUserID :: string
  prSummonerID :: int
  prPlatform :: string
  prMatchID :: int

record db =
  rows :: "(string \<times> lol_user) list"
  purchases :: "(string \<times> purchase_record) list"
  ncalls :: nat

record datastore =
  call_fate :: "nat \<Rightarrow> fate"
  allocated :: "nat \<Rightarrow> int"
  broken_off :: "nat \<Rightarrow> (nat \<times> string) option"

definition tick :: "db \<Rightarrow> db" where
  "tick w = w\<lparr>ncalls := Suc (ncalls w)\<rparr>"

lemma tick_fields [simp]: "rows (tick w) = rows w" "purchases (tick w) = purchases w"
  by (simp_all add: tick_def)

subsection \<open>Keys\<close>

definition allocateKey :: "datastore \<Rightarrow> db \<Rightarrow> (string + string) \<times> db" where
  "allocateKey ds w =
     (answer_of (call_fate ds (ncalls w)) (show_int (allocated ds (ncalls w))), tick w)"

definition getOrMakeKey :: "datastore \<Rightarrow> string \<Rightarrow> db \<Rightarrow> (string + string) \<times> db" where
  "getOrMakeKey ds name w = (if name \<noteq> [] then (Inr name, w) else allocateKey ds w)"

subsection \<open>Queries\<close>

text \<open>
  \<open>Client.GetAll\<close>: the keys and the entities read, and an error when the query broke off. What
  was read before the error is returned with it.
\<close>

definition GetAll ::
  "datastore \<Rightarrow> (lol_user \<Rightarrow> bool) \<Rightarrow> db \<Rightarrow> ((string \<times> lol_user) list \<times> string option) \<times> db" where
  "GetAll ds matches w =
     (let found = filter (matches \<circ> snd) (rows w) in
      ((case broken_off ds (ncalls w) of
          None \<Rightarrow> (found, None)
        | Some (k, e) \<Rightarrow> (take k found, Some e)), tick w))"

definition named :: "string \<times> lol_user \<Rightarrow> lol_user" where
  "named = (\<lambda>(k, u). u\<lparr>ID := k\<rparr>)"

definition fetchLolUserByUserId ::
  "datastore \<Rightarrow> string \<Rightarrow> db \<Rightarrow> (string + lol_user list) \<times> db" where
  "fetchLolUserByUserId ds uid w =
     (if uid = [] then (Inl ''user_id required'', w)
      else let ((res, err), w1) = GetAll ds (\<lambda>u. UserID u = uid) w in
        (if res = [] then Inr []
         else if length res > 1 then Inl ''expected 0 or 1 user(s)''
         else case err of Some e \<Rightarrow> Inl e | None \<Rightarrow> Inr (map named res), w1))"

fun fetch_each ::
  "datastore \<Rightarrow> (lol_user \<Rightarrow> bool) \<Rightarrow> int list \<Rightarrow> lol_user list \<Rightarrow> db \<Rightarrow> (string + lol_user list) \<times> db"
where
  "fetch_each ds q [] acc w = (Inr acc, w)"
| "fetch_each ds q (s # ss) acc w =
     (case GetAll ds (\<lambda>u. q u \<and> SummonerID u = show_int s) w of
        ((res, Some e), w1) \<Rightarrow> (Inl e, w1)
      | ((res, None), w1) \<Rightarrow> fetch_each ds q ss (acc @ map named res) w1)"

definition fetchLolUsersBySummonerIds ::
  "datastore \<Rightarrow> string \<Rightarrow> int list \<Rightarrow> db \<Rightarrow> (string + lol_user list) \<times> db" where
  "fetchLolUsersBySummonerIds ds region summonerIDs w =
     (let q = (\<lambda>u. region \<noteq> [] \<longrightarrow> Region u = region) in
      if summonerIDs = [] then
        (case GetAll ds q w of
           ((res, Some e), w1) \<Rightarrow> (Inl e, w1)
         | ((res, None), w1) \<Rightarrow> (Inr (map named res), w1))
      else fetch_each ds q summonerIDs [] w)"

subsection \<open>Transactions\<close>

text \<open>\<open>Transaction.Get\<close>: the entity, \<open>ErrNoSuchEntity\<close>, or another error.\<close>

datatype got = Found lol_user | NoSuchEntity | GetErr string

definition tx_get :: "datastore \<Rightarrow> string \<Rightarrow> db \<Rightarrow> got \<times> db" where
  "tx_get ds key w =
     (case call_fate ds (ncalls w) of
        Done \<Rightarrow> (case map_of (rows w) key of Some u \<Rightarrow> Found u | None \<Rightarrow> NoSuchEntity)
      | Refused e \<Rightarrow> GetErr e
      | Late e \<Rightarrow> GetErr e, tick w)"

definition put_row :: "string \<Rightarrow> lol_user \<Rightarrow> db \<Rightarrow> db" where
  "put_row key l w = w\<lparr>rows := AList.update key (l\<lparr>ID := []\<rparr>) (rows w)\<rparr>"

text \<open>\<open>RunInTransaction\<close>: the write of the body is committed when the body returns no error.\<close>

definition commit ::
  "datastore \<Rightarrow> string \<Rightarrow> (string + lol_user) \<times> db \<Rightarrow> (string + lol_user) \<times> db" where
  "commit ds key body =
     (case body of
        (Inl e, w) \<Rightarrow> (Inl e, w)
      | (Inr l, w) \<Rightarrow>
          (let f = call_fate ds (ncalls w) in (answer_of f l, tick (effect_of f (put_row key l) w))))"

definition putLolUserDetails ::
  "datastore \<Rightarrow> string \<Rightarrow> lol_user \<Rightarrow> db \<Rightarrow> (string + lol_user) \<times> db" where
  "putLolUserDetails ds key l w =
     (case tx_get ds key w of
        (GetErr e, w1) \<Rightarrow> (Inl e, w1)
      | (g, w1) \<Rightarrow>
          (let existing = (case g of Found u \<Rightarrow> u | _ \<Rightarrow> no_user);
               l1 = l\<lparr>VantagePointBalance := VantagePointBalance existing\<rparr>;
               l2 = (if ID l = [] then l1\<lparr>VantagePointBalance := 400\<rparr> else l1)
           in (Inr l2, w1)))"

definition putLolUserPoints ::
  "datastore \<Rightarrow> string \<Rightarrow> int \<Rightarrow> bool \<Rightarrow> db \<Rightarrow> (string + lol_user) \<times> db" where
  "putLolUserPoints ds key adjustment absolute w =
     (case tx_get ds key w of
        (Found existing, w1) \<Rightarrow>
          (let bal = (if absolute then adjustment
                      else add64 (VantagePointBalance existing) adjustment) in
           if bal < 0 then (Inl ''point balance can not be less than 0'', w1)
           else (Inr (existing\<lparr>VantagePointBalance := bal\<rparr>), w1))
      | (NoSuchEntity, w1) \<Rightarrow> (Inl ''datastore: no such entity'', w1)
      | (GetErr e, w1) \<Rightarrow> (Inl e, w1))"

text \<open>
  \<open>putLolUser\<close> returns the user the caller holds afterwards: the details path also writes the
  balance into the caller's object.
\<close>

definition putLolUser ::
  "datastore \<Rightarrow> lol_user \<Rightarrow> int \<Rightarrow> bool \<Rightarrow> db \<Rightarrow> (string + lol_user) \<times> db" where
  "putLolUser ds l vpAdjustment absolute w =
     (case (if ID l = [] then allocateKey ds w else (Inr (ID l), w)) of
        (Inl e, w1) \<Rightarrow> (Inl e, w1)
      | (Inr key, w1) \<Rightarrow>
          if vpAdjustment = 0 \<and> \<not> absolute then commit ds key (putLolUserDetails ds key l w1)
          else (case commit ds key (putLolUserPoints ds key vpAdjustment absolute w1) of
                  (Inl e, w2) \<Rightarrow> (Inl e, w2)
                | (Inr _, w2) \<Rightarrow> (Inr l, w2)))"

definition putPurchaseMatchRecord ::
  "datastore \<Rightarrow> purchase_record \<Rightarrow> db \<Rightarrow> (string + purchase_record) \<times> db" where
  "putPurchaseMatchRecord ds r w =
     (case getOrMakeKey ds (prID r) w of
        (Inl e, w1) \<Rightarrow> (Inl e, w1)
      | (Inr key, w1) \<Rightarrow>
          (let r1 = r\<lparr>prID := key\<rparr>; f = call_fate ds (ncalls w1) in
           (answer_of f r1,
            tick (effect_of f (\<lambda>w. w\<lparr>purchases := AList.update key (r1\<lparr>prID := []\<rparr>) (purchases w)\<rparr>) w1))))"

end
