(* ===== verification/Users_Service.thy ===== *)
theory Users_Service
  imports Users_Store
begin

text \<open>
  The lolusers service, \<open>lolusers-master/server/lolusers.go\<close> with the request checks of
  \<open>lolusers-master/util.go\<close>: creating and updating users, listing them, adjusting their vantage
  points and asking for a crawl of their matches.

  Parameters (\<open>peers\<close>) are the services it calls: the check of tokens, the Riot proxy, the group
  and email services, the queue, the clock and the LRU cache. Messages, emails and group
  associations that were sent are kept in order in \<open>outbox\<close>.
\<close>

subsection \<open>Messages\<close>

text \<open>The \<open>LolUser\<close> of the protocol, \<open>lolusers.pb.go\<close>.\<close>

record pb_user =
  pbId :: string
  pbUserId :: string
  pbSummonerId :: string
  pbRegion :: string
  pbVantagePointBalance :: int
  pbConfirmed :: bool

record list_request =
  lrUserId :: string
  lrSummonerIds :: "int list"
  lrRegion :: string

record points_request =
  vpUserId :: string
  vpAmount :: int
  vpAbsolute :: bool

definition ListLolUsersRequest_Valid :: "list_request \<Rightarrow> bool" where
  "ListLolUsersRequest_Valid r \<longleftrightarrow>
     \<not> (length (lrSummonerIds r) > 10 \<or> length (lrSummonerIds r) > 0 \<and> lrRegion r = [])"

definition LolUserRequest_Valid :: "pb_user option \<Rightarrow> bool" where
  "LolUserRequest_Valid r \<longleftrightarrow>
     (case r of None \<Rightarrow> False
      | Some l \<Rightarrow> pbUserId l \<noteq> [] \<and> pbSummonerId l \<noteq> [] \<and> pbRegion l \<noteq> [])"

definition VantagePointsRequest_Valid :: "points_request \<Rightarrow> bool" where
  "VantagePointsRequest_Valid r \<longleftrightarrow> vpUserId r \<noteq> []"

text \<open>
  \<open>remarshalAs\<close> at the two pairs of types it is used at. The protocol type leaves empty fields
  out of its JSON, and reading JSON leaves absent fields as they are; the store type writes
  every field, and the protocol type has none for the verification.
\<close>

definition remarshal_in :: "pb_user \<Rightarrow> lol_user \<Rightarrow> lol_user" where
  "remarshal_in p u =
     u\<lparr>ID := (if pbId p \<noteq> [] then pbId p else ID u),
       UserID := (if pbUserId p \<noteq> [] then pbUserId p else UserID u),
       SummonerID := (if pbSummonerId p \<noteq> [] then pbSummonerId p else SummonerID u),
       Region := (if pbRegion p \<noteq> [] then pbRegion p else Region u),
       VantagePointBalance :=
         (if pbVantagePointBalance p \<noteq> 0 then pbVantagePointBalance p else VantagePointBalance u),
       Confirmed := (pbConfirmed p \<or> Confirmed u)\<rparr>"

definition remarshal_out :: "lol_user \<Rightarrow> pb_user" where
  "remarshal_out u =
     \<lparr>pbId = ID u, pbUserId = UserID u, pbSummonerId = SummonerID u, pbRegion = Region u,
      pbVantagePointBalance = VantagePointBalance u, pbConfirmed = Confirmed u\<rparr>"

subsection \<open>The state and the peers\<close>

datatype out_message =
    Associate string string
  | Welcome_email string string
  | Crawl int string

record 'c service =
  store :: db
  crawls_cache :: 'c
  outbox :: "out_message list"
  nsent :: nat

record 'c peers =
  datastore_of :: datastore
  CheckToken :: "string \<Rightarrow> string + claims"
  SummonersById :: "int \<Rightarrow> string \<Rightarrow> string option"
  Masteries :: "int \<Rightarrow> string \<Rightarrow> string + string list list"
  ListEmails :: "string \<Rightarrow> string + string list"
  template_html :: "string \<Rightarrow> string + string"
  send_fate :: "nat \<Rightarrow> fate"
  now :: "nat \<Rightarrow> int"
  lru_get :: "string \<Rightarrow> 'c \<Rightarrow> int option \<times> 'c"
  lru_add :: "string \<Rightarrow> int \<Rightarrow> 'c \<Rightarrow> 'c"
  LolActiveGroupID :: string

definition send_out :: "'c peers \<Rightarrow> out_message \<Rightarrow> 'c service \<Rightarrow> string option \<times> 'c service" where
  "send_out p m s =
     (let f = send_fate p (nsent s);
          s1 = effect_of f (\<lambda>s. s\<lparr>outbox := outbox s @ [m]\<rparr>) s
      in (case f of Done \<Rightarrow> None | Refused e \<Rightarrow> Some e | Late e \<Rightarrow> Some e, s1\<lparr>nsent := Suc (nsent s)\<rparr>))"

definition on_store :: "(db \<Rightarrow> 'r \<times> db) \<Rightarrow> 'c service \<Rightarrow> 'r \<times> 'c service" where
  "on_store f s = (case f (store s) of (r, w) \<Rightarrow> (r, s\<lparr>store := w\<rparr>))"

subsection \<open>Create\<close>

definition sendConfirmEmail :: "'c peers \<Rightarrow> string \<Rightarrow> string \<Rightarrow> 'c service \<Rightarrow> string option \<times> 'c service" where
  "sendConfirmEmail p userId region s =
     (case ListEmails p userId of
        Inl e \<Rightarrow> (Some e, s)
      | Inr addrs \<Rightarrow>
          if length addrs \<noteq> 1 then (Some ''Expected 1 user for user id'', s)
          else (let t = (if region = ''kr'' then ''korea_elite_welcome.html'' else ''elite_welcome.html'') in
            case template_html p (''email_templates/'' @ t) of
              Inl e \<Rightarrow> (Some e, s)
            | Inr html \<Rightarrow> send_out p (Welcome_email (hd addrs) html) s))"

definition Create ::
  "'c peers \<Rightarrow> string \<Rightarrow> pb_user option \<Rightarrow> 'c service \<Rightarrow> (string + pb_user) \<times> 'c service" where
  "Create p token req s =
     (if \<not> LolUserRequest_Valid req
      then (Inl ''request requires loluser, user_id, summoner_id, and region'', s)
      else let requested = the req in
      case ValidateCtxClaims (CheckToken p) [] token of
        Inl e \<Rightarrow> (Inl e, s)
      | Inr c \<Rightarrow>
      if Sub c \<noteq> pbUserId requested \<and> \<not> HasPrivilege c LOLUsersAdmin then (Inl ''not authorized'', s)
      else case parse_int (pbSummonerId requested) of
        None \<Rightarrow> (Inl ''strconv.ParseInt'', s)
      | Some sID \<Rightarrow>
      if SummonersById p sID (pbRegion requested) \<noteq> None \<and> \<not> HasPrivilege c LOLUsersAdmin
      then (Inl ''riot error encountered'', s)
      else case on_store (fetchLolUserByUserId (datastore_of p) (pbUserId requested)) s of
        (Inl e, s1) \<Rightarrow> (Inl e, s1)
      | (Inr existing, s1) \<Rightarrow>
      if length existing > 0 then (Inl ''user id already exists'', s1)
      else case on_store (putLolUser (datastore_of p) (remarshal_in requested no_user) 0 False) s1 of
        (Inl e, s2) \<Rightarrow> (Inl e, s2)
      | (Inr lolUser, s2) \<Rightarrow>
          (let (_, s3) = send_out p (Associate (pbUserId requested) (LolActiveGroupID p)) s2;
               (_, s4) = sendConfirmEmail p (pbUserId requested) (Region lolUser) s3
           in (Inr (remarshal_out lolUser), s4)))"

subsection \<open>Update\<close>

definition confirmMasteryNameChanged :: "string list \<Rightarrow> string \<Rightarrow> bool" where
  "confirmMasteryNameChanged pages verification \<longleftrightarrow> verification \<in> set pages"

text \<open>
  What an update makes of the stored user: an administrator's request is merged into it; a
  request to be confirmed is checked against the mastery pages. The pages of a summoner are
  the names the Riot proxy returns.
\<close>

definition updated :: "'c peers \<Rightarrow> claims \<Rightarrow> pb_user \<Rightarrow> lol_user \<Rightarrow> string + lol_user" where
  "updated p c requested lolUser =
     (if HasPrivilege c LOLUsersAdmin then Inr (remarshal_in requested lolUser)
      else if pbConfirmed requested then
        (case parse_int (SummonerID lolUser) of
           None \<Rightarrow> Inl ''strconv.ParseInt''
         | Some sID \<Rightarrow>
        (case Masteries p sID (region_string (Region lolUser)) of
           Inl e \<Rightarrow> Inl ''riot error encountered''
         | Inr named_pages \<Rightarrow>
             if named_pages = [] then Inl ''expected to find at least one named mastery''
             else if \<not> confirmMasteryNameChanged (hd named_pages) (ID lolUser)
             then Inl ''Did not find a master page''
             else Inr (lolUser\<lparr>Confirmed := True\<rparr>)))
      else Inr lolUser)"

definition Update ::
  "'c peers \<Rightarrow> string \<Rightarrow> pb_user option \<Rightarrow> 'c service \<Rightarrow> (string + pb_user) \<times> 'c service" where
  "Update p token req s =
     (if \<not> LolUserRequest_Valid req
      then (Inl ''request requires loluser, user_id, summoner_id, and region'', s)
      else let requested = the req in
      case ValidateCtxClaims (CheckToken p) [] token of
        Inl e \<Rightarrow> (Inl e, s)
      | Inr c \<Rightarrow>
      if Sub c \<noteq> pbUserId requested \<and> \<not> HasPrivilege c LOLUsersAdmin then (Inl ''not authorized'', s)
      else case on_store (fetchLolUserByUserId (datastore_of p) (pbUserId requested)) s of
        (Inl e, s1) \<Rightarrow> (Inl e, s1)
      | (Inr lolUsers, s1) \<Rightarrow>
      if lolUsers = [] then (Inl ''user not found'', s1)
      else case updated p c requested (hd lolUsers) of
        Inl e \<Rightarrow> (Inl e, s1)
      | Inr lolUser \<Rightarrow>
      (case on_store (putLolUser (datastore_of p) lolUser 0 False) s1 of
         (Inl e, s2) \<Rightarrow> (Inl e, s2)
       | (Inr l, s2) \<Rightarrow> (Inr (remarshal_out l), s2)))"

subsection \<open>List and AdjustVantagePoints\<close>

definition List_users ::
  "'c peers \<Rightarrow> string \<Rightarrow> list_request \<Rightarrow> 'c service \<Rightarrow> (string + pb_user list) \<times> 'c service" where
  "List_users p token req s =
     (if \<not> ListLolUsersRequest_Valid req
      then (Inl ''must include region with summoner ids (no more than 10)'', s)
      else case ValidateCtxClaims (CheckToken p) [] token of
        Inl e \<Rightarrow> (Inl e, s)
      | Inr c \<Rightarrow>
      if Sub c \<noteq> lrUserId req \<and> \<not> HasPrivilege c LOLUsersAdmin then (Inl ''not authorized'', s)
      else case on_store (if lrUserId req \<noteq> [] then fetchLolUserByUserId (datastore_of p) (lrUserId req)
                          else fetchLolUsersBySummonerIds (datastore_of p) (lrRegion req) (lrSummonerIds req)) s of
        (Inl e, s1) \<Rightarrow> (Inl e, s1)
      | (Inr us, s1) \<Rightarrow> (Inr (map remarshal_out us), s1))"

definition AdjustVantagePoints ::
  "'c peers \<Rightarrow> string \<Rightarrow> points_request \<Rightarrow> 'c service \<Rightarrow> string option \<times> 'c service" where
  "AdjustVantagePoints p token req s =
     (if \<not> VantagePointsRequest_Valid req then (Some ''user_id and amount are required'', s)
      else case ValidateCtxClaims (CheckToken p) [LOLUsersAdmin] token of
        Inl e \<Rightarrow> (Some ''not authorized'', s)
      | Inr c \<Rightarrow>
      case on_store (fetchLolUserByUserId (datastore_of p) (vpUserId req)) s of
        (Inl e, s1) \<Rightarrow> (Some e, s1)
      | (Inr lolUsers, s1) \<Rightarrow>
      if lolUsers = [] then (Some ''no user found to adjust'', s1)
      else case on_store (putLolUser (datastore_of p) (hd lolUsers) (vpAmount req) (vpAbsolute req)) s1 of
        (Inl e, s2) \<Rightarrow> (Some e, s2)
      | (Inr _, s2) \<Rightarrow> (None, s2))"

subsection \<open>CrawlSummoners\<close>

definition publishCrawlMessage :: "'c peers \<Rightarrow> int \<Rightarrow> string \<Rightarrow> 'c service \<Rightarrow> string option \<times> 'c service" where
  "publishCrawlMessage p summonerId platform s = send_out p (Crawl summonerId platform) s"

text \<open>The clock counts nanoseconds; more than twenty minutes is more than 20 * 60 * 10^9 of them.\<close>

definition crawl_one ::
  "'c peers \<Rightarrow> int \<Rightarrow> string \<Rightarrow> string option \<Rightarrow> 'c service \<Rightarrow> string option \<times> 'c service" where
  "crawl_one p summonerID platform returnErr s =
     (let key = show_int summonerID @ '' - '' @ platform;
          (timeV, cache1) = lru_get p key (crawls_cache s);
          s1 = s\<lparr>crawls_cache := cache1\<rparr>;
          t = now p (nsent s);
          found = (case timeV of None \<Rightarrow> False | Some t0 \<Rightarrow> \<not> t - t0 > 20 * 60 * 10 ^ 9) in
      if found then (returnErr, s1)
      else case publishCrawlMessage p summonerID platform s1 of
        (None, s2) \<Rightarrow> (returnErr, s2\<lparr>crawls_cache := lru_add p key (now p (nsent s2)) (crawls_cache s2)\<rparr>)
      | (Some e, s2) \<Rightarrow> (Some e, s2))"

fun crawl_loop ::
  "'c peers \<Rightarrow> claims \<Rightarrow> string \<Rightarrow> int list \<Rightarrow> string option \<Rightarrow> 'c service \<Rightarrow> string option \<times> 'c service"
where
  "crawl_loop p c platform [] returnErr s = (returnErr, s)"
| "crawl_loop p c platform (summonerID # rest) returnErr s =
     (let region = RegionFromPlatform (PlatformFromString platform) in
      case on_store (fetchLolUsersBySummonerIds (datastore_of p) (region_string region) [summonerID]) s of
        (Inl e, s1) \<Rightarrow> (returnErr, s1)
      | (Inr us, s1) \<Rightarrow>
          if list_ex (\<lambda>l. UserID l = Sub c) us
          then (case crawl_one p summonerID platform returnErr s1 of
                  (err, s2) \<Rightarrow> crawl_loop p c platform rest err s2)
          else crawl_loop p c platform rest returnErr s1)"

definition CrawlSummoners ::
  "'c peers \<Rightarrow> string \<Rightarrow> int list \<Rightarrow> string \<Rightarrow> 'c service \<Rightarrow> string option \<times> 'c service" where
  "CrawlSummoners p token summonerIds platform s =
     (case ValidateCtxClaims (CheckToken p) [] token of
        Inl e \<Rightarrow> (Some e, s)
      | Inr c \<Rightarrow> crawl_loop p c platform summonerIds None s)"

end
