(* ===== verification/Goals_Store.thy ===== *)
theory Goals_Store
  imports Complex_Main Users_Service
begin

text \<open>
  Goals, \<open>lolstats-master/gcd/goal.go\<close>: the record, its key, and the order of importance; with
  the names of states, comparators and categories (\<open>lolstats.pb.go\<close>), the request checks
  (\<open>lolstats-master/utils.go\<close>) and the statistics a goal can be about
  (\<open>server/goal_creator.go\<close>). Numbers that are \<open>float64\<close> in the code are real numbers here.
\<close>

subsection \<open>Names\<close>

text \<open>
  The enumerations of the protocol: the map from numbers to names, and back. A number or name
  outside the map gives the zero value of Go.
\<close>

definition GoalStatus_name :: "(int \<times> string) list" where
  "GoalStatus_name = [(0, ''STATUS_NONE''), (1, ''NEW''), (2, ''ACCEPTED''), (4, ''COMPLETED''),
     (5, ''CANCELLED''), (6, ''COMPLETED_SEEN'')]"

definition GoalComparator_name :: "(int \<times> string) list" where
  "GoalComparator_name = [(0, ''COMPARATOR_NONE''), (1, ''GREATER_THAN''),
     (2, ''GREATER_THAN_OR_EQUAL''), (3, ''LESS_THAN_OR_EQUAL''), (4, ''LESS_THAN'')]"

definition GoalCategory_name :: "(int \<times> string) list" where
  "GoalCategory_name = [(0, ''CATEGORY_NONE''), (1, ''DECISION_MAKING''), (2, ''MECHANICS'')]"

definition enum_name :: "(int \<times> string) list \<Rightarrow> int \<Rightarrow> string" where
  "enum_name t i = (case map_of t i of Some s \<Rightarrow> s | None \<Rightarrow> [])"

definition enum_value :: "(int \<times> string) list \<Rightarrow> string \<Rightarrow> int" where
  "enum_value t s = (case map_of (map (\<lambda>(i, s). (s, i)) t) s of Some i \<Rightarrow> i | None \<Rightarrow> 0)"

definition CATEGORY_NONE :: int where "CATEGORY_NONE = 0"
definition DECISION_MAKING :: int where "DECISION_MAKING = 1"
definition MECHANICS :: int where "MECHANICS = 2"
definition STATUS_NONE :: int where "STATUS_NONE = 0"
definition STATUS_NEW :: string where "STATUS_NEW = ''NEW''"
definition STATUS_ACCEPTED :: string where "STATUS_ACCEPTED = ''ACCEPTED''"
definition STATUS_COMPLETED :: string where "STATUS_COMPLETED = ''COMPLETED''"
definition STATUS_COMPLETED_SEEN :: string where "STATUS_COMPLETED_SEEN = ''COMPLETED_SEEN''"
definition GREATER_THAN :: string where "GREATER_THAN = ''GREATER_THAN''"
definition GREATER_THAN_OR_EQUAL :: string where "GREATER_THAN_OR_EQUAL = ''GREATER_THAN_OR_EQUAL''"
definition LESS_THAN_OR_EQUAL :: string where "LESS_THAN_OR_EQUAL = ''LESS_THAN_OR_EQUAL''"
definition LESS_THAN :: string where "LESS_THAN = ''LESS_THAN''"

subsection \<open>The statistics of goals\<close>

definition common_weights :: "(string \<times> real) list" where
  "common_weights =
     [(''level_6_seconds'', 5), (''damage_taken_percent_per_death'', 30),
      (''wards_killed_per_minute'', 5), (''favorable_team_fight_percent'', 20),
      (''useful_percent_all'', 30), (''bad_deaths_total_per_minute'', 100),
      (''good_kills_total_per_minute'', 100)]"

text \<open>The table has a map for each role; the entries all roles share stand first here.\<close>

definition VPRWeights :: "(string \<times> (string \<times> real) list) list" where
  "VPRWeights =
     [(''top'', common_weights @
        [(''attacks_per_minute_useful'', 15), (''gold_zero_to_ten'', 25), (''gold_diff_zero_to_ten'', 25),
         (''cs_per_minute_zero_to_ten'', 5), (''cs_per_minute_diff_zero_to_ten'', 5),
         (''map_coverages_full'', 30), (''live_wards_average_pink'', 15),
         (''live_wards_average_yellow_and_blue'', 15)]),
      (''jng'', common_weights @
        [(''attacks_per_minute_useful'', 15), (''gold_zero_to_ten'', 25), (''gold_diff_zero_to_ten'', 25),
         (''neutral_minions_killed_per_minute'', 5), (''neutral_minions_killed_enemy_jungle_per_minute'', 5),
         (''map_coverages_full'', 50), (''live_wards_average_pink'', 15),
         (''live_wards_average_yellow_and_blue'', 15)]),
      (''mid'', common_weights @
        [(''attacks_per_minute_useful'', 15), (''gold_zero_to_ten'', 25), (''gold_diff_zero_to_ten'', 25),
         (''cs_per_minute_zero_to_ten'', 5), (''cs_per_minute_diff_zero_to_ten'', 5),
         (''map_coverages_full'', 30), (''live_wards_average_pink'', 15),
         (''live_wards_average_yellow_and_blue'', 15)]),
      (''adc'', common_weights @
        [(''attacks_per_minute_useful'', 20), (''gold_zero_to_ten'', 30), (''gold_diff_zero_to_ten'', 30),
         (''cs_per_minute_zero_to_ten'', 5), (''cs_per_minute_diff_zero_to_ten'', 5),
         (''map_coverages_full'', 30), (''live_wards_average_pink'', 15),
         (''live_wards_average_yellow_and_blue'', 15)]),
      (''sup'', common_weights @
        [(''attacks_per_minute_useful'', 20), (''gold_zero_to_ten'', 15), (''gold_diff_zero_to_ten'', 15),
         (''map_coverages_full'', 30), (''live_wards_average_pink'', 20),
         (''live_wards_average_yellow_and_blue'', 20)])]"

definition weights_of :: "string \<Rightarrow> (string \<times> real) list" where
  "weights_of rolePosition = (case map_of VPRWeights rolePosition of Some m \<Rightarrow> m | None \<Rightarrow> [])"

definition weight :: "string \<Rightarrow> string \<Rightarrow> real" where
  "weight rolePosition stat =
     (case map_of (weights_of rolePosition) stat of Some v \<Rightarrow> v | None \<Rightarrow> 0)"

definition VPRWeightsLowerIsBetter :: "string \<Rightarrow> bool" where
  "VPRWeightsLowerIsBetter stat \<longleftrightarrow>
     stat \<in> {''level_6_seconds'', ''bad_deaths_total_per_minute'', ''average_death_time_percentage''}"

definition VPRSQL :: "(string \<times> string) list" where
  "VPRSQL =
     [(''attacks_per_minute_useful'', ''attacks_per_minute/useful_percent.all*100 AS attacks_per_minute_useful''),
      (''gold_zero_to_ten'', ''gold_zero_to_ten AS gold_zero_to_ten''),
      (''gold_diff_zero_to_ten'', ''gold_diff_zero_to_ten AS gold_diff_zero_to_ten''),
      (''level_6_seconds'', ''level_6_seconds AS level_6_seconds''),
      (''cs_per_minute_zero_to_ten'', ''cs_per_minute_zero_to_ten AS cs_per_minute_zero_to_ten''),
      (''cs_per_minute_diff_zero_to_ten'', ''cs_per_minute_diff_zero_to_ten AS cs_per_minute_diff_zero_to_ten''),
      (''neutral_minions_killed_per_minute'',
       ''neutral_minions_killed_per_minute AS neutral_minions_killed_per_minute''),
      (''neutral_minions_killed_enemy_jungle_per_minute'',
       ''neutral_minions_killed_enemy_jungle_per_minute AS neutral_minions_killed_enemy_jungle_per_minute''),
      (''damage_taken_percent_per_death'', ''damage_taken_percent_per_death AS damage_taken_percent_per_death''),
      (''wards_killed_per_minute'', ''wards_killed_per_minute AS wards_killed_per_minute''),
      (''favorable_team_fight_percent'', ''favorable_team_fight_percent AS favorable_team_fight_percent''),
      (''map_coverages_full'', ''map_coverages.`full` AS map_coverages_full''),
      (''useful_percent_all'', ''useful_percent.all AS useful_percent_all''),
      (''live_wards_average_pink'', ''live_wards_average.pink AS live_wards_average_pink''),
      (''live_wards_average_yellow_and_blue'',
       ''live_wards_average.yellow_and_blue AS live_wards_average_yellow_and_blue''),
      (''bad_deaths_total_per_minute'', ''bad_deaths.total*60/match_duration AS bad_deaths_total_per_minute''),
      (''good_kills_total_per_minute'', ''good_kills.total*60/match_duration AS good_kills_total_per_minute''),
      (''average_death_time_percentage'', ''average_death_time_percentage AS average_death_time_percentage''),
      (''reveals_per_ward_average'', ''reveals_per_ward_average AS reveals_per_ward_average''),
      (''carry_focus_efficiency'', ''carry_focus_efficiency AS carry_focus_efficiency''),
      (''attacks_per_minute'', ''attacks_per_minute AS attacks_per_minute'')]"

definition VPRStatCategories :: "string \<Rightarrow> string" where
  "VPRStatCategories stat =
     (if stat \<in> set [''attacks_per_minute_useful'', ''gold_zero_to_ten'', ''gold_diff_zero_to_ten'',
        ''level_6_seconds'', ''cs_per_minute_zero_to_ten'', ''cs_per_minute_diff_zero_to_ten'',
        ''neutral_minions_killed_per_minute'', ''neutral_minions_killed_enemy_jungle_per_minute'',
        ''damage_taken_percent_per_death''] then enum_name GoalCategory_name MECHANICS
      else if stat \<in> set [''wards_killed_per_minute'', ''favorable_team_fight_percent'',
        ''map_coverages_full'', ''useful_percent_all'', ''live_wards_average_pink'',
        ''live_wards_average_yellow_and_blue'', ''bad_deaths_total_per_minute'',
        ''good_kills_total_per_minute''] then enum_name GoalCategory_name DECISION_MAKING
      else [])"

definition VPRGoalPercentileTarget :: int where "VPRGoalPercentileTarget = 5"
definition VPRPerGameLengthMinutes :: real where "VPRPerGameLengthMinutes = 30"

subsection \<open>The goal\<close>

record lol_goal =
  gCreated :: int
  gLastUpdated :: int
  gStatus :: string
  gSummonerID :: int
  gPlatform :: string
  gUnderlyingStat :: string
  gTargetValue :: real
  gComparator :: string
  gAchievementCount :: int
  gTargetAchievementCount :: int
  gImportanceWeight :: real
  gRolePosition :: string
  gChampionID :: int
  gLastValue :: real
  gCategory :: string
  gLastMatchID :: int

definition no_goal :: lol_goal where
  "no_goal = \<lparr>gCreated = 0, gLastUpdated = 0, gStatus = [], gSummonerID = 0, gPlatform = [],
     gUnderlyingStat = [], gTargetValue = 0, gComparator = [], gAchievementCount = 0,
     gTargetAchievementCount = 0, gImportanceWeight = 0, gRolePosition = [], gChampionID = 0,
     gLastValue = 0, gCategory = [], gLastMatchID = 0\<rparr>"

fun dashed :: "string list \<Rightarrow> string" where
  "dashed [] = []"
| "dashed [s] = s"
| "dashed (s # t # ss) = s @ CHR ''-'' # dashed (t # ss)"

definition GenerateId :: "lol_goal \<Rightarrow> string" where
  "GenerateId g =
     dashed [show_int (gSummonerID g), gPlatform g, gRolePosition g, show_int (gChampionID g),
             gUnderlyingStat g, show_int (gCreated g)]"

text \<open>\<open>Save\<close> stamps the record when it is stored; times are in seconds, zero is Go's zero time.\<close>

definition Save_goal :: "int \<Rightarrow> lol_goal \<Rightarrow> lol_goal" where
  "Save_goal time g = (g\<lparr>gCreated := if gCreated g = 0 then time else gCreated g\<rparr>)\<lparr>gLastUpdated := time\<rparr>"

definition goal_less :: "lol_goal \<Rightarrow> lol_goal \<Rightarrow> bool" where
  "goal_less a b \<longleftrightarrow> gImportanceWeight a > gImportanceWeight b"

text \<open>\<open>sort.Stable\<close>: the stable order by falling importance.\<close>

definition sort_goals :: "lol_goal list \<Rightarrow> lol_goal list" where
  "sort_goals gs = sort_key (\<lambda>g. - gImportanceWeight g) gs"

record proto_goal =
  poId :: string
  poStatus :: int
  poCategory :: int
  poComparator :: int
  poGoal :: lol_goal

text \<open>The fields \<open>ToProtoGoal\<close> copies as they are stand together in \<open>poGoal\<close>.\<close>

definition ToProtoGoal :: "lol_goal \<Rightarrow> proto_goal" where
  "ToProtoGoal r =
     \<lparr>poId = GenerateId r, poStatus = enum_value GoalStatus_name (gStatus r),
      poCategory = enum_value GoalCategory_name (gCategory r),
      poComparator = enum_value GoalComparator_name (gComparator r), poGoal = r\<rparr>"

subsection \<open>Keys in a range\<close>

text \<open>The order of key names, which is that of their bytes.\<close>

fun key_less :: "string \<Rightarrow> string \<Rightarrow> bool" where
  "key_less xs [] = False"
| "key_less [] (y # ys) = True"
| "key_less (x # xs) (y # ys) \<longleftrightarrow>
     (of_char x :: nat) < of_char y \<or> x = y \<and> key_less xs ys"

text \<open>The range that queries by prefix ask for: between the prefix and the prefix with a zero.\<close>

definition key_range :: "string \<Rightarrow> string \<Rightarrow> bool" where
  "key_range p k \<longleftrightarrow> key_less p k \<and> key_less k (p @ ''0'')"

subsection \<open>Requests\<close>

record create_stats_request =
  csSummonerId :: int
  csPlatform :: string
  csRolePosition :: string
  csNumGoals :: int
  csTargetAchievementCount :: int
  csCategories :: "int list"

record create_custom_request =
  ccSummonerId :: int
  ccPlatform :: string
  ccRolePosition :: string
  ccUnderlyingStat :: string

record get_request =
  ggSummonerId :: int
  ggPlatform :: string
  ggRolePosition :: string
  ggChampionId :: int
  ggStatus :: int

record goal_request =
  grSummonerId :: int
  grPlatform :: string
  grGoalId :: string

definition GoalCreateStatsRequest_Valid :: "create_stats_request \<Rightarrow> bool" where
  "GoalCreateStatsRequest_Valid r \<longleftrightarrow>
     \<not> (csSummonerId r = 0 \<or> csPlatform r = [] \<or> csRolePosition r = [] \<or> csNumGoals r = 0 \<or>
        csTargetAchievementCount r = 0 \<or> length (csCategories r) = 0)"

definition GoalCreateCustomRequest_Valid :: "create_custom_request \<Rightarrow> bool" where
  "GoalCreateCustomRequest_Valid r \<longleftrightarrow>
     \<not> (ccSummonerId r = 0 \<or> ccPlatform r = [] \<or> ccRolePosition r = [] \<or> ccUnderlyingStat r = [])"

definition GoalGetRequest_Valid :: "get_request \<Rightarrow> bool" where
  "GoalGetRequest_Valid r \<longleftrightarrow> \<not> (ggSummonerId r = 0 \<or> ggPlatform r = [])"

definition GoalDeleteRequest_Valid :: "goal_request \<Rightarrow> bool" where
  "GoalDeleteRequest_Valid r \<longleftrightarrow> \<not> (grSummonerId r = 0 \<or> grPlatform r = [] \<or> grGoalId r = [])"

definition GoalUpdateStatusRequest_Valid :: "goal_request \<Rightarrow> int \<Rightarrow> bool" where
  "GoalUpdateStatusRequest_Valid r status \<longleftrightarrow>
     \<not> (grSummonerId r = 0 \<or> grPlatform r = [] \<or> grGoalId r = [] \<or> status = 0)"

subsection \<open>What a prefix finds\<close>

lemma key_range_iff: "key_range p k \<longleftrightarrow> (\<exists>c t. k = p @ c # t \<and> (of_char c :: nat) < 48)"
proof (induction p arbitrary: k)
  case Nil
  then show ?case
    by (cases k) (auto simp: key_range_def)
next
  case (Cons x p)
  show ?case
  proof (cases k)
    case (Cons y k')
    then have "key_range (x # p) k \<longleftrightarrow> y = x \<and> key_range p k'"
      by (auto simp: key_range_def)
    with Cons.IH[of k'] Cons show ?thesis by auto
  qed (simp add: key_range_def)
qed

definition plain_field :: "string \<Rightarrow> bool" where
  "plain_field s \<longleftrightarrow> CHR ''-'' \<notin> set s"

lemma dash_split:
  "plain_field a \<Longrightarrow> plain_field b \<Longrightarrow> a @ CHR ''-'' # x = b @ CHR ''-'' # y \<longleftrightarrow> a = b \<and> x = y"
  by (induction a arbitrary: b; case_tac b) (auto simp: plain_field_def)

lemma show_nat_digits48: "c \<in> set (show_nat n) \<Longrightarrow> 48 \<le> (of_char c :: nat)"
  using show_nat_chars[of c n] by (auto simp: digit_char_def)

lemma show_nonneg: "0 \<le> i \<Longrightarrow> show_int i = show_nat (nat i)"
  by (simp add: show_int_def)

lemma show_nonneg_plain: "0 \<le> i \<Longrightarrow> plain_field (show_int i)"
  using show_nat_digits48 by (fastforce simp: plain_field_def show_nonneg)

lemma digits_split:
  assumes "\<And>c. c \<in> set a \<Longrightarrow> 48 \<le> (of_char c :: nat)" "\<And>c. c \<in> set b \<Longrightarrow> 48 \<le> (of_char c :: nat)"
    and "(of_char d :: nat) < 48" "(of_char e :: nat) < 48" "a @ d # x = b @ e # y"
  shows "a = b"
  using assms
proof (induction a arbitrary: b)
  case Nil
  show ?case
  proof (cases b)
    case (Cons c' b')
    with Nil.prems(5) have "d \<in> set b" by simp
    then have "48 \<le> (of_char d :: nat)" by (rule Nil.prems(2))
    with Nil.prems(3) show ?thesis by linarith
  qed simp
next
  case (Cons c a)
  show ?case
  proof (cases b)
    case Nil
    with Cons.prems(1)[of c] Cons.prems(4,5) show ?thesis by simp
  next
    case (Cons c' b')
    with Cons.prems Cons.IH[of b'] show ?thesis by auto
  qed
qed

definition goal_prefix :: "int \<Rightarrow> string \<Rightarrow> string \<Rightarrow> int \<Rightarrow> string" where
  "goal_prefix s p r c = dashed [show_int s, p, r, show_int c]"

text \<open>
  the query by prefix finds exactly the goals of the summoner, platform, role and
  champion it is built from: the champion 1 does not also find the goals of champion 10. The
  names of platforms and roles have no dash, and the ids are not negative.
\<close>

theorem prefix_finds_own_goals:
  assumes "0 \<le> s" "0 \<le> c" "plain_field p" "plain_field r"
    and "0 \<le> gSummonerID g" "0 \<le> gChampionID g" "plain_field (gPlatform g)" "plain_field (gRolePosition g)"
  shows "key_range (goal_prefix s p r c) (GenerateId g) \<longleftrightarrow>
    gSummonerID g = s \<and> gPlatform g = p \<and> gRolePosition g = r \<and> gChampionID g = c"
proof
  assume "key_range (goal_prefix s p r c) (GenerateId g)"
  then obtain d t where k: "GenerateId g = goal_prefix s p r c @ d # t" "(of_char d :: nat) < 48"
    by (auto simp: key_range_iff)
  from k(1) have e: "show_int (gSummonerID g) = show_int s" "gPlatform g = p" "gRolePosition g = r"
    "show_int (gChampionID g) @ CHR ''-'' # (gUnderlyingStat g @ CHR ''-'' # show_int (gCreated g)) =
      show_int c @ d # t"
    using assms by (simp_all add: GenerateId_def goal_prefix_def dash_split show_nonneg_plain)
  have digits: "48 \<le> (of_char x :: nat)" if "x \<in> set (show_int i)" "0 \<le> i" for x i
    using that show_nat_digits48 by (simp add: show_nonneg)
  have dash: "(of_char (CHR ''-'') :: nat) < 48" by code_simp
  have "show_int (gChampionID g) = show_int c"
    by (rule digits_split[OF digits[OF _ assms(6)] digits[OF _ assms(2)] dash k(2) e(4)])
  with e(1-3) show "gSummonerID g = s \<and> gPlatform g = p \<and> gRolePosition g = r \<and> gChampionID g = c"
    using show_int_inj[of "gSummonerID g" s] show_int_inj[of "gChampionID g" c] by simp
next
  assume "gSummonerID g = s \<and> gPlatform g = p \<and> gRolePosition g = r \<and> gChampionID g = c"
  then have "GenerateId g = goal_prefix s p r c @ CHR ''-'' # gUnderlyingStat g @ CHR ''-'' # show_int (gCreated g)"
    by (simp add: GenerateId_def goal_prefix_def)
  moreover have "(of_char (CHR ''-'') :: nat) < 48" by code_simp
  ultimately show "key_range (goal_prefix s p r c) (GenerateId g)"
    unfolding key_range_iff by blast
qed

lemma prefix_finds_own_goals_witness:
  "\<not> key_range (goal_prefix 7 ''NA1'' ''top'' 1)
     (GenerateId (no_goal\<lparr>gSummonerID := 7, gPlatform := ''NA1'', gRolePosition := ''top'', gChampionID := 10\<rparr>))"
  using prefix_finds_own_goals[of 7 1 "''NA1''" "''top''"
      "no_goal\<lparr>gSummonerID := 7, gPlatform := ''NA1'', gRolePosition := ''top'', gChampionID := 10\<rparr>"]
  by (simp add: plain_field_def no_goal_def)

end
