(* ===== verification/Goals_Create.thy ===== *)
theory Goals_Create
  imports Goals_Store
begin

text \<open>
  How goals are chosen, \<open>lolstats-master/server/goal_creator.go\<close>: for each statistic of a role the
  percentile of a player's recent average, a target five percentiles better, its value for a
  game of thirty minutes, and the order by importance.

  The answers of BigQuery are arguments: the percentiles of each statistic and the rows of the
  last games, as the list of their columns that are numbers. The complementary error function
  of Go's \<open>math\<close> package is the argument \<open>erfc\<close>. The order in which Go ranges over the map of
  averages is the argument \<open>ks\<close>. An index out of range and a failing type assertion are panics.
\<close>

subsection \<open>Percentiles\<close>

text \<open>A loop with \<open>range\<close> that stops at the first element of a test; \<open>last\<close> is its counter so far.\<close>

fun range_until :: "(real \<Rightarrow> bool) \<Rightarrow> real list \<Rightarrow> nat \<Rightarrow> nat \<Rightarrow> nat" where
  "range_until P [] j final = final"
| "range_until P (x # xs) j final = (if P x then j else range_until P xs (Suc j) j)"

definition getMyPercentile :: "real list \<Rightarrow> real \<Rightarrow> string \<Rightarrow> nat" where
  "getMyPercentile percentileValues myValue stat =
     (if VPRWeightsLowerIsBetter stat
      then range_until (\<lambda>v. v < myValue) (rev percentileValues) 0 0
      else range_until (\<lambda>v. v > myValue) percentileValues 0 0)"

definition at_index :: "real list \<Rightarrow> int \<Rightarrow> real outcome" where
  "at_index xs i = (if 0 \<le> i \<and> i < int (length xs) then Ok (xs ! nat i) else Panic ''index out of range'')"

function walk_down :: "real list \<Rightarrow> real \<Rightarrow> real \<Rightarrow> int \<Rightarrow> real \<times> int" where
  "walk_down pv myValue myGoalValue i =
     (if myGoalValue = myValue \<and> i \<ge> 0 then walk_down pv myValue (pv ! nat i) (i - 1)
      else (myGoalValue, i))"
  by auto
termination by (relation "measure (\<lambda>(pv, v, g, i). nat (i + 1))") auto

function walk_up :: "real list \<Rightarrow> real \<Rightarrow> real \<Rightarrow> int \<Rightarrow> real \<times> int" where
  "walk_up pv myValue myGoalValue i =
     (if myGoalValue = myValue \<and> i < int (length pv) - 1 then walk_up pv myValue (pv ! nat i) (i + 1)
      else (myGoalValue, i))"
  by auto
termination by (relation "measure (\<lambda>(pv, v, g, i). nat (int (length pv) - i))") auto

declare walk_down.simps [simp del] walk_up.simps [simp del]

definition getGoalValue :: "real list \<Rightarrow> real \<Rightarrow> nat \<Rightarrow> string \<Rightarrow> (real \<times> int) outcome" where
  "getGoalValue percentileValues myValue myPercentile stat =
     (if VPRWeightsLowerIsBetter stat
      then let i = int (length percentileValues) - 1 - int myPercentile - VPRGoalPercentileTarget in
        bind_ok (at_index percentileValues i) (\<lambda>v. Ok (walk_down percentileValues myValue v i))
      else let i = int myPercentile + VPRGoalPercentileTarget in
        bind_ok (at_index percentileValues i) (\<lambda>v. Ok (walk_up percentileValues myValue v i)))"

subsection \<open>Values for a game\<close>

definition Round_real :: "real \<Rightarrow> real" where
  "Round_real f = of_int \<lfloor>f + 1 / 2\<rfloor>"

definition TranslateStatToPerGameValue :: "real \<Rightarrow> string \<Rightarrow> real outcome" where
  "TranslateStatToPerGameValue v stat =
     (if stat \<in> set [''neutral_minions_killed_per_minute'',
        ''neutral_minions_killed_enemy_jungle_per_minute'', ''wards_killed_per_minute'',
        ''live_wards_average_pink'', ''live_wards_average_yellow_and_blue'',
        ''bad_deaths_total_per_minute'', ''good_kills_total_per_minute'']
      then Ok (Round_real (v * VPRPerGameLengthMinutes))
      else if stat = ''gold_zero_to_ten'' then Ok (Round_real (v * 10 + 500))
      else if stat \<in> set [''gold_diff_zero_to_ten'', ''cs_per_minute_zero_to_ten'',
        ''cs_per_minute_diff_zero_to_ten''] then Ok (Round_real (v * 10))
      else if stat = ''favorable_team_fight_percent'' then Ok (Round_real (v * 24 / 100))
      else if stat = ''useful_percent_all'' then Ok (Round_real (v * VPRPerGameLengthMinutes / 100))
      else if stat \<in> set [''attacks_per_minute_useful'', ''level_6_seconds'',
        ''damage_taken_percent_per_death'', ''map_coverages_full''] then Ok (Round_real v)
      else Err ''Cannot translate stat'')"

definition stdDev :: "real list \<Rightarrow> real \<Rightarrow> real" where
  "stdDev numbers mean =
     (if length numbers \<le> 1 then 0
      else sqrt (sum_list (map (\<lambda>number. (number - mean) ^ 2) numbers) / real (length numbers - 1)))"

definition probabilityToReach :: "(real \<Rightarrow> real) \<Rightarrow> real \<Rightarrow> real \<Rightarrow> real \<Rightarrow> real" where
  "probabilityToReach erfc target mean stddev =
     (if stddev = 0 then 1 / 2 else 1 / 2 * erfc ((target - mean) / stddev / sqrt 2))"

subsection \<open>Targets\<close>

type_synonym row = "(string \<times> real) list"

definition summonerStatValues :: "row list \<Rightarrow> string \<Rightarrow> real list" where
  "summonerStatValues games k = List.map_filter (\<lambda>r. map_of r k) games"

definition summonerStatAverage :: "row list \<Rightarrow> string \<Rightarrow> real" where
  "summonerStatAverage games k = sum_list (summonerStatValues games k) / real (length games)"

definition goal_for ::
  "int \<Rightarrow> (real \<Rightarrow> real) \<Rightarrow> int \<Rightarrow> string \<Rightarrow> string \<Rightarrow> int \<Rightarrow> (string \<Rightarrow> real list option) \<Rightarrow> row list \<Rightarrow>
     string \<Rightarrow> lol_goal option outcome" where
  "goal_for time erfc summonerId platform rolePosition targetCount percentiles games k =
     (let myValue = summonerStatAverage games k;
          myStdDev = stdDev (summonerStatValues games k) myValue;
          myLastValue = hd (summonerStatValues games k) in
      case percentiles k of
        None \<Rightarrow> Panic ''interface conversion''
      | Some percentileValues \<Rightarrow>
     (let myPercentile = getMyPercentile percentileValues myValue k in
      if int myPercentile \<ge> 100 - VPRGoalPercentileTarget then Ok None
      else bind_ok (getGoalValue percentileValues myValue myPercentile k) (\<lambda>(myGoalValue, myGoalPercentile).
      if myGoalPercentile < 0 \<or> myGoalPercentile > 100 then Ok None
      else bind_ok (TranslateStatToPerGameValue myGoalValue k) (\<lambda>goalPerGameValue.
           bind_ok (TranslateStatToPerGameValue myLastValue k) (\<lambda>lastValuePerGameValue.
      Ok (Some (no_goal\<lparr>gCreated := time, gSummonerID := summonerId, gPlatform := platform,
        gUnderlyingStat := k, gTargetValue := goalPerGameValue,
        gComparator := (if VPRWeightsLowerIsBetter k then LESS_THAN_OR_EQUAL else GREATER_THAN_OR_EQUAL),
        gAchievementCount := 0, gTargetAchievementCount := targetCount,
        gImportanceWeight := weight rolePosition k * probabilityToReach erfc myGoalValue myValue myStdDev,
        gStatus := STATUS_NEW, gRolePosition := rolePosition, gChampionID := 0,
        gLastValue := lastValuePerGameValue, gCategory := VPRStatCategories k\<rparr>)))))))"

definition findGoalTargets ::
  "int \<Rightarrow> (real \<Rightarrow> real) \<Rightarrow> int \<Rightarrow> string \<Rightarrow> string \<Rightarrow> int \<Rightarrow> (string \<Rightarrow> real list option) \<Rightarrow> row list \<Rightarrow>
     string list \<Rightarrow> lol_goal list outcome" where
  "findGoalTargets time erfc summonerId platform rolePosition targetCount percentiles games ks =
     bind_ok (map_ok (goal_for time erfc summonerId platform rolePosition targetCount percentiles games) ks)
       (\<lambda>gs. Ok (sort_goals (List.map_filter id gs)))"

subsection \<open>A target is five percentiles better\<close>

lemma range_until_final: "range_until P xs (Suc j) j = j + range_until P xs 1 0"
proof -
  have "range_until P xs (Suc (j + k)) (j + k) = j + range_until P xs (Suc k) k" for k
    by (induction xs arbitrary: k) (simp_all, metis add_Suc_right)
  from this[of 0] show ?thesis by simp
qed

lemma range_until_before_last:
  "range_until P xs 0 0 < length xs - 1 \<Longrightarrow> P (xs ! range_until P xs 0 0)"
proof (induction xs)
  case (Cons x xs)
  show ?case
  proof (cases "P x")
    case False
    have s: "range_until P xs 1 0 = (case xs of [] \<Rightarrow> 0 | _ \<Rightarrow> Suc (range_until P xs 0 0))"
      by (cases xs) (use range_until_final[of P _ 0] range_until_final[of P _ 1] in auto)
    with Cons False show ?thesis by (cases xs) auto
  qed simp
qed simp

definition better :: "string \<Rightarrow> real \<Rightarrow> real \<Rightarrow> bool" where
  "better stat v w \<longleftrightarrow> (if VPRWeightsLowerIsBetter stat then v < w else w < v)"

text \<open>The quantile five steps past the player's percentile, counted from the worst.\<close>

definition five_better :: "real list \<Rightarrow> nat \<Rightarrow> string \<Rightarrow> real" where
  "five_better pv j stat = (if VPRWeightsLowerIsBetter stat then pv ! (95 - j) else pv ! (j + 5))"

lemma goal_value_better:
  assumes "sorted pv" "length pv = 101" "j = getMyPercentile pv myValue stat" "j < 95"
  shows "\<exists>i. getGoalValue pv myValue j stat = Ok (five_better pv j stat, i) \<and> 0 \<le> i \<and> i \<le> 100 \<and>
    better stat (five_better pv j stat) myValue"
proof (cases "VPRWeightsLowerIsBetter stat")
  case True
  then have j: "j = range_until (\<lambda>v. v < myValue) (rev pv) 0 0"
    using assms(3) by (simp add: getMyPercentile_def)
  have "rev pv ! j < myValue"
    using range_until_before_last[of "\<lambda>v. v < myValue" "rev pv"] assms(2,4) j by simp
  then have "pv ! (100 - j) < myValue" using assms(2,4) by (simp add: rev_nth)
  moreover have "pv ! (95 - j) \<le> pv ! (100 - j)"
    using assms(1,2,4) by (intro sorted_nth_mono) auto
  ultimately have v: "pv ! (95 - j) < myValue" by simp
  have i: "int (length pv) - 1 - int j - VPRGoalPercentileTarget = int (95 - j)"
    using assms(2,4) by (simp add: VPRGoalPercentileTarget_def of_nat_diff)
  have "getGoalValue pv myValue j stat = Ok (walk_down pv myValue (pv ! (95 - j)) (int (95 - j)))"
    unfolding getGoalValue_def Let_def i using True assms(2) by (simp add: at_index_def)
  also have "walk_down pv myValue (pv ! (95 - j)) (int (95 - j)) = (pv ! (95 - j), int (95 - j))"
    using v by (subst walk_down.simps) simp
  finally show ?thesis using True v by (simp add: five_better_def better_def)
next
  case False
  then have j: "j = range_until (\<lambda>v. v > myValue) pv 0 0"
    using assms(3) by (simp add: getMyPercentile_def)
  have "pv ! j > myValue"
    using range_until_before_last[of "\<lambda>v. v > myValue" pv] assms(2,4) j by simp
  moreover have "pv ! j \<le> pv ! (j + 5)"
    using assms(1,2,4) by (intro sorted_nth_mono) auto
  ultimately have v: "pv ! (j + 5) > myValue" by simp
  have i: "int j + VPRGoalPercentileTarget = int (j + 5)"
    by (simp add: VPRGoalPercentileTarget_def)
  have "getGoalValue pv myValue j stat = Ok (walk_up pv myValue (pv ! (j + 5)) (int (j + 5)))"
    unfolding getGoalValue_def Let_def i using False assms(2,4) by (simp add: at_index_def del: of_nat_add)
  also have "walk_up pv myValue (pv ! (j + 5)) (int (j + 5)) = (pv ! (j + 5), int (j + 5))"
    using v by (subst walk_up.simps) simp
  finally show ?thesis using False v assms(4) by (simp add: five_better_def better_def)
qed

lemma weights_in:
  assumes "(k, v) \<in> set (weights_of rolePosition)"
  shows "(k, v) \<in> (\<Union>(p, m)\<in>set VPRWeights. set m)"
proof (cases "map_of VPRWeights rolePosition")
  case (Some m)
  with assms map_of_SomeD[OF Some] show ?thesis by (force simp: weights_of_def)
qed (use assms in \<open>simp add: weights_of_def\<close>)

lemma translates:
  assumes "k \<in> fst ` set (weights_of rolePosition)"
  shows "is_ok (TranslateStatToPerGameValue v k)"
proof -
  obtain w where "(k, w) \<in> (\<Union>(p, m)\<in>set VPRWeights. set m)"
    using assms weights_in by fastforce
  then show ?thesis
    by (auto simp: VPRWeights_def common_weights_def TranslateStatToPerGameValue_def)
qed

lemma target_for:
  assumes "k \<in> fst ` set (weights_of rolePosition)" "percentiles k = Some pv" "sorted pv" "length pv = 101"
  shows "\<exists>r. goal_for time erfc sid platform rolePosition n percentiles games k = Ok r \<and>
    (let mine = summonerStatAverage games k; j = getMyPercentile pv mine k in
     (r = None \<longleftrightarrow> j \<ge> 95) \<and>
     (\<forall>g. r = Some g \<longrightarrow> better k (five_better pv j k) mine \<and>
        TranslateStatToPerGameValue (five_better pv j k) k = Ok (gTargetValue g) \<and>
        gComparator g = (if VPRWeightsLowerIsBetter k then LESS_THAN_OR_EQUAL else GREATER_THAN_OR_EQUAL)))"
proof -
  let ?mine = "summonerStatAverage games k"
  let ?j = "getMyPercentile pv ?mine k"
  show ?thesis
  proof (cases "?j \<ge> 95")
    case True
    then show ?thesis using assms(2) by (simp add: goal_for_def VPRGoalPercentileTarget_def)
  next
    case False
    then obtain i where v: "getGoalValue pv ?mine ?j k = Ok (five_better pv ?j k, i)" "0 \<le> i" "i \<le> 100"
      "better k (five_better pv ?j k) ?mine"
      using goal_value_better[OF assms(3,4) refl, of ?mine k] by auto
    obtain a where a: "TranslateStatToPerGameValue (five_better pv ?j k) k = Ok a"
      using translates[OF assms(1)] by (auto simp: is_ok_def)
    obtain b where b: "TranslateStatToPerGameValue (hd (summonerStatValues games k)) k = Ok b"
      using translates[OF assms(1)] by (auto simp: is_ok_def)
    show ?thesis
      using False v a b assms(2) by (simp add: goal_for_def VPRGoalPercentileTarget_def Let_def)
  qed
qed

text \<open>
  C38: for each statistic of a role, with the hundred-and-one sorted quantiles of BigQuery,
  no step panics; a player in the top five percent gets no goal, and every other the goal to
  reach the value five quantiles past his own, which is strictly better than his average.
\<close>

theorem target_is_better:
  assumes "k \<in> fst ` set (weights_of rolePosition)" "percentiles k = Some pv" "sorted pv" "length pv = 101"
  shows "\<exists>r. goal_for time erfc sid platform rolePosition n percentiles games k = Ok r \<and>
    (let mine = summonerStatAverage games k; j = getMyPercentile pv mine k in
     (r = None \<longleftrightarrow> j \<ge> 95) \<and>
     (\<forall>g. r = Some g \<longrightarrow> better k (five_better pv j k) mine \<and>
        TranslateStatToPerGameValue (five_better pv j k) k = Ok (gTargetValue g) \<and>
        gComparator g = (if VPRWeightsLowerIsBetter k then LESS_THAN_OR_EQUAL else GREATER_THAN_OR_EQUAL)))"
  using assms by (rule target_for)

text \<open>
  the goals come in order of falling importance; the importance of a goal lies between
  zero and the weight of its statistic in the role, for the values \<open>erfc\<close> takes.
\<close>

theorem goals_by_importance:
  assumes "findGoalTargets time erfc sid platform rolePosition n percentiles games ks = Ok gs"
    and "\<forall>x. 0 \<le> erfc x \<and> erfc x \<le> 2"
  shows "sorted_wrt (\<lambda>a b. gImportanceWeight a \<ge> gImportanceWeight b) gs \<and>
    (\<forall>g\<in>set gs. 0 \<le> gImportanceWeight g \<and> gImportanceWeight g \<le> weight rolePosition (gUnderlyingStat g)) \<and>
    length gs \<le> length ks"
proof -
  obtain os where os: "map_ok (goal_for time erfc sid platform rolePosition n percentiles games) ks = Ok os"
    "gs = sort_goals (List.map_filter id os)"
    using assms(1) by (auto simp: findGoalTargets_def bind_ok_Ok)
  have w: "0 \<le> weight rolePosition k" for k
  proof (cases "map_of (weights_of rolePosition) k")
    case (Some v)
    then have "(k, v) \<in> (\<Union>(p, m)\<in>set VPRWeights. set m)"
      by (intro weights_in map_of_SomeD)
    then have "0 \<le> v" by (auto simp: VPRWeights_def common_weights_def)
    with Some show ?thesis by (simp add: weight_def)
  qed (simp add: weight_def)
  have p: "0 \<le> probabilityToReach erfc a b c \<and> probabilityToReach erfc a b c \<le> 1" for a b c
    using assms(2) by (auto simp: probabilityToReach_def)
  have one: "0 \<le> gImportanceWeight g \<and> gImportanceWeight g \<le> weight rolePosition (gUnderlyingStat g)"
    if "goal_for time erfc sid platform rolePosition n percentiles games k = Ok (Some g)" for g k
    using that w p
    by (auto simp: goal_for_def Let_def bind_ok_Ok mult_left_le split: option.splits if_splits prod.splits)
  have all: "\<forall>g. Some g \<in> set os \<longrightarrow> 0 \<le> gImportanceWeight g \<and> gImportanceWeight g \<le> weight rolePosition (gUnderlyingStat g)"
    "length os = length ks" if "map_ok (goal_for time erfc sid platform rolePosition n percentiles games) ks = Ok os" for os ks
    using that
  proof (induction ks arbitrary: os)
    case (Cons k ks)
    { case 1 then show ?case using Cons.IH(1) one by (fastforce simp: bind_ok_Ok) }
    { case 2 then show ?case using Cons.IH(2) by (auto simp: bind_ok_Ok) }
  qed simp_all
  have "length (List.map_filter id xs) \<le> length xs" for xs :: "lol_goal option list"
    by (induction xs) (auto simp: List.map_filter_simps split: option.splits)
  then have len: "length gs \<le> length ks" using all(2)[OF os(1)] os(2) by (metis length_sort sort_goals_def)
  have set: "set gs = {g. Some g \<in> set os}"
    by (force simp: os(2) sort_goals_def List.map_filter_def)
  have "sorted (map (\<lambda>g. - gImportanceWeight g) gs)" by (simp add: os(2) sort_goals_def)
  then have "sorted_wrt (\<lambda>a b. gImportanceWeight a \<ge> gImportanceWeight b) gs"
    by (simp add: sorted_wrt_map)
  with len set all(1)[OF os(1)] show ?thesis by auto
qed


subsection \<open>The theorems at concrete inputs\<close>

definition one_game :: "row list" where
  "one_game = [[(''level_6_seconds'', 2)]]"

definition flat :: "string \<Rightarrow> real list option" where
  "flat = (\<lambda>_. Some (replicate 101 1))"

lemma hundred_and_one: "replicate 101 (1 :: real) = 1 # replicate 100 1"
  using replicate_Suc[of 100 "1 :: real"] by simp

lemma one_game_values: "summonerStatAverage one_game ''level_6_seconds'' = 2"
  "getMyPercentile (replicate 101 1) 2 ''level_6_seconds'' = 0"
proof -
  show "summonerStatAverage one_game ''level_6_seconds'' = 2"
    by (simp add: summonerStatAverage_def summonerStatValues_def one_game_def List.map_filter_def)
  show "getMyPercentile (replicate 101 1) 2 ''level_6_seconds'' = 0"
    by (simp add: getMyPercentile_def VPRWeightsLowerIsBetter_def) (simp add: hundred_and_one)
qed

lemma sorted_flat: "sorted (replicate n (1 :: real))"
  by (induction n) auto

lemma target_is_better_witness:
  "\<exists>g. goal_for 5 (\<lambda>_. 1) 7 ''NA1'' ''top'' 3 flat one_game ''level_6_seconds'' = Ok (Some g) \<and>
     gComparator g = LESS_THAN_OR_EQUAL"
proof -
  have "''level_6_seconds'' \<in> fst ` set (weights_of ''top'')"
    by (simp add: weights_of_def VPRWeights_def common_weights_def)
  from target_is_better[OF this, of flat "replicate 101 1" 5 "\<lambda>_. 1" 7 "''NA1''" 3 one_game]
  obtain r where r: "goal_for 5 (\<lambda>_. 1) 7 ''NA1'' ''top'' 3 flat one_game ''level_6_seconds'' = Ok r"
    "r \<noteq> None" "\<forall>g. r = Some g \<longrightarrow> gComparator g = LESS_THAN_OR_EQUAL"
    by (auto simp: one_game_values flat_def sorted_flat Let_def VPRWeightsLowerIsBetter_def)
  then show ?thesis by auto
qed

lemma one_goal:
  "\<exists>g. findGoalTargets 5 (\<lambda>_. 1) 7 ''NA1'' ''top'' 3 flat one_game [''level_6_seconds''] = Ok [g] \<and>
     gUnderlyingStat g = ''level_6_seconds''"
proof -
  have "''level_6_seconds'' \<in> fst ` set (weights_of ''top'')"
    by (simp add: weights_of_def VPRWeights_def common_weights_def)
  from target_for[OF this, of flat "replicate 101 1" 5 "\<lambda>_. 1" 7 "''NA1''" 3 one_game]
  obtain g where g: "goal_for 5 (\<lambda>_. 1) 7 ''NA1'' ''top'' 3 flat one_game ''level_6_seconds'' = Ok (Some g)"
    by (auto simp: one_game_values flat_def sorted_flat Let_def)
  moreover from this have "gUnderlyingStat g = ''level_6_seconds''"
    by (auto simp: goal_for_def Let_def bind_ok_Ok split: option.splits if_splits prod.splits)
  ultimately show ?thesis
    by (simp add: findGoalTargets_def sort_goals_def List.map_filter_def)
qed

lemma goals_by_importance_witness:
  "\<exists>g. findGoalTargets 5 (\<lambda>_. 1) 7 ''NA1'' ''top'' 3 flat one_game [''level_6_seconds''] = Ok [g] \<and>
     0 \<le> gImportanceWeight g \<and> gImportanceWeight g \<le> 5"
proof -
  obtain g where g: "findGoalTargets 5 (\<lambda>_. 1) 7 ''NA1'' ''top'' 3 flat one_game [''level_6_seconds''] = Ok [g]"
    "gUnderlyingStat g = ''level_6_seconds''"
    using one_goal by blast
  with goals_by_importance[OF g(1)] show ?thesis
    by (simp add: weight_def weights_of_def VPRWeights_def common_weights_def)
qed

end
