(* ===== verification/Dispatch.thy ===== *)
theory Dispatch
  imports Users_Service
begin

text \<open>
  The dispatcher of downloaded matches, \<open>loldispatcher-master/dispatch_handler.go\<close>: it reads a
  match, asks for basic statistics of every player, and, when the match was observed, charges
  the players who are users and asks for the extraction of their replay data.

  The lolusers service is reached through the Go interface \<open>LolUsersClient\<close>, here the record
  \<open>lol_users_client\<close> over any state \<open>'s\<close> of the service. Receipts live in the datastore, the two
  queues are lists of published messages, and the file store is a parameter; as before a fate
  decides how each call ends.
\<close>

subsection \<open>Messages\<close>

record match_download =
  mdKey :: string
  mdMatchId :: int
  mdPlatformId :: string
  mdObservedSummonerIds :: "int list"
  mdReplayServer :: string

record basic_ingest =
  biMatchDetailsPath :: string
  biMatchId :: int
  biPlatformId :: string
  biSummonerId :: int

record replay_extract =
  reGameLengthSeconds :: int
  reKey :: string
  reMatchDetailsPath :: string
  reMatchId :: int
  reMatchVersion :: string
  rePlatformId :: string
  reSpectatorServer :: string
  reSummonerIds :: "int list"

definition LolMatchDownload_Valid :: "match_download \<Rightarrow> bool" where
  "LolMatchDownload_Valid m \<longleftrightarrow>
     \<not> (mdMatchId m = 0 \<or> mdPlatformId m = []) \<and>
     \<not> (length (mdObservedSummonerIds m) > 0 \<and> mdKey m = [])"

definition LolBasicStatsIngest_Valid :: "basic_ingest \<Rightarrow> bool" where
  "LolBasicStatsIngest_Valid m \<longleftrightarrow>
     \<not> (biMatchId m = 0 \<or> biPlatformId m = [] \<or> biSummonerId m = 0 \<or> biMatchDetailsPath m = [])"

definition LolReplayDataExtract_Valid :: "replay_extract \<Rightarrow> bool" where
  "LolReplayDataExtract_Valid m \<longleftrightarrow>
     \<not> (reMatchId m = 0 \<or> rePlatformId m = [] \<or> reKey m = [] \<or> reGameLengthSeconds m = 0 \<or>
        length (reSummonerIds m) = 0)"

text \<open>The fields of the match detail that the dispatcher reads; \<open>Players\<close> are their summoner ids.\<close>

record match_detail =
  MatchDuration :: int
  MatchID :: int
  MatchVersion :: string
  MatchPlatform :: string
  Players :: "int list"

subsection \<open>State and parameters\<close>

record 's lol_users_client =
  lu_List :: "string \<Rightarrow> list_request \<Rightarrow> 's \<Rightarrow> (string + pb_user list) \<times> 's"
  lu_Adjust :: "string \<Rightarrow> points_request \<Rightarrow> 's \<Rightarrow> string option \<times> 's"

record match_receipt =
  rcMatchID :: int
  rcPlatformID :: string
  rcSummonerID :: int

record 's world =
  lu_state :: 's
  receipts :: "(string \<times> match_receipt) list"
  eloTopic :: "replay_extract list"
  basicIngestTopic :: "basic_ingest list"
  nops :: nat

record 's dispatch_handler =
  luClient :: "'s lol_users_client"
  matchDir :: string
  internalKey :: string
  matchCostVP :: int
  op_fate :: "nat \<Rightarrow> fate"
  read_file :: "nat \<Rightarrow> string \<Rightarrow> string + match_detail"
  ctx_Err :: "nat \<Rightarrow> string option"

definition next_op :: "'s world \<Rightarrow> 's world" where
  "next_op w = w\<lparr>nops := Suc (nops w)\<rparr>"

definition error_of :: "fate \<Rightarrow> string option" where
  "error_of f = (case f of Done \<Rightarrow> None | Refused e \<Rightarrow> Some e | Late e \<Rightarrow> Some e)"

text \<open>One call on a queue or the datastore.\<close>

definition call_op ::
  "'s dispatch_handler \<Rightarrow> ('s world \<Rightarrow> 's world) \<Rightarrow> 's world \<Rightarrow> string option \<times> 's world" where
  "call_op h eff w =
     (let f = op_fate h (nops w) in (error_of f, next_op (effect_of f eff w)))"

definition on_users :: "('s \<Rightarrow> 'r \<times> 's) \<Rightarrow> 's world \<Rightarrow> 'r \<times> 's world" where
  "on_users f w = (case f (lu_state w) of (r, s) \<Rightarrow> (r, w\<lparr>lu_state := s\<rparr>))"

subsection \<open>Parts of the handler\<close>

fun unique_from :: "int list \<Rightarrow> int list \<Rightarrow> int list" where
  "unique_from seen [] = []"
| "unique_from seen (i # is) =
     (if i \<in> set seen then unique_from seen is else i # unique_from (i # seen) is)"

definition uniqueInts :: "int list \<Rightarrow> int list" where
  "uniqueInts is = unique_from [] is"

definition receipt_key :: "string \<Rightarrow> int \<Rightarrow> int \<Rightarrow> string" where
  "receipt_key platformID matchID summonerID =
     show_int matchID @ ''-'' @ platformID @ ''-'' @ show_int summonerID"

text \<open>\<open>SaveMatchReceipt\<close>: whether the receipt was there before, or an error.\<close>

definition SaveMatchReceipt ::
  "'s dispatch_handler \<Rightarrow> string \<Rightarrow> int \<Rightarrow> int \<Rightarrow> 's world \<Rightarrow> (string + bool) \<times> 's world" where
  "SaveMatchReceipt h platformID matchID summonerID w =
     (let key = receipt_key platformID matchID summonerID in
      case call_op h (\<lambda>w. w) w of
        (Some e, w1) \<Rightarrow> (Inl e, w1)
      | (None, w1) \<Rightarrow>
      (case map_of (receipts w1) key of
         Some r \<Rightarrow> (Inr True, w1)
       | None \<Rightarrow>
      (let r = \<lparr>rcMatchID = matchID, rcPlatformID = platformID, rcSummonerID = summonerID\<rparr> in
       case call_op h (\<lambda>w. w\<lparr>receipts := AList.update key r (receipts w)\<rparr>) w1 of
         (Some e, w2) \<Rightarrow> (Inl e, w2)
       | (None, w2) \<Rightarrow> (Inr False, w2))))"

text \<open>The loop over the users of the match: the summoners to extract, or the error that ends it.\<close>

fun elogen_loop ::
  "'s dispatch_handler \<Rightarrow> match_detail \<Rightarrow> pb_user list \<Rightarrow> int list \<Rightarrow> 's world \<Rightarrow>
     (string + int list) \<times> 's world" where
  "elogen_loop h md [] summonerIDs w = (Inr summonerIDs, w)"
| "elogen_loop h md (u # us) summonerIDs w =
     (if pbVantagePointBalance u < matchCostVP h then elogen_loop h md us summonerIDs w
      else case parse_int (pbSummonerId u) of
        None \<Rightarrow> elogen_loop h md us summonerIDs w
      | Some intSummoner \<Rightarrow>
     (case SaveMatchReceipt h (MatchPlatform md) (MatchID md) intSummoner w of
        (Inl e, w1) \<Rightarrow> (Inl e, w1)
      | (Inr True, w1) \<Rightarrow> elogen_loop h md us (summonerIDs @ [intSummoner]) w1
      | (Inr False, w1) \<Rightarrow>
     (case on_users (lu_Adjust (luClient h) (internalKey h)
             \<lparr>vpUserId = pbUserId u, vpAmount = 0 - matchCostVP h, vpAbsolute = False\<rparr>) w1 of
        (Some e, w2) \<Rightarrow> (Inl e, w2)
      | (None, w2) \<Rightarrow> elogen_loop h md us (summonerIDs @ [intSummoner]) w2)))"

definition sendElogen ::
  "'s dispatch_handler \<Rightarrow> pb_user list \<Rightarrow> match_detail \<Rightarrow> string \<Rightarrow> string \<Rightarrow> string \<Rightarrow> 's world \<Rightarrow>
     string option \<times> 's world" where
  "sendElogen h users md matchDetailsPath encryptionKey spectatorServer w =
     (case elogen_loop h md users [] w of
        (Inl e, w1) \<Rightarrow> (Some e, w1)
      | (Inr summonerIDs, w1) \<Rightarrow>
          if length summonerIDs = 0 then (None, w1)
          else (let msg = \<lparr>reGameLengthSeconds = MatchDuration md, reKey = encryptionKey,
                  reMatchDetailsPath = matchDetailsPath, reMatchId = MatchID md,
                  reMatchVersion = MatchVersion md, rePlatformId = MatchPlatform md,
                  reSpectatorServer = spectatorServer, reSummonerIds = uniqueInts summonerIDs\<rparr> in
            if \<not> LolReplayDataExtract_Valid msg then (Some ''invalid LolReplayDataExtract'', w1)
            else call_op h (\<lambda>w. w\<lparr>eloTopic := eloTopic w @ [msg]\<rparr>) w1))"

fun basic_loop ::
  "'s dispatch_handler \<Rightarrow> int \<Rightarrow> string \<Rightarrow> string \<Rightarrow> int list \<Rightarrow> 's world \<Rightarrow> string option \<times> 's world" where
  "basic_loop h matchID platformID path [] w = (None, w)"
| "basic_loop h matchID platformID path (sID # rest) w =
     (let msg = \<lparr>biMatchDetailsPath = path, biMatchId = matchID, biPlatformId = platformID,
                 biSummonerId = sID\<rparr> in
      if \<not> LolBasicStatsIngest_Valid msg then (Some ''invalid LolBasicStatsIngest'', w)
      else case call_op h (\<lambda>w. w\<lparr>basicIngestTopic := basicIngestTopic w @ [msg]\<rparr>) w of
             (Some e, w1) \<Rightarrow> (Some e, w1)
           | (None, w1) \<Rightarrow> basic_loop h matchID platformID path rest w1)"

definition sendBasicStats ::
  "'s dispatch_handler \<Rightarrow> match_detail \<Rightarrow> int \<Rightarrow> string \<Rightarrow> string \<Rightarrow> 's world \<Rightarrow> string option \<times> 's world"
where
  "sendBasicStats h md matchID platformID matchDetailPath w =
     basic_loop h matchID platformID matchDetailPath (uniqueInts (Players md)) w"

definition getLolUsers ::
  "'s dispatch_handler \<Rightarrow> match_detail \<Rightarrow> string \<Rightarrow> 's world \<Rightarrow> (string + pb_user list) \<times> 's world" where
  "getLolUsers h md region w =
     on_users (lu_List (luClient h) (internalKey h)
       \<lparr>lrUserId = [], lrSummonerIds = Players md, lrRegion = region_string region\<rparr>) w"

definition getMatch ::
  "'s dispatch_handler \<Rightarrow> string \<Rightarrow> 's world \<Rightarrow> (string + match_detail) \<times> 's world" where
  "getMatch h path w = (read_file h (nops w) path, next_op w)"

definition remotePath :: "'s dispatch_handler \<Rightarrow> match_download \<Rightarrow> string" where
  "remotePath h msg =
     matchDir h @ ''/'' @ show_int (mdMatchId msg) @ ''-'' @
     region_string (RegionFromPlatform (PlatformFromString (mdPlatformId msg))) @ ''.json''"

subsection \<open>The handler\<close>

text \<open>
  \<open>Handle\<close> for a message that was decoded; data that is no JSON is dropped without error before.
\<close>

definition Handle ::
  "'s dispatch_handler \<Rightarrow> match_download option \<Rightarrow> 's world \<Rightarrow> string option \<times> 's world" where
  "Handle h data w =
     (case data of
        None \<Rightarrow> (None, w)
      | Some msg \<Rightarrow>
      if \<not> LolMatchDownload_Valid msg then (Some ''invalid LolMatchDownload'', w)
      else
     (let platform = PlatformFromString (mdPlatformId msg);
          region = RegionFromPlatform platform;
          path = remotePath h msg in
      case getMatch h path w of
        (Inl e, w1) \<Rightarrow> (Some e, w1)
      | (Inr md, w1) \<Rightarrow>
      if MatchDuration md < 600 then (None, w1)
      else if length (Players md) \<noteq> 10 then (None, w1)
      else case getLolUsers h md region w1 of
        (Inl e, w2) \<Rightarrow> (Some e, w2)
      | (Inr lolUsers, w2) \<Rightarrow>
     (case sendBasicStats h md (mdMatchId msg) platform path w2 of
        (Some e, w3) \<Rightarrow> (Some e, w3)
      | (None, w3) \<Rightarrow>
     (case (if length (mdObservedSummonerIds msg) > 0 \<and> mdKey msg \<noteq> []
            then sendElogen h lolUsers md path (mdKey msg) (mdReplayServer msg) w3 else (None, w3)) of
        (Some e, w4) \<Rightarrow> (Some e, w4)
      | (None, w4) \<Rightarrow> (ctx_Err h (nops w4), w4)))))"

text \<open>
  The runner hands over one message at a time; a message that ended in an error comes again.
  Any list of deliveries therefore covers every order of messages and retries.
\<close>

fun deliveries :: "'s dispatch_handler \<Rightarrow> match_download option list \<Rightarrow> 's world \<Rightarrow> 's world" where
  "deliveries h [] w = w"
| "deliveries h (d # ds) w = deliveries h ds (snd (Handle h d w))"

subsection \<open>The client of the lolusers service\<close>

text \<open>
  The gRPC client: a call may not reach the service, or its answer may be lost. The state is
  the service's with the number of calls made.
\<close>

definition rpc :: "(nat \<Rightarrow> fate) \<Rightarrow> ('s \<Rightarrow> 'r \<times> 's) \<Rightarrow> (string \<Rightarrow> 'r) \<Rightarrow> 's \<times> nat \<Rightarrow> 'r \<times> ('s \<times> nat)" where
  "rpc rpc_fate f fail = (\<lambda>(s, n).
     (case rpc_fate n of
        Done \<Rightarrow> (case f s of (r, s') \<Rightarrow> (r, (s', Suc n)))
      | Refused e \<Rightarrow> (fail e, (s, Suc n))
      | Late e \<Rightarrow> (fail e, (snd (f s), Suc n))))"

definition users_client :: "'c peers \<Rightarrow> (nat \<Rightarrow> fate) \<Rightarrow> ('c service \<times> nat) lol_users_client" where
  "users_client p rpc_fate =
     \<lparr>lu_List = \<lambda>token req. rpc rpc_fate (List_users p token req) Inl,
      lu_Adjust = \<lambda>token req. rpc rpc_fate (AdjustVantagePoints p token req) Some\<rparr>"

end
