(* ===== verification/Goals_Server.thy ===== *)
theory Goals_Server
  imports Goals_Create Dispatch
begin

text \<open>
  The goals service, \<open>lolstats-master/server/lolgoalsserver.go\<close>: creating goals from statistics
  or by hand, reading, deleting and changing their state, for callers who own the summoner.

  The goals are entities of the datastore under the names of their keys; \<open>goals_server\<close> holds the
  parameters: authorisation, the client of the lolusers service, the datastore (the fates of calls,
  the points at which queries break off, and the clock that stamps what is stored), and the
  answers of BigQuery.
\<close>

subsection \<open>State and parameters\<close>

record 's goal_world =
  goals :: "(string \<times> lol_goal) list"
  gw_users :: 's
  gw_calls :: nat

record gcd_client =
  gs_fate :: "nat \<Rightarrow> fate"
  gs_broken_off :: "nat \<Rightarrow> (nat \<times> string) option"
  gs_clock :: "nat \<Rightarrow> int"

record 's goals_server =
  AuthClient :: "string \<Rightarrow> string + claims"
  gs_users_client :: "'s lol_users_client"
  ProjectID :: string
  DsClient :: gcd_client
  gs_percentiles :: "nat \<Rightarrow> string \<Rightarrow> string + (string \<Rightarrow> real list option)"
  gs_games :: "nat \<Rightarrow> int \<Rightarrow> string \<Rightarrow> int \<Rightarrow> string + row list"
  gs_erfc :: "real \<Rightarrow> real"
  gs_order :: "row list \<Rightarrow> string list"

definition gw_tick :: "'s goal_world \<Rightarrow> 's goal_world" where
  "gw_tick w = w\<lparr>gw_calls := Suc (gw_calls w)\<rparr>"

text \<open>A query by key: what its iterator yields, and the error that ends it, \<open>None\<close> for \<open>Done\<close>.\<close>

definition run_query ::
  "gcd_client \<Rightarrow> (string \<Rightarrow> lol_goal \<Rightarrow> bool) \<Rightarrow> 's goal_world \<Rightarrow>
     ((string \<times> lol_goal) list \<times> string option) \<times> 's goal_world" where
  "run_query c P w =
     (let found = filter (\<lambda>(k, g). P k g) (goals w) in
      (case gs_broken_off c (gw_calls w) of
         None \<Rightarrow> (found, None)
       | Some (n, e) \<Rightarrow> (take n found, Some e), gw_tick w))"

definition gcd_call ::
  "gcd_client \<Rightarrow> ('s goal_world \<Rightarrow> 's goal_world) \<Rightarrow> 's goal_world \<Rightarrow> string option \<times> 's goal_world" where
  "gcd_call c eff w =
     (let f = gs_fate c (gw_calls w) in (error_of f, gw_tick (effect_of f eff w)))"

definition createGoalInGcd ::
  "'s goals_server \<Rightarrow> string \<Rightarrow> lol_goal \<Rightarrow> 's goal_world \<Rightarrow> string option \<times> 's goal_world" where
  "createGoalInGcd h keyStr goal w =
     gcd_call (DsClient h) (\<lambda>w. w\<lparr>goals := AList.update keyStr (Save_goal (gs_clock (DsClient h) (gw_calls w)) goal) (goals w)\<rparr>) w"

text \<open>Whether an entity with this key exists, by a query that reads at most one.\<close>

definition key_exists :: "'s goals_server \<Rightarrow> string \<Rightarrow> 's goal_world \<Rightarrow> (string + bool) \<times> 's goal_world" where
  "key_exists h key w =
     (case run_query (DsClient h) (\<lambda>k g. k = key) w of
        ((_ # _, _), w1) \<Rightarrow> (Inr True, w1)
      | (([], None), w1) \<Rightarrow> (Inr False, w1)
      | (([], Some e), w1) \<Rightarrow> (Inl e, w1))"

subsection \<open>Access\<close>

definition validateCtx :: "'s goals_server \<Rightarrow> string \<Rightarrow> string \<Rightarrow> string + claims option" where
  "validateCtx h priv token =
     (if ProjectID h = ''vs-dev'' then Inr None
      else case ValidateCtxClaims (AuthClient h) [priv] token of Inl e \<Rightarrow> Inl e | Inr c \<Rightarrow> Inr (Some c))"

definition validateSummonerAccess ::
  "'s goals_server \<Rightarrow> string \<Rightarrow> claims option \<Rightarrow> int \<Rightarrow> string \<Rightarrow> 's goal_world \<Rightarrow>
     string option \<times> 's goal_world" where
  "validateSummonerAccess h token c summonerID platformID w =
     (if ProjectID h = ''vs-dev'' then (None, w)
      else case lu_List (gs_users_client h) token
             \<lparr>lrUserId = Sub (the c), lrSummonerIds = [], lrRegion = []\<rparr> (gw_users w) of
        (Inl e, s) \<Rightarrow> (Some e, w\<lparr>gw_users := s\<rparr>)
      | (Inr us, s) \<Rightarrow>
         (let region = RegionFromPlatform (PlatformFromString platformID) in
          (if list_ex (\<lambda>u. pbSummonerId u = show_int summonerID \<and> pbRegion u = region_string region) us
           then None else Some ''user not allowed to request data for summoner'',
           w\<lparr>gw_users := s\<rparr>)))"

text \<open>The checks every operation begins with; \<open>valid\<close> is the check of the request.\<close>

definition checked ::
  "'s goals_server \<Rightarrow> string \<Rightarrow> bool \<Rightarrow> int \<Rightarrow> string \<Rightarrow> 's goal_world \<Rightarrow> string option \<times> 's goal_world" where
  "checked h token valid summonerID platform w =
     (case validateCtx h LOLstatsRead token of
        Inl e \<Rightarrow> (Some e, w)
      | Inr c \<Rightarrow>
          if \<not> valid then (Some ''invalid request'', w)
          else validateSummonerAccess h token c summonerID platform w)"

subsection \<open>Creating goals\<close>

definition goals_left :: "create_stats_request \<Rightarrow> (int \<times> int) list" where
  "goals_left req =
     fold (\<lambda>cat m. if cat \<noteq> CATEGORY_NONE then AList.update cat (csNumGoals req) m else m)
       (csCategories req) []"

fun create_loop ::
  "'s goals_server \<Rightarrow> lol_goal list \<Rightarrow> (int \<times> int) list \<Rightarrow> int \<Rightarrow> 's goal_world \<Rightarrow>
     (string + int) \<times> 's goal_world" where
  "create_loop h [] goalsAdded created w = (Inr created, w)"
| "create_loop h (g # gs) goalsAdded created w =
     (let cat = enum_value GoalCategory_name (gCategory g) in
      if get0 goalsAdded cat \<le> 0 then create_loop h gs goalsAdded created w
      else case key_exists h (GenerateId g) w of
        (Inl e, w1) \<Rightarrow> (Inl e, w1)
      | (Inr True, w1) \<Rightarrow> create_loop h gs goalsAdded created w1
      | (Inr False, w1) \<Rightarrow>
     (case createGoalInGcd h (GenerateId g) g w1 of
        (Some e, w2) \<Rightarrow> (Inl e, w2)
      | (None, w2) \<Rightarrow>
     (let goalsAdded' = AList.update cat (get0 goalsAdded cat - 1) goalsAdded in
      if \<forall>(c, v) \<in> set goalsAdded'. \<not> v > 0 then (Inr (created + 1), w2)
      else create_loop h gs goalsAdded' (created + 1) w2)))"

definition CreateStats ::
  "'s goals_server \<Rightarrow> string \<Rightarrow> create_stats_request \<Rightarrow> 's goal_world \<Rightarrow> int outcome \<times> 's goal_world" where
  "CreateStats h token req w =
     (case checked h token (GoalCreateStatsRequest_Valid req) (csSummonerId req) (csPlatform req) w of
        (Some e, w1) \<Rightarrow> (Err e, w1)
      | (None, w1) \<Rightarrow>
     (case gs_percentiles h (gw_calls w1) (csRolePosition req) of
        Inl e \<Rightarrow> (Err e, gw_tick w1)
      | Inr percentiles \<Rightarrow>
     (let w2 = gw_tick w1 in
      case gs_games h (gw_calls w2) (csSummonerId req) (csRolePosition req) 5 of
        Inl e \<Rightarrow> (Err e, gw_tick w2)
      | Inr games \<Rightarrow>
     (let w3 = gw_tick w2 in
      case findGoalTargets (gs_clock (DsClient h) (gw_calls w3)) (gs_erfc h) (csSummonerId req) (csPlatform req)
             (csRolePosition req) (csTargetAchievementCount req) percentiles games (gs_order h games) of
        Err e \<Rightarrow> (Err e, w3)
      | Panic e \<Rightarrow> (Panic e, w3)
      | Ok gs \<Rightarrow>
         (case create_loop h gs (goals_left req) 0 w3 of
            (Inl e, w4) \<Rightarrow> (Err e, w4)
          | (Inr n, w4) \<Rightarrow> (Ok n, w4))))))"

definition CreateCustom ::
  "'s goals_server \<Rightarrow> string \<Rightarrow> create_custom_request \<Rightarrow> 's goal_world \<Rightarrow> string option \<times> 's goal_world" where
  "CreateCustom h token req w =
     (case checked h token (GoalCreateCustomRequest_Valid req) (ccSummonerId req) (ccPlatform req) w of
        (Some e, w1) \<Rightarrow> (Some e, w1)
      | (None, w1) \<Rightarrow>
     (let goal = no_goal\<lparr>gCreated := gs_clock (DsClient h) (gw_calls w1), gSummonerID := ccSummonerId req,
            gPlatform := ccPlatform req, gUnderlyingStat := ccUnderlyingStat req,
            gStatus := STATUS_NEW, gRolePosition := ccRolePosition req\<rparr> in
      case key_exists h (GenerateId goal) w1 of
        (Inl e, w2) \<Rightarrow> (Some e, w2)
      | (Inr True, w2) \<Rightarrow> (Some ''goal already exists'', w2)
      | (Inr False, w2) \<Rightarrow> createGoalInGcd h (GenerateId goal) goal w2))"

subsection \<open>Reading, deleting, changing\<close>

definition get_prefix :: "get_request \<Rightarrow> string" where
  "get_prefix req =
     (let p1 = show_int (ggSummonerId req) @ ''-'' @ ggPlatform req in
      if ggRolePosition req \<noteq> [] then
        (let p2 = p1 @ ''-'' @ ggRolePosition req in
         if ggChampionId req \<noteq> 0 then p2 @ ''-'' @ show_int (ggChampionId req) else p2)
      else p1)"

definition Get ::
  "'s goals_server \<Rightarrow> string \<Rightarrow> get_request \<Rightarrow> 's goal_world \<Rightarrow> (string + proto_goal list) \<times> 's goal_world" where
  "Get h token req w =
     (case checked h token (GoalGetRequest_Valid req) (ggSummonerId req) (ggPlatform req) w of
        (Some e, w1) \<Rightarrow> (Inl e, w1)
      | (None, w1) \<Rightarrow>
     (case run_query (DsClient h) (\<lambda>k g. key_range (get_prefix req) k \<and>
             (ggStatus req \<noteq> STATUS_NONE \<longrightarrow> gStatus g = enum_name GoalStatus_name (ggStatus req))) w1 of
        ((found, Some e), w2) \<Rightarrow> (Inl e, w2)
      | ((found, None), w2) \<Rightarrow> (Inr (map (\<lambda>(k, g). ToProtoGoal g) found), w2)))"

definition Delete ::
  "'s goals_server \<Rightarrow> string \<Rightarrow> goal_request \<Rightarrow> 's goal_world \<Rightarrow> string option \<times> 's goal_world" where
  "Delete h token req w =
     (case checked h token (GoalDeleteRequest_Valid req) (grSummonerId req) (grPlatform req) w of
        (Some e, w1) \<Rightarrow> (Some e, w1)
      | (None, w1) \<Rightarrow> gcd_call (DsClient h) (\<lambda>w. w\<lparr>goals := AList.delete (grGoalId req) (goals w)\<rparr>) w1)"

definition UpdateStatus ::
  "'s goals_server \<Rightarrow> string \<Rightarrow> goal_request \<Rightarrow> int \<Rightarrow> 's goal_world \<Rightarrow> string option \<times> 's goal_world" where
  "UpdateStatus h token req status w =
     (case checked h token (GoalUpdateStatusRequest_Valid req status) (grSummonerId req) (grPlatform req) w of
        (Some e, w1) \<Rightarrow> (Some e, w1)
      | (None, w1) \<Rightarrow>
     (case gcd_call (DsClient h) (\<lambda>w. w) w1 of
        (Some e, w2) \<Rightarrow> (Some e, w2)
      | (None, w2) \<Rightarrow>
     (case map_of (goals w2) (grGoalId req) of
        None \<Rightarrow> (Some ''datastore: no such entity'', w2)
      | Some goal \<Rightarrow>
          createGoalInGcd h (grGoalId req) (goal\<lparr>gStatus := enum_name GoalStatus_name status\<rparr>) w2)))"

end
