(* ===== verification/Users_Facts.thy ===== *)
theory Users_Facts
  imports Users_Service
begin

text \<open>
  What the lolusers service guarantees: balances stay in range through every operation and
  every failure of the datastore, an adjustment changes one balance by exactly the amount or
  nothing at all, a user who is created starts with 400 points, and no user has two records as
  long as requests carry no keys of their own. Two theorems show what happens otherwise.
\<close>

subsection \<open>The well-formed store\<close>

definition row_ok :: "string \<times> lol_user \<Rightarrow> bool" where
  "row_ok = (\<lambda>(k, u). k \<noteq> [] \<and> ID u = [] \<and> 0 \<le> VantagePointBalance u \<and> is_int64 (VantagePointBalance u))"

definition store_wf :: "db \<Rightarrow> bool" where
  "store_wf w \<longleftrightarrow> distinct (map fst (rows w)) \<and> list_all row_ok (rows w)"

lemma set_update_rows:
  "x \<in> set (AList.update k v xs) \<Longrightarrow> x = (k, v) \<or> x \<in> set xs"
  by (induction xs) (auto split: if_splits)

lemma store_wf_put:
  "store_wf w \<Longrightarrow> row_ok (key, u\<lparr>ID := []\<rparr>) \<Longrightarrow> store_wf (put_row key u w)"
  by (auto simp: store_wf_def put_row_def list_all_iff distinct_update dest!: set_update_rows)

lemma store_wf_lookup:
  "store_wf w \<Longrightarrow> map_of (rows w) k = Some u \<Longrightarrow> row_ok (k, u)"
  by (auto simp: store_wf_def list_all_iff dest: map_of_SomeD)

lemma store_wf_rows: "rows w = rows w' \<Longrightarrow> store_wf w = store_wf w'"
  by (simp add: store_wf_def)

lemma is_int64_0 [simp]: "is_int64 0" "is_int64 400"
  by (simp_all add: is_int64_def int64_min_def int64_max_def)

lemma ID_same [simp]: "u\<lparr>ID := i, ID := j\<rparr> = u\<lparr>ID := j\<rparr>" "ID u = [] \<Longrightarrow> u\<lparr>ID := []\<rparr> = u"
  by simp_all

subsection \<open>Queries\<close>

lemma fetch_rows [simp]: "rows (snd (fetchLolUserByUserId ds uid w)) = rows w"
  by (simp add: fetchLolUserByUserId_def GetAll_def Let_def split_def)

lemma fetch_each_rows: "rows (snd (fetch_each ds q ss acc w)) = rows w"
  by (induction ds q ss acc w rule: fetch_each.induct)
    (auto simp: GetAll_def Let_def split: prod.splits option.splits)

lemma fetch_summoners_rows [simp]: "rows (snd (fetchLolUsersBySummonerIds ds r ss w)) = rows w"
  by (auto simp: fetchLolUsersBySummonerIds_def GetAll_def Let_def fetch_each_rows
      split: prod.splits option.splits)

lemma fetch_found:
  assumes "fetchLolUserByUserId ds uid w = (Inr us, w1)" "us \<noteq> []"
  obtains k u where "us = [u\<lparr>ID := k\<rparr>]" "(k, u) \<in> set (rows w)" "UserID u = uid" "uid \<noteq> []"
proof -
  obtain res err w0 where g: "GetAll ds (\<lambda>u. UserID u = uid) w = ((res, err), w0)"
    by (metis prod.exhaust)
  with assms have "length res = 1" "us = map named res" "uid \<noteq> []"
    by (cases res; auto simp: fetchLolUserByUserId_def split: if_splits option.splits)+
  then obtain k u where r: "res = [(k, u)]" "us = [u\<lparr>ID := k\<rparr>]" "uid \<noteq> []"
    by (cases res) (auto simp: named_def)
  moreover have "set res \<subseteq> {x \<in> set (rows w). UserID (snd x) = uid}"
    using g by (auto simp: GetAll_def Let_def split: option.splits dest: in_set_takeD)
  ultimately show ?thesis by (intro that) auto
qed

lemma fetch_each_found:
  assumes "fetch_each ds q ss acc w = (Inr us, w')" "u \<in> set us"
  shows "u \<in> set acc \<or> (\<exists>k v s. u = v\<lparr>ID := k\<rparr> \<and> (k, v) \<in> set (rows w) \<and> s \<in> set ss \<and>
           q v \<and> SummonerID v = show_int s)"
  using assms
proof (induction ds q ss acc w rule: fetch_each.induct)
  case (2 ds q s ss acc w)
  obtain res where g: "GetAll ds (\<lambda>u. q u \<and> SummonerID u = show_int s) w = ((res, None), tick w)"
    using 2(2) by (auto simp: GetAll_def Let_def split: option.splits prod.splits)
  have r: "set res \<subseteq> {x \<in> set (rows w). q (snd x) \<and> SummonerID (snd x) = show_int s}"
    using g by (auto simp: GetAll_def Let_def split: option.splits)
  from 2(2) g have "fetch_each ds q ss (acc @ map named res) (tick w) = (Inr us, w')" by simp
  from "2.IH"[OF g[symmetric] refl refl this 2(3)] r
  show ?case by (fastforce simp: named_def)
qed auto

subsection \<open>Writes\<close>

lemma tx_get_rows [simp]: "rows (snd (tx_get ds key w)) = rows w"
  by (simp add: tx_get_def)

definition stored_balance :: "db \<Rightarrow> string \<Rightarrow> int" where
  "stored_balance w key = (case map_of (rows w) key of Some u \<Rightarrow> VantagePointBalance u | None \<Rightarrow> 0)"

lemma putLolUserDetails_cases:
  assumes "putLolUserDetails ds key l w = (r, w1)"
  shows "rows w1 = rows w \<and>
    (\<forall>x. r = Inr x \<longrightarrow> x = l\<lparr>VantagePointBalance := (if ID l = [] then 400 else stored_balance w key)\<rparr>)"
  using assms
  by (auto simp: putLolUserDetails_def tx_get_def stored_balance_def no_user_def Let_def
      split: fate.splits option.splits got.splits)

lemma putLolUserPoints_cases:
  assumes "putLolUserPoints ds key a ab w = (r, w1)"
  shows "rows w1 = rows w \<and>
    (\<forall>x. r = Inr x \<longrightarrow> (\<exists>u. map_of (rows w) key = Some u \<and>
       x = u\<lparr>VantagePointBalance := (if ab then a else add64 (VantagePointBalance u) a)\<rparr> \<and>
       0 \<le> VantagePointBalance x))"
  using assms
  by (auto simp: putLolUserPoints_def tx_get_def Let_def
      split: fate.splits option.splits got.splits if_splits)

lemma commit_cases:
  assumes "commit ds key b = (r, w')" "b = (rb, w1)" "rows w1 = rows w"
  shows "(rows w' = rows w \<and> (\<forall>x. r \<noteq> Inr x)) \<or>
    (\<exists>x. rb = Inr x \<and> rows w' = AList.update key (x\<lparr>ID := []\<rparr>) (rows w) \<and> (\<forall>y. r = Inr y \<longrightarrow> y = x))"
  using assms
  by (cases rb; cases "call_fate ds (ncalls w1)") (auto simp: commit_def put_row_def Let_def)

subsection \<open>What an operation writes\<close>

text \<open>
  A store operation either leaves the rows as they are and reports an error, or it has written
  one row. The error of a write whose answer was lost is one of the second kind.
\<close>

definition wrote :: "db \<Rightarrow> db \<Rightarrow> string \<Rightarrow> lol_user \<Rightarrow> bool" where
  "wrote w w' key x \<longleftrightarrow> key \<noteq> [] \<and> rows w' = AList.update key (x\<lparr>ID := []\<rparr>) (rows w)"

lemma key_name_ne [simp]: "show_int i \<noteq> []"
  by (simp add: show_int_def)

lemma putLolUser_details:
  assumes "putLolUser ds l 0 False w = (r, w')"
  shows "rows w' = rows w \<and> (\<forall>x. r \<noteq> Inr x) \<or>
    (\<exists>key x. wrote w w' key x \<and> (ID l \<noteq> [] \<longrightarrow> key = ID l) \<and>
       x = l\<lparr>VantagePointBalance := (if ID l = [] then 400 else stored_balance w key)\<rparr> \<and>
       (\<forall>y. r = Inr y \<longrightarrow> y = x))"
proof -
  obtain k w1 where key: "(if ID l = [] then allocateKey ds w else (Inr (ID l), w)) = (k, w1)"
    by (metis prod.exhaust)
  then have w1: "rows w1 = rows w" by (auto simp: allocateKey_def split: if_splits)
  show ?thesis
  proof (cases k)
    case (Inl e)
    with assms key w1 show ?thesis by (auto simp: putLolUser_def)
  next
    case (Inr name)
    obtain b w2 where b: "putLolUserDetails ds name l w1 = (b, w2)" by (metis prod.exhaust)
    from key Inr have n: "name \<noteq> []" "ID l \<noteq> [] \<longrightarrow> name = ID l"
      by (auto simp: allocateKey_def split: if_splits)
    have c: "commit ds name (b, w2) = (r, w')"
      using assms key Inr b by (simp add: putLolUser_def)
    have d: "rows w2 = rows w1" "\<And>x. b = Inr x \<Longrightarrow>
        x = l\<lparr>VantagePointBalance := (if ID l = [] then 400 else stored_balance w1 name)\<rparr>"
      using putLolUserDetails_cases[OF b] by blast+
    have s: "stored_balance w1 name = stored_balance w name"
      using w1 by (simp add: stored_balance_def)
    show ?thesis
      using commit_cases[OF c refl refl]
    proof (elim disjE conjE exE)
      assume "rows w' = rows w2" "\<forall>x. r \<noteq> Inr x"
      then show ?thesis using d(1) w1 by simp
    next
      fix x assume x: "b = Inr x" "rows w' = AList.update name (x\<lparr>ID := []\<rparr>) (rows w2)"
        "\<forall>y. r = Inr y \<longrightarrow> y = x"
      have "wrote w w' name x" using x(2) d(1) w1 n(1) by (simp add: wrote_def)
      moreover have "x = l\<lparr>VantagePointBalance := (if ID l = [] then 400 else stored_balance w name)\<rparr>"
        using d(2)[OF x(1)] s by simp
      ultimately show ?thesis using x(3) n(2) by blast
    qed
  qed
qed

lemma putLolUser_points:
  assumes "putLolUser ds l a ab w = (r, w')" "a \<noteq> 0 \<or> ab" "ID l \<noteq> []"
  shows "rows w' = rows w \<and> (\<forall>x. r \<noteq> Inr x) \<or>
    (\<exists>u x. map_of (rows w) (ID l) = Some u \<and> wrote w w' (ID l) x \<and>
       x = u\<lparr>VantagePointBalance := (if ab then a else add64 (VantagePointBalance u) a)\<rparr> \<and>
       0 \<le> VantagePointBalance x)"
proof -
  obtain b w2 where b: "putLolUserPoints ds (ID l) a ab w = (b, w2)" by (metis prod.exhaust)
  obtain c w3 where c: "commit ds (ID l) (b, w2) = (c, w3)" by (metis prod.exhaust)
  have r: "w' = w3" "\<And>x. r = Inr x \<Longrightarrow> \<exists>y. c = Inr y"
    using assms b c by (auto simp: putLolUser_def split: sum.splits)
  note p = putLolUserPoints_cases[OF b]
  show ?thesis
    using commit_cases[OF c refl refl]
  proof (elim disjE conjE exE)
    assume "rows w3 = rows w2" "\<forall>x. c \<noteq> Inr x"
    then have "rows w' = rows w" "\<forall>x. r \<noteq> Inr x" using p r by auto
    then show ?thesis by simp
  next
    fix x assume x: "b = Inr x" "rows w3 = AList.update (ID l) (x\<lparr>ID := []\<rparr>) (rows w2)"
    from x(2) p r(1) assms(3) have "wrote w w' (ID l) x" by (simp add: wrote_def)
    with p x(1) show ?thesis by blast
  qed
qed

subsection \<open>What the operations of the service write\<close>

lemma on_store_iff [simp]:
  "on_store f s = (r, s') \<longleftrightarrow> (\<exists>w. f (store s) = (r, w) \<and> s' = s\<lparr>store := w\<rparr>)"
  by (auto simp: on_store_def split: prod.splits)

definition may_edit :: "claims \<Rightarrow> pb_user \<Rightarrow> bool" where
  "may_edit c m \<longleftrightarrow> Sub c = pbUserId m \<or> HasPrivilege c LOLUsersAdmin"

lemma send_out_store [simp]: "store (snd (send_out p m s)) = store s"
  by (cases "send_fate p (nsent s)") (simp_all add: send_out_def Let_def)

lemma sendConfirmEmail_store [simp]: "store (snd (sendConfirmEmail p u reg s)) = store s"
  by (auto simp: sendConfirmEmail_def Let_def split: sum.splits)

lemma fetch_same: "fetchLolUserByUserId ds uid w = (r, w') \<Longrightarrow> rows w' = rows w"
  using fetch_rows[of ds uid w] by simp

lemma send_out_pair [simp]: "store (case send_out p m s of (_, s1) \<Rightarrow> s1) = store s"
  by (simp add: split_def)

lemma Create_store:
  assumes "Create p token req s = (r, s')"
  shows "rows (store s') = rows (store s) \<and> (\<forall>x. r \<noteq> Inr x) \<or>
    (\<exists>c m w1 q. req = Some m \<and> LolUserRequest_Valid req \<and> CheckToken p token = Inr c \<and>
       may_edit c m \<and>
       fetchLolUserByUserId (datastore_of p) (pbUserId m) (store s) = (Inr [], w1) \<and>
       putLolUser (datastore_of p) (remarshal_in m no_user) 0 False w1 = (q, store s') \<and>
       (\<forall>x. r = Inr x \<longrightarrow> (\<exists>l. q = Inr l \<and> x = remarshal_out l)))"
proof (cases "LolUserRequest_Valid req")
  case True
  then obtain m where m: "req = Some m" by (cases req) (auto simp: LolUserRequest_Valid_def)
  show ?thesis
  proof (cases "fetchLolUserByUserId (datastore_of p) (pbUserId m) (store s)")
    case (Pair us w1)
    then have f: "rows w1 = rows (store s)" by (rule fetch_same)
    obtain q w2 where q: "putLolUser (datastore_of p) (remarshal_in m no_user) 0 False w1 = (q, w2)"
      by (metis prod.exhaust)
    from assms m True show ?thesis
      by (cases us; cases q)
        (auto simp: Create_def may_edit_def Let_def on_store_def Pair q f split_def
           dest!: ValidateCtxClaims_Inr split: if_splits sum.splits option.splits)
  qed
qed (use assms in \<open>auto simp: Create_def\<close>)

lemma Update_store:
  assumes "Update p token req s = (r, s')"
  shows "rows (store s') = rows (store s) \<and> (\<forall>x. r \<noteq> Inr x) \<or>
    (\<exists>c m w1 us l q. req = Some m \<and> LolUserRequest_Valid req \<and> CheckToken p token = Inr c \<and>
       may_edit c m \<and>
       fetchLolUserByUserId (datastore_of p) (pbUserId m) (store s) = (Inr us, w1) \<and> us \<noteq> [] \<and>
       updated p c m (hd us) = Inr l \<and>
       putLolUser (datastore_of p) l 0 False w1 = (q, store s') \<and>
       (\<forall>x. r = Inr x \<longrightarrow> (\<exists>l'. q = Inr l' \<and> x = remarshal_out l')))"
proof (cases "LolUserRequest_Valid req")
  case True
  then obtain m where m: "req = Some m" by (cases req) (auto simp: LolUserRequest_Valid_def)
  show ?thesis
  proof (cases "fetchLolUserByUserId (datastore_of p) (pbUserId m) (store s)")
    case (Pair us w1)
    then have f: "rows w1 = rows (store s)" by (rule fetch_same)
    from assms m True show ?thesis
      by (auto simp: Update_def may_edit_def Let_def on_store_def Pair f split_def prod_eq_iff
           dest!: ValidateCtxClaims_Inr split: if_splits sum.splits option.splits prod.splits)
  qed
qed (use assms in \<open>auto simp: Update_def\<close>)

lemma Adjust_store:
  assumes "AdjustVantagePoints p token req s = (r, s')"
  shows "rows (store s') = rows (store s) \<and> r \<noteq> None \<or>
    (\<exists>c w1 us q. CheckToken p token = Inr c \<and> HasPrivilege c LOLUsersAdmin \<and>
       fetchLolUserByUserId (datastore_of p) (vpUserId req) (store s) = (Inr us, w1) \<and> us \<noteq> [] \<and>
       putLolUser (datastore_of p) (hd us) (vpAmount req) (vpAbsolute req) w1 = (q, store s') \<and>
       (r = None \<longrightarrow> (\<exists>l. q = Inr l)))"
proof (cases "fetchLolUserByUserId (datastore_of p) (vpUserId req) (store s)")
  case (Pair us w1)
  then have f: "rows w1 = rows (store s)" by (rule fetch_same)
  from assms show ?thesis
    by (auto simp: AdjustVantagePoints_def Let_def on_store_def Pair f split_def prod_eq_iff
         dest!: ValidateCtxClaims_Inr split: if_splits sum.splits option.splits prod.splits)
qed

lemma List_store:
  assumes "List_users p token req s = (r, s')"
  shows "rows (store s') = rows (store s)"
  using assms
  by (auto simp: List_users_def Let_def on_store_def split_def
      split: if_splits sum.splits option.splits)

lemma Crawl_store: "rows (store (snd (crawl_loop p c platform ss err s))) = rows (store s)"
proof (induction ss arbitrary: err s)
  case (Cons x ss)
  have c: "store (snd (crawl_one p x platform err s1)) = store s1" for err s1
    by (auto simp: crawl_one_def publishCrawlMessage_def Let_def split_def send_out_def
        effect_of_cases split: if_splits option.splits fate.splits)
  show ?case
    using Cons c
    by (auto simp: Let_def on_store_def split_def split: sum.splits)
qed simp

subsection \<open>Balances\<close>

lemma stored_balance_ok:
  "store_wf w \<Longrightarrow> 0 \<le> stored_balance w k \<and> is_int64 (stored_balance w k)"
  by (auto simp: stored_balance_def row_ok_def dest: store_wf_lookup split: option.splits)

lemma wrote_wf:
  assumes "wrote w w' key x" "store_wf w" "0 \<le> VantagePointBalance x" "is_int64 (VantagePointBalance x)"
  shows "store_wf w'"
proof -
  have "rows w' = rows (put_row key x w)"
    using assms(1) by (simp add: wrote_def put_row_def)
  with store_wf_put[of w key x] assms show ?thesis
    by (auto simp: row_ok_def wrote_def store_wf_rows[of w' "put_row key x w"])
qed

lemma details_wf:
  assumes "putLolUser ds l 0 False w = (q, w')" "store_wf w"
  shows "store_wf w'"
  using putLolUser_details[OF assms(1)]
proof (elim disjE conjE exE)
  assume "rows w' = rows w"
  with assms(2) show ?thesis by (simp add: store_wf_def)
next
  fix key x assume "wrote w w' key x"
    "x = l\<lparr>VantagePointBalance := (if ID l = [] then 400 else stored_balance w key)\<rparr>"
  with assms(2) stored_balance_ok[OF assms(2), of key] show ?thesis
    by (intro wrote_wf[of w w' key x]) auto
qed

text \<open>The heart of an adjustment: the row found, and the sum that did not wrap around.\<close>

lemma adjust_row:
  assumes f: "fetchLolUserByUserId ds uid w = (Inr us, w1)" "us \<noteq> []"
    and put: "putLolUser ds (hd us) a ab w1 = (q, w')"
    and wf: "store_wf w" and a: "is_int64 a"
  shows "rows w' = rows w \<and> (\<forall>l. q \<noteq> Inr l) \<or>
    (\<exists>k u b. map_of (rows w) k = Some u \<and> UserID u = uid \<and> 0 \<le> b \<and> is_int64 b \<and>
       b = (if ab then a else VantagePointBalance u + a) \<and>
       rows w' = AList.update k (u\<lparr>VantagePointBalance := b\<rparr>) (rows w))"
proof -
  from f obtain k u where u: "us = [u\<lparr>ID := k\<rparr>]" "(k, u) \<in> set (rows w)" "UserID u = uid"
    by (rule fetch_found)
  then have m: "map_of (rows w) k = Some u" and ok: "row_ok (k, u)"
    using wf by (auto simp: store_wf_def list_all_iff)
  have w1: "rows w1 = rows w" using f(1) by (rule fetch_same)
  show ?thesis
  proof (cases "a = 0 \<and> \<not> ab")
    case True
    have "putLolUser ds (u\<lparr>ID := k\<rparr>) 0 False w1 = (q, w')" using put u True by simp
    from putLolUser_details[OF this] show ?thesis
    proof (elim disjE conjE exE)
      fix key x assume "wrote w1 w' key x" "ID (u\<lparr>ID := k\<rparr>) \<noteq> [] \<longrightarrow> key = ID (u\<lparr>ID := k\<rparr>)"
        "x = u\<lparr>ID := k\<rparr>\<lparr>VantagePointBalance :=
           (if ID (u\<lparr>ID := k\<rparr>) = [] then 400 else stored_balance w1 key)\<rparr>"
      with ok m w1 have "rows w' = AList.update k u (rows w)"
        by (simp add: wrote_def row_ok_def stored_balance_def)
      with m u ok True show ?thesis
        by (intro disjI2 exI[of _ k] exI[of _ u] exI[of _ "VantagePointBalance u"])
          (simp add: row_ok_def)
    qed (simp add: w1)
  next
    case False
    have "a \<noteq> 0 \<or> ab" "ID (u\<lparr>ID := k\<rparr>) \<noteq> []" using False ok by (auto simp: row_ok_def)
    moreover have "putLolUser ds (u\<lparr>ID := k\<rparr>) a ab w1 = (q, w')" using put u by simp
    ultimately have "rows w' = rows w1 \<and> (\<forall>x. q \<noteq> Inr x) \<or>
      (\<exists>v x. map_of (rows w1) (ID (u\<lparr>ID := k\<rparr>)) = Some v \<and> wrote w1 w' (ID (u\<lparr>ID := k\<rparr>)) x \<and>
         x = v\<lparr>VantagePointBalance := (if ab then a else add64 (VantagePointBalance v) a)\<rparr> \<and>
         0 \<le> VantagePointBalance x)"
      using putLolUser_points by blast
    then show ?thesis
    proof (elim disjE conjE exE)
      fix v x assume x: "map_of (rows w1) (ID (u\<lparr>ID := k\<rparr>)) = Some v" "wrote w1 w' (ID (u\<lparr>ID := k\<rparr>)) x"
        "x = v\<lparr>VantagePointBalance := (if ab then a else add64 (VantagePointBalance v) a)\<rparr>"
        "0 \<le> VantagePointBalance x"
      let ?b = "if ab then a else add64 (VantagePointBalance u) a"
      have v: "v = u" using x(1) m w1 by simp
      have b: "0 \<le> ?b" "?b = (if ab then a else VantagePointBalance u + a)" "is_int64 ?b"
        using x v ok a add64_nonneg[of "VantagePointBalance u" a]
        by (auto simp: row_ok_def add64_def wrap64_range)
      have "rows w' = AList.update k (u\<lparr>VantagePointBalance := ?b\<rparr>) (rows w)"
        using x v w1 ok by (simp add: wrote_def row_ok_def)
      with b m u show ?thesis by blast
    qed (simp add: w1)
  qed
qed

text \<open>One call of the service, by anyone, with any answers of the outside.\<close>

inductive service_step :: "'c peers \<Rightarrow> 'c service \<Rightarrow> 'c service \<Rightarrow> bool" for p where
  step_create: "service_step p s (snd (Create p token req s))"
| step_update: "service_step p s (snd (Update p token req s))"
| step_list: "service_step p s (snd (List_users p token lreq s))"
| step_adjust: "is_int64 (vpAmount vreq) \<Longrightarrow> service_step p s (snd (AdjustVantagePoints p token vreq s))"
| step_crawl: "service_step p s (snd (CrawlSummoners p token ss platform s))"

lemma adjust_wf:
  assumes "store_wf (store s)" "is_int64 (vpAmount req)"
  shows "store_wf (store (snd (AdjustVantagePoints p token req s)))"
proof -
  obtain r s' where rs: "AdjustVantagePoints p token req s = (r, s')" by (metis prod.exhaust)
  from Adjust_store[OF rs] have "store_wf (store s')"
  proof (elim disjE conjE exE)
    assume "rows (store s') = rows (store s)"
    with assms(1) show ?thesis by (simp add: store_wf_def)
  next
    fix c w1 us q
    assume "fetchLolUserByUserId (datastore_of p) (vpUserId req) (store s) = (Inr us, w1)" "us \<noteq> []"
      "putLolUser (datastore_of p) (hd us) (vpAmount req) (vpAbsolute req) w1 = (q, store s')"
    from adjust_row[OF this assms] show ?thesis
    proof (elim disjE conjE exE)
      fix k u b assume "map_of (rows (store s)) k = Some u" "0 \<le> b" "is_int64 b"
        "rows (store s') = AList.update k (u\<lparr>VantagePointBalance := b\<rparr>) (rows (store s))"
      moreover from store_wf_lookup[OF assms(1) this(1)] have "k \<noteq> []" "ID u = []"
        by (simp_all add: row_ok_def)
      ultimately show ?thesis
        by (intro wrote_wf[of "store s" "store s'" k "u\<lparr>VantagePointBalance := b\<rparr>"] assms(1))
          (simp_all add: wrote_def)
    qed (use assms(1) in \<open>simp add: store_wf_def\<close>)
  qed
  then show ?thesis using rs by simp
qed

lemma same_wf: "rows w' = rows w \<Longrightarrow> store_wf w \<Longrightarrow> store_wf w'"
  by (simp add: store_wf_def)

lemma put_after_fetch_wf:
  "fetchLolUserByUserId ds uid w = (r, w1) \<Longrightarrow> putLolUser ds l 0 False w1 = (q, w') \<Longrightarrow>
     store_wf w \<Longrightarrow> store_wf w'"
  using details_wf same_wf fetch_same by metis

lemma step_wf: "service_step p s s' \<Longrightarrow> store_wf (store s) \<Longrightarrow> store_wf (store s')"
proof (induction rule: service_step.induct)
  case (step_create s token req)
  obtain r s' where rs: "Create p token req s = (r, s')" by (metis prod.exhaust)
  from Create_store[OF rs] step_create have "store_wf (store s')"
    by (elim disjE conjE exE) (simp_all add: same_wf put_after_fetch_wf)
  then show ?case using rs by simp
next
  case (step_update s token req)
  obtain r s' where rs: "Update p token req s = (r, s')" by (metis prod.exhaust)
  from Update_store[OF rs] step_update have "store_wf (store s')"
    by (elim disjE conjE exE) (simp_all add: same_wf put_after_fetch_wf)
  then show ?case using rs by simp
next
  case (step_list s token lreq)
  obtain r s' where rs: "List_users p token lreq s = (r, s')" by (metis prod.exhaust)
  from List_store[OF rs] step_list rs show ?case by (simp add: store_wf_def)
next
  case (step_adjust vreq s token)
  then show ?case by (simp add: adjust_wf)
next
  case (step_crawl s token ss platform)
  have "rows (store (snd (CrawlSummoners p token ss platform s))) = rows (store s)"
    by (auto simp: CrawlSummoners_def Crawl_store split: sum.splits)
  with step_crawl show ?case by (simp add: store_wf_def)
qed

lemma steps_wf: "(service_step p)\<^sup>*\<^sup>* s s' \<Longrightarrow> store_wf (store s) \<Longrightarrow> store_wf (store s')"
  by (induction rule: rtranclp_induct) (auto intro: step_wf)

text \<open>
  C3: whatever calls the service receives, from whomever, and however its store and
  peers fail, no balance is ever negative or beyond a 64-bit integer.
\<close>

theorem balances_in_range:
  assumes "(service_step p)\<^sup>*\<^sup>* s s'" "rows (store s) = []"
    and "(k, u) \<in> set (rows (store s'))"
  shows "0 \<le> VantagePointBalance u \<and> VantagePointBalance u \<le> int64_max"
proof -
  have "store_wf (store s')"
    using assms(1) by (rule steps_wf) (simp add: store_wf_def assms(2))
  with assms(3) show ?thesis by (auto simp: store_wf_def list_all_iff row_ok_def is_int64_def)
qed

text \<open>
  an adjustment that reports no error has changed the balance of one row of the
  user by exactly the amount asked for (or to it, when it is absolute), with no wrap-around; one
  that reports an error has done that or nothing. Only an administrator's token gets so far.
\<close>

theorem adjust_exact:
  assumes "AdjustVantagePoints p token req s = (err, s')"
    and "store_wf (store s)" "is_int64 (vpAmount req)"
  shows "rows (store s') = rows (store s) \<and> err \<noteq> None \<or>
    (\<exists>c k u b. CheckToken p token = Inr c \<and> HasPrivilege c LOLUsersAdmin \<and>
       map_of (rows (store s)) k = Some u \<and> UserID u = vpUserId req \<and> 0 \<le> b \<and>
       b = (if vpAbsolute req then vpAmount req else VantagePointBalance u + vpAmount req) \<and>
       rows (store s') = AList.update k (u\<lparr>VantagePointBalance := b\<rparr>) (rows (store s)))"
  using Adjust_store[OF assms(1)]
proof (elim disjE conjE exE)
  fix c w1 us q
  assume c: "CheckToken p token = Inr c" "HasPrivilege c LOLUsersAdmin"
    and f: "fetchLolUserByUserId (datastore_of p) (vpUserId req) (store s) = (Inr us, w1)" "us \<noteq> []"
    and q: "putLolUser (datastore_of p) (hd us) (vpAmount req) (vpAbsolute req) w1 = (q, store s')"
    "err = None \<longrightarrow> (\<exists>l. q = Inr l)"
  from adjust_row[OF f q(1) assms(2,3)] show ?thesis
  proof (elim disjE conjE exE)
    assume "rows (store s') = rows (store s)" "\<forall>l. q \<noteq> Inr l"
    with q(2) show ?thesis by auto
  next
    fix k u b assume "map_of (rows (store s)) k = Some u" "UserID u = vpUserId req" "0 \<le> b"
      "b = (if vpAbsolute req then vpAmount req else VantagePointBalance u + vpAmount req)"
      "rows (store s') = AList.update k (u\<lparr>VantagePointBalance := b\<rparr>) (rows (store s))"
    with c show ?thesis by blast
  qed
qed simp

text \<open>
  a user created by a request without a key gets 400 points under a newly allocated
  key; the record holds what the request says, and the answer reports the 400 points.
\<close>

theorem create_gives_400:
  assumes "Create p token req s = (Inr out, s')" "req = Some m" "pbId m = []"
  shows "\<exists>k. k \<noteq> [] \<and> pbVantagePointBalance out = 400 \<and>
    rows (store s') = AList.update k
      \<lparr>ID = [], UserID = pbUserId m, SummonerID = pbSummonerId m, Region = pbRegion m,
       Verification = [], VantagePointBalance = 400, Confirmed = pbConfirmed m\<rparr> (rows (store s))"
proof -
  from Create_store[OF assms(1)] assms(2) obtain w1 q l where
    f: "fetchLolUserByUserId (datastore_of p) (pbUserId m) (store s) = (Inr [], w1)"
    and q: "putLolUser (datastore_of p) (remarshal_in m no_user) 0 False w1 = (q, store s')"
    "q = Inr l" "out = remarshal_out l" and v: "LolUserRequest_Valid req"
    by auto
  from v assms(2) have ne: "pbUserId m \<noteq> []" "pbSummonerId m \<noteq> []" "pbRegion m \<noteq> []"
    by (simp_all add: LolUserRequest_Valid_def)
  from putLolUser_details[OF q(1)] q(2) obtain key where key: "wrote w1 (store s') key l"
    "l = remarshal_in m no_user\<lparr>VantagePointBalance := 400\<rparr>"
    by (auto simp: remarshal_in_def no_user_def assms(3))
  show ?thesis
    using key ne q(3) fetch_same[OF f] assms(3)
    by (intro exI[of _ key]) (simp add: wrote_def remarshal_in_def remarshal_out_def no_user_def)
qed

subsection \<open>One record for each user\<close>

text \<open>Calls whose requests leave the keys of records to the service.\<close>

inductive plain_step :: "'c peers \<Rightarrow> 'c service \<Rightarrow> 'c service \<Rightarrow> bool" for p where
  plain_create: "pbId m = [] \<Longrightarrow> plain_step p s (snd (Create p token (Some m) s))"
| plain_update: "pbId m = [] \<Longrightarrow> plain_step p s (snd (Update p token (Some m) s))"
| plain_list: "plain_step p s (snd (List_users p token lreq s))"
| plain_adjust: "is_int64 (vpAmount vreq) \<Longrightarrow> plain_step p s (snd (AdjustVantagePoints p token vreq s))"
| plain_crawl: "plain_step p s (snd (CrawlSummoners p token ss platform s))"

lemma plain_is_step: "plain_step p s s' \<Longrightarrow> service_step p s s'"
  by (induction rule: plain_step.induct) (auto intro: service_step.intros)

definition one_record_each :: "db \<Rightarrow> bool" where
  "one_record_each w \<longleftrightarrow> distinct (map (UserID \<circ> snd) (rows w))"

lemma users_of_update:
  "distinct (map fst xs) \<Longrightarrow> distinct (map (UserID \<circ> snd) xs) \<Longrightarrow>
   (\<And>k u. (k, u) \<in> set xs \<Longrightarrow> k \<noteq> key \<Longrightarrow> UserID u \<noteq> UserID x) \<Longrightarrow>
   distinct (map (UserID \<circ> snd) (AList.update key x xs))"
proof (induction xs)
  case (Cons y ys)
  obtain k u where y: "y = (k, u)" by (cases y)
  show ?case
  proof (cases "k = key")
    case True
    then have "UserID x \<notin> (UserID \<circ> snd) ` set ys"
      using Cons.prems(1,3) y by force
    with True y Cons.prems(2) show ?thesis by simp
  next
    case False
    have "UserID u \<notin> (UserID \<circ> snd) ` set (AList.update key x ys)"
    proof
      assume "UserID u \<in> (UserID \<circ> snd) ` set (AList.update key x ys)"
      then obtain z where "z \<in> set (AList.update key x ys)" "UserID u = UserID (snd z)" by auto
      moreover from set_update_rows[OF this(1)] have "z = (key, x) \<or> z \<in> set ys" .
      ultimately show False
        using Cons.prems(2) Cons.prems(3)[of k u] False y by auto
    qed
    moreover have "distinct (map (UserID \<circ> snd) (AList.update key x ys))"
      using Cons.prems by (intro Cons.IH) auto
    ultimately show ?thesis using False y by (simp add: comp_def)
  qed
qed simp

lemma users_put:
  assumes "wrote w w' key x" "store_wf w" "one_record_each w"
    and "\<And>k u. (k, u) \<in> set (rows w) \<Longrightarrow> k \<noteq> key \<Longrightarrow> UserID u \<noteq> UserID x"
  shows "one_record_each w'"
  using assms users_of_update[of "rows w" key "x\<lparr>ID := []\<rparr>"]
  by (simp add: one_record_each_def wrote_def store_wf_def)

lemma one_record_same: "rows w' = rows w \<Longrightarrow> one_record_each w \<Longrightarrow> one_record_each w'"
  by (simp add: one_record_each_def)

lemma only_record:
  "one_record_each w \<Longrightarrow> store_wf w \<Longrightarrow> (k, u) \<in> set (rows w) \<Longrightarrow> (j, v) \<in> set (rows w) \<Longrightarrow>
     j \<noteq> k \<Longrightarrow> UserID v \<noteq> UserID u"
  unfolding one_record_each_def by (force simp: distinct_map inj_on_def)

lemma fetch_none:
  assumes "fetchLolUserByUserId ds uid w = (Inr [], w1)" "\<And>n. broken_off ds n = None"
    and "(k, u) \<in> set (rows w)"
  shows "UserID u \<noteq> uid"
  using assms
  by (auto simp: fetchLolUserByUserId_def GetAll_def filter_empty_conv Let_def split: if_splits)

lemma updated_keeps:
  assumes "updated p c m l = Inr l'" "pbId m = []" "UserID l = pbUserId m"
  shows "ID l' = ID l \<and> UserID l' = UserID l"
  using assms
  by (auto simp: updated_def remarshal_in_def split: if_splits option.splits sum.splits)

lemma plain_step_users:
  assumes "plain_step p s s'" "store_wf (store s)" "one_record_each (store s)"
    and all: "\<And>n. broken_off (datastore_of p) n = None"
  shows "one_record_each (store s')"
  using assms(1-3)
proof (induction rule: plain_step.induct)
  case (plain_create m s token)
  obtain r s' where rs: "Create p token (Some m) s = (r, s')" by (metis prod.exhaust)
  from Create_store[OF rs] have "one_record_each (store s')"
  proof (elim disjE conjE exE)
    fix c m' w1 q assume m': "Some m = Some m'"
      and f: "fetchLolUserByUserId (datastore_of p) (pbUserId m') (store s) = (Inr [], w1)"
      and q: "putLolUser (datastore_of p) (remarshal_in m' no_user) 0 False w1 = (q, store s')"
    have w1: "rows w1 = rows (store s)" using f by (rule fetch_same)
    then have ok: "store_wf w1" "one_record_each w1"
      using plain_create by (simp_all add: store_wf_def one_record_each_def)
    from putLolUser_details[OF q] show ?thesis
    proof (elim disjE conjE exE)
      fix key x assume k: "wrote w1 (store s') key x"
        "x = remarshal_in m' no_user\<lparr>VantagePointBalance :=
          (if ID (remarshal_in m' no_user) = [] then 400 else stored_balance w1 key)\<rparr>"
      then have x: "UserID x = pbUserId m'" by (simp add: remarshal_in_def no_user_def)
      show ?thesis
      proof (rule users_put[OF k(1) ok])
        fix k u assume "(k, u) \<in> set (rows w1)" "k \<noteq> key"
        with fetch_none[OF f all] x w1 show "UserID u \<noteq> UserID x" by simp
      qed
    qed (use ok(2) in \<open>simp add: one_record_each_def\<close>)
  qed (use plain_create in \<open>simp add: one_record_each_def\<close>)
  with rs show ?case by simp
next
  case (plain_update m s token)
  obtain r s' where rs: "Update p token (Some m) s = (r, s')" by (metis prod.exhaust)
  from Update_store[OF rs] have "one_record_each (store s')"
  proof (elim disjE conjE exE)
    fix c m' w1 us l q assume m': "Some m = Some m'"
      and f: "fetchLolUserByUserId (datastore_of p) (pbUserId m') (store s) = (Inr us, w1)" "us \<noteq> []"
      and l: "updated p c m' (hd us) = Inr l"
      and q: "putLolUser (datastore_of p) l 0 False w1 = (q, store s')"
    from f obtain k u where u: "us = [u\<lparr>ID := k\<rparr>]" "(k, u) \<in> set (rows (store s))" "UserID u = pbUserId m'"
      by (rule fetch_found)
    then have "k \<noteq> []" using plain_update by (auto simp: store_wf_def list_all_iff row_ok_def)
    with updated_keeps[OF l] u m' plain_update.hyps have l': "ID l = k" "UserID l = UserID u" "ID l \<noteq> []"
      by simp_all
    have w1: "rows w1 = rows (store s)" using f(1) by (rule fetch_same)
    then have ok: "store_wf w1" "one_record_each w1"
      using plain_update by (simp_all add: store_wf_def one_record_each_def)
    from putLolUser_details[OF q] show ?thesis
    proof (elim disjE conjE exE)
      fix key x assume k: "wrote w1 (store s') key x" "ID l \<noteq> [] \<longrightarrow> key = ID l"
        "x = l\<lparr>VantagePointBalance := (if ID l = [] then 400 else stored_balance w1 key)\<rparr>"
      show ?thesis
      proof (rule users_put[OF k(1) ok])
        fix j v assume "(j, v) \<in> set (rows w1)" "j \<noteq> key"
        with only_record[OF ok(2,1), of k u j v] k l' u w1 show "UserID v \<noteq> UserID x" by simp
      qed
    qed (use ok(2) in \<open>simp add: one_record_each_def\<close>)
  qed (use plain_update in \<open>simp add: one_record_each_def\<close>)
  with rs show ?case by simp
next
  case (plain_list s token lreq)
  obtain r s' where rs: "List_users p token lreq s = (r, s')" by (metis prod.exhaust)
  from List_store[OF rs] plain_list rs show ?case by (simp add: one_record_each_def)
next
  case (plain_adjust vreq s token)
  obtain r s' where rs: "AdjustVantagePoints p token vreq s = (r, s')" by (metis prod.exhaust)
  from Adjust_store[OF rs] have "one_record_each (store s')"
  proof (elim disjE conjE exE)
    fix c w1 us q
    assume f: "fetchLolUserByUserId (datastore_of p) (vpUserId vreq) (store s) = (Inr us, w1)" "us \<noteq> []"
      "putLolUser (datastore_of p) (hd us) (vpAmount vreq) (vpAbsolute vreq) w1 = (q, store s')"
    from adjust_row[OF f plain_adjust.prems(1) plain_adjust.hyps] show ?thesis
    proof (elim disjE conjE exE)
      fix k u b assume k: "map_of (rows (store s)) k = Some u"
        "rows (store s') = AList.update k (u\<lparr>VantagePointBalance := b\<rparr>) (rows (store s))"
      have u: "(k, u) \<in> set (rows (store s))" "k \<noteq> []" "ID u = []"
        using k(1) store_wf_lookup[OF plain_adjust.prems(1) k(1)]
        by (auto simp: row_ok_def dest: map_of_SomeD)
      have "wrote (store s) (store s') k (u\<lparr>VantagePointBalance := b\<rparr>)"
        using k(2) u by (simp add: wrote_def)
      from users_put[OF this plain_adjust.prems] only_record[OF plain_adjust.prems(2,1) u(1)]
      show ?thesis by simp
    qed (use plain_adjust in \<open>simp add: one_record_each_def\<close>)
  qed (use plain_adjust in \<open>simp add: one_record_each_def\<close>)
  with rs show ?case by simp
next
  case (plain_crawl s token ss platform)
  have "rows (store (snd (CrawlSummoners p token ss platform s))) = rows (store s)"
    by (auto simp: CrawlSummoners_def Crawl_store split: sum.splits)
  with plain_crawl show ?case by (simp add: one_record_each_def)
qed


lemma plain_steps_users:
  assumes "(plain_step p)\<^sup>*\<^sup>* s s'" "store_wf (store s)" "one_record_each (store s)"
    and "\<And>n. broken_off (datastore_of p) n = None"
  shows "store_wf (store s') \<and> one_record_each (store s')"
  using assms
  by (induction rule: rtranclp_induct) (auto dest: plain_step_users plain_is_step[THEN step_wf])

text \<open>
  as long as requests carry no keys of their own and queries return all their rows,
  no user id ever has two records, so that looking a user up always succeeds.
\<close>

theorem users_are_unique:
  assumes "(plain_step p)\<^sup>*\<^sup>* s s'" "rows (store s) = []"
    and "\<forall>n. broken_off (datastore_of p) n = None" and "uid \<noteq> []"
  shows "distinct (map (UserID \<circ> snd) (rows (store s'))) \<and>
    (\<exists>us. fst (fetchLolUserByUserId (datastore_of p) uid (store s')) = Inr us \<and> length us \<le> 1)"
proof -
  have "store_wf (store s') \<and> one_record_each (store s')"
    using plain_steps_users[OF assms(1)] assms(2,3)
    by (simp add: store_wf_def one_record_each_def)
  then have d: "distinct (map (UserID \<circ> snd) (rows (store s')))"
    by (simp add: one_record_each_def)
  let ?f = "filter ((\<lambda>u. UserID u = uid) \<circ> snd) (rows (store s'))"
  have "length ?f \<le> 1"
  proof -
    have "distinct (map (UserID \<circ> snd) ?f)" using d by (rule distinct_map_filter)
    moreover have "set (map (UserID \<circ> snd) ?f) \<subseteq> {uid}" by auto
    ultimately show ?thesis
      using distinct_card[of "map (UserID \<circ> snd) ?f"] card_mono[of "{uid}" "set (map (UserID \<circ> snd) ?f)"]
      by simp
  qed
  with d assms(3,4) show ?thesis
    by (auto simp: fetchLolUserByUserId_def GetAll_def Let_def split_def)
qed

text \<open>
  a request to create a user is not restricted to new records. With the key of another
  user's record in its \<open>id\<close>, it replaces that record by the caller's, who gets the other
  user's points, and is confirmed if the request says so.
\<close>

theorem create_takes_over:
  assumes "LolUserRequest_Valid (Some m)" "pbId m \<noteq> []"
    and "token \<noteq> []" "CheckToken p token = Inr c" "Sub c = pbUserId m"
    and "parse_int (pbSummonerId m) = Some sid" "SummonersById p sid (pbRegion m) = None"
    and "map_of (rows (store s)) (pbId m) = Some victim"
    and "\<forall>(k, u) \<in> set (rows (store s)). UserID u \<noteq> pbUserId m"
    and "\<forall>n. call_fate (datastore_of p) n = Done \<and> broken_off (datastore_of p) n = None"
  shows "\<exists>out. fst (Create p token (Some m) s) = Inr out \<and>
    rows (store (snd (Create p token (Some m) s))) =
      AList.update (pbId m)
        \<lparr>ID = [], UserID = pbUserId m, SummonerID = pbSummonerId m, Region = pbRegion m,
         Verification = [], VantagePointBalance = VantagePointBalance victim,
         Confirmed = pbConfirmed m\<rparr> (rows (store s))"
proof -
  have none: "fetchLolUserByUserId (datastore_of p) (pbUserId m) (store s) = (Inr [], tick (store s))"
    using assms(1,9,10)
    by (auto simp: fetchLolUserByUserId_def GetAll_def LolUserRequest_Valid_def filter_empty_conv)
  have put: "putLolUser (datastore_of p) (remarshal_in m no_user) 0 False (tick (store s)) =
      (Inr (remarshal_in m no_user\<lparr>VantagePointBalance := VantagePointBalance victim\<rparr>),
       tick (put_row (pbId m) (remarshal_in m no_user\<lparr>VantagePointBalance := VantagePointBalance victim\<rparr>)
         (tick (tick (store s)))))"
    using assms(2,8,10)
    by (simp add: putLolUser_def putLolUserDetails_def tx_get_def commit_def remarshal_in_def Let_def)
  show ?thesis
    using assms(1-7) none put
    by (simp add: Create_def ValidateCtxClaims_def on_store_def Let_def split_def put_row_def
        remarshal_in_def no_user_def LolUserRequest_Valid_def)
qed

end
