(* ===== verification/Users_Demo.thy ===== *)
theory Users_Demo
  imports Users_Facts
begin

text \<open>
  The crawl requests of the lolusers service, what a failed lookup does to a new user, and the
  theorems about the service at concrete inputs: a service whose peers answer, and users
  Ana and Bob.
\<close>

subsection \<open>Crawl requests\<close>

lemma crawl_one_outbox:
  assumes "crawl_one p i platform err s = (r, s')"
  shows "set (outbox s') \<subseteq> insert (Crawl i platform) (set (outbox s)) \<and> store s' = store s"
  using assms
  by (cases "send_fate p (nsent s)")
    (auto simp: crawl_one_def publishCrawlMessage_def send_out_def Let_def split_def
      split: if_splits option.splits)

lemma crawl_loop_outbox:
  assumes "crawl_loop p c platform ss err s = (r, s')" "Crawl i pl \<in> set (outbox s')"
    and "rows (store s) = rs"
  shows "Crawl i pl \<in> set (outbox s) \<or>
    (i \<in> set ss \<and> pl = platform \<and>
     (\<exists>k u. (k, u) \<in> set rs \<and> UserID u = Sub c \<and> SummonerID u = show_int i))"
  using assms
proof (induction ss arbitrary: err s)
  case (Cons j ss)
  obtain us w1 where f: "fetchLolUsersBySummonerIds (datastore_of p)
      (region_string (RegionFromPlatform (PlatformFromString platform))) [j] (store s) = (us, w1)"
    by (metis prod.exhaust)
  have w1: "rows w1 = rows (store s)" using f fetch_summoners_rows by (metis snd_conv)
  show ?case
  proof (cases us)
    case (Inl e)
    with Cons.prems f show ?thesis by (auto simp: on_store_def Let_def)
  next
    case (Inr ls)
    show ?thesis
    proof (cases "list_ex (\<lambda>l. UserID l = Sub c) ls")
      case False
      with Cons.prems f Inr have "crawl_loop p c platform ss err (s\<lparr>store := w1\<rparr>) = (r, s')"
        by (simp add: on_store_def Let_def)
      from Cons.IH[OF this Cons.prems(2)] w1 Cons.prems(3) show ?thesis by auto
    next
      case True
      obtain e2 s2 where o: "crawl_one p j platform err (s\<lparr>store := w1\<rparr>) = (e2, s2)"
        by (metis prod.exhaust)
      with Cons.prems f Inr True have l: "crawl_loop p c platform ss e2 s2 = (r, s')"
        by (simp add: on_store_def Let_def)
      have own: "\<exists>k u. (k, u) \<in> set rs \<and> UserID u = Sub c \<and> SummonerID u = show_int j"
      proof -
        from True obtain l where l: "l \<in> set ls" "UserID l = Sub c" by (auto simp: list_ex_iff)
        from f Inr obtain w2 q where "fetch_each (datastore_of p) q [j] [] (store s) = (Inr ls, w2)"
          by (auto simp: fetchLolUsersBySummonerIds_def Let_def)
        from fetch_each_found[OF this l(1)] l(2) Cons.prems(3) show ?thesis by fastforce
      qed
      from crawl_one_outbox[OF o] w1 Cons.prems(3)
      have "set (outbox s2) \<subseteq> insert (Crawl j platform) (set (outbox s))" "rows (store s2) = rs"
        by simp_all
      with Cons.IH[OF l Cons.prems(2)] own show ?thesis by auto
    qed
  qed
qed simp

text \<open>
  every crawl message a request sends is for a summoner that was asked for and that a
  record of the caller names.
\<close>

theorem crawl_own_summoners:
  assumes "CrawlSummoners p token ss platform s = (r, s')"
    and "Crawl i pl \<in> set (outbox s')" "Crawl i pl \<notin> set (outbox s)"
  shows "i \<in> set ss \<and> pl = platform \<and>
    (\<exists>c k u. CheckToken p token = Inr c \<and> (k, u) \<in> set (rows (store s)) \<and>
       UserID u = Sub c \<and> SummonerID u = show_int i)"
  using assms
  by (auto simp: CrawlSummoners_def dest!: crawl_loop_outbox ValidateCtxClaims_Inr
      split: sum.splits)

subsection \<open>A service that answers\<close>

definition demo_store :: datastore where
  "demo_store = \<lparr>call_fate = \<lambda>_. Done, allocated = \<lambda>n. int n + 100, broken_off = \<lambda>_. None\<rparr>"

definition demo_check :: "string \<Rightarrow> string + claims" where
  "demo_check token =
     (if token = ''internal'' then Inr \<lparr>Sub = [], Privileges = [VantageGod]\<rparr>
      else Inr \<lparr>Sub = token, Privileges = []\<rparr>)"

definition demo_peers :: "unit peers" where
  "demo_peers =
     \<lparr>datastore_of = demo_store, CheckToken = demo_check, SummonersById = \<lambda>_ _. None,
      Masteries = \<lambda>_ _. Inl ''down'', ListEmails = \<lambda>u. Inr [u @ ''@mail''],
      template_html = \<lambda>t. Inr t, send_fate = \<lambda>_. Done, now = int, lru_get = \<lambda>_ c. (None, c),
      lru_add = \<lambda>_ _ c. c, LolActiveGroupID = ''active''\<rparr>"

definition ana_request :: pb_user where
  "ana_request = \<lparr>pbId = [], pbUserId = ''ana'', pbSummonerId = ''11'', pbRegion = ''na'',
     pbVantagePointBalance = 9000, pbConfirmed = False\<rparr>"

definition start :: "unit service" where
  "start = \<lparr>store = \<lparr>rows = [], purchases = [], ncalls = 0\<rparr>, crawls_cache = (), outbox = [], nsent = 0\<rparr>"

definition ana :: lol_user where
  "ana = \<lparr>ID = [], UserID = ''ana'', SummonerID = ''11'', Region = ''na'', Verification = [],
     VantagePointBalance = 400, Confirmed = False\<rparr>"

definition with_ana :: "unit service" where
  "with_ana = snd (Create demo_peers ''ana'' (Some ana_request) start)"

lemmas service_defs = Create_def AdjustVantagePoints_def CrawlSummoners_def List_users_def
  ValidateCtxClaims_def on_store_def
  fetchLolUserByUserId_def fetchLolUsersBySummonerIds_def GetAll_def named_def putLolUser_def
  putLolUserDetails_def putLolUserPoints_def commit_def tx_get_def put_row_def tick_def allocateKey_def
  remarshal_in_def remarshal_out_def no_user_def sendConfirmEmail_def send_out_def
  crawl_one_def publishCrawlMessage_def LolUserRequest_Valid_def VantagePointsRequest_Valid_def
  ListLolUsersRequest_Valid_def

lemmas demo_defs = demo_peers_def demo_store_def demo_check_def ana_request_def start_def ana_def

lemma parse_11: "parse_int ''11'' = Some 11"
  by code_simp

lemma show_101: "show_int 101 = ''101''"
  by code_simp

lemma ana_created: "fst (Create demo_peers ''ana'' (Some ana_request) start) =
    Inr (remarshal_out ana) \<and> rows (store with_ana) = [(''101'', ana)]"
  by (simp add: with_ana_def service_defs demo_defs parse_11 show_101 HasPrivilege_def VantageGod_def)

subsection \<open>A failed lookup\<close>

lemma update_fresh: "k \<notin> fst ` set xs \<Longrightarrow> AList.update k v xs = xs @ [(k, v)]"
  by (induction xs) auto

text \<open>
  a query that fails before its first row counts as a user who does not exist. A
  create request of an existing user then adds a second record, and from then on the user
  cannot be looked up, updated or charged.
\<close>

theorem failed_lookup_locks_out:
  assumes "LolUserRequest_Valid (Some m)" "pbId m = []"
    and "token \<noteq> []" "CheckToken p token = Inr c" "Sub c = pbUserId m"
    and "parse_int (pbSummonerId m) = Some sid" "SummonersById p sid (pbRegion m) = None"
    and "(k, u) \<in> set (rows (store s))" "UserID u = pbUserId m"
    and "ds = datastore_of p" "broken_off ds (ncalls (store s)) = Some (0, e)"
    and "\<forall>n. call_fate ds n = Done" "\<forall>n > ncalls (store s). broken_off ds n = None"
    and "show_int (allocated ds (Suc (ncalls (store s)))) \<notin> fst ` set (rows (store s))"
  shows "\<exists>out. fst (Create p token (Some m) s) = Inr out \<and>
    fst (fetchLolUserByUserId ds (pbUserId m) (store (snd (Create p token (Some m) s)))) =
      Inl ''expected 0 or 1 user(s)''"
proof -
  let ?w = "tick (store s)"
  let ?key = "show_int (allocated ds (ncalls ?w))"
  let ?l = "remarshal_in m no_user\<lparr>VantagePointBalance := 400\<rparr>"
  let ?w' = "tick (put_row ?key ?l (tick (tick ?w)))"
  have calls: "ncalls (tick v) = Suc (ncalls v)" "ncalls (put_row a b v) = ncalls v" for v a b
    by (simp_all add: tick_def put_row_def)
  have uid: "pbUserId m \<noteq> []" using assms(1) by (simp add: LolUserRequest_Valid_def)
  have none: "fetchLolUserByUserId ds (pbUserId m) (store s) = (Inr [], ?w)"
    using uid assms(11) by (simp add: fetchLolUserByUserId_def GetAll_def)
  have put: "putLolUser ds (remarshal_in m no_user) 0 False ?w = (Inr ?l, ?w')"
    using assms(2,12)
    by (simp add: putLolUser_def putLolUserDetails_def tx_get_def commit_def allocateKey_def
        remarshal_in_def no_user_def Let_def split: option.splits)
  have st: "\<exists>out. fst (Create p token (Some m) s) = Inr out"
    "store (snd (Create p token (Some m) s)) = ?w'"
    using assms(1-7) none put
    by (simp_all add: Create_def ValidateCtxClaims_def on_store_def Let_def split_def assms(10))
  let ?f = "\<lambda>xs. filter ((\<lambda>u. UserID u = pbUserId m) \<circ> snd) xs"
  have new: "AList.update ?key (?l\<lparr>ID := []\<rparr>) (rows (store s)) =
      rows (store s) @ [(?key, ?l\<lparr>ID := []\<rparr>)]"
    using assms(14) by (simp add: update_fresh tick_def)
  have f: "?f (rows ?w') = ?f (rows (store s)) @ [(?key, ?l\<lparr>ID := []\<rparr>)]"
    using new uid by (simp add: put_row_def remarshal_in_def)
  have "?f (rows (store s)) \<noteq> []" using assms(8,9) by (force simp: filter_empty_conv)
  with f have "length (?f (rows ?w')) > 1" by (cases "?f (rows (store s))") simp_all
  then have "fst (fetchLolUserByUserId ds (pbUserId m) ?w') = Inl ''expected 0 or 1 user(s)''"
    using uid assms(13) calls
    by (auto simp: fetchLolUserByUserId_def GetAll_def Let_def)
  with st show ?thesis by simp
qed


subsection \<open>The theorems at concrete inputs\<close>

lemma parse_22: "parse_int ''22'' = Some 22"
  by code_simp

lemma with_ana_reached: "(plain_step demo_peers)\<^sup>*\<^sup>* start with_ana"
  unfolding with_ana_def
  by (intro r_into_rtranclp plain_create) (simp add: ana_request_def)

lemma with_ana_service: "(service_step demo_peers)\<^sup>*\<^sup>* start with_ana"
  unfolding with_ana_def by (intro r_into_rtranclp step_create)

lemma with_ana_wf: "store_wf (store with_ana)"
  using ana_created by (simp add: store_wf_def row_ok_def ana_def)

definition charge_ana :: points_request where
  "charge_ana = \<lparr>vpUserId = ''ana'', vpAmount = -200, vpAbsolute = False\<rparr>"

lemma balances_in_range_witness:
  "0 \<le> VantagePointBalance ana \<and> VantagePointBalance ana \<le> int64_max"
proof (rule balances_in_range[OF with_ana_service])
  show "(''101'', ana) \<in> set (rows (store with_ana))" using ana_created by simp
qed (simp add: start_def)

lemma adjust_exact_witness:
  "rows (store (snd (AdjustVantagePoints demo_peers ''internal'' charge_ana with_ana))) =
     [(''101'', ana\<lparr>VantagePointBalance := 200\<rparr>)]"
proof -
  obtain err s' where r: "AdjustVantagePoints demo_peers ''internal'' charge_ana with_ana = (err, s')"
    by (metis prod.exhaust)
  have "err = None"
    using r ana_created
    by (simp add: service_defs demo_defs charge_ana_def HasPrivilege_def add64_def wrap64_def)
  with adjust_exact[OF r with_ana_wf] ana_created r show ?thesis
    by (auto simp: charge_ana_def is_int64_def int64_min_def int64_max_def ana_def split: if_splits)
qed

lemma create_gives_400_witness: "pbVantagePointBalance (remarshal_out ana) = 400"
proof -
  have "Create demo_peers ''ana'' (Some ana_request) start = (Inr (remarshal_out ana), with_ana)"
    using ana_created by (simp add: with_ana_def prod_eq_iff)
  from create_gives_400[OF this refl] show ?thesis by (auto simp: ana_request_def)
qed

lemma users_are_unique_witness:
  "\<exists>us. fst (fetchLolUserByUserId demo_store ''ana'' (store with_ana)) = Inr us \<and> length us \<le> 1"
  using users_are_unique[OF with_ana_reached, of "''ana''"]
  by (simp add: start_def demo_peers_def demo_store_def)

definition bob_request :: pb_user where
  "bob_request = \<lparr>pbId = ''101'', pbUserId = ''bob'', pbSummonerId = ''22'', pbRegion = ''na'',
     pbVantagePointBalance = 0, pbConfirmed = True\<rparr>"

lemma create_takes_over_witness:
  "\<exists>u. rows (store (snd (Create demo_peers ''bob'' (Some bob_request) with_ana))) = [(''101'', u)] \<and>
     UserID u = ''bob'' \<and> VantagePointBalance u = 400 \<and> Confirmed u"
proof -
  have m: "map_of (rows (store with_ana)) (pbId bob_request) = Some ana"
    using ana_created by (simp add: bob_request_def)
  have "LolUserRequest_Valid (Some bob_request)" "pbId bob_request \<noteq> []" "''bob'' \<noteq> []"
    "CheckToken demo_peers ''bob'' = Inr \<lparr>Sub = ''bob'', Privileges = []\<rparr>"
    "Sub \<lparr>Sub = ''bob'', Privileges = []\<rparr> = pbUserId bob_request"
    "parse_int (pbSummonerId bob_request) = Some 22"
    "SummonersById demo_peers 22 (pbRegion bob_request) = None"
    by (simp_all add: LolUserRequest_Valid_def bob_request_def demo_peers_def demo_check_def parse_22)
  from create_takes_over[OF this m] ana_created show ?thesis
    by (simp add: demo_peers_def demo_store_def bob_request_def ana_def)
qed

text \<open>The same service, when the first query of its life fails.\<close>

definition flaky_peers :: "unit peers" where
  "flaky_peers = demo_peers\<lparr>datastore_of :=
     demo_store\<lparr>broken_off := \<lambda>n. if n = 4 then Some (0, ''timeout'') else None\<rparr>\<rparr>"

lemma with_ana_calls: "ncalls (store with_ana) = 4"
  by (simp add: with_ana_def service_defs demo_defs parse_11 show_101)

lemma show_105: "show_int 105 = ''105''"
  by code_simp

lemma failed_lookup_locks_out_witness:
  "fst (fetchLolUserByUserId (datastore_of flaky_peers) ''ana''
     (store (snd (Create flaky_peers ''ana'' (Some ana_request) with_ana)))) =
     Inl ''expected 0 or 1 user(s)''"
proof -
  have "LolUserRequest_Valid (Some ana_request)" "pbId ana_request = []" "''ana'' \<noteq> []"
    "CheckToken flaky_peers ''ana'' = Inr \<lparr>Sub = ''ana'', Privileges = []\<rparr>"
    "Sub \<lparr>Sub = ''ana'', Privileges = []\<rparr> = pbUserId ana_request"
    "parse_int (pbSummonerId ana_request) = Some 11"
    "SummonersById flaky_peers 11 (pbRegion ana_request) = None"
    "(''101'', ana) \<in> set (rows (store with_ana))" "UserID ana = pbUserId ana_request"
    using ana_created
    by (simp_all add: LolUserRequest_Valid_def demo_defs flaky_peers_def parse_11)
  from failed_lookup_locks_out[OF this refl, of "''timeout''"] with_ana_calls ana_created show ?thesis
    by (simp add: flaky_peers_def demo_defs show_105)
qed

lemma na_region: "region_string (RegionFromPlatform (PlatformFromString ''NA1'')) = ''na''"
  by code_simp

lemma show_11: "show_int 11 = ''11''"
  by code_simp

lemma with_ana_outbox: "Crawl i pl \<notin> set (outbox with_ana)"
  by (simp add: with_ana_def service_defs demo_defs parse_11 show_101)

lemma ana_crawled:
  "Crawl 11 ''NA1'' \<in> set (outbox (snd (CrawlSummoners demo_peers ''ana'' [11] ''NA1'' with_ana)))"
proof -
  have "fetchLolUsersBySummonerIds demo_store ''na'' [11] (store with_ana) =
      (Inr [ana\<lparr>ID := ''101''\<rparr>], tick (store with_ana))"
    using ana_created
    by (simp add: fetchLolUsersBySummonerIds_def GetAll_def named_def demo_store_def ana_def show_11)
  then show ?thesis
    by (simp add: CrawlSummoners_def ValidateCtxClaims_def na_region on_store_def crawl_one_def
        publishCrawlMessage_def send_out_def Let_def demo_peers_def demo_check_def ana_def)
qed

lemma crawl_own_summoners_witness:
  "\<exists>k u. (k, u) \<in> set (rows (store with_ana)) \<and> UserID u = ''ana'' \<and> SummonerID u = show_int 11"
proof -
  obtain r s' where r: "CrawlSummoners demo_peers ''ana'' [11] ''NA1'' with_ana = (r, s')"
    by (metis prod.exhaust)
  have "Crawl 11 ''NA1'' \<in> set (outbox s')" using ana_crawled r by simp
  from crawl_own_summoners[OF r this with_ana_outbox] show ?thesis
    by (auto simp: demo_peers_def demo_check_def)
qed

end
