(* ===== verification/Dispatch_Ledger.thy ===== *)
theory Dispatch_Ledger
  imports Dispatch Users_Demo
begin

text \<open>
  What the dispatcher takes from the users. The locale \<open>points_ledger\<close> is the contract the
  dispatcher relies on in the lolusers service: listing takes nothing, an adjustment that is not
  absolute changes the points of its user by the amount or not at all. Inside it, points are
  followed through the handler; the interpretation on the model of the service carries the
  results over to the two programs together.
\<close>

subsection \<open>Accounts\<close>

definition account :: "('s \<Rightarrow> string \<Rightarrow> int) \<Rightarrow> int \<Rightarrow> string set \<Rightarrow> 's world \<Rightarrow> int" where
  "account held cost U w = (\<Sum>u\<in>U. held (lu_state w) u) + cost * int (length (receipts w))"

definition receipt_keys :: "'s world \<Rightarrow> string set" where
  "receipt_keys w = fst ` set (receipts w)"

text \<open>
  A piece of the handler is fair when what the users lost is covered by new receipts, and the
  new receipts are for the keys in \<open>K\<close>.
\<close>

definition fair ::
  "('s \<Rightarrow> string \<Rightarrow> int) \<Rightarrow> ('s \<Rightarrow> bool) \<Rightarrow> int \<Rightarrow> string set \<Rightarrow> 's world \<Rightarrow> 's world \<Rightarrow> bool" where
  "fair held good cost K w w' \<longleftrightarrow>
     good (lu_state w') \<and> (\<forall>U. finite U \<longrightarrow> account held cost U w \<le> account held cost U w') \<and>
     (distinct (map fst (receipts w)) \<longrightarrow> distinct (map fst (receipts w'))) \<and>
     receipt_keys w \<subseteq> receipt_keys w' \<and> receipt_keys w' \<subseteq> receipt_keys w \<union> K"

lemma fair_refl: "good (lu_state w) \<Longrightarrow> fair held good cost K w w"
  by (simp add: fair_def)

lemma fair_trans:
  "fair held good cost K w w1 \<Longrightarrow> fair held good cost K w1 w2 \<Longrightarrow> fair held good cost K w w2"
  unfolding fair_def by (meson order_trans subset_trans subset_UnE Un_least Un_upper2 le_supI1 subsetI)

lemma fair_mono: "fair held good cost K w w' \<Longrightarrow> K \<subseteq> K' \<Longrightarrow> fair held good cost K' w w'"
  unfolding fair_def by blast

lemma fair_same:
  "good (lu_state w) \<Longrightarrow> lu_state w' = lu_state w \<Longrightarrow> receipts w' = receipts w \<Longrightarrow>
     fair held good cost K w w'"
  by (simp add: fair_def account_def receipt_keys_def)

lemma length_update_le: "length xs \<le> length (AList.update k v xs)"
  by (induction xs) auto

lemma sum_one_less:
  fixes f g :: "string \<Rightarrow> int"
  assumes "finite U" "\<And>v. v \<noteq> u \<Longrightarrow> g v = f v" "f u - c \<le> g u" "0 \<le> c"
  shows "(\<Sum>v\<in>U. f v) - c \<le> (\<Sum>v\<in>U. g v)"
proof (cases "u \<in> U")
  case True
  have "(\<Sum>v\<in>U - {u}. f v) = (\<Sum>v\<in>U - {u}. g v)" using assms(2) by (intro sum.cong) auto
  with assms(1,3) True show ?thesis by (simp add: sum.remove[of U u])
next
  case False
  then have "(\<Sum>v\<in>U. f v) = (\<Sum>v\<in>U. g v)" by (intro sum.cong refl) (metis assms(2))
  with assms(4) show ?thesis by simp
qed

lemma fair_receipt:
  "good (lu_state w) \<Longrightarrow> 0 \<le> cost \<Longrightarrow> k \<in> K \<Longrightarrow> lu_state w' = lu_state w \<Longrightarrow>
     receipts w' = AList.update k r (receipts w) \<Longrightarrow> fair held good cost K w w'"
  using length_update_le[of "receipts w" k r]
  by (auto simp: fair_def account_def receipt_keys_def distinct_update dom_update
      intro: mult_left_mono)

lemma call_op_same:
  "call_op h eff w = (r, w') \<Longrightarrow> (\<And>v. lu_state (eff v) = lu_state v \<and> receipts (eff v) = receipts v) \<Longrightarrow>
     lu_state w' = lu_state w \<and> receipts w' = receipts w"
  by (cases "op_fate h (nops w)") (auto simp: call_op_def next_op_def Let_def)

lemma SaveMatchReceipt_cases:
  assumes "SaveMatchReceipt h pf mid sid w = (r, w')"
  shows "lu_state w' = lu_state w \<and>
    (receipts w' = receipts w \<and> r \<noteq> Inr False \<or>
     receipt_key pf mid sid \<notin> receipt_keys w \<and>
     (\<exists>x. receipts w' = AList.update (receipt_key pf mid sid) x (receipts w)))"
  using assms
  by (cases "op_fate h (nops w)"; cases "op_fate h (Suc (nops w))")
    (auto simp: SaveMatchReceipt_def call_op_def next_op_def error_of_def Let_def receipt_keys_def
      split: option.splits if_splits dest: map_of_eq_None_iff[THEN iffD1])

lemma basic_loop_same:
  "basic_loop h mid pf path ss w = (r, w') \<Longrightarrow> lu_state w' = lu_state w \<and> receipts w' = receipts w"
proof (induction ss arbitrary: w)
  case (Cons s ss)
  let ?msg = "\<lparr>biMatchDetailsPath = path, biMatchId = mid, biPlatformId = pf, biSummonerId = s\<rparr>"
  let ?eff = "\<lambda>w. w\<lparr>basicIngestTopic := basicIngestTopic w @ [?msg]\<rparr>"
  obtain e w1 where c: "call_op h ?eff w = (e, w1)"
    by (cases "call_op h ?eff w") blast
  have w1: "lu_state w1 = lu_state w \<and> receipts w1 = receipts w"
    using c by (rule call_op_same) simp
  show ?case
  proof (cases "LolBasicStatsIngest_Valid ?msg \<and> e = None")
    case True
    with Cons.prems c have "basic_loop h mid pf path ss w1 = (r, w')" by (simp add: Let_def)
    from Cons.IH[OF this] w1 show ?thesis by simp
  next
    case False
    with Cons.prems c have "w' = w \<or> w' = w1" by (auto simp: Let_def split: if_splits option.splits)
    with w1 show ?thesis by auto
  qed
qed simp

subsection \<open>The contract\<close>

locale points_ledger =
  fixes client :: "'s lol_users_client"
    and held :: "'s \<Rightarrow> string \<Rightarrow> int"
    and good :: "'s \<Rightarrow> bool"
  assumes list_good: "good s \<Longrightarrow> good (snd (lu_List client token req s))"
    and list_held: "good s \<Longrightarrow> held (snd (lu_List client token req s)) v = held s v"
    and list_asked: "good s \<Longrightarrow> lu_List client token req s = (Inr us, s') \<Longrightarrow> lrUserId req = [] \<Longrightarrow>
      lrSummonerIds req \<noteq> [] \<Longrightarrow> u \<in> set us \<Longrightarrow> \<exists>i\<in>set (lrSummonerIds req). pbSummonerId u = show_int i"
    and adjust_good: "good s \<Longrightarrow> is_int64 (vpAmount vreq) \<Longrightarrow> good (snd (lu_Adjust client token vreq s))"
    and adjust_held: "good s \<Longrightarrow> is_int64 (vpAmount vreq) \<Longrightarrow> \<not> vpAbsolute vreq \<Longrightarrow>
      held (snd (lu_Adjust client token vreq s)) = held s \<or>
      held (snd (lu_Adjust client token vreq s)) =
        (held s)(vpUserId vreq := held s (vpUserId vreq) + vpAmount vreq)"
begin

lemma fair_list:
  assumes "good (lu_state w)" "on_users (lu_List client token req) w = (r, w')"
  shows "fair held good cost K w w'"
  using assms list_good[of "lu_state w" token req] list_held[of "lu_state w" token req]
  by (auto simp: on_users_def fair_def account_def receipt_keys_def split: prod.splits)

text \<open>A new receipt, and then the charge: the receipt covers it.\<close>

lemma fair_charge:
  assumes "good (lu_state w)" "0 \<le> cost" "is_int64 (0 - cost)"
    and "lu_state w1 = lu_state w" "k \<notin> receipt_keys w" "k \<in> K"
    and "receipts w1 = AList.update k x (receipts w)"
    and "on_users (lu_Adjust client token \<lparr>vpUserId = u, vpAmount = 0 - cost, vpAbsolute = False\<rparr>) w1 = (r, w2)"
  shows "fair held good cost K w w2"
proof -
  let ?req = "\<lparr>vpUserId = u, vpAmount = 0 - cost, vpAbsolute = False\<rparr>"
  let ?s = "snd (lu_Adjust client token ?req (lu_state w))"
  have w2: "lu_state w2 = ?s" "receipts w2 = receipts w1"
    using assms(4,8) by (auto simp: on_users_def split: prod.splits)
  have n: "length (receipts w2) = Suc (length (receipts w))"
    using w2(2) assms(5,7) update_fresh[of k "receipts w" x] by (simp add: receipt_keys_def)
  have le: "held ?s v = held (lu_state w) v" if "v \<noteq> u" for v
    using adjust_held[OF assms(1), of ?req token] assms(3) that by auto
  have u: "held (lu_state w) u - cost \<le> held ?s u"
    using adjust_held[OF assms(1), of ?req token] assms(2,3) by auto
  have "(\<Sum>v\<in>U. held (lu_state w) v) - cost \<le> (\<Sum>v\<in>U. held ?s v)" if "finite U" for U
    using that le u assms(2) by (rule sum_one_less)
  then have "account held cost U w \<le> account held cost U w2" if "finite U" for U
    using that n w2(1) by (auto simp: account_def algebra_simps)
  with w2 assms adjust_good[OF assms(1), of ?req token] show ?thesis
    by (auto simp: fair_def receipt_keys_def distinct_update dom_update)
qed

lemma fair_loop:
  assumes "elogen_loop h md us acc w = (r, w')" "luClient h = client" "good (lu_state w)"
    and "0 \<le> matchCostVP h" "is_int64 (0 - matchCostVP h)"
    and "\<And>u i. u \<in> set us \<Longrightarrow> parse_int (pbSummonerId u) = Some i \<Longrightarrow>
           receipt_key (MatchPlatform md) (MatchID md) i \<in> K"
  shows "fair held good (matchCostVP h) K w w'"
  using assms
proof (induction us arbitrary: acc w)
  case Nil
  then show ?case by (simp add: fair_refl)
next
  case (Cons u us)
  have IH: "fair held good (matchCostVP h) K v w'"
    if "elogen_loop h md us a v = (r, w')" "good (lu_state v)" for a v
    using that Cons.prems by (intro Cons.IH) auto
  show ?case
  proof (cases "pbVantagePointBalance u < matchCostVP h \<or> parse_int (pbSummonerId u) = None")
    case True
    with Cons.prems(1) have "elogen_loop h md us acc w = (r, w')"
      by (auto split: if_splits)
    then show ?thesis using Cons.prems(3) by (rule IH)
  next
    case False
    then obtain i where i: "parse_int (pbSummonerId u) = Some i" by auto
    let ?k = "receipt_key (MatchPlatform md) (MatchID md) i"
    have k: "?k \<in> K" using Cons.prems(6)[of u i] i by simp
    obtain q w1 where s: "SaveMatchReceipt h (MatchPlatform md) (MatchID md) i w = (q, w1)"
      by (metis prod.exhaust)
    note sc = SaveMatchReceipt_cases[OF s]
    have f1: "fair held good (matchCostVP h) K w w1"
      using sc Cons.prems(3,4) k by (auto intro: fair_same fair_receipt)
    then have g1: "good (lu_state w1)" by (simp add: fair_def)
    show ?thesis
    proof (cases q)
      case (Inl e)
      with Cons.prems(1) False i s f1 show ?thesis by simp
    next
      case (Inr b)
      show ?thesis
      proof (cases b)
        case True
        with Cons.prems(1) False i s Inr have "elogen_loop h md us (acc @ [i]) w1 = (r, w')" by simp
        with IH g1 f1 show ?thesis by (blast intro: fair_trans)
      next
        case b: False
        obtain e w2 where a: "on_users (lu_Adjust (luClient h) (internalKey h)
            \<lparr>vpUserId = pbUserId u, vpAmount = 0 - matchCostVP h, vpAbsolute = False\<rparr>) w1 = (e, w2)"
          by (metis prod.exhaust)
        from sc Inr b obtain x where "?k \<notin> receipt_keys w" "receipts w1 = AList.update ?k x (receipts w)"
          "lu_state w1 = lu_state w" by auto
        then have f2: "fair held good (matchCostVP h) K w w2"
          using fair_charge[OF Cons.prems(3,4,5)] k a Cons.prems(2) by blast
        then have g2: "good (lu_state w2)" by (simp add: fair_def)
        show ?thesis
        proof (cases e)
          case (Some er)
          with Cons.prems(1) False i s Inr b a f2 show ?thesis by simp
        next
          case None
          with Cons.prems(1) False i s Inr b a have "elogen_loop h md us (acc @ [i]) w2 = (r, w')"
            by simp
          with IH g2 f2 show ?thesis by (blast intro: fair_trans)
        qed
      qed
    qed
  qed
qed

lemma fair_Handle:
  assumes "Handle h data w = (r, w')" "luClient h = client" "good (lu_state w)"
    and "0 \<le> matchCostVP h" "is_int64 (0 - matchCostVP h)"
    and K: "\<And>msg n md p i. data = Some msg \<Longrightarrow> read_file h n (remotePath h msg) = Inr md \<Longrightarrow>
      p \<in> set (Players md) \<Longrightarrow> parse_int (show_int p) = Some i \<Longrightarrow>
      receipt_key (MatchPlatform md) (MatchID md) i \<in> K"
  shows "fair held good (matchCostVP h) K w w'"
proof -
  let ?F = "fair held good (matchCostVP h) K"
  have refl: "?F w w" using assms(3) by (rule fair_refl)
  consider "w' = w" | msg where "data = Some msg" "LolMatchDownload_Valid msg"
    using assms(1) by (auto simp: Handle_def split: option.splits if_splits)
  then show ?thesis
  proof cases
    case 2
    let ?path = "remotePath h msg"
    let ?w1 = "next_op w"
    have f1: "?F w ?w1" "good (lu_state ?w1)"
      using assms(3) by (auto simp: next_op_def intro: fair_same)
    show ?thesis
    proof (cases "read_file h (nops w) ?path")
      case (Inl e)
      with 2 assms(1) f1 show ?thesis by (simp add: Handle_def getMatch_def Let_def)
    next
      case md: (Inr md)
      show ?thesis
      proof (cases "MatchDuration md < 600 \<or> length (Players md) \<noteq> 10")
        case True
        with 2 md assms(1) f1 show ?thesis
          by (auto simp: Handle_def getMatch_def Let_def split: if_splits)
      next
        case False
        let ?region = "RegionFromPlatform (PlatformFromString (mdPlatformId msg))"
        obtain us w2 where l: "getLolUsers h md ?region ?w1 = (us, w2)" by (metis prod.exhaust)
        have f2: "?F w w2" "good (lu_state w2)"
        proof -
          have "?F ?w1 w2"
            using l assms(2) by (intro fair_list[OF f1(2)]) (simp add: getLolUsers_def)
          with f1(1) show "?F w w2" by (rule fair_trans)
          then show "good (lu_state w2)" by (simp add: fair_def)
        qed
        show ?thesis
        proof (cases us)
          case (Inl e)
          with 2 md False l assms(1) f2 show ?thesis by (simp add: Handle_def getMatch_def Let_def)
        next
          case us: (Inr users)
          obtain b w3 where b: "sendBasicStats h md (mdMatchId msg) (PlatformFromString (mdPlatformId msg))
              ?path w2 = (b, w3)" by (metis prod.exhaust)
          then have same: "lu_state w3 = lu_state w2 \<and> receipts w3 = receipts w2"
            by (auto simp: sendBasicStats_def dest: basic_loop_same)
          with f2 have f3: "?F w w3" "good (lu_state w3)"
            by (auto intro: fair_trans[OF f2(1) fair_same])
          show ?thesis
          proof (cases "b \<noteq> None \<or> \<not> (length (mdObservedSummonerIds msg) > 0 \<and> mdKey msg \<noteq> [])")
            case True
            with 2 md False l us b assms(1) f3 show ?thesis
              by (auto simp: Handle_def getMatch_def Let_def split: option.splits if_splits)
          next
            case obs: False
            obtain e w4 where e: "sendElogen h users md ?path (mdKey msg) (mdReplayServer msg) w3 = (e, w4)"
              by (metis prod.exhaust)
            have w4: "w' = w4" using 2 md False l us b obs e assms(1)
              by (auto simp: Handle_def getMatch_def Let_def split: option.splits)
            obtain q w5 where q: "elogen_loop h md users [] w3 = (q, w5)" by (metis prod.exhaust)
            have "fair held good (matchCostVP h) K w3 w5"
            proof (rule fair_loop[OF q assms(2) f3(2) assms(4,5)])
              fix u i assume u: "u \<in> set users" "parse_int (pbSummonerId u) = Some i"
              have "Players md \<noteq> []" using False by auto
              then obtain p where p: "p \<in> set (Players md)" "pbSummonerId u = show_int p"
                using list_asked[OF f1(2), of "internalKey h" _ users "lu_state w2" u] l us u(1) assms(2)
                by (fastforce simp: getLolUsers_def on_users_def split: prod.splits)
              show "receipt_key (MatchPlatform md) (MatchID md) i \<in> K"
                using K[OF 2(1) md p(1)] u(2) p(2) by simp
            qed
            moreover have "lu_state w4 = lu_state w5 \<and> receipts w4 = receipts w5"
              using e q by (auto simp: sendElogen_def Let_def dest!: call_op_same
                  split: sum.splits if_splits)
            ultimately have "?F w3 w4" by (auto simp: fair_def account_def receipt_keys_def)
            with f3 w4 show ?thesis by (blast intro: fair_trans)
          qed
        qed
      qed
    qed
  qed (use refl in simp)
qed

lemma fair_deliveries:
  assumes "luClient h = client" "good (lu_state w)"
    and "0 \<le> matchCostVP h" "is_int64 (0 - matchCostVP h)"
    and "\<And>msg n md p i. Some msg \<in> set ds \<Longrightarrow> read_file h n (remotePath h msg) = Inr md \<Longrightarrow>
      p \<in> set (Players md) \<Longrightarrow> parse_int (show_int p) = Some i \<Longrightarrow>
      receipt_key (MatchPlatform md) (MatchID md) i \<in> K"
  shows "fair held good (matchCostVP h) K w (deliveries h ds w)"
  using assms
proof (induction ds arbitrary: w)
  case Nil
  then show ?case by (simp add: fair_refl)
next
  case (Cons d ds)
  obtain r w1 where h: "Handle h d w = (r, w1)" by (metis prod.exhaust)
  have "fair held good (matchCostVP h) K w w1"
    by (rule fair_Handle[OF h Cons.prems(1-4)]) (rule Cons.prems(5), auto)
  moreover from this have "good (lu_state w1)" by (simp add: fair_def)
  moreover from this have "fair held good (matchCostVP h) K w1 (deliveries h ds w1)"
    by (intro Cons.IH Cons.prems(1,3,4)) (auto intro: Cons.prems(5))
  ultimately show ?case using h by (auto intro: fair_trans)
qed

end

subsection \<open>The service keeps the contract\<close>

definition service_held :: "'c service \<times> nat \<Rightarrow> string \<Rightarrow> int" where
  "service_held s u =
     sum_list (map (\<lambda>(k, x). if UserID x = u then VantagePointBalance x else 0) (rows (store (fst s))))"

definition service_good :: "'c service \<times> nat \<Rightarrow> bool" where
  "service_good s \<longleftrightarrow> store_wf (store (fst s))"

lemma held_update:
  assumes "distinct (map fst xs)" "map_of xs k = Some x" "UserID y = UserID x"
  shows "sum_list (map (\<lambda>(k, x). if UserID x = u then VantagePointBalance x else (0 :: int))
           (AList.update k y xs)) =
    sum_list (map (\<lambda>(k, x). if UserID x = u then VantagePointBalance x else 0) xs) +
    (if UserID x = u then VantagePointBalance y - VantagePointBalance x else 0)"
  using assms
proof (induction xs)
  case (Cons z zs)
  then show ?case by (cases z) (auto split: if_splits)
qed simp

lemma held_rows: "rows (store (fst s)) = rows (store (fst s')) \<Longrightarrow> service_held s = service_held s'"
  by (simp add: service_held_def fun_eq_iff)

lemma rpc_cases:
  "snd (rpc rf f fail s) = (fst s, Suc (snd s)) \<or> snd (rpc rf f fail s) = (snd (f (fst s)), Suc (snd s))"
  by (cases "rf (snd s)"; cases "f (fst s)"; cases s) (auto simp: rpc_def)

lemma List_rows: "rows (store (snd (List_users p token req s))) = rows (store s)"
  using List_store[of p token req s] by (metis prod.collapse)

lemma List_asked:
  assumes "List_users p token req s = (Inr us, s')" "lrUserId req = []" "lrSummonerIds req \<noteq> []"
    and "u \<in> set us"
  shows "\<exists>i\<in>set (lrSummonerIds req). pbSummonerId u = show_int i"
proof -
  obtain vs w' where f: "fetchLolUsersBySummonerIds (datastore_of p) (lrRegion req) (lrSummonerIds req)
      (store s) = (Inr vs, w')" "us = map remarshal_out vs"
    using assms(1,2)
    by (auto simp: List_users_def on_store_def split: if_splits sum.splits prod.splits)
  from f(1) assms(3) obtain q where e: "fetch_each (datastore_of p) q (lrSummonerIds req) [] (store s) = (Inr vs, w')"
    by (auto simp: fetchLolUsersBySummonerIds_def Let_def)
  from f(2) assms(4) obtain v where v: "v \<in> set vs" "u = remarshal_out v" by auto
  from fetch_each_found[OF e v(1)] v(2) show ?thesis by (auto simp: remarshal_out_def)
qed

lemma Adjust_held:
  assumes "service_good s" "is_int64 (vpAmount req)" "\<not> vpAbsolute req"
    and "fst s' = snd (AdjustVantagePoints p token req (fst s))"
  shows "service_held s' = service_held s \<or>
    service_held s' = (service_held s)(vpUserId req := service_held s (vpUserId req) + vpAmount req)"
proof -
  obtain r t where rs: "AdjustVantagePoints p token req (fst s) = (r, t)" by (metis prod.exhaust)
  from Adjust_store[OF rs] show ?thesis
  proof (elim disjE conjE exE)
    assume "rows (store t) = rows (store (fst s))"
    with rs assms(4) show ?thesis by (intro disjI1 held_rows) simp
  next
    fix c w1 us q
    assume f: "fetchLolUserByUserId (datastore_of p) (vpUserId req) (store (fst s)) = (Inr us, w1)" "us \<noteq> []"
      "putLolUser (datastore_of p) (hd us) (vpAmount req) (vpAbsolute req) w1 = (q, store t)"
    have wf: "store_wf (store (fst s))" using assms(1) by (simp add: service_good_def)
    from adjust_row[OF f wf assms(2)] show ?thesis
    proof (elim disjE conjE exE)
      assume "rows (store t) = rows (store (fst s))"
      with rs assms(4) show ?thesis by (intro disjI1 held_rows) simp
    next
      fix k u b assume u: "map_of (rows (store (fst s))) k = Some u" "UserID u = vpUserId req"
        "b = (if vpAbsolute req then vpAmount req else VantagePointBalance u + vpAmount req)"
        "rows (store t) = AList.update k (u\<lparr>VantagePointBalance := b\<rparr>) (rows (store (fst s)))"
      have d: "distinct (map fst (rows (store (fst s))))" using wf by (simp add: store_wf_def)
      have "service_held s' = (service_held s)(vpUserId req := service_held s (vpUserId req) + vpAmount req)"
        using u rs assms(3,4) held_update[OF d u(1), of "u\<lparr>VantagePointBalance := b\<rparr>"]
        by (auto simp: service_held_def fun_eq_iff)
      then show ?thesis ..
    qed
  qed
qed

interpretation ledger: points_ledger "users_client p rf" service_held service_good for p rf
proof unfold_locales
  fix s :: "'a service \<times> nat" and token req v
  have same: "rows (store (fst (snd (lu_List (users_client p rf) token req s)))) = rows (store (fst s))"
    using rpc_cases[of rf "List_users p token req" Inl s] List_rows[of p token req "fst s"]
    by (auto simp: users_client_def)
  show "service_good (snd (lu_List (users_client p rf) token req s))" if "service_good s"
    using that same by (simp add: service_good_def store_wf_def)
  from held_rows[OF same]
  show "service_held (snd (lu_List (users_client p rf) token req s)) v = service_held s v" by simp
next
  fix s :: "'a service \<times> nat" and token req us s' u
  assume l: "lu_List (users_client p rf) token req s = (Inr us, s')" "lrUserId req = []"
    "lrSummonerIds req \<noteq> []" "u \<in> set us"
  then have "List_users p token req (fst s) = (Inr us, fst s')"
    by (auto simp: users_client_def rpc_def split: prod.splits fate.splits)
  then show "\<exists>i\<in>set (lrSummonerIds req). pbSummonerId u = show_int i"
    using l(2-4) by (rule List_asked)
next
  fix s :: "'a service \<times> nat" and token and vreq :: points_request
  assume "service_good s" "is_int64 (vpAmount vreq)"
  then show "service_good (snd (lu_Adjust (users_client p rf) token vreq s))"
    using rpc_cases[of rf "AdjustVantagePoints p token vreq" Some s] adjust_wf[of "fst s" vreq p token]
    by (auto simp: users_client_def service_good_def)
next
  fix s :: "'a service \<times> nat" and token and vreq :: points_request
  assume a: "service_good s" "is_int64 (vpAmount vreq)" "\<not> vpAbsolute vreq"
  let ?s = "snd (lu_Adjust (users_client p rf) token vreq s)"
  from rpc_cases[of rf "AdjustVantagePoints p token vreq" Some s]
  show "service_held ?s = service_held s \<or>
      service_held ?s = (service_held s)(vpUserId vreq := service_held s (vpUserId vreq) + vpAmount vreq)"
  proof
    assume "snd (rpc rf (AdjustVantagePoints p token vreq) Some s) = (fst s, Suc (snd s))"
    then show ?thesis by (intro disjI1 held_rows) (simp add: users_client_def)
  next
    assume "snd (rpc rf (AdjustVantagePoints p token vreq) Some s) =
      (snd (AdjustVantagePoints p token vreq (fst s)), Suc (snd s))"
    then show ?thesis by (intro Adjust_held[OF a]) (simp add: users_client_def)
  qed
qed


subsection \<open>Points taken\<close>

definition points_taken :: "string set \<Rightarrow> ('c service \<times> nat) world \<Rightarrow> ('c service \<times> nat) world \<Rightarrow> int" where
  "points_taken U w w' =
     (\<Sum>u\<in>U. service_held (lu_state w) u) - (\<Sum>u\<in>U. service_held (lu_state w') u)"

text \<open>
  over any deliveries, failures and retries, the points all users together lose are
  covered by receipts: at most the cost of a match for every receipt that is new.
\<close>

theorem charges_covered:
  assumes "luClient h = users_client p rf" "store_wf (store (fst (lu_state w)))" "finite U"
    and "0 \<le> matchCostVP h" "is_int64 (0 - matchCostVP h)"
  shows "points_taken U w (deliveries h ds w) \<le>
    matchCostVP h * (int (length (receipts (deliveries h ds w))) - int (length (receipts w)))"
proof -
  have "fair service_held service_good (matchCostVP h) UNIV w (deliveries h ds w)"
    using assms by (intro ledger.fair_deliveries) (simp_all add: service_good_def)
  with assms(3) have "account service_held (matchCostVP h) U w \<le>
      account service_held (matchCostVP h) U (deliveries h ds w)"
    by (simp add: fair_def)
  then show ?thesis by (simp add: account_def points_taken_def algebra_simps)
qed

text \<open>
  C2: however often the message of a match is delivered, the users lose at most the cost of
  the match for each of its players: no summoner is charged twice for a match.
\<close>

theorem redelivery_charges_once:
  assumes "luClient h = users_client p rf" "store_wf (store (fst (lu_state w)))" "finite U"
    and "0 \<le> matchCostVP h" "is_int64 (0 - matchCostVP h)"
    and "\<forall>n. read_file h n (remotePath h msg) = Inr md \<or> (\<exists>e. read_file h n (remotePath h msg) = Inl e)"
    and "list_all is_int64 (Players md)" "distinct (map fst (receipts w))"
  shows "points_taken U w (deliveries h (replicate n (Some msg)) w) \<le>
    matchCostVP h * int (card (set (Players md)))"
proof -
  let ?w = "deliveries h (replicate n (Some msg)) w"
  let ?K = "receipt_key (MatchPlatform md) (MatchID md) ` set (Players md)"
  have fair: "fair service_held service_good (matchCostVP h) ?K w ?w"
  proof (rule ledger.fair_deliveries[OF assms(1) _ assms(4,5)])
    show "service_good (lu_state w)" using assms(2) by (simp add: service_good_def)
    fix msg' k md' q i
    assume m: "Some msg' \<in> set (replicate n (Some msg))" "read_file h k (remotePath h msg') = Inr md'"
      "q \<in> set (Players md')" "parse_int (show_int q) = Some i"
    then have "md' = md" using assms(6) by (metis Inr_inject Inl_Inr_False in_set_replicate option.inject)
    moreover have "i = q"
      using m(3,4) assms(7) calculation
      by (auto simp: list_all_iff is_int64_def parse_show_int)
    ultimately show "receipt_key (MatchPlatform md') (MatchID md') i \<in> ?K" using m(3) by simp
  qed
  then have d: "distinct (map fst (receipts ?w))" and k: "receipt_keys ?w \<subseteq> receipt_keys w \<union> ?K"
    using assms(8) by (simp_all add: fair_def)
  have "card (receipt_keys ?w) \<le> card (receipt_keys w \<union> ?K)"
    using k by (intro card_mono) (auto simp: receipt_keys_def)
  also have "\<dots> \<le> card (receipt_keys w) + card ?K" by (rule card_Un_le)
  also have "card ?K \<le> card (set (Players md))" by (rule card_image_le) simp
  finally have len: "length (receipts ?w) \<le> length (receipts w) + card (set (Players md))"
    using distinct_card[OF d] distinct_card[OF assms(8)] by (simp add: receipt_keys_def)
  have "points_taken U w ?w \<le> matchCostVP h * (int (length (receipts ?w)) - int (length (receipts w)))"
    using fair assms(3) by (simp add: fair_def account_def points_taken_def algebra_simps)
  also have "\<dots> \<le> matchCostVP h * int (card (set (Players md)))"
    using len assms(4) by (intro mult_left_mono) auto
  finally show ?thesis .
qed

end
