(* ===== verification/Dispatch_Facts.thy ===== *)
theory Dispatch_Facts
  imports Dispatch_Ledger
begin

text \<open>
  What the dispatcher asks for: basic statistics of every player exactly once when it succeeds,
  and replay data only for summoners with a receipt. A charge that fails after its receipt was
  stored is not made up for. The last part applies the theorems to a dispatcher in front of
  the model of the lolusers service.
\<close>

subsection \<open>Replay data only with a receipt\<close>

lemma SaveMatchReceipt_key:
  assumes "SaveMatchReceipt h pf mid sid w = (r, w')"
  shows "receipt_keys w \<subseteq> receipt_keys w' \<and> eloTopic w' = eloTopic w \<and>
    basicIngestTopic w' = basicIngestTopic w \<and>
    (\<forall>b. r = Inr b \<longrightarrow> receipt_key pf mid sid \<in> receipt_keys w')"
proof -
  let ?k = "receipt_key pf mid sid"
  have c: "eloTopic w' = eloTopic w \<and> basicIngestTopic w' = basicIngestTopic w \<and>
    (receipts w' = receipts w \<and> (\<forall>b. r = Inr b \<longrightarrow> map_of (receipts w) ?k \<noteq> None) \<or>
     (\<exists>x. receipts w' = AList.update ?k x (receipts w)))"
    using assms
    by (cases "op_fate h (nops w)"; cases "op_fate h (Suc (nops w))")
      (auto simp: SaveMatchReceipt_def call_op_def next_op_def error_of_def Let_def
        split: option.splits)
  have u: "fst ` set (AList.update ?k x (receipts w)) = insert ?k (fst ` set (receipts w))" for x
    by (simp add: dom_update)
  have old: "map_of (receipts w) ?k \<noteq> None \<Longrightarrow> ?k \<in> fst ` set (receipts w)"
    by (simp add: map_of_eq_None_iff)
  from c show ?thesis
  proof (elim conjE disjE exE)
    fix x assume "receipts w' = AList.update ?k x (receipts w)"
    then have "receipt_keys w' = insert ?k (receipt_keys w)" by (simp only: receipt_keys_def u)
    with c show ?thesis by blast
  qed (use c old in \<open>simp add: receipt_keys_def\<close>)
qed

lemma on_users_same:
  "on_users f w = (r, w') \<Longrightarrow> receipt_keys w' = receipt_keys w \<and> eloTopic w' = eloTopic w \<and>
     basicIngestTopic w' = basicIngestTopic w"
  by (auto simp: on_users_def receipt_keys_def split: prod.splits)

lemma elogen_loop_receipts:
  assumes "elogen_loop h md us acc w = (r, w')"
    and "\<forall>i\<in>set acc. receipt_key (MatchPlatform md) (MatchID md) i \<in> receipt_keys w"
  shows "receipt_keys w \<subseteq> receipt_keys w' \<and> eloTopic w' = eloTopic w \<and>
    basicIngestTopic w' = basicIngestTopic w \<and>
    (\<forall>is. r = Inr is \<longrightarrow> (\<forall>i\<in>set is. receipt_key (MatchPlatform md) (MatchID md) i \<in> receipt_keys w'))"
  using assms
proof (induction us arbitrary: acc w)
  case (Cons u us)
  show ?case
  proof (cases "pbVantagePointBalance u < matchCostVP h \<or> parse_int (pbSummonerId u) = None")
    case True
    with Cons.prems(1) have "elogen_loop h md us acc w = (r, w')" by (auto split: if_splits)
    from Cons.IH[OF this Cons.prems(2)] show ?thesis .
  next
    case False
    then obtain i where i: "parse_int (pbSummonerId u) = Some i" by auto
    obtain q w1 where s: "SaveMatchReceipt h (MatchPlatform md) (MatchID md) i w = (q, w1)"
      by (cases "SaveMatchReceipt h (MatchPlatform md) (MatchID md) i w") blast
    note k = SaveMatchReceipt_key[OF s]
    show ?thesis
    proof (cases q)
      case (Inl e)
      with Cons.prems(1) False i s k show ?thesis by auto
    next
      case (Inr b)
      let ?req = "\<lparr>vpUserId = pbUserId u, vpAmount = 0 - matchCostVP h, vpAbsolute = False\<rparr>"
      obtain e w2 where a: "on_users (lu_Adjust (luClient h) (internalKey h) ?req) w1 = (e, w2)"
        by (cases "on_users (lu_Adjust (luClient h) (internalKey h) ?req) w1") blast
      have acc: "\<forall>j\<in>set (acc @ [i]). receipt_key (MatchPlatform md) (MatchID md) j \<in> receipt_keys w1"
        using Cons.prems(2) k Inr by auto
      show ?thesis
      proof (cases "b \<or> e = None")
        case True
        let ?v = "if b then w1 else w2"
        have v: "receipt_keys ?v = receipt_keys w1" "eloTopic ?v = eloTopic w1"
          "basicIngestTopic ?v = basicIngestTopic w1"
          using on_users_same[OF a] by auto
        have "elogen_loop h md us (acc @ [i]) ?v = (r, w')"
          using Cons.prems(1) False i s Inr a True by (cases b) auto
        from Cons.IH[OF this] acc v k show ?thesis by auto
      next
        case no: False
        then have "w' = w2" "\<forall>is. r \<noteq> Inr is"
          using Cons.prems(1) False i s Inr a by auto
        with on_users_same[OF a] k show ?thesis by auto
      qed
    qed
  qed
qed auto

text \<open>The step of the handler that may publish a request for replay data.\<close>

definition receipts_kept :: "'s world \<Rightarrow> bool" where
  "receipts_kept w \<longleftrightarrow> (\<forall>m\<in>set (eloTopic w). \<forall>i\<in>set (reSummonerIds m).
     receipt_key (rePlatformId m) (reMatchId m) i \<in> receipt_keys w)"

lemma unique_from_set: "set (unique_from seen is) = set is - set seen"
  by (induction seen "is" rule: unique_from.induct) auto

lemma uniqueInts_set [simp]: "set (uniqueInts is) = set is"
  by (simp add: uniqueInts_def unique_from_set)

lemma unique_from_distinct: "distinct (unique_from seen is)"
  by (induction seen "is" rule: unique_from.induct) (auto simp: unique_from_set)

lemma sendElogen_receipts:
  assumes "sendElogen h us md path key srv w = (e, w')" "receipts_kept w"
  shows "receipts_kept w' \<and> receipt_keys w \<subseteq> receipt_keys w' \<and>
    basicIngestTopic w' = basicIngestTopic w"
proof -
  obtain r w1 where l: "elogen_loop h md us [] w = (r, w1)"
    by (cases "elogen_loop h md us [] w") blast
  have k: "receipt_keys w \<subseteq> receipt_keys w1" "eloTopic w1 = eloTopic w"
    "basicIngestTopic w1 = basicIngestTopic w"
    "\<And>is. r = Inr is \<Longrightarrow> \<forall>i\<in>set is. receipt_key (MatchPlatform md) (MatchID md) i \<in> receipt_keys w1"
    using elogen_loop_receipts[OF l] by auto
  have w1: "receipts_kept w1" using assms(2) k(1,2) by (auto simp: receipts_kept_def)
  show ?thesis
  proof (cases "w' = w1")
    case True
    with w1 k show ?thesis by simp
  next
    case False
    with assms(1) l obtain ids where r: "r = Inr ids" by (auto simp: sendElogen_def split: sum.splits)
    have "receipts w' = receipts w1 \<and> basicIngestTopic w' = basicIngestTopic w1 \<and>
        (eloTopic w' = eloTopic w1 \<or>
         (\<exists>m. eloTopic w' = eloTopic w1 @ [m] \<and> rePlatformId m = MatchPlatform md \<and>
              reMatchId m = MatchID md \<and> reSummonerIds m = uniqueInts ids))"
      using assms(1) l r False
      by (cases "op_fate h (nops w1)")
        (auto simp: sendElogen_def call_op_def next_op_def Let_def split: if_splits)
    with w1 k r show ?thesis by (auto simp: receipts_kept_def receipt_keys_def)
  qed
qed

lemma sendElogen_basic:
  assumes "sendElogen h us md path key srv w = (e, w')"
  shows "basicIngestTopic w' = basicIngestTopic w"
proof -
  obtain r w1 where l: "elogen_loop h md us [] w = (r, w1)"
    by (cases "elogen_loop h md us [] w") blast
  have "basicIngestTopic w1 = basicIngestTopic w" using elogen_loop_receipts[OF l] by simp
  then show ?thesis
    using assms l
    by (cases "op_fate h (nops w1)")
      (auto simp: sendElogen_def call_op_def next_op_def Let_def split: sum.splits if_splits)
qed

lemma basic_step:
  assumes "basic_loop h mid pf path (s # ss) w = (r, w')"
  obtains "w' = w" "r \<noteq> None"
  | v where "v = w \<or> v = w\<lparr>basicIngestTopic := basicIngestTopic w @
        [\<lparr>biMatchDetailsPath = path, biMatchId = mid, biPlatformId = pf, biSummonerId = s\<rparr>]\<rparr>"
      "w' = next_op v" "r \<noteq> None"
  | "basic_loop h mid pf path ss (next_op (w\<lparr>basicIngestTopic := basicIngestTopic w @
        [\<lparr>biMatchDetailsPath = path, biMatchId = mid, biPlatformId = pf, biSummonerId = s\<rparr>]\<rparr>)) = (r, w')"
  using assms
  by (cases "op_fate h (nops w)") (auto simp: call_op_def error_of_def Let_def split: if_splits)

lemma basic_loop_topics:
  "basic_loop h mid pf path ss w = (r, w') \<Longrightarrow>
     eloTopic w' = eloTopic w \<and> receipts w' = receipts w \<and>
     (r = None \<longrightarrow> basicIngestTopic w' = basicIngestTopic w @
       map (\<lambda>s. \<lparr>biMatchDetailsPath = path, biMatchId = mid, biPlatformId = pf, biSummonerId = s\<rparr>) ss)"
proof (induction ss arbitrary: w)
  case (Cons s ss)
  from Cons.prems show ?case
  proof (cases rule: basic_step)
    case 3
    from Cons.IH[OF this] show ?thesis by (simp add: next_op_def)
  qed (auto simp: next_op_def)
qed simp

text \<open>What a delivery of a match that is long enough goes through, up to its end.\<close>

lemma Handle_played:
  assumes "Handle h (Some msg) w = (r, w')" "read_file h (nops w) (remotePath h msg) = Inr md"
    and "LolMatchDownload_Valid msg" "600 \<le> MatchDuration md" "length (Players md) = 10"
  obtains us w2 where "getLolUsers h md (RegionFromPlatform (PlatformFromString (mdPlatformId msg))) (next_op w) = (Inl us, w2)"
      "w' = w2" "r \<noteq> None"
  | us w2 e w3 where "getLolUsers h md (RegionFromPlatform (PlatformFromString (mdPlatformId msg))) (next_op w) = (Inr us, w2)"
      "sendBasicStats h md (mdMatchId msg) (PlatformFromString (mdPlatformId msg)) (remotePath h msg) w2 = (e, w3)"
      "r = None \<longrightarrow> e = None"
      "w' = w3 \<or> (\<exists>e'. sendElogen h us md (remotePath h msg) (mdKey msg) (mdReplayServer msg) w3 = (e', w'))"
proof -
  let ?reg = "RegionFromPlatform (PlatformFromString (mdPlatformId msg))"
  obtain us w2 where l: "getLolUsers h md ?reg (next_op w) = (us, w2)"
    by (cases "getLolUsers h md ?reg (next_op w)") blast
  show ?thesis
  proof (cases us)
    case (Inl e)
    with assms l show ?thesis
      by (intro that(1)[of e w2]) (auto simp: Handle_def getMatch_def Let_def)
  next
    case (Inr users)
    obtain e w3 where b: "sendBasicStats h md (mdMatchId msg) (PlatformFromString (mdPlatformId msg))
        (remotePath h msg) w2 = (e, w3)"
      by (cases "sendBasicStats h md (mdMatchId msg) (PlatformFromString (mdPlatformId msg))
        (remotePath h msg) w2") blast
    obtain e' w4 where s: "sendElogen h users md (remotePath h msg) (mdKey msg) (mdReplayServer msg) w3 = (e', w4)"
      by (cases "sendElogen h users md (remotePath h msg) (mdKey msg) (mdReplayServer msg) w3") blast
    show ?thesis
      using assms l Inr b s
      by (intro that(2)[of users w2 e w3])
        (auto simp: Handle_def getMatch_def Let_def split: option.splits if_splits)
  qed
qed

lemma Handle_other:
  assumes "Handle h data w = (r, w')"
  obtains "w' = w" | "w' = next_op w"
  | msg md where "data = Some msg" "LolMatchDownload_Valid msg"
      "read_file h (nops w) (remotePath h msg) = Inr md" "600 \<le> MatchDuration md" "length (Players md) = 10"
  using assms
  by (auto simp: Handle_def getMatch_def Let_def split: option.splits if_splits sum.splits)

lemma kept_same: "eloTopic w' = eloTopic w \<Longrightarrow> receipts w' = receipts w \<Longrightarrow> receipts_kept w \<Longrightarrow> receipts_kept w'"
  by (simp add: receipts_kept_def receipt_keys_def)

lemma getLolUsers_same:
  "getLolUsers h md reg w = (us, w') \<Longrightarrow> eloTopic w' = eloTopic w \<and> receipts w' = receipts w \<and>
     basicIngestTopic w' = basicIngestTopic w"
  by (auto simp: getLolUsers_def on_users_def split: prod.splits)

lemma Handle_kept:
  assumes "Handle h data w = (r, w')" "receipts_kept w"
  shows "receipts_kept w'"
  using assms(1)
proof (cases rule: Handle_other)
  case (3 msg md)
  have n: "receipts_kept (next_op w)" by (rule kept_same[OF _ _ assms(2)]) (simp_all add: next_op_def)
  from assms(1)[unfolded 3(1)] 3(3,2,4,5) show ?thesis
  proof (cases rule: Handle_played)
    case (1 e w2)
    with kept_same[OF _ _ n, of w2] getLolUsers_same[OF 1(1)] show ?thesis by simp
  next
    case (2 us w2 e w3)
    have w2: "receipts_kept w2" using kept_same[OF _ _ n, of w2] getLolUsers_same[OF 2(1)] by simp
    from 2(2) have "eloTopic w3 = eloTopic w2 \<and> receipts w3 = receipts w2"
      by (auto simp: sendBasicStats_def dest: basic_loop_topics)
    with kept_same[OF _ _ w2, of w3] have "receipts_kept w3" by simp
    with 2(4) show ?thesis by (auto dest: sendElogen_receipts)
  qed
qed (use assms(2) in \<open>auto simp: next_op_def receipts_kept_def receipt_keys_def\<close>)

text \<open>
  C20: replay data is only ever asked for summoners who have a receipt for the match.
\<close>

theorem extracts_have_receipts:
  assumes "eloTopic w = []" and "m \<in> set (eloTopic (deliveries h ds w))" and "i \<in> set (reSummonerIds m)"
  shows "receipt_key (rePlatformId m) (reMatchId m) i \<in> receipt_keys (deliveries h ds w)"
proof -
  have "receipts_kept v \<Longrightarrow> receipts_kept (deliveries h ds v)" for v
  proof (induction ds arbitrary: v)
    case (Cons d ds)
    obtain r v1 where "Handle h d v = (r, v1)" by (cases "Handle h d v") blast
    with Cons Handle_kept[OF this] show ?case by simp
  qed simp
  moreover have "receipts_kept w" using assms(1) by (simp add: receipts_kept_def)
  ultimately show ?thesis using assms(2,3) by (simp add: receipts_kept_def)
qed

text \<open>
  a delivery that ends without an error has asked for the basic statistics of every
  player of the match, once each, in the order of the match.
\<close>

theorem basic_stats_requested:
  assumes "Handle h (Some msg) w = (None, w')" "read_file h (nops w) (remotePath h msg) = Inr md"
    and "600 \<le> MatchDuration md" "length (Players md) = 10"
  shows "basicIngestTopic w' = basicIngestTopic w @
      map (\<lambda>s. \<lparr>biMatchDetailsPath = remotePath h msg, biMatchId = mdMatchId msg,
              biPlatformId = PlatformFromString (mdPlatformId msg), biSummonerId = s\<rparr>)
        (uniqueInts (Players md)) \<and>
    distinct (uniqueInts (Players md)) \<and> set (uniqueInts (Players md)) = set (Players md)"
proof -
  have "LolMatchDownload_Valid msg" using assms(1) by (auto simp: Handle_def split: if_splits)
  with assms show ?thesis
  proof (cases rule: Handle_played[OF assms(1,2) _ assms(3,4), case_names v one two])
    case (two us w2 e w3)
    have "basicIngestTopic w3 = basicIngestTopic w2 @
        map (\<lambda>s. \<lparr>biMatchDetailsPath = remotePath h msg, biMatchId = mdMatchId msg,
              biPlatformId = PlatformFromString (mdPlatformId msg), biSummonerId = s\<rparr>)
        (uniqueInts (Players md))"
      using two(2,3) by (auto simp: sendBasicStats_def dest: basic_loop_topics)
    moreover have "basicIngestTopic w' = basicIngestTopic w3"
      using two(4)
    proof (elim disjE exE)
      fix e' assume s: "sendElogen h us md (remotePath h msg) (mdKey msg) (mdReplayServer msg) w3 = (e', w')"
      from sendElogen_basic[OF s] show ?thesis .
    qed simp
    ultimately show ?thesis using getLolUsers_same[OF two(1)]
      by (simp add: next_op_def uniqueInts_def unique_from_distinct unique_from_set)
  qed simp_all
qed


subsection \<open>The dispatcher in front of the service\<close>

definition ten :: "int list" where
  "ten = [11, 12, 13, 14, 15, 16, 17, 18, 19, 20]"

definition observed :: match_download where
  "observed = \<lparr>mdKey = ''key'', mdMatchId = 7, mdPlatformId = ''NA1'', mdObservedSummonerIds = [11],
     mdReplayServer = ''srv''\<rparr>"

definition a_match :: match_detail where
  "a_match = \<lparr>MatchDuration = 1800, MatchID = 7, MatchVersion = ''7.1'', MatchPlatform = ''NA1'',
     Players = ten\<rparr>"

definition dispatcher :: "(nat \<Rightarrow> fate) \<Rightarrow> (unit service \<times> nat) dispatch_handler" where
  "dispatcher rf = \<lparr>luClient = users_client demo_peers rf, matchDir = ''dir'', internalKey = ''internal'',
     matchCostVP = 200, op_fate = \<lambda>_. Done, read_file = \<lambda>_ _. Inr a_match, ctx_Err = \<lambda>_. None\<rparr>"

definition idle :: "(unit service \<times> nat) world" where
  "idle = \<lparr>lu_state = (with_ana, 0), receipts = [], eloTopic = [], basicIngestTopic = [], nops = 0\<rparr>"

definition second_fails :: "nat \<Rightarrow> fate" where
  "second_fails n = (if n = 1 then Refused ''unavailable'' else Done)"

definition loaded :: "nat \<Rightarrow> unit service" where
  "loaded n = with_ana\<lparr>store := (store with_ana)\<lparr>ncalls := n\<rparr>\<rparr>"

lemma ana_rows: "rows (store with_ana) = [(''101'', ana)]"
  using ana_created ..

lemma show_tens: "show_int 12 = ''12''" "show_int 13 = ''13''" "show_int 14 = ''14''"
  "show_int 15 = ''15''" "show_int 16 = ''16''" "show_int 17 = ''17''" "show_int 18 = ''18''"
  "show_int 19 = ''19''" "show_int 20 = ''20''"
  by code_simp+

text \<open>The service finds one user in the match: Ana.\<close>

lemma ana_listed:
  "List_users demo_peers ''internal'' \<lparr>lrUserId = [], lrSummonerIds = ten, lrRegion = ''na''\<rparr> (loaded n) =
     (Inr [remarshal_out (ana\<lparr>ID := ''101''\<rparr>)], loaded (n + 10))"
  by (simp add: List_users_def ListLolUsersRequest_Valid_def ValidateCtxClaims_def demo_peers_def
      demo_check_def HasPrivilege_def on_store_def loaded_def fetchLolUsersBySummonerIds_def ten_def
      GetAll_def demo_store_def tick_def ana_rows show_tens show_11 ana_def named_def)

lemma ana_adjust:
  "AdjustVantagePoints demo_peers ''internal''
     \<lparr>vpUserId = ''ana'', vpAmount = -200, vpAbsolute = False\<rparr> (loaded n) =
   (None, (loaded (n + 3))\<lparr>store := (store (loaded (n + 3)))\<lparr>rows := [(''101'', ana\<lparr>VantagePointBalance := 200\<rparr>)]\<rparr>\<rparr>)"
  by (simp add: service_defs demo_peers_def demo_check_def demo_store_def HasPrivilege_def loaded_def
      ana_rows ana_def add64_def wrap64_def)

lemma loaded_ana: "with_ana = loaded 4"
  using with_ana_calls by (metis (no_types) db.surjective db.update_convs(3) loaded_def service.surjective service.update_convs(1))

lemma observed_path: "remotePath (dispatcher rf) observed = ''dir/7-na.json''"
  unfolding remotePath_def dispatcher_def observed_def dispatch_handler.simps match_download.simps
  by code_simp

lemma na1: "PlatformFromString ''NA1'' = ''NA1''" "RegionFromPlatform ''NA1'' = ''NA''"
  "region_string ''NA'' = ''na''"
  by code_simp+

lemma ten_unique: "uniqueInts ten = ten"
  by code_simp

definition ana_key :: string where
  "ana_key = receipt_key ''NA1'' 7 11"

definition ana_receipt :: "(string \<times> match_receipt) list" where
  "ana_receipt = [(ana_key, \<lparr>rcMatchID = 7, rcPlatformID = ''NA1'', rcSummonerID = 11\<rparr>)]"

definition basics :: "basic_ingest list" where
  "basics = map (\<lambda>s. \<lparr>biMatchDetailsPath = ''dir/7-na.json'', biMatchId = 7, biPlatformId = ''NA1'',
     biSummonerId = s\<rparr>) ten"

definition ana_extract :: replay_extract where
  "ana_extract = \<lparr>reGameLengthSeconds = 1800, reKey = ''key'', reMatchDetailsPath = ''dir/7-na.json'',
     reMatchId = 7, reMatchVersion = ''7.1'', rePlatformId = ''NA1'', reSpectatorServer = ''srv'',
     reSummonerIds = [11]\<rparr>"

lemma demo_list:
  assumes "rf k = Done" "lu_state w = (loaded n, k)"
  shows "getLolUsers (dispatcher rf) a_match ''NA'' w =
    (Inr [remarshal_out (ana\<lparr>ID := ''101''\<rparr>)], w\<lparr>lu_state := (loaded (n + 10), Suc k)\<rparr>)"
  using assms
  by (simp add: getLolUsers_def on_users_def dispatcher_def users_client_def rpc_def a_match_def
      na1 ana_listed)

lemma demo_basics:
  "sendBasicStats (dispatcher rf) a_match 7 ''NA1'' ''dir/7-na.json'' w =
     (None, w\<lparr>basicIngestTopic := basicIngestTopic w @ basics, nops := nops w + 10\<rparr>)"
  unfolding sendBasicStats_def a_match_def match_detail.simps ten_unique
  by (simp add: ten_def basics_def LolBasicStatsIngest_Valid_def call_op_def dispatcher_def
      error_of_def next_op_def)


lemma demo_handle:
  assumes "rf k = Done" "lu_state w = (loaded n, k)"
  shows "Handle (dispatcher rf) (Some observed) w =
    sendElogen (dispatcher rf) [remarshal_out (ana\<lparr>ID := ''101''\<rparr>)] a_match ''dir/7-na.json'' ''key'' ''srv''
      (w\<lparr>lu_state := (loaded (n + 10), Suc k), basicIngestTopic := basicIngestTopic w @ basics,
         nops := 11 + nops w\<rparr>)"
proof -
  have r: "read_file (dispatcher rf) i p = Inr a_match" "ctx_Err (dispatcher rf) i = None" for i p
    by (simp_all add: dispatcher_def)
  have m: "LolMatchDownload_Valid observed" "mdPlatformId observed = ''NA1''" "mdMatchId observed = 7"
    "mdKey observed = ''key''" "mdReplayServer observed = ''srv''" "mdObservedSummonerIds observed = [11]"
    by (simp_all add: observed_def LolMatchDownload_Valid_def)
  have a: "MatchDuration a_match = 1800" "length (Players a_match) = 10"
    by (simp_all add: a_match_def ten_def)
  have l: "getLolUsers (dispatcher rf) a_match ''NA'' (next_op w) =
      (Inr [remarshal_out (ana\<lparr>ID := ''101''\<rparr>)], (next_op w)\<lparr>lu_state := (loaded (n + 10), Suc k)\<rparr>)"
    using assms by (intro demo_list) (simp_all add: next_op_def)
  show ?thesis
    unfolding Handle_def option.case m a observed_path na1 getMatch_def r l Let_def prod.case sum.case
    by (auto simp: demo_basics next_op_def m r a l na1 split: prod.splits option.splits)
qed

lemma demo_save:
  assumes "receipts w = []"
  shows "SaveMatchReceipt (dispatcher rf) ''NA1'' 7 11 w = (Inr False, w\<lparr>receipts := ana_receipt, nops := nops w + 2\<rparr>)"
  using assms
  by (simp add: SaveMatchReceipt_def call_op_def dispatcher_def error_of_def next_op_def
      ana_receipt_def ana_key_def Let_def)

lemma demo_saved:
  assumes "receipts w = ana_receipt"
  shows "SaveMatchReceipt (dispatcher rf) ''NA1'' 7 11 w = (Inr True, w\<lparr>nops := nops w + 1\<rparr>)"
  using assms
  by (simp add: SaveMatchReceipt_def call_op_def dispatcher_def error_of_def next_op_def
      ana_receipt_def ana_key_def Let_def)

lemma demo_refused:
  assumes "receipts w = []" "lu_state w = (s, k)" "rf k = Refused e"
  shows "sendElogen (dispatcher rf) [remarshal_out (ana\<lparr>ID := ''101''\<rparr>)] a_match ''dir/7-na.json'' ''key'' ''srv'' w =
    (Some e, w\<lparr>receipts := ana_receipt, lu_state := (s, Suc k), nops := nops w + 2\<rparr>)"
  using assms demo_save[OF assms(1), of rf]
  by (simp add: sendElogen_def a_match_def remarshal_out_def ana_def parse_11 on_users_def
      users_client_def rpc_def dispatcher_def)

lemma demo_free:
  assumes "receipts w = ana_receipt"
  shows "sendElogen (dispatcher rf) [remarshal_out (ana\<lparr>ID := ''101''\<rparr>)] a_match ''dir/7-na.json'' ''key'' ''srv'' w =
    (None, w\<lparr>eloTopic := eloTopic w @ [ana_extract], nops := nops w + 2\<rparr>)"
proof -
  have "uniqueInts [11] = [11]" by (simp add: uniqueInts_def)
  then show ?thesis
    using assms demo_saved[OF assms, of rf]
    by (simp add: sendElogen_def a_match_def remarshal_out_def ana_def parse_11
        dispatcher_def LolReplayDataExtract_Valid_def call_op_def error_of_def next_op_def
        ana_extract_def Let_def)
qed

definition after_failure :: "(unit service \<times> nat) world" where
  "after_failure = \<lparr>lu_state = (loaded 14, 2), receipts = ana_receipt, eloTopic = [],
     basicIngestTopic = basics, nops = 13\<rparr>"

lemma first_delivery:
  "Handle (dispatcher second_fails) (Some observed) idle = (Some ''unavailable'', after_failure)"
  by (simp add: demo_handle[of _ 0 _ 4] demo_refused[of _ "loaded 14" 1] idle_def loaded_ana
      second_fails_def after_failure_def)

lemma second_delivery:
  "Handle (dispatcher second_fails) (Some observed) after_failure =
     (None, after_failure\<lparr>lu_state := (loaded 24, 3), eloTopic := [ana_extract],
        basicIngestTopic := basics @ basics, nops := 26\<rparr>)"
  by (simp add: demo_handle[of _ 2 _ 14] demo_free second_fails_def after_failure_def)

text \<open>
  a charge that fails leaves its receipt behind. When the message comes again, the
  receipt counts as payment: the replay data is asked for, and the user keeps the points.
\<close>

theorem failed_charge_goes_free:
  "fst (Handle (dispatcher second_fails) (Some observed) idle) = Some ''unavailable'' \<and>
   eloTopic (deliveries (dispatcher second_fails) [Some observed, Some observed] idle) = [ana_extract] \<and>
   points_taken U idle (deliveries (dispatcher second_fails) [Some observed, Some observed] idle) = 0"
proof -
  have "service_held (loaded 24, 3) = service_held (with_ana, 0)"
    by (rule held_rows) (simp add: loaded_def)
  then show ?thesis
    by (simp add: first_delivery second_delivery points_taken_def) (simp add: idle_def)
qed

text \<open>The theorems for the dispatcher whose calls all end well.\<close>

definition all_well :: "nat \<Rightarrow> fate" where
  "all_well n = Done"

lemma dispatcher_fields [simp]: "luClient (dispatcher rf) = users_client demo_peers rf"
  "matchCostVP (dispatcher rf) = 200" "read_file (dispatcher rf) n path = Inr a_match"
  by (simp_all add: dispatcher_def)

lemma idle_wf: "store_wf (store (fst (lu_state idle)))"
  using with_ana_wf by (simp add: idle_def)

lemma cost_int64: "is_int64 (0 - 200)"
  by (simp add: is_int64_def int64_min_def int64_max_def)

lemma charges_covered_witness:
  "points_taken {''ana''} idle (deliveries (dispatcher all_well) [Some observed] idle) \<le>
     200 * int (length (receipts (deliveries (dispatcher all_well) [Some observed] idle)))"
  using charges_covered[OF dispatcher_fields(1) idle_wf, of "{''ana''}" all_well "[Some observed]"] cost_int64
  by (simp add: idle_def)

lemma redelivery_charges_once_witness:
  "points_taken {''ana''} idle (deliveries (dispatcher all_well) (replicate 5 (Some observed)) idle) \<le> 2000"
proof -
  have "points_taken {''ana''} idle (deliveries (dispatcher all_well) (replicate 5 (Some observed)) idle) \<le>
      matchCostVP (dispatcher all_well) * int (card (set (Players a_match)))"
    using cost_int64
    by (intro redelivery_charges_once[OF dispatcher_fields(1) idle_wf])
      (simp_all add: idle_def a_match_def ten_def is_int64_def int64_min_def int64_max_def)
  then show ?thesis by (simp add: a_match_def ten_def)
qed

lemma extracts_have_receipts_witness:
  "receipt_key ''NA1'' 7 11 \<in>
     receipt_keys (deliveries (dispatcher second_fails) [Some observed, Some observed] idle)"
  using extracts_have_receipts[of idle ana_extract "dispatcher second_fails" "[Some observed, Some observed]" 11]
  by (simp add: first_delivery second_delivery)
     (simp add: idle_def ana_extract_def)

lemma a_match_fields: "MatchDuration a_match = 1800" "Players a_match = ten" "length ten = 10"
  by (simp_all add: a_match_def ten_def)

text \<open>A match without observers: only the basic statistics.\<close>

definition unobserved :: match_download where
  "unobserved = observed\<lparr>mdObservedSummonerIds := []\<rparr>"

lemma basic_stats_requested_witness:
  "basicIngestTopic (snd (Handle (dispatcher all_well) (Some unobserved) idle)) = basics"
proof -
  have p: "remotePath (dispatcher all_well) unobserved = ''dir/7-na.json''"
    using observed_path[of all_well] by (simp add: remotePath_def unobserved_def observed_def)
  have l: "getLolUsers (dispatcher all_well) a_match ''NA'' (next_op idle) =
      (Inr [remarshal_out (ana\<lparr>ID := ''101''\<rparr>)], (next_op idle)\<lparr>lu_state := (loaded 14, 1)\<rparr>)"
    using demo_list[of all_well 0 "next_op idle" 4]
    by (simp add: all_well_def next_op_def idle_def loaded_ana)
  have "fst (Handle (dispatcher all_well) (Some unobserved) idle) = None"
    unfolding Handle_def option.case p
    by (simp add: unobserved_def observed_def LolMatchDownload_Valid_def getMatch_def Let_def na1 l
        demo_basics a_match_fields dispatcher_def[THEN arg_cong, of ctx_Err])
  then have "Handle (dispatcher all_well) (Some unobserved) idle =
      (None, snd (Handle (dispatcher all_well) (Some unobserved) idle))"
    by (simp add: prod_eq_iff)
  from basic_stats_requested[OF this dispatcher_fields(3)] a_match_fields
  have "basicIngestTopic (snd (Handle (dispatcher all_well) (Some unobserved) idle)) =
      basicIngestTopic idle @
      map (\<lambda>s. \<lparr>biMatchDetailsPath = remotePath (dispatcher all_well) unobserved,
              biMatchId = mdMatchId unobserved,
              biPlatformId = PlatformFromString (mdPlatformId unobserved), biSummonerId = s\<rparr>)
        (uniqueInts (Players a_match))"
    by simp
  moreover have "mdMatchId unobserved = 7" "mdPlatformId unobserved = ''NA1''" "basicIngestTopic idle = []"
    by (simp_all add: unobserved_def observed_def idle_def)
  ultimately show ?thesis
    by (simp only: p a_match_fields ten_unique na1 basics_def append_Nil)
qed

end
