(* ===== verification/Goals_Facts.thy ===== *)
theory Goals_Facts
  imports Goals_Server Dispatch_Facts
begin

text \<open>
  What the goals service guarantees: the key of a goal is always its id, creation adds new goals
  only and no more than asked for in each category, reading returns exactly the goals asked for;
  and what it does not check: whose goal a caller deletes.
\<close>

subsection \<open>Calls\<close>

lemma gw_tick_fields [simp]: "goals (gw_tick w) = goals w"
  by (simp add: gw_tick_def)

lemma run_query_goals [simp]: "goals (snd (run_query h P w)) = goals w"
  by (simp add: run_query_def Let_def)

lemma key_exists_cases:
  assumes "key_exists h key w = (r, w')"
  shows "goals w' = goals w \<and> (r = Inr False \<longrightarrow> key \<notin> fst ` set (goals w))"
  using assms
  by (auto simp: key_exists_def run_query_def Let_def filter_empty_conv
      split: list.splits option.splits prod.splits)

lemma gcd_call_cases:
  "gcd_call h eff w = (r, w') \<Longrightarrow> (r \<noteq> None \<and> goals w' = goals w) \<or> goals w' = goals (eff w)"
  by (cases "gs_fate h (gw_calls w)") (auto simp: gcd_call_def error_of_def Let_def)

lemma create_cases:
  "createGoalInGcd h key g w = (r, w') \<Longrightarrow> (r \<noteq> None \<and> goals w' = goals w) \<or>
     (\<exists>t. goals w' = AList.update key (Save_goal t g) (goals w))"
  unfolding createGoalInGcd_def by (drule gcd_call_cases) auto

lemma access_goals: "goals (snd (validateSummonerAccess h token c i p w)) = goals w"
  by (auto simp: validateSummonerAccess_def Let_def split: prod.splits sum.splits)

lemma checked_goals: "checked h token valid i p w = (r, w') \<Longrightarrow> goals w' = goals w"
  by (auto simp: checked_def split: sum.splits if_splits) (metis access_goals snd_conv)

subsection \<open>Creating\<close>

definition category_of :: "lol_goal \<Rightarrow> int" where
  "category_of g = enum_value GoalCategory_name (gCategory g)"

lemma Save_fields [simp]: "gCategory (Save_goal t g) = gCategory g" "gStatus (Save_goal t g) = gStatus g"
  "gSummonerID (Save_goal t g) = gSummonerID g" "gUnderlyingStat (Save_goal t g) = gUnderlyingStat g"
  by (simp_all add: Save_goal_def)

lemma Save_id: "gCreated g \<noteq> 0 \<Longrightarrow> GenerateId (Save_goal t g) = GenerateId g"
  by (simp add: Save_goal_def GenerateId_def)

lemma create_loop_new:
  assumes "create_loop h gs left n w = (r, w')"
  shows "\<exists>new. goals w' = goals w @ new \<and>
    (\<forall>c. int (length (filter (\<lambda>(k, g). category_of g = c) new)) \<le> max 0 (get0 left c)) \<and>
    (\<forall>m. r = Inr m \<longrightarrow> m = n + int (length new)) \<and>
    (\<forall>(k, g)\<in>set new. \<exists>g0\<in>set gs. \<exists>t. g = Save_goal t g0 \<and> k = GenerateId g0)"
  using assms
proof (induction gs arbitrary: left n w)
  case Nil
  then show ?case by (intro exI[of _ "[]"]) auto
next
  case (Cons g gs)
  let ?cat = "enum_value GoalCategory_name (gCategory g)"
  have skip: ?case if "create_loop h gs left n v = (r, w')" "goals v = goals w" for v
  proof -
    from Cons.IH[OF that(1)] obtain new where "goals w' = goals v @ new"
      "\<forall>c. int (length (filter (\<lambda>(k, g). category_of g = c) new)) \<le> max 0 (get0 left c)"
      "\<forall>m. r = Inr m \<longrightarrow> m = n + int (length new)"
      "\<forall>(k, g)\<in>set new. \<exists>g0\<in>set gs. \<exists>t. g = Save_goal t g0 \<and> k = GenerateId g0"
      by blast
    with that(2) show ?thesis by (intro exI[of _ new]) fastforce
  qed
  show ?case
  proof (cases "get0 left ?cat \<le> 0")
    case True
    with Cons.prems show ?thesis by (intro skip[of w]) (auto simp: Let_def)
  next
    case False
    obtain q w1 where q: "key_exists h (GenerateId g) w = (q, w1)"
      by (cases "key_exists h (GenerateId g) w") blast
    note qc = key_exists_cases[OF q]
    consider e where "q = Inl e" | "q = Inr True" | "q = Inr False" by (metis (full_types) sumE)
    then show ?thesis
    proof cases
      case (1 e)
      with Cons.prems False q qc show ?thesis by (intro exI[of _ "[]"]) (auto simp: Let_def)
    next
      case 2
      with Cons.prems False q qc show ?thesis by (intro skip[of w1]) (auto simp: Let_def)
    next
      case 3
      then have fresh: "GenerateId g \<notin> fst ` set (goals w1)" "goals w1 = goals w" using qc by auto
      obtain e w2 where c: "createGoalInGcd h (GenerateId g) g w1 = (e, w2)"
        by (cases "createGoalInGcd h (GenerateId g) g w1") blast
      let ?left = "AList.update ?cat (get0 left ?cat - 1) left"
      have g0: "get0 ?left c = (if c = ?cat then get0 left ?cat - 1 else get0 left c)" for c
        by (simp add: get0_def)
      from create_cases[OF c] show ?thesis
      proof (elim disjE exE conjE)
        assume "e \<noteq> None" "goals w2 = goals w1"
        with Cons.prems False q 3 c fresh show ?thesis
          by (intro exI[of _ "[]"]) (auto simp: Let_def)
      next
        fix t assume "goals w2 = AList.update (GenerateId g) (Save_goal t g) (goals w1)"
        then have w2: "goals w2 = goals w @ [(GenerateId g, Save_goal t g)]"
          using fresh update_fresh by metis
        show ?thesis
        proof (cases "e \<noteq> None \<or> (\<forall>(c, v) \<in> set ?left. \<not> v > 0)")
          case True
          then have "w' = w2" "\<forall>m. r = Inr m \<longrightarrow> m = n + 1"
            using Cons.prems False q 3 c by (auto simp: Let_def split: option.splits)
          with w2 False show ?thesis
            by (intro exI[of _ "[(GenerateId g, Save_goal t g)]"]) (auto simp: category_of_def)
        next
          case go: False
          then have e: "e = None" and more: "\<not> (\<forall>(c, v) \<in> set ?left. \<not> v > 0)" by blast+
          have "create_loop h (g # gs) left n w =
              (if \<forall>(c, v) \<in> set ?left. \<not> v > 0 then (Inr (n + 1), w2)
               else create_loop h gs ?left (n + 1) w2)"
            using False q 3 c e by (simp add: Let_def)
          also have "\<dots> = create_loop h gs ?left (n + 1) w2" by (rule if_not_P[OF more])
          finally have "create_loop h gs ?left (n + 1) w2 = (r, w')" using Cons.prems by simp
          from Cons.IH[OF this] obtain new where new: "goals w' = goals w2 @ new"
            "\<forall>c. int (length (filter (\<lambda>(k, g). category_of g = c) new)) \<le> max 0 (get0 ?left c)"
            "\<forall>m. r = Inr m \<longrightarrow> m = n + 1 + int (length new)"
            "\<forall>(k, g)\<in>set new. \<exists>g0\<in>set gs. \<exists>t. g = Save_goal t g0 \<and> k = GenerateId g0"
            by blast
          let ?new = "(GenerateId g, Save_goal t g) # new"
          have "int (length (filter (\<lambda>(k, g). category_of g = c) ?new)) \<le> max 0 (get0 left c)" for c
            using new(2)[rule_format, of c] g0[of c] False by (auto simp: category_of_def split: if_splits)
          moreover have "\<forall>(k, g')\<in>set ?new. \<exists>g0\<in>set (g # gs). \<exists>t. g' = Save_goal t g0 \<and> k = GenerateId g0"
            using new(4) by fastforce
          ultimately show ?thesis
            using new(1,3) w2 by (intro exI[of _ ?new]) auto
        qed
      qed
    qed
  qed
qed

lemma goals_left_get:
  "get0 (goals_left req) c = (if c \<in> set (csCategories req) \<and> c \<noteq> CATEGORY_NONE then csNumGoals req else 0)"
proof -
  let ?f = "\<lambda>cat m. if cat \<noteq> CATEGORY_NONE then AList.update cat (csNumGoals req) m else m"
  have "get0 (fold ?f cs m) c = (if c \<in> set cs \<and> c \<noteq> CATEGORY_NONE then csNumGoals req else get0 m c)" for cs m
    by (induction cs arbitrary: m) (auto simp: get0_def)
  then show ?thesis by (simp add: goals_left_def get0_def)
qed

lemma goal_for_fields:
  "goal_for time erfc sid platform rolePosition n percentiles games k = Ok (Some g) \<Longrightarrow>
     gStatus g = STATUS_NEW \<and> gSummonerID g = sid \<and> gCreated g = time"
  by (auto simp: goal_for_def Let_def bind_ok_Ok split: option.splits if_splits prod.splits)

lemma targets_fields:
  assumes "findGoalTargets time erfc sid platform rolePosition n percentiles games ks = Ok gs" "g \<in> set gs"
  shows "gStatus g = STATUS_NEW \<and> gSummonerID g = sid \<and> gCreated g = time"
proof -
  obtain os where os: "map_ok (goal_for time erfc sid platform rolePosition n percentiles games) ks = Ok os"
    "gs = sort_goals (List.map_filter id os)"
    using assms(1) by (auto simp: findGoalTargets_def bind_ok_Ok)
  have "\<exists>k. goal_for time erfc sid platform rolePosition n percentiles games k = Ok x"
    if "map_ok (goal_for time erfc sid platform rolePosition n percentiles games) ks = Ok os" "x \<in> set os" for x os ks
    using that by (induction ks arbitrary: os) (auto simp: bind_ok_Ok)
  moreover have "Some g \<in> set os"
    using assms(2) os(2) by (auto simp: sort_goals_def List.map_filter_def)
  ultimately show ?thesis using os(1) goal_for_fields by blast
qed

lemma CreateStats_new:
  assumes "CreateStats h token req w = (r, w')"
  shows "goals w' = goals w \<and> (\<forall>n. r \<noteq> Ok n) \<or>
    (\<exists>gs v q time. create_loop h gs (goals_left req) 0 v = (q, w') \<and> goals v = goals w \<and>
       (\<forall>n. r = Ok n \<longrightarrow> q = Inr n) \<and>
       (\<forall>g\<in>set gs. gStatus g = STATUS_NEW \<and> gSummonerID g = csSummonerId req \<and> gCreated g = gs_clock (DsClient h) time))"
proof -
  obtain e w1 where c: "checked h token (GoalCreateStatsRequest_Valid req) (csSummonerId req) (csPlatform req) w = (e, w1)"
    by (cases "checked h token (GoalCreateStatsRequest_Valid req) (csSummonerId req) (csPlatform req) w") blast
  have w1: "goals w1 = goals w" using c by (rule checked_goals)
  show ?thesis
  proof (cases "gs_percentiles h (gw_calls w1) (csRolePosition req)")
    case (Inl x)
    with assms c w1 show ?thesis by (auto simp: CreateStats_def split: option.splits)
  next
    case p: (Inr percentiles)
    let ?w2 = "gw_tick w1"
    show ?thesis
    proof (cases "gs_games h (gw_calls ?w2) (csSummonerId req) (csRolePosition req) 5")
      case (Inl x)
      with assms c w1 p show ?thesis by (auto simp: CreateStats_def Let_def split: option.splits)
    next
      case g: (Inr games)
      let ?w3 = "gw_tick ?w2"
      let ?find = "findGoalTargets (gs_clock (DsClient h) (gw_calls ?w3)) (gs_erfc h) (csSummonerId req) (csPlatform req)
          (csRolePosition req) (csTargetAchievementCount req) percentiles games (gs_order h games)"
      show ?thesis
      proof (cases ?find)
        case (Ok gs)
        obtain q w4 where l: "create_loop h gs (goals_left req) 0 ?w3 = (q, w4)"
          by (cases "create_loop h gs (goals_left req) 0 ?w3") blast
        have f: "\<forall>g\<in>set gs. gStatus g = STATUS_NEW \<and> gSummonerID g = csSummonerId req \<and>
            gCreated g = gs_clock (DsClient h) (gw_calls ?w3)"
          using targets_fields[OF Ok] by blast
        have "e \<noteq> None \<and> w' = w1 \<and> (\<forall>n. r \<noteq> Ok n) \<or> w' = w4 \<and> (\<forall>n. r = Ok n \<longrightarrow> q = Inr n)"
          using assms c p g Ok l by (auto simp: CreateStats_def Let_def split: option.splits sum.splits)
        with w1 l f show ?thesis by fastforce
      qed (use assms c w1 p g in \<open>auto simp: CreateStats_def Let_def split: option.splits\<close>)
    qed
  qed
qed

text \<open>
  creating goals from statistics leaves every goal there was, and adds, at the end, new
  goals of the summoner in the state \<open>NEW\<close>: in each category that was asked for at most the number
  asked for, in no other category any; the count it answers is their number. That holds also when
  it ends in an error.
\<close>

theorem create_stats_bounded:
  assumes "CreateStats h token req w = (r, w')"
  shows "\<exists>new. goals w' = goals w @ new \<and>
    (\<forall>n. r = Ok n \<longrightarrow> n = int (length new)) \<and>
    (\<forall>c. int (length (filter (\<lambda>(k, g). category_of g = c) new)) \<le>
       (if c \<in> set (csCategories req) \<and> c \<noteq> CATEGORY_NONE then max 0 (csNumGoals req) else 0)) \<and>
    (\<forall>(k, g)\<in>set new. gStatus g = STATUS_NEW \<and> gSummonerID g = csSummonerId req)"
  using CreateStats_new[OF assms]
proof (elim disjE exE conjE)
  assume "goals w' = goals w" "\<forall>n. r \<noteq> Ok n"
  then show ?thesis by (intro exI[of _ "[]"]) auto
next
  fix gs v q time
  assume l: "create_loop h gs (goals_left req) 0 v = (q, w')" and v: "goals v = goals w"
    and q: "\<forall>n. r = Ok n \<longrightarrow> q = Inr n"
    and gs: "\<forall>g\<in>set gs. gStatus g = STATUS_NEW \<and> gSummonerID g = csSummonerId req \<and> gCreated g = gs_clock (DsClient h) time"
  from create_loop_new[OF l] obtain new where new: "goals w' = goals v @ new"
    "\<forall>c. int (length (filter (\<lambda>(k, g). category_of g = c) new)) \<le> max 0 (get0 (goals_left req) c)"
    "\<forall>m. q = Inr m \<longrightarrow> m = 0 + int (length new)"
    "\<forall>(k, g)\<in>set new. \<exists>g0\<in>set gs. \<exists>t. g = Save_goal t g0 \<and> k = GenerateId g0"
    by blast
  show ?thesis
  proof (intro exI[of _ new] conjI allI ballI)
    fix c show "int (length (filter (\<lambda>(k, g). category_of g = c) new)) \<le>
       (if c \<in> set (csCategories req) \<and> c \<noteq> CATEGORY_NONE then max 0 (csNumGoals req) else 0)"
      using new(2)[rule_format, of c] by (simp add: goals_left_get split: if_splits)
  next
    fix x assume "x \<in> set new"
    then show "case x of (k, g) \<Rightarrow> gStatus g = STATUS_NEW \<and> gSummonerID g = csSummonerId req"
      using new(4) gs by fastforce
  qed (use new(1,3) v q in auto)
qed

subsection \<open>Keys are ids\<close>

definition keys_are_ids :: "'s goal_world \<Rightarrow> bool" where
  "keys_are_ids w \<longleftrightarrow> (\<forall>(k, g)\<in>set (goals w). k = GenerateId g \<and> gCreated g \<noteq> 0)"

lemma keys_put:
  assumes "keys_are_ids w" "goals w' = AList.update key (Save_goal t g) (goals w)"
    and "key = GenerateId g" "gCreated g \<noteq> 0"
  shows "keys_are_ids w'"
proof -
  have "x = (key, Save_goal t g) \<or> x \<in> set (goals w)" if "x \<in> set (goals w')" for x
    using that assms(2) set_update_rows by metis
  moreover have "GenerateId (Save_goal t g) = key" "gCreated (Save_goal t g) \<noteq> 0"
    using assms(3,4) by (simp_all add: Save_id) (simp add: Save_goal_def)
  ultimately show ?thesis
    using assms(1) unfolding keys_are_ids_def by (metis (mono_tags, lifting) case_prodI2 prod.inject)
qed

lemma keys_same: "goals w' = goals w \<Longrightarrow> keys_are_ids w \<Longrightarrow> keys_are_ids w'"
  by (simp add: keys_are_ids_def)

inductive goals_step :: "'s goals_server \<Rightarrow> 's goal_world \<Rightarrow> 's goal_world \<Rightarrow> bool" for h where
  goals_create_stats: "goals_step h w (snd (CreateStats h token cs w))"
| goals_create_custom: "goals_step h w (snd (CreateCustom h token cc w))"
| goals_get: "goals_step h w (snd (Get h token gg w))"
| goals_delete: "goals_step h w (snd (Delete h token gr w))"
| goals_update: "goals_step h w (snd (UpdateStatus h token gr status w))"

lemma keys_create_stats:
  assumes "CreateStats h token req w = (r, w')" "keys_are_ids w" "\<And>n. gs_clock (DsClient h) n \<noteq> 0"
  shows "keys_are_ids w'"
  using CreateStats_new[OF assms(1)]
proof (elim disjE exE conjE)
  fix gs v q time
  assume l: "create_loop h gs (goals_left req) 0 v = (q, w')" and v: "goals v = goals w"
    and gs: "\<forall>g\<in>set gs. gStatus g = STATUS_NEW \<and> gSummonerID g = csSummonerId req \<and> gCreated g = gs_clock (DsClient h) time"
  from create_loop_new[OF l] obtain new where new: "goals w' = goals v @ new"
    "\<forall>(k, g)\<in>set new. \<exists>g0\<in>set gs. \<exists>t. g = Save_goal t g0 \<and> k = GenerateId g0"
    by blast
  have "\<forall>(k, g)\<in>set new. k = GenerateId g \<and> gCreated g \<noteq> 0"
  proof (intro ballI, clarify)
    fix k g assume "(k, g) \<in> set new"
    then obtain g0 t where g: "g0 \<in> set gs" "g = Save_goal t g0" "k = GenerateId g0"
      using new(2) by fastforce
    then have "gCreated g0 \<noteq> 0" using gs assms(3) by metis
    with g show "k = GenerateId g \<and> gCreated g \<noteq> 0" by (simp add: Save_id) (simp add: Save_goal_def)
  qed
  with assms(2) new(1) v show ?thesis by (auto simp: keys_are_ids_def)
qed (use assms(2) in \<open>auto intro: keys_same\<close>)

lemma keys_create:
  assumes "createGoalInGcd h (GenerateId g) g w = (r, w')" "keys_are_ids w" "gCreated g \<noteq> 0"
  shows "keys_are_ids w'"
  using create_cases[OF assms(1)] keys_put[OF assms(2) _ refl assms(3)] keys_same[OF _ assms(2)] by blast

lemma keys_custom:
  assumes "CreateCustom h token req w = (r, w')" "keys_are_ids w" "\<And>n. gs_clock (DsClient h) n \<noteq> 0"
  shows "keys_are_ids w'"
proof -
  obtain e w1 where c: "checked h token (GoalCreateCustomRequest_Valid req) (ccSummonerId req) (ccPlatform req) w = (e, w1)"
    by (cases "checked h token (GoalCreateCustomRequest_Valid req) (ccSummonerId req) (ccPlatform req) w") blast
  have w1: "keys_are_ids w1" using checked_goals[OF c] assms(2) by (rule keys_same)
  let ?g = "no_goal\<lparr>gCreated := gs_clock (DsClient h) (gw_calls w1), gSummonerID := ccSummonerId req,
            gPlatform := ccPlatform req, gUnderlyingStat := ccUnderlyingStat req,
            gStatus := STATUS_NEW, gRolePosition := ccRolePosition req\<rparr>"
  obtain q w2 where q: "key_exists h (GenerateId ?g) w1 = (q, w2)"
    by (cases "key_exists h (GenerateId ?g) w1") blast
  have w2: "keys_are_ids w2" using key_exists_cases[OF q] w1 keys_same by blast
  obtain e3 w3 where n: "createGoalInGcd h (GenerateId ?g) ?g w2 = (e3, w3)"
    by (cases "createGoalInGcd h (GenerateId ?g) ?g w2") blast
  have w3: "keys_are_ids w3" using keys_create[OF n w2] assms(3) by simp
  have "w' = w1 \<or> w' = w2 \<or> w' = w3"
    using assms(1) c q n by (auto simp: CreateCustom_def Let_def split: option.splits sum.splits bool.splits)
  with w1 w2 w3 show ?thesis by blast
qed

lemma keys_delete:
  assumes "Delete h token req w = (r, w')" "keys_are_ids w"
  shows "keys_are_ids w'"
proof -
  obtain e w1 where c: "checked h token (GoalDeleteRequest_Valid req) (grSummonerId req) (grPlatform req) w = (e, w1)"
    by (cases "checked h token (GoalDeleteRequest_Valid req) (grSummonerId req) (grPlatform req) w") blast
  have "goals w' = goals w \<or> goals w' = AList.delete (grGoalId req) (goals w)"
    using assms(1) c checked_goals[OF c]
    by (auto simp: Delete_def split: option.splits dest: gcd_call_cases)
  moreover have "set (AList.delete (grGoalId req) (goals w)) \<subseteq> set (goals w)"
    by (simp add: AList.delete_eq)
  ultimately have "set (goals w') \<subseteq> set (goals w)" by (elim disjE) simp_all
  with assms(2) show ?thesis by (auto simp: keys_are_ids_def)
qed

lemma keys_status:
  assumes "UpdateStatus h token req status w = (r, w')" "keys_are_ids w"
  shows "keys_are_ids w'"
proof -
  let ?check = "checked h token (GoalUpdateStatusRequest_Valid req status) (grSummonerId req) (grPlatform req) w"
  obtain e w1 where c: "?check = (e, w1)" by (cases ?check) blast
  have w1: "keys_are_ids w1" using checked_goals[OF c] assms(2) by (rule keys_same)
  obtain e2 w2 where g: "gcd_call (DsClient h) (\<lambda>w. w) w1 = (e2, w2)" by (cases "gcd_call (DsClient h) (\<lambda>w. w) w1") blast
  have w2: "keys_are_ids w2" using gcd_call_cases[OF g] w1 keys_same by blast
  consider "w' = w1" | "w' = w2" | goal where "map_of (goals w2) (grGoalId req) = Some goal"
      "createGoalInGcd h (grGoalId req) (goal\<lparr>gStatus := enum_name GoalStatus_name status\<rparr>) w2 = (r, w')"
    using assms(1) c g by (auto simp: UpdateStatus_def split: option.splits)
  then show ?thesis
  proof cases
    case (3 goal)
    let ?g = "goal\<lparr>gStatus := enum_name GoalStatus_name status\<rparr>"
    have "grGoalId req = GenerateId ?g \<and> gCreated ?g \<noteq> 0"
      using map_of_SomeD[OF 3(1)] w2 by (auto simp: keys_are_ids_def GenerateId_def)
    then show ?thesis using keys_create[of h ?g w2 r w'] 3(2) w2 by simp
  qed (use w1 w2 in simp_all)
qed

lemma keys_step:
  assumes "goals_step h w w'" "keys_are_ids w" "\<And>n. gs_clock (DsClient h) n \<noteq> 0"
  shows "keys_are_ids w'"
  using assms(1,2)
proof (induction rule: goals_step.induct)
  case (goals_create_stats w token cs)
  then show ?case using keys_create_stats[OF prod.collapse[symmetric]] assms(3) by blast
next
  case (goals_create_custom w token cc)
  then show ?case using keys_custom[OF prod.collapse[symmetric]] assms(3) by blast
next
  case (goals_get w token gg)
  obtain e w1 where c: "checked h token (GoalGetRequest_Valid gg) (ggSummonerId gg) (ggPlatform gg) w = (e, w1)"
    by (cases "checked h token (GoalGetRequest_Valid gg) (ggSummonerId gg) (ggPlatform gg) w") blast
  have "goals (snd (Get h token gg w)) = goals w"
    using c checked_goals[OF c]
    by (auto simp: Get_def run_query_def Let_def split: option.splits prod.splits)
  then show ?case using goals_get by (rule keys_same)
next
  case (goals_delete w token gr)
  then show ?case using keys_delete[OF prod.collapse[symmetric]] by blast
next
  case (goals_update w token gr status)
  then show ?case using keys_status[OF prod.collapse[symmetric]] by blast
qed

text \<open>
  whatever calls the service receives and however they fail, every goal is stored under
  its own id. (The clock is never at Go's zero time.)
\<close>

theorem goals_keyed_by_id:
  assumes "(goals_step h)\<^sup>*\<^sup>* w w'" "goals w = []" "\<forall>n. gs_clock (DsClient h) n \<noteq> 0" "(k, g) \<in> set (goals w')"
  shows "k = GenerateId g"
proof -
  have "keys_are_ids w'"
    using assms(1)
  proof (induction rule: rtranclp_induct)
    case base
    show ?case using assms(2) by (simp add: keys_are_ids_def)
  next
    case (step v v')
    then show ?case using keys_step assms(3) by blast
  qed
  with assms(4) show ?thesis by (auto simp: keys_are_ids_def)
qed


subsection \<open>Reading\<close>

text \<open>Names of platforms and roles: none of their characters comes before the zero.\<close>

definition word_field :: "string \<Rightarrow> bool" where
  "word_field s \<longleftrightarrow> (\<forall>c\<in>set s. 48 \<le> (of_char c :: nat))"

definition wanted :: "get_request \<Rightarrow> lol_goal \<Rightarrow> bool" where
  "wanted req g \<longleftrightarrow>
     gSummonerID g = ggSummonerId req \<and> gPlatform g = ggPlatform req \<and>
     (ggRolePosition req \<noteq> [] \<longrightarrow> gRolePosition g = ggRolePosition req \<and>
        (ggChampionId req \<noteq> 0 \<longrightarrow> gChampionID g = ggChampionId req)) \<and>
     (ggStatus req \<noteq> STATUS_NONE \<longrightarrow> gStatus g = enum_name GoalStatus_name (ggStatus req))"

definition well_named :: "lol_goal \<Rightarrow> bool" where
  "well_named g \<longleftrightarrow> 0 \<le> gSummonerID g \<and> 0 \<le> gChampionID g \<and> word_field (gPlatform g) \<and>
     word_field (gRolePosition g)"

lemma dash_less: "(of_char (CHR ''-'') :: nat) < 48"
  by code_simp

lemma word_plain: "word_field s \<Longrightarrow> plain_field s"
  using dash_less by (force simp: word_field_def plain_field_def)

lemma word_show: "0 \<le> i \<Longrightarrow> word_field (show_int i)"
  using show_nat_digits48 by (simp add: word_field_def show_nonneg)

lemma word_range:
  "word_field a \<Longrightarrow> word_field b \<Longrightarrow> key_range a (b @ CHR ''-'' # x) \<longleftrightarrow> b = a"
proof
  assume w: "word_field a" "word_field b" and "key_range a (b @ CHR ''-'' # x)"
  then obtain c t where c: "b @ CHR ''-'' # x = a @ c # t" "(of_char c :: nat) < 48"
    by (auto simp: key_range_iff)
  from w show "b = a"
    by (intro digits_split[OF _ _ dash_less c(2,1)]) (auto simp: word_field_def)
next
  assume "b = a" with dash_less show "key_range a (b @ CHR ''-'' # x)" by (auto simp: key_range_iff)
qed

lemma range_after_dash:
  "plain_field a \<Longrightarrow> plain_field b \<Longrightarrow>
     key_range (a @ CHR ''-'' # p) (b @ CHR ''-'' # k) \<longleftrightarrow> a = b \<and> key_range p k"
  by (auto simp: key_range_iff dash_split)

lemma get_range:
  assumes "well_named g" "0 \<le> ggSummonerId req" "0 \<le> ggChampionId req"
    "word_field (ggPlatform req)" "word_field (ggRolePosition req)"
  shows "key_range (get_prefix req) (GenerateId g) \<longleftrightarrow>
    gSummonerID g = ggSummonerId req \<and> gPlatform g = ggPlatform req \<and>
     (ggRolePosition req \<noteq> [] \<longrightarrow> gRolePosition g = ggRolePosition req \<and>
        (ggChampionId req \<noteq> 0 \<longrightarrow> gChampionID g = ggChampionId req))"
proof -
  have p: "plain_field (show_int (ggSummonerId req))" "plain_field (show_int (gSummonerID g))"
    "plain_field (ggPlatform req)" "plain_field (gPlatform g)" "plain_field (ggRolePosition req)"
    "plain_field (gRolePosition g)"
    using assms word_plain by (simp_all add: well_named_def show_nonneg_plain)
  have w: "word_field (show_int (ggChampionId req))" "word_field (show_int (gChampionID g))"
    "word_field (gPlatform g)" "word_field (gRolePosition g)"
    using assms by (simp_all add: well_named_def word_show)
  have s: "show_int i = show_int j \<longleftrightarrow> i = j" for i j
    using show_int_inj by blast
  have g: "GenerateId g = show_int (gSummonerID g) @ CHR ''-'' # gPlatform g @ CHR ''-'' # gRolePosition g @
      CHR ''-'' # show_int (gChampionID g) @ CHR ''-'' # gUnderlyingStat g @ CHR ''-'' # show_int (gCreated g)"
    by (simp add: GenerateId_def)
  show ?thesis
    unfolding g get_prefix_def
    using p w assms(4,5)
    by (auto simp: Let_def range_after_dash word_range s)
qed

text \<open>
  a read that reports no error returns exactly the goals asked for, in the order of the
  store: those of the summoner and platform, and of the role, the champion and the state, as far
  as the request names them.
\<close>

theorem get_exact:
  assumes "Get h token req w = (Inr out, w')" "keys_are_ids w"
    and "\<forall>(k, g)\<in>set (goals w). well_named g"
    and "0 \<le> ggSummonerId req" "0 \<le> ggChampionId req"
    and "word_field (ggPlatform req)" "word_field (ggRolePosition req)"
  shows "map poGoal out = filter (wanted req) (map snd (goals w))"
proof -
  let ?P = "\<lambda>k g. key_range (get_prefix req) k \<and>
     (ggStatus req \<noteq> STATUS_NONE \<longrightarrow> gStatus g = enum_name GoalStatus_name (ggStatus req))"
  obtain e w1 where c: "checked h token (GoalGetRequest_Valid req) (ggSummonerId req) (ggPlatform req) w = (e, w1)"
    by (cases "checked h token (GoalGetRequest_Valid req) (ggSummonerId req) (ggPlatform req) w") blast
  have "out = map (\<lambda>(k, g). ToProtoGoal g) (filter (\<lambda>(k, g). ?P k g) (goals w))"
    using assms(1) c checked_goals[OF c]
    by (auto simp: Get_def run_query_def Let_def split: option.splits prod.splits)
  moreover have "map poGoal (map (\<lambda>(k, g). ToProtoGoal g) xs) = map snd xs" for xs
    by (simp add: ToProtoGoal_def split_def comp_def)
  moreover have same: "?P k g \<longleftrightarrow> wanted req g" if "(k, g) \<in> set (goals w)" for k g
  proof -
    have "k = GenerateId g" "well_named g" using that assms(2,3) by (auto simp: keys_are_ids_def)
    then show ?thesis using get_range[of g req] assms(4-7) by (auto simp: wanted_def)
  qed
  then have "filter (\<lambda>(k, g). ?P k g) (goals w) = filter (wanted req \<circ> snd) (goals w)"
  proof (intro filter_cong refl)
    fix x assume x: "x \<in> set (goals w)"
    obtain k g where "x = (k, g)" by (cases x)
    with x same[of k g] show "(case x of (k, g) \<Rightarrow> ?P k g) = (wanted req \<circ> snd) x" by simp
  qed
  ultimately show ?thesis by (simp add: filter_map ToProtoGoal_def)
qed

subsection \<open>Whose goal\<close>

text \<open>
  a caller who may access one summoner can delete any goal: the summoner of the request
  is checked, the goal named in it is not.
\<close>

theorem delete_any_goal:
  assumes "token \<noteq> []" "AuthClient h token = Inr c" "HasPrivilege c LOLstatsRead"
    and "ProjectID h \<noteq> ''vs-dev''" "GoalDeleteRequest_Valid req"
    and "lu_List (gs_users_client h) token \<lparr>lrUserId = Sub c, lrSummonerIds = [], lrRegion = []\<rparr>
           (gw_users w) = (Inr us, s)"
    and "u \<in> set us" "pbSummonerId u = show_int (grSummonerId req)"
      "pbRegion u = region_string (RegionFromPlatform (PlatformFromString (grPlatform req)))"
    and "gs_fate (DsClient h) (gw_calls w) = Done" "(grGoalId req, g) \<in> set (goals w)"
      "gSummonerID g \<noteq> grSummonerId req"
  shows "fst (Delete h token req w) = None \<and> grGoalId req \<notin> fst ` set (goals (snd (Delete h token req w)))"
proof -
  have "checked h token (GoalDeleteRequest_Valid req) (grSummonerId req) (grPlatform req) w =
      (None, w\<lparr>gw_users := s\<rparr>)"
    using assms(1-9)
    by (auto simp: checked_def validateCtx_def ValidateCtxClaims_def validateSummonerAccess_def
        list_ex_iff Let_def)
  then show ?thesis
    using assms(10)
    by (auto simp: Delete_def gcd_call_def error_of_def gw_tick_def Let_def AList.delete_eq)
qed


subsection \<open>The theorems at concrete inputs\<close>

text \<open>Ana asks; the goals are those of another summoner, 22.\<close>

definition goals_demo :: "string \<Rightarrow> (unit service \<times> nat) goals_server" where
  "goals_demo project =
     \<lparr>AuthClient = \<lambda>token. Inr \<lparr>Sub = token, Privileges = [LOLstatsRead]\<rparr>,
      gs_users_client = users_client demo_peers all_well, ProjectID = project,
      DsClient = \<lparr>gs_fate = \<lambda>_. Done, gs_broken_off = \<lambda>_. None, gs_clock = \<lambda>n. 1500000000\<rparr>,
      gs_percentiles = \<lambda>_ _. Inr flat,
      gs_games = \<lambda>_ _ _ _. Inr one_game, gs_erfc = \<lambda>_. 1, gs_order = \<lambda>_. [''level_6_seconds'']\<rparr>"

definition other_goal :: lol_goal where
  "other_goal = no_goal\<lparr>gSummonerID := 22, gPlatform := ''NA1'', gRolePosition := ''top'',
     gCreated := 1400000000, gStatus := STATUS_ACCEPTED\<rparr>"

definition other_id :: string where
  "other_id = GenerateId other_goal"

definition goals_start :: "(unit service \<times> nat) goal_world" where
  "goals_start = \<lparr>goals = [(other_id, other_goal)], gw_users = (with_ana, 0), gw_calls = 0\<rparr>"

definition ana_stats :: create_stats_request where
  "ana_stats = \<lparr>csSummonerId = 11, csPlatform = ''NA1'', csRolePosition = ''top'', csNumGoals = 1,
     csTargetAchievementCount = 3, csCategories = [MECHANICS]\<rparr>"

lemma other_id_ne: "other_id \<noteq> []"
  by (simp add: other_id_def GenerateId_def)

lemma create_stats_bounded_witness:
  "\<exists>new. goals (snd (CreateStats (goals_demo ''p'') ''ana'' ana_stats goals_start)) = goals goals_start @ new \<and>
     int (length (filter (\<lambda>(k, g). category_of g = DECISION_MAKING) new)) \<le> 0"
proof -
  obtain r w' where r: "CreateStats (goals_demo ''p'') ''ana'' ana_stats goals_start = (r, w')"
    by (metis prod.exhaust)
  obtain new where new: "goals w' = goals goals_start @ new"
    "\<forall>c. int (length (filter (\<lambda>(k, g). category_of g = c) new)) \<le>
       (if c \<in> set (csCategories ana_stats) \<and> c \<noteq> CATEGORY_NONE then max 0 (csNumGoals ana_stats) else 0)"
    using create_stats_bounded[OF r] by blast
  have "DECISION_MAKING \<notin> set (csCategories ana_stats)"
    by (simp add: ana_stats_def MECHANICS_def DECISION_MAKING_def)
  with new(2)[rule_format, of DECISION_MAKING] new(1) r show ?thesis
    by (intro exI[of _ new]) simp
qed

lemma goals_keyed_by_id_witness:
  "list_all (\<lambda>(k, g). k = GenerateId g)
     (goals (snd (CreateStats (goals_demo ''p'') ''ana'' ana_stats (goals_start\<lparr>goals := []\<rparr>))))"
proof -
  have "(goals_step (goals_demo ''p''))\<^sup>*\<^sup>* (goals_start\<lparr>goals := []\<rparr>)
      (snd (CreateStats (goals_demo ''p'') ''ana'' ana_stats (goals_start\<lparr>goals := []\<rparr>)))"
    by (rule r_into_rtranclp) (rule goals_create_stats)
  from goals_keyed_by_id[OF this] show ?thesis by (auto simp: goals_demo_def list_all_iff)
qed

definition read_other :: get_request where
  "read_other = \<lparr>ggSummonerId = 22, ggPlatform = ''NA1'', ggRolePosition = [], ggChampionId = 0, ggStatus = 0\<rparr>"

lemma get_exact_witness:
  "\<exists>out w'. Get (goals_demo ''vs-dev'') [] read_other goals_start = (Inr out, w') \<and>
     map poGoal out = [other_goal]"
proof -
  have "\<exists>out w'. Get (goals_demo ''vs-dev'') [] read_other goals_start = (Inr out, w')"
    by (simp add: Get_def checked_def validateCtx_def validateSummonerAccess_def goals_demo_def
        read_other_def GoalGetRequest_Valid_def run_query_def Let_def)
  then obtain out w' where g: "Get (goals_demo ''vs-dev'') [] read_other goals_start = (Inr out, w')" by blast
  have word: "word_field ''NA1''" "word_field ''top''" "word_field []"
    by (simp_all add: word_field_def)
  have "map poGoal out = filter (wanted read_other) (map snd (goals goals_start))"
    by (rule get_exact[OF g])
      (simp_all add: keys_are_ids_def goals_start_def other_id_def other_goal_def no_goal_def
        well_named_def read_other_def word)
  then have "map poGoal out = [other_goal]"
    by (simp add: goals_start_def wanted_def read_other_def other_goal_def no_goal_def STATUS_NONE_def)
  with g show ?thesis by (intro exI[of _ out] exI[of _ w'] conjI)
qed

definition delete_other :: goal_request where
  "delete_other = \<lparr>grSummonerId = 11, grPlatform = ''NA1'', grGoalId = other_id\<rparr>"

lemma ana_finds_herself:
  "lu_List (users_client demo_peers all_well) ''ana''
     \<lparr>lrUserId = ''ana'', lrSummonerIds = [], lrRegion = []\<rparr> (loaded n, k) =
   (Inr [remarshal_out (ana\<lparr>ID := ''101''\<rparr>)], (loaded (Suc n), Suc k))"
  by (simp add: users_client_def rpc_def all_well_def List_users_def ListLolUsersRequest_Valid_def
      ValidateCtxClaims_def demo_peers_def demo_check_def on_store_def loaded_def
      fetchLolUserByUserId_def GetAll_def demo_store_def tick_def ana_rows named_def ana_def)

lemma delete_any_goal_witness:
  "other_id \<notin> fst ` set (goals (snd (Delete (goals_demo ''p'') ''ana'' delete_other goals_start)))"
proof -
  let ?c = "\<lparr>Sub = ''ana'', Privileges = [LOLstatsRead]\<rparr>"
  have "''ana'' \<noteq> []" "AuthClient (goals_demo ''p'') ''ana'' = Inr ?c" "HasPrivilege ?c LOLstatsRead"
    "ProjectID (goals_demo ''p'') \<noteq> ''vs-dev''" "GoalDeleteRequest_Valid delete_other"
    "lu_List (gs_users_client (goals_demo ''p'')) ''ana''
       \<lparr>lrUserId = Sub ?c, lrSummonerIds = [], lrRegion = []\<rparr> (gw_users goals_start) =
     (Inr [remarshal_out (ana\<lparr>ID := ''101''\<rparr>)], (loaded (Suc 4), Suc 0))"
    by (simp_all add: goals_demo_def HasPrivilege_def GoalDeleteRequest_Valid_def delete_other_def
        other_id_ne goals_start_def loaded_ana ana_finds_herself)
  from delete_any_goal[OF this, of "remarshal_out (ana\<lparr>ID := ''101''\<rparr>)" other_goal]
  show ?thesis
    by (simp add: remarshal_out_def ana_def delete_other_def show_11 na1 goals_demo_def goals_start_def
        other_goal_def no_goal_def)
qed

end
