(* ===== verification/Goals_Update.thy ===== *)
theory Goals_Update
  imports Goals_Facts
begin

text \<open>
  The progress of goals, \<open>lolstats-master/cmd/goals_updater/goals_updater.go\<close>: for a match that was
  played, every accepted goal of its role and champion is compared with the match; goals that
  are reached often enough are completed, and the other goals of their category cleared.

  The two files of statistics are parameters, given as the columns that are numbers (JSON
  numbers are always \<open>float64\<close>) and the fields of the advanced statistics the code reads. Real
  division by a match duration of zero is zero here, where Go has an infinity.
\<close>

record goals_update =
  guMatchId :: int
  guPlatformId :: string
  guSummonerId :: int
  guRolePosition :: string
  guChampionId :: int

definition LolGoalsUpdate_Valid :: "goals_update \<Rightarrow> bool" where
  "LolGoalsUpdate_Valid m \<longleftrightarrow>
     \<not> (guMatchId m = 0 \<or> guPlatformId m = [] \<or> guSummonerId m = 0 \<or> guRolePosition m = [])"

record advanced_view =
  avUsefulPercentAll :: real
  avAttacksPerMinute :: real
  avMapCoveragesFull :: real
  avLiveWardsPink :: real
  avLiveWardsYellowAndBlue :: real
  avBadDeathsTotal :: real
  avGoodKillsTotal :: real

record goals_updater =
  GcdClient :: gcd_client
  StatsDir :: string
  read_basic :: "string \<Rightarrow> string + (string \<times> real) list"
  read_advanced :: "string \<Rightarrow> string + (string \<times> real) list \<times> advanced_view"

subsection \<open>The goals of a message\<close>

definition update_prefix :: "goals_update \<Rightarrow> string" where
  "update_prefix msg = goal_prefix (guSummonerId msg) (guPlatformId msg) (guRolePosition msg) (guChampionId msg)"

definition hasGoals :: "goals_updater \<Rightarrow> goals_update \<Rightarrow> 's goal_world \<Rightarrow> (string + bool) \<times> 's goal_world" where
  "hasGoals f msg w =
     (case run_query (GcdClient f) (\<lambda>k g. key_range (update_prefix msg) k) w of
        ((_ # _, _), w1) \<Rightarrow> (Inr True, w1)
      | (([], Some e), w1) \<Rightarrow> (Inl e, w1)
      | (([], None), w1) \<Rightarrow> (Inr False, w1))"

definition is_completed :: "lol_goal \<Rightarrow> bool" where
  "is_completed g \<longleftrightarrow> gStatus g = STATUS_COMPLETED \<or> gStatus g = STATUS_COMPLETED_SEEN"

definition getAllGoals ::
  "goals_updater \<Rightarrow> goals_update \<Rightarrow> 's goal_world \<Rightarrow> (string + lol_goal list) \<times> 's goal_world" where
  "getAllGoals f msg w =
     (case run_query (GcdClient f) (\<lambda>k g. key_range (update_prefix msg) k) w of
        ((found, Some e), w1) \<Rightarrow> (Inl e, w1)
      | ((found, None), w1) \<Rightarrow> (Inr (filter (\<lambda>g. \<not> is_completed g) (map snd found)), w1))"

text \<open>The goals a match counts for.\<close>

definition to_update :: "goals_update \<Rightarrow> lol_goal \<Rightarrow> bool" where
  "to_update msg g \<longleftrightarrow>
     gRolePosition g = guRolePosition msg \<and> gChampionID g = guChampionId msg \<and>
     gUnderlyingStat g \<in> fst ` set VPRSQL \<and> gStatus g = STATUS_ACCEPTED \<and>
     (gLastMatchID g = 0 \<or> gLastMatchID g \<noteq> guMatchId msg)"

subsection \<open>The match\<close>

definition stats_file :: "goals_updater \<Rightarrow> goals_update \<Rightarrow> string \<Rightarrow> string" where
  "stats_file f msg ext =
     StatsDir f @ ''/'' @ show_int (guMatchId msg) @ ''-'' @ guPlatformId msg @ ''-'' @
     show_int (guSummonerId msg) @ ext"

definition special_cases :: "real \<Rightarrow> advanced_view \<Rightarrow> (string \<times> real) list" where
  "special_cases matchDuration a =
     [(''attacks_per_minute_useful'',
       if avUsefulPercentAll a \<noteq> 0 then avAttacksPerMinute a * 100 / avUsefulPercentAll a else 0),
      (''map_coverages_full'', avMapCoveragesFull a),
      (''useful_percent_all'', avUsefulPercentAll a),
      (''live_wards_average_pink'', avLiveWardsPink a),
      (''live_wards_average_yellow_and_blue'', avLiveWardsYellowAndBlue a),
      (''bad_deaths_total_per_minute'', avBadDeathsTotal a * 60 / matchDuration),
      (''good_kills_total_per_minute'', avGoodKillsTotal a * 60 / matchDuration)]"

definition put_all :: "('k \<times> 'v) list \<Rightarrow> ('k \<times> 'v) list \<Rightarrow> ('k \<times> 'v) list" where
  "put_all kvs m = fold (\<lambda>(k, v). AList.update k v) kvs m"

definition getMatchStats :: "goals_updater \<Rightarrow> goals_update \<Rightarrow> (string \<times> real) list outcome" where
  "getMatchStats f msg =
     (case read_basic f (stats_file f msg ''.basic.json'') of
        Inl e \<Rightarrow> Err e
      | Inr basic \<Rightarrow>
     (case read_advanced f (stats_file f msg ''.advanced.json'') of
        Inl e \<Rightarrow> Err e
      | Inr (numbers, advanced) \<Rightarrow>
     (case map_of basic ''match_duration'' of
        None \<Rightarrow> Panic ''interface conversion''
      | Some matchDuration \<Rightarrow>
          Ok (put_all (special_cases matchDuration advanced) (put_all numbers (put_all basic []))))))"

definition stat_of :: "(string \<times> real) list \<Rightarrow> string \<Rightarrow> real" where
  "stat_of m k = (case map_of m k of Some v \<Rightarrow> v | None \<Rightarrow> 0)"

definition isBreach :: "lol_goal \<Rightarrow> real \<Rightarrow> bool" where
  "isBreach goal v =
     (if gComparator goal = GREATER_THAN then v > gTargetValue goal
      else if gComparator goal = GREATER_THAN_OR_EQUAL then v \<ge> gTargetValue goal
      else if gComparator goal = LESS_THAN_OR_EQUAL then v \<le> gTargetValue goal
      else if gComparator goal = LESS_THAN then v < gTargetValue goal
      else False)"

subsection \<open>The handler\<close>

text \<open>One goal after the match: its last value, its count, and whether that completes it.\<close>

definition progressed :: "goals_update \<Rightarrow> (string \<times> real) list \<Rightarrow> lol_goal \<Rightarrow> lol_goal outcome" where
  "progressed msg matchDetails g =
     bind_ok (TranslateStatToPerGameValue (stat_of matchDetails (gUnderlyingStat g)) (gUnderlyingStat g))
       (\<lambda>lastValue.
         (let g1 = g\<lparr>gLastValue := lastValue, gLastMatchID := guMatchId msg\<rparr> in
          if isBreach g1 lastValue then
            (let g2 = g1\<lparr>gAchievementCount := gAchievementCount g1 + 1\<rparr> in
             Ok (if gAchievementCount g2 = gTargetAchievementCount g2
                 then g2\<lparr>gStatus := STATUS_COMPLETED\<rparr> else g2))
          else Ok g1))"

definition writeToGcd :: "goals_updater \<Rightarrow> lol_goal \<Rightarrow> 's goal_world \<Rightarrow> string option \<times> 's goal_world" where
  "writeToGcd f goal w =
     gcd_call (GcdClient f)
       (\<lambda>w. w\<lparr>goals := AList.update (GenerateId goal) (Save_goal (gs_clock (GcdClient f) (gw_calls w)) goal)
                          (goals w)\<rparr>) w"

definition deleteFromGcd :: "goals_updater \<Rightarrow> string \<Rightarrow> 's goal_world \<Rightarrow> string option \<times> 's goal_world" where
  "deleteFromGcd f i w = gcd_call (GcdClient f) (\<lambda>w. w\<lparr>goals := AList.delete i (goals w)\<rparr>) w"

text \<open>The loop over the goals to update; the list collects the goals it completes.\<close>

fun update_loop ::
  "goals_updater \<Rightarrow> goals_update \<Rightarrow> (string \<times> real) list \<Rightarrow> lol_goal list \<Rightarrow> lol_goal list \<Rightarrow> 's goal_world \<Rightarrow>
     lol_goal list outcome \<times> 's goal_world" where
  "update_loop f msg m [] completed w = (Ok completed, w)"
| "update_loop f msg m (g # gs) completed w =
     (case progressed msg m g of
        Err e \<Rightarrow> (Err e, w)
      | Panic e \<Rightarrow> (Panic e, w)
      | Ok g' \<Rightarrow>
     (case writeToGcd f g' w of
        (Some e, w1) \<Rightarrow> (Err e, w1)
      | (None, w1) \<Rightarrow>
          update_loop f msg m gs (if gStatus g' = STATUS_COMPLETED then completed @ [g'] else completed) w1))"

fun delete_loop :: "goals_updater \<Rightarrow> string list \<Rightarrow> 's goal_world \<Rightarrow> string option \<times> 's goal_world" where
  "delete_loop f [] w = (None, w)"
| "delete_loop f (i # is) w =
     (case deleteFromGcd f i w of
        (Some e, w1) \<Rightarrow> (Some e, w1)
      | (None, w1) \<Rightarrow> delete_loop f is w1)"

text \<open>
  The goals to delete, category by category; the categories stand in the order in which they
  were first completed, where Go's map has any order.
\<close>

definition to_clear :: "lol_goal list \<Rightarrow> lol_goal list \<Rightarrow> string list" where
  "to_clear completed allGoals =
     concat (map (\<lambda>k. map GenerateId
         (filter (\<lambda>g. gCategory g = k \<and> GenerateId g \<notin> GenerateId ` set completed) allGoals))
       (remdups (map gCategory completed)))"

definition Handle_update ::
  "goals_updater \<Rightarrow> string + goals_update \<Rightarrow> 's goal_world \<Rightarrow> unit outcome \<times> 's goal_world" where
  "Handle_update f data w =
     (case data of
        Inl e \<Rightarrow> (Err e, w)
      | Inr msg \<Rightarrow>
      if \<not> LolGoalsUpdate_Valid msg then (Err ''invalid message'', w)
      else case hasGoals f msg w of
        (Inl e, w1) \<Rightarrow> (Err e, w1)
      | (Inr False, w1) \<Rightarrow> (Ok (), w1)
      | (Inr True, w1) \<Rightarrow>
     (case getAllGoals f msg w1 of
        (Inl e, w2) \<Rightarrow> (Err e, w2)
      | (Inr allGoals, w2) \<Rightarrow>
     (let goalsToUpdate = filter (to_update msg) allGoals in
      if length goalsToUpdate = 0 then (Ok (), w2)
      else case getMatchStats f msg of
        Err e \<Rightarrow> (Err e, w2)
      | Panic e \<Rightarrow> (Panic e, w2)
      | Ok matchDetails \<Rightarrow>
     (case update_loop f msg matchDetails goalsToUpdate [] w2 of
        (Err e, w3) \<Rightarrow> (Err e, w3)
      | (Panic e, w3) \<Rightarrow> (Panic e, w3)
      | (Ok completed, w3) \<Rightarrow>
     (case delete_loop f (to_clear completed allGoals) w3 of
        (Some e, w4) \<Rightarrow> (Err e, w4)
      | (None, w4) \<Rightarrow> (Ok (), w4))))))"

subsection \<open>What a match changes\<close>

lemma progressed_fields:
  assumes "progressed msg m g = Ok g'"
  shows "GenerateId g' = GenerateId g \<and> gCategory g' = gCategory g \<and> gLastMatchID g' = guMatchId msg \<and>
    gRolePosition g' = gRolePosition g \<and> (gStatus g' = gStatus g \<or> gStatus g' = STATUS_COMPLETED)"
  using assms
  by (auto simp: progressed_def bind_ok_Ok GenerateId_def Let_def split: if_splits)

lemma write_cases:
  "writeToGcd f g w = (None, w') \<Longrightarrow> \<exists>t. goals w' = AList.update (GenerateId g) (Save_goal t g) (goals w)"
  by (cases "gs_fate (GcdClient f) (gw_calls w)") (auto simp: writeToGcd_def gcd_call_def error_of_def Let_def)

definition newly_completed :: "goals_update \<Rightarrow> (string \<times> real) list \<Rightarrow> lol_goal \<Rightarrow> bool" where
  "newly_completed msg m g \<longleftrightarrow> (\<exists>g'. progressed msg m g = Ok g' \<and> gStatus g' = STATUS_COMPLETED)"

lemma update_loop_effect:
  assumes "update_loop f msg m gs acc w = (Ok completed, w')" "distinct (map GenerateId gs)"
  shows "(\<forall>k. k \<notin> GenerateId ` set gs \<longrightarrow> map_of (goals w') k = map_of (goals w) k) \<and>
    (\<forall>g\<in>set gs. \<exists>g' t. progressed msg m g = Ok g' \<and>
        map_of (goals w') (GenerateId g) = Some (Save_goal t g')) \<and>
    set (map gCategory completed) = set (map gCategory acc) \<union> gCategory ` {g \<in> set gs. newly_completed msg m g} \<and>
    GenerateId ` set completed = GenerateId ` set acc \<union> GenerateId ` {g \<in> set gs. newly_completed msg m g} \<and>
    (distinct (map fst (goals w)) \<longrightarrow> distinct (map fst (goals w')))"
  using assms
proof (induction gs arbitrary: acc w)
  case (Cons g gs)
  obtain g' where g': "progressed msg m g = Ok g'"
    using Cons.prems(1) by (cases "progressed msg m g") auto
  obtain e w1 where w1: "writeToGcd f g' w = (e, w1)" by (cases "writeToGcd f g' w") blast
  with Cons.prems(1) g' have e: "e = None" by (cases e) auto
  let ?acc = "if gStatus g' = STATUS_COMPLETED then acc @ [g'] else acc"
  have l: "update_loop f msg m gs ?acc w1 = (Ok completed, w')"
    using Cons.prems(1) g' w1 e by simp
  from write_cases w1 e obtain t where t: "goals w1 = AList.update (GenerateId g') (Save_goal t g') (goals w)"
    by blast
  note f = progressed_fields[OF g']
  have new: "newly_completed msg m g \<longleftrightarrow> gStatus g' = STATUS_COMPLETED" using g' by (simp add: newly_completed_def)
  have fresh: "GenerateId g \<notin> GenerateId ` set gs" using Cons.prems(2) by auto
  from Cons.IH[OF l] Cons.prems(2) have IH:
    "\<forall>k. k \<notin> GenerateId ` set gs \<longrightarrow> map_of (goals w') k = map_of (goals w1) k"
    "\<forall>g\<in>set gs. \<exists>g' t. progressed msg m g = Ok g' \<and> map_of (goals w') (GenerateId g) = Some (Save_goal t g')"
    "set (map gCategory completed) = set (map gCategory ?acc) \<union> gCategory ` {g \<in> set gs. newly_completed msg m g}"
    "GenerateId ` set completed = GenerateId ` set ?acc \<union> GenerateId ` {g \<in> set gs. newly_completed msg m g}"
    "distinct (map fst (goals w1)) \<longrightarrow> distinct (map fst (goals w'))"
    by auto
  have "map_of (goals w') (GenerateId g) = Some (Save_goal t g')"
    using IH(1) fresh t f by simp
  moreover have "\<forall>k. k \<notin> GenerateId ` set (g # gs) \<longrightarrow> map_of (goals w') k = map_of (goals w) k"
    using IH(1) t f by simp
  moreover have "{x \<in> set (g # gs). newly_completed msg m x} =
      (if gStatus g' = STATUS_COMPLETED then insert g {x \<in> set gs. newly_completed msg m x}
       else {x \<in> set gs. newly_completed msg m x})"
    using new by auto
  ultimately show ?case
    using IH(2-5) g' f t by (auto simp: distinct_update)
qed auto

lemma delete_loop_effect:
  "delete_loop f is w = (None, w') \<Longrightarrow>
     (\<forall>k. map_of (goals w') k = (if k \<in> set is then None else map_of (goals w) k)) \<and>
     (distinct (map fst (goals w)) \<longrightarrow> distinct (map fst (goals w')))"
proof (induction "is" arbitrary: w)
  case (Cons i "is")
  obtain e w1 where d: "deleteFromGcd f i w = (e, w1)" by (cases "deleteFromGcd f i w") blast
  with Cons.prems have e: "e = None" and l: "delete_loop f is w1 = (None, w')" by (auto split: option.splits)
  from d e have "goals w1 = AList.delete i (goals w)"
    by (cases "gs_fate (GcdClient f) (gw_calls w)")
      (auto simp: deleteFromGcd_def gcd_call_def error_of_def Let_def)
  with Cons.IH[OF l] show ?case by (auto simp: distinct_delete)
qed simp


text \<open>The goals of a message in the store, and the categories it clears.\<close>

definition goal_of :: "goals_update \<Rightarrow> 's goal_world \<Rightarrow> string \<Rightarrow> lol_goal \<Rightarrow> bool" where
  "goal_of msg w k g \<longleftrightarrow> (k, g) \<in> set (goals w) \<and> key_range (update_prefix msg) k \<and> \<not> is_completed g"

definition cleared :: "goals_update \<Rightarrow> (string \<times> real) list \<Rightarrow> 's goal_world \<Rightarrow> string set" where
  "cleared msg m w = {gCategory g | k g. goal_of msg w k g \<and> to_update msg g \<and> newly_completed msg m g}"

definition own_goals :: "goals_update \<Rightarrow> 's goal_world \<Rightarrow> lol_goal list" where
  "own_goals msg w = filter (\<lambda>g. \<not> is_completed g)
     (map snd (filter (\<lambda>(k, g). key_range (update_prefix msg) k) (goals w)))"

lemma own_goals_iff:
  assumes "keys_are_ids w"
  shows "g \<in> set (own_goals msg w) \<longleftrightarrow> goal_of msg w (GenerateId g) g"
proof
  assume "g \<in> set (own_goals msg w)"
  then obtain k where "(k, g) \<in> set (goals w)" "key_range (update_prefix msg) k" "\<not> is_completed g"
    by (auto simp: own_goals_def)
  moreover from this have "k = GenerateId g" using assms by (auto simp: keys_are_ids_def)
  ultimately show "goal_of msg w (GenerateId g) g" by (simp add: goal_of_def)
next
  assume "goal_of msg w (GenerateId g) g"
  then show "g \<in> set (own_goals msg w)" by (force simp: goal_of_def own_goals_def)
qed

lemma own_goals_distinct:
  assumes "keys_are_ids w" "distinct (map fst (goals w))"
  shows "distinct (map GenerateId (own_goals msg w))"
proof -
  have "map GenerateId (map snd xs) = map fst xs" if "set xs \<subseteq> set (goals w)" for xs
    using that assms(1) by (induction xs) (auto simp: keys_are_ids_def)
  moreover have "set (filter (\<lambda>(k, g). key_range (update_prefix msg) k) (goals w)) \<subseteq> set (goals w)" by auto
  ultimately have "map GenerateId (map snd (filter (\<lambda>(k, g). key_range (update_prefix msg) k) (goals w))) =
      map fst (filter (\<lambda>(k, g). key_range (update_prefix msg) k) (goals w))" by blast
  then have "distinct (map GenerateId (map snd (filter (\<lambda>(k, g). key_range (update_prefix msg) k) (goals w))))"
    using distinct_map_filter[OF assms(2), of "\<lambda>(k, g). key_range (update_prefix msg) k"] by (simp only:)
  then show ?thesis unfolding own_goals_def by (rule distinct_map_filter)
qed

lemma goal_of_id:
  "keys_are_ids w \<Longrightarrow> distinct (map fst (goals w)) \<Longrightarrow> (k, g) \<in> set (goals w) \<Longrightarrow>
     goal_of msg w (GenerateId x) x \<Longrightarrow> GenerateId x = k \<Longrightarrow> x = g"
  by (auto simp: goal_of_def dest: eq_key_imp_eq_value)

lemma to_clear_set:
  "set (to_clear completed all) =
     {GenerateId g | g. g \<in> set all \<and> gCategory g \<in> set (map gCategory completed) \<and>
        GenerateId g \<notin> GenerateId ` set completed}"
  by (auto simp: to_clear_def)

lemma Handle_update_cases:
  assumes "Handle_update f (Inr msg) w = (Ok (), w')"
  shows "goals w' = goals w \<and> (\<forall>k g. goal_of msg w k g \<longrightarrow> \<not> to_update msg g) \<or>
    (\<exists>m completed v w3. getMatchStats f msg = Ok m \<and> goals v = goals w \<and>
       update_loop f msg m (filter (to_update msg) (own_goals msg w)) [] v = (Ok completed, w3) \<and>
       delete_loop f (to_clear completed (own_goals msg w)) w3 = (None, w'))"
proof -
  obtain r w1 where h: "hasGoals f msg w = (r, w1)" by (cases "hasGoals f msg w") blast
  have w1: "goals w1 = goals w"
    using h by (auto simp: hasGoals_def run_query_def Let_def split: list.splits option.splits prod.splits)
  obtain a w2 where a: "getAllGoals f msg w1 = (a, w2)" by (cases "getAllGoals f msg w1") blast
  have w2: "goals w2 = goals w"
    using a w1 by (auto simp: getAllGoals_def run_query_def Let_def split: option.splits prod.splits)
  have none: "\<not> key_range (update_prefix msg) k" if "r = Inr False" "(k, g) \<in> set (goals w)" for k g
    using h that by (auto simp: hasGoals_def run_query_def Let_def filter_empty_conv
        split: list.splits option.splits prod.splits)
  have all: "all = own_goals msg w" if "a = Inr all" for all
    using a that w1 by (auto simp: own_goals_def getAllGoals_def run_query_def Let_def split: option.splits prod.splits)
  consider e where "r = Inl e" | "r = Inr False" | "r = Inr True" by (metis (full_types) sumE)
  then show ?thesis
  proof cases
    case 1 then show ?thesis using assms h by (auto simp: Handle_update_def split: if_splits)
  next
    case 2
    then have "w' = w1" using assms h by (auto simp: Handle_update_def split: if_splits)
    with w1 none[OF 2] show ?thesis by (auto simp: goal_of_def)
  next
    case 3
    then obtain gs where gs: "a = Inr gs"
      using assms h a by (cases a) (auto simp: Handle_update_def split: if_splits)
    let ?tu = "filter (to_update msg) gs"
    show ?thesis
    proof (cases "?tu = []")
      case True
      then have "w' = w2" using assms h a 3 gs by (auto simp: Handle_update_def Let_def split: if_splits)
      moreover have "\<not> to_update msg g" if "goal_of msg w k g" for k g
        using that True all[OF gs] by (force simp: own_goals_def goal_of_def filter_empty_conv)
      ultimately show ?thesis using w2 by auto
    next
      case False
      obtain m where m: "getMatchStats f msg = Ok m"
        using assms h a 3 gs False
        by (cases "getMatchStats f msg") (auto simp: Handle_update_def Let_def split: if_splits)
      obtain u w3 where u: "update_loop f msg m ?tu [] w2 = (u, w3)"
        by (cases "update_loop f msg m ?tu [] w2") blast
      obtain completed where c: "u = Ok completed"
        using assms h a 3 gs False m u
        by (cases u) (auto simp: Handle_update_def Let_def split: if_splits)
      have "delete_loop f (to_clear completed gs) w3 = (None, w')"
        using assms h a 3 gs False m u c
        by (auto simp: Handle_update_def Let_def split: if_splits option.splits prod.splits)
      with m w2 all[OF gs] u c show ?thesis by blast
    qed
  qed
qed


text \<open>The two loops together, seen from one goal of the store.\<close>

lemma loops_effect:
  assumes u: "update_loop f msg m (filter (to_update msg) (own_goals msg w)) [] v = (Ok completed, w3)"
    and d: "delete_loop f (to_clear completed (own_goals msg w)) w3 = (None, w')"
    and v: "goals v = goals w"
    and keys: "keys_are_ids w" "distinct (map fst (goals w))" and kg: "(k, g) \<in> set (goals w)"
  shows "map_of (goals w') k =
      (if g \<in> set (own_goals msg w) \<and> gCategory g \<in> cleared msg m w \<and>
          \<not> (to_update msg g \<and> newly_completed msg m g) then None else map_of (goals w3) k)"
    and "g \<in> set (own_goals msg w) \<Longrightarrow> to_update msg g \<Longrightarrow>
      \<exists>g' t. progressed msg m g = Ok g' \<and> map_of (goals w3) k = Some (Save_goal t g')"
    and "\<not> (g \<in> set (own_goals msg w) \<and> to_update msg g) \<Longrightarrow> map_of (goals w3) k = Some g"
proof -
  let ?all = "own_goals msg w"
  have k: "k = GenerateId g" and g: "map_of (goals w) k = Some g"
    using keys kg by (auto simp: keys_are_ids_def)
  have same: "x = g" if "x \<in> set ?all" "GenerateId x = GenerateId g" for x
    using that own_goals_iff[OF keys(1)] goal_of_id[OF keys kg] k by simp
  have "distinct (map GenerateId (filter (to_update msg) ?all))"
    using own_goals_distinct[OF keys] by (rule distinct_map_filter)
  note U = update_loop_effect[OF u this]
  have "gCategory ` {x \<in> set (filter (to_update msg) ?all). newly_completed msg m x} = cleared msg m w"
  proof -
    have "goal_of msg w j x \<Longrightarrow> j = GenerateId x" for j x
      using keys(1) by (auto simp: goal_of_def keys_are_ids_def)
    then show ?thesis by (auto simp: cleared_def own_goals_iff[OF keys(1)])
  qed
  then have cats: "set (map gCategory completed) = cleared msg m w" using U by simp
  have comp: "GenerateId x \<in> GenerateId ` set completed \<longleftrightarrow> to_update msg g \<and> newly_completed msg m g"
    if x: "x \<in> set ?all" "GenerateId x = GenerateId g" for x
  proof -
    have ids: "GenerateId ` set completed =
        GenerateId ` {y \<in> set ?all. to_update msg y \<and> newly_completed msg m y}"
      using U by simp
    have "x = g" using same x by simp
    show ?thesis
    proof
      assume "GenerateId x \<in> GenerateId ` set completed"
      then obtain y where "y \<in> set ?all" "to_update msg y" "newly_completed msg m y" "GenerateId y = GenerateId g"
        using x(2) unfolding ids by auto
      with same show "to_update msg g \<and> newly_completed msg m g" by blast
    next
      assume "to_update msg g \<and> newly_completed msg m g"
      with \<open>x = g\<close> x(1) show "GenerateId x \<in> GenerateId ` set completed" unfolding ids by blast
    qed
  qed
  have "k \<in> set (to_clear completed ?all) \<longleftrightarrow> g \<in> set ?all \<and> gCategory g \<in> cleared msg m w \<and>
      \<not> (to_update msg g \<and> newly_completed msg m g)"
    unfolding to_clear_set cats k using same comp by auto
  then show "map_of (goals w') k =
      (if g \<in> set ?all \<and> gCategory g \<in> cleared msg m w \<and>
          \<not> (to_update msg g \<and> newly_completed msg m g) then None else map_of (goals w3) k)"
    using delete_loop_effect[OF d] by simp
  show "\<exists>g' t. progressed msg m g = Ok g' \<and> map_of (goals w3) k = Some (Save_goal t g')"
    if "g \<in> set ?all" "to_update msg g"
    using U that k by simp
  show "map_of (goals w3) k = Some g" if "\<not> (g \<in> set ?all \<and> to_update msg g)"
  proof -
    have "k \<notin> GenerateId ` set (filter (to_update msg) ?all)" using that same k by auto
    with U v g show ?thesis by simp
  qed
qed

lemma match_effect:
  assumes "Handle_update f (Inr msg) w = (Ok (), w')" "getMatchStats f msg = Ok m"
    and "keys_are_ids w" "distinct (map fst (goals w))" "(k, g) \<in> set (goals w)"
  shows "(\<not> goal_of msg w k g \<longrightarrow> map_of (goals w') k = Some g) \<and>
    (goal_of msg w k g \<and> to_update msg g \<longrightarrow>
       (\<exists>g' t. progressed msg m g = Ok g' \<and> map_of (goals w') k =
          (if gCategory g \<in> cleared msg m w \<and> gStatus g' \<noteq> STATUS_COMPLETED then None
           else Some (Save_goal t g')))) \<and>
    (goal_of msg w k g \<and> \<not> to_update msg g \<longrightarrow>
       map_of (goals w') k = (if gCategory g \<in> cleared msg m w then None else Some g))"
proof -
  have k: "k = GenerateId g" and g: "map_of (goals w) k = Some g"
    using assms(3-5) by (auto simp: keys_are_ids_def)
  have own: "goal_of msg w k g \<longleftrightarrow> g \<in> set (own_goals msg w)"
    using own_goals_iff[OF assms(3)] k by simp
  from Handle_update_cases[OF assms(1)] show ?thesis
  proof (elim disjE conjE exE)
    assume w': "goals w' = goals w" and no: "\<forall>k g. goal_of msg w k g \<longrightarrow> \<not> to_update msg g"
    then have "cleared msg m w = {}" by (auto simp: cleared_def)
    with w' no g show ?thesis by auto
  next
    fix m' completed v w3
    assume m': "getMatchStats f msg = Ok m'" and v: "goals v = goals w"
      and u: "update_loop f msg m' (filter (to_update msg) (own_goals msg w)) [] v = (Ok completed, w3)"
      and d: "delete_loop f (to_clear completed (own_goals msg w)) w3 = (None, w')"
    have m: "m' = m" using m' assms(2) by simp
    note loops = loops_effect[OF u[unfolded m] d v assms(3,4,5)]
    show ?thesis
    proof (cases "g \<in> set (own_goals msg w) \<and> to_update msg g")
      case True
      with loops(2) obtain g' t where g': "progressed msg m g = Ok g'" "map_of (goals w3) k = Some (Save_goal t g')"
        by auto
      then have "newly_completed msg m g \<longleftrightarrow> gStatus g' = STATUS_COMPLETED"
        by (simp add: newly_completed_def)
      with loops(1) own True g' show ?thesis by auto
    next
      case False
      with loops(1,3) own show ?thesis by auto
    qed
  qed
qed

text \<open>
  C6: after a message was handled without error, every goal of the store is where the rules
  say. Goals of others, and goals already completed, are untouched. A goal the match counts for
  has its progress stored. When one of them is completed, the other goals of its category, that
  are for the same role and champion and not completed, are gone.
\<close>

theorem match_counted:
  assumes "Handle_update f (Inr msg) w = (Ok (), w')" "getMatchStats f msg = Ok m"
    and "keys_are_ids w" "distinct (map fst (goals w))" "(k, g) \<in> set (goals w)"
  shows "(\<not> goal_of msg w k g \<longrightarrow> map_of (goals w') k = Some g) \<and>
    (goal_of msg w k g \<and> to_update msg g \<longrightarrow>
       (\<exists>g' t. progressed msg m g = Ok g' \<and> map_of (goals w') k =
          (if gCategory g \<in> cleared msg m w \<and> gStatus g' \<noteq> STATUS_COMPLETED then None
           else Some (Save_goal t g')))) \<and>
    (goal_of msg w k g \<and> \<not> to_update msg g \<longrightarrow>
       map_of (goals w') k = (if gCategory g \<in> cleared msg m w then None else Some g))"
  using assms by (rule match_effect)

lemma keys_after:
  assumes "Handle_update f (Inr msg) w = (Ok (), w')" "keys_are_ids w" "distinct (map fst (goals w))"
  shows "distinct (map fst (goals w')) \<and> (\<forall>k. k \<notin> fst ` set (goals w) \<longrightarrow> map_of (goals w') k = None)"
  using Handle_update_cases[OF assms(1)]
proof (elim disjE conjE exE)
  assume w': "goals w' = goals w"
  then show ?thesis using assms(3) by (simp add: map_of_eq_None_iff)
next
  fix m completed v w3
  assume v: "goals v = goals w"
    and u: "update_loop f msg m (filter (to_update msg) (own_goals msg w)) [] v = (Ok completed, w3)"
    and d: "delete_loop f (to_clear completed (own_goals msg w)) w3 = (None, w')"
  have "distinct (map GenerateId (filter (to_update msg) (own_goals msg w)))"
    using own_goals_distinct[OF assms(2,3)] by (rule distinct_map_filter)
  note U = update_loop_effect[OF u this]
  have "k \<notin> GenerateId ` set (filter (to_update msg) (own_goals msg w))" if "k \<notin> fst ` set (goals w)" for k
    using that own_goals_iff[OF assms(2)] by (force simp: goal_of_def)
  with U v assms(3) delete_loop_effect[OF d] show ?thesis
    by (auto simp: map_of_eq_None_iff)
qed

lemma Handle_update_idle:
  assumes "\<And>k g. goal_of msg w k g \<Longrightarrow> \<not> to_update msg g"
  shows "goals (snd (Handle_update f (Inr msg) w)) = goals w"
proof -
  obtain r w1 where h: "hasGoals f msg w = (r, w1)" by (cases "hasGoals f msg w") blast
  have w1: "goals w1 = goals w"
    using h by (auto simp: hasGoals_def run_query_def Let_def split: list.splits option.splits prod.splits)
  obtain a w2 where a: "getAllGoals f msg w1 = (a, w2)" by (cases "getAllGoals f msg w1") blast
  have w2: "goals w2 = goals w"
    using a w1 by (auto simp: getAllGoals_def run_query_def Let_def split: option.splits prod.splits)
  have none: "filter (to_update msg) all = []" if "a = Inr all" for all
  proof -
    have "all = own_goals msg w"
      using a that w1 by (auto simp: own_goals_def getAllGoals_def run_query_def Let_def split: option.splits prod.splits)
    then show ?thesis using assms by (force simp: own_goals_def goal_of_def filter_empty_conv)
  qed
  then show ?thesis
    using h a w1 w2 by (auto simp: Handle_update_def Let_def split: sum.splits bool.splits)
qed

text \<open>
  C21: the queue may deliver a message again. After it was handled without error, handling it
  once more changes no goal.
\<close>

theorem duplicate_message_ignored:
  assumes "Handle_update f (Inr msg) w = (Ok (), w')" "keys_are_ids w" "distinct (map fst (goals w))"
  shows "goals (snd (Handle_update f (Inr msg) w')) = goals w'"
proof (rule Handle_update_idle)
  fix k g' assume o: "goal_of msg w' k g'"
  have valid: "guMatchId msg \<noteq> 0"
    using assms(1) by (auto simp: Handle_update_def LolGoalsUpdate_Valid_def split: if_splits)
  note after = keys_after[OF assms]
  have g': "map_of (goals w') k = Some g'" using o after by (simp add: goal_of_def)
  then obtain g where g: "(k, g) \<in> set (goals w)" using after by fastforce
  show "\<not> to_update msg g'"
  proof (cases "getMatchStats f msg")
    case (Ok m)
    note e = match_effect[OF assms(1) Ok assms(2,3) g]
    show ?thesis
    proof (cases "goal_of msg w k g \<and> to_update msg g")
      case True
      with e g' obtain x t where "progressed msg m g = Ok x" "g' = Save_goal t x"
        by (auto split: if_splits)
      then have "gLastMatchID g' = guMatchId msg" using progressed_fields by (simp add: Save_goal_def)
      with valid show ?thesis by (simp add: to_update_def)
    next
      case False
      with e g' have "g' = g" by (auto split: if_splits)
      with o g False show ?thesis by (auto simp: goal_of_def)
    qed
  next
    case (Err x)
    with Handle_update_cases[OF assms(1)] o show ?thesis by (auto simp: goal_of_def)
  next
    case (Panic x)
    with Handle_update_cases[OF assms(1)] o show ?thesis by (auto simp: goal_of_def)
  qed
qed

subsection \<open>A clearing that fails\<close>

definition six_goal :: lol_goal where
  "six_goal = \<lparr>gCreated = 100, gLastUpdated = 100, gStatus = ''ACCEPTED'', gSummonerID = 11,
     gPlatform = ''NA1'', gUnderlyingStat = ''level_6_seconds'', gTargetValue = 300,
     gComparator = ''LESS_THAN_OR_EQUAL'', gAchievementCount = 0, gTargetAchievementCount = 1,
     gImportanceWeight = 5, gRolePosition = ''top'', gChampionID = 0, gLastValue = 0,
     gCategory = ''MECHANICS'', gLastMatchID = 0\<rparr>"

definition gold_goal :: lol_goal where
  "gold_goal = six_goal\<lparr>gStatus := ''NEW'', gUnderlyingStat := ''gold_zero_to_ten''\<rparr>"

definition six_id :: string where "six_id = ''11-NA1-top-0-level_6_seconds-100''"
definition gold_id :: string where "gold_id = ''11-NA1-top-0-gold_zero_to_ten-100''"

definition two_goals :: "unit goal_world" where
  "two_goals = \<lparr>goals = [(six_id, six_goal), (gold_id, gold_goal)], gw_users = (), gw_calls = 0\<rparr>"

definition played_match :: goals_update where
  "played_match = \<lparr>guMatchId = 7, guPlatformId = ''NA1'', guSummonerId = 11, guRolePosition = ''top'',
     guChampionId = 0\<rparr>"

definition nothing_advanced :: advanced_view where
  "nothing_advanced = \<lparr>avUsefulPercentAll = 0, avAttacksPerMinute = 0, avMapCoveragesFull = 0,
     avLiveWardsPink = 0, avLiveWardsYellowAndBlue = 0, avBadDeathsTotal = 0, avGoodKillsTotal = 0\<rparr>"

definition updater :: "(nat \<Rightarrow> fate) \<Rightarrow> goals_updater" where
  "updater fates = \<lparr>GcdClient = \<lparr>gs_fate = fates, gs_broken_off = \<lambda>_. None, gs_clock = \<lambda>_. 200\<rparr>,
     StatsDir = ''dir'', read_basic = \<lambda>_. Inr [(''match_duration'', 1800), (''level_6_seconds'', 200)],
     read_advanced = \<lambda>_. Inr ([], nothing_advanced)\<rparr>"

lemma show_small: "show_int 0 = ''0''" "show_int 100 = ''100''"
  by code_simp+

lemma two_ids: "GenerateId six_goal = six_id" "GenerateId gold_goal = gold_id"
  by (simp_all add: GenerateId_def six_goal_def gold_goal_def six_id_def gold_id_def show_small show_11)

lemma two_in_range: "key_range (update_prefix played_match) six_id" "key_range (update_prefix played_match) gold_id"
proof -
  have p: "update_prefix played_match = ''11-NA1-top-0''"
    by (simp add: update_prefix_def goal_prefix_def played_match_def show_small show_11)
  have "six_id = ''11-NA1-top-0'' @ CHR ''-'' # ''level_6_seconds-100''"
    "gold_id = ''11-NA1-top-0'' @ CHR ''-'' # ''gold_zero_to_ten-100''"
    by (simp_all add: six_id_def gold_id_def)
  then show "key_range (update_prefix played_match) six_id" "key_range (update_prefix played_match) gold_id"
    unfolding p key_range_iff using dash_less by blast+
qed

definition six_done :: lol_goal where
  "six_done = six_goal\<lparr>gStatus := ''COMPLETED'', gAchievementCount := 1, gLastValue := 200,
     gLastMatchID := 7\<rparr>"

lemma match_stats: "\<exists>m. getMatchStats (updater fates) played_match = Ok m \<and> stat_of m ''level_6_seconds'' = 200"
  by (simp add: getMatchStats_def updater_def special_cases_def put_all_def stat_of_def)

lemma six_progress:
  assumes "stat_of m ''level_6_seconds'' = 200"
  shows "progressed played_match m six_goal = Ok six_done"
  using assms
  by (simp add: progressed_def six_goal_def six_done_def TranslateStatToPerGameValue_def Round_real_def
      isBreach_def GREATER_THAN_def GREATER_THAN_OR_EQUAL_def LESS_THAN_OR_EQUAL_def STATUS_COMPLETED_def
      played_match_def)


definition six_stored :: lol_goal where
  "six_stored = six_done\<lparr>gLastUpdated := 200\<rparr>"

definition after_write :: "unit goal_world" where
  "after_write = \<lparr>goals = [(six_id, six_stored), (gold_id, gold_goal)], gw_users = (), gw_calls = 3\<rparr>"

lemma six_ne_gold: "six_id \<noteq> gold_id"
  by (simp add: six_id_def gold_id_def)

lemma demo_query:
  "run_query (GcdClient (updater fates)) (\<lambda>k g. key_range (update_prefix played_match) k)
     (two_goals\<lparr>gw_calls := n\<rparr>) = ((goals two_goals, None), two_goals\<lparr>gw_calls := Suc n\<rparr>)"
  by (simp add: run_query_def updater_def two_goals_def two_in_range gw_tick_def)

lemma demo_pending: "\<not> is_completed six_goal" "\<not> is_completed gold_goal"
  "to_update played_match six_goal" "\<not> to_update played_match gold_goal"
  by (simp_all add: is_completed_def to_update_def six_goal_def gold_goal_def STATUS_COMPLETED_def
      STATUS_COMPLETED_SEEN_def STATUS_ACCEPTED_def played_match_def VPRSQL_def)

lemma six_done_fields: "GenerateId six_done = six_id" "gStatus six_done = STATUS_COMPLETED"
  "gCategory six_done = ''MECHANICS''" "Save_goal 200 six_done = six_stored"
  "gCategory gold_goal = ''MECHANICS''"
  by (simp_all add: six_done_def two_ids[symmetric] GenerateId_def STATUS_COMPLETED_def six_goal_def
      six_stored_def Save_goal_def gold_goal_def)

lemma demo_clear: "to_clear [six_done] [six_goal, gold_goal] = [gold_id]"
  using six_ne_gold by (auto simp: to_clear_def six_done_fields two_ids)

lemma demo_write:
  assumes "fates 2 = Done"
  shows "writeToGcd (updater fates) six_done (two_goals\<lparr>gw_calls := 2\<rparr>) = (None, after_write)"
  using assms
  by (simp add: writeToGcd_def gcd_call_def error_of_def six_done_fields two_goals_def after_write_def
      gw_tick_def) (simp add: updater_def six_done_fields)

lemma two_calls: "two_goals = two_goals\<lparr>gw_calls := 0\<rparr>"
  by (simp add: two_goals_def)

lemma demo_handle_update:
  assumes "fates 2 = Done"
  shows "Handle_update (updater fates) (Inr played_match) two_goals =
    (case delete_loop (updater fates) [gold_id] after_write of
       (Some e, w) \<Rightarrow> (Err e, w) | (None, w) \<Rightarrow> (Ok (), w))"
proof -
  obtain m where m: "getMatchStats (updater fates) played_match = Ok m" "stat_of m ''level_6_seconds'' = 200"
    using match_stats by blast
  have v: "LolGoalsUpdate_Valid played_match" by (simp add: LolGoalsUpdate_Valid_def played_match_def)
  have h: "hasGoals (updater fates) played_match two_goals = (Inr True, two_goals\<lparr>gw_calls := 1\<rparr>)"
    using demo_query[of fates 0] by (simp add: hasGoals_def two_calls[symmetric] two_goals_def)
  have a: "getAllGoals (updater fates) played_match (two_goals\<lparr>gw_calls := 1\<rparr>) =
      (Inr [six_goal, gold_goal], two_goals\<lparr>gw_calls := 2\<rparr>)"
    using demo_query[of fates 1] demo_pending
    by (simp add: getAllGoals_def two_goals_def numeral_2_eq_2)
  have "update_loop (updater fates) played_match m [six_goal] [] (two_goals\<lparr>gw_calls := 2\<rparr>) =
      (Ok [six_done], after_write)"
    using six_progress[OF m(2)] demo_write[of fates] assms six_done_fields(2) by simp
  then show ?thesis
    using v h a m(1) demo_pending demo_clear
    by (simp add: Handle_update_def)
qed

definition clear_fails :: "nat \<Rightarrow> fate" where
  "clear_fails n = (if n = 3 then Refused ''unavailable'' else Done)"

text \<open>
  when clearing a category fails after its goal was completed, the message is delivered
  again, and that time reports success; but the completed goal is no longer seen, and the goal
  that should have gone stays.
\<close>

theorem failed_clear_not_repeated:
  "(let (r1, w1) = Handle_update (updater clear_fails) (Inr played_match) two_goals;
        (r2, w2) = Handle_update (updater clear_fails) (Inr played_match) w1
    in r1 = Err ''unavailable'' \<and> r2 = Ok () \<and> map_of (goals w2) gold_id = Some gold_goal)"
proof -
  let ?w1 = "after_write\<lparr>gw_calls := 4\<rparr>"
  have 1: "Handle_update (updater clear_fails) (Inr played_match) two_goals = (Err ''unavailable'', ?w1)"
    using demo_handle_update[of clear_fails]
    by (simp add: clear_fails_def deleteFromGcd_def gcd_call_def error_of_def updater_def after_write_def
        gw_tick_def)
  have q: "run_query (GcdClient (updater clear_fails)) (\<lambda>k g. key_range (update_prefix played_match) k)
     (after_write\<lparr>gw_calls := n\<rparr>) = ((goals after_write, None), after_write\<lparr>gw_calls := Suc n\<rparr>)" for n
    by (simp add: run_query_def updater_def after_write_def two_in_range gw_tick_def)
  have "is_completed six_stored" by (simp add: is_completed_def six_stored_def six_done_def STATUS_COMPLETED_def)
  then have a: "getAllGoals (updater clear_fails) played_match (after_write\<lparr>gw_calls := 5\<rparr>) =
      (Inr [gold_goal], after_write\<lparr>gw_calls := 6\<rparr>)"
    using q[of 5] demo_pending by (simp add: getAllGoals_def after_write_def)
  have h: "hasGoals (updater clear_fails) played_match ?w1 = (Inr True, after_write\<lparr>gw_calls := 5\<rparr>)"
    using q[of 4] by (simp add: hasGoals_def after_write_def)
  have "LolGoalsUpdate_Valid played_match" by (simp add: LolGoalsUpdate_Valid_def played_match_def)
  then have 2: "Handle_update (updater clear_fails) (Inr played_match) ?w1 = (Ok (), after_write\<lparr>gw_calls := 6\<rparr>)"
    using h a demo_pending by (simp add: Handle_update_def)
  show ?thesis
    using six_ne_gold by (simp add: 1 2) (simp add: after_write_def)
qed

text \<open>The other theorems, when all calls end well.\<close>

lemma played_well:
  "Handle_update (updater all_well) (Inr played_match) two_goals =
     (Ok (), after_write\<lparr>goals := [(six_id, six_stored)], gw_calls := 4\<rparr>)"
  using demo_handle_update[of all_well] six_ne_gold
  by (simp add: all_well_def deleteFromGcd_def gcd_call_def error_of_def updater_def after_write_def
      gw_tick_def)

lemma two_keys: "keys_are_ids two_goals" "distinct (map fst (goals two_goals))"
  "(gold_id, gold_goal) \<in> set (goals two_goals)"
  using six_ne_gold
  by (simp_all add: keys_are_ids_def two_goals_def two_ids) (simp_all add: six_goal_def gold_goal_def)

lemma match_counted_witness:
  "\<exists>m. ''MECHANICS'' \<in> cleared played_match m two_goals"
proof -
  obtain m where m: "getMatchStats (updater all_well) played_match = Ok m" using match_stats by blast
  have "goal_of played_match two_goals gold_id gold_goal"
    using two_keys two_in_range demo_pending by (simp add: goal_of_def)
  moreover have "map_of (goals (after_write\<lparr>goals := [(six_id, six_stored)], gw_calls := 4\<rparr>)) gold_id = None"
    using six_ne_gold by simp
  ultimately show ?thesis
    using match_counted[OF played_well m two_keys] demo_pending six_done_fields(5)
    by (intro exI[of _ m]) (auto split: if_splits)
qed

lemma duplicate_message_ignored_witness:
  "goals (snd (Handle_update (updater all_well) (Inr played_match)
     (after_write\<lparr>goals := [(six_id, six_stored)], gw_calls := 4\<rparr>))) = [(six_id, six_stored)]"
  using duplicate_message_ignored[OF played_well two_keys(1,2)] by simp

end
