(* ===== verification/Ingest_Wards.thy ===== *)
theory Ingest_Wards
  imports Baseview
begin

text \<open>
  The life of wards: \<open>lolstats-master/ingest/wards.go\<close>. A \<open>wardLife\<close> is shared by the maps
  \<open>ActiveWards\<close> and \<open>PlayerWards\<close>; the model keeps the lives in a store, a list that only grows, and
  the maps hold their indices. The maps the code ranges over are association lists; their order is one
  of the orders in which Go may range over them. Warnings are left out.
\<close>

subsection \<open>The state\<close>

record interval =
  iBegin :: real
  iEnd :: real

record ward_life =
  wBegin :: real
  wEnd :: real
  wPosition :: position
  Creator :: int
  ItemType :: ward_item
  wType :: string
  EndReason :: string
  AttacksAgainst :: "(real \<times> attack) list"
  ClearedBy :: int
  Reveals :: "(int \<times> interval list) list"

record ward_analysis =
  lives :: "ward_life list"
  ActiveWards :: "(int \<times> nat) list"
  PlayerWards :: "int \<Rightarrow> nat list"

definition NewWardAnalysis :: ward_analysis where
  "NewWardAnalysis = \<lparr>lives = [], ActiveWards = [], PlayerWards = (\<lambda>_. [])\<rparr>"

definition upd_life :: "nat \<Rightarrow> (ward_life \<Rightarrow> ward_life) \<Rightarrow> ward_analysis \<Rightarrow> ward_analysis" where
  "upd_life i f wa = wa\<lparr>lives := (lives wa)[i := f (lives wa ! i)]\<rparr>"

subsection \<open>Events\<close>

definition new_life :: "real \<Rightarrow> real \<Rightarrow> ward_placed \<Rightarrow> ward_life" where
  "new_life gameLengthSeconds secs t =
     \<lparr>wBegin = secs, wEnd = gameLengthSeconds, wPosition = wpPosition t, Creator = wpParticipantID t,
      ItemType = wpItemType t, wType = wardType (Ward (wpItemType t)), EndReason = '''',
      AttacksAgainst = [], ClearedBy = 0, Reveals = []\<rparr>"

definition AddWardPlaced :: "real \<Rightarrow> ward_placed \<Rightarrow> real \<Rightarrow> ward_analysis \<Rightarrow> ward_analysis" where
  "AddWardPlaced secs t gameLengthSeconds wa =
     (let i = length (lives wa) in
      wa\<lparr>lives := lives wa @ [new_life gameLengthSeconds secs t],
         ActiveWards := AList.update (wpWardID t) i (ActiveWards wa),
         PlayerWards := (PlayerWards wa)(wpParticipantID t := PlayerWards wa (wpParticipantID t) @ [i])\<rparr>)"

definition wa_AddAttack :: "real \<Rightarrow> attack \<Rightarrow> ward_analysis \<Rightarrow> ward_analysis" where
  "wa_AddAttack secs t wa =
     (if TargetID t = 0 then wa
      else case map_of (ActiveWards wa) (TargetID t) of
        None \<Rightarrow> wa
      | Some i \<Rightarrow> upd_life i (\<lambda>w. w\<lparr>AttacksAgainst := AttacksAgainst w @ [(secs, t)]\<rparr>) wa)"

text \<open>The loop returns as soon as a count exceeds the limit of its ward.\<close>

fun exceeds_loop :: "ward_life list \<Rightarrow> int \<Rightarrow> (string \<times> real) list \<Rightarrow> bool" where
  "exceeds_loop [] creator activeByType = False"
| "exceeds_loop (w # ws) creator activeByType =
     (if Creator w \<noteq> creator then exceeds_loop ws creator activeByType
      else let active = bump 1 (wType w) activeByType in
        (case concurrent (Ward (ItemType w)) of
           None \<Rightarrow> exceeds_loop ws creator active
         | Some mx \<Rightarrow> get0 active (wType w) > mx \<or> exceeds_loop ws creator active))"

definition active_lives :: "ward_analysis \<Rightarrow> ward_life list" where
  "active_lives wa = map (\<lambda>(k, i). lives wa ! i) (ActiveWards wa)"

definition exceedsWardLimit :: "ward_life \<Rightarrow> ward_analysis \<Rightarrow> bool" where
  "exceedsWardLimit ward wa = exceeds_loop (active_lives wa) (Creator ward) []"

definition likelyWardClearer :: "ward_life \<Rightarrow> int" where
  "likelyWardClearer ward =
     (let lastRevealPID = snd (fold (\<lambda>(pID, intervals) (lastRevealTime, lastPID).
            if TeamID (Creator ward) = TeamID pID \<or> intervals = [] then (lastRevealTime, lastPID)
            else let reveal = List.last intervals in
              if lastRevealTime < iEnd reveal then (iEnd reveal, pID) else (lastRevealTime, lastPID))
          (Reveals ward) (0, 0)) in
      if lastRevealPID > 0 then lastRevealPID
      else if Creator ward \<ge> 6 then 1
      else 6)"

text \<open>The reason of the end of a ward, and who cleared it; \<open>limit\<close> is \<open>exceedsWardLimit\<close>.\<close>

definition end_of :: "ward_life \<Rightarrow> bool \<Rightarrow> string \<times> int" where
  "end_of ward limit =
     (let duration = wEnd ward - wBegin ward;
          lastAttack = (if AttacksAgainst ward = [] then None else Some (List.last (AttacksAgainst ward))) in
      case lastAttack of
        Some (s, a) \<Rightarrow>
          if wEnd ward - s < 5 then (''cleared'', aAttackerID a)
          else if limit then (''replaced'', ClearedBy ward)
          else if wardType (Ward (ItemType ward)) = ''yellow'' \<and> duration \<ge> 58 then (''expired'', ClearedBy ward)
          else (''cleared'', likelyWardClearer ward)
      | None \<Rightarrow>
          if limit then (''replaced'', ClearedBy ward)
          else if wardType (Ward (ItemType ward)) = ''yellow'' \<and> duration \<ge> 58 then (''expired'', ClearedBy ward)
          else (''cleared'', likelyWardClearer ward))"

definition wa_AddWardDeath :: "real \<Rightarrow> int \<Rightarrow> ward_analysis \<Rightarrow> ward_analysis fallible" where
  "wa_AddWardDeath secs wardID wa =
     (case map_of (ActiveWards wa) wardID of
        None \<Rightarrow> Inl ''unable to find matching active ward for death''
      | Some i \<Rightarrow>
          let wa1 = upd_life i (\<lambda>w. w\<lparr>wEnd := secs\<rparr>) wa;
              ward = lives wa1 ! i;
              (reason, clearer) = end_of ward (exceedsWardLimit ward wa1);
              wa2 = upd_life i (\<lambda>w. w\<lparr>EndReason := reason, ClearedBy := clearer\<rparr>) wa1
          in Inr (wa2\<lparr>ActiveWards := AList.delete wardID (ActiveWards wa2)\<rparr>))"

text \<open>The reveals of one participant after it was seen by a ward at a time.\<close>

definition add_reveal :: "real \<Rightarrow> interval list \<Rightarrow> interval list" where
  "add_reveal secs reveals =
     (if reveals \<noteq> [] \<and> secs - iEnd (List.last reveals) < 5
      then butlast reveals @ [(List.last reveals)\<lparr>iEnd := secs\<rparr>]
      else reveals @ [\<lparr>iBegin = secs, iEnd = secs\<rparr>])"

definition see :: "real \<Rightarrow> state_update \<Rightarrow> ward_life \<Rightarrow> ward_life" where
  "see secs t w =
     (if TeamID (Creator w) = TeamID (suParticipantID t) then w
      else if DistanceXY (wPosition w) (suPosition t) \<le> sightRange (Ward (ItemType w)) then
        w\<lparr>Reveals := AList.update (suParticipantID t)
          (add_reveal secs (case map_of (Reveals w) (suParticipantID t) of None \<Rightarrow> [] | Some r \<Rightarrow> r)) (Reveals w)\<rparr>
      else w)"

definition wa_AddStateUpdate :: "real \<Rightarrow> state_update \<Rightarrow> ward_analysis \<Rightarrow> ward_analysis" where
  "wa_AddStateUpdate secs t wa =
     (if Health t = 0 then wa
      else fold (\<lambda>(k, i). upd_life i (see secs t)) (ActiveWards wa) wa)"

subsection \<open>Results\<close>

record json_ward =
  jBegin :: real
  jEnd :: real
  jPosition :: position
  jType :: string
  jEndReason :: string
  jClearedBy :: int
  jReveals :: "(int \<times> nat) list"

definition ExportPlayerWards :: "ward_analysis \<Rightarrow> int \<Rightarrow> json_ward list" where
  "ExportPlayerWards wa pID =
     map (\<lambda>i. let w = lives wa ! i in
        \<lparr>jBegin = wBegin w, jEnd = wEnd w, jPosition = wPosition w, jType = wType w,
         jEndReason = EndReason w, jClearedBy = ClearedBy w,
         jReveals = map (\<lambda>(r, is). (r, length is)) (Reveals w)\<rparr>) (PlayerWards wa pID)"

definition RevealsPerWardAverage :: "int \<Rightarrow> ward_analysis \<Rightarrow> real" where
  "RevealsPerWardAverage pID wa =
     (let ws = map ((!) (lives wa)) (PlayerWards wa pID);
          reveals = sum_list (map (\<lambda>w. sum_list (map (\<lambda>(r, is). real (length is)) (Reveals w))) ws);
          n = real (length ws) in
      reveals / (if n = 0 then 1 else n))"

definition LiveWardsAverage :: "int \<Rightarrow> real \<Rightarrow> ward_analysis \<Rightarrow> (string \<times> real) list" where
  "LiveWardsAverage pID matchDuration wa =
     map (\<lambda>(k, v). (k, v / matchDuration))
       (fold (\<lambda>i res.
            let w = lives wa ! i; r1 = bump (wEnd w - wBegin w) (wType w) res in
            if wType w = ''blue'' \<or> wType w = ''yellow''
            then bump (wEnd w - wBegin w) ''yellow_and_blue'' r1 else r1)
          (PlayerWards wa pID)
          [(''yellow'', 0), (''pink'', 0), (''blue'', 0), (''yellow_and_blue'', 0)])"

text \<open>The events of wards in the order of the match, as \<open>ComputeAdvanced\<close> hands them over.\<close>

datatype ward_event =
    PlacedW ward_placed
  | AttackW attack
  | DeathW int
  | UpdateW state_update

primrec ward_step :: "real \<Rightarrow> real \<Rightarrow> ward_event \<Rightarrow> ward_analysis \<Rightarrow> ward_analysis fallible" where
  "ward_step gameLength secs (PlacedW t) wa = Inr (AddWardPlaced secs t gameLength wa)"
| "ward_step gameLength secs (AttackW t) wa = Inr (wa_AddAttack secs t wa)"
| "ward_step gameLength secs (DeathW i) wa = wa_AddWardDeath secs i wa"
| "ward_step gameLength secs (UpdateW t) wa = Inr (wa_AddStateUpdate secs t wa)"

fun run_wards :: "real \<Rightarrow> (real \<times> ward_event) list \<Rightarrow> ward_analysis \<Rightarrow> ward_analysis fallible" where
  "run_wards gameLength [] wa = Inr wa"
| "run_wards gameLength ((secs, e) # es) wa =
     (case ward_step gameLength secs e wa of
        Inl err \<Rightarrow> Inl err
      | Inr wa' \<Rightarrow> run_wards gameLength es wa')"

lemma run_wards_induct:
  assumes "run_wards g es wa = Inr wa'" and "P wa"
    and "\<And>secs e w w'. ward_step g secs e w = Inr w' \<Longrightarrow> P w \<Longrightarrow> P w'"
  shows "P wa'"
  using assms(1,2)
proof (induction es arbitrary: wa)
  case (Cons x es)
  then show ?case
    using assms(3) by (cases x) (auto split: sum.splits)
qed simp

subsection \<open>The store\<close>

lemma upd_life_simps [simp]:
  "ActiveWards (upd_life i f wa) = ActiveWards wa" "PlayerWards (upd_life i f wa) = PlayerWards wa"
  "length (lives (upd_life i f wa)) = length (lives wa)"
  "j < length (lives wa) \<Longrightarrow> lives (upd_life i f wa) ! j = (if j = i then f (lives wa ! i) else lives wa ! j)"
  by (simp_all add: upd_life_def nth_list_update)

definition cells :: "ward_analysis \<Rightarrow> nat list" where
  "cells wa = map snd (ActiveWards wa)"

definition store_ok :: "ward_analysis \<Rightarrow> bool" where
  "store_ok wa \<longleftrightarrow> distinct (map fst (ActiveWards wa)) \<and> distinct (cells wa)
     \<and> (\<forall>i \<in> set (cells wa). i < length (lives wa))"

lemma store_ok_new: "store_ok NewWardAnalysis"
  by (simp add: store_ok_def NewWardAnalysis_def cells_def)

lemma store_ok_upd [simp]: "store_ok (upd_life i f wa) = store_ok wa"
  by (simp add: store_ok_def cells_def)

lemma cell_bound: "store_ok wa \<Longrightarrow> map_of (ActiveWards wa) k = Some i \<Longrightarrow> i < length (lives wa)"
  by (force simp: store_ok_def cells_def dest: map_of_SomeD)

lemma cell_inj:
  assumes "store_ok wa" and "map_of (ActiveWards wa) k = Some i" and "map_of (ActiveWards wa) l = Some i"
  shows "k = l"
proof -
  have "(k, i) \<in> set (ActiveWards wa)" "(l, i) \<in> set (ActiveWards wa)"
    using assms(2,3) by (simp_all add: map_of_SomeD)
  moreover have "inj_on snd (set (ActiveWards wa))"
    using assms(1) by (simp add: store_ok_def cells_def distinct_map)
  ultimately show ?thesis using inj_onD [of snd "set (ActiveWards wa)" "(k, i)" "(l, i)"] by simp
qed

text \<open>What the store is for: the life of every active ward, by its id.\<close>

definition active_map :: "ward_analysis \<Rightarrow> int \<rightharpoonup> ward_life" where
  "active_map wa = (\<lambda>k. map_option ((!) (lives wa)) (map_of (ActiveWards wa) k))"

lemma active_map_upd:
  assumes "store_ok wa" and "map_of (ActiveWards wa) k = Some i"
  shows "active_map (upd_life i f wa) = (active_map wa)(k := Some (f (lives wa ! i)))"
proof
  fix l
  show "active_map (upd_life i f wa) l = ((active_map wa)(k := Some (f (lives wa ! i)))) l"
    using assms cell_bound [OF assms] cell_bound [OF assms(1), of l] cell_inj [OF assms, of l]
    by (cases "map_of (ActiveWards wa) l") (auto simp: active_map_def nth_list_update)
qed

lemma fold_upd_fields:
  "ActiveWards (fold (\<lambda>(k, i). upd_life i f) xs wa) = ActiveWards wa
   \<and> PlayerWards (fold (\<lambda>(k, i). upd_life i f) xs wa) = PlayerWards wa
   \<and> length (lives (fold (\<lambda>(k, i). upd_life i f) xs wa)) = length (lives wa)"
  by (induction xs arbitrary: wa) auto

lemma fold_upd_nth:
  "distinct (map snd xs) \<Longrightarrow> j < length (lives wa) \<Longrightarrow>
     lives (fold (\<lambda>(k, i). upd_life i f) xs wa) ! j = (if j \<in> snd ` set xs then f (lives wa ! j) else lives wa ! j)"
proof (induction xs arbitrary: wa)
  case (Cons x xs)
  obtain k i where x: "x = (k, i)" by fastforce
  with Cons.IH [of "upd_life i f wa"] Cons.prems show ?case by (cases "j = i") simp_all
qed simp

lemma update_lives:
  assumes "store_ok wa"
  shows "ActiveWards (wa_AddStateUpdate secs t wa) = ActiveWards wa"
    and "PlayerWards (wa_AddStateUpdate secs t wa) = PlayerWards wa"
    and "length (lives (wa_AddStateUpdate secs t wa)) = length (lives wa)"
    and "j < length (lives wa) \<Longrightarrow> lives (wa_AddStateUpdate secs t wa) ! j
      = (if Health t \<noteq> 0 \<and> j \<in> set (cells wa) then see secs t (lives wa ! j) else lives wa ! j)"
  using assms fold_upd_fields [of "see secs t" "ActiveWards wa" wa] fold_upd_nth [of "ActiveWards wa" j wa "see secs t"]
  by (auto simp: wa_AddStateUpdate_def store_ok_def cells_def)

lemma set_update_subset: "set (AList.update k v m) \<subseteq> insert (k, v) (set m)"
  by (induction m) auto

lemma distinct_snd_update:
  "distinct (map snd m) \<Longrightarrow> v \<notin> snd ` set m \<Longrightarrow> distinct (map snd (AList.update k v m))"
proof (induction m)
  case (Cons x m)
  then show ?case
    using set_update_subset [of k v m] by (cases "fst x = k"; cases x) (auto simp: image_iff dest: subsetD)
qed simp

lemma set_delete_subset: "set (AList.delete k m) \<subseteq> set m"
  by (auto simp: AList.delete_eq)

lemma store_ok_placed: "store_ok wa \<Longrightarrow> store_ok (AddWardPlaced secs t g wa)"
  using set_update_subset [of "wpWardID t" "length (lives wa)" "ActiveWards wa"]
  by (fastforce simp: store_ok_def cells_def AddWardPlaced_def Let_def distinct_update
      intro!: distinct_snd_update)

lemma store_ok_delete:
  "store_ok wa \<Longrightarrow> store_ok (wa\<lparr>ActiveWards := AList.delete k (ActiveWards wa)\<rparr>)"
  using set_delete_subset [of k "ActiveWards wa"]
  by (auto simp: store_ok_def cells_def distinct_delete AList.delete_eq distinct_map intro: inj_on_subset)

lemma upd_life_twice: "upd_life i g (upd_life i h wa) = upd_life i (\<lambda>w. g (h w)) wa"
  by (cases "i < length (lives wa)") (simp_all add: upd_life_def list_update_beyond)

text \<open>What a death does: the life of the ward gets its end, and the ward is not active any more.\<close>

lemma death_split:
  assumes "wa_AddWardDeath secs k wa = Inr wa'"
  obtains i reason clearer where "map_of (ActiveWards wa) k = Some i"
    and "wa' = (upd_life i (\<lambda>w. w\<lparr>wEnd := secs, EndReason := reason, ClearedBy := clearer\<rparr>) wa)
           \<lparr>ActiveWards := AList.delete k (ActiveWards wa)\<rparr>"
    and "(reason, clearer) = end_of ((lives wa ! i)\<lparr>wEnd := secs\<rparr>)
           (exceedsWardLimit ((lives wa ! i)\<lparr>wEnd := secs\<rparr>) (upd_life i (\<lambda>w. w\<lparr>wEnd := secs\<rparr>) wa))
      \<or> length (lives wa) \<le> i"
proof -
  obtain i where i: "map_of (ActiveWards wa) k = Some i"
    using assms by (auto simp: wa_AddWardDeath_def split: option.splits)
  let ?wa1 = "upd_life i (\<lambda>w. w\<lparr>wEnd := secs\<rparr>) wa"
  obtain reason clearer where e: "end_of (lives ?wa1 ! i) (exceedsWardLimit (lives ?wa1 ! i) ?wa1) = (reason, clearer)"
    by fastforce
  have "wa' = (upd_life i (\<lambda>w. w\<lparr>wEnd := secs, EndReason := reason, ClearedBy := clearer\<rparr>) wa)
           \<lparr>ActiveWards := AList.delete k (ActiveWards wa)\<rparr>"
    using assms i e by (simp add: wa_AddWardDeath_def upd_life_twice)
  with i show thesis
    by (rule that) (use e in \<open>cases "i < length (lives wa)"; simp add: upd_life_def\<close>)
qed

lemma store_ok_step:
  assumes "ward_step g secs e wa = Inr wa'" and "store_ok wa"
  shows "store_ok wa'"
proof (cases e)
  case (DeathW k)
  with assms(1) have "wa_AddWardDeath secs k wa = Inr wa'" by simp
  then show ?thesis
    by (rule death_split) (use assms(2) store_ok_delete [of "upd_life _ _ wa" k] in \<open>simp\<close>)
next
  case (UpdateW t)
  with assms show ?thesis
    using update_lives(1,3) [OF assms(2), of secs t]
    by (simp add: store_ok_def cells_def)
qed (use assms store_ok_placed in \<open>auto simp: wa_AddAttack_def split: if_splits option.splits\<close>)


subsection \<open>The store refines a map of wards\<close>

text \<open>
  The specification without sharing: a map from the ids of the active wards to their lives.
\<close>

primrec abs_step :: "real \<Rightarrow> real \<Rightarrow> ward_event \<Rightarrow> (int \<rightharpoonup> ward_life) \<Rightarrow> (int \<rightharpoonup> ward_life)" where
  "abs_step gameLength secs (PlacedW t) m = m(wpWardID t \<mapsto> new_life gameLength secs t)"
| "abs_step gameLength secs (AttackW t) m =
     (if TargetID t = 0 then m
      else m(TargetID t := map_option (\<lambda>w. w\<lparr>AttacksAgainst := AttacksAgainst w @ [(secs, t)]\<rparr>) (m (TargetID t))))"
| "abs_step gameLength secs (DeathW k) m = m(k := None)"
| "abs_step gameLength secs (UpdateW t) m = (if Health t = 0 then m else map_option (see secs t) \<circ> m)"

lemma active_map_placed:
  assumes "store_ok wa"
  shows "active_map (AddWardPlaced secs t g wa) = abs_step g secs (PlacedW t) (active_map wa)"
  using cell_bound [OF assms]
  by (auto simp: active_map_def AddWardPlaced_def Let_def fun_eq_iff nth_append split: option.splits)
    (metis option.map_cong0 option.set_cases nth_append)

lemma active_map_death:
  assumes "store_ok wa" and "wa_AddWardDeath secs k wa = Inr wa'"
  shows "active_map wa' = (active_map wa)(k := None)"
proof -
  obtain i f where i: "map_of (ActiveWards wa) k = Some i"
    and wa': "wa' = (upd_life i f wa)\<lparr>ActiveWards := AList.delete k (ActiveWards wa)\<rparr>"
    using assms(2) by (rule death_split)
  have "active_map wa' = (active_map (upd_life i f wa))(k := None)"
    by (simp add: active_map_def wa' fun_eq_iff)
  then show ?thesis by (simp add: active_map_upd [OF assms(1) i])
qed

lemma active_map_update:
  assumes "store_ok wa"
  shows "active_map (wa_AddStateUpdate secs t wa) = abs_step g secs (UpdateW t) (active_map wa)"
proof
  fix k
  show "active_map (wa_AddStateUpdate secs t wa) k = abs_step g secs (UpdateW t) (active_map wa) k"
    using update_lives(1) [OF assms, of secs t] update_lives(4) [OF assms, of _ secs t] cell_bound [OF assms, of k]
    by (cases "map_of (ActiveWards wa) k")
      (auto simp: active_map_def cells_def dest: map_of_SomeD intro: rev_image_eqI)
qed

lemma store_ok_run: "run_wards g es wa = Inr wa' \<Longrightarrow> store_ok wa \<Longrightarrow> store_ok wa'"
  by (rule run_wards_induct) (auto intro: store_ok_step)


subsection \<open>How a life changes\<close>

definition finish :: "real \<Rightarrow> bool \<Rightarrow> ward_life \<Rightarrow> ward_life" where
  "finish secs limit w =
     w\<lparr>wEnd := secs, EndReason := fst (end_of (w\<lparr>wEnd := secs\<rparr>) limit),
       ClearedBy := snd (end_of (w\<lparr>wEnd := secs\<rparr>) limit)\<rparr>"

definition attacked :: "real \<Rightarrow> attack \<Rightarrow> ward_life \<Rightarrow> ward_life" where
  "attacked secs t w = w\<lparr>AttacksAgainst := AttacksAgainst w @ [(secs, t)]\<rparr>"

text \<open>The lives of the active wards have not ended, and each player's list is that of its wards.\<close>

definition ledger_ok :: "ward_analysis \<Rightarrow> bool" where
  "ledger_ok wa \<longleftrightarrow> store_ok wa \<and> (\<forall>i \<in> set (cells wa). EndReason (lives wa ! i) = '''')
     \<and> (\<forall>p. PlayerWards wa p = filter (\<lambda>i. Creator (lives wa ! i) = p) [0..<length (lives wa)])"

lemma ledger_new: "ledger_ok NewWardAnalysis"
  by (simp add: ledger_ok_def store_ok_new) (simp add: NewWardAnalysis_def cells_def)

text \<open>What one event does to the life at an index.\<close>

lemma step_life:
  assumes "ward_step g secs e wa = Inr wa'" and "store_ok wa"
  shows "length (lives wa) \<le> length (lives wa')
    \<and> (\<forall>j < length (lives wa). lives wa' ! j = lives wa ! j
        \<or> j \<in> set (cells wa) \<and>
          ((\<exists>t. e = AttackW t \<and> lives wa' ! j = attacked secs t (lives wa ! j))
           \<or> (\<exists>t. e = UpdateW t \<and> Health t \<noteq> 0 \<and> lives wa' ! j = see secs t (lives wa ! j))
           \<or> (\<exists>k limit. e = DeathW k \<and> lives wa' ! j = finish secs limit (lives wa ! j) \<and> j \<notin> set (cells wa'))))
    \<and> (\<forall>j < length (lives wa'). length (lives wa) \<le> j \<longrightarrow>
        (\<exists>t. e = PlacedW t \<and> lives wa' ! j = new_life g secs t))"
proof (cases e)
  case (PlacedW t)
  with assms show ?thesis by (auto simp: AddWardPlaced_def Let_def nth_append)
next
  case (AttackW t)
  with assms(1) show ?thesis
    by (cases "map_of (ActiveWards wa) (TargetID t)")
      (auto simp: wa_AddAttack_def attacked_def cells_def dest: map_of_SomeD intro: rev_image_eqI split: if_splits)
next
  case (UpdateW t)
  with assms(1) show ?thesis using update_lives(3) [OF assms(2), of secs t] update_lives(4) [OF assms(2), of _ secs t] by auto
next
  case (DeathW k)
  with assms(1) have "wa_AddWardDeath secs k wa = Inr wa'" by simp
  then obtain i reason clearer where i: "map_of (ActiveWards wa) k = Some i"
    and wa': "wa' = (upd_life i (\<lambda>w. w\<lparr>wEnd := secs, EndReason := reason, ClearedBy := clearer\<rparr>) wa)
           \<lparr>ActiveWards := AList.delete k (ActiveWards wa)\<rparr>"
    and e: "(reason, clearer) = end_of ((lives wa ! i)\<lparr>wEnd := secs\<rparr>)
           (exceedsWardLimit ((lives wa ! i)\<lparr>wEnd := secs\<rparr>) (upd_life i (\<lambda>w. w\<lparr>wEnd := secs\<rparr>) wa))
      \<or> length (lives wa) \<le> i"
    by (rule death_split)
  have "i \<in> set (cells wa)" using i by (force simp: cells_def dest: map_of_SomeD)
  moreover have "i \<notin> set (cells wa')"
  proof
    assume "i \<in> set (cells wa')"
    then obtain l where "(l, i) \<in> set (ActiveWards wa)" "l \<noteq> k"
      by (auto simp: wa' cells_def AList.delete_eq)
    then show False
      using assms(2) cell_inj [OF assms(2) i, of l] by (simp add: store_ok_def)
  qed
  moreover have lt: "i < length (lives wa)" using cell_bound [OF assms(2) i] .
  define limit where "limit = exceedsWardLimit ((lives wa ! i)\<lparr>wEnd := secs\<rparr>) (upd_life i (\<lambda>w. w\<lparr>wEnd := secs\<rparr>) wa)"
  have "end_of ((lives wa ! i)\<lparr>wEnd := secs\<rparr>) limit = (reason, clearer)"
    using e lt by (simp add: limit_def)
  then have "lives wa' ! i = finish secs limit (lives wa ! i)"
    using lt by (simp add: wa' finish_def)
  ultimately show ?thesis using DeathW by (auto simp: wa')
qed

lemma life_fields [simp]:
  "Creator (finish secs limit w) = Creator w" "Creator (attacked secs t w) = Creator w"
  "Creator (see secs u w) = Creator w" "Creator (new_life g secs p) = wpParticipantID p"
  "EndReason (attacked secs t w) = EndReason w" "EndReason (see secs u w) = EndReason w"
  "EndReason (new_life g secs p) = ''''"
  by (simp_all add: finish_def attacked_def see_def new_life_def)

lemma player_step:
  assumes "ward_step g secs e wa = Inr wa'" and "store_ok wa"
  shows "set (cells wa') \<subseteq> insert (length (lives wa)) (set (cells wa))"
    and "case e of
        PlacedW t \<Rightarrow> length (lives wa') = Suc (length (lives wa)) \<and> PlayerWards wa' =
          (PlayerWards wa)(wpParticipantID t := PlayerWards wa (wpParticipantID t) @ [length (lives wa)])
      | _ \<Rightarrow> length (lives wa') = length (lives wa) \<and> PlayerWards wa' = PlayerWards wa"
proof -
  have c: "set (cells (wa\<lparr>ActiveWards := AList.delete k (ActiveWards wa)\<rparr>)) \<subseteq> set (cells wa)" for k
    using set_delete_subset [of k "ActiveWards wa"] by (auto simp: cells_def)
  have d: "set (cells wa') \<subseteq> set (cells wa) \<and> length (lives wa') = length (lives wa) \<and> PlayerWards wa' = PlayerWards wa"
    if "e = DeathW k" for k
  proof -
    have "wa_AddWardDeath secs k wa = Inr wa'" using assms(1) that by simp
    then show ?thesis
      by (rule death_split) (use c [of k] in \<open>auto simp: cells_def\<close>)
  qed
  show "set (cells wa') \<subseteq> insert (length (lives wa)) (set (cells wa))"
  proof (cases e)
    case (PlacedW t)
    have "snd ` set (AList.update k v m) \<subseteq> insert v (snd ` set m)" for k v and m :: "(int \<times> nat) list"
      using set_update_subset [of k v m] by auto
    moreover have "wa' = AddWardPlaced secs t g wa" using PlacedW assms(1) by simp
    ultimately show ?thesis by (simp add: AddWardPlaced_def Let_def cells_def)
  next
    case (AttackW t)
    with assms(1) show ?thesis by (auto simp: cells_def wa_AddAttack_def split: option.splits if_splits)
  next
    case (UpdateW t)
    with assms(1) show ?thesis using update_lives(1) [OF assms(2), of secs t] by (auto simp: cells_def)
  qed (use d in auto)
  show "case e of
        PlacedW t \<Rightarrow> length (lives wa') = Suc (length (lives wa)) \<and> PlayerWards wa' =
          (PlayerWards wa)(wpParticipantID t := PlayerWards wa (wpParticipantID t) @ [length (lives wa)])
      | _ \<Rightarrow> length (lives wa') = length (lives wa) \<and> PlayerWards wa' = PlayerWards wa"
    using assms(1) d update_lives(2,3) [OF assms(2)]
    by (cases e) (auto simp: AddWardPlaced_def Let_def wa_AddAttack_def split: option.splits if_splits)
qed

lemma ledger_step:
  assumes "ward_step g secs e wa = Inr wa'" and ok: "ledger_ok wa"
  shows "ledger_ok wa'"
proof -
  have s: "store_ok wa" using ok by (simp add: ledger_ok_def)
  have s': "store_ok wa'" by (rule store_ok_step [OF assms(1) s])
  note life = step_life [OF assms(1) s]
  have "EndReason (lives wa' ! i) = ''''" if i: "i \<in> set (cells wa')" for i
  proof (cases "i < length (lives wa)")
    case True
    then have "i \<in> set (cells wa)" using player_step(1) [OF assms(1) s] i by auto
    with ok have "EndReason (lives wa ! i) = ''''" by (simp add: ledger_ok_def)
    with life True i show ?thesis by (metis life_fields(5,6))
  next
    case False
    moreover have "i < length (lives wa')" using s' i by (simp add: store_ok_def)
    ultimately show ?thesis using life by (metis life_fields(7) not_less)
  qed
  moreover have old: "Creator (lives wa' ! j) = Creator (lives wa ! j)" if "j < length (lives wa)" for j
    using life that by (metis life_fields(1,2,3))
  have "PlayerWards wa' p = filter (\<lambda>i. Creator (lives wa' ! i) = p) [0..<length (lives wa')]" for p
  proof -
    have f: "filter (\<lambda>i. Creator (lives wa' ! i) = p) [0..<length (lives wa)] = PlayerWards wa p"
      using ok old by (auto simp: ledger_ok_def intro!: filter_cong)
    show ?thesis
    proof (cases e)
      case (PlacedW t)
      then show ?thesis
        using player_step(2) [OF assms(1) s] f life by auto
    qed (use player_step(2) [OF assms(1) s] f in auto)
  qed
  ultimately show ?thesis using s' by (simp add: ledger_ok_def)
qed

lemma ledger_run: "run_wards g es wa = Inr wa' \<Longrightarrow> ledger_ok wa \<Longrightarrow> ledger_ok wa'"
  by (rule run_wards_induct) (auto intro: ledger_step)

text \<open>An invariant of lives, with the time, that every change keeps holds of all lives.\<close>

lemma step_lives_all:
  assumes "ward_step g s e wa = Inr wa'" and "ledger_ok wa" and "\<forall>w \<in> set (lives wa). J w"
    and "\<And>t. e = PlacedW t \<Longrightarrow> J (new_life g s t)"
    and "\<And>t w. e = AttackW t \<Longrightarrow> J w \<Longrightarrow> EndReason w = '''' \<Longrightarrow> J (attacked s t w)"
    and "\<And>t w. e = UpdateW t \<Longrightarrow> J w \<Longrightarrow> EndReason w = '''' \<Longrightarrow> J (see s t w)"
    and "\<And>k lim w. e = DeathW k \<Longrightarrow> J w \<Longrightarrow> EndReason w = '''' \<Longrightarrow> J (finish s lim w)"
  shows "\<forall>w \<in> set (lives wa'). J w"
proof -
  have s: "store_ok wa" using assms(2) by (simp add: ledger_ok_def)
  have "J (lives wa' ! j)" if j: "j < length (lives wa')" for j
  proof (cases "j < length (lives wa)")
    case True
    then have J: "J (lives wa ! j)" using assms(3) by simp
    have "EndReason (lives wa ! j) = ''''" if "j \<in> set (cells wa)"
      using assms(2) that by (simp add: ledger_ok_def)
    with J True step_life [OF assms(1) s] assms(5,6,7) show ?thesis by metis
  next
    case False
    with j step_life [OF assms(1) s] assms(4) show ?thesis by (metis not_less)
  qed
  then show ?thesis by (auto simp: in_set_conv_nth)
qed


lemma run_lives:
  assumes "run_wards g es wa = Inr wa'" and "ledger_ok wa" and "sorted (map fst es)"
    and "\<forall>s \<in> fst ` set es. now \<le> s" and "\<forall>(s, e) \<in> set es. Q e" and "\<forall>w \<in> set (lives wa). J now w"
    and mono: "\<And>s s' w. s \<le> s' \<Longrightarrow> J s w \<Longrightarrow> J s' w"
    and placed: "\<And>s t. Q (PlacedW t) \<Longrightarrow> J s (new_life g s t)"
    and attack: "\<And>s t w. Q (AttackW t) \<Longrightarrow> J s w \<Longrightarrow> EndReason w = '''' \<Longrightarrow> J s (attacked s t w)"
    and upd: "\<And>s t w. Q (UpdateW t) \<Longrightarrow> J s w \<Longrightarrow> EndReason w = '''' \<Longrightarrow> J s (see s t w)"
    and death: "\<And>s k lim w. Q (DeathW k) \<Longrightarrow> J s w \<Longrightarrow> EndReason w = '''' \<Longrightarrow> J s (finish s lim w)"
  shows "\<exists>now'. \<forall>w \<in> set (lives wa'). J now' w"
  using assms(1-6)
proof (induction es arbitrary: wa now)
  case (Cons x es)
  obtain s e where x: "x = (s, e)" by fastforce
  with Cons.prems(1) obtain wa1 where st: "ward_step g s e wa = Inr wa1" and run: "run_wards g es wa1 = Inr wa'"
    by (auto split: sum.splits)
  have q: "Q e" and now: "now \<le> s" using Cons.prems(4,5) x by auto
  have "\<forall>w \<in> set (lives wa). J s w" using Cons.prems(6) mono [OF now] by blast
  then have "\<forall>w \<in> set (lives wa1). J s w"
    using q by (intro step_lives_all [OF st Cons.prems(2)]) (auto intro: placed attack upd death)
  then show ?case
    using Cons.IH [OF run ledger_step [OF st Cons.prems(2)]] Cons.prems(3,5) x by auto
qed auto

subsection \<open>Reveals\<close>

text \<open>
  The reveals of a ward: of participants that are not of its team, each at least once, and five
  seconds apart.
\<close>

definition spaced :: "interval list \<Rightarrow> bool" where
  "spaced is \<longleftrightarrow> (\<forall>i \<in> set is. iBegin i \<le> iEnd i) \<and> successively (\<lambda>i j. iEnd i + 5 \<le> iBegin j) is"

definition reveals_ok :: "real \<Rightarrow> ward_life \<Rightarrow> bool" where
  "reveals_ok now w \<longleftrightarrow> distinct (map fst (Reveals w)) \<and>
     (\<forall>(p, is) \<in> set (Reveals w). TeamID p \<noteq> TeamID (Creator w) \<and> is \<noteq> [] \<and> spaced is
        \<and> iEnd (List.last is) \<le> now)"

lemma add_reveal_ok:
  assumes "is = [] \<or> (spaced is \<and> iEnd (List.last is) \<le> now)"
  shows "add_reveal now is \<noteq> [] \<and> spaced (add_reveal now is) \<and> iEnd (List.last (add_reveal now is)) \<le> now"
proof (cases "is" rule: rev_cases)
  case Nil
  then show ?thesis by (simp add: add_reveal_def spaced_def)
next
  case (snoc js i)
  with assms show ?thesis
    by (auto simp: add_reveal_def spaced_def successively_append_iff)
qed

lemma see_reveals:
  assumes "reveals_ok now w"
  shows "reveals_ok now (see now t w)"
proof -
  let ?p = "suParticipantID t"
  let ?old = "case map_of (Reveals w) ?p of None \<Rightarrow> [] | Some r \<Rightarrow> r"
  have "?old = [] \<or> (spaced ?old \<and> iEnd (List.last ?old) \<le> now)"
    using assms by (auto simp: reveals_ok_def split: option.splits dest!: map_of_SomeD)
  note new = add_reveal_ok [OF this]
  show ?thesis
    using assms new set_update_subset [of ?p "add_reveal now ?old" "Reveals w"]
    by (fastforce simp: see_def reveals_ok_def distinct_update)
qed

lemma reveals_ok_intros:
  "reveals_ok s (new_life g u p)" "reveals_ok s w \<Longrightarrow> reveals_ok s (attacked u a w)"
  "reveals_ok s w \<Longrightarrow> reveals_ok s (finish u b w)" "s \<le> s' \<Longrightarrow> reveals_ok s w \<Longrightarrow> reveals_ok s' w"
  by (force simp: reveals_ok_def new_life_def attacked_def finish_def)+

text \<open>
  A ward reveals only participants of other teams, and counts a new reveal of the same
  participant at the earliest five seconds after the end of the last one.
\<close>

theorem reveals_spaced:
  assumes "run_wards g es NewWardAnalysis = Inr wa" and "sorted (map fst es)" and "w \<in> set (lives wa)"
    and "(p, is) \<in> set (Reveals w)"
  shows "TeamID p \<noteq> TeamID (Creator w) \<and> is \<noteq> [] \<and> (\<forall>i \<in> set is. iBegin i \<le> iEnd i)
     \<and> successively (\<lambda>i j. iEnd i + 5 \<le> iBegin j) is"
proof -
  let ?now = "case es of [] \<Rightarrow> 0 | x # _ \<Rightarrow> fst x"
  have "\<exists>now'. \<forall>w \<in> set (lives wa). reveals_ok now' w"
  proof (rule run_lives [OF assms(1) ledger_new assms(2), where Q = "\<lambda>_. True" and now = ?now and J = reveals_ok])
    show "\<forall>s \<in> fst ` set es. ?now \<le> s" using assms(2) by (cases es) auto
    show "\<forall>w \<in> set (lives NewWardAnalysis). reveals_ok ?now w" by (simp add: NewWardAnalysis_def)
  qed (auto intro: reveals_ok_intros see_reveals)
  then show ?thesis using assms(3,4) by (fastforce simp: reveals_ok_def spaced_def)
qed

subsection \<open>Who cleared a ward\<close>

definition is_participant :: "int \<Rightarrow> bool" where
  "is_participant p \<longleftrightarrow> 1 \<le> p \<and> p \<le> 10"

primrec participants_ok :: "ward_event \<Rightarrow> bool" where
  "participants_ok (PlacedW t) = is_participant (wpParticipantID t)"
| "participants_ok (AttackW t) = True"
| "participants_ok (DeathW k) = True"
| "participants_ok (UpdateW t) = is_participant (suParticipantID t)"

lemma enemy_iff:
  "is_participant c \<Longrightarrow> is_participant p \<Longrightarrow> TeamID p = EnemyTeamID c \<longleftrightarrow> TeamID c \<noteq> TeamID p"
  by (auto simp: is_participant_def EnemyTeamID_def TeamID_def BlueTeam_def RedTeam_def)

lemma likelyWardClearer_enemy:
  assumes "is_participant (Creator w)" and "\<forall>p \<in> fst ` set (Reveals w). is_participant p"
  shows "TeamID (likelyWardClearer w) = EnemyTeamID (Creator w)"
proof -
  let ?P = "\<lambda>b :: real \<times> int. snd b = 0 \<or> (is_participant (snd b) \<and> TeamID (Creator w) \<noteq> TeamID (snd b))"
  define last_pid where "last_pid = snd (fold (\<lambda>(pID, intervals) (lastRevealTime, lastPID).
            if TeamID (Creator w) = TeamID pID \<or> intervals = [] then (lastRevealTime, lastPID)
            else let reveal = List.last intervals in
              if lastRevealTime < iEnd reveal then (iEnd reveal, pID) else (lastRevealTime, lastPID))
          (Reveals w) (0, 0))"
  have "last_pid = 0 \<or> (is_participant last_pid \<and> TeamID (Creator w) \<noteq> TeamID last_pid)"
    unfolding last_pid_def
    by (rule fold_invariant [where Q = "\<lambda>x. is_participant (fst x)" and P = ?P])
      (use assms(2) in \<open>auto simp: Let_def split: if_splits\<close>)
  then have "last_pid \<noteq> 0 \<Longrightarrow> TeamID last_pid = EnemyTeamID (Creator w)" "last_pid \<ge> 0"
    using enemy_iff [OF assms(1), of last_pid] by (auto simp: is_participant_def)
  moreover have "likelyWardClearer w = (if last_pid > 0 then last_pid else if Creator w \<ge> 6 then 1 else 6)"
    by (simp add: likelyWardClearer_def last_pid_def)
  moreover have "TeamID (if Creator w \<ge> 6 then 1 else 6) = EnemyTeamID (Creator w)"
    using assms(1) by (simp add: is_participant_def EnemyTeamID_def TeamID_def BlueTeam_def RedTeam_def)
  ultimately show ?thesis by (simp split: if_splits)
qed

text \<open>A recent attack on a ward that has ended.\<close>

definition recent_attacker :: "ward_life \<Rightarrow> int \<Rightarrow> bool" where
  "recent_attacker w p \<longleftrightarrow> AttacksAgainst w \<noteq> []
     \<and> wEnd w - fst (List.last (AttacksAgainst w)) < 5 \<and> p = aAttackerID (snd (List.last (AttacksAgainst w)))"

definition credit_ok :: "ward_life \<Rightarrow> bool" where
  "credit_ok w \<longleftrightarrow> is_participant (Creator w) \<and> (\<forall>p \<in> fst ` set (Reveals w). is_participant p)
     \<and> (EndReason w = ''cleared'' \<longrightarrow> recent_attacker w (ClearedBy w)
          \<or> TeamID (ClearedBy w) = EnemyTeamID (Creator w))"

lemma see_keys: "fst ` set (Reveals (see s t w)) \<subseteq> insert (suParticipantID t) (fst ` set (Reveals w))"
  by (simp add: see_def dom_update) blast

lemma credit_see:
  assumes "credit_ok w" and "EndReason w = ''''" and "is_participant (suParticipantID t)"
  shows "credit_ok (see s t w)"
proof -
  have "is_participant p" if "p \<in> fst ` set (Reveals (see s t w))" for p
    using subsetD [OF see_keys that] assms(1,3) unfolding credit_ok_def by (metis insertE)
  then show ?thesis using assms(1,2) by (simp add: credit_ok_def)
qed

lemma credit_finish: "credit_ok w \<Longrightarrow> credit_ok (finish s b w)"
  using likelyWardClearer_enemy [of "w\<lparr>wEnd := s\<rparr>"]
  by (auto simp: credit_ok_def finish_def end_of_def Let_def recent_attacker_def split: prod.splits)

text \<open>
  When wards are placed and seen by the participants 1 to 10, the clearing of a ward is credited
  to the attacker of the last five seconds or, when there was none, to some participant of the team
  that is the enemy of the ward.
\<close>

theorem clearing_credited:
  assumes "run_wards g es NewWardAnalysis = Inr wa" and "sorted (map fst es)"
    and "\<forall>(s, e) \<in> set es. participants_ok e" and "w \<in> set (lives wa)" and "EndReason w = ''cleared''"
  shows "recent_attacker w (ClearedBy w) \<or> TeamID (ClearedBy w) = EnemyTeamID (Creator w)"
proof -
  let ?now = "case es of [] \<Rightarrow> 0 | x # _ \<Rightarrow> fst x"
  have "\<exists>now' :: real. \<forall>w \<in> set (lives wa). credit_ok w"
  proof (rule run_lives [OF assms(1) ledger_new assms(2) _ assms(3), where now = ?now and J = "\<lambda>_. credit_ok"])
    show "\<forall>s \<in> fst ` set es. ?now \<le> s" using assms(2) by (cases es) auto
    show "\<forall>w \<in> set (lives NewWardAnalysis). credit_ok w" by (simp add: NewWardAnalysis_def)
  qed (auto intro: credit_see credit_finish, auto simp: credit_ok_def new_life_def attacked_def)
  then show ?thesis using assms(4,5) by (auto simp: credit_ok_def)
qed


subsection \<open>Limits\<close>

definition limit_of :: "string \<Rightarrow> real option" where
  "limit_of t = (if t = ''yellow'' then Some 3 else if t = ''blue'' then None else Some 1)"

lemma limit_of_type: "limit_of (wardType (Ward i)) = concurrent (Ward i)"
  by (simp add: limit_of_def Ward_def BlueWard_def PinkWard_def YellowWard_def)

definition held :: "int \<Rightarrow> string \<Rightarrow> ward_life list \<Rightarrow> real" where
  "held creator t ws = real (length (filter (\<lambda>w. Creator w = creator \<and> wType w = t) ws))"

lemma held_Cons: "held c t (w # ws) = (if Creator w = c \<and> wType w = t then 1 else 0) + held c t ws"
  by (simp add: held_def)

lemma held_pos: "held c t ws \<noteq> 0 \<longleftrightarrow> (\<exists>w \<in> set ws. Creator w = c \<and> wType w = t)"
  by (auto simp: held_def filter_empty_conv)

lemma exceeds_loop_iff:
  "\<forall>w \<in> set ws. wType w = wardType (Ward (ItemType w)) \<Longrightarrow>
     exceeds_loop ws c m \<longleftrightarrow> (\<exists>w \<in> set ws. Creator w = c \<and>
       (\<exists>mx. limit_of (wType w) = Some mx \<and> get0 m (wType w) + held c (wType w) ws > mx))"
proof (induction ws arbitrary: m)
  case (Cons w ws)
  show ?case
  proof (cases "Creator w = c")
    case False
    then show ?thesis using Cons by (simp add: held_Cons)
  next
    case True
    let ?m = "bump 1 (wType w) m"
    have lim: "concurrent (Ward (ItemType w)) = limit_of (wType w)"
      using Cons.prems by (simp add: limit_of_type)
    have tot: "get0 ?m t + held c t ws = get0 m t + held c t (w # ws)" for t
      using True by (simp add: held_Cons bump_lookup)
    have "exceeds_loop ws c ?m \<longleftrightarrow> (\<exists>v \<in> set ws. Creator v = c \<and>
       (\<exists>mx. limit_of (wType v) = Some mx \<and> get0 ?m (wType v) + held c (wType v) ws > mx))"
      by (rule Cons.IH) (use Cons.prems in simp)
    then have IH: "exceeds_loop ws c ?m \<longleftrightarrow> (\<exists>v \<in> set ws. Creator v = c \<and>
       (\<exists>mx. limit_of (wType v) = Some mx \<and> get0 m (wType v) + held c (wType v) (w # ws) > mx))"
      unfolding tot .
    have now: "get0 ?m (wType w) > mx \<or> exceeds_loop ws c ?m
        \<longleftrightarrow> get0 m (wType w) + held c (wType w) (w # ws) > mx \<or> exceeds_loop ws c ?m"
      if "limit_of (wType w) = Some mx" for mx
    proof (cases "held c (wType w) ws = 0")
      case True
      then show ?thesis using tot [of "wType w"] by simp
    next
      case False
      have "0 \<le> held c (wType w) ws" by (simp add: held_def)
      moreover from False obtain v where "v \<in> set ws" "Creator v = c" "wType v = wType w"
        by (auto simp: held_pos)
      ultimately show ?thesis using tot [of "wType w"] IH that by (metis add_increasing2 less_le_trans order_refl)
    qed
    show ?thesis
      using True lim now IH by (auto simp: Let_def split: option.splits)
  qed
qed simp

definition types_ok :: "ward_analysis \<Rightarrow> bool" where
  "types_ok wa \<longleftrightarrow> (\<forall>w \<in> set (lives wa). wType w = wardType (Ward (ItemType w)))"

lemma life_types:
  "wType (finish s b w) = wType w \<and> ItemType (finish s b w) = ItemType w"
  "wType (attacked s a w) = wType w \<and> ItemType (attacked s a w) = ItemType w"
  "wType (see s u w) = wType w \<and> ItemType (see s u w) = ItemType w"
  "wType (new_life g s p) = wardType (Ward (ItemType (new_life g s p)))"
  by (simp_all add: finish_def attacked_def see_def new_life_def)

lemma types_step:
  assumes "ward_step g s e w = Inr w'" and "store_ok w" and "types_ok w"
  shows "types_ok w'"
proof -
  have "wType (lives w' ! j) = wardType (Ward (ItemType (lives w' ! j)))" if "j < length (lives w')" for j
  proof (cases "j < length (lives w)")
    case True
    then have "wType (lives w ! j) = wardType (Ward (ItemType (lives w ! j)))"
      using assms(3) by (simp add: types_ok_def)
    with True step_life [OF assms(1,2)] show ?thesis by (metis life_types(1,2,3))
  next
    case False
    with that step_life [OF assms(1,2)] show ?thesis by (metis life_types(4) not_less)
  qed
  then show ?thesis by (auto simp: types_ok_def in_set_conv_nth)
qed

text \<open>
  The limit test does not look at the type of the ward: it holds when the player has too many
  active wards of some type, of whatever type the ward itself is, and it does not depend on the order
  of the map.
\<close>

theorem limit_of_any_type:
  assumes "run_wards g es NewWardAnalysis = Inr wa"
  shows "exceedsWardLimit ward wa \<longleftrightarrow> (\<exists>t mx. limit_of t = Some mx \<and> held (Creator ward) t (active_lives wa) > mx)"
proof -
  have "store_ok wa \<and> types_ok wa"
  proof (rule run_wards_induct [OF assms])
    show "store_ok NewWardAnalysis \<and> types_ok NewWardAnalysis"
      using store_ok_new by (simp add: types_ok_def NewWardAnalysis_def)
  qed (auto intro: store_ok_step types_step)
  then have "\<forall>w \<in> set (active_lives wa). wType w = wardType (Ward (ItemType w))"
    by (force simp: types_ok_def active_lives_def store_ok_def cells_def)
  note iff = exceeds_loop_iff [OF this, of "Creator ward" "[]"]
  have "(\<exists>w \<in> set (active_lives wa). Creator w = Creator ward \<and>
       (\<exists>mx. limit_of (wType w) = Some mx \<and> held (Creator ward) (wType w) (active_lives wa) > mx))
    \<longleftrightarrow> (\<exists>t mx. limit_of t = Some mx \<and> held (Creator ward) t (active_lives wa) > mx)"
    (is "?l \<longleftrightarrow> ?r")
  proof
    assume ?r
    then obtain t mx where t: "limit_of t = Some mx" "held (Creator ward) t (active_lives wa) > mx" by blast
    then have "held (Creator ward) t (active_lives wa) \<noteq> 0" by (auto simp: limit_of_def split: if_splits)
    then show ?l using t by (auto simp: held_pos)
  qed blast
  then show ?thesis using iff by (simp add: exceedsWardLimit_def get0_def)
qed

subsection \<open>The exported wards\<close>

definition placements :: "(real \<times> ward_event) list \<Rightarrow> (real \<times> int) list" where
  "placements es = concat (map (\<lambda>(s, e). case e of PlacedW t \<Rightarrow> [(s, wpParticipantID t)] | _ \<Rightarrow> []) es)"

definition birth :: "ward_life \<Rightarrow> real \<times> int" where
  "birth w = (wBegin w, Creator w)"

lemma births [simp]:
  "birth (finish s b w) = birth w" "birth (attacked s a w) = birth w" "birth (see s u w) = birth w"
  "birth (new_life g s p) = (s, wpParticipantID p)"
  by (simp_all add: birth_def finish_def attacked_def see_def new_life_def)

lemma births_step:
  assumes "ward_step g s e w = Inr w'" and "store_ok w"
  shows "map birth (lives w') = map birth (lives w) @ placements [(s, e)]"
proof -
  have old: "birth (lives w' ! j) = birth (lives w ! j)" if "j < length (lives w)" for j
    using step_life [OF assms] that by (metis births(1,2,3))
  show ?thesis
  proof (cases e)
    case (PlacedW t)
    with assms(1) show ?thesis by (auto simp: placements_def AddWardPlaced_def Let_def)
  qed (use player_step(2) [OF assms] old in \<open>auto simp: placements_def intro!: nth_equalityI\<close>)
qed

lemma births_run:
  "run_wards g es w = Inr w' \<Longrightarrow> store_ok w \<Longrightarrow> map birth (lives w') = map birth (lives w) @ placements es"
proof (induction es arbitrary: w)
  case (Cons x es)
  obtain s e where x: "x = (s, e)" by fastforce
  with Cons.prems(1) obtain w1 where st: "ward_step g s e w = Inr w1" and run: "run_wards g es w1 = Inr w'"
    by (auto split: sum.splits)
  from Cons.IH [OF run store_ok_step [OF st Cons.prems(2)]] births_step [OF st Cons.prems(2)] x
  show ?case by (simp add: placements_def)
qed (simp add: placements_def)

lemma map_filter_index: "map f (filter P xs) = map (\<lambda>i. f (xs ! i)) (filter (\<lambda>i. P (xs ! i)) [0..<length xs])"
proof -
  have "map f (filter P (map ((!) xs) [0..<length xs])) = map (\<lambda>i. f (xs ! i)) (filter (\<lambda>i. P (xs ! i)) [0..<length xs])"
    by (simp only: filter_map map_map comp_def)
  then show ?thesis by (simp only: map_nth)
qed

text \<open>
  The exported list of a player has exactly one entry for each ward the player placed, in the
  order they were placed, whatever the other players did and however often an id was reused.
\<close>

theorem export_complete:
  assumes "run_wards g es NewWardAnalysis = Inr wa"
  shows "map jBegin (ExportPlayerWards wa p) = map fst (filter (\<lambda>(s, c). c = p) (placements es))"
proof -
  have "PlayerWards wa p = filter (\<lambda>i. Creator (lives wa ! i) = p) [0..<length (lives wa)]"
    using ledger_run [OF assms ledger_new] by (simp add: ledger_ok_def)
  then have "map jBegin (ExportPlayerWards wa p) = map wBegin (filter (\<lambda>w. Creator w = p) (lives wa))"
    by (simp add: ExportPlayerWards_def Let_def comp_def map_filter_index [of wBegin "\<lambda>w. Creator w = p" "lives wa"])
  also have "... = map fst (filter (\<lambda>(s, c). c = p) (map birth (lives wa)))"
    by (simp add: filter_map comp_def birth_def case_prod_beta)
  also have "map birth (lives wa) = placements es"
    using births_run [OF assms store_ok_new] by (simp add: NewWardAnalysis_def)
  finally show ?thesis .
qed

subsection \<open>A ward that is seen and cleared\<close>

definition demo_seen :: "real \<Rightarrow> real \<times> ward_event" where
  "demo_seen s = (s, UpdateW \<lparr>Gold = 0, Health = 500, HealthMax = 600, InGrass = False, MinionsKilled = 0,
     NeutralMinionsKilled = 0, Mana = 0, ManaMax = 0, suParticipantID = 7, suPosition = \<lparr>X = 0, Y = 0, Z = 0\<rparr>,
     UnderOwnTurret = False, UnderEnemyTurret = False\<rparr>)"

definition demo_events :: "(real \<times> ward_event) list" where
  "demo_events =
     [(10, PlacedW \<lparr>wpType = ''pink'', wpItemType = VisionWard, wpParticipantID = 2,
                    wpPosition = \<lparr>X = 0, Y = 0, Z = 0\<rparr>, wpTeamID = 100, wpWardID = 40\<rparr>),
      demo_seen 20, demo_seen 22, demo_seen 30, (50, DeathW 40)]"

definition demo_life :: ward_life where
  "demo_life = \<lparr>wBegin = 10, wEnd = 50, wPosition = \<lparr>X = 0, Y = 0, Z = 0\<rparr>, Creator = 2, ItemType = VisionWard,
     wType = ''pink'', EndReason = ''cleared'', AttacksAgainst = [], ClearedBy = 7,
     Reveals = [(7, [\<lparr>iBegin = 20, iEnd = 22\<rparr>, \<lparr>iBegin = 30, iEnd = 30\<rparr>])]\<rparr>"

definition demo_wards :: ward_analysis where
  "demo_wards = \<lparr>lives = [demo_life], ActiveWards = [], PlayerWards = (\<lambda>_. [])(2 := [0])\<rparr>"

lemma demo_run: "run_wards 1800 demo_events NewWardAnalysis = Inr demo_wards"
proof -
  have W: "Ward VisionWard = \<lparr>wardType = ''pink'', sightRange = 1100, concurrent = Some 1\<rparr>"
    by (simp add: Ward_def ward_item_defs PinkWard_def)
  show ?thesis
    by (simp add: demo_events_def demo_seen_def AddWardPlaced_def new_life_def wa_AddStateUpdate_def see_def
        upd_life_def add_reveal_def wa_AddWardDeath_def end_of_def exceedsWardLimit_def active_lives_def
        likelyWardClearer_def NewWardAnalysis_def W TeamID_def BlueTeam_def RedTeam_def DistanceXY_def
        bump_def get0_def Let_def demo_wards_def demo_life_def)
qed

lemma demo_sorted: "sorted (map fst demo_events)"
  by (simp add: demo_events_def demo_seen_def)


theorem reveals_spaced_witness:
  "TeamID 7 \<noteq> TeamID 2 \<and> successively (\<lambda>i j. iEnd i + 5 \<le> iBegin j) [\<lparr>iBegin = 20, iEnd = 22\<rparr>, \<lparr>iBegin = 30, iEnd = 30\<rparr>]"
  using reveals_spaced [OF demo_run demo_sorted, of demo_life 7 "[\<lparr>iBegin = 20, iEnd = 22\<rparr>, \<lparr>iBegin = 30, iEnd = 30\<rparr>]"]
  by (simp add: demo_wards_def demo_life_def)

theorem clearing_credited_witness:
  "recent_attacker demo_life 7 \<or> TeamID 7 = EnemyTeamID 2"
  using clearing_credited [OF demo_run demo_sorted, of demo_life]
  by (simp add: demo_wards_def demo_life_def demo_events_def demo_seen_def is_participant_def)

theorem limit_of_any_type_witness:
  "\<not> exceedsWardLimit demo_life demo_wards"
  using limit_of_any_type [OF demo_run, of demo_life]
  by (auto simp: demo_wards_def active_lives_def held_def limit_of_def split: if_splits)

theorem export_complete_witness:
  "map jBegin (ExportPlayerWards demo_wards 2) = [10]"
  using export_complete [OF demo_run, of 2] by (simp add: placements_def demo_events_def demo_seen_def)

end
