(* ===== verification/Ingest_Fights.thy ===== *)
theory Ingest_Fights
  imports Ingest_Wards
begin

text \<open>
  Team fights: \<open>lolstats-master/ingest/team_fights.go\<close>. Every dereference of a nil pointer is a panic of
  the model. The states of the recent history and the fights are reached through pointers into lists
  that own them; the model updates them in place in the lists. A map that is only read with a default
  is a total function, the set-like maps (\<open>JsonLongBoolMap\<close> with the value true) are lists of their
  keys. A division by zero, which gives an infinity in Go, is 0 here.
\<close>

subsection \<open>Data\<close>

definition nil_panic :: "'a outcome" where
  "nil_panic = Panic ''invalid memory address or nil pointer dereference''"

record team_fight =
  Begin :: real
  End :: real
  ParticipantIDs :: "int list"
  InfluencerIDs :: "int list"
  InitialTarget :: int
  TeamKills :: "int list"
  TeamDeaths :: "int list"
  SumTeamHealthPercent :: real
  SumEnemyHealthPercent :: real
  ParticipantLevel :: int
  EnemyLevelAverage :: real
  TeamGoldSpent :: int
  EnemyGoldSpent :: int
  NeutralDamage :: real
  EnemyNeutralDamage :: real
  TeamSummonerSpells :: nat
  EnemySummonerSpells :: nat
  EnemiesInVision :: "(int \<times> bool) list"
  AlliesInVision :: "(int \<times> bool) list"
  TeamGoldAtStart :: int
  EnemyGoldAtStart :: int
  NetGoldDiff :: int
  DeathAnalysisTags :: "string list"
  KillAnalysisTags :: "string list"
  DamageDealt :: "(int \<times> real) list"
  EnemyDamageTaken :: "(int \<times> real) list"

definition balance :: "int \<Rightarrow> team_fight \<Rightarrow> real" where
  "balance pID tf =
     (let power = \<lambda>team. real (length (filter (\<lambda>i. TeamID i = team) (ParticipantIDs tf)))
                       + real (length (filter (\<lambda>i. TeamID i = team) (InfluencerIDs tf))) / 2 in
      power (TeamID pID) - power (EnemyTeamID pID))"

record cont_damage =
  StartTime :: real
  LastTime :: real
  TotalPercentDamage :: real
  NumDamageEvents :: real

definition continuousDamageTime :: real where "continuousDamageTime = 3"
definition noDamageTimeForTeamFightEnd :: real where "noDamageTimeForTeamFightEnd = 3"
definition participantDistance :: real where "participantDistance = 2000"
definition chaseDistance :: real where "chaseDistance = 1000"
definition windowSeconds :: real where "windowSeconds = 30"
definition windowGranularity :: real where "windowGranularity = 0.25"
definition visionWindowHiddenMax :: real where "visionWindowHiddenMax = 8"
definition visionWindowHiddenMin :: real where "visionWindowHiddenMin = 4"

definition cd_Add :: "real \<Rightarrow> real \<Rightarrow> cont_damage \<Rightarrow> cont_damage" where
  "cd_Add secs percent cd =
     (let cd1 =
        (if secs - LastTime cd < continuousDamageTime
         then cd\<lparr>TotalPercentDamage := TotalPercentDamage cd + percent,
                NumDamageEvents := NumDamageEvents cd + (if secs > LastTime cd then 1 else 0)\<rparr>
         else cd\<lparr>TotalPercentDamage := percent, NumDamageEvents := 1, StartTime := secs\<rparr>)
      in cd1\<lparr>LastTime := secs\<rparr>)"

record cont_attack =
  caStartTime :: real
  caLastTime :: real

definition cattack_Add :: "real \<Rightarrow> cont_attack \<Rightarrow> cont_attack" where
  "cattack_Add secs ca =
     (let ca1 = (if secs - caLastTime ca \<ge> continuousDamageTime then ca\<lparr>caStartTime := secs\<rparr> else ca)
      in ca1\<lparr>caLastTime := secs\<rparr>)"

subsection \<open>States of the game\<close>

text \<open>
  \<open>ChampPositions\<close> is a map from participants to pointers, which may be nil; its number of keys
  matters.
\<close>

record aug_state =
  stSeconds :: real
  IsAlive :: "int \<Rightarrow> bool"
  LastDeathTime :: "int \<Rightarrow> real"
  ChampPositions :: "(int \<times> position option) list"
  ChampLevels :: "int \<Rightarrow> int"
  ChampHealth :: "int \<Rightarrow> real"
  GoldAmount :: "int \<Rightarrow> int"
  GoldSpent :: "int \<Rightarrow> int"
  SpellsAvailable :: "int \<Rightarrow> (string \<times> real) list option"
  NeutralDamageTaken :: "int \<Rightarrow> real"
  LiveTurrets :: "int \<Rightarrow> bool"

definition pos_of :: "aug_state \<Rightarrow> int \<Rightarrow> position option" where
  "pos_of st i = (case map_of (ChampPositions st) i of Some (Some p) \<Rightarrow> Some p | _ \<Rightarrow> None)"

definition isCloserThan :: "aug_state \<Rightarrow> int \<Rightarrow> int \<Rightarrow> real \<Rightarrow> bool outcome" where
  "isCloserThan st victimID participantID d =
     (case (pos_of st victimID, pos_of st participantID) of
        (Some p, Some q) \<Rightarrow> Ok (DistanceXY p q < d)
      | _ \<Rightarrow> nil_panic)"

definition isFightParticipant :: "aug_state \<Rightarrow> int \<Rightarrow> int \<Rightarrow> bool outcome" where
  "isFightParticipant st victimID participantID = isCloserThan st victimID participantID participantDistance"

definition isFightChasing :: "aug_state \<Rightarrow> int \<Rightarrow> int \<Rightarrow> bool outcome" where
  "isFightChasing st victimID participantID = isCloserThan st victimID participantID chaseDistance"

definition team_gold :: "aug_state \<Rightarrow> int \<Rightarrow> int \<times> int" where
  "team_gold st teamID =
     (let gold = \<lambda>i. GoldAmount st i + GoldSpent st i in
      (sum_list (map gold (filter (\<lambda>i. TeamID i = teamID) [1..10])),
       sum_list (map gold (filter (\<lambda>i. TeamID i \<noteq> teamID) [1..10]))))"

definition NewAugmentedState :: "real \<Rightarrow> aug_state option \<Rightarrow> aug_state" where
  "NewAugmentedState secs previous =
     (case previous of
        Some p \<Rightarrow>
          let ten = \<lambda>i :: int. 1 \<le> i \<and> i \<le> 10 in
          \<lparr>stSeconds = secs,
           IsAlive = (\<lambda>i. ten i \<and> IsAlive p i),
           LastDeathTime = (\<lambda>i. if ten i then LastDeathTime p i else 0),
           ChampPositions = map (\<lambda>i. (i, pos_of p i)) [1..10],
           ChampLevels = (\<lambda>i. if ten i then ChampLevels p i else 0),
           ChampHealth = (\<lambda>i. if ten i then ChampHealth p i else 0),
           GoldAmount = (\<lambda>i. if ten i then GoldAmount p i else 0),
           GoldSpent = (\<lambda>i. if ten i then GoldSpent p i else 0),
           SpellsAvailable = (\<lambda>i. if ten i then Some (case SpellsAvailable p i of None \<Rightarrow> [] | Some m \<Rightarrow> m) else None),
           NeutralDamageTaken = (\<lambda>_. 0),
           LiveTurrets = (\<lambda>i. i \<in> set (map fst TurretPositions) \<and> LiveTurrets p i)\<rparr>
      | None \<Rightarrow>
          let ten = \<lambda>i :: int. 1 \<le> i \<and> i \<le> 10 in
          \<lparr>stSeconds = secs, IsAlive = ten, LastDeathTime = (\<lambda>_. 0), ChampPositions = [],
           ChampLevels = (\<lambda>i. if ten i then 1 else 0), ChampHealth = (\<lambda>_. 0), GoldAmount = (\<lambda>_. 0),
           GoldSpent = (\<lambda>_. 0),
           SpellsAvailable = (\<lambda>i. if ten i then Some [(''Summoner1'', 0), (''Summoner2'', 0)] else None),
           NeutralDamageTaken = (\<lambda>_. 0), LiveTurrets = (\<lambda>i. i \<in> set (map fst TurretPositions))\<rparr>)"

subsection \<open>The analysis\<close>

record fight_analysis =
  faParticipant :: int
  RecentStates :: "aug_state list"
  ContDamage :: "int \<Rightarrow> cont_damage option"
  ContAttack :: "int \<Rightarrow> cont_attack option"
  TeamFights :: "team_fight list"
  faDuration :: real

definition NewTeamFightAnalysis :: "int \<Rightarrow> real \<Rightarrow> fight_analysis" where
  "NewTeamFightAnalysis pID matchDuration =
     \<lparr>faParticipant = pID, RecentStates = [],
      ContDamage = (\<lambda>i. if 1 \<le> i \<and> i \<le> 10
        then Some \<lparr>StartTime = 0, LastTime = 0, TotalPercentDamage = 0, NumDamageEvents = 0\<rparr> else None),
      ContAttack = (\<lambda>i. if 1 \<le> i \<and> i \<le> 10 then Some \<lparr>caStartTime = 0, caLastTime = 0\<rparr> else None),
      TeamFights = [], faDuration = matchDuration\<rparr>"

text \<open>\<open>findClosest\<close>, from the back of the list; the result is the index of the state.\<close>

fun closest_loop :: "real \<Rightarrow> (nat \<times> aug_state) list \<Rightarrow> real \<Rightarrow> nat option \<Rightarrow> nat option" where
  "closest_loop t [] closest prevState = prevState"
| "closest_loop t ((i, st) # es) closest prevState =
     (if length (ChampPositions st) \<noteq> 10 then closest_loop t es closest prevState
      else if \<bar>t - stSeconds st\<bar> < closest then closest_loop t es \<bar>t - stSeconds st\<bar> (Some i)
      else prevState)"

definition findClosest :: "real \<Rightarrow> aug_state list \<Rightarrow> nat option" where
  "findClosest t states = closest_loop t (rev (List.enumerate 0 states)) 99999 None"

definition updateRecentHistory :: "real \<Rightarrow> aug_state list \<Rightarrow> aug_state list" where
  "updateRecentHistory secs states =
     (if states \<noteq> [] \<and> secs - stSeconds (List.last states) < windowGranularity then states
      else dropWhile (\<lambda>st. stSeconds st < secs - windowSeconds)
        (states @ [NewAugmentedState secs (if states = [] then None else Some (List.last states))]))"

text \<open>A change of the newest state, when there is one.\<close>

definition on_last :: "(aug_state \<Rightarrow> aug_state) \<Rightarrow> aug_state list \<Rightarrow> aug_state list" where
  "on_last f states = (if states = [] then [] else butlast states @ [f (List.last states)])"

definition updateState :: "real \<Rightarrow> state_update \<Rightarrow> aug_state \<Rightarrow> aug_state" where
  "updateState secs t st =
     (let p = suParticipantID t;
          st1 = st\<lparr>ChampPositions := AList.update p (Some (suPosition t)) (ChampPositions st)\<rparr>;
          st2 = (if Gold t < GoldAmount st1 p
                 then st1\<lparr>GoldSpent := (GoldSpent st1)(p := GoldSpent st1 p + (GoldAmount st1 p - Gold t))\<rparr> else st1);
          st3 = st2\<lparr>GoldAmount := (GoldAmount st2)(p := Gold t)\<rparr>;
          st4 = (if \<not> IsAlive st3 p \<and> Health t > 0 \<and> secs > LastDeathTime st3 p - 2
                 then st3\<lparr>IsAlive := (IsAlive st3)(p := True)\<rparr> else st3)
      in st4\<lparr>ChampHealth := (ChampHealth st4)(p := 100 * Health t / HealthMax t)\<rparr>)"

definition updateDeath :: "real \<Rightarrow> int \<Rightarrow> aug_state \<Rightarrow> aug_state" where
  "updateDeath secs victim st =
     st\<lparr>IsAlive := (IsAlive st)(victim := False), LastDeathTime := (LastDeathTime st)(victim := secs)\<rparr>"

definition fa_AddLevelUp :: "int \<Rightarrow> fight_analysis \<Rightarrow> fight_analysis" where
  "fa_AddLevelUp pID fa =
     fa\<lparr>RecentStates := on_last (\<lambda>st. st\<lparr>ChampLevels := (ChampLevels st)(pID := ChampLevels st pID + 1)\<rparr>)
          (RecentStates fa)\<rparr>"

definition fa_AddAttack :: "attack \<Rightarrow> fight_analysis \<Rightarrow> fight_analysis outcome" where
  "fa_AddAttack t fa =
     (if RecentStates fa = [] then Ok fa
      else if Slot t = ''Summoner1'' \<or> Slot t = ''Summoner2'' then
        (case SpellsAvailable (List.last (RecentStates fa)) (aAttackerID t) of
           None \<Rightarrow> Panic ''assignment to entry in nil map''
         | Some m \<Rightarrow> Ok (fa\<lparr>RecentStates := on_last (\<lambda>st. st\<lparr>SpellsAvailable :=
             (SpellsAvailable st)(aAttackerID t := Some (AList.update (Slot t) (CooldownExpires t) m))\<rparr>)
             (RecentStates fa)\<rparr>))
      else Ok fa)"

definition fa_AddTurretKill :: "int \<Rightarrow> fight_analysis \<Rightarrow> fight_analysis" where
  "fa_AddTurretKill buildingID fa =
     fa\<lparr>RecentStates := on_last (\<lambda>st. st\<lparr>LiveTurrets := (LiveTurrets st)(buildingID := False)\<rparr>) (RecentStates fa)\<rparr>"

subsection \<open>Vision\<close>

definition ward_sees :: "ward_analysis \<Rightarrow> real \<Rightarrow> int \<Rightarrow> position \<Rightarrow> bool" where
  "ward_sees wa secs pID p \<longleftrightarrow>
     list_ex (\<lambda>i. TeamID i \<noteq> TeamID pID \<and>
        list_ex (\<lambda>k. let w = lives wa ! k in
            wBegin w \<le> secs \<and> wEnd w \<ge> secs \<and> DistanceXY p (wPosition w) < sightRange (Ward (ItemType w)))
          (PlayerWards wa i)) [1..10]"

definition state_sees :: "ward_analysis \<Rightarrow> int \<Rightarrow> aug_state \<Rightarrow> bool outcome" where
  "state_sees wa pID st =
     (case pos_of st pID of
        None \<Rightarrow> nil_panic
      | Some p \<Rightarrow>
          if AreaToRegion (AreaID p) \<noteq> RegionJungle then Ok True
          else bind_ok (any_ok (\<lambda>i.
              if i = pID then Ok False
              else if IsAlive st i \<and> IsAlive st pID \<and> TeamID i \<noteq> TeamID pID then isCloserThan st i pID 1200
              else Ok False) [1..10])
            (\<lambda>seen. if seen then Ok True
              else Ok (list_ex (\<lambda>(turretID, q). turretID div 100 \<noteq> TeamID pID div 100 \<and> LiveTurrets st turretID
                                 \<and> DistanceXY p q < 1095) TurretPositions
                       \<or> ward_sees wa (stSeconds st) pID p)))"

fun vision_loop :: "ward_analysis \<Rightarrow> int \<Rightarrow> real \<Rightarrow> aug_state list \<Rightarrow> bool outcome" where
  "vision_loop wa pID t [] = Ok False"
| "vision_loop wa pID t (st # sts) =
     (if stSeconds st < t - visionWindowHiddenMax then vision_loop wa pID t sts
      else if stSeconds st > t - visionWindowHiddenMin then Ok False
      else bind_ok (state_sees wa pID st) (\<lambda>b. if b then Ok True else vision_loop wa pID t sts))"

definition IsInVision :: "ward_analysis \<Rightarrow> fight_analysis \<Rightarrow> real \<Rightarrow> int \<Rightarrow> bool outcome" where
  "IsInVision wa fa t pID = vision_loop wa pID t (RecentStates fa)"

subsection \<open>Starting a fight\<close>

definition currentFight :: "fight_analysis \<Rightarrow> team_fight option" where
  "currentFight fa =
     (if TeamFights fa \<noteq> [] \<and> End (List.last (TeamFights fa)) = faDuration fa
      then Some (List.last (TeamFights fa)) else None)"

definition set_fight :: "team_fight \<Rightarrow> fight_analysis \<Rightarrow> fight_analysis" where
  "set_fight tf fa = fa\<lparr>TeamFights := butlast (TeamFights fa) @ [tf]\<rparr>"

definition round_percent :: "real \<Rightarrow> real" where
  "round_percent x = real_of_int \<lfloor>x + 1 / 2\<rfloor>"

definition computeInitialParticipants :: "int \<Rightarrow> aug_state \<Rightarrow> int list outcome" where
  "computeInitialParticipants pID st =
     filter_ok (\<lambda>i. if IsAlive st i then isFightParticipant st i pID else Ok False) [1..10]"

text \<open>What is summed over the members of one side.\<close>

record side =
  sHealth :: real
  sGoldSpent :: int
  sNeutral :: real
  sSpells :: nat
  sLevels :: int

definition sum_side :: "fight_analysis \<Rightarrow> aug_state \<Rightarrow> real \<Rightarrow> real \<Rightarrow> int list \<Rightarrow> side" where
  "sum_side fa st decisionTime triggerTime ps =
     \<lparr>sHealth = sum_list (map (\<lambda>p. round_percent (ChampHealth st p)) ps),
      sGoldSpent = sum_list (map (GoldSpent st) ps),
      sNeutral = sum_list (map (\<lambda>p. sum_list (map (\<lambda>ns. NeutralDamageTaken ns p)
        (filter (\<lambda>ns. stSeconds ns \<ge> decisionTime \<and> stSeconds ns \<le> triggerTime) (RecentStates fa)))) ps),
      sSpells = sum_list (map (\<lambda>p. case SpellsAvailable st p of None \<Rightarrow> 0
        | Some m \<Rightarrow> length (filter (\<lambda>(k, cooldown). cooldown \<le> triggerTime) m)) ps),
      sLevels = sum_list (map (ChampLevels st) ps)\<rparr>"

definition visions :: "ward_analysis \<Rightarrow> fight_analysis \<Rightarrow> real \<Rightarrow> int list \<Rightarrow> (int \<times> bool) list outcome" where
  "visions wa fa t ps = map_ok (\<lambda>p. bind_ok (IsInVision wa fa t p) (\<lambda>b. Ok (p, b))) ps"

definition build_fight ::
  "ward_analysis \<Rightarrow> fight_analysis \<Rightarrow> int \<Rightarrow> real \<Rightarrow> real \<Rightarrow> aug_state \<Rightarrow> int list \<Rightarrow> team_fight option outcome"
where
  "build_fight wa fa pID decisionTime triggerTime st participants =
     (let me = faParticipant fa; (teamGold, enemyGold) = team_gold st (TeamID me);
          friends = filter (\<lambda>k. TeamID k = TeamID me) participants;
          enemies = filter (\<lambda>k. TeamID k \<noteq> TeamID me) participants in
      if enemies = [] then Ok None
      else bind_ok (visions wa fa decisionTime friends) (\<lambda>allies.
           bind_ok (visions wa fa decisionTime enemies) (\<lambda>foes.
           let f = sum_side fa st decisionTime triggerTime friends;
               e = sum_side fa st decisionTime triggerTime enemies in
           Ok (Some \<lparr>Begin = decisionTime, End = faDuration fa, ParticipantIDs = participants, InfluencerIDs = [],
              InitialTarget = pID, TeamKills = [], TeamDeaths = [],
              SumTeamHealthPercent = sHealth f, SumEnemyHealthPercent = sHealth e,
              ParticipantLevel = ChampLevels st me, EnemyLevelAverage = real_of_int (sLevels e) / real (length enemies),
              TeamGoldSpent = sGoldSpent f, EnemyGoldSpent = sGoldSpent e,
              NeutralDamage = sNeutral f, EnemyNeutralDamage = sNeutral e,
              TeamSummonerSpells = sSpells f, EnemySummonerSpells = sSpells e,
              EnemiesInVision = foes, AlliesInVision = allies,
              TeamGoldAtStart = teamGold, EnemyGoldAtStart = enemyGold, NetGoldDiff = 0,
              DeathAnalysisTags = [], KillAnalysisTags = [], DamageDealt = [], EnemyDamageTaken = []\<rparr>))))"

definition startTeamFight :: "ward_analysis \<Rightarrow> int \<Rightarrow> real \<Rightarrow> fight_analysis \<Rightarrow> fight_analysis outcome" where
  "startTeamFight wa pID triggerTime fa =
     (case ContDamage fa pID of
        None \<Rightarrow> nil_panic
      | Some cd \<Rightarrow>
          let decisionTime = StartTime cd in
          (case findClosest triggerTime (RecentStates fa) of
             None \<Rightarrow> Ok fa
           | Some i \<Rightarrow>
               let triggerState = RecentStates fa ! i in
               if \<not> IsAlive triggerState (faParticipant fa) then Ok fa
               else bind_ok (isFightParticipant triggerState pID (faParticipant fa)) (\<lambda>near.
                 if \<not> near then Ok fa
                 else case findClosest decisionTime (RecentStates fa) of
                   None \<Rightarrow> nil_panic
                 | Some j \<Rightarrow>
                     bind_ok (computeInitialParticipants pID triggerState) (\<lambda>participants.
                     bind_ok (build_fight wa fa pID decisionTime triggerTime (RecentStates fa ! j) participants) (\<lambda>r.
                       case r of None \<Rightarrow> Ok fa
                       | Some tf \<Rightarrow> Ok (fa\<lparr>TeamFights := TeamFights fa @ [tf]\<rparr>))))))"

subsection \<open>Damage\<close>

definition insert_key :: "int \<Rightarrow> int list \<Rightarrow> int list" where
  "insert_key k ks = (if k \<in> set ks then ks else ks @ [k])"

definition damage_fight :: "int \<Rightarrow> bool \<Rightarrow> damage \<Rightarrow> team_fight \<Rightarrow> team_fight" where
  "damage_fight me firstDamage t tf =
     (let tf1 = (if \<not> firstDamage then tf
                 else if TeamID me = TeamID (VictimID t)
                   then tf\<lparr>SumTeamHealthPercent := SumTeamHealthPercent tf - round_percent (Percent t)\<rparr>
                 else tf\<lparr>SumEnemyHealthPercent := SumEnemyHealthPercent tf - round_percent (Percent t)\<rparr>);
          isAttackerInFight = dAttackerID t \<in> set (ParticipantIDs tf1);
          isVictimInFight = VictimID t \<in> set (ParticipantIDs tf1);
          tf2 = (if \<not> isAttackerInFight \<and> isVictimInFight \<and> TeamID (dAttackerID t) \<noteq> 0
                 then tf1\<lparr>InfluencerIDs := insert_key (dAttackerID t) (InfluencerIDs tf1)\<rparr> else tf1);
          tf3 = (if dAttackerID t = me
                 then tf2\<lparr>DamageDealt := bump (Percent t) (VictimID t) (DamageDealt tf2)\<rparr> else tf2);
          tf4 = (if TeamID (VictimID t) \<noteq> TeamID me \<and> (isVictimInFight \<or> VictimID t \<in> set (InfluencerIDs tf3))
                 then tf3\<lparr>EnemyDamageTaken := bump (Percent t) (VictimID t) (EnemyDamageTaken tf3)\<rparr> else tf3)
      in if TeamID (dAttackerID t) = 0 \<and> isVictimInFight
         then (if TeamID (VictimID t) = TeamID me
               then tf4\<lparr>NeutralDamage := NeutralDamage tf4 + Percent t\<rparr>
               else tf4\<lparr>EnemyNeutralDamage := EnemyNeutralDamage tf4 + Percent t\<rparr>)
         else tf4)"

definition add_neutral :: "damage \<Rightarrow> aug_state \<Rightarrow> aug_state" where
  "add_neutral t st =
     st\<lparr>NeutralDamageTaken := (NeutralDamageTaken st)(VictimID t := NeutralDamageTaken st (VictimID t) + Percent t)\<rparr>"

definition track_damage :: "real \<Rightarrow> damage \<Rightarrow> fight_analysis \<Rightarrow> fight_analysis outcome" where
  "track_damage secs t fa =
     (case ContDamage fa (VictimID t) of
        None \<Rightarrow> nil_panic
      | Some cd \<Rightarrow>
          let fa1 = fa\<lparr>ContDamage := (ContDamage fa)(VictimID t := Some (cd_Add secs (Percent t) cd))\<rparr> in
          if TeamID (dAttackerID t) \<noteq> 0 then
            (case ContAttack fa1 (dAttackerID t) of
               None \<Rightarrow> nil_panic
             | Some ca \<Rightarrow> Ok (fa1\<lparr>ContAttack := (ContAttack fa1)(dAttackerID t := Some (cattack_Add secs ca))\<rparr>))
          else
            (case findClosest secs (RecentStates fa1) of
               None \<Rightarrow> nil_panic
             | Some i \<Rightarrow> Ok (fa1\<lparr>RecentStates := (RecentStates fa1)[i := add_neutral t (RecentStates fa1 ! i)]\<rparr>)))"

text \<open>Damage of more than 30 percent in more than one hit starts a fight when none goes on.\<close>

definition starts_fight :: "damage \<Rightarrow> fight_analysis \<Rightarrow> bool" where
  "starts_fight t fa \<longleftrightarrow>
     (TeamFights fa = [] \<or> End (List.last (TeamFights fa)) \<noteq> faDuration fa)
     \<and> (case ContDamage fa (VictimID t) of None \<Rightarrow> False
        | Some cd \<Rightarrow> TotalPercentDamage cd > 30 \<and> NumDamageEvents cd > 1)"

definition fa_AddDamage :: "ward_analysis \<Rightarrow> real \<Rightarrow> damage \<Rightarrow> fight_analysis \<Rightarrow> fight_analysis outcome" where
  "fa_AddDamage wa secs t fa =
     bind_ok (track_damage secs t fa) (\<lambda>fa1.
       let starts = starts_fight t fa1 in
       bind_ok (if starts then startTeamFight wa (VictimID t) secs fa1 else Ok fa1) (\<lambda>fa2.
         case currentFight fa2 of
           None \<Rightarrow> Ok fa2
         | Some tf \<Rightarrow> Ok (set_fight (damage_fight (faParticipant fa2) starts t tf) fa2)))"

subsection \<open>The end of a fight\<close>

text \<open>
  The loop over the participants: 0 as soon as one shows that the fight goes on, or else the time of
  the last damage.
\<close>

fun fight_end_loop :: "fight_analysis \<Rightarrow> aug_state \<Rightarrow> real \<Rightarrow> int list \<Rightarrow> real \<Rightarrow> real outcome" where
  "fight_end_loop fa st lastEventTime [] lastDamageTime = Ok lastDamageTime"
| "fight_end_loop fa st lastEventTime (p # ps) lastDamageTime =
     (case ContDamage fa p of
        None \<Rightarrow> nil_panic
      | Some cd \<Rightarrow>
          if LastTime cd > lastEventTime - noDamageTimeForTeamFightEnd then Ok 0
          else case ContAttack fa p of
            None \<Rightarrow> nil_panic
          | Some ca \<Rightarrow>
              if caLastTime ca > lastEventTime - noDamageTimeForTeamFightEnd then Ok 0
              else bind_ok (any_ok (\<lambda>i. if IsAlive st i \<and> IsAlive st p \<and> TeamID i \<noteq> TeamID p
                                      then isFightChasing st i p else Ok False) [1..10])
                (\<lambda>chase. if chase then Ok 0
                   else fight_end_loop fa st lastEventTime ps
                     (if LastTime cd > lastDamageTime then LastTime cd else lastDamageTime)))"

definition computeNetGoldDiff :: "int \<Rightarrow> aug_state \<Rightarrow> team_fight \<Rightarrow> team_fight" where
  "computeNetGoldDiff pID st tf =
     (let (teamGold, enemyGold) = team_gold st (TeamID pID) in
      tf\<lparr>NetGoldDiff := teamGold - TeamGoldAtStart tf - (enemyGold - EnemyGoldAtStart tf)\<rparr>)"

definition fa_AddStateUpdate :: "real \<Rightarrow> state_update \<Rightarrow> fight_analysis \<Rightarrow> fight_analysis outcome" where
  "fa_AddStateUpdate secs t fa =
     (let fa1 = fa\<lparr>RecentStates := on_last (updateState secs t) (updateRecentHistory secs (RecentStates fa))\<rparr> in
      case currentFight fa1 of
        None \<Rightarrow> Ok fa1
      | Some tf \<Rightarrow>
          (case findClosest secs (RecentStates fa1) of
             None \<Rightarrow> nil_panic
           | Some i \<Rightarrow>
               let st = RecentStates fa1 ! i; tf1 = computeNetGoldDiff (faParticipant fa1) st tf in
               bind_ok (fight_end_loop fa1 st secs (ParticipantIDs tf1) 0) (\<lambda>fightEnd.
                 Ok (set_fight (if fightEnd \<noteq> 0 then tf1\<lparr>End := fightEnd\<rparr> else tf1) fa1))))"

subsection \<open>Deaths\<close>

definition death_fight :: "int \<Rightarrow> int \<Rightarrow> team_fight \<Rightarrow> team_fight" where
  "death_fight me victim tf =
     (if victim \<notin> set (ParticipantIDs tf) \<and> victim \<notin> set (InfluencerIDs tf) then tf
      else if TeamID victim = TeamID me then tf\<lparr>TeamDeaths := insert_key victim (TeamDeaths tf)\<rparr>
      else if TeamID victim = EnemyTeamID me then tf\<lparr>TeamKills := insert_key victim (TeamKills tf)\<rparr>
      else tf)"

definition fa_AddDeath :: "ward_analysis \<Rightarrow> real \<Rightarrow> int \<Rightarrow> fight_analysis \<Rightarrow> fight_analysis outcome" where
  "fa_AddDeath wa secs victim fa =
     bind_ok (if currentFight fa = None then startTeamFight wa victim secs fa else Ok fa) (\<lambda>fa1.
       let fa2 = (case currentFight fa1 of None \<Rightarrow> fa1
                  | Some tf \<Rightarrow> set_fight (death_fight (faParticipant fa1) victim tf) fa1) in
       Ok (fa2\<lparr>RecentStates := on_last (updateDeath secs victim) (RecentStates fa2)\<rparr>))"

subsection \<open>Results\<close>

definition FavorableFights :: "real \<Rightarrow> bool" where "FavorableFights x \<longleftrightarrow> x > 0"
definition BalancedFights :: "real \<Rightarrow> bool" where "BalancedFights x \<longleftrightarrow> x = 0"
definition UnfavorableFights :: "real \<Rightarrow> bool" where "UnfavorableFights x \<longleftrightarrow> x < 0"

record fight_aggregate =
  Count :: nat
  TotalKills :: nat
  TotalDeaths :: nat
  NetKills :: real

definition Aggregate :: "(real \<Rightarrow> bool) \<Rightarrow> fight_analysis \<Rightarrow> fight_aggregate" where
  "Aggregate cond fa =
     (let tfs = filter (\<lambda>tf. cond (balance (faParticipant fa) tf)) (TeamFights fa);
          kills = sum_list (map (\<lambda>tf. length (TeamKills tf)) tfs);
          deaths = sum_list (map (\<lambda>tf. length (TeamDeaths tf)) tfs) in
      \<lparr>Count = length tfs, TotalKills = kills, TotalDeaths = deaths,
       NetKills = (real kills - real deaths) / max (real (length tfs)) 1\<rparr>)"

record significant =
  sfTotal :: nat
  NumbersDifference :: nat
  NumbersDifferenceLackingVision :: nat
  HealthDifference :: nat
  GoldSpentDifference :: nat
  NeutralDamageDifference :: nat
  Other :: nat

definition no_significant :: significant where
  "no_significant = \<lparr>sfTotal = 0, NumbersDifference = 0, NumbersDifferenceLackingVision = 0, HealthDifference = 0,
                     GoldSpentDifference = 0, NeutralDamageDifference = 0, Other = 0\<rparr>"

text \<open>The secondary reasons of a fight that was not decided by numbers.\<close>

definition health_reason :: "int \<Rightarrow> (real \<Rightarrow> bool) \<Rightarrow> team_fight \<Rightarrow> bool" where
  "health_reason pID cond tf \<longleftrightarrow>
     (let own = real (length (filter (\<lambda>p. TeamID p = TeamID pID) (ParticipantIDs tf)));
          foe = real (length (filter (\<lambda>p. TeamID p \<noteq> TeamID pID) (ParticipantIDs tf)));
          diff = SumTeamHealthPercent tf / own - SumEnemyHealthPercent tf / foe in
      cond diff \<and> \<bar>diff\<bar> > 20)"

definition gold_reason :: "int \<Rightarrow> (real \<Rightarrow> bool) \<Rightarrow> team_fight \<Rightarrow> bool" where
  "gold_reason pID cond tf \<longleftrightarrow>
     (let own = real (length (filter (\<lambda>p. TeamID p = TeamID pID) (ParticipantIDs tf)));
          foe = real (length (filter (\<lambda>p. TeamID p \<noteq> TeamID pID) (ParticipantIDs tf)));
          smaller = min own foe;
          diff = min (real_of_int (TeamGoldSpent tf) / smaller) 20000 - min (real_of_int (EnemyGoldSpent tf) / smaller) 20000 in
      cond diff \<and> \<bar>diff\<bar> > 500)"

definition neutral_reason :: "(real \<Rightarrow> bool) \<Rightarrow> team_fight \<Rightarrow> bool" where
  "neutral_reason cond tf \<longleftrightarrow>
     (let diff = EnemyNeutralDamage tf - NeutralDamage tf in cond diff \<and> \<bar>diff\<bar> > 30)"

text \<open>\<open>ProcessFight\<close>: the counts, and the tags to add to the fight.\<close>

definition ProcessFight ::
  "team_fight \<Rightarrow> int \<Rightarrow> (real \<Rightarrow> bool) \<Rightarrow> (int \<times> bool) list \<Rightarrow> significant \<Rightarrow> significant \<times> string list"
where
  "ProcessFight tf pID cond visionMap sf =
     (let sf1 = sf\<lparr>sfTotal := sfTotal sf + 1\<rparr> in
      if cond (balance pID tf) then
        (if \<not> list_all snd visionMap
         then (sf1\<lparr>NumbersDifferenceLackingVision := NumbersDifferenceLackingVision sf1 + 1\<rparr>,
               [''numbers_difference_lacking_vision''])
         else (sf1\<lparr>NumbersDifference := NumbersDifference sf1 + 1\<rparr>, [''numbers_difference'']))
      else
        let h = health_reason pID cond tf; g = gold_reason pID cond tf; n = neutral_reason cond tf;
            sf2 = sf1\<lparr>HealthDifference := HealthDifference sf1 + of_bool h,
                      GoldSpentDifference := GoldSpentDifference sf1 + of_bool g,
                      NeutralDamageDifference := NeutralDamageDifference sf1 + of_bool n,
                      Other := Other sf1 + of_bool (\<not> h \<and> \<not> g \<and> \<not> n)\<rparr> in
        (sf2, (if h then [''health_difference''] else []) @ (if g then [''gold_spent_difference''] else [])
              @ (if n then [''neutral_damage_difference''] else [])
              @ (if \<not> h \<and> \<not> g \<and> \<not> n then [''other''] else [])))"

definition contributed :: "team_fight \<Rightarrow> bool" where
  "contributed tf \<longleftrightarrow> list_ex (\<lambda>pID. get0 (DamageDealt tf) pID > 0) (TeamKills tf)"

definition significant_step ::
  "int \<Rightarrow> team_fight \<Rightarrow> significant \<times> significant \<times> team_fight list \<Rightarrow> significant \<times> significant \<times> team_fight list"
where
  "significant_step pID tf acc =
     (let (kills, deaths, tfs) = acc;
          (kills1, tf1) =
            (if TeamKills tf \<noteq> [] \<and> NetGoldDiff tf > 300 \<and> contributed tf then
               (let (k, tags) = ProcessFight tf pID FavorableFights (AlliesInVision tf) kills in
                (k, tf\<lparr>KillAnalysisTags := KillAnalysisTags tf @ tags\<rparr>))
             else (kills, tf));
          (deaths1, tf2) =
            (if pID \<in> set (TeamDeaths tf1) \<and> NetGoldDiff tf1 < -300 then
               (let (d, tags) = ProcessFight tf1 pID UnfavorableFights (EnemiesInVision tf1) deaths in
                (d, tf1\<lparr>DeathAnalysisTags := DeathAnalysisTags tf1 @ tags\<rparr>))
             else (deaths, tf1))
      in (kills1, deaths1, tfs @ [tf2]))"

definition SignificantKillsAndDeaths :: "fight_analysis \<Rightarrow> significant \<times> significant \<times> fight_analysis" where
  "SignificantKillsAndDeaths fa =
     (let (kills, deaths, tfs) = fold (significant_step (faParticipant fa)) (TeamFights fa)
            (no_significant, no_significant, []) in
      (kills, deaths, fa\<lparr>TeamFights := tfs\<rparr>))"

subsection \<open>Keys of maps in JSON\<close>

definition marshal_keys :: "(int \<times> bool) list \<Rightarrow> (string \<times> bool) list" where
  "marshal_keys m = map (\<lambda>(k, v). (show_int k, v)) m"

fun unmarshal_keys :: "(string \<times> bool) list \<Rightarrow> (int \<times> bool) list \<Rightarrow> (int \<times> bool) list fallible" where
  "unmarshal_keys [] res = Inr res"
| "unmarshal_keys ((str, v) # src) res =
     (case parse_int str of
        None \<Rightarrow> Inl ''invalid syntax''
      | Some k \<Rightarrow> unmarshal_keys src (AList.update k v res))"

text \<open>The events of fights in the order of the match, as \<open>ComputeAdvanced\<close> hands them over.\<close>

datatype fight_event =
    DamageF damage
  | UpdateF state_update
  | DeathF int
  | LevelUpF int
  | AttackF attack
  | TurretF int

primrec fight_step :: "ward_analysis \<Rightarrow> real \<Rightarrow> fight_event \<Rightarrow> fight_analysis \<Rightarrow> fight_analysis outcome" where
  "fight_step wa secs (DamageF t) fa = fa_AddDamage wa secs t fa"
| "fight_step wa secs (UpdateF t) fa = fa_AddStateUpdate secs t fa"
| "fight_step wa secs (DeathF v) fa = fa_AddDeath wa secs v fa"
| "fight_step wa secs (LevelUpF p) fa = Ok (fa_AddLevelUp p fa)"
| "fight_step wa secs (AttackF t) fa = fa_AddAttack t fa"
| "fight_step wa secs (TurretF b) fa = Ok (fa_AddTurretKill b fa)"

fun run_fights :: "(real \<times> ward_analysis \<times> fight_event) list \<Rightarrow> fight_analysis \<Rightarrow> fight_analysis outcome" where
  "run_fights [] fa = Ok fa"
| "run_fights ((secs, wa, e) # es) fa = bind_ok (fight_step wa secs e fa) (run_fights es)"

lemma run_fights_induct:
  assumes "run_fights es fa = Ok fa'" and "P fa"
    and "\<And>secs wa e f f'. fight_step wa secs e f = Ok f' \<Longrightarrow> P f \<Longrightarrow> P f'"
  shows "P fa'"
  using assms(1,2)
proof (induction es arbitrary: fa)
  case (Cons x es)
  then show ?case using assms(3) by (cases x) (auto simp: bind_ok_Ok)
qed simp

subsection \<open>At most one fight goes on\<close>

text \<open>
  All parts of a step in terms of the list of fights: an operation leaves it, changes its current
  fight without moving the end of another, or adds a fight when none goes on.
\<close>

definition same_fights :: "fight_analysis \<Rightarrow> fight_analysis \<Rightarrow> bool" where
  "same_fights fa fa' \<longleftrightarrow> TeamFights fa' = TeamFights fa \<and> faDuration fa' = faDuration fa \<and> faParticipant fa' = faParticipant fa"

lemma build_fight_fields:
  "build_fight wa fa pID d t st ps = Ok (Some tf) \<Longrightarrow>
     End tf = faDuration fa \<and> ParticipantIDs tf = ps \<and> InfluencerIDs tf = [] \<and> TeamKills tf = [] \<and> TeamDeaths tf = []
     \<and> EnemyDamageTaken tf = [] \<and> Begin tf = d \<and> (\<exists>p \<in> set ps. TeamID p \<noteq> TeamID (faParticipant fa))"
  by (auto simp: build_fight_def Let_def bind_ok_Ok filter_empty_conv split: prod.splits if_splits)

lemma startTeamFight_cases:
  assumes "startTeamFight wa pID t fa = Ok fa'"
  obtains "fa' = fa"
  | tf i where "fa' = fa\<lparr>TeamFights := TeamFights fa @ [tf]\<rparr>" and "End tf = faDuration fa"
      and "i < length (RecentStates fa) \<or> findClosest t (RecentStates fa) = Some i"
      and "computeInitialParticipants pID (RecentStates fa ! i) = Ok (ParticipantIDs tf)"
      and "InfluencerIDs tf = []" and "TeamKills tf = []" and "TeamDeaths tf = []" and "EnemyDamageTaken tf = []"
      and "\<exists>p \<in> set (ParticipantIDs tf). TeamID p \<noteq> TeamID (faParticipant fa)"
  using assms
  by (fastforce simp: startTeamFight_def nil_panic_def Let_def bind_ok_Ok dest!: build_fight_fields
      split: option.splits if_splits)

lemma track_damage_same: "track_damage secs t fa = Ok fa' \<Longrightarrow> same_fights fa fa'"
  by (auto simp: track_damage_def same_fights_def nil_panic_def Let_def split: option.splits if_splits)

definition one_current :: "fight_analysis \<Rightarrow> bool" where
  "one_current fa \<longleftrightarrow> (\<forall>tf \<in> set (butlast (TeamFights fa)). End tf \<noteq> faDuration fa)"

lemma one_current_same: "same_fights fa fa' \<Longrightarrow> one_current fa' = one_current fa"
  by (simp add: same_fights_def one_current_def)

lemma one_current_set: "one_current fa \<Longrightarrow> one_current (set_fight tf fa)"
  by (simp add: one_current_def set_fight_def)

lemma one_current_start:
  assumes "startTeamFight wa pID t fa = Ok fa'" and "one_current fa" and "currentFight fa = None"
  shows "one_current fa'"
  using assms(1)
proof (cases rule: startTeamFight_cases)
  case (2 tf i)
  have "End x \<noteq> faDuration fa" if "x \<in> set (TeamFights fa)" for x
  proof -
    from that have "x \<in> set (butlast (TeamFights fa)) \<or> x = List.last (TeamFights fa)"
      by (cases "TeamFights fa" rule: rev_cases) auto
    then show ?thesis
      using assms(2,3) that by (auto simp: one_current_def currentFight_def split: if_splits)
  qed
  then show ?thesis using 2(1) by (simp add: one_current_def)
qed (use assms(2) in simp)

lemma starts_fight_current: "starts_fight t fa \<Longrightarrow> currentFight fa = None"
  by (auto simp: starts_fight_def currentFight_def)

lemma AddDamage_split:
  assumes "fa_AddDamage wa secs t fa = Ok fa'"
  obtains fa1 fa2 where "track_damage secs t fa = Ok fa1"
    and "fa2 = fa1 \<or> (currentFight fa1 = None \<and> startTeamFight wa (VictimID t) secs fa1 = Ok fa2)"
    and "fa' = fa2 \<or> (\<exists>b tf. currentFight fa2 = Some tf \<and> fa' = set_fight (damage_fight (faParticipant fa2) b t tf) fa2)"
proof -
  from assms obtain fa1 fa2 where tr: "track_damage secs t fa = Ok fa1"
    and st: "(if starts_fight t fa1 then startTeamFight wa (VictimID t) secs fa1 else Ok fa1) = Ok fa2"
    and fa': "(case currentFight fa2 of None \<Rightarrow> Ok fa2
        | Some tf \<Rightarrow> Ok (set_fight (damage_fight (faParticipant fa2) (starts_fight t fa1) t tf) fa2)) = Ok fa'"
    by (auto simp: fa_AddDamage_def Let_def bind_ok_Ok)
  have "fa2 = fa1 \<or> (currentFight fa1 = None \<and> startTeamFight wa (VictimID t) secs fa1 = Ok fa2)"
    using st starts_fight_current by (cases "starts_fight t fa1") auto
  moreover have "fa' = fa2 \<or> (\<exists>b tf. currentFight fa2 = Some tf \<and> fa' = set_fight (damage_fight (faParticipant fa2) b t tf) fa2)"
    using fa' by (cases "currentFight fa2") auto
  ultimately show thesis by (rule that [OF tr])
qed

lemma AddDeath_split:
  assumes "fa_AddDeath wa secs v fa = Ok fa'"
  obtains fa1 fa2 where "fa1 = fa \<or> (currentFight fa = None \<and> startTeamFight wa v secs fa = Ok fa1)"
    and "fa2 = fa1 \<or> (\<exists>tf. currentFight fa1 = Some tf \<and> fa2 = set_fight (death_fight (faParticipant fa1) v tf) fa1)"
    and "fa' = fa2\<lparr>RecentStates := on_last (updateDeath secs v) (RecentStates fa2)\<rparr>"
proof -
  from assms obtain fa1 where st: "(if currentFight fa = None then startTeamFight wa v secs fa else Ok fa) = Ok fa1"
    and fa': "fa' = (case currentFight fa1 of None \<Rightarrow> fa1
        | Some tf \<Rightarrow> set_fight (death_fight (faParticipant fa1) v tf) fa1)\<lparr>RecentStates := on_last (updateDeath secs v)
          (RecentStates (case currentFight fa1 of None \<Rightarrow> fa1
             | Some tf \<Rightarrow> set_fight (death_fight (faParticipant fa1) v tf) fa1))\<rparr>"
    by (auto simp: fa_AddDeath_def Let_def bind_ok_Ok)
  have "fa1 = fa \<or> (currentFight fa = None \<and> startTeamFight wa v secs fa = Ok fa1)"
    using st by (cases "currentFight fa") auto
  with fa' show thesis by (cases "currentFight fa1") (auto intro: that)
qed

lemma one_current_step:
  assumes "fight_step wa secs e fa = Ok fa'" and "one_current fa"
  shows "one_current fa'"
proof (cases e)
  case (DamageF t)
  then have "fa_AddDamage wa secs t fa = Ok fa'" using assms(1) by simp
  then obtain fa1 fa2 where tr: "track_damage secs t fa = Ok fa1"
    and fa2: "fa2 = fa1 \<or> (currentFight fa1 = None \<and> startTeamFight wa (VictimID t) secs fa1 = Ok fa2)"
    and fa': "fa' = fa2 \<or> (\<exists>b tf. currentFight fa2 = Some tf \<and> fa' = set_fight (damage_fight (faParticipant fa2) b t tf) fa2)"
    by (rule AddDamage_split)
  have "one_current fa1" using one_current_same [OF track_damage_same [OF tr]] assms(2) by simp
  with fa2 one_current_start have "one_current fa2" by blast
  with fa' one_current_set show ?thesis by blast
next
  case (UpdateF t)
  with assms show ?thesis
    by (auto simp: fa_AddStateUpdate_def Let_def bind_ok_Ok nil_panic_def set_fight_def one_current_def split: option.splits)
next
  case (DeathF v)
  then have "fa_AddDeath wa secs v fa = Ok fa'" using assms(1) by simp
  then obtain fa1 fa2 where fa1: "fa1 = fa \<or> (currentFight fa = None \<and> startTeamFight wa v secs fa = Ok fa1)"
    and fa2: "fa2 = fa1 \<or> (\<exists>tf. currentFight fa1 = Some tf \<and> fa2 = set_fight (death_fight (faParticipant fa1) v tf) fa1)"
    and fa': "fa' = fa2\<lparr>RecentStates := on_last (updateDeath secs v) (RecentStates fa2)\<rparr>"
    by (rule AddDeath_split)
  have "one_current fa1" using fa1 one_current_start assms(2) by blast
  with fa2 one_current_set have "one_current fa2" by blast
  with fa' show ?thesis by (simp add: one_current_def)
qed (use assms in \<open>auto simp: fa_AddLevelUp_def fa_AddAttack_def fa_AddTurretKill_def one_current_def split: if_splits option.splits\<close>)


subsection \<open>Runs without a panic\<close>

text \<open>
  A state in which all ten participants have been seen. The code takes ten keys of \<open>ChampPositions\<close>
  for this, but a new state has ten keys from the start.
\<close>

definition good_state :: "aug_state \<Rightarrow> bool" where
  "good_state st \<longleftrightarrow> (\<forall>i \<in> {1..10}. pos_of st i \<noteq> None \<and> SpellsAvailable st i \<noteq> None)
     \<and> length (ChampPositions st) = 10 \<and> 0 \<le> stSeconds st \<and> stSeconds st < 99999"

definition good_fights :: "fight_analysis \<Rightarrow> bool" where
  "good_fights fa \<longleftrightarrow> RecentStates fa \<noteq> [] \<and> (\<forall>st \<in> set (RecentStates fa). good_state st)
     \<and> (\<forall>i \<in> {1..10}. ContDamage fa i \<noteq> None \<and> ContAttack fa i \<noteq> None)
     \<and> (\<forall>i cd. ContDamage fa i = Some cd \<longrightarrow> 0 \<le> StartTime cd \<and> StartTime cd < 99999)
     \<and> (\<forall>tf \<in> set (TeamFights fa). set (ParticipantIDs tf) \<subseteq> {1..10}) \<and> faParticipant fa \<in> {1..10}"

primrec valid_event :: "fight_event \<Rightarrow> bool" where
  "valid_event (DamageF t) = (VictimID t \<in> {1..10})"
| "valid_event (UpdateF t) = (suParticipantID t \<in> {1..10})"
| "valid_event (DeathF v) = (v \<in> {1..10})"
| "valid_event (LevelUpF p) = True"
| "valid_event (AttackF t) = (aAttackerID t \<in> {1..10} \<or> Slot t \<notin> {''Summoner1'', ''Summoner2''})"
| "valid_event (TurretF b) = True"

lemma closest_loop_Some: "closest_loop t es c (Some i) \<noteq> None"
  by (induction es arbitrary: c i) (auto split: if_splits)

lemma closest_loop_range: "closest_loop t es c p = Some i \<Longrightarrow> p = Some i \<or> i \<in> fst ` set es"
proof (induction es arbitrary: c p)
  case (Cons x es)
  obtain j st where "x = (j, st)" by fastforce
  with Cons.prems Cons.IH [of c p] Cons.IH [of "\<bar>t - stSeconds st\<bar>" "Some j"] show ?case
    by (auto split: if_splits)
qed simp

lemma findClosest_range: "findClosest t states = Some i \<Longrightarrow> i < length states"
  by (auto simp: findClosest_def enumerate_eq_zip dest!: closest_loop_range set_zip_leftD)

lemma findClosest_ok:
  assumes "states \<noteq> []" and "\<forall>st \<in> set states. good_state st" and "0 \<le> t" and "t < 99999"
  shows "\<exists>i < length states. findClosest t states = Some i"
proof -
  obtain xs x where s: "states = xs @ [x]" using assms(1) by (cases states rule: rev_cases) auto
  with assms(2) have "good_state x" by simp
  then have "findClosest t states = closest_loop t (rev (List.enumerate 0 xs)) \<bar>t - stSeconds x\<bar> (Some (length xs))"
    using assms(3,4) by (simp add: s findClosest_def enumerate_append_eq good_state_def abs_less_iff)
  then obtain i where "findClosest t states = Some i" using closest_loop_Some by (metis option.exhaust)
  then show ?thesis using findClosest_range by blast
qed

lemma good_pos: "good_state st \<Longrightarrow> i \<in> {1..10} \<Longrightarrow> \<exists>p. pos_of st i = Some p"
  unfolding good_state_def by blast

lemma closer_ok: "good_state st \<Longrightarrow> i \<in> {1..10} \<Longrightarrow> j \<in> {1..10} \<Longrightarrow> is_ok (isCloserThan st i j d)"
  using good_pos [of st i] good_pos [of st j] by (auto simp: isCloserThan_def)

lemma vision_ok:
  assumes "\<forall>st \<in> set sts. good_state st" and "p \<in> {1..10}"
  shows "is_ok (vision_loop wa p t sts)"
  using assms(1)
proof (induction sts)
  case (Cons st sts)
  then have st: "good_state st" by simp
  then obtain q where "pos_of st p = Some q" using good_pos assms(2) by blast
  then have "is_ok (state_sees wa p st)"
    using closer_ok [OF st _ assms(2), of _ 1200]
    by (auto simp: state_sees_def intro!: is_ok_bind any_ok_total)
  with Cons show ?case by (auto intro: is_ok_bind)
qed simp

lemma build_ok:
  assumes "good_fights fa" and "set ps \<subseteq> {1..10}"
  shows "is_ok (build_fight wa fa pID d t st ps)"
proof -
  have v: "is_ok (IsInVision wa fa d p)" if "p \<in> {1..10}" for p
    using assms(1) that by (auto simp: IsInVision_def good_fights_def intro: vision_ok)
  have "is_ok (visions wa fa d qs)" if "set qs \<subseteq> {1..10}" for qs
    using that v by (auto simp: visions_def intro!: map_ok_total is_ok_bind)
  then have "is_ok (visions wa fa d (filter P ps))" for P
    using assms(2) by (meson filter_is_subset order_trans)
  then show ?thesis
    by (auto simp: build_fight_def Let_def intro!: is_ok_bind split: prod.split)
qed

lemma start_ok:
  assumes "good_fights fa" and "pID \<in> {1..10}" and "0 \<le> t" and "t < 99999"
  shows "\<exists>fa'. startTeamFight wa pID t fa = Ok fa' \<and> good_fights fa'"
proof -
  note g = assms(1)
  have states: "RecentStates fa \<noteq> []" "\<forall>st \<in> set (RecentStates fa). good_state st"
    using g by (simp_all add: good_fights_def)
  obtain cd where cd: "ContDamage fa pID = Some cd" using g assms(2) unfolding good_fights_def by blast
  then have "0 \<le> StartTime cd" "StartTime cd < 99999" using g by (simp_all add: good_fights_def)
  with findClosest_ok [OF states] obtain j where j: "findClosest (StartTime cd) (RecentStates fa) = Some j"
    by blast
  obtain i where i: "findClosest t (RecentStates fa) = Some i" "i < length (RecentStates fa)"
    using findClosest_ok [OF states assms(3,4)] by blast
  let ?st = "RecentStates fa ! i"
  have st: "good_state ?st" using states(2) i(2) by simp
  have "is_ok (isFightParticipant ?st pID (faParticipant fa))"
    using closer_ok [OF st assms(2)] g by (simp add: isFightParticipant_def good_fights_def)
  moreover have c: "is_ok (computeInitialParticipants pID ?st)"
    unfolding computeInitialParticipants_def
    by (rule filter_ok_total) (use closer_ok [OF st _ assms(2)] in \<open>auto simp: isFightParticipant_def\<close>)
  moreover have "is_ok (build_fight wa fa pID (StartTime cd) t (RecentStates fa ! j) ps)"
    if "computeInitialParticipants pID ?st = Ok ps" for ps
    using that g by (intro build_ok) (auto simp: computeInitialParticipants_def dest!: filter_ok_Ok)
  ultimately have "is_ok (startTeamFight wa pID t fa)"
    by (auto simp: startTeamFight_def Let_def cd i j intro!: is_ok_bind split: option.split)
  then obtain fa' where fa': "startTeamFight wa pID t fa = Ok fa'" by (auto simp: is_ok_def)
  then have "good_fights fa'"
  proof (cases rule: startTeamFight_cases)
    case (2 tf k)
    then have "set (ParticipantIDs tf) \<subseteq> {1..10}"
      by (auto simp: computeInitialParticipants_def dest!: filter_ok_Ok)
    then show ?thesis using g 2(1) by (simp add: good_fights_def)
  qed (use g in simp)
  with fa' show ?thesis by blast
qed

lemma set_fight_good:
  assumes "good_fights fa" and "currentFight fa = Some tf" and "ParticipantIDs tf' = ParticipantIDs tf"
  shows "good_fights (set_fight tf' fa)"
proof -
  have "tf \<in> set (TeamFights fa)" using assms(2) by (auto simp: currentFight_def split: if_splits)
  then show ?thesis
    using assms(1,3) by (auto simp: good_fights_def set_fight_def dest: in_set_butlastD)
qed

lemma damage_fight_fields [simp]:
  "ParticipantIDs (damage_fight me b t tf) = ParticipantIDs tf" "End (damage_fight me b t tf) = End tf"
  "ParticipantIDs (death_fight me v tf) = ParticipantIDs tf" "End (death_fight me v tf) = End tf"
  by (simp_all add: damage_fight_def death_fight_def Let_def)

lemma cd_Add_start: "0 \<le> StartTime cd \<and> StartTime cd < 99999 \<Longrightarrow> 0 \<le> s \<Longrightarrow> s < 99999 \<Longrightarrow>
    0 \<le> StartTime (cd_Add s p cd) \<and> StartTime (cd_Add s p cd) < 99999"
  by (simp add: cd_Add_def Let_def)

lemma good_neutral: "good_state st \<Longrightarrow> good_state (add_neutral t st)"
  by (simp add: good_state_def add_neutral_def pos_of_def)

lemma good_list_update: "\<forall>x \<in> set xs. P x \<Longrightarrow> P y \<Longrightarrow> \<forall>x \<in> set (xs[i := y]). P x"
  by (auto dest: subsetD [OF set_update_subset_insert])

lemma track_ok:
  assumes "good_fights fa" and "VictimID t \<in> {1..10}" and "0 \<le> s" and "s < 99999"
  shows "\<exists>fa'. track_damage s t fa = Ok fa' \<and> good_fights fa'"
proof -
  note g = assms(1)
  obtain cd where cd: "ContDamage fa (VictimID t) = Some cd" using g assms(2) unfolding good_fights_def by blast
  let ?fa1 = "fa\<lparr>ContDamage := (ContDamage fa)(VictimID t := Some (cd_Add s (Percent t) cd))\<rparr>"
  have start: "0 \<le> StartTime cd \<and> StartTime cd < 99999" using g cd by (simp add: good_fights_def)
  have g1: "good_fights ?fa1" using g cd_Add_start [OF start assms(3,4)] by (simp add: good_fights_def)
  show ?thesis
  proof (cases "TeamID (dAttackerID t) = 0")
    case False
    then have "dAttackerID t \<in> {1..10}" by (auto simp: TeamID_def split: if_splits)
    then obtain ca where "ContAttack fa (dAttackerID t) = Some ca" using g unfolding good_fights_def by blast
    with cd False g1 show ?thesis by (simp add: track_damage_def good_fights_def)
  next
    case True
    have states: "RecentStates fa \<noteq> []" "\<forall>st \<in> set (RecentStates fa). good_state st"
      using g by (simp_all add: good_fights_def)
    obtain i where i: "findClosest s (RecentStates fa) = Some i" "i < length (RecentStates fa)"
      using findClosest_ok [OF states assms(3,4)] by blast
    have "good_state (add_neutral t (RecentStates fa ! i))" using states(2) i(2) good_neutral by simp
    from good_list_update [OF states(2) this] cd True i(1) g1 states(1) show ?thesis
      by (simp add: track_damage_def good_fights_def)
  qed
qed

lemma end_loop_ok:
  assumes "good_fights fa" and "good_state st" and "set ps \<subseteq> {1..10}"
  shows "is_ok (fight_end_loop fa st t ps d)"
  using assms(3)
proof (induction ps arbitrary: d)
  case (Cons p ps)
  then have p: "p \<in> {1..10}" by simp
  then obtain cd where "ContDamage fa p = Some cd" using assms(1) unfolding good_fights_def by blast
  moreover obtain ca where "ContAttack fa p = Some ca" using p assms(1) unfolding good_fights_def by blast
  ultimately show ?case
    using Cons closer_ok [OF assms(2) _ p] by (auto simp: isFightChasing_def intro!: is_ok_bind any_ok_total)
qed simp

lemma pos_new: "pos_of (NewAugmentedState s (Some p)) i = (if i \<in> {1..10} then pos_of p i else None)"
proof -
  have "ChampPositions (NewAugmentedState s (Some p)) = map (\<lambda>i. (i, pos_of p i)) [1..10]"
    by (simp add: NewAugmentedState_def Let_def)
  then show ?thesis
    unfolding pos_of_def [of "NewAugmentedState s (Some p)"]
    by (auto simp: map_of_map_restrict restrict_map_def split: option.split)
qed

lemma good_new: "good_state p \<Longrightarrow> 0 \<le> s \<Longrightarrow> s < 99999 \<Longrightarrow> good_state (NewAugmentedState s (Some p))"
  by (simp add: good_state_def pos_new) (simp add: NewAugmentedState_def Let_def)

lemma updateState_fields:
  "stSeconds (updateState s t st) = stSeconds st" "SpellsAvailable (updateState s t st) = SpellsAvailable st"
  "ChampPositions (updateState s t st) = AList.update (suParticipantID t) (Some (suPosition t)) (ChampPositions st)"
  by (simp_all add: updateState_def Let_def)

lemma length_update_key: "k \<in> fst ` set m \<Longrightarrow> length (AList.update k v m) = length m"
  by (induction m) auto

lemma good_update: "good_state st \<Longrightarrow> suParticipantID t \<in> {1..10} \<Longrightarrow> good_state (updateState s t st)"
proof -
  assume g: "good_state st" and p: "suParticipantID t \<in> {1..10}"
  then have "pos_of st (suParticipantID t) \<noteq> None" by (simp add: good_state_def)
  then have "suParticipantID t \<in> fst ` set (ChampPositions st)"
    by (force simp: pos_of_def split: option.splits dest: map_of_SomeD)
  then have "length (ChampPositions (updateState s t st)) = length (ChampPositions st)"
    by (simp add: updateState_fields length_update_key)
  moreover have "pos_of (updateState s t st) i = (if i = suParticipantID t then Some (suPosition t) else pos_of st i)" for i
    by (simp add: pos_of_def updateState_fields)
  ultimately show "good_state (updateState s t st)"
    using g by (simp add: good_state_def updateState_fields)
qed

lemma good_death: "good_state st \<Longrightarrow> good_state (updateDeath s v st)"
  by (simp add: good_state_def updateDeath_def pos_of_def)

lemma on_last_all: "\<forall>x \<in> set xs. P x \<Longrightarrow> (\<And>x. P x \<Longrightarrow> P (f x)) \<Longrightarrow> \<forall>x \<in> set (on_last f xs). P x"
  by (cases xs rule: rev_cases) (auto simp: on_last_def)

lemma on_last_ne [simp]: "on_last f xs = [] \<longleftrightarrow> xs = []"
  by (simp add: on_last_def)

lemma history_good:
  assumes "states \<noteq> []" and "\<forall>st \<in> set states. good_state st" and "0 \<le> s" and "s < 99999"
  shows "updateRecentHistory s states \<noteq> [] \<and> (\<forall>st \<in> set (updateRecentHistory s states). good_state st)"
proof (cases "s - stSeconds (List.last states) < windowGranularity")
  case True
  then show ?thesis using assms by (simp add: updateRecentHistory_def)
next
  case False
  let ?n = "NewAugmentedState s (Some (List.last states))"
  have "stSeconds ?n = s" by (simp add: NewAugmentedState_def Let_def)
  then have "dropWhile (\<lambda>st. stSeconds st < s - windowSeconds) (states @ [?n]) \<noteq> []"
    by (auto simp: dropWhile_eq_Nil_conv windowSeconds_def)
  moreover have "good_state ?n" using good_new assms by simp
  then have "\<forall>st \<in> set (states @ [?n]). good_state st" using assms(2) by simp
  then have "\<forall>st \<in> set (dropWhile (\<lambda>st. stSeconds st < s - windowSeconds) (states @ [?n])). good_state st"
    using set_dropWhileD by fast
  ultimately show ?thesis
    using False assms(1) by (simp add: updateRecentHistory_def)
qed

lemma update_ok:
  assumes "good_fights fa" and "suParticipantID t \<in> {1..10}" and "0 \<le> s" and "s < 99999"
  shows "\<exists>fa'. fa_AddStateUpdate s t fa = Ok fa' \<and> good_fights fa'"
proof -
  let ?states = "on_last (updateState s t) (updateRecentHistory s (RecentStates fa))"
  define fa1 where "fa1 = fa\<lparr>RecentStates := ?states\<rparr>"
  have h: "updateRecentHistory s (RecentStates fa) \<noteq> []" "\<forall>st \<in> set (updateRecentHistory s (RecentStates fa)). good_state st"
    using history_good [of "RecentStates fa" s] assms by (simp_all add: good_fights_def)
  have states: "?states \<noteq> []" "\<forall>st \<in> set ?states. good_state st"
    using h on_last_all [OF h(2), of "updateState s t"] good_update [OF _ assms(2)] by simp_all
  with assms(1) have g1: "good_fights fa1" by (simp add: fa1_def good_fights_def)
  show ?thesis
  proof (cases "currentFight fa1")
    case None
    with g1 show ?thesis by (simp add: fa_AddStateUpdate_def fa1_def)
  next
    case (Some tf)
    obtain i where i: "findClosest s ?states = Some i" "i < length ?states"
      using findClosest_ok [OF states assms(3,4)] by blast
    have "tf \<in> set (TeamFights fa1)" using Some by (auto simp: currentFight_def split: if_splits)
    then have "set (ParticipantIDs tf) \<subseteq> {1..10}" using g1 by (simp add: good_fights_def)
    then obtain e where e: "fight_end_loop fa1 (?states ! i) s (ParticipantIDs tf) 0 = Ok e"
      using end_loop_ok [OF g1, of "?states ! i" "ParticipantIDs tf" s 0] states(2) i(2) by (auto simp: is_ok_def)
    have p: "ParticipantIDs (computeNetGoldDiff q st tf) = ParticipantIDs tf" for q st
      by (simp add: computeNetGoldDiff_def split: prod.split)
    then have "good_fights (set_fight (if e \<noteq> 0 then (computeNetGoldDiff (faParticipant fa) (?states ! i) tf)\<lparr>End := e\<rparr>
        else computeNetGoldDiff (faParticipant fa) (?states ! i) tf) fa1)"
      by (intro set_fight_good [OF g1 Some]) simp
    with Some i(1) e p show ?thesis
      by (simp add: fa_AddStateUpdate_def fa1_def Let_def)
  qed
qed

lemma death_ok:
  assumes "good_fights fa" and "v \<in> {1..10}" and "0 \<le> s" and "s < 99999"
  shows "\<exists>fa'. fa_AddDeath wa s v fa = Ok fa' \<and> good_fights fa'"
proof -
  obtain fa1 where fa1: "(if currentFight fa = None then startTeamFight wa v s fa else Ok fa) = Ok fa1" and g1: "good_fights fa1"
    using start_ok [OF assms] assms(1) by (cases "currentFight fa") auto
  define fa2 where "fa2 = (case currentFight fa1 of None \<Rightarrow> fa1
      | Some tf \<Rightarrow> set_fight (death_fight (faParticipant fa1) v tf) fa1)"
  have "good_fights fa2"
    using g1 set_fight_good [OF g1] by (cases "currentFight fa1") (simp_all add: fa2_def)
  then have "good_fights (fa2\<lparr>RecentStates := on_last (updateDeath s v) (RecentStates fa2)\<rparr>)"
    using on_last_all [of "RecentStates fa2" good_state "updateDeath s v"] good_death by (simp add: good_fights_def)
  then show ?thesis using fa1 by (simp add: fa_AddDeath_def Let_def fa2_def)
qed

lemma damage_ok:
  assumes "good_fights fa" and "VictimID t \<in> {1..10}" and "0 \<le> s" and "s < 99999"
  shows "\<exists>fa'. fa_AddDamage wa s t fa = Ok fa' \<and> good_fights fa'"
proof -
  obtain fa1 where fa1: "track_damage s t fa = Ok fa1" and g1: "good_fights fa1"
    using track_ok [OF assms] by blast
  obtain fa2 where fa2: "(if starts_fight t fa1 then startTeamFight wa (VictimID t) s fa1 else Ok fa1) = Ok fa2"
    and g2: "good_fights fa2"
    using start_ok [OF g1 assms(2-4)] g1 by (cases "starts_fight t fa1") auto
  show ?thesis
    using fa1 fa2 g2 set_fight_good [OF g2]
    by (cases "currentFight fa2") (simp_all add: fa_AddDamage_def Let_def)
qed

lemma attack_ok:
  assumes "good_fights fa" and "valid_event (AttackF t)"
  shows "\<exists>fa'. fa_AddAttack t fa = Ok fa' \<and> good_fights fa'"
proof (cases "Slot t \<in> {''Summoner1'', ''Summoner2''}")
  case True
  let ?last = "List.last (RecentStates fa)"
  have "good_state ?last" "RecentStates fa \<noteq> []" using assms(1) by (simp_all add: good_fights_def)
  moreover have "aAttackerID t \<in> {1..10}" using assms(2) True by auto
  ultimately obtain m where m: "SpellsAvailable ?last (aAttackerID t) = Some m"
    unfolding good_state_def by blast
  have "\<forall>st \<in> set (on_last (\<lambda>st. st\<lparr>SpellsAvailable := (SpellsAvailable st)(aAttackerID t := Some (AList.update (Slot t) (CooldownExpires t) m))\<rparr>)
      (RecentStates fa)). good_state st"
    using assms(1) by (intro on_last_all) (auto simp: good_fights_def good_state_def pos_of_def)
  with m True assms(1) show ?thesis
    by (simp add: fa_AddAttack_def good_fights_def)
qed (use assms in \<open>auto simp: fa_AddAttack_def\<close>)

lemma fight_step_ok:
  assumes "good_fights fa" and "valid_event e" and "0 \<le> secs" and "secs < 99999"
  shows "\<exists>fa'. fight_step wa secs e fa = Ok fa' \<and> good_fights fa'"
proof (cases e)
  case (LevelUpF p)
  have "\<forall>st \<in> set (on_last (\<lambda>st. st\<lparr>ChampLevels := (ChampLevels st)(p := ChampLevels st p + 1)\<rparr>) (RecentStates fa)). good_state st"
    using assms(1) by (intro on_last_all) (auto simp: good_fights_def good_state_def pos_of_def)
  with LevelUpF assms(1) show ?thesis by (simp add: fa_AddLevelUp_def good_fights_def)
next
  case (TurretF b)
  have "\<forall>st \<in> set (on_last (\<lambda>st. st\<lparr>LiveTurrets := (LiveTurrets st)(b := False)\<rparr>) (RecentStates fa)). good_state st"
    using assms(1) by (intro on_last_all) (auto simp: good_fights_def good_state_def pos_of_def)
  with TurretF assms(1) show ?thesis by (simp add: fa_AddTurretKill_def good_fights_def)
qed (use assms damage_ok update_ok death_ok attack_ok in auto)

text \<open>
  Once all ten participants have a position in every state of the recent history, no event about
  them can crash the analysis, and this remains so.
\<close>

theorem fights_no_panic:
  assumes "good_fights fa" and "valid_event e" and "0 \<le> secs" and "secs < 99999"
  shows "\<exists>fa'. fight_step wa secs e fa = Ok fa' \<and> good_fights fa'"
  by (rule fight_step_ok [OF assms])


text \<open>A state in which everyone stands at the same place.\<close>

definition demo_place :: position where "demo_place = \<lparr>X = 5000, Y = 9000, Z = 0\<rparr>"

definition demo_state :: aug_state where
  "demo_state =
     (NewAugmentedState 100 None)\<lparr>ChampPositions := map (\<lambda>i. (i, Some demo_place)) [1..10]\<rparr>"

definition demo_fa :: fight_analysis where
  "demo_fa = (NewTeamFightAnalysis 3 1800)\<lparr>RecentStates := [demo_state]\<rparr>"

lemma demo_fa_good: "good_fights demo_fa"
proof -
  have "pos_of demo_state i = Some demo_place" if "1 \<le> i" "i \<le> 10" for i
    using that by (simp add: pos_of_def demo_state_def map_of_map_restrict restrict_map_def)
  then show ?thesis
    by (simp add: good_fights_def demo_fa_def NewTeamFightAnalysis_def good_state_def)
      (simp add: demo_state_def NewAugmentedState_def Let_def)
qed

theorem fights_no_panic_witness:
  "\<exists>fa'. fight_step NewWardAnalysis 110 (DeathF 7) demo_fa = Ok fa' \<and> good_fights fa'"
  by (rule fights_no_panic [OF demo_fa_good]) simp_all

text \<open>A match in which two participants have been seen and a third one dies.\<close>

definition demo_ping :: "int \<Rightarrow> state_update" where
  "demo_ping p = \<lparr>Gold = 0, Health = 500, HealthMax = 600, InGrass = False, MinionsKilled = 0,
     NeutralMinionsKilled = 0, Mana = 0, ManaMax = 0, suParticipantID = p, suPosition = demo_place,
     UnderOwnTurret = False, UnderEnemyTurret = False\<rparr>"

text \<open>
  The test that all ten champions have a position counts keys, and the copy of a state has ten
  keys whatever it was copied from: a death soon after the first two updates dereferences nil.
\<close>

theorem fights_panic_early:
  "run_fights [(1, wa, UpdateF (demo_ping 3)), (2, wa, UpdateF (demo_ping 4)), (3, wa, DeathF 7)]
     (NewTeamFightAnalysis 3 1800) = Panic ''invalid memory address or nil pointer dereference''"
proof -
  have u: "[1..10::int] = [1,2,3,4,5,6,7,8,9,10]" by (simp add: upto.simps)
  show ?thesis
    by (simp add: NewTeamFightAnalysis_def fa_AddStateUpdate_def updateRecentHistory_def NewAugmentedState_def Let_def u
        on_last_def updateState_def demo_ping_def pos_of_def currentFight_def windowGranularity_def windowSeconds_def
        fa_AddDeath_def startTeamFight_def findClosest_def isFightParticipant_def isCloserThan_def nil_panic_def
        enumerate_eq_zip)
qed

end
