(* ===== verification/Ingest_Time.thy ===== *)
theory Ingest_Time
  imports Ingest_Fights
begin

text \<open>
  How a champion spends its time: \<open>lolstats-master/ingest/time_management.go\<close>, with the stages of a
  game of \<open>advanced_stats.go\<close>. The variable \<open>last\<close> of the loops, a pointer to the last frame of the
  list under construction, is the last frame of that list.
\<close>

subsection \<open>Stages\<close>

definition gameStage :: "real \<Rightarrow> string" where
  "gameStage seconds =
     (let minutes = seconds / 60 in
      if minutes \<ge> 25 then ''late'' else if minutes \<ge> 10 then ''mid'' else ''early'')"

definition stageDurationSecs :: "string \<Rightarrow> real \<Rightarrow> real" where
  "stageDurationSecs stage matchDurationSecs =
     (if stage = ''early'' then 600 else if stage = ''mid'' then 900
      else if stage = ''late'' then matchDurationSecs - 1500 else matchDurationSecs)"

subsection \<open>Frames\<close>

record frame =
  Activity :: string
  AreaName :: string
  fBegin :: real
  fEnd :: real

definition canMerge :: "frame \<Rightarrow> frame \<Rightarrow> bool" where
  "canMerge tf o' \<longleftrightarrow> Activity tf = Activity o' \<and> AreaName tf = AreaName o' \<and> \<not> fEnd tf < fBegin o' - 1"

definition truncate_frame :: "real \<Rightarrow> frame \<Rightarrow> frame" where
  "truncate_frame atSec tf = (if atSec < fEnd tf then tf\<lparr>fEnd := atSec\<rparr> else tf)"

record time_state =
  tmParticipant :: int
  tmTeam :: int
  lastAreaName :: string
  lastActivity :: string
  isDead :: bool
  frames :: "frame list"

definition NewTimeManagement :: "int \<Rightarrow> time_state" where
  "NewTimeManagement pID =
     \<lparr>tmParticipant = pID, tmTeam = TeamID pID, lastAreaName = '''', lastActivity = '''', isDead = False, frames = []\<rparr>"

definition on_last_frame :: "(frame \<Rightarrow> frame) \<Rightarrow> frame list \<Rightarrow> frame list" where
  "on_last_frame f fs = (if fs = [] then [] else butlast fs @ [f (List.last fs)])"

definition activity :: "string \<Rightarrow> real \<Rightarrow> real \<Rightarrow> time_state \<Rightarrow> time_state" where
  "activity act start duration t =
     (let fs = on_last_frame (truncate_frame start) (frames t);
          f = \<lparr>Activity = act, AreaName = lastAreaName t, fBegin = start, fEnd = start + duration\<rparr>;
          fs' = (if fs \<noteq> [] \<and> canMerge (List.last fs) f
                 then on_last_frame (\<lambda>l. l\<lparr>fEnd := fEnd f\<rparr>) fs else fs @ [f])
      in t\<lparr>frames := fs', lastActivity := act\<rparr>)"

definition area_event :: "string \<Rightarrow> real \<Rightarrow> time_state \<Rightarrow> time_state" where
  "area_event name start t =
     (if name = lastAreaName t then t
      else if name = ''base'' then t\<lparr>lastActivity := ''''\<rparr>
      else
        let fs = on_last_frame (truncate_frame start) (frames t);
            f = \<lparr>Activity = lastActivity t, AreaName = name, fBegin = start, fEnd = start\<rparr>
        in t\<lparr>frames := fs @ [f], lastAreaName := name\<rparr>)"

definition areaName :: "int \<Rightarrow> string" where
  "areaName areaID = to_lower (region_name (AreaToRegion areaID))"

subsection \<open>Events\<close>

definition tm_AddAttack :: "real \<Rightarrow> int \<Rightarrow> actor_type \<Rightarrow> time_state \<Rightarrow> time_state" where
  "tm_AddAttack sec targetID targetType t =
     (if TeamID targetID > 0 \<and> TeamID targetID \<noteq> tmTeam t then t
      else if targetType = ActorTurret then activity ''siege'' sec 5 t
      else if targetID = MonsterRiftHerald \<or> targetID = MonsterBaron then activity ''baron'' sec 5 t
      else if targetID = MonsterDragonElemental \<or> targetID = MonsterDragonElder then activity ''dragon'' sec 5 t
      else if targetType = ActorMinion \<or> targetType = '''' then activity ''farm'' sec 2 t
      else t)"

definition tm_AddDeath :: "real \<Rightarrow> time_state \<Rightarrow> time_state" where
  "tm_AddDeath sec t = (if \<not> isDead t then activity ''dead'' sec 120 (t\<lparr>isDead := True\<rparr>) else t)"

definition tm_AddDamage :: "real \<Rightarrow> int \<Rightarrow> actor_type \<Rightarrow> time_state \<Rightarrow> time_state" where
  "tm_AddDamage sec attacker attackerType t =
     (if TeamID attacker > 0 then t
      else if attacker = MonsterRiftHerald \<or> attacker = MonsterBaron then activity ''baron'' sec 5 t
      else if attacker = MonsterDragonElemental \<or> attacker = MonsterDragonElder then activity ''dragon'' sec 5 t
      else if attackerType = ActorTurret then activity ''siege'' sec 5 t
      else t)"

definition tm_AddStateUpdate :: "real \<Rightarrow> position \<Rightarrow> real \<Rightarrow> time_state \<Rightarrow> time_state" where
  "tm_AddStateUpdate sec pos health t =
     (let t1 = (if isDead t \<and> health > 0 then activity '''' sec (1 / 10) (t\<lparr>isDead := False\<rparr>) else t) in
      area_event (areaName (AreaID pos)) sec t1)"

definition tm_AddWard :: "real \<Rightarrow> time_state \<Rightarrow> time_state" where
  "tm_AddWard sec t = activity ''ward'' sec 5 t"

subsection \<open>Results\<close>

definition AllFrames :: "time_state \<Rightarrow> frame list" where
  "AllFrames t = filter (\<lambda>f. \<not> fEnd f - fBegin f < 1) (frames t)"

definition isUsefulActivity :: "string \<Rightarrow> bool" where
  "isUsefulActivity a \<longleftrightarrow>
     a \<in> set [''baron'', ''dragon'', ''farm'', ''fight'', ''hide'', ''siege'', ''tower'', ''ward'']"

definition UsefulPercent :: "frame list \<Rightarrow> real \<Rightarrow> (string \<times> real) list" where
  "UsefulPercent fs totalSecs =
     (let useful = fold (\<lambda>f m. if isUsefulActivity (Activity f)
            then bump (fEnd f - fBegin f) (gameStage (fBegin f)) (bump (fEnd f - fBegin f) ''all'' m) else m) fs []
      in map (\<lambda>(stage, secs). (stage, 100 * secs / stageDurationSecs stage totalSecs)) useful)"

definition isRelevant :: "team_fight \<Rightarrow> int \<Rightarrow> bool" where
  "isRelevant f pID \<longleftrightarrow> pID \<in> set (ParticipantIDs f)"

text \<open>
  The inner loop of \<open>addFighting\<close>: the fights that began before a frame. \<open>lst\<close> is the frame that
  \<open>last\<close> points to, the last one of \<open>new\<close> or, at the start, a frame of no list.
\<close>

fun add_fights ::
  "int \<Rightarrow> real \<Rightarrow> team_fight list \<Rightarrow> frame list \<Rightarrow> frame \<Rightarrow> team_fight list \<times> frame list \<times> frame"
where
  "add_fights pID begin [] new lst = ([], new, lst)"
| "add_fights pID begin (f # fights) new lst =
     (if \<not> Begin f \<le> begin then (f # fights, new, lst)
      else if \<not> isRelevant f pID then add_fights pID begin fights new lst
      else
        let lst' = (if fEnd lst > Begin f then lst\<lparr>fEnd := Begin f\<rparr> else lst);
            fr = \<lparr>Activity = ''fight'', AreaName = AreaName lst', fBegin = Begin f, fEnd = End f\<rparr>
        in add_fights pID begin fights (on_last_frame (\<lambda>_. lst') new @ [fr]) fr)"

fun fighting_loop :: "int \<Rightarrow> frame list \<Rightarrow> team_fight list \<Rightarrow> frame list \<Rightarrow> frame \<Rightarrow> frame list" where
  "fighting_loop pID [] fights new lst = new"
| "fighting_loop pID (fr # frs) fights new lst =
     (case add_fights pID (fBegin fr) fights new lst of (fights1, new1, lst1) \<Rightarrow>
        if Activity fr = ''dead'' then
          fighting_loop pID frs fights1 (on_last_frame (\<lambda>_. truncate_frame (fBegin fr) lst1) new1 @ [fr]) fr
        else if fBegin fr < fEnd lst1 then fighting_loop pID frs fights1 new1 lst1
        else fighting_loop pID frs fights1 (new1 @ [fr]) fr)"

definition addFighting :: "team_fight list \<Rightarrow> time_state \<Rightarrow> time_state" where
  "addFighting fights t =
     t\<lparr>frames := fighting_loop (tmParticipant t) (frames t) fights []
        \<lparr>Activity = '''', AreaName = ''base'', fBegin = 0, fEnd = 0\<rparr>\<rparr>"

fun roaming_loop :: "frame list \<Rightarrow> frame option \<Rightarrow> frame list" where
  "roaming_loop [] lst = []"
| "roaming_loop (fr # frs) lst =
     (case lst of
        Some l \<Rightarrow>
          if AreaName l = ''jungle'' \<and> AreaName fr = ''jungle'' \<and> fBegin fr - fEnd l > 8
          then [\<lparr>Activity = ''roam'', AreaName = ''jungle'', fBegin = fEnd l + 3, fEnd = fBegin fr - 3\<rparr>] else []
      | None \<Rightarrow> []) @ fr # roaming_loop frs (Some fr)"

definition addRoaming :: "time_state \<Rightarrow> time_state" where
  "addRoaming t = t\<lparr>frames := roaming_loop (frames t) None\<rparr>"

definition AddSupplemental :: "team_fight list \<Rightarrow> time_state \<Rightarrow> time_state" where
  "AddSupplemental fights t = addRoaming (addFighting fights t)"

subsection \<open>The events of a match, in order\<close>

datatype tm_event =
    TmAttack real int actor_type
  | TmDeath real
  | TmDamage real int actor_type
  | TmState real position real
  | TmWard real

fun tm_time :: "tm_event \<Rightarrow> real" where
  "tm_time (TmAttack s _ _) = s"
| "tm_time (TmDeath s) = s"
| "tm_time (TmDamage s _ _) = s"
| "tm_time (TmState s _ _) = s"
| "tm_time (TmWard s) = s"

fun tm_step :: "tm_event \<Rightarrow> time_state \<Rightarrow> time_state" where
  "tm_step (TmAttack s i ty) t = tm_AddAttack s i ty t"
| "tm_step (TmDeath s) t = tm_AddDeath s t"
| "tm_step (TmDamage s i ty) t = tm_AddDamage s i ty t"
| "tm_step (TmState s p h) t = tm_AddStateUpdate s p h t"
| "tm_step (TmWard s) t = tm_AddWard s t"

subsection \<open>Frames do not overlap\<close>

definition tidy :: "frame list \<Rightarrow> bool" where
  "tidy fs \<longleftrightarrow> sorted_wrt (\<lambda>a b. fEnd a \<le> fBegin b) fs \<and> (\<forall>f \<in> set fs. fBegin f \<le> fEnd f)"

definition begun :: "real \<Rightarrow> frame list \<Rightarrow> bool" where
  "begun s fs \<longleftrightarrow> tidy fs \<and> (\<forall>f \<in> set fs. fBegin f \<le> s)"

lemma on_last_frame_snoc [simp]: "on_last_frame g (fs @ [x]) = fs @ [g x]"
  by (simp add: on_last_frame_def)

lemma on_last_frame_Nil [simp]: "on_last_frame g [] = []"
  by (simp add: on_last_frame_def)

lemma tidy_Nil [simp]: "tidy []"
  by (simp add: tidy_def)

lemma tidy_snoc: "tidy (fs @ [x]) \<longleftrightarrow> tidy fs \<and> (\<forall>f \<in> set fs. fEnd f \<le> fBegin x) \<and> fBegin x \<le> fEnd x"
  by (auto simp: tidy_def sorted_wrt_append)

lemma tidy_snoc2: "tidy (fs @ [x, y]) \<longleftrightarrow> tidy (fs @ [x]) \<and> (\<forall>f \<in> set (fs @ [x]). fEnd f \<le> fBegin y) \<and> fBegin y \<le> fEnd y"
  using tidy_snoc [of "fs @ [x]" y] by simp

lemma tidy_Cons: "tidy (x # fs) \<longleftrightarrow> tidy fs \<and> (\<forall>f \<in> set fs. fEnd x \<le> fBegin f) \<and> fBegin x \<le> fEnd x"
  by (auto simp: tidy_def)

lemma tidy_filter: "tidy fs \<Longrightarrow> tidy (filter P fs)"
  by (auto simp: tidy_def sorted_wrt_filter)

lemma truncate_frame_simps [simp]:
  "fBegin (truncate_frame s f) = fBegin f" "fEnd (truncate_frame s f) = min s (fEnd f)"
  "Activity (truncate_frame s f) = Activity f" "AreaName (truncate_frame s f) = AreaName f"
  by (simp_all add: truncate_frame_def)

lemma tidy_close:
  assumes "tidy (fs @ [x])" and "fBegin x \<le> s"
  shows "tidy (fs @ [truncate_frame s x])" "\<forall>f \<in> set (fs @ [truncate_frame s x]). fEnd f \<le> s"
  using assms by (auto simp: tidy_snoc)

lemma begun_activity:
  assumes "begun s0 (frames t)" "s0 \<le> s" "0 \<le> d"
  shows "begun s (frames (activity a s d t))"
proof (cases "frames t" rule: rev_cases)
  case Nil
  then show ?thesis using assms by (simp add: activity_def begun_def tidy_def Let_def)
next
  case (snoc fs x)
  have "tidy (fs @ [x])" "fBegin x \<le> s" "\<forall>f \<in> set fs. fBegin f \<le> s" using assms snoc by (auto simp: begun_def)
  note c = tidy_close [OF this(1,2)] this
  show ?thesis using c assms(3) snoc
    by (auto simp: activity_def begun_def Let_def tidy_snoc tidy_snoc2)
qed

lemma begun_area:
  assumes "begun s0 (frames t)" "s0 \<le> s"
  shows "begun s (frames (area_event n s t))"
proof (cases "frames t" rule: rev_cases)
  case Nil
  then show ?thesis using assms by (simp add: area_event_def begun_def tidy_def Let_def)
next
  case (snoc fs x)
  have "tidy (fs @ [x])" "fBegin x \<le> s" "\<forall>f \<in> set fs. fBegin f \<le> s" using assms snoc by (auto simp: begun_def)
  note c = tidy_close [OF this(1,2)] this
  show ?thesis using c snoc
    by (auto simp: area_event_def begun_def Let_def tidy_snoc tidy_snoc2)
qed

lemma begun_later: "begun s0 fs \<Longrightarrow> s0 \<le> s \<Longrightarrow> begun s fs"
  by (force simp: begun_def)

lemma begun_step:
  assumes "begun s0 (frames t)" "s0 \<le> tm_time e"
  shows "begun (tm_time e) (frames (tm_step e t))"
proof -
  note a = begun_activity [OF assms] begun_later [OF assms]
  have b: "begun (tm_time e) (frames (area_event n (tm_time e) t'))"
    if "begun (tm_time e) (frames t')" for n t' using begun_area [OF that] by simp
  show ?thesis
  proof (cases e)
    case (TmAttack s i ty)
    then show ?thesis using a by (simp add: tm_AddAttack_def)
  next
    case (TmDeath s)
    then show ?thesis using assms begun_later [OF assms] begun_activity [of s0 "t\<lparr>isDead := True\<rparr>" s 120]
      by (simp add: tm_AddDeath_def)
  next
    case (TmDamage s i ty)
    then show ?thesis using a by (simp add: tm_AddDamage_def)
  next
    case (TmState s p h)
    then show ?thesis using assms b a(2) begun_activity [of s0 "t\<lparr>isDead := False\<rparr>" s "1/10"]
      by (simp add: tm_AddStateUpdate_def Let_def)
  next
    case (TmWard s)
    then show ?thesis using a by (simp add: tm_AddWard_def)
  qed
qed

lemma begun_events:
  assumes "begun s0 (frames t)" "sorted (s0 # map tm_time es)"
  shows "tidy (frames (fold tm_step es t))"
  using assms
proof (induction es arbitrary: s0 t)
  case Nil
  then show ?case by (simp add: begun_def)
next
  case (Cons e es)
  then show ?case using begun_step [of s0 t e] by simp
qed

subsection \<open>Fights and roaming keep the frames apart\<close>

definition fights_ordered :: "team_fight list \<Rightarrow> bool" where
  "fights_ordered fights \<longleftrightarrow> sorted (map Begin fights) \<and> (\<forall>f \<in> set fights. Begin f \<le> End f)"

text \<open>
  The list under construction ends with the frame that \<open>last\<close> points to, which began no later than any
  fight or frame that is still to be added.
\<close>

definition building :: "frame list \<Rightarrow> frame \<Rightarrow> bool" where
  "building new lst \<longleftrightarrow> tidy new \<and> (new \<noteq> [] \<longrightarrow> List.last new = lst)"

definition not_before :: "frame list \<Rightarrow> real \<Rightarrow> frame \<Rightarrow> bool" where
  "not_before new s lst \<longleftrightarrow> (new \<noteq> [] \<longrightarrow> fBegin lst \<le> s)"

lemma building_append:
  assumes "building new lst" "not_before new (fBegin fr) lst" "fBegin fr \<le> fEnd fr"
  shows "building (on_last_frame (\<lambda>_. truncate_frame (fBegin fr) lst) new @ [fr]) fr"
proof (cases new rule: rev_cases)
  case Nil
  then show ?thesis using assms by (simp add: building_def tidy_def)
next
  case (snoc fs x)
  then have "x = lst" "tidy (fs @ [lst])" "fBegin lst \<le> fBegin fr" using assms by (auto simp: building_def not_before_def)
  then show ?thesis using tidy_close [of fs lst "fBegin fr"] assms(3) snoc
    by (simp add: building_def tidy_snoc2)
qed

lemma fights_ordered_Cons:
  "fights_ordered (f # fights) \<longleftrightarrow>
     fights_ordered fights \<and> (\<forall>g \<in> set fights. Begin f \<le> Begin g) \<and> Begin f \<le> End f"
  by (auto simp: fights_ordered_def)

lemma add_fights_building:
  assumes "building new lst" "fights_ordered fights" "not_before new s lst"
      and "\<forall>f \<in> set fights. not_before new (Begin f) lst"
      and "add_fights pID s fights new lst = (fights', new', lst')"
  shows "building new' lst' \<and> fights_ordered fights' \<and> not_before new' s lst' \<and> (\<forall>f \<in> set fights'. s < Begin f)"
  using assms
proof (induction pID s fights new lst rule: add_fights.induct)
  case (1 pID s new lst)
  then show ?case by auto
next
  case (2 pID s f fights new lst)
  show ?case
  proof (cases "Begin f \<le> s")
    case False
    then show ?thesis using "2.prems" by (fastforce simp: fights_ordered_Cons)
  next
    case now: True
    show ?thesis
    proof (cases "isRelevant f pID")
      case False
      then show ?thesis using "2.IH"(1) "2.prems" now by (simp add: fights_ordered_Cons)
    next
      case True
      define lst' where "lst' = truncate_frame (Begin f) lst"
      define fr where "fr = \<lparr>Activity = ''fight'', AreaName = AreaName lst', fBegin = Begin f, fEnd = End f\<rparr>"
      define new1 where "new1 = on_last_frame (\<lambda>_. lst') new @ [fr]"
      have l: "lst' = (if fEnd lst > Begin f then lst\<lparr>fEnd := Begin f\<rparr> else lst)" by (simp add: lst'_def truncate_frame_def)
      have b: "building new1 fr"
        using building_append [of new lst fr] "2.prems" by (simp add: new1_def lst'_def fr_def fights_ordered_Cons)
      have r: "add_fights pID s (f # fights) new lst = add_fights pID s fights new1 fr"
        using now True l by (simp add: Let_def new1_def fr_def)
      show ?thesis
        by (rule "2.IH"(2) [OF _ _ l fr_def, folded new1_def])
          (use now True b r "2.prems" in \<open>auto simp: fights_ordered_Cons not_before_def fr_def\<close>)
    qed
  qed
qed

lemma fighting_loop_tidy:
  assumes "building new lst" "fights_ordered fights" "tidy frs"
      and "\<forall>fr \<in> set frs. not_before new (fBegin fr) lst" "\<forall>f \<in> set fights. not_before new (Begin f) lst"
  shows "tidy (fighting_loop pID frs fights new lst)"
  using assms
proof (induction frs arbitrary: fights new lst)
  case Nil
  then show ?case by (simp add: building_def)
next
  case (Cons fr frs)
  obtain fights1 new1 lst1 where a: "add_fights pID (fBegin fr) fights new lst = (fights1, new1, lst1)"
    by (metis prod_cases3)
  have nb: "not_before new (fBegin fr) lst" and fr: "fBegin fr \<le> fEnd fr" and t: "tidy frs"
    and later: "\<forall>f \<in> set frs. fBegin fr \<le> fBegin f"
    using Cons.prems by (force simp: tidy_Cons)+
  have s: "building new1 lst1" "fights_ordered fights1" "not_before new1 (fBegin fr) lst1"
      "\<forall>f \<in> set fights1. fBegin fr < Begin f"
    using add_fights_building [OF Cons.prems(1,2) nb Cons.prems(5) a] by auto
  have dead: "building (on_last_frame (\<lambda>_. truncate_frame (fBegin fr) lst1) new1 @ [fr]) fr"
    by (rule building_append [OF s(1,3) fr])
  have tr: "truncate_frame (fBegin fr) lst1 = lst1" if "fEnd lst1 \<le> fBegin fr" using that by (simp add: truncate_frame_def)
  have same: "on_last_frame (\<lambda>_. lst1) new1 = new1" using s(1) by (cases new1 rule: rev_cases) (auto simp: building_def)
  have app: "building (new1 @ [fr]) fr" if "fEnd lst1 \<le> fBegin fr" using dead that by (simp add: tr same)
  show ?case
  proof (cases "Activity fr \<noteq> ''dead'' \<and> fBegin fr < fEnd lst1")
    case True
    have "tidy (fighting_loop pID frs fights1 new1 lst1)"
      by (rule Cons.IH [OF s(1,2) t]) (use s(3,4) later in \<open>force simp: not_before_def\<close>)+
    then show ?thesis using True by (simp add: a)
  next
    case False
    have nb': "not_before new' (fBegin f) fr" "not_before new' (Begin g) fr" if "f \<in> set frs" "g \<in> set fights1" for new' f g
      using that later s(4) by (auto simp: not_before_def less_imp_le)
    show ?thesis using False Cons.IH [OF dead s(2) t] Cons.IH [OF app s(2) t] later s(4)
      by (auto simp: a not_before_def less_imp_le)
  qed
qed

lemma addFighting_tidy:
  "tidy (frames t) \<Longrightarrow> fights_ordered fights \<Longrightarrow> tidy (frames (addFighting fights t))"
  by (auto simp: addFighting_def building_def not_before_def intro!: fighting_loop_tidy)

lemma roaming_loop_begin: "f \<in> set (roaming_loop fs (Some l)) \<Longrightarrow> tidy (l # fs) \<Longrightarrow> fEnd l \<le> fBegin f"
proof (induction fs arbitrary: l)
  case (Cons x fs)
  then have "tidy (x # fs)" "fEnd l \<le> fBegin x" "fBegin x \<le> fEnd x" by (auto simp: tidy_Cons)
  then show ?case using Cons.IH [of x] Cons.prems(1) by (auto split: if_splits)
qed simp

lemma roaming_loop_tidy: "tidy (l # fs) \<Longrightarrow> tidy (roaming_loop fs (Some l))"
proof (induction fs arbitrary: l)
  case (Cons x fs)
  then have x: "tidy (x # fs)" "fEnd l \<le> fBegin x" "fBegin x \<le> fEnd x" by (auto simp: tidy_Cons)
  have "tidy (x # roaming_loop fs (Some x))"
    using Cons.IH [OF x(1)] roaming_loop_begin [OF _ x(1)] x(3) by (auto simp: tidy_Cons)
  then show ?case using roaming_loop_begin [OF _ x(1)] x(2,3) by (force simp: tidy_Cons)
qed simp

lemma addRoaming_tidy: "tidy (frames t) \<Longrightarrow> tidy (frames (addRoaming t))"
proof (cases "frames t")
  case (Cons x fs)
  assume "tidy (frames t)"
  then show ?thesis using Cons roaming_loop_tidy [of x fs] roaming_loop_begin [of _ fs x]
    by (auto simp: addRoaming_def tidy_Cons)
qed (simp add: addRoaming_def)

subsection \<open>What merging the fights keeps\<close>

definition starts :: "string \<Rightarrow> frame list \<Rightarrow> real list" where
  "starts a fs = map fBegin (filter (\<lambda>f. Activity f = a) fs)"

definition begun_fights :: "int \<Rightarrow> real \<Rightarrow> team_fight list \<Rightarrow> real list" where
  "begun_fights pID s fights = map Begin (filter (\<lambda>f. isRelevant f pID \<and> Begin f \<le> s) fights)"

definition consumed :: "int \<Rightarrow> real \<Rightarrow> team_fight list \<Rightarrow> team_fight list \<Rightarrow> bool" where
  "consumed pID s fights fights' \<longleftrightarrow>
     (\<forall>s' \<ge> s. begun_fights pID s' fights = begun_fights pID s fights @ begun_fights pID s' fights')"

lemma consumedD: "consumed pID s fights fights' \<Longrightarrow> s \<le> s' \<Longrightarrow>
    begun_fights pID s' fights = begun_fights pID s fights @ begun_fights pID s' fights'"
  unfolding consumed_def by blast

lemma begun_fights_Cons: "begun_fights pID s (f # fights) =
    (if isRelevant f pID \<and> Begin f \<le> s then [Begin f] else []) @ begun_fights pID s fights"
  by (simp add: begun_fights_def)

lemma consumed_Cons: "consumed pID s fights fights' \<Longrightarrow> Begin f \<le> s \<Longrightarrow> consumed pID s (f # fights) fights'"
  unfolding consumed_def
proof (intro allI impI)
  fix s'
  assume a: "\<forall>s' \<ge> s. begun_fights pID s' fights = begun_fights pID s fights @ begun_fights pID s' fights'"
    and s: "Begin f \<le> s" "s \<le> s'"
  have "begun_fights pID s' fights = begun_fights pID s fights @ begun_fights pID s' fights'" using a s(2) by blast
  then show "begun_fights pID s' (f # fights) = begun_fights pID s (f # fights) @ begun_fights pID s' fights'"
    unfolding begun_fights_Cons [of _ _ f] using s by simp
qed

lemma starts_append [simp]: "starts a (fs @ gs) = starts a fs @ starts a gs"
  by (simp add: starts_def)

lemma starts_close:
  "building new lst \<Longrightarrow> starts a (on_last_frame (\<lambda>_. truncate_frame s lst) new) = starts a new"
  by (cases new rule: rev_cases) (auto simp: building_def starts_def)

lemma add_fights_starts:
  assumes "building new lst" "fights_ordered fights" "\<forall>f \<in> set fights. not_before new (Begin f) lst"
      and "add_fights pID s fights new lst = (fights', new', lst')"
  shows "starts ''fight'' new' = starts ''fight'' new @ begun_fights pID s fights
       \<and> starts ''dead'' new' = starts ''dead'' new \<and> consumed pID s fights fights'"
  using assms
proof (induction pID s fights new lst rule: add_fights.induct)
  case (1 pID s new lst)
  then show ?case by (auto simp: begun_fights_def consumed_def)
next
  case (2 pID s f fights new lst)
  show ?case
  proof (cases "Begin f \<le> s")
    case False
    then have "begun_fights pID s (f # fights) = []" using "2.prems"(2)
      by (fastforce simp: fights_ordered_Cons begun_fights_def filter_empty_conv)
    moreover have "fights' = f # fights" "new' = new" using "2.prems"(4) False by simp_all
    ultimately show ?thesis by (simp add: consumed_def)
  next
    case now: True
    show ?thesis
    proof (cases "isRelevant f pID")
      case False
      have "starts ''fight'' new' = starts ''fight'' new @ begun_fights pID s fights
          \<and> starts ''dead'' new' = starts ''dead'' new \<and> consumed pID s fights fights'"
        by (rule "2.IH"(1)) (use "2.prems" now False in \<open>simp_all add: fights_ordered_Cons\<close>)
      then show ?thesis using False now by (simp add: begun_fights_Cons consumed_Cons)
    next
      case True
      define lst' where "lst' = truncate_frame (Begin f) lst"
      define fr where "fr = \<lparr>Activity = ''fight'', AreaName = AreaName lst', fBegin = Begin f, fEnd = End f\<rparr>"
      define new1 where "new1 = on_last_frame (\<lambda>_. lst') new @ [fr]"
      have l: "lst' = (if fEnd lst > Begin f then lst\<lparr>fEnd := Begin f\<rparr> else lst)" by (simp add: lst'_def truncate_frame_def)
      have b: "building new1 fr"
        using building_append [of new lst fr] "2.prems" by (simp add: new1_def lst'_def fr_def fights_ordered_Cons)
      have r: "add_fights pID s (f # fights) new lst = add_fights pID s fights new1 fr"
        using now True l by (simp add: Let_def new1_def fr_def)
      have "starts ''fight'' new' = starts ''fight'' new1 @ begun_fights pID s fights
          \<and> starts ''dead'' new' = starts ''dead'' new1 \<and> consumed pID s fights fights'"
        by (rule "2.IH"(2) [OF _ _ l fr_def, folded new1_def])
          (use now True b r "2.prems" in \<open>auto simp: fights_ordered_Cons not_before_def fr_def\<close>)
      moreover have "starts ''fight'' new1 = starts ''fight'' new @ [Begin f]" "starts ''dead'' new1 = starts ''dead'' new"
        using starts_close [OF "2.prems"(1)] by (auto simp: new1_def lst'_def fr_def starts_def)
      ultimately show ?thesis using now True by (simp add: begun_fights_Cons consumed_Cons)
    qed
  qed
qed

lemma fighting_loop_starts:
  assumes "building new lst" "fights_ordered fights" "tidy frs"
      and "\<forall>fr \<in> set frs. not_before new (fBegin fr) lst" "\<forall>f \<in> set fights. not_before new (Begin f) lst"
      and "\<forall>fr \<in> set frs. Activity fr \<noteq> ''fight''"
  shows "starts ''dead'' (fighting_loop pID frs fights new lst) = starts ''dead'' new @ starts ''dead'' frs
       \<and> starts ''fight'' (fighting_loop pID frs fights new lst) =
          starts ''fight'' new @ (if frs = [] then [] else begun_fights pID (fBegin (List.last frs)) fights)"
  using assms
proof (induction frs arbitrary: fights new lst)
  case Nil
  then show ?case by (simp add: starts_def)
next
  case (Cons fr frs)
  obtain fights1 new1 lst1 where a: "add_fights pID (fBegin fr) fights new lst = (fights1, new1, lst1)"
    by (metis prod_cases3)
  have nb: "not_before new (fBegin fr) lst" and fr: "fBegin fr \<le> fEnd fr" and t: "tidy frs"
    and later: "\<forall>f \<in> set frs. fBegin fr \<le> fBegin f" and act: "Activity fr \<noteq> ''fight''" "\<forall>fr \<in> set frs. Activity fr \<noteq> ''fight''"
    using Cons.prems by (force simp: tidy_Cons)+
  have s: "building new1 lst1" "fights_ordered fights1" "not_before new1 (fBegin fr) lst1"
      "\<forall>f \<in> set fights1. fBegin fr < Begin f"
    using add_fights_building [OF Cons.prems(1,2) nb Cons.prems(5) a] by auto
  note k = add_fights_starts [OF Cons.prems(1,2,5) a]
  define L where "L = (if frs = [] then fBegin fr else fBegin (List.last frs))"
  have L: "L = fBegin (List.last (fr # frs))" "fBegin fr \<le> L" using later by (auto simp: L_def)
  have none: "begun_fights pID (fBegin fr) fights1 = []"
    using s(4) by (force simp: begun_fights_def filter_empty_conv)
  have K: "begun_fights pID L fights = begun_fights pID (fBegin fr) fights
             @ (if frs = [] then [] else begun_fights pID (fBegin (List.last frs)) fights1)"
    using consumedD [OF _ L(2), of pID fights fights1] k none by (simp add: L_def)
  show ?case
  proof (cases "Activity fr \<noteq> ''dead'' \<and> fBegin fr < fEnd lst1")
    case True
    note ih = Cons.IH [OF s(1,2) t _ _ act(2)]
    have "starts ''dead'' (fighting_loop pID frs fights1 new1 lst1) = starts ''dead'' new1 @ starts ''dead'' frs
        \<and> starts ''fight'' (fighting_loop pID frs fights1 new1 lst1) =
          starts ''fight'' new1 @ (if frs = [] then [] else begun_fights pID (fBegin (List.last frs)) fights1)"
      by (rule ih) (use s(3,4) later in \<open>force simp: not_before_def\<close>)+
    moreover have "starts ''dead'' (fr # frs) = starts ''dead'' frs" using True by (simp add: starts_def)
    ultimately show ?thesis using True k K L(1) by (simp add: a)
  next
    case False
    define new2 where "new2 = on_last_frame (\<lambda>_. truncate_frame (fBegin fr) lst1) new1"
    have dead: "building (new2 @ [fr]) fr" unfolding new2_def by (rule building_append [OF s(1,3) fr])
    have new2: "starts x new2 = starts x new1" for x unfolding new2_def by (rule starts_close [OF s(1)])
    have same: "new2 = new1" if "fEnd lst1 \<le> fBegin fr"
      using that s(1) by (cases new1 rule: rev_cases) (auto simp: building_def truncate_frame_def new2_def)
    have e: "fighting_loop pID (fr # frs) fights new lst = fighting_loop pID frs fights1 (new2 @ [fr]) fr"
      using False same by (auto simp: a new2_def)
    have "starts ''dead'' (fighting_loop pID frs fights1 (new2 @ [fr]) fr) = starts ''dead'' (new2 @ [fr]) @ starts ''dead'' frs
        \<and> starts ''fight'' (fighting_loop pID frs fights1 (new2 @ [fr]) fr) =
          starts ''fight'' (new2 @ [fr]) @ (if frs = [] then [] else begun_fights pID (fBegin (List.last frs)) fights1)"
      by (rule Cons.IH [OF dead s(2) t _ _ act(2)]) (use s(4) later in \<open>auto simp: not_before_def less_imp_le\<close>)
    moreover have "starts ''fight'' [fr] = []" "starts ''dead'' (fr # frs) = starts ''dead'' [fr] @ starts ''dead'' frs"
      using act(1) by (simp_all add: starts_def)
    ultimately show ?thesis using k K L(1) new2 unfolding e by simp
  qed
qed

lemma no_fight_frames:
  fixes t :: time_state
  shows "\<forall>fr \<in> set (frames t). Activity fr \<noteq> ''fight'' \<Longrightarrow> lastActivity t \<noteq> ''fight'' \<Longrightarrow>
    (\<forall>fr \<in> set (frames (tm_step e t)). Activity fr \<noteq> ''fight'') \<and> lastActivity (tm_step e t) \<noteq> ''fight''"
proof -
  define I where "I = (\<lambda>t :: time_state. (\<forall>fr \<in> set (frames t). Activity fr \<noteq> ''fight'') \<and> lastActivity t \<noteq> ''fight'')"
  have tr: "Activity fr \<noteq> ''fight''" if "I t" "fr \<in> set (on_last_frame (truncate_frame s) (frames t))" for t s fr
    using that by (cases "frames t" rule: rev_cases) (auto simp: I_def)
  have act: "I (activity a s d t)" if "I t" "a \<noteq> ''fight''" for a s d t
  proof (cases "frames t" rule: rev_cases)
    case (snoc fs x)
    then have "Activity x \<noteq> ''fight''" "\<forall>f \<in> set fs. Activity f \<noteq> ''fight''" using that(1) by (auto simp: I_def)
    then show ?thesis using snoc that(2) by (auto simp: I_def activity_def Let_def)
  qed (use that in \<open>simp add: I_def activity_def\<close>)
  have ar: "I (area_event n s t)" if "I t" for n s t
    using tr [OF that] that by (auto simp: I_def area_event_def Let_def)
  have dead: "I (t\<lparr>isDead := b\<rparr>)" if "I t" for b t using that by (simp add: I_def)
  have "I (tm_step e t)" if "I t" using that
    by (cases e) (simp_all add: tm_AddAttack_def tm_AddDeath_def tm_AddDamage_def tm_AddStateUpdate_def
        tm_AddWard_def Let_def act ar dead)
  then show "\<forall>fr \<in> set (frames t). Activity fr \<noteq> ''fight'' \<Longrightarrow> lastActivity t \<noteq> ''fight'' \<Longrightarrow>
    (\<forall>fr \<in> set (frames (tm_step e t)). Activity fr \<noteq> ''fight'') \<and> lastActivity (tm_step e t) \<noteq> ''fight''"
    by (simp add: I_def)
qed

lemma match_frames:
  assumes "sorted (map tm_time es)"
  shows "tidy (frames (fold tm_step es (NewTimeManagement pID)))"
    and "\<forall>fr \<in> set (frames (fold tm_step es (NewTimeManagement pID))). Activity fr \<noteq> ''fight''"
proof -
  show "tidy (frames (fold tm_step es (NewTimeManagement pID)))"
  proof (cases es)
    case (Cons e es')
    then show ?thesis using assms begun_events [of "tm_time e" "NewTimeManagement pID" es]
      by (simp add: begun_def NewTimeManagement_def)
  qed (simp add: NewTimeManagement_def)
  have "(\<forall>fr \<in> set (frames (fold tm_step es t)). Activity fr \<noteq> ''fight'') \<and> lastActivity (fold tm_step es t) \<noteq> ''fight''"
    if "\<forall>fr \<in> set (frames t). Activity fr \<noteq> ''fight''" "lastActivity t \<noteq> ''fight''" for t
    using that
  proof (induction es arbitrary: t)
    case (Cons e es)
    show ?case using Cons.IH [OF conjunct1 [OF no_fight_frames] conjunct2 [OF no_fight_frames]] Cons.prems by simp
  qed simp
  from this [of "NewTimeManagement pID"]
  show "\<forall>fr \<in> set (frames (fold tm_step es (NewTimeManagement pID))). Activity fr \<noteq> ''fight''"
    by (simp add: NewTimeManagement_def)
qed

text \<open>
  C25: The frames reported for a champion are a time line: whatever happened in the match, in the order of
  time, and whatever fights (in the order in which they began) are merged in, every reported frame lasts
  at least a second and ends before the next one begins, so no second is counted for two activities.
\<close>

theorem time_frames_disjoint:
  assumes "sorted (map tm_time es)" and "fights_ordered fights"
  shows "let reported = AllFrames (AddSupplemental fights (fold tm_step es (NewTimeManagement pID))) in
         sorted_wrt (\<lambda>a b. fEnd a \<le> fBegin b) reported \<and> (\<forall>f \<in> set reported. fBegin f + 1 \<le> fEnd f)"
proof -
  define t where "t = AddSupplemental fights (fold tm_step es (NewTimeManagement pID))"
  have "tidy (frames t)"
    unfolding t_def AddSupplemental_def by (intro addRoaming_tidy addFighting_tidy match_frames assms)
  then have "tidy (AllFrames t)" by (simp add: AllFrames_def tidy_filter)
  moreover have "\<forall>f \<in> set (AllFrames t). fBegin f + 1 \<le> fEnd f" by (auto simp: AllFrames_def)
  ultimately show ?thesis by (simp add: t_def tidy_def Let_def)
qed

text \<open>
  Merging the fights in keeps every death of the champion and adds one frame for each fight the champion
  took part in that began no later than its last frame, and for no other: a fight that begins after the
  last frame is lost.
\<close>

theorem fighting_merged:
  assumes "sorted (map tm_time es)" and "fights_ordered fights"
  shows "let t = fold tm_step es (NewTimeManagement pID); fs = frames (addFighting fights t) in
         starts ''dead'' fs = starts ''dead'' (frames t) \<and>
         starts ''fight'' fs = (if frames t = [] then []
           else begun_fights (tmParticipant t) (fBegin (List.last (frames t))) fights)"
proof -
  define t where "t = fold tm_step es (NewTimeManagement pID)"
  have "building [] \<lparr>Activity = '''', AreaName = ''base'', fBegin = 0, fEnd = 0\<rparr>" by (simp add: building_def)
  from fighting_loop_starts [OF this assms(2) match_frames(1) [OF assms(1)] _ _ match_frames(2) [OF assms(1)]]
  have "starts ''dead'' (frames (addFighting fights t)) = starts ''dead'' (frames t) \<and>
      starts ''fight'' (frames (addFighting fights t)) =
        (if frames t = [] then [] else begun_fights (tmParticipant t) (fBegin (List.last (frames t))) fights)"
    by (simp add: addFighting_def t_def not_before_def starts_def)
  then show ?thesis by (simp add: t_def Let_def)
qed

definition a_fight :: "real \<Rightarrow> real \<Rightarrow> int list \<Rightarrow> team_fight" where
  "a_fight b e ps =
     \<lparr>Begin = b, End = e, ParticipantIDs = ps, InfluencerIDs = [], InitialTarget = 6, TeamKills = [], TeamDeaths = [],
      SumTeamHealthPercent = 100, SumEnemyHealthPercent = 100, ParticipantLevel = 1, EnemyLevelAverage = 1,
      TeamGoldSpent = 0, EnemyGoldSpent = 0, NeutralDamage = 0, EnemyNeutralDamage = 0, TeamSummonerSpells = 0,
      EnemySummonerSpells = 0, EnemiesInVision = [], AlliesInVision = [], TeamGoldAtStart = 0, EnemyGoldAtStart = 0,
      NetGoldDiff = 0, DeathAnalysisTags = [], KillAnalysisTags = [], DamageDealt = [], EnemyDamageTaken = []\<rparr>"

definition a_match :: "tm_event list" where
  "a_match = [TmAttack 100 0 ActorMinion, TmWard 110, TmDeath 130, TmAttack 260 0 ActorTurret]"

definition some_fights :: "team_fight list" where
  "some_fights = [a_fight 101 108 [1, 6], a_fight 125 140 [1, 6], a_fight 200 210 [2, 7], a_fight 300 310 [1, 6]]"

lemma a_match_ordered: "sorted (map tm_time a_match)" "fights_ordered some_fights"
  by (simp_all add: a_match_def some_fights_def fights_ordered_def a_fight_def)

lemma time_frames_disjoint_witness:
  "let reported = AllFrames (AddSupplemental some_fights (fold tm_step a_match (NewTimeManagement 1))) in
         sorted_wrt (\<lambda>a b. fEnd a \<le> fBegin b) reported \<and> (\<forall>f \<in> set reported. fBegin f + 1 \<le> fEnd f)"
  by (rule time_frames_disjoint [OF a_match_ordered])

lemma a_match_frames:
  "fold tm_step a_match (NewTimeManagement 1) =
     \<lparr>tmParticipant = 1, tmTeam = TeamID 1, lastAreaName = '''', lastActivity = ''siege'', isDead = True, frames =
     [\<lparr>Activity = ''farm'', AreaName = '''', fBegin = 100, fEnd = 102\<rparr>,
      \<lparr>Activity = ''ward'', AreaName = '''', fBegin = 110, fEnd = 115\<rparr>,
      \<lparr>Activity = ''dead'', AreaName = '''', fBegin = 130, fEnd = 250\<rparr>,
      \<lparr>Activity = ''siege'', AreaName = '''', fBegin = 260, fEnd = 265\<rparr>]\<rparr>"
  by (simp add: a_match_def NewTimeManagement_def tm_AddAttack_def tm_AddDeath_def tm_AddWard_def activity_def
      canMerge_def TeamID_def on_last_frame_def truncate_frame_def actor_defs Let_def
      MonsterRiftHerald_def MonsterBaron_def MonsterDragonElemental_def MonsterDragonElder_def)

lemma fighting_merged_witness:
  "let fs = frames (addFighting some_fights (fold tm_step a_match (NewTimeManagement 1))) in
         starts ''dead'' fs = [130] \<and> starts ''fight'' fs = [101, 125]"
  using fighting_merged [OF a_match_ordered, of 1] unfolding a_match_frames
  by (simp add: Let_def some_fights_def a_fight_def begun_fights_def isRelevant_def starts_def)

end
