(* ===== verification/Ingest_Roles.thy ===== *)
theory Ingest_Roles
  imports Baseview
begin

text \<open>
  The role of each participant: the counters of \<open>lolstats-master/ingest/minion_kills.go\<close> and
  \<open>buddies.go\<close>, and \<open>CalculateRolePosition\<close> of \<open>advanced_stats.go\<close>.

  The nested maps with counters are maps keyed by the whole path. Their order is the order in which
  the code ranges over them, which is any order in Go: the results on roles are about all of them.
\<close>

subsection \<open>Minions\<close>

record minion_tracker =
  MinionInteractions :: "((int \<times> int \<times> region) \<times> int) list"
  JungleMinionInteractions :: "((int \<times> int) \<times> int) list"
  LastChampLevel :: "(int \<times> int) list"

definition NewMinionStatTracker :: minion_tracker where
  "NewMinionStatTracker =
     \<lparr>MinionInteractions = [], JungleMinionInteractions = [], LastChampLevel = map (\<lambda>i. (i, 1)) [1..10]\<rparr>"

definition addJungleMinionInteraction :: "int \<Rightarrow> int \<Rightarrow> minion_tracker \<Rightarrow> minion_tracker" where
  "addJungleMinionInteraction pID candidateID mkt =
     (let team = TeamID pID in
      if team \<noteq> BlueTeam \<and> team \<noteq> RedTeam then mkt
      else if \<not> IsJungleMinion candidateID then mkt
      else mkt\<lparr>JungleMinionInteractions :=
        bump 1 (pID, get0 (LastChampLevel mkt) pID) (JungleMinionInteractions mkt)\<rparr>)"

definition addLaneMinionInteraction ::
  "int \<Rightarrow> actor_type \<Rightarrow> position option \<Rightarrow> minion_tracker \<Rightarrow> minion_tracker"
where
  "addLaneMinionInteraction pID candidateType pos mkt =
     (let team = TeamID pID in
      if team \<noteq> BlueTeam \<and> team \<noteq> RedTeam then mkt
      else case pos of
        None \<Rightarrow> mkt
      | Some p \<Rightarrow>
          if candidateType \<noteq> ActorMinion then mkt
          else mkt\<lparr>MinionInteractions :=
            bump 1 (pID, get0 (LastChampLevel mkt) pID, AreaToRegion (AreaID p)) (MinionInteractions mkt)\<rparr>)"

definition mkt_AddAttack :: "attack \<Rightarrow> minion_tracker \<Rightarrow> minion_tracker" where
  "mkt_AddAttack t mkt =
     addLaneMinionInteraction (aAttackerID t) (TargetType t) (TargetPosition t)
       (addJungleMinionInteraction (aAttackerID t) (TargetID t) mkt)"

definition mkt_AddDamage :: "damage \<Rightarrow> minion_tracker \<Rightarrow> minion_tracker" where
  "mkt_AddDamage t mkt = addJungleMinionInteraction (VictimID t) (dAttackerID t) mkt"

definition mkt_AddLevelUp :: "int \<Rightarrow> minion_tracker \<Rightarrow> minion_tracker" where
  "mkt_AddLevelUp pID mkt = mkt\<lparr>LastChampLevel := bump 1 pID (LastChampLevel mkt)\<rparr>"

subsection \<open>Buddies\<close>

record buddy_finder =
  EarlyGameBuddyScore :: "((int \<times> int) \<times> int) list"
  LastStateUpdates :: "(int \<times> state_update) list"

definition NewBuddyFinder :: buddy_finder where
  "NewBuddyFinder = \<lparr>EarlyGameBuddyScore = [], LastStateUpdates = []\<rparr>"

definition bf_AddStateUpdate :: "real \<Rightarrow> state_update \<Rightarrow> buddy_finder \<Rightarrow> buddy_finder" where
  "bf_AddStateUpdate secs t bf =
     (if secs < 100 \<or> secs > 600 then bf
      else
        let p = suParticipantID t;
            bf1 = bf\<lparr>LastStateUpdates := AList.update p t (LastStateUpdates bf)\<rparr> in
        if length (LastStateUpdates bf1) \<noteq> 10 then bf1
        else bf1\<lparr>EarlyGameBuddyScore :=
          fold (\<lambda>(k, v) score.
              if k = p \<or> TeamID k \<noteq> TeamID p then score
              else if DistanceXY (suPosition t) (suPosition v) < 2000 then bump 1 (p, k) score
              else score)
            (LastStateUpdates bf1) (EarlyGameBuddyScore bf1)\<rparr>)"

subsection \<open>Roles\<close>

datatype role = RoleTop | RoleJungle | RoleMid | RoleAdc | RoleSupport

type_synonym roles = "(int \<times> role) list"

definition BuddyFor :: "int \<Rightarrow> roles \<Rightarrow> buddy_finder \<Rightarrow> int" where
  "BuddyFor pID assignedRoles bf =
     snd (fold (\<lambda>((p, k), v) (highestScore, bestMatch).
           if p \<noteq> pID \<or> map_of assignedRoles k \<noteq> None then (highestScore, bestMatch)
           else if v > highestScore then (v, k)
           else (highestScore, bestMatch))
         (EarlyGameBuddyScore bf) (0, -1))"

definition findCs :: "(int \<Rightarrow> int \<Rightarrow> bool) \<Rightarrow> (int \<Rightarrow> int) \<Rightarrow> int \<Rightarrow> roles \<Rightarrow> int" where
  "findCs compar csByPid team skip =
     fold (\<lambda>candidateP bestP.
         if map_of skip candidateP \<noteq> None then bestP
         else if TeamID candidateP \<noteq> team then bestP
         else if bestP = -1 \<or> compar (csByPid candidateP) (csByPid bestP) then candidateP
         else bestP) [1..10] (-1)"

definition cs_max :: "int \<Rightarrow> int \<Rightarrow> bool" where "cs_max a b \<longleftrightarrow> a \<ge> b"
definition cs_min :: "int \<Rightarrow> int \<Rightarrow> bool" where "cs_min a b \<longleftrightarrow> a \<le> b"

text \<open>Interactions up to level 6, with the minions of a region and with the jungle.\<close>

definition region_cs :: "region \<Rightarrow> minion_tracker \<Rightarrow> int \<Rightarrow> int" where
  "region_cs r mkt p =
     sum_list (map snd (filter (\<lambda>((q, level, r'), n). q = p \<and> level \<le> 6 \<and> r' = r) (MinionInteractions mkt)))"

definition jungle_attacks :: "minion_tracker \<Rightarrow> int \<Rightarrow> int" where
  "jungle_attacks mkt p =
     sum_list (map snd (filter (\<lambda>((q, level), n). q = p \<and> level \<le> 6) (JungleMinionInteractions mkt)))"

text \<open>The temporary role of those that did not attack in the bottom lane, and its removal.\<close>

definition fill_adc :: "(int \<Rightarrow> int) \<Rightarrow> roles \<Rightarrow> roles" where
  "fill_adc botCS roles =
     fold (\<lambda>i r. if botCS i = 0 \<and> map_of r i = None then AList.update i RoleAdc r else r) [1..10] roles"

definition drop_adc :: "roles \<Rightarrow> roles" where
  "drop_adc roles =
     fold (\<lambda>i r. if map_of r i = Some RoleAdc then AList.delete i r else r) [1..10] roles"

definition fill_top :: "roles \<Rightarrow> roles" where
  "fill_top roles =
     fold (\<lambda>i r. if map_of r i = None then AList.update i RoleTop r else r) [1..10] roles"

definition CalculateRolePosition :: "minion_tracker \<Rightarrow> buddy_finder \<Rightarrow> roles fallible" where
  "CalculateRolePosition mkt bf =
     (let midCS = region_cs RegionMid mkt; botCS = region_cs RegionBot mkt;
          jungleAttacks = jungle_attacks mkt;
          r1 = AList.update (findCs cs_max jungleAttacks BlueTeam []) RoleJungle [];
          r2 = AList.update (findCs cs_max jungleAttacks RedTeam r1) RoleJungle r1;
          r3 = fill_adc botCS r2;
          t1Support = findCs cs_min botCS BlueTeam r3;
          t2Support = findCs cs_min botCS RedTeam r3;
          r4 = AList.update t2Support RoleSupport (AList.update t1Support RoleSupport r3);
          r5 = drop_adc r4;
          r6 = AList.update (findCs cs_max midCS BlueTeam r5) RoleMid r5;
          r7 = AList.update (findCs cs_max midCS RedTeam r6) RoleMid r6;
          r8 = AList.update (BuddyFor t1Support r7 bf) RoleAdc r7;
          r9 = AList.update (BuddyFor t2Support r8 bf) RoleAdc r8 in
      if map_of r9 (-1) \<noteq> None \<or> length r9 \<noteq> 8
      then Inl ''error in role position calculation. expected 8 roles''
      else Inr (fill_top r9))"

subsection \<open>Candidates\<close>

lemma findCs_range:
  "findCs compar cs team skip = -1
   \<or> (findCs compar cs team skip \<in> {1..10} \<and> TeamID (findCs compar cs team skip) = team
      \<and> map_of skip (findCs compar cs team skip) = None)"
  unfolding findCs_def
  by (rule fold_invariant [where Q = "\<lambda>p. p \<in> {1..10}"
        and P = "\<lambda>b. b = -1 \<or> (b \<in> {1..10} \<and> TeamID b = team \<and> map_of skip b = None)"]) auto

text \<open>Scores are between members of the same team.\<close>

definition mates :: "((int \<times> int) \<times> int) list \<Rightarrow> bool" where
  "mates m \<longleftrightarrow> (\<forall>(p, k) \<in> fst ` set m. TeamID p = TeamID k)"

definition teammates_only :: "buddy_finder \<Rightarrow> bool" where
  "teammates_only bf \<longleftrightarrow> mates (EarlyGameBuddyScore bf)"

lemma teammates_new: "teammates_only NewBuddyFinder"
  by (simp add: teammates_only_def NewBuddyFinder_def mates_def)

lemma bump_mates: "mates m \<Longrightarrow> TeamID q = TeamID l \<Longrightarrow> mates (bump d (q, l) m)"
  by (simp add: mates_def bump_keys)

lemma teammates_step:
  assumes "teammates_only bf"
  shows "teammates_only (bf_AddStateUpdate secs t bf)"
proof -
  have "mates (fold (\<lambda>(k, v) score.
              if k = suParticipantID t \<or> TeamID k \<noteq> TeamID (suParticipantID t) then score
              else if DistanceXY (suPosition t) (suPosition v) < 2000 then bump 1 (suParticipantID t, k) score
              else score) us m)" if "mates m" for us :: "(int \<times> state_update) list" and m
    by (rule fold_invariant [where Q = "\<lambda>_. True" and P = mates])
      (simp_all add: that bump_mates split: prod.split)
  with assms show ?thesis
    by (simp add: teammates_only_def bf_AddStateUpdate_def Let_def)
qed

lemma BuddyFor_range:
  "BuddyFor pID roles bf = -1
   \<or> (\<exists>v. ((pID, BuddyFor pID roles bf), v) \<in> set (EarlyGameBuddyScore bf) \<and> map_of roles (BuddyFor pID roles bf) = None)"
proof -
  let ?P = "\<lambda>hb :: int \<times> int. snd hb = -1
      \<or> (\<exists>v. ((pID, snd hb), v) \<in> set (EarlyGameBuddyScore bf) \<and> map_of roles (snd hb) = None)"
  show ?thesis
    unfolding BuddyFor_def
    by (rule fold_invariant [where Q = "\<lambda>x. x \<in> set (EarlyGameBuddyScore bf)" and P = ?P])
      (auto split: prod.split)
qed

subsection \<open>One player per role\<close>

lemma fold_fill_lookup:
  "distinct is \<Longrightarrow> map_of (fold (\<lambda>i r. if Q i \<and> map_of r i = None then AList.update i c r else r) is roles) p
     = (if p \<in> set is \<and> Q p \<and> map_of roles p = None then Some c else map_of roles p)"
  by (induction "is" arbitrary: roles) auto

lemma fold_drop_lookup:
  "distinct is \<Longrightarrow> map_of (fold (\<lambda>i r. if map_of r i = Some c then AList.delete i r else r) is roles) p
     = (if p \<in> set is \<and> map_of roles p = Some c then None else map_of roles p)"
  by (induction "is" arbitrary: roles) auto

lemma fill_adc_lookup:
  "map_of (fill_adc botCS roles) p
     = (if p \<in> {1..10} \<and> botCS p = 0 \<and> map_of roles p = None then Some RoleAdc else map_of roles p)"
  by (simp add: fill_adc_def fold_fill_lookup)

lemma drop_adc_lookup:
  "map_of (drop_adc roles) p
     = (if p \<in> {1..10} \<and> map_of roles p = Some RoleAdc then None else map_of roles p)"
  by (simp add: drop_adc_def fold_drop_lookup)

lemma fill_top_lookup:
  "map_of (fill_top roles) p
     = (if p \<in> {1..10} \<and> map_of roles p = None then Some RoleTop else map_of roles p)"
  using fold_fill_lookup [of "[1..10]" "\<lambda>_. True" RoleTop roles p] by (simp add: fill_top_def)

lemma fill_adc_distinct: "distinct (map fst r) \<Longrightarrow> distinct (map fst (fill_adc b r))"
  unfolding fill_adc_def
  by (rule fold_invariant [where Q = "\<lambda>_. True"]) (simp_all add: distinct_update)

lemma drop_adc_distinct: "distinct (map fst r) \<Longrightarrow> distinct (map fst (drop_adc r))"
  unfolding drop_adc_def
  by (rule fold_invariant [where Q = "\<lambda>_. True"]) (simp_all add: distinct_delete)

text \<open>Filling in and dropping the temporary role leaves nothing but the supports.\<close>

lemma temporary_adc:
  assumes "t1 = -1 \<or> map_of (fill_adc botCS r) t1 = None" and "t2 = -1 \<or> map_of (fill_adc botCS r) t2 = None"
    and "\<forall>p. map_of r p \<noteq> Some RoleAdc"
  shows "map_of (drop_adc (AList.update t2 RoleSupport (AList.update t1 RoleSupport (fill_adc botCS r))))
     = (map_of r)(t1 \<mapsto> RoleSupport, t2 \<mapsto> RoleSupport)"
  using assms by (auto simp: fun_eq_iff drop_adc_lookup fill_adc_lookup split: if_splits)

text \<open>A team of five in which four have different roles: the fifth is the top.\<close>

lemma five_roles:
  fixes f :: "int \<Rightarrow> role option"
  assumes T: "finite T" "card T = 5" and m: "{a, b, c, d} \<subseteq> T" and dist: "distinct [a, b, c, d]"
    and f: "\<forall>p \<in> T. f p = (if p = d then Some RoleAdc else if p = c then Some RoleMid
        else if p = b then Some RoleSupport else if p = a then Some RoleJungle else Some RoleTop)"
  shows "\<exists>!p. p \<in> T \<and> f p = Some r"
proof -
  have "card (T - {a, b, c, d}) = 1"
    using T m dist by (subst card_Diff_subset) auto
  then obtain e where e: "T - {a, b, c, d} = {e}" by (rule card_1_singletonE)
  then have "T = {a, b, c, d, e}" "e \<notin> {a, b, c, d}" using m by blast+
  then show ?thesis using f dist by (cases r) auto
qed

lemma team_set:
  "finite {p. TeamID p = BlueTeam}" "card {p. TeamID p = BlueTeam} = 5"
  "finite {p. TeamID p = RedTeam}" "card {p. TeamID p = RedTeam} = 5"
proof -
  have "{p. TeamID p = BlueTeam} = {1..5}" "{p. TeamID p = RedTeam} = {6..10}"
    by (auto simp: TeamID_blue TeamID_red)
  then show "finite {p. TeamID p = BlueTeam}" "card {p. TeamID p = BlueTeam} = 5"
    "finite {p. TeamID p = RedTeam}" "card {p. TeamID p = RedTeam} = 5" by simp_all
qed

text \<open>
  The roles before the top players are filled in, when the calculation succeeds: eight different
  players, four of each team.
\<close>

definition eight :: "int list \<Rightarrow> (int \<Rightarrow> role option) \<Rightarrow> bool" where
  "eight ps f \<longleftrightarrow> (case ps of [j1, j2, s1, s2, m1, m2, a1, a2] \<Rightarrow>
       f = [j1 \<mapsto> RoleJungle, j2 \<mapsto> RoleJungle, s1 \<mapsto> RoleSupport, s2 \<mapsto> RoleSupport,
            m1 \<mapsto> RoleMid, m2 \<mapsto> RoleMid, a1 \<mapsto> RoleAdc, a2 \<mapsto> RoleAdc]
     | _ \<Rightarrow> False)"

lemma roles_split:
  assumes "teammates_only bf" and "CalculateRolePosition mkt bf = Inr roles"
  obtains j1 j2 s1 s2 m1 m2 a1 a2 r where "eight [j1, j2, s1, s2, m1, m2, a1, a2] (map_of r)"
    and "roles = fill_top r" and "distinct [j1, j2, s1, s2, m1, m2, a1, a2]"
    and "{j1, s1, m1, a1} \<subseteq> {p. TeamID p = BlueTeam}" and "{j2, s2, m2, a2} \<subseteq> {p. TeamID p = RedTeam}"
proof -
  define j1 where "j1 = findCs cs_max (jungle_attacks mkt) BlueTeam []"
  define r1 where "r1 = AList.update j1 RoleJungle []"
  define j2 where "j2 = findCs cs_max (jungle_attacks mkt) RedTeam r1"
  define r2 where "r2 = AList.update j2 RoleJungle r1"
  define r3 where "r3 = fill_adc (region_cs RegionBot mkt) r2"
  define s1 where "s1 = findCs cs_min (region_cs RegionBot mkt) BlueTeam r3"
  define s2 where "s2 = findCs cs_min (region_cs RegionBot mkt) RedTeam r3"
  define r5 where "r5 = drop_adc (AList.update s2 RoleSupport (AList.update s1 RoleSupport r3))"
  define m1 where "m1 = findCs cs_max (region_cs RegionMid mkt) BlueTeam r5"
  define r6 where "r6 = AList.update m1 RoleMid r5"
  define m2 where "m2 = findCs cs_max (region_cs RegionMid mkt) RedTeam r6"
  define r7 where "r7 = AList.update m2 RoleMid r6"
  define a1 where "a1 = BuddyFor s1 r7 bf"
  define r8 where "r8 = AList.update a1 RoleAdc r7"
  define a2 where "a2 = BuddyFor s2 r8 bf"
  define r9 where "r9 = AList.update a2 RoleAdc r8"
  note defs = j1_def r1_def j2_def r2_def r3_def s1_def s2_def r5_def m1_def r6_def m2_def r7_def
    a1_def r8_def a2_def r9_def
  have ok: "map_of r9 (-1) = None" "length r9 = 8" "roles = fill_top r9"
    using assms(2) by (simp_all add: CalculateRolePosition_def Let_def defs split: if_splits)
  have "map_of r5 = (map_of r2)(s1 \<mapsto> RoleSupport, s2 \<mapsto> RoleSupport)"
    unfolding r5_def r3_def
    using findCs_range [of cs_min "region_cs RegionBot mkt" BlueTeam r3]
      findCs_range [of cs_min "region_cs RegionBot mkt" RedTeam r3]
    by (intro temporary_adc) (auto simp: s1_def s2_def r3_def r2_def r1_def)
  moreover have "map_of r2 = [j1 \<mapsto> RoleJungle, j2 \<mapsto> RoleJungle]"
    unfolding r2_def r1_def by (simp only: map_of_update map_of.simps)
  ultimately have eight: "eight [j1, j2, s1, s2, m1, m2, a1, a2] (map_of r9)"
    by (simp add: eight_def r9_def r8_def r7_def r6_def)
  then have dom: "dom (map_of r9) = set [j1, j2, s1, s2, m1, m2, a1, a2]"
    by (auto simp: eight_def split: if_splits)
  have "distinct (map fst r9)"
    by (simp add: r9_def r8_def r7_def r6_def r5_def r3_def r2_def r1_def distinct_update
        drop_adc_distinct fill_adc_distinct)
  then have "card (set [j1, j2, s1, s2, m1, m2, a1, a2]) = 8"
    using ok(2) dom length_distinct_keys by metis
  then have dist: "distinct [j1, j2, s1, s2, m1, m2, a1, a2]"
    by (intro card_distinct) simp
  have neg: "-1 \<notin> set [j1, j2, s1, s2, m1, m2, a1, a2]" using ok(1) dom by (metis domIff)
  have cs: "TeamID j1 = BlueTeam" "TeamID j2 = RedTeam" "TeamID s1 = BlueTeam" "TeamID s2 = RedTeam"
    "TeamID m1 = BlueTeam" "TeamID m2 = RedTeam"
    using neg findCs_range unfolding j1_def j2_def s1_def s2_def m1_def m2_def
    by (metis list.set_intros)+
  have "TeamID a1 = TeamID s1" "TeamID a2 = TeamID s2"
    using neg assms(1) BuddyFor_range [of s1 r7 bf] BuddyFor_range [of s2 r8 bf]
    by (force simp: teammates_only_def mates_def a1_def a2_def)+
  with cs have "{j1, s1, m1, a1} \<subseteq> {p. TeamID p = BlueTeam}" "{j2, s2, m2, a2} \<subseteq> {p. TeamID p = RedTeam}"
    by simp_all
  with eight ok(3) dist show thesis by (rule that)
qed

text \<open>
  C24: When the calculation succeeds, each team has exactly one player in each of the five roles.
\<close>

theorem one_player_per_role:
  assumes "teammates_only bf" and "CalculateRolePosition mkt bf = Inr roles"
    and "team = BlueTeam \<or> team = RedTeam"
  shows "\<exists>!p. TeamID p = team \<and> map_of roles p = Some r"
proof -
  obtain j1 j2 s1 s2 m1 m2 a1 a2 r9 where e: "eight [j1, j2, s1, s2, m1, m2, a1, a2] (map_of r9)"
    and roles: "roles = fill_top r9" and dist: "distinct [j1, j2, s1, s2, m1, m2, a1, a2]"
    and blue: "{j1, s1, m1, a1} \<subseteq> {p. TeamID p = BlueTeam}"
    and red: "{j2, s2, m2, a2} \<subseteq> {p. TeamID p = RedTeam}"
    by (rule roles_split [OF assms(1,2)])
  have "map_of roles p = (if p = a1 then Some RoleAdc else if p = m1 then Some RoleMid
      else if p = s1 then Some RoleSupport else if p = j1 then Some RoleJungle else Some RoleTop)"
    if "TeamID p = BlueTeam" for p
  proof -
    have "p \<noteq> j2" "p \<noteq> s2" "p \<noteq> m2" "p \<noteq> a2" using red that by (auto simp: BlueTeam_def RedTeam_def)
    moreover have "1 \<le> p" "p \<le> 10" using that TeamID_blue [of p] by simp_all
    ultimately show ?thesis using e by (simp add: roles fill_top_lookup eight_def)
  qed
  then have "\<exists>!p. p \<in> {p. TeamID p = BlueTeam} \<and> map_of roles p = Some r"
    using dist by (intro five_roles [OF team_set(1,2) blue, where f = "map_of roles"] ballI) simp_all
  moreover have "map_of roles p = (if p = a2 then Some RoleAdc else if p = m2 then Some RoleMid
      else if p = s2 then Some RoleSupport else if p = j2 then Some RoleJungle else Some RoleTop)"
    if "TeamID p = RedTeam" for p
  proof -
    have "p \<noteq> j1" "p \<noteq> s1" "p \<noteq> m1" "p \<noteq> a1" using blue that by (auto simp: BlueTeam_def RedTeam_def)
    moreover have "1 \<le> p" "p \<le> 10" using that TeamID_red [of p] by simp_all
    ultimately show ?thesis using e by (simp add: roles fill_top_lookup eight_def)
  qed
  then have "\<exists>!p. p \<in> {p. TeamID p = RedTeam} \<and> map_of roles p = Some r"
    using dist by (intro five_roles [OF team_set(3,4) red, where f = "map_of roles"] ballI) simp_all
  ultimately show ?thesis using assms(3) by (elim disjE) simp_all
qed

text \<open>A match in which the blue participants 1 to 5 and the red ones 6 to 10 play all roles.\<close>

definition demo_minions :: minion_tracker where
  "demo_minions =
     \<lparr>MinionInteractions =
        [((2, 1, RegionMid), 30), ((7, 3, RegionMid), 28), ((3, 2, RegionBot), 40), ((4, 1, RegionBot), 6),
         ((8, 2, RegionBot), 35), ((9, 5, RegionBot), 7), ((5, 1, RegionTop), 31), ((10, 2, RegionTop), 33)],
      JungleMinionInteractions = [((1, 1), 50), ((6, 2), 60), ((5, 7), 90)],
      LastChampLevel = map (\<lambda>i. (i, 7)) [1..10]\<rparr>"

definition demo_buddies :: buddy_finder where
  "demo_buddies =
     \<lparr>EarlyGameBuddyScore = [((4, 2), 3), ((4, 3), 80), ((9, 8), 75)], LastStateUpdates = []\<rparr>"

theorem one_player_per_role_witness:
  "(\<exists>!p. TeamID p = BlueTeam
       \<and> map_of [(1, RoleJungle), (6, RoleJungle), (4, RoleSupport), (9, RoleSupport), (2, RoleMid),
                 (7, RoleMid), (3, RoleAdc), (8, RoleAdc), (5, RoleTop), (10, RoleTop)] p = Some RoleAdc)"
proof (rule one_player_per_role [of demo_buddies demo_minions])
  show "CalculateRolePosition demo_minions
      demo_buddies
    = Inr [(1, RoleJungle), (6, RoleJungle), (4, RoleSupport), (9, RoleSupport), (2, RoleMid),
                 (7, RoleMid), (3, RoleAdc), (8, RoleAdc), (5, RoleTop), (10, RoleTop)]"
    by code_simp
qed (simp_all add: teammates_only_def mates_def TeamID_def demo_buddies_def)

end
