(* ===== verification/Ingest_Stats.thy ===== *)
theory Ingest_Stats
  imports Ingest_Time Ingest_Roles
begin

text \<open>
  The smaller statistics of \<open>lolstats-master/ingest\<close>: damage per champion and stage (\<open>damage.go\<close>), the share
  of the map visited (\<open>map_coverage.go\<close>) and the focus on the enemy carries (\<open>carry_focus.go\<close>).
\<close>

subsection \<open>Damage\<close>

record damage_summary =
  DamageTotal :: real
  DamagePercent :: real
  Deaths :: int

type_synonym damage_map = "(string \<times> (string \<times> damage_summary) list) list"

definition no_damage :: damage_summary where
  "no_damage = \<lparr>DamageTotal = 0, DamagePercent = 0, Deaths = 0\<rparr>"

text \<open>The summary of a champion and a stage; a missing one is made when it is first added to.\<close>

definition stages_of :: "damage_map \<Rightarrow> string \<Rightarrow> (string \<times> damage_summary) list" where
  "stages_of dm champ = (case map_of dm champ of None \<Rightarrow> [] | Some m \<Rightarrow> m)"

definition summary_of :: "damage_map \<Rightarrow> string \<Rightarrow> string \<Rightarrow> damage_summary" where
  "summary_of dm champ stage = (case map_of (stages_of dm champ) stage of None \<Rightarrow> no_damage | Some s \<Rightarrow> s)"

definition addSummary :: "int \<Rightarrow> int \<Rightarrow> real \<Rightarrow> real \<Rightarrow> real \<Rightarrow> damage_map \<Rightarrow> damage_map" where
  "addSummary champID deaths seconds damageTotal damagePercent dm =
     (let champKey = show_int champID;
          stage = gameStage seconds;
          s = summary_of dm champKey stage;
          s' = s\<lparr>Deaths := Deaths s + deaths, DamageTotal := DamageTotal s + damageTotal,
                 DamagePercent := DamagePercent s + damagePercent\<rparr>
      in AList.update champKey (AList.update stage s' (stages_of dm champKey)) dm)"

definition dm_AddDamage :: "int \<Rightarrow> real \<Rightarrow> real \<Rightarrow> real \<Rightarrow> damage_map \<Rightarrow> damage_map" where
  "dm_AddDamage champID seconds tot percent = addSummary champID 0 seconds tot percent"

definition dm_AddDeath :: "int \<Rightarrow> real \<Rightarrow> damage_map \<Rightarrow> damage_map" where
  "dm_AddDeath champID seconds = addSummary champID 1 seconds 0 0"

lemma addSummary_lookup:
  "summary_of (addSummary c d s t p dm) champ stage =
     (if champ = show_int c \<and> stage = gameStage s
      then (summary_of dm champ stage)\<lparr>Deaths := Deaths (summary_of dm champ stage) + d,
             DamageTotal := DamageTotal (summary_of dm champ stage) + t,
             DamagePercent := DamagePercent (summary_of dm champ stage) + p\<rparr>
      else summary_of dm champ stage)"
  by (auto simp: addSummary_def summary_of_def stages_of_def Let_def)

subsection \<open>Map coverage\<close>

definition map_width :: real where "map_width = 14870"
definition map_height :: real where "map_height = 14980"

record coverage_map =
  stageToSeen :: "(string \<times> ((int \<times> int) \<times> int) list) list"
  gridSize :: real

definition NewCoverageMap :: "int \<Rightarrow> coverage_map" where
  "NewCoverageMap g = \<lparr>stageToSeen = [], gridSize = real_of_int g\<rparr>"

text \<open>
  The key \<open>"%d-%d"\<close> of a square stands for the pair of its numbers, which are never negative; the
  conversion to \<open>int64\<close> truncates.
\<close>

definition grid_key :: "real \<Rightarrow> position \<Rightarrow> int \<times> int" where
  "grid_key g p =
     (let x = min map_width (max (X p) 0); y = min map_height (max (Y p) 0) in
      (\<lfloor>x / (map_width / g)\<rfloor>, \<lfloor>y / (map_height / g)\<rfloor>))"

definition seen_in :: "coverage_map \<Rightarrow> string \<Rightarrow> ((int \<times> int) \<times> int) list" where
  "seen_in c stage = (case map_of (stageToSeen c) stage of None \<Rightarrow> [] | Some m \<Rightarrow> m)"

definition cover :: "string \<Rightarrow> int \<times> int \<Rightarrow> coverage_map \<Rightarrow> coverage_map" where
  "cover stage k c = c\<lparr>stageToSeen := AList.update stage (bump 1 k (seen_in c stage)) (stageToSeen c)\<rparr>"

definition cm_Add :: "real \<Rightarrow> position \<Rightarrow> coverage_map \<Rightarrow> coverage_map" where
  "cm_Add seconds p c =
     (let k = grid_key (gridSize c) p in cover ''full'' k (cover (gameStage seconds) k c))"

definition Percents :: "coverage_map \<Rightarrow> (string \<times> real) list" where
  "Percents c = map (\<lambda>(stage, ks). (stage, 100 * real (length ks) / (gridSize c * gridSize c))) (stageToSeen c)"

subsection \<open>Carry focus\<close>

definition is_carry :: "(int \<times> role) list \<Rightarrow> int \<Rightarrow> bool" where
  "is_carry rolePositions e \<longleftrightarrow> map_of rolePositions e = Some RoleMid \<or> map_of rolePositions e = Some RoleAdc"

text \<open>The loop over the damage that the enemies took: whether a carry took some, and the best focus.\<close>

definition focus_step :: "team_fight \<Rightarrow> (int \<times> role) list \<Rightarrow> int \<times> real \<Rightarrow> bool \<times> real \<Rightarrow> bool \<times> real" where
  "focus_step tf rolePositions ed acc =
     (let (enemyId, damageTaken) = ed; (foundCarry, highest) = acc in
      if damageTaken = 0 \<or> \<not> is_carry rolePositions enemyId then acc
      else let carryFocus = get0 (DamageDealt tf) enemyId / damageTaken in
        (True, if carryFocus > highest then carryFocus else highest))"

definition skip_fight :: "real \<Rightarrow> team_fight \<Rightarrow> bool" where
  "skip_fight matchDuration tf \<longleftrightarrow>
     (if matchDuration < 25 * 60 \<and> Begin tf < 15 * 60 then True
      else if Begin tf < 20 * 60 then True
      else length (EnemiesInVision tf) = 1)"

definition CalculateCarryFocusEfficiency :: "team_fight list \<Rightarrow> (int \<times> role) list \<Rightarrow> real \<Rightarrow> real" where
  "CalculateCarryFocusEfficiency teamFights rolePositions matchDuration =
     (let (numFights, totalCarryFocus) = fold (\<lambda>tf (n, s).
            if skip_fight matchDuration tf then (n, s)
            else let (foundCarry, highest) = fold (focus_step tf rolePositions) (EnemyDamageTaken tf) (False, 0) in
              if foundCarry then (n + 1, s + highest) else (n, s)) teamFights (0, 0)
      in totalCarryFocus / max numFights 1)"

subsection \<open>How much of the map can be covered\<close>

definition squares :: "real \<Rightarrow> (int \<times> int) set" where
  "squares g = {0..\<lfloor>g\<rfloor>} \<times> {0..\<lfloor>g\<rfloor>}"

definition squares_ok :: "coverage_map \<Rightarrow> bool" where
  "squares_ok c \<longleftrightarrow> (\<forall>(stage, ks) \<in> set (stageToSeen c). ks \<noteq> [] \<and> distinct (map fst ks) \<and>
     fst ` set ks \<subseteq> squares (gridSize c))"

lemma squares_okD:
  assumes "squares_ok c" and "(stage, ks) \<in> set (stageToSeen c)"
  shows "ks \<noteq> []" "distinct (map fst ks)" "fst ` set ks \<subseteq> squares (gridSize c)"
  using assms unfolding squares_ok_def by blast+

lemma cell_bounds:
  fixes v w g :: real
  assumes "0 < g" "0 < w"
  shows "0 \<le> \<lfloor>min w (max v 0) / (w / g)\<rfloor>" "\<lfloor>min w (max v 0) / (w / g)\<rfloor> \<le> \<lfloor>g\<rfloor>"
proof -
  have "min w (max v 0) * g \<le> w * g" using assms by (intro mult_right_mono) auto
  then have "min w (max v 0) / (w / g) \<le> g" using assms by (simp add: field_simps)
  then show "\<lfloor>min w (max v 0) / (w / g)\<rfloor> \<le> \<lfloor>g\<rfloor>" by (rule floor_mono)
  show "0 \<le> \<lfloor>min w (max v 0) / (w / g)\<rfloor>" using assms by simp
qed

lemma grid_key_bounds: "0 < g \<Longrightarrow> grid_key g p \<in> squares g"
  using cell_bounds [of g map_width "X p"] cell_bounds [of g map_height "Y p"]
  by (simp add: squares_def grid_key_def Let_def map_width_def map_height_def)

lemma bump_ne: "bump d k m \<noteq> []"
proof
  assume "bump d k m = []"
  then have "fst ` set (bump d k m) = {}" by simp
  then show False by (simp add: bump_keys)
qed

lemma gridSize_cover [simp]: "gridSize (cover stage k c) = gridSize c"
  by (simp add: cover_def)

lemma squares_cover:
  assumes "squares_ok c" and "k \<in> squares (gridSize c)"
  shows "squares_ok (cover stage k c)"
proof -
  have "distinct (map fst (seen_in c stage)) \<and> fst ` set (seen_in c stage) \<subseteq> squares (gridSize c)"
    using squares_okD [OF assms(1) map_of_SomeD] by (simp add: seen_in_def split: option.splits)
  then have new: "bump 1 k (seen_in c stage) \<noteq> []" "distinct (map fst (bump 1 k (seen_in c stage)))"
      "fst ` set (bump 1 k (seen_in c stage)) \<subseteq> squares (gridSize c)"
    using assms(2) bump_keys [of 1 k "seen_in c stage"] by (auto simp: bump_ne bump_distinct)
  have "set (AList.update stage ks m) \<subseteq> insert (stage, ks) (set m)" for ks and m :: "(string \<times> ((int \<times> int) \<times> int) list) list"
    by (induction m) auto
  from this [of "bump 1 k (seen_in c stage)" "stageToSeen c"]
  have "(s, ks) = (stage, bump 1 k (seen_in c stage)) \<or> (s, ks) \<in> set (stageToSeen c)"
    if "(s, ks) \<in> set (stageToSeen (cover stage k c))" for s ks
    using that unfolding cover_def by auto
  note cases = this
  show ?thesis unfolding squares_ok_def
  proof (clarify)
    fix s ks assume "(s, ks) \<in> set (stageToSeen (cover stage k c))"
    from cases [OF this] show "ks \<noteq> [] \<and> distinct (map fst ks) \<and> fst ` set ks \<subseteq> squares (gridSize (cover stage k c))"
    proof (elim disjE)
      assume "(s, ks) \<in> set (stageToSeen c)"
      from squares_okD [OF assms(1) this] show ?thesis by simp
    qed (use new in simp)
  qed
qed

lemma squares_run:
  "0 < gridSize c \<Longrightarrow> squares_ok c \<Longrightarrow> squares_ok (fold (\<lambda>(s, p). cm_Add s p) ups c)
   \<and> gridSize (fold (\<lambda>(s, p). cm_Add s p) ups c) = gridSize c"
proof (induction ups arbitrary: c)
  case (Cons u ups)
  obtain s p where u: "u = (s, p)" by (cases u)
  have "squares_ok (cm_Add s p c)" "gridSize (cm_Add s p c) = gridSize c"
    using Cons.prems grid_key_bounds by (auto simp: cm_Add_def Let_def intro!: squares_cover)
  then show ?case using Cons.IH [of "cm_Add s p c"] Cons.prems by (simp add: u)
qed simp

lemma square_of_nat: "n \<le> nat k * nat k \<Longrightarrow> 0 \<le> k \<Longrightarrow> real n \<le> (real_of_int k)\<^sup>2"
proof -
  assume n: "n \<le> nat k * nat k" and k: "0 \<le> k"
  have "real n \<le> real (nat k * nat k)" using n by (simp only: of_nat_le_iff)
  then show ?thesis using k by (simp add: power2_eq_square)
qed

text \<open>
  The squares of a grid of size \<open>g\<close> are numbered from 0 to \<open>g\<close>, the last one being the border of the map, so
  every reported share is positive and at most \<open>(g + 1)\<^sup>2 / g\<^sup>2\<close> of the map, a bound above 100 percent.
\<close>

theorem coverage_bounds:
  assumes "0 < g"
    and "(stage, pct) \<in> set (Percents (fold (\<lambda>(s, p). cm_Add s p) ups (NewCoverageMap g)))"
  shows "0 < pct \<and> pct \<le> 100 * (real_of_int (g + 1))\<^sup>2 / (real_of_int g)\<^sup>2"
proof -
  define c where "c = fold (\<lambda>(s, p). cm_Add s p) ups (NewCoverageMap g)"
  have c: "squares_ok c" "gridSize c = real_of_int g"
    using squares_run [of "NewCoverageMap g" ups] assms(1) unfolding c_def
    by (simp_all add: NewCoverageMap_def squares_ok_def [of "\<lparr>stageToSeen = [], gridSize = real_of_int g\<rparr>"])
  from assms(2) obtain ks where ks: "(stage, ks) \<in> set (stageToSeen c)" "pct = 100 * real (length ks) / (real_of_int g)\<^sup>2"
    by (auto simp: c_def [symmetric] Percents_def c(2) power2_eq_square)
  then have k: "ks \<noteq> []" "distinct (map fst ks)" "fst ` set ks \<subseteq> {0..g} \<times> {0..g}"
    using squares_okD [OF c(1) ks(1)] c(2) by (simp_all add: squares_def)
  have "length ks = card (fst ` set ks)" using distinct_card [OF k(2)] by simp
  also have "\<dots> \<le> card ({0..g} \<times> {0..g})" by (intro card_mono k(3)) simp
  also have "\<dots> = nat (g + 1) * nat (g + 1)" by (simp add: card_cartesian_product)
  finally have "real (length ks) \<le> (real_of_int (g + 1))\<^sup>2"
    by (rule square_of_nat) (use assms(1) in simp)
  then show ?thesis using assms(1) k(1) by (simp add: ks(2) divide_right_mono)
qed

text \<open>Four visits to the corners of the map cover 400 percent of a grid of one square.\<close>

lemma corners_cover_400:
  "Percents (fold (\<lambda>(s, p). cm_Add s p)
     [(1, \<lparr>X = 0, Y = 0, Z = 0\<rparr>), (2, \<lparr>X = 14870, Y = 0, Z = 0\<rparr>), (3, \<lparr>X = 0, Y = 14980, Z = 0\<rparr>),
      (4, \<lparr>X = 14870, Y = 14980, Z = 0\<rparr>)] (NewCoverageMap 1))
   = [(''early'', 400), (''full'', 400)]"
  by (simp add: cm_Add_def cover_def Let_def NewCoverageMap_def grid_key_def map_width_def map_height_def gameStage_def
      seen_in_def bump_def get0_def Percents_def)

lemma coverage_bounds_witness:
  "(0::int) < 1 \<and> 0 < (400::real) \<and> 400 \<le> 100 * (real_of_int (1 + 1))\<^sup>2 / (real_of_int 1)\<^sup>2"
proof -
  have "(''full'', 400) \<in> set (Percents (fold (\<lambda>(s, p). cm_Add s p)
     [(1, \<lparr>X = 0, Y = 0, Z = 0\<rparr>), (2, \<lparr>X = 14870, Y = 0, Z = 0\<rparr>), (3, \<lparr>X = 0, Y = 14980, Z = 0\<rparr>),
      (4, \<lparr>X = 14870, Y = 14980, Z = 0\<rparr>)] (NewCoverageMap 1)))"
    unfolding corners_cover_400 by simp
  from coverage_bounds [OF _ this] show ?thesis by simp
qed

subsection \<open>The length of the match does not matter\<close>

lemma skip_fight_eq: "skip_fight d tf \<longleftrightarrow> Begin tf < 20 * 60 \<or> length (EnemiesInVision tf) = 1"
  by (auto simp: skip_fight_def)

text \<open>
  The first condition of the loop means to count the fights of a short match from minute 15 on, but the
  second skips all fights before minute 20 in every match: the length of the match has no effect.
\<close>

theorem short_match_no_effect:
  "CalculateCarryFocusEfficiency fights rolePositions d = CalculateCarryFocusEfficiency fights rolePositions d'
   \<and> CalculateCarryFocusEfficiency (filter (\<lambda>tf. \<not> Begin tf < 20 * 60) fights) rolePositions d
      = CalculateCarryFocusEfficiency fights rolePositions d"
proof -
  have "fold (\<lambda>tf (n, s). if Begin tf < 20 * 60 \<or> length (EnemiesInVision tf) = 1 then (n, s) else F tf n s)
      (filter (\<lambda>tf. \<not> Begin tf < 20 * 60) fights) acc
    = fold (\<lambda>tf (n, s). if Begin tf < 20 * 60 \<or> length (EnemiesInVision tf) = 1 then (n, s) else F tf n s) fights acc"
    for F and acc :: "real \<times> real"
    by (induction fights arbitrary: acc) auto
  then show ?thesis unfolding CalculateCarryFocusEfficiency_def skip_fight_eq by metis
qed

end
