(* ===== verification/Ingest_Combos.thy ===== *)
theory Ingest_Combos
  imports Baseview "HOL-Library.Multiset"
begin

text \<open>
  Combos of attacks: \<open>lolstats-master/ingest/combos.go\<close>. A \<open>container/list\<close> is a list; removing an
  element from the middle of an iteration is modelled as Go does it. The output for debugging is left
  out.
\<close>

subsection \<open>The state\<close>

record combo_item =
  Name :: string
  ciTime :: real

record combo =
  ItemList :: "combo_item list"
  DamageTimes :: "real list"
  TotalDamageDealt :: real

definition newCombo :: combo where
  "newCombo = \<lparr>ItemList = [], DamageTimes = [], TotalDamageDealt = 0\<rparr>"

record combo_analysis =
  Combos :: "combo list"
  CurrentCombo :: combo
  Spells :: "string \<times> string"

definition NewComboAnalysis :: "participant \<Rightarrow> combo_analysis" where
  "NewComboAnalysis p = \<lparr>Combos = [], CurrentCombo = newCombo, Spells = (Spell1 p, Spell2 p)\<rparr>"

definition comboTimeout :: real where "comboTimeout = 2"
definition damageTimeout :: real where "damageTimeout = 2"

subsection \<open>Trimming\<close>

text \<open>
  The first loop of \<open>Trim\<close>, from the back: \<open>list.Remove\<close> clears the links of the element it removes,
  so \<open>e.Prev()\<close> is nil after it and the loop ends.
\<close>

fun remove_late :: "real \<Rightarrow> combo_item list \<Rightarrow> combo_item list" where
  "remove_late lastDamageTime [] = []"
| "remove_late lastDamageTime (e # es) =
     (if ciTime e > lastDamageTime then es else e # remove_late lastDamageTime es)"

definition is_aa :: "combo_item \<Rightarrow> bool" where
  "is_aa i \<longleftrightarrow> Name i = ''aa''"

text \<open>Keep one of the auto attacks at the front.\<close>

definition drop_leading :: "combo_item list \<Rightarrow> combo_item list" where
  "drop_leading l = drop (length (takeWhile is_aa l) - 1) l"

definition Trim :: "real \<Rightarrow> combo_item list \<Rightarrow> combo_item list" where
  "Trim lastDamageTime l =
     rev (drop_leading (rev (drop_leading (rev (remove_late lastDamageTime (rev l))))))"

definition is_ability :: "string \<Rightarrow> bool" where
  "is_ability s \<longleftrightarrow> s \<in> set [''Q'', ''W'', ''E'', ''R'']"

definition NumAbilities :: "combo_item list \<Rightarrow> nat" where
  "NumAbilities l = length (filter (\<lambda>i. is_ability (Name i)) l)"

subsection \<open>Events\<close>

definition slotToComboName :: "string \<times> string \<Rightarrow> string \<Rightarrow> string" where
  "slotToComboName spells slot =
     (if slot = ''basic'' then ''aa''
      else if is_ability slot then slot
      else if slot = ''Summoner1'' then fst spells
      else if slot = ''Summoner2'' then snd spells
      else '''')"

definition last_damage :: "combo \<Rightarrow> real" where
  "last_damage c = (if DamageTimes c = [] then 0 else List.last (DamageTimes c))"

text \<open>An attack at a time belongs to the combo.\<close>

definition continues :: "real \<Rightarrow> combo \<Rightarrow> bool" where
  "continues secs c \<longleftrightarrow>
     ItemList c \<noteq> []
     \<and> (case List.find (\<lambda>i. \<not> is_aa i) (rev (ItemList c)) of None \<Rightarrow> True | Some i \<Rightarrow> secs \<le> ciTime i + comboTimeout)
     \<and> (last_damage c = 0 \<and> secs < ciTime (hd (ItemList c)) + damageTimeout \<or> secs \<le> last_damage c + damageTimeout)"

definition ca_AddAttack :: "real \<Rightarrow> attack \<Rightarrow> combo_analysis \<Rightarrow> combo_analysis" where
  "ca_AddAttack secs t ca =
     (let comboName = slotToComboName (Spells ca) (Slot t); cur = CurrentCombo ca;
          item = \<lparr>Name = comboName, ciTime = secs\<rparr> in
      if comboName = '''' then ca
      else if continues secs cur
        then ca\<lparr>CurrentCombo := cur\<lparr>ItemList := ItemList cur @ [item]\<rparr>\<rparr>
      else
        let trimmed = cur\<lparr>ItemList := Trim (last_damage cur) (ItemList cur)\<rparr>;
            combos = (if length (ItemList trimmed) > 1 \<and> NumAbilities (ItemList trimmed) > 1
                         \<and> TotalDamageDealt trimmed > 0
                      then Combos ca @ [trimmed] else Combos ca)
        in ca\<lparr>Combos := combos, CurrentCombo := newCombo\<lparr>ItemList := [item]\<rparr>\<rparr>)"

definition ca_AddDamage :: "real \<Rightarrow> damage \<Rightarrow> combo_analysis \<Rightarrow> combo_analysis" where
  "ca_AddDamage secs t ca =
     (if VictimType t = ActorHero
      then let cur = CurrentCombo ca in
        ca\<lparr>CurrentCombo := cur\<lparr>DamageTimes := DamageTimes cur @ [secs], TotalDamageDealt := TotalDamageDealt cur + Total t\<rparr>\<rparr>
      else ca)"

subsection \<open>Summary\<close>

fun item_names :: "combo_item list \<Rightarrow> string" where
  "item_names [] = ''''"
| "item_names [i] = Name i"
| "item_names (i # is) = Name i @ '','' @ item_names is"

record combo_summary =
  csName :: string
  csDamage :: real
  csBegin :: real
  csEnd :: real

text \<open>\<open>sort.Sort\<close> leaves the order of equal damages open; the model keeps the order of the combos.\<close>

definition ComboSummary :: "combo_analysis \<Rightarrow> combo_summary list" where
  "ComboSummary ca =
     map (\<lambda>c. \<lparr>csName = item_names (ItemList c), csDamage = TotalDamageDealt c,
               csBegin = ciTime (hd (ItemList c)), csEnd = ciTime (List.last (ItemList c))\<rparr>)
       (sort_key (\<lambda>c. - TotalDamageDealt c) (Combos ca))"

definition ComboDamagePerMinute :: "real \<Rightarrow> combo_analysis \<Rightarrow> real" where
  "ComboDamagePerMinute matchDuration ca =
     sum_list (map TotalDamageDealt (Combos ca)) / matchDuration * 60"

datatype combo_event =
    AttackC attack
  | DamageC damage

primrec combo_step :: "real \<times> combo_event \<Rightarrow> combo_analysis \<Rightarrow> combo_analysis" where
  "combo_step (s, e) ca = (case e of AttackC t \<Rightarrow> ca_AddAttack s t ca | DamageC t \<Rightarrow> ca_AddDamage s t ca)"

subsection \<open>Trimming removes at most one late attack\<close>

text \<open>
  On attacks in the order of time, the first loop of \<open>Trim\<close> removes the last attack when it is
  after the last damage, and never a second one: earlier attacks that are after the last damage stay
  in the combo.
\<close>

theorem trim_one_late:
  assumes "sorted (map ciTime l)"
  shows "rev (remove_late t (rev l)) = (if l \<noteq> [] \<and> ciTime (List.last l) > t then butlast l else l)"
proof (cases l rule: rev_cases)
  case (snoc k i)
  have "remove_late t js = js" if "\<forall>j \<in> set js. ciTime j \<le> t" for js
    using that by (induction js) auto
  from this [of "rev k"] show ?thesis
    using assms snoc by (force simp: sorted_append)
qed simp

theorem trim_one_late_witness:
  "rev (remove_late 5 (rev [\<lparr>Name = ''Q'', ciTime = 4\<rparr>, \<lparr>Name = ''W'', ciTime = 6\<rparr>, \<lparr>Name = ''E'', ciTime = 7\<rparr>]))
     = [\<lparr>Name = ''Q'', ciTime = 4\<rparr>, \<lparr>Name = ''W'', ciTime = 6\<rparr>]"
  using trim_one_late [of "[\<lparr>Name = ''Q'', ciTime = 4\<rparr>, \<lparr>Name = ''W'', ciTime = 6\<rparr>, \<lparr>Name = ''E'', ciTime = 7\<rparr>]" 5]
  by simp

lemma remove_late_front: "sorted (map ciTime l) \<Longrightarrow> \<exists>n. rev (remove_late t (rev l)) = take n l"
proof -
  assume s: "sorted (map ciTime l)"
  have "\<exists>n. rev (remove_late t r) = take n (rev r)" if "sorted (map ciTime (rev r))" for r
  proof (cases r)
    case (Cons i js)
    have "remove_late t ks = ks" if "\<forall>j \<in> set ks. ciTime j \<le> t" for ks
      using that by (induction ks) auto
    then have "\<not> ciTime i > t \<Longrightarrow> remove_late t js = js"
      using that Cons by (force simp: sorted_append)
    then have "remove_late t r = (if ciTime i > t then js else r)" by (simp add: Cons)
    then show ?thesis
      using Cons by (intro exI [of _ "if ciTime i > t then length js else Suc (length js)"]) simp
  qed simp
  from this [of "rev l"] s show ?thesis by simp
qed

text \<open>A trimmed combo is a part of the combo.\<close>

lemma Trim_part:
  assumes "sorted (map ciTime l)"
  obtains m n where "Trim t l = drop m (take n l)"
proof -
  obtain n where n: "rev (remove_late t (rev l)) = take n l" using remove_late_front [OF assms] by blast
  have "rev (drop a (rev xs)) = take (length xs - a) xs" for a and xs :: "combo_item list"
    by (simp add: rev_drop)
  then have "Trim t l = take (length (drop_leading (take n l)) - (length (takeWhile is_aa (rev (drop_leading (take n l)))) - 1))
      (drop_leading (take n l))"
    by (simp add: Trim_def n drop_leading_def [of "rev _"])
  then show thesis
    by (intro that) (simp add: drop_leading_def take_drop)
qed

subsection \<open>Combos\<close>

definition chained :: "combo_item list \<Rightarrow> bool" where
  "chained l \<longleftrightarrow> successively (\<lambda>a b. ciTime b \<le> ciTime a + comboTimeout) (filter (\<lambda>i. \<not> is_aa i) l)"

lemma successively_part: "successively P xs \<Longrightarrow> successively P (drop m (take n xs))"
  by (metis append_take_drop_id successively_append_iff)

lemma filter_part: "\<exists>a b. filter P (drop m (take n l)) = drop a (take b (filter P l))"
proof -
  have "filter P l = filter P (take m (take n l)) @ filter P (drop m (take n l)) @ filter P (drop n l)"
    by (metis append.assoc append_take_drop_id filter_append)
  then have "filter P (drop m (take n l)) = drop (length (filter P (take m (take n l))))
      (take (length (filter P (take m (take n l))) + length (filter P (drop m (take n l)))) (filter P l))"
    by simp
  then show ?thesis by blast
qed

lemma chained_part: "chained l \<Longrightarrow> chained (drop m (take n l))"
  using filter_part [of "\<lambda>i. \<not> is_aa i" m n l] successively_part unfolding chained_def by metis

lemma chained_append:
  assumes "chained l" and "continues secs c" and "ItemList c = l"
  shows "chained (l @ [\<lparr>Name = n, ciTime = secs\<rparr>])"
proof (cases "filter (\<lambda>i. \<not> is_aa i) l" rule: rev_cases)
  case Nil
  then show ?thesis by (simp add: chained_def)
next
  case (snoc ks k)
  have "List.find P (rev xs) = (if filter P xs = [] then None else Some (List.last (filter P xs)))" for P and xs :: "combo_item list"
    by (induction xs rule: rev_induct) auto
  then have "secs \<le> ciTime k + comboTimeout"
    using assms(2,3) snoc by (simp add: continues_def)
  with assms(1) snoc show ?thesis by (auto simp: chained_def successively_append_iff)
qed

definition combos_ok :: "real \<Rightarrow> combo_analysis \<Rightarrow> bool" where
  "combos_ok now ca \<longleftrightarrow>
     (let l = ItemList (CurrentCombo ca) in sorted (map ciTime l) \<and> (\<forall>i \<in> set l. ciTime i \<le> now) \<and> chained l)
     \<and> (\<forall>c \<in> set (Combos ca). length (ItemList c) > 1 \<and> NumAbilities (ItemList c) > 1 \<and> TotalDamageDealt c > 0
          \<and> chained (ItemList c) \<and> sorted (map ciTime (ItemList c)))"

lemma combos_ok_step:
  assumes "combos_ok now ca" and "now \<le> s"
  shows "combos_ok s (combo_step (s, e) ca)"
proof (cases e)
  case (DamageC t)
  with assms show ?thesis by (auto simp: combos_ok_def ca_AddDamage_def Let_def)
next
  case (AttackC t)
  let ?l = "ItemList (CurrentCombo ca)"
  have cur: "sorted (map ciTime ?l)" "\<forall>i \<in> set ?l. ciTime i \<le> s" "chained ?l"
    using assms by (auto simp: combos_ok_def Let_def)
  obtain m n where tr: "Trim (last_damage (CurrentCombo ca)) ?l = drop m (take n ?l)"
    using Trim_part [OF cur(1)] .
  have part: "chained (drop m (take n ?l))" "sorted (map ciTime (drop m (take n ?l)))"
    using cur chained_part by (simp_all add: drop_map [symmetric] take_map [symmetric] sorted_wrt_drop sorted_wrt_take)
  show ?thesis
  proof (cases "continues s (CurrentCombo ca)")
    case True
    with assms(1) cur chained_append [OF cur(3) True refl] AttackC show ?thesis
      by (auto simp: combos_ok_def ca_AddAttack_def Let_def sorted_append)
  next
    case False
    with assms(1) cur part AttackC show ?thesis
      by (auto simp: combos_ok_def ca_AddAttack_def Let_def tr newCombo_def chained_def)
  qed
qed


lemma combos_ok_run:
  "combos_ok now ca \<Longrightarrow> sorted (map fst es) \<Longrightarrow> \<forall>x \<in> set es. now \<le> fst x \<Longrightarrow> \<exists>now'. combos_ok now' (fold combo_step es ca)"
proof (induction es arbitrary: now ca)
  case (Cons x es)
  obtain s e where x: "x = (s, e)" by fastforce
  with Cons.prems have "combos_ok s (combo_step x ca)" "\<forall>y \<in> set es. s \<le> fst y" "sorted (map fst es)"
    using combos_ok_step [of now ca s e] by auto
  from Cons.IH [OF this(1,3,2)] show ?case by simp
qed auto

text \<open>
  On events in the order of time, a combo that is counted has at least two attacks and two
  abilities and did damage; its attacks are in the order of time, and no ability in it comes more than
  two seconds after the one before.
\<close>

theorem combos_are_combos:
  assumes "sorted (map fst es)" and "c \<in> set (Combos (fold combo_step es (NewComboAnalysis p)))"
  shows "length (ItemList c) > 1 \<and> NumAbilities (ItemList c) > 1 \<and> TotalDamageDealt c > 0
     \<and> sorted (map ciTime (ItemList c))
     \<and> successively (\<lambda>a b. ciTime b \<le> ciTime a + 2) (filter (\<lambda>i. \<not> is_aa i) (ItemList c))"
proof -
  have "combos_ok (case es of [] \<Rightarrow> 0 | x # _ \<Rightarrow> fst x) (NewComboAnalysis p)"
    by (simp add: combos_ok_def NewComboAnalysis_def newCombo_def chained_def)
  from combos_ok_run [OF this assms(1)] assms show ?thesis
    by (cases es) (auto simp: combos_ok_def chained_def comboTimeout_def)
qed

definition demo_attack :: "string \<Rightarrow> attack" where
  "demo_attack slot = \<lparr>CooldownExpires = 0, aStart = None, aEnd = None, aAttackerID = 3, aAttackerType = ActorHero,
     Slot = slot, TargetID = 7, TargetType = ActorHero, TargetPosition = None\<rparr>"

definition demo_fight :: "(real \<times> combo_event) list" where
  "demo_fight =
     [(10, AttackC (demo_attack ''Q'')), (11, AttackC (demo_attack ''W'')),
      (12, DamageC \<lparr>Total = 90, Percent = 15, dAttackerID = 3, dAttackerType = ActorHero, VictimID = 7, VictimType = ActorHero\<rparr>),
      (20, AttackC (demo_attack ''basic''))]"

definition demo_player :: participant where
  "demo_player = \<lparr>ParticipantID = 3, pSummonerID = 9, pSummonerName = ''Ann'', ChampionID = 22,
                   Spell1 = ''Flash'', Spell2 = ''Smite''\<rparr>"

definition demo_combo :: combo where
  "demo_combo = \<lparr>ItemList = [\<lparr>Name = ''Q'', ciTime = 10\<rparr>, \<lparr>Name = ''W'', ciTime = 11\<rparr>], DamageTimes = [12], TotalDamageDealt = 90\<rparr>"

lemma demo_combo_found: "Combos (fold combo_step demo_fight (NewComboAnalysis demo_player)) = [demo_combo]"
  by (simp add: demo_fight_def demo_attack_def demo_player_def demo_combo_def NewComboAnalysis_def newCombo_def
      ca_AddAttack_def ca_AddDamage_def slotToComboName_def is_ability_def continues_def last_damage_def
      is_aa_def comboTimeout_def damageTimeout_def Trim_def drop_leading_def NumAbilities_def Let_def)

theorem combos_are_combos_witness:
  "length (ItemList demo_combo) > 1 \<and> NumAbilities (ItemList demo_combo) > 1 \<and> TotalDamageDealt demo_combo > 0"
  using combos_are_combos [of demo_fight demo_combo demo_player]
  by (simp add: demo_combo_found) (simp add: demo_fight_def)

subsection \<open>Damage is counted once\<close>

definition hero_damage :: "(real \<times> combo_event) list \<Rightarrow> real" where
  "hero_damage es = sum_list (map (\<lambda>(s, e). case e of
       DamageC t \<Rightarrow> if VictimType t = ActorHero then Total t else 0 | AttackC t \<Rightarrow> 0) es)"

definition counted :: "combo_analysis \<Rightarrow> real" where
  "counted ca = sum_list (map TotalDamageDealt (Combos ca)) + TotalDamageDealt (CurrentCombo ca)"

lemma counted_step:
  assumes "0 \<le> TotalDamageDealt (CurrentCombo ca)" and "0 \<le> hero_damage [x]"
  shows "counted (combo_step x ca) \<le> counted ca + hero_damage [x]
     \<and> 0 \<le> TotalDamageDealt (CurrentCombo (combo_step x ca))"
proof -
  obtain s e where "x = (s, e)" by fastforce
  then show ?thesis
    using assms by (cases e) (auto simp: counted_def hero_damage_def ca_AddAttack_def ca_AddDamage_def newCombo_def Let_def)
qed

lemma counted_run:
  "0 \<le> TotalDamageDealt (CurrentCombo ca) \<Longrightarrow> \<forall>x \<in> set es. 0 \<le> hero_damage [x] \<Longrightarrow>
     counted (fold combo_step es ca) \<le> counted ca + hero_damage es
     \<and> 0 \<le> TotalDamageDealt (CurrentCombo (fold combo_step es ca))"
proof (induction es arbitrary: ca)
  case (Cons x es)
  have h: "hero_damage (x # es) = hero_damage [x] + hero_damage es" by (simp add: hero_damage_def)
  have st: "counted (combo_step x ca) \<le> counted ca + hero_damage [x]"
      "0 \<le> TotalDamageDealt (CurrentCombo (combo_step x ca))"
    using counted_step [of ca x] Cons.prems by simp_all
  have "\<forall>y \<in> set es. 0 \<le> hero_damage [y]" using Cons.prems(2) by simp
  from Cons.IH [OF st(2) this] st(1) h show ?case by (simp only: fold_simps simp_thms) linarith
qed (simp add: hero_damage_def)

text \<open>
  No damage is counted twice: the damage of all combos together is at most the damage dealt to
  champions.
\<close>

theorem combo_damage_bounded:
  assumes "\<forall>x \<in> set es. 0 \<le> hero_damage [x]"
  shows "sum_list (map csDamage (ComboSummary (fold combo_step es (NewComboAnalysis p)))) \<le> hero_damage es"
proof -
  let ?ca = "fold combo_step es (NewComboAnalysis p)"
  have "sum_list (map csDamage (ComboSummary ?ca)) = sum_list (map TotalDamageDealt (sort_key (\<lambda>c. - TotalDamageDealt c) (Combos ?ca)))"
    by (simp add: ComboSummary_def comp_def)
  also have "... = sum_list (map TotalDamageDealt (Combos ?ca))"
    by (simp only: sum_mset_sum_list [symmetric] mset_map mset_sort)
  finally show ?thesis
    using counted_run [of "NewComboAnalysis p" es] assms
    by (simp add: counted_def NewComboAnalysis_def newCombo_def)
qed

theorem combo_damage_bounded_witness:
  "sum_list (map csDamage (ComboSummary (fold combo_step demo_fight (NewComboAnalysis demo_player)))) \<le> 90"
  using combo_damage_bounded [of demo_fight demo_player]
  by (simp add: hero_damage_def demo_fight_def)

end
