(* ===== verification/Ingest_Team_Data.thy ===== *)
theory Ingest_Team_Data
  imports Baseview
begin

text \<open>
  The table \<open>compAttributesByChampIDStr\<close> of \<open>lolstats-master/ingest/team_comp_data.go\<close>: the strengths of the
  champions. Every champion has the same 23 attributes in the same (alphabetical) order, so a row is the
  list of their values; the table is cut into groups of six champions.
\<close>

definition comp_attributes :: "string list" where
  "comp_attributes =
     [''burst'', ''carry'', ''cc'', ''disengage'', ''dive'', ''engage'', ''global'', ''laning'',
      ''magical'', ''mobility'', ''physical'', ''poke'', ''pushing'', ''scaling'', ''sieging'', ''snowball'',
      ''split_pushing'', ''sustain'', ''tank'', ''team_healing'', ''teamfight'', ''utility'', ''wave_clear'']"

type_synonym champ_row = "string \<times> real list"

definition comp_data_1 :: "champ_row list" where
  "comp_data_1 =
     [(''1'', [7, 6, 6, 1, 5, 7, 0, 7, 5, 0, 0, 2, 2, 4, 2, 5, 0, 0, 1, 0, 6, 3, 1]),
      (''10'', [4, 6, 1, 2, 5, 1, 0, 7, 6, 2, 2, 3, 9, 5, 4, 6, 6, 3, 2, 2, 6, 3, 8]),
      (''101'', [4, 8, 2, 3, 5, 2, 6, 6, 10, 0, 0, 7, 4, 9, 6, 8, 2, 5, 0, 0, 6, 1, 6]),
      (''102'', [3, 5, 2, 1, 6, 6, 0, 5, 6, 1, 3, 1, 2, 8, 3, 3, 4, 0, 7, 0, 5, 1, 1]),
      (''103'', [7, 7, 3, 2, 5, 6, 0, 6, 10, 9, 0, 2, 5, 6, 5, 7, 4, 5, 0, 0, 6, 2, 7]),
      (''104'', [5, 7, 1, 0, 7, 0, 0, 4, 0, 3, 8, 4, 6, 7, 6, 9, 4, 0, 0, 0, 9, 1, 6])]"

definition comp_data_2 :: "champ_row list" where
  "comp_data_2 =
     [(''105'', [8, 8, 5, 2, 10, 2, 0, 7, 5, 6, 4, 0, 4, 7, 3, 9, 7, 0, 5/2, 0, 4, 1, 3]),
      (''106'', [3, 5, 3, 1, 8, 4, 0, 4, 0, 3, 3, 0, 3, 6, 2, 3, 2, 6, 10, 0, 4, 1, 2]),
      (''107'', [8, 6, 3, 1, 10, 4, 0, 2, 0, 3, 8, 2, 3, 6, 2, 10, 4, 1, 4, 0, 3, 1, 1]),
      (''11'', [3, 7, 0, 1, 7, 1, 0, 5, 0, 5, 8, 0, 7, 8, 7, 7, 6, 5, 0, 0, 4, 0, 2]),
      (''110'', [3, 7, 4, 4, 5, 5, 0, 6, 2, 0, 8, 8, 5, 7, 6, 7, 3, 0, 0, 0, 7, 3, 8]),
      (''111'', [3, 0, 9, 5, 7, 8, 0, 7, 2, 2, 0, 3, 5, 4, 6, 4, 4, 0, 8, 0, 7, 6, 7])]"

definition comp_data_3 :: "champ_row list" where
  "comp_data_3 =
     [(''112'', [6, 8, 2, 3, 4, 5, 0, 7, 10, 1, 0, 6, 7, 9, 4, 8, 3, 1, 0, 0, 6, 1, 9]),
      (''113'', [3, 0, 7, 3, 6, 7, 0, 2, 5, 4, 0, 0, 2, 6, 6, 5, 2, 0, 9, 0, 6, 4, 3]),
      (''114'', [5, 8, 1, 2, 7, 2, 0, 7, 0, 3, 10, 0, 5, 9, 2, 8, 8, 4, 5/2, 4, 5, 2, 0]),
      (''115'', [4, 8, 4, 4, 4, 1, 5, 7, 10, 2, 0, 10, 5, 8, 9, 7, 3, 0, 0, 0, 8, 1, 9]),
      (''117'', [3, 6, 4, 4, 6, 4, 0, 7, 7, 4, 0, 5, 7, 8, 6, 4, 4, 0, 2, 0, 8, 7, 7]),
      (''119'', [5, 8, 2, 2, 4, 1, 4, 4, 0, 1, 10, 3, 7, 7, 5, 10, 5, 0, 0, 0, 6, 2, 3])]"

definition comp_data_4 :: "champ_row list" where
  "comp_data_4 =
     [(''12'', [1, 0, 7, 3, 10, 7, 0, 6, 3, 1, 0, 0, 2, 5, 4, 5, 0, 5, 10, 4, 7, 4, 0]),
      (''120'', [2, 6, 5, 1, 9, 7, 0, 5, 2, 6, 6, 0, 4, 8, 3, 6, 7, 0, 7, 0, 8, 3, 3]),
      (''121'', [7, 6, 1, 1, 7, 2, 0, 4, 0, 5, 7, 2, 3, 7, 2, 8, 4, 2, 0, 0, 3, 1, 2]),
      (''122'', [6, 5, 3, 0, 7, 5, 0, 5, 0, 0, 7, 0, 5, 6, 1, 7, 6, 0, 6, 0, 6, 2, 2]),
      (''126'', [3, 7, 1, 3, 3, 1, 0, 5, 0, 3, 8, 6, 7, 7, 8, 8, 5, 0, 0, 0, 7, 4, 7]),
      (''127'', [4, 7, 8, 2, 8, 8, 0, 7, 10, 5, 0, 4, 6, 7, 6, 5, 4, 5, 0, 0, 6, 5, 5])]"

definition comp_data_5 :: "champ_row list" where
  "comp_data_5 =
     [(''13'', [6, 8, 3, 2, 5, 4, 0, 4, 10, 2, 0, 6, 4, 9, 4, 10, 5, 0, 3, 0, 7, 3, 6]),
      (''131'', [6, 8, 2, 0, 8, 5, 0, 5, 10, 3, 0, 2, 6, 8, 4, 8, 8, 0, 0, 0, 6, 2, 5]),
      (''133'', [8, 6, 1, 0, 4, 2, 0, 9, 0, 8, 7, 4, 6, 6, 7, 9, 7, 0, 0, 0, 5, 1, 1]),
      (''134'', [6, 8, 3, 3, 6, 5, 0, 8, 10, 0, 0, 6, 4, 7, 5, 9, 3, 0, 0, 0, 5, 2, 4]),
      (''136'', [0, 0, 0, 0, 0, 0, 0, 0, 0, 0, 0, 0, 0, 0, 0, 0, 0, 0, 0, 0, 0, 0, 0]),
      (''14'', [3, 0, 7, 3, 6, 7, 0, 5, 3, 4, 3, 3, 4, 6, 3, 4, 5, 0, 10, 0, 7, 2, 3])]"

definition comp_data_6 :: "champ_row list" where
  "comp_data_6 =
     [(''143'', [1, 2, 4, 10, 5, 2, 0, 3, 7, 0, 0, 5, 0, 6, 4, 3, 0, 0, 0, 0, 3, 7, 1]),
      (''15'', [3, 7, 0, 4, 6, 6, 0, 6, 0, 7, 10, 5, 6, 6, 8, 3, 7, 0, 0, 0, 9, 5, 5]),
      (''150'', [1, 6, 4, 1, 6, 4, 0, 6, 1, 3, 7, 4, 5, 7, 7, 4, 4, 0, 8, 0, 8, 4, 3]),
      (''154'', [2, 3, 7, 5, 9, 8, 0, 3, 5, 4, 0, 2, 2, 8, 4, 4, 2, 4, 10, 0, 8, 2, 1]),
      (''157'', [5, 10, 1, 1, 7, 3, 0, 6, 0, 5, 10, 4, 7, 10, 3, 9, 6, 0, 0, 0, 7, 1, 1]),
      (''16'', [1, 0, 2, 2, 5, 5, 0, 8, 2, 0, 0, 1, 1, 5, 9, 2, 0, 4, 0, 10, 4, 9, 2])]"

definition comp_data_7 :: "champ_row list" where
  "comp_data_7 =
     [(''161'', [5, 7, 4, 4, 4, 2, 0, 6, 10, 0, 0, 7, 6, 6, 3, 8, 3, 0, 0, 0, 9, 4, 6]),
      (''163'', [0, 0, 0, 0, 0, 0, 0, 0, 0, 0, 0, 0, 0, 0, 0, 0, 0, 0, 0, 0, 0, 0, 0]),
      (''17'', [2, 6, 3, 2, 1, 2, 0, 4, 7, 1, 0, 4, 3, 4, 2, 4, 3, 0, 0, 0, 2, 1, 2]),
      (''18'', [4, 8, 2, 3, 4, 2, 0, 7, 1, 3, 9, 5, 7, 8, 10, 8, 5, 0, 0, 0, 8, 2, 5]),
      (''19'', [2, 5, 3, 1, 6, 5, 0, 1, 6, 2, 2, 0, 2, 7, 2, 6, 3, 3, 7, 0, 3, 2, 0]),
      (''2'', [4, 6, 5, 4, 7, 6, 0, 7, 0, 4, 6, 6, 6, 7, 4, 5, 6, 2, 7, 0, 3, 1, 5])]"

definition comp_data_8 :: "champ_row list" where
  "comp_data_8 =
     [(''20'', [2, 0, 4, 5, 4, 3, 0, 1, 3, 1, 0, 2, 2, 4, 4, 3, 1, 6, 10, 0, 8, 6, 4]),
      (''201'', [1, 0, 7, 7, 5, 4, 0, 6, 2, 5, 0, 1, 0, 6, 2, 2, 0, 0, 8, 0, 7, 5, 0]),
      (''202'', [0, 0, 0, 0, 0, 0, 0, 0, 0, 0, 0, 0, 0, 0, 0, 0, 0, 0, 0, 0, 0, 0, 0]),
      (''203'', [4, 6, 1, 1, 8, 1, 0, 6, 0, 4, 6, 1, 4, 6, 5, 6, 3, 5, 2, 3, 7, 5, 3]),
      (''21'', [4, 8, 2, 1, 6, 2, 0, 8, 1, 4, 9, 6, 6, 7, 8, 6, 5, 0, 0, 0, 7, 1, 3]),
      (''22'', [2, 8, 7, 2, 5, 8, 3, 5, 0, 0, 10, 3, 5, 8, 5, 4, 0, 0, 0, 0, 7, 5, 2])]"

definition comp_data_9 :: "champ_row list" where
  "comp_data_9 =
     [(''222'', [3, 10, 3, 3, 5, 1, 4, 6, 0, 1, 10, 5, 5, 10, 9, 10, 5, 0, 0, 0, 9, 1, 5]),
      (''223'', [3, 0, 5, 1, 8, 6, 4, 5, 2, 4, 0, 2, 5, 5, 4, 2, 6, 4, 10, 0, 4, 6, 4]),
      (''23'', [3, 8, 2, 3, 8, 3, 0, 4, 0, 3, 10, 0, 8, 8, 4, 9, 9, 4, 2, 0, 3, 1, 3]),
      (''236'', [4, 8, 0, 2, 4, 0, 0, 8, 0, 3, 10, 6, 6, 7, 7, 6, 5, 0, 0, 0, 5, 0, 8]),
      (''238'', [7, 8, 2, 2, 6, 2, 0, 6, 0, 5, 10, 6, 8, 8, 4, 10, 9, 0, 0, 0, 3, 1, 2]),
      (''24'', [5, 8, 3, 3, 6, 3, 0, 7, 5, 2, 5, 0, 7, 9, 5, 10, 9, 0, 4, 0, 6, 1, 4])]"

definition comp_data_10 :: "champ_row list" where
  "comp_data_10 =
     [(''240'', [0, 0, 0, 0, 0, 0, 0, 0, 0, 0, 0, 0, 0, 0, 0, 0, 0, 0, 0, 0, 0, 0, 0]),
      (''245'', [4, 8, 5, 3, 8, 7, 0, 5, 10, 4, 0, 4, 6, 6, 4, 6, 5, 0, 5, 0, 7, 2, 5]),
      (''25'', [2, 0, 6, 3, 4, 7, 0, 6, 6, 0, 0, 4, 4, 5, 4, 6, 5, 2, 0, 0, 6, 5, 6]),
      (''254'', [2, 5, 4, 0, 8, 8, 0, 2, 0, 4, 6, 0, 2, 8, 1, 7, 2, 0, 6, 0, 5, 1, 0]),
      (''26'', [4, 6, 3, 4, 5, 3, 0, 7, 10, 7, 0, 6, 5, 6, 6, 5, 4, 0, 0, 4, 7, 6, 8]),
      (''266'', [5, 5, 5, 2, 7, 6, 0, 5, 3, 4, 6, 3, 7, 5, 3, 7, 7, 8, 5, 0, 4, 1, 3])]"

definition comp_data_11 :: "champ_row list" where
  "comp_data_11 =
     [(''267'', [1, 0, 5, 6, 5, 4, 0, 5, 2, 1, 0, 3, 0, 2, 3, 2, 0, 4, 0, 3, 5, 7, 0]),
      (''268'', [6, 9, 3, 8, 2, 6, 0, 6, 10, 5, 0, 8, 7, 10, 7, 2, 0, 0, 0, 0, 7, 3, 7]),
      (''27'', [2, 5, 3, 2, 7, 4, 0, 6, 6, 3, 0, 0, 7, 7, 2, 3, 8, 4, 7, 0, 4, 2, 8]),
      (''28'', [2, 5, 1, 3, 8, 4, 0, 2, 5, 2, 3, 1, 2, 4, 2, 7, 2, 0, 5/2, 0, 4, 1, 2]),
      (''29'', [6, 8, 1, 2, 5, 3, 0, 5, 0, 0, 10, 3, 5, 10, 3, 8, 4, 0, 0, 0, 7, 1, 6]),
      (''3'', [2, 6, 6, 2, 5, 7, 0, 4, 7, 0, 0, 4, 5, 5, 5, 6, 2, 0, 6, 0, 10, 4, 4])]"

definition comp_data_12 :: "champ_row list" where
  "comp_data_12 =
     [(''30'', [5, 10, 2, 3, 3, 2, 7, 5, 10, 1, 0, 4, 5, 9, 4, 7, 2, 0, 0, 0, 8, 2, 5]),
      (''31'', [7, 7, 7, 6, 6, 3, 0, 6, 5, 0, 0, 3, 5, 5, 2, 6, 0, 7, 4, 0, 6, 6, 5]),
      (''32'', [4, 3, 8, 3, 8, 8, 0, 1, 5, 2, 0, 0, 3, 7, 0, 2, 0, 0, 10, 0, 9, 1, 0]),
      (''33'', [2, 0, 4, 0, 7, 3, 0, 5, 3, 4, 0, 0, 2, 7, 3, 4, 3, 0, 10, 0, 7, 3, 0]),
      (''34'', [7, 8, 5, 7, 5, 2, 0, 4, 10, 0, 0, 3, 10, 8, 8, 2, 0, 0, 0, 0, 7, 8, 10]),
      (''35'', [2, 6, 2, 1, 2, 2, 0, 3, 3, 3, 6, 4, 8, 3, 3, 3, 9, 0, 0, 0, 2, 1, 2])]"

definition comp_data_13 :: "champ_row list" where
  "comp_data_13 =
     [(''36'', [1, 3, 3, 3, 7, 2, 0, 6, 5, 1, 2, 5, 4, 10, 4, 7, 6, 8, 10, 0, 5, 2, 2]),
      (''37'', [1, 0, 4, 3, 5, 7, 0, 5, 2, 1, 0, 2, 1, 4, 6, 2, 0, 3, 0, 3, 6, 5, 1]),
      (''38'', [6, 8, 2, 2, 6, 3, 0, 4, 9, 7, 0, 2, 4, 8, 2, 9, 4, 0, 0, 0, 7, 1, 4]),
      (''39'', [2, 6, 2, 1, 6, 3, 0, 5, 3, 1, 4, 1, 6, 5, 2, 9, 7, 3, 5, 0, 7, 1, 1]),
      (''4'', [5, 7, 3, 2, 7, 5, 6, 4, 9, 7, 0, 4, 7, 7, 5, 9, 7, 3, 0, 0, 6, 4, 7]),
      (''40'', [1, 0, 5, 9, 3, 2, 0, 6, 2, 2, 0, 2, 0, 6, 1, 2, 0, 2, 0, 5, 9, 8, 0])]"

definition comp_data_14 :: "champ_row list" where
  "comp_data_14 =
     [(''41'', [3, 8, 3, 3, 6, 5, 8, 5, 0, 0, 10, 5, 6, 9, 4, 9, 8, 3, 2, 0, 7, 3, 5]),
      (''412'', [1, 0, 6, 4, 6, 5, 0, 8, 2, 0, 0, 3, 0, 6, 7, 2, 0, 0, 3, 0, 7, 6, 1]),
      (''42'', [3, 7, 0, 3, 6, 7/2, 0, 7, 5, 9/2, 5, 6, 6, 6, 5, 3, 3, 0, 0, 0, 6, 2, 6]),
      (''420'', [0, 0, 0, 0, 0, 0, 0, 0, 0, 0, 0, 0, 0, 0, 0, 0, 0, 0, 0, 0, 0, 0, 0]),
      (''421'', [2, 4, 3, 1, 8, 4, 6, 4, 0, 3, 6, 1, 4, 7, 1, 3, 6, 4, 7, 0, 3, 2, 1]),
      (''427'', [0, 0, 0, 0, 0, 0, 0, 0, 0, 0, 0, 0, 0, 0, 0, 0, 0, 0, 0, 0, 0, 0, 0])]"

definition comp_data_15 :: "champ_row list" where
  "comp_data_15 =
     [(''429'', [7, 9, 2, 3, 8, 5, 0, 10, 0, 6, 10, 3, 4, 7, 6, 9, 3, 0, 0, 0, 8, 3, 6]),
      (''43'', [3, 3, 3, 5, 4, 5, 0, 5, 3, 3, 0, 5/2, 3, 4, 4, 5, 4, 0, 0, 0, 6, 6, 7]),
      (''432'', [1, 0, 6, 4, 5, 7, 3, 5, 1, 4, 0, 2, 1, 2, 3, 1, 0, 5, 0, 5, 5, 8, 0]),
      (''44'', [2, 0, 3, 1, 3, 4, 0, 4, 0, 0, 0, 1, 0, 2, 4, 3, 0, 3, 8, 3, 2, 4, 1]),
      (''45'', [7, 8, 2, 4, 5, 6, 0, 5, 10, 0, 0, 6, 4, 10, 4, 10, 3, 0, 0, 0, 7, 3, 4]),
      (''48'', [2, 2, 3, 6, 6, 6, 0, 6, 0, 4, 6, 0, 6, 5, 6, 6, 7, 7, 10, 0, 9, 6, 1])]"

definition comp_data_16 :: "champ_row list" where
  "comp_data_16 =
     [(''5'', [2, 5, 3, 5, 4, 4, 0, 3, 0, 0, 5, 0, 5, 5, 1, 6, 6, 4, 6, 0, 3, 1, 0]),
      (''50'', [3, 6, 3, 2, 4, 5, 0, 6, 7, 0, 0, 3, 5, 5, 5, 7, 4, 8, 3, 0, 6, 3, 5]),
      (''51'', [2, 7, 2, 6, 2, 0, 3, 9, 1, 6, 10, 6, 7, 6, 8, 4, 2, 0, 0, 0, 5, 3, 6]),
      (''53'', [4, 0, 6, 0, 3, 4, 0, 3, 3, 2, 1, 0, 3, 5, 5, 0, 0, 0, 3, 0, 3, 2, 1]),
      (''54'', [2, 0, 6, 1, 9, 8, 0, 4, 6, 1, 1, 2, 4, 7, 3, 5, 3, 3, 10, 0, 6, 2, 3]),
      (''55'', [9, 8, 0, 1, 5, 0, 0, 6, 9, 5, 0, 2, 5, 6, 3, 10, 5, 0, 0, 0, 7, 0, 5])]"

definition comp_data_17 :: "champ_row list" where
  "comp_data_17 =
     [(''56'', [2, 6, 1, 1, 9, 4, 4, 2, 0, 3, 7, 1, 4, 7, 2, 6, 4, 0, 5, 0, 3, 3, 3]),
      (''57'', [1, 0, 5, 1, 9, 6, 0, 4, 5, 2, 0, 2, 3, 8, 2, 3, 3, 7, 10, 0, 7, 4, 4]),
      (''58'', [4, 5, 2, 2, 6, 4, 0, 8, 0, 2, 7, 0, 5, 2, 2, 6, 5, 2, 10, 0, 4, 1, 2]),
      (''59'', [3, 2, 5, 1, 7, 7, 0, 8, 0, 2, 5, 1, 5, 4, 3, 6, 5, 0, 8, 0, 8, 3, 1]),
      (''6'', [3, 6, 2, 0, 6, 5, 0, 7, 0, 0, 8, 5, 4, 4, 1, 3, 2, 0, 5, 0, 6, 2, 0]),
      (''60'', [6, 4, 3, 2, 7, 3, 0, 1, 7, 4, 0, 2, 3, 6, 5, 5, 2, 3, 5, 0, 3, 1, 2])]"

definition comp_data_18 :: "champ_row list" where
  "comp_data_18 =
     [(''61'', [3, 8, 6, 4, 5, 8, 0, 6, 10, 2, 0, 5, 4, 8, 7, 7, 4, 0, 0, 0, 7, 7, 6]),
      (''62'', [3, 6, 3, 4, 7, 7, 0, 4, 0, 4, 8, 0, 3, 8, 3, 2, 3, 0, 5, 0, 7, 2, 1]),
      (''63'', [6, 6, 3, 2, 4, 1, 0, 5, 10, 0, 0, 3, 6, 6, 3, 0, 0, 0, 0, 0, 5, 1, 4]),
      (''64'', [7, 5, 4, 3, 7, 7, 0, 4, 0, 8, 4, 1, 4, 4, 2, 5, 2, 3, 6, 0, 4, 3, 2]),
      (''67'', [3, 10, 2, 1, 6, 3, 0, 4, 0, 3, 8, 4, 4, 9, 6, 9, 7, 0, 0, 0, 4, 1, 0]),
      (''68'', [3, 7, 4, 3, 4, 6, 0, 5, 10, 1, 0, 3, 2, 8, 7, 3, 3, 0, 0, 0, 8, 7, 5])]"

definition comp_data_19 :: "champ_row list" where
  "comp_data_19 =
     [(''69'', [4, 9, 6, 6, 4, 4, 0, 7, 10, 0, 0, 2, 5, 8, 2, 6, 3, 5, 0, 0, 7, 2, 2]),
      (''7'', [10, 8, 3, 2, 9, 2, 0, 7, 10, 9, 0, 4, 4, 7, 3, 9, 6, 0, 0, 0, 3, 1, 4]),
      (''72'', [4, 5, 4, 2, 7, 4, 0, 2, 4, 2, 4, 2, 2, 6, 2, 7, 2, 0, 8, 0, 3, 1, 1]),
      (''74'', [5/2, 7, 3, 3, 3, 1, 0, 8, 8, 0, 0, 6, 9, 5, 4, 6, 6, 0, 0, 0, 5, 3, 9]),
      (''75'', [6, 7, 1, 1, 4, 2, 0, 4, 1, 0, 7, 1, 3, 8, 4, 8, 9, 0, 8, 0, 2, 1, 2]),
      (''76'', [7, 6, 0, 1, 7, 2, 0, 2, 7, 8, 0, 6, 5, 6, 7, 9, 3, 4, 0, 2, 2, 3, 2])]"

definition comp_data_20 :: "champ_row list" where
  "comp_data_20 =
     [(''77'', [2, 3, 3, 3, 8, 5, 0, 2, 4, 5, 2, 0, 2, 6, 2, 4, 6, 4, 10, 0, 4, 1, 2]),
      (''78'', [5, 5, 7, 3, 6, 5, 0, 5, 2, 2, 5, 1, 4, 5, 4, 7, 4, 0, 8, 0, 6, 4, 1]),
      (''79'', [2, 3, 8, 4, 8, 7, 0, 5, 6, 2, 0, 3, 4, 6, 4, 4, 3, 5, 7, 0, 7, 4, 3]),
      (''8'', [4, 9, 0, 2, 5, 5, 0, 6, 10, 0, 0, 5, 5, 10, 4, 6, 6, 7, 0, 0, 6, 0, 4]),
      (''80'', [2, 5, 2, 1, 8, 6, 5, 7, 0, 4, 5, 3, 3, 5, 3, 6, 4, 1, 5, 0, 4, 2, 2]),
      (''81'', [2, 7, 0, 0, 5, 0, 5, 6, 3, 4, 7, 7, 2, 7, 7, 9, 3, 0, 0, 0, 6, 1, 3])]"

definition comp_data_21 :: "champ_row list" where
  "comp_data_21 =
     [(''82'', [3, 6, 0, 0, 7, 1, 0, 7, 8, 1, 0, 2, 5, 6, 11/2, 7, 6, 2, 3, 0, 3, 4, 4]),
      (''83'', [2, 5, 1, 1, 3, 1, 0, 8, 3, 0, 4, 6, 4, 3, 1, 3, 6, 3, 6, 0, 3, 1, 2]),
      (''84'', [7, 6, 1, 1, 5, 4, 0, 4, 7, 7, 4, 1, 4, 4, 0, 9, 5, 4, 0, 0, 3, 1, 0]),
      (''85'', [5, 6, 5, 2, 8, 7, 0, 6, 7, 3, 0, 4, 5, 4, 7, 5, 3, 0, 0, 0, 8, 2, 4]),
      (''86'', [4, 2, 1, 0, 4, 1, 0, 2, 2, 1, 5, 0, 3, 3, 2, 5, 2, 5, 7, 0, 3, 1, 2]),
      (''89'', [1, 0, 9, 3, 8, 9, 0, 7, 2, 0, 0, 0, 2, 3, 3, 3, 1, 0, 7, 0, 7, 5, 2])]"

definition comp_data_22 :: "champ_row list" where
  "comp_data_22 =
     [(''9'', [3, 6, 4, 4, 8, 6, 0, 2, 8, 1, 0, 3, 6, 6, 3, 9, 2, 6, 0, 0, 8, 3, 6]),
      (''90'', [4, 7, 4, 2, 4, 4, 0, 6, 10, 0, 0, 5, 3, 5, 6, 6, 2, 0, 0, 0, 5, 3, 6]),
      (''91'', [5, 8, 3, 2, 4, 2, 0, 6, 0, 2, 10, 6, 4, 7, 2, 7, 6, 0, 0, 0, 5, 1, 5]),
      (''92'', [6, 7, 4, 2, 3, 4, 0, 7, 0, 2, 10, 0, 6, 7, 3, 7, 7, 0, 0, 0, 5, 4, 2]),
      (''96'', [2, 10, 1, 1, 2, 0, 0, 5, 4, 0, 7, 6, 5, 10, 10, 6, 1, 0, 0, 0, 4, 1, 7]),
      (''98'', [1, 0, 3, 2, 8, 5, 7, 4, 5, 3, 0, 1, 4, 7, 5, 8, 7, 3, 10, 0, 6, 5, 0])]"

definition comp_data_23 :: "champ_row list" where
  "comp_data_23 =
     [(''99'', [6, 7, 5, 4, 3, 2, 3, 7, 10, 0, 0, 6, 7, 8, 6, 6, 1, 0, 0, 0, 4, 3, 9])]"

lemmas comp_data_defs =
  comp_data_1_def comp_data_2_def comp_data_3_def comp_data_4_def comp_data_5_def comp_data_6_def
  comp_data_7_def comp_data_8_def comp_data_9_def comp_data_10_def comp_data_11_def comp_data_12_def
  comp_data_13_def comp_data_14_def comp_data_15_def comp_data_16_def comp_data_17_def comp_data_18_def
  comp_data_19_def comp_data_20_def comp_data_21_def comp_data_22_def comp_data_23_def

definition comp_data :: "champ_row list" where
  "comp_data = concat
     [comp_data_1, comp_data_2, comp_data_3, comp_data_4, comp_data_5, comp_data_6,
      comp_data_7, comp_data_8, comp_data_9, comp_data_10, comp_data_11, comp_data_12,
      comp_data_13, comp_data_14, comp_data_15, comp_data_16, comp_data_17, comp_data_18,
      comp_data_19, comp_data_20, comp_data_21, comp_data_22, comp_data_23]"

definition champAttributes :: "string \<Rightarrow> (string \<times> real) list option" where
  "champAttributes champID = map_option (zip comp_attributes) (map_of comp_data champID)"

text \<open>
  What every row of the table has. The champions released last have a row of zeros only (Aurelion Sol,
  Taliyah, Jhin, Kled, 420 and Ivern).
\<close>

definition unrated :: "string list" where
  "unrated = [''136'', ''163'', ''202'', ''240'', ''420'', ''427'']"

definition row_ok :: "champ_row \<Rightarrow> bool" where
  "row_ok r \<longleftrightarrow> length (snd r) = 23 \<and> list_all (\<lambda>v. 0 \<le> v \<and> v \<le> 10) (snd r)
     \<and> (list_ex (\<lambda>v. 0 < v) (snd r) \<longleftrightarrow> fst r \<notin> set unrated)"

lemma comp_data_1_ok: "list_all row_ok comp_data_1"
  by (simp add: comp_data_1_def row_ok_def unrated_def)

lemma comp_data_2_ok: "list_all row_ok comp_data_2"
  by (simp add: comp_data_2_def row_ok_def unrated_def)

lemma comp_data_3_ok: "list_all row_ok comp_data_3"
  by (simp add: comp_data_3_def row_ok_def unrated_def)

lemma comp_data_4_ok: "list_all row_ok comp_data_4"
  by (simp add: comp_data_4_def row_ok_def unrated_def)

lemma comp_data_5_ok: "list_all row_ok comp_data_5"
  by (simp add: comp_data_5_def row_ok_def unrated_def)

lemma comp_data_6_ok: "list_all row_ok comp_data_6"
  by (simp add: comp_data_6_def row_ok_def unrated_def)

lemma comp_data_7_ok: "list_all row_ok comp_data_7"
  by (simp add: comp_data_7_def row_ok_def unrated_def)

lemma comp_data_8_ok: "list_all row_ok comp_data_8"
  by (simp add: comp_data_8_def row_ok_def unrated_def)

lemma comp_data_9_ok: "list_all row_ok comp_data_9"
  by (simp add: comp_data_9_def row_ok_def unrated_def)

lemma comp_data_10_ok: "list_all row_ok comp_data_10"
  by (simp add: comp_data_10_def row_ok_def unrated_def)

lemma comp_data_11_ok: "list_all row_ok comp_data_11"
  by (simp add: comp_data_11_def row_ok_def unrated_def)

lemma comp_data_12_ok: "list_all row_ok comp_data_12"
  by (simp add: comp_data_12_def row_ok_def unrated_def)

lemma comp_data_13_ok: "list_all row_ok comp_data_13"
  by (simp add: comp_data_13_def row_ok_def unrated_def)

lemma comp_data_14_ok: "list_all row_ok comp_data_14"
  by (simp add: comp_data_14_def row_ok_def unrated_def)

lemma comp_data_15_ok: "list_all row_ok comp_data_15"
  by (simp add: comp_data_15_def row_ok_def unrated_def)

lemma comp_data_16_ok: "list_all row_ok comp_data_16"
  by (simp add: comp_data_16_def row_ok_def unrated_def)

lemma comp_data_17_ok: "list_all row_ok comp_data_17"
  by (simp add: comp_data_17_def row_ok_def unrated_def)

lemma comp_data_18_ok: "list_all row_ok comp_data_18"
  by (simp add: comp_data_18_def row_ok_def unrated_def)

lemma comp_data_19_ok: "list_all row_ok comp_data_19"
  by (simp add: comp_data_19_def row_ok_def unrated_def)

lemma comp_data_20_ok: "list_all row_ok comp_data_20"
  by (simp add: comp_data_20_def row_ok_def unrated_def)

lemma comp_data_21_ok: "list_all row_ok comp_data_21"
  by (simp add: comp_data_21_def row_ok_def unrated_def)

lemma comp_data_22_ok: "list_all row_ok comp_data_22"
  by (simp add: comp_data_22_def row_ok_def unrated_def)

lemma comp_data_23_ok: "list_all row_ok comp_data_23"
  by (simp add: comp_data_23_def row_ok_def unrated_def)

lemmas comp_data_ok =
  comp_data_1_ok comp_data_2_ok comp_data_3_ok comp_data_4_ok comp_data_5_ok comp_data_6_ok
  comp_data_7_ok comp_data_8_ok comp_data_9_ok comp_data_10_ok comp_data_11_ok comp_data_12_ok
  comp_data_13_ok comp_data_14_ok comp_data_15_ok comp_data_16_ok comp_data_17_ok comp_data_18_ok
  comp_data_19_ok comp_data_20_ok comp_data_21_ok comp_data_22_ok comp_data_23_ok

lemma rows_ok: "r \<in> set comp_data \<Longrightarrow> row_ok r"
  using comp_data_ok by (auto simp: comp_data_def list_all_iff)

lemma comp_attributes_facts:
  "length comp_attributes = 23" "distinct comp_attributes" "[] \<notin> set comp_attributes"
  by (simp_all add: comp_attributes_def)

end
