(* ===== verification/Ingest_Team_Comp.thy ===== *)
theory Ingest_Team_Comp
  imports Ingest_Team_Data "HOL-Library.List_Lexorder" "HOL-Library.Char_ord"
begin

text \<open>
  How the champions of two teams compare: \<open>lolstats-master/ingest/team_comp.go\<close>. The maps are association
  lists in the order their keys were added; Go iterates over them in any order, and the choice of the key
  attributes is shown not to depend on it. Attribute names compare as Go compares strings, byte by byte.
\<close>

record team_comp =
  Attributes :: "(string \<times> (string \<times> real) list) list"
  KeyAttributes :: "string \<Rightarrow> (string \<times> real) list"
  KeyContributionPct :: real

definition no_team_comp :: team_comp where
  "no_team_comp = \<lparr>Attributes = [], KeyAttributes = (\<lambda>_. []), KeyContributionPct = 0\<rparr>"

subsection \<open>Adding the participants\<close>

definition sides_of :: "string \<Rightarrow> (string \<times> (string \<times> real) list) list \<Rightarrow> (string \<times> real) list" where
  "sides_of name attrs = (case map_of attrs name of None \<Rightarrow> [] | Some m \<Rightarrow> m)"

definition sideKey :: "participant \<Rightarrow> participant \<Rightarrow> string" where
  "sideKey me player = (if TeamID (ParticipantID me) = TeamID (ParticipantID player) then ''us'' else ''them'')"

definition add_attribute ::
  "participant \<Rightarrow> participant \<Rightarrow> string \<times> real \<Rightarrow> (string \<times> (string \<times> real) list) list
   \<Rightarrow> (string \<times> (string \<times> real) list) list"
where
  "add_attribute me player nv attrs =
     (let (name, val) = nv;
          m1 = bump val (sideKey me player) (sides_of name attrs);
          m2 = (if ParticipantID me = ParticipantID player then bump val ''me'' m1 else m1)
      in AList.update name m2 attrs)"

definition tc_AddParticipant :: "participant \<Rightarrow> participant \<Rightarrow> team_comp \<Rightarrow> team_comp" where
  "tc_AddParticipant me player tc =
     (case champAttributes (show_int (ChampionID player)) of
        None \<Rightarrow> tc
      | Some attrs \<Rightarrow> tc\<lparr>Attributes := fold (add_attribute me player) attrs (Attributes tc)\<rparr>)"

subsection \<open>The key attributes\<close>

text \<open>The entry that the next better one replaces: the least value, and the last name of these.\<close>

definition min_step :: "string \<times> real \<Rightarrow> string \<times> real \<Rightarrow> string \<times> real" where
  "min_step kv least =
     (if fst least = '''' \<or> snd kv < snd least \<or> (snd kv = snd least \<and> fst kv > fst least) then kv else least)"

definition minVal :: "(string \<times> real) list \<Rightarrow> string \<times> real" where
  "minVal m = fold min_step m ('''', 0)"

definition key_step :: "string \<times> real \<Rightarrow> (string \<times> real) list \<Rightarrow> (string \<times> real) list" where
  "key_step av teamKeys =
     (let (attr, val) = av in
      if length teamKeys < 3 then AList.update attr val teamKeys
      else let (minKey, least) = minVal teamKeys in
        if least \<le> val \<and> (least < val \<or> attr < minKey)
        then AList.update attr val (AList.delete minKey teamKeys)
        else teamKeys)"

text \<open>The loops over the attributes and their sides, of which \<open>us\<close> and \<open>them\<close> count.\<close>

definition key_loop ::
  "(string \<times> (string \<times> real) list) list \<Rightarrow> (string \<Rightarrow> (string \<times> real) list) \<Rightarrow> string \<Rightarrow> (string \<times> real) list"
where
  "key_loop attrs keys0 =
     fold (\<lambda>(attr, sideMap). fold (\<lambda>(side, val) keys.
        if side = ''me'' then keys else keys(side := key_step (attr, val) (keys side))) sideMap) attrs keys0"

definition ComputeKeyAttributes :: "team_comp \<Rightarrow> team_comp" where
  "ComputeKeyAttributes tc =
     (let keys = key_loop (Attributes tc) (\<lambda>_. []);
          mine = map (\<lambda>(attr, val). (attr, get0 (sides_of attr (Attributes tc)) ''me'')) (keys ''us'');
          myContribution = sum_list (map snd mine);
          teamTotal = sum_list (map snd (keys ''us''))
      in tc\<lparr>KeyAttributes := keys(''me'' := mine),
            KeyContributionPct := 100 * myContribution / teamTotal\<rparr>)"

subsection \<open>The best three\<close>

definition outranks :: "string \<times> real \<Rightarrow> string \<times> real \<Rightarrow> bool" where
  "outranks x y \<longleftrightarrow> snd x > snd y \<or> (snd x = snd y \<and> fst x < fst y)"

lemma outranks_trans: "outranks x y \<Longrightarrow> outranks y z \<Longrightarrow> outranks x z"
  by (auto simp: outranks_def)

lemma outranks_irrefl [simp]: "\<not> outranks x x"
  by (simp add: outranks_def)

lemma outranks_linear: "x \<noteq> y \<Longrightarrow> outranks x y \<or> outranks y x"
  by (cases x, cases y) (auto simp: outranks_def)

definition best3 :: "(string \<times> real) list \<Rightarrow> (string \<times> real) list \<Rightarrow> bool" where
  "best3 xs K \<longleftrightarrow> distinct (map fst K) \<and> set K \<subseteq> set xs \<and> length K = min 3 (length xs)
     \<and> (\<forall>x \<in> set xs - set K. \<forall>y \<in> set K. outranks y x)"

lemma minVal_loop:
  assumes "fst k0 \<noteq> ''''" and "'''' \<notin> fst ` set m"
  shows "fold min_step m k0 \<in> insert k0 (set m)
   \<and> (\<forall>y \<in> insert k0 (set m). y = fold min_step m k0 \<or> outranks y (fold min_step m k0))"
  using assms
proof (induction m arbitrary: k0)
  case (Cons x m)
  define a where "a = min_step x k0"
  have a: "fst a \<noteq> ''''" "a \<in> {x, k0}" using Cons.prems by (auto simp: a_def min_step_def)
  have low: "y = a \<or> outranks y a" if "y \<in> {x, k0}" for y
    using that Cons.prems(1) by (auto simp: a_def min_step_def outranks_def prod_eq_iff)
  define r where "r = fold min_step m a"
  have r: "r \<in> insert a (set m)" "\<forall>y \<in> insert a (set m). y = r \<or> outranks y r"
    using Cons.IH [of a] a(1) Cons.prems unfolding r_def by auto
  have "y = r \<or> outranks y r" if "y \<in> {x, k0}" for y
    using low [OF that] r(2) outranks_trans [of y a r] by (metis insertI1)
  then show ?case using r a(2) by (auto simp: r_def a_def)
qed simp

lemma minVal_least:
  assumes "m \<noteq> []" and "'''' \<notin> fst ` set m"
  shows "minVal m \<in> set m" "\<And>y. y \<in> set m \<Longrightarrow> y \<noteq> minVal m \<Longrightarrow> outranks y (minVal m)"
proof -
  obtain k r where m: "m = k # r" using assms(1) by (cases m) auto
  have e: "minVal m = fold min_step r k" by (simp add: m minVal_def min_step_def)
  show "minVal m \<in> set m" "\<And>y. y \<in> set m \<Longrightarrow> y \<noteq> minVal m \<Longrightarrow> outranks y (minVal m)"
    using minVal_loop [of k r] assms(2) unfolding e by (auto simp: m)
qed

lemma distinct_fst: "distinct (map fst xs) \<Longrightarrow> distinct xs"
  by (simp add: distinct_map)

lemma update_new: "k \<notin> fst ` set m \<Longrightarrow> AList.update k v m = m @ [(k, v)]"
  by (induction m) auto

lemma delete_pair: "distinct (map fst m) \<Longrightarrow> (k, v) \<in> set m \<Longrightarrow> set (AList.delete k m) = set m - {(k, v)}"
  by (induction m) (auto simp: image_iff AList.delete_eq)

lemma length_delete: "distinct (map fst m) \<Longrightarrow> k \<in> fst ` set m \<Longrightarrow> Suc (length (AList.delete k m)) = length m"
  by (induction m) (auto simp: image_iff)

lemma best3_step:
  assumes b: "best3 xs K" and x: "fst x \<notin> fst ` set xs" and ne: "'''' \<notin> fst ` set (xs @ [x])"
    and d: "distinct (map fst xs)"
  shows "best3 (xs @ [x]) (key_step x K)"
proof -
  obtain a v where xe: "x = (a, v)" by (cases x)
  have K: "distinct (map fst K)" "set K \<subseteq> set xs" "length K = min 3 (length xs)"
      "\<And>z y. z \<in> set xs - set K \<Longrightarrow> y \<in> set K \<Longrightarrow> outranks y z"
    using b by (auto simp: best3_def)
  have new: "a \<notin> fst ` set K" using x K(2) by (auto simp: xe)
  show ?thesis
  proof (cases "length K < 3")
    case True
    then have "length K = length xs" using K(3) by simp
    then have "card (set K) = card (set xs)" using K(1) d by (metis distinct_card distinct_fst)
    then have "set K = set xs" using K(2) by (simp add: card_subset_eq)
    then show ?thesis using True K new
      by (auto simp: best3_def key_step_def xe update_new image_iff)
  next
    case False
    then have len: "length K = 3" using K(3) by simp
    then have "K \<noteq> []" by auto
    moreover have neK: "'''' \<notin> fst ` set K" using ne K(2) by auto
    ultimately have mv: "minVal K \<in> set K" "\<And>y. y \<in> set K \<Longrightarrow> y \<noteq> minVal K \<Longrightarrow> outranks y (minVal K)"
      using minVal_least by blast+
    obtain mk l where m: "minVal K = (mk, l)" by (cases "minVal K")
    have cond: "l \<le> v \<and> (l < v \<or> a < mk) \<longleftrightarrow> outranks x (minVal K)" by (auto simp: outranks_def xe m)
    have xK: "x \<notin> set K" using new by (force simp: xe)
    show ?thesis
    proof (cases "outranks x (minVal K)")
      case True
      define D where "D = AList.delete mk K"
      have D: "set D = set K - {minVal K}" "length D = 2" "distinct (map fst D)"
        using delete_pair [OF K(1), of mk l] length_delete [OF K(1), of mk] mv(1) m len K(1) distinct_delete [of K mk]
        by (force simp: D_def)+
      have "a \<notin> fst ` set D" using new D(1) by auto
      then have e: "key_step x K = D @ [x]"
        using len True cond by (simp add: key_step_def xe m D_def update_new)
      have o: "outranks y z" if "z \<in> set (xs @ [x]) - set (D @ [x])" "y \<in> set (D @ [x])" for y z
      proof -
        have z: "z = minVal K \<or> z \<in> set xs - set K" and y: "y = x \<or> (y \<in> set K \<and> y \<noteq> minVal K)" using that D(1) by auto
        have "y = x \<or> outranks y (minVal K)" using y mv(2) by blast
        then have "outranks y (minVal K)" using True by auto
        then show ?thesis using z K(4) [of z "minVal K"] mv(1) outranks_trans by blast
      qed
      show ?thesis unfolding best3_def e using D K(2,3) len new o by (auto simp: xe image_iff)
    next
      case False
      then have e: "key_step x K = K" using cond len by (auto simp: key_step_def xe m)
      have "x \<noteq> minVal K" using xK mv(1) by auto
      then have "outranks (minVal K) x" using False outranks_linear by blast
      then have "outranks y x" if "y \<in> set K" for y using mv(2) [OF that] outranks_trans by blast
      then show ?thesis unfolding best3_def e using K len by auto
    qed
  qed
qed

lemma best3_fold:
  assumes "distinct (map fst xs)" and "'''' \<notin> fst ` set xs"
  shows "best3 xs (fold key_step xs [])"
  using assms
proof (induction xs rule: rev_induct)
  case (snoc x xs)
  then show ?case using best3_step [of xs "fold key_step xs []" x] by auto
qed (simp add: best3_def)

text \<open>The best three are those that fewer than three outrank, so they are the same in every order.\<close>

lemma best3_iff:
  assumes "best3 xs K" and "distinct (map fst xs)"
  shows "x \<in> set K \<longleftrightarrow> x \<in> set xs \<and> card {y \<in> set xs. outranks y x} < 3"
proof -
  have K: "distinct K" "set K \<subseteq> set xs" "length K = min 3 (length xs)"
      "\<And>z y. z \<in> set xs - set K \<Longrightarrow> y \<in> set K \<Longrightarrow> outranks y z"
    using assms(1) by (auto simp: best3_def distinct_fst)
  have fin: "finite {y \<in> set xs. outranks y x}" by simp
  show ?thesis
  proof (cases "x \<in> set K")
    case True
    have "{y \<in> set xs. outranks y x} \<subseteq> set K - {x}"
    proof
      fix y assume y: "y \<in> {y \<in> set xs. outranks y x}"
      then have "y \<in> set K" using K(4) [of y x] True outranks_trans [of x y x] by auto
      then show "y \<in> set K - {x}" using y by auto
    qed
    then have "card {y \<in> set xs. outranks y x} \<le> card (set K - {x})" by (simp add: card_mono)
    also have "\<dots> < 3" using True K(1,3) by (simp add: distinct_card)
    finally show ?thesis using True K(2) by auto
  next
    case False
    have "\<not> card {y \<in> set xs. outranks y x} < 3" if "x \<in> set xs"
    proof -
      have "set K \<subset> set xs" using K(2) False that by blast
      then have "length K < length xs"
        using K(1) assms(2) by (metis distinct_card distinct_fst finite_set psubset_card_mono)
      then have c: "card (set K) = 3" using K(1,3) by (simp add: distinct_card)
      have sub: "set K \<subseteq> {y \<in> set xs. outranks y x}" using K(2,4) False that by blast
      show ?thesis using card_mono [OF fin sub] c by simp
    qed
    then show ?thesis using False by blast
  qed
qed

subsection \<open>What the sums are\<close>

definition counts_for :: "participant \<Rightarrow> string \<Rightarrow> participant \<Rightarrow> bool" where
  "counts_for me side p \<longleftrightarrow> side = sideKey me p \<or> (side = ''me'' \<and> ParticipantID p = ParticipantID me)"

definition strength :: "participant \<Rightarrow> string \<Rightarrow> real" where
  "strength p name = (case champAttributes (show_int (ChampionID p)) of None \<Rightarrow> 0 | Some attrs \<Rightarrow> get0 attrs name)"

definition listed :: "participant \<Rightarrow> bool" where
  "listed p \<longleftrightarrow> champAttributes (show_int (ChampionID p)) \<noteq> None"

definition side_val :: "(string \<times> (string \<times> real) list) list \<Rightarrow> string \<Rightarrow> string \<Rightarrow> real option" where
  "side_val attrs name side = map_of (sides_of name attrs) side"

lemma sideKey_not_me: "sideKey me p \<noteq> ''me''"
  by (simp add: sideKey_def)

lemma map_of_bump: "map_of (bump d k m) j = (if j = k then Some (get0 m k + d) else map_of m j)"
  by (simp add: bump_def)

lemma side_val_add:
  "side_val (add_attribute me p (name, v) attrs) n side =
     (if n = name \<and> counts_for me side p then Some ((case side_val attrs n side of None \<Rightarrow> 0 | Some w \<Rightarrow> w) + v)
      else side_val attrs n side)"
  by (auto simp: side_val_def add_attribute_def sides_of_def counts_for_def map_of_bump get0_def sideKey_not_me
      not_sym [OF sideKey_not_me] Let_def)

lemma side_val_fold:
  assumes "distinct (map fst nvs)"
  shows "side_val (fold (add_attribute me p) nvs attrs) n side =
     (case map_of nvs n of
        Some v \<Rightarrow> if counts_for me side p then Some ((case side_val attrs n side of None \<Rightarrow> 0 | Some w \<Rightarrow> w) + v)
                 else side_val attrs n side
      | None \<Rightarrow> side_val attrs n side)"
  using assms
proof (induction nvs arbitrary: attrs)
  case (Cons x nvs)
  obtain a v where x: "x = (a, v)" by (cases x)
  have "map_of nvs a = None" using Cons.prems by (simp add: x map_of_eq_None_iff)
  then show ?case using Cons by (auto simp: x side_val_add split: option.splits)
qed simp

lemma champ_row:
  assumes "champAttributes c = Some attrs"
  shows "distinct (map fst attrs)" "map fst attrs = comp_attributes" "\<And>n v. (n, v) \<in> set attrs \<Longrightarrow> 0 \<le> v \<and> v \<le> 10"
proof -
  obtain vs where vs: "map_of comp_data c = Some vs" "attrs = zip comp_attributes vs"
    using assms by (auto simp: champAttributes_def)
  then have r: "row_ok (c, vs)" using rows_ok map_of_SomeD by fast
  then have l: "length vs = length comp_attributes" by (simp add: row_ok_def comp_attributes_facts)
  then show "map fst attrs = comp_attributes" by (simp add: vs(2))
  then show "distinct (map fst attrs)" by (simp add: comp_attributes_facts)
  show "0 \<le> v \<and> v \<le> 10" if "(n, v) \<in> set attrs" for n v
    using that r by (auto simp: vs(2) row_ok_def list_all_iff dest: set_zip_rightD)
qed

lemma strength_bounds: "0 \<le> strength p n \<and> strength p n \<le> 10"
  by (auto simp: strength_def get0_def split: option.splits dest: map_of_SomeD champ_row(3))

lemma side_val_participant:
  "side_val (Attributes (tc_AddParticipant me p tc)) n side =
     (if listed p \<and> n \<in> set comp_attributes \<and> counts_for me side p
      then Some ((case side_val (Attributes tc) n side of None \<Rightarrow> 0 | Some w \<Rightarrow> w) + strength p n)
      else side_val (Attributes tc) n side)"
proof (cases "champAttributes (show_int (ChampionID p))")
  case None
  then show ?thesis by (simp add: tc_AddParticipant_def listed_def)
next
  case (Some attrs)
  note r = champ_row [OF Some]
  have "map_of attrs n = (if n \<in> set comp_attributes then Some (strength p n) else None)"
  proof (cases "map_of attrs n")
    case None
    then show ?thesis using r(2) by (metis list.set_map map_of_eq_None_iff)
  next
    case s: (Some v)
    then have "n \<in> set comp_attributes" using r(2) by (metis list.set_map map_of_eq_None_iff option.distinct(1))
    then show ?thesis using s Some by (simp add: strength_def get0_def)
  qed
  then show ?thesis using Some r(1) by (simp add: tc_AddParticipant_def listed_def side_val_fold)
qed

definition team_sum :: "participant \<Rightarrow> participant list \<Rightarrow> string \<Rightarrow> string \<Rightarrow> real" where
  "team_sum me ps side n = sum_list (map (\<lambda>p. strength p n) (filter (counts_for me side) ps))"

lemma unlisted_strength: "\<not> listed p \<Longrightarrow> strength p n = 0"
  by (simp add: listed_def strength_def)

lemma team_sum_none: "\<forall>p \<in> set ps. listed p \<longrightarrow> \<not> counts_for me side p \<Longrightarrow> team_sum me ps side n = 0"
  by (induction ps) (auto simp: team_sum_def unlisted_strength)

lemma team_sum_Cons: "team_sum me (p # ps) side n = (if counts_for me side p then strength p n else 0) + team_sum me ps side n"
  by (simp add: team_sum_def)

lemma side_val_all:
  "side_val (Attributes (fold (tc_AddParticipant me) ps tc)) n side =
     (if n \<in> set comp_attributes \<and> (\<exists>p \<in> set ps. listed p \<and> counts_for me side p)
      then Some ((case side_val (Attributes tc) n side of None \<Rightarrow> 0 | Some w \<Rightarrow> w) + team_sum me ps side n)
      else side_val (Attributes tc) n side)"
proof (induction ps arbitrary: tc)
  case (Cons p ps)
  then show ?case using team_sum_none [of ps me side n]
    by (auto simp: side_val_participant team_sum_Cons unlisted_strength split: option.splits)
qed (simp add: team_sum_def)

text \<open>
  The attributes of a side are the sums of the strengths of its champions: \<open>us\<close> and \<open>them\<close> of the two teams,
  \<open>me\<close> of the player's own champion. A champion that the table does not know counts for nothing.
\<close>

lemma attributes_summed:
  "side_val (Attributes (fold (tc_AddParticipant me) ps no_team_comp)) n side =
     (if n \<in> set comp_attributes \<and> (\<exists>p \<in> set ps. listed p \<and> counts_for me side p)
      then Some (team_sum me ps side n) else None)"
  using side_val_all [of me ps no_team_comp n side] by (simp add: side_val_def sides_of_def no_team_comp_def)

subsection \<open>The loops over the sides\<close>

definition side_vals :: "(string \<times> (string \<times> real) list) list \<Rightarrow> string \<Rightarrow> (string \<times> real) list" where
  "side_vals attrs side = List.map_filter (\<lambda>(a, m). map_option (Pair a) (map_of m side)) attrs"

lemma side_loop:
  assumes "distinct (map fst m)" and "side \<noteq> ''me''"
  shows "fold (\<lambda>(s, val) keys. if s = ''me'' then keys else keys(s := key_step (a, val) (keys s))) m keys side =
     (case map_of m side of None \<Rightarrow> keys side | Some v \<Rightarrow> key_step (a, v) (keys side))"
  using assms
proof (induction m arbitrary: keys)
  case (Cons x m)
  obtain s v where x: "x = (s, v)" by (cases x)
  have "map_of m s = None" using Cons.prems by (simp add: x map_of_eq_None_iff)
  then show ?case using Cons by (auto simp: x split: option.splits)
qed simp

lemma key_loop_side:
  assumes "\<forall>(a, m) \<in> set attrs. distinct (map fst m)" and "side \<noteq> ''me''"
  shows "key_loop attrs keys side = fold key_step (side_vals attrs side) (keys side)"
  using assms
proof (induction attrs arbitrary: keys)
  case (Cons am attrs)
  obtain a m where am: "am = (a, m)" by (cases am)
  have d: "distinct (map fst m)" using Cons.prems by (simp add: am)
  let ?k = "fold (\<lambda>(s, val) keys. if s = ''me'' then keys else keys(s := key_step (a, val) (keys s))) m keys"
  have "key_loop (am # attrs) keys side = key_loop attrs ?k side" by (simp add: key_loop_def am)
  also have "\<dots> = fold key_step (side_vals attrs side) (?k side)" using Cons by simp
  finally show ?case using side_loop [OF d Cons.prems(2), of a keys]
    by (auto simp: side_vals_def am List.map_filter_simps split: option.splits)
qed (simp add: key_loop_def side_vals_def List.map_filter_simps)

definition wf_attributes :: "(string \<times> (string \<times> real) list) list \<Rightarrow> bool" where
  "wf_attributes attrs \<longleftrightarrow> distinct (map fst attrs) \<and> '''' \<notin> fst ` set attrs \<and> (\<forall>(a, m) \<in> set attrs. distinct (map fst m))"

lemma sides_of_distinct: "wf_attributes attrs \<Longrightarrow> distinct (map fst (sides_of n attrs))"
  by (auto simp: wf_attributes_def sides_of_def split: option.splits dest: map_of_SomeD)

lemma wf_add: "wf_attributes attrs \<Longrightarrow> n \<noteq> '''' \<Longrightarrow> wf_attributes (add_attribute me p (n, v) attrs)"
proof -
  assume w: "wf_attributes attrs" and n: "n \<noteq> ''''"
  define m where "m = (let m1 = bump v (sideKey me p) (sides_of n attrs) in
    if ParticipantID me = ParticipantID p then bump v ''me'' m1 else m1)"
  have "distinct (map fst m)" by (simp add: m_def Let_def bump_distinct sides_of_distinct [OF w])
  moreover have "set (AList.update n m attrs) \<subseteq> insert (n, m) (set attrs)"
    by (induction attrs) auto
  moreover have "add_attribute me p (n, v) attrs = AList.update n m attrs"
    by (simp add: add_attribute_def m_def Let_def)
  ultimately show ?thesis using w n
    by (auto simp: wf_attributes_def distinct_update dom_update)
qed

lemma wf_fold_add:
  "wf_attributes attrs \<Longrightarrow> '''' \<notin> fst ` set nvs \<Longrightarrow> wf_attributes (fold (add_attribute me p) nvs attrs)"
proof (induction nvs arbitrary: attrs)
  case (Cons x nvs)
  then show ?case using wf_add [of attrs "fst x" me p "snd x"] by (cases x) auto
qed simp

lemma wf_all: "wf_attributes (Attributes tc) \<Longrightarrow> wf_attributes (Attributes (fold (tc_AddParticipant me) ps tc))"
proof (induction ps arbitrary: tc)
  case (Cons p ps)
  have "wf_attributes (Attributes (tc_AddParticipant me p tc))"
  proof (cases "champAttributes (show_int (ChampionID p))")
    case (Some attrs)
    then have "'''' \<notin> fst ` set attrs" using champ_row(2) [OF Some] comp_attributes_facts(3) by (metis list.set_map)
    then show ?thesis using Cons.prems Some wf_fold_add by (simp add: tc_AddParticipant_def)
  qed (use Cons.prems in \<open>simp add: tc_AddParticipant_def\<close>)
  then show ?case using Cons.IH by simp
qed simp

lemma side_vals_set: "(a, v) \<in> set (side_vals attrs side) \<longleftrightarrow> (\<exists>m. (a, m) \<in> set attrs \<and> map_of m side = Some v)"
  by (induction attrs) (auto simp: side_vals_def List.map_filter_simps split: option.splits)

lemma side_vals_iff:
  assumes "wf_attributes attrs"
  shows "(a, v) \<in> set (side_vals attrs side) \<longleftrightarrow> side_val attrs a side = Some v"
proof -
  have "(a, m) \<in> set attrs \<longleftrightarrow> map_of attrs a = Some m" for m using assms by (simp add: wf_attributes_def)
  then show ?thesis by (auto simp: side_vals_set side_val_def sides_of_def split: option.splits)
qed

lemma side_vals_fst: "fst ` set (side_vals attrs side) \<subseteq> fst ` set attrs"
  by (force simp: side_vals_set)

lemma side_vals_distinct: "distinct (map fst attrs) \<Longrightarrow> distinct (map fst (side_vals attrs side))"
proof (induction attrs)
  case (Cons am attrs)
  then show ?case using side_vals_fst [of attrs side]
    by (cases am) (auto simp: side_vals_def List.map_filter_simps split: option.split)
qed (simp add: side_vals_def List.map_filter_simps)

lemma keys_best3:
  assumes "wf_attributes (Attributes tc)" and "side \<noteq> ''me''"
  shows "best3 (side_vals (Attributes tc) side) (KeyAttributes (ComputeKeyAttributes tc) side)"
proof -
  have "'''' \<notin> fst ` set (side_vals (Attributes tc) side)"
    using assms(1) side_vals_fst [of "Attributes tc" side] by (auto simp: wf_attributes_def)
  then show ?thesis
    using best3_fold [of "side_vals (Attributes tc) side"] side_vals_distinct assms key_loop_side [of "Attributes tc" side "\<lambda>_. []"]
    by (simp add: ComputeKeyAttributes_def Let_def wf_attributes_def case_prod_unfold)
qed

lemma wf_comp: "wf_attributes (Attributes (fold (tc_AddParticipant me) ps no_team_comp))"
  by (rule wf_all) (simp add: no_team_comp_def wf_attributes_def)

text \<open>
  The key attributes of a side are the three best: an attribute is among them exactly when fewer than
  three others have a greater sum, or an equal one and an earlier name. This fixes them whatever the
  order in which Go iterates over its maps.
\<close>

theorem key_attributes_best:
  assumes "side = ''us'' \<or> side = ''them''"
  shows "let attrs = Attributes (fold (tc_AddParticipant me) ps no_team_comp) in
         map_of (KeyAttributes (ComputeKeyAttributes (fold (tc_AddParticipant me) ps no_team_comp)) side) a = Some v \<longleftrightarrow>
           side_val attrs a side = Some v
           \<and> card {(b, w). side_val attrs b side = Some w \<and> outranks (b, w) (a, v)} < 3"
proof -
  define tc where "tc = fold (tc_AddParticipant me) ps no_team_comp"
  have wf: "wf_attributes (Attributes tc)" by (simp add: tc_def wf_comp)
  have side: "side \<noteq> ''me''" using assms by auto
  note K = keys_best3 [OF wf side]
  have "map_of (KeyAttributes (ComputeKeyAttributes tc) side) a = Some v \<longleftrightarrow>
      (a, v) \<in> set (KeyAttributes (ComputeKeyAttributes tc) side)"
    using K by (simp add: best3_def)
  also have "\<dots> \<longleftrightarrow> (a, v) \<in> set (side_vals (Attributes tc) side)
      \<and> card {y \<in> set (side_vals (Attributes tc) side). outranks y (a, v)} < 3"
    using best3_iff [OF K] side_vals_distinct wf by (simp add: wf_attributes_def)
  also have "{y \<in> set (side_vals (Attributes tc) side). outranks y (a, v)}
      = {(b, w). side_val (Attributes tc) b side = Some w \<and> outranks (b, w) (a, v)}"
    using side_vals_iff [OF wf] by auto
  finally show ?thesis using side_vals_iff [OF wf] by (simp add: tc_def Let_def)
qed

definition demo_annie :: participant where
  "demo_annie = \<lparr>ParticipantID = 1, pSummonerID = 7, pSummonerName = ''s'', ChampionID = 1, Spell1 = ''flash'', Spell2 = ''smite''\<rparr>"

lemma key_attributes_best_witness:
  "let attrs = Attributes (fold (tc_AddParticipant demo_annie) [demo_annie] no_team_comp) in
         map_of (KeyAttributes (ComputeKeyAttributes (fold (tc_AddParticipant demo_annie) [demo_annie] no_team_comp)) ''us'') ''burst'' = Some 7 \<longleftrightarrow>
           side_val attrs ''burst'' ''us'' = Some 7
           \<and> card {(b, w). side_val attrs b ''us'' = Some w \<and> outranks (b, w) (''burst'', 7)} < 3"
  by (rule key_attributes_best) simp

definition key_total :: "team_comp \<Rightarrow> real" where
  "key_total tc = sum_list (map snd (KeyAttributes tc ''us''))"

definition rated :: "participant \<Rightarrow> bool" where
  "rated p \<longleftrightarrow> listed p \<and> show_int (ChampionID p) \<notin> set unrated"

lemma rated_strength: "rated p \<longleftrightarrow> (\<exists>n \<in> set comp_attributes. 0 < strength p n)"
proof (cases "champAttributes (show_int (ChampionID p))")
  case (Some attrs)
  obtain vs where vs: "map_of comp_data (show_int (ChampionID p)) = Some vs" "attrs = zip comp_attributes vs"
    using Some by (auto simp: champAttributes_def)
  then have r: "row_ok (show_int (ChampionID p), vs)" using rows_ok map_of_SomeD by fast
  then have l: "length vs = length comp_attributes" by (simp add: row_ok_def comp_attributes_facts)
  have s: "strength p (comp_attributes ! i) = vs ! i" if "i < length vs" for i
  proof -
    have "map_of (zip comp_attributes vs) (comp_attributes ! i) = Some (vs ! i)"
      using that l comp_attributes_facts(2) by (simp add: map_of_zip_nth)
    then show ?thesis using Some vs(2) by (simp add: strength_def get0_def)
  qed
  have "(\<exists>n \<in> set comp_attributes. 0 < strength p n) \<longleftrightarrow> (\<exists>i < length vs. 0 < vs ! i)"
    using s l by (metis in_set_conv_nth)
  also have "\<dots> \<longleftrightarrow> list_ex (\<lambda>v. 0 < v) vs" unfolding list_ex_iff by (metis in_set_conv_nth)
  also have "\<dots> \<longleftrightarrow> rated p" using r Some by (simp add: row_ok_def rated_def listed_def)
  finally show ?thesis by simp
qed (simp add: rated_def listed_def strength_def)

lemma team_sum_nonneg: "0 \<le> team_sum me ps side n"
  by (induction ps) (simp_all add: team_sum_Cons strength_bounds, simp add: team_sum_def)

lemma team_sum_pos: "0 < team_sum me ps side n \<longleftrightarrow> (\<exists>p \<in> set ps. counts_for me side p \<and> 0 < strength p n)"
proof (induction ps)
  case (Cons p ps)
  have "0 \<le> strength p n" by (simp add: strength_bounds)
  then show ?case using Cons team_sum_nonneg [of me ps side n] by (auto simp: team_sum_Cons intro: add_pos_nonneg add_nonneg_pos)
qed (simp add: team_sum_def)

lemma team_sum_me: "team_sum me ps ''me'' n \<le> team_sum me ps ''us'' n"
proof (induction ps)
  case (Cons p ps)
  have "0 \<le> strength p n" by (simp add: strength_bounds)
  then show ?case using Cons by (auto simp: team_sum_Cons counts_for_def sideKey_def)
qed (simp add: team_sum_def)


lemma side_sum:
  "side_val (Attributes (fold (tc_AddParticipant me) ps no_team_comp)) n side = Some v \<Longrightarrow> v = team_sum me ps side n"
  by (simp add: attributes_summed split: if_splits)

definition compared :: "participant \<Rightarrow> participant list \<Rightarrow> team_comp" where
  "compared me ps = ComputeKeyAttributes (fold (tc_AddParticipant me) ps no_team_comp)"

abbreviation our_keys :: "participant \<Rightarrow> participant list \<Rightarrow> (string \<times> real) list" where
  "our_keys me ps \<equiv> KeyAttributes (compared me ps) ''us''"

lemma our_keys_best:
  "best3 (side_vals (Attributes (fold (tc_AddParticipant me) ps no_team_comp)) ''us'') (our_keys me ps)"
  unfolding compared_def by (rule keys_best3 [OF wf_comp]) simp

lemma our_keys_sum:
  assumes "(a, v) \<in> set (our_keys me ps)"
  shows "a \<in> set comp_attributes" "v = team_sum me ps ''us'' a" "0 \<le> v"
proof -
  have "side_val (Attributes (fold (tc_AddParticipant me) ps no_team_comp)) a ''us'' = Some v"
    using assms our_keys_best [of me ps] side_vals_iff [OF wf_comp] by (auto simp: best3_def)
  then show "a \<in> set comp_attributes" "v = team_sum me ps ''us'' a" "0 \<le> v"
    using team_sum_nonneg by (auto simp: attributes_summed split: if_splits)
qed

lemma my_share:
  assumes "(a, v) \<in> set (our_keys me ps)"
  shows "0 \<le> get0 (sides_of a (Attributes (fold (tc_AddParticipant me) ps no_team_comp))) ''me'' \<and>
         get0 (sides_of a (Attributes (fold (tc_AddParticipant me) ps no_team_comp))) ''me'' \<le> v"
proof (cases "side_val (Attributes (fold (tc_AddParticipant me) ps no_team_comp)) a ''me''")
  case None
  then show ?thesis using our_keys_sum(3) [OF assms] by (simp add: side_val_def get0_def)
next
  case (Some w)
  then have "w = team_sum me ps ''me'' a" by (rule side_sum)
  then show ?thesis using Some our_keys_sum [OF assms] team_sum_nonneg team_sum_me by (simp add: side_val_def get0_def)
qed

lemma contribution_bounds: "0 \<le> KeyContributionPct (compared me ps) \<and> KeyContributionPct (compared me ps) \<le> 100"
proof -
  define tc0 where "tc0 = fold (tc_AddParticipant me) ps no_team_comp"
  define c where "c = sum_list (map (\<lambda>(a, v). get0 (sides_of a (Attributes tc0)) ''me'') (our_keys me ps))"
  have pct: "KeyContributionPct (compared me ps) = 100 * c / key_total (compared me ps)"
    by (simp add: compared_def tc0_def [symmetric] ComputeKeyAttributes_def Let_def c_def key_total_def comp_def case_prod_unfold)
  have "0 \<le> c" unfolding c_def tc0_def using my_share by (intro sum_list_nonneg) force
  moreover have "c \<le> key_total (compared me ps)"
    unfolding c_def key_total_def tc0_def by (rule sum_list_mono) (use my_share in force)
  ultimately show ?thesis by (cases "key_total (compared me ps) = 0") (auto simp: pct divide_le_eq)
qed

lemma sum_list_pos:
  fixes xs :: "real list"
  assumes "\<forall>v \<in> set xs. 0 \<le> v"
  shows "0 < sum_list xs \<longleftrightarrow> (\<exists>v \<in> set xs. 0 < v)"
  using assms
proof (induction xs)
  case (Cons x xs)
  have "0 \<le> sum_list xs" using Cons.prems by (simp add: sum_list_nonneg)
  then show ?case using Cons by (auto intro: add_pos_nonneg add_nonneg_pos)
qed simp

lemma key_total_pos: "key_total (compared me ps) > 0 \<longleftrightarrow> (\<exists>x \<in> set (our_keys me ps). 0 < snd x)"
proof -
  have "\<forall>v \<in> set (map snd (our_keys me ps)). 0 \<le> v" using our_keys_sum(3) [of "fst x" "snd x" me ps for x] by auto
  from sum_list_pos [OF this] show ?thesis by (simp add: key_total_def)
qed

text \<open>
  The contribution of a player to the key attributes of its team lies between 0 and 100 percent. The
  total it is a share of is positive exactly when the team has a champion with a row that is not all
  zeros; for a team of the champions released last it is 0, and the quotient of the code is not a number.
\<close>

theorem contribution_percent:
  "0 \<le> KeyContributionPct (compared me ps) \<and> KeyContributionPct (compared me ps) \<le> 100
   \<and> (key_total (compared me ps) > 0
      \<longleftrightarrow> (\<exists>p \<in> set ps. TeamID (ParticipantID p) = TeamID (ParticipantID me) \<and> rated p))"
proof (intro conjI)
  show "key_total (compared me ps) > 0 \<longleftrightarrow> (\<exists>p \<in> set ps. TeamID (ParticipantID p) = TeamID (ParticipantID me) \<and> rated p)"
  proof
    assume "key_total (compared me ps) > 0"
    then obtain a v where "(a, v) \<in> set (our_keys me ps)" "v > 0" using key_total_pos by fastforce
    then have a: "0 < team_sum me ps ''us'' a" "a \<in> set comp_attributes" using our_keys_sum by auto
    then show "\<exists>p \<in> set ps. TeamID (ParticipantID p) = TeamID (ParticipantID me) \<and> rated p"
      unfolding team_sum_pos rated_strength by (auto simp: counts_for_def sideKey_def split: if_splits)
  next
    assume "\<exists>p \<in> set ps. TeamID (ParticipantID p) = TeamID (ParticipantID me) \<and> rated p"
    then obtain p where "p \<in> set ps" "counts_for me ''us'' p" "rated p" by (auto simp: counts_for_def sideKey_def)
    moreover then obtain n where "n \<in> set comp_attributes" "0 < strength p n" "listed p"
      using rated_def rated_strength by blast
    ultimately have p: "p \<in> set ps" "counts_for me ''us'' p" "n \<in> set comp_attributes" "0 < strength p n" "listed p" by auto
    define vs where "vs = side_vals (Attributes (fold (tc_AddParticipant me) ps no_team_comp)) ''us''"
    define v where "v = team_sum me ps ''us'' n"
    have v: "0 < v" using p team_sum_pos unfolding v_def by blast
    have s: "(n, v) \<in> set vs" unfolding vs_def side_vals_iff [OF wf_comp] using p by (auto simp: attributes_summed v_def)
    have K: "best3 vs (our_keys me ps)" using our_keys_best by (simp add: vs_def)
    then have "length (our_keys me ps) > 0" using s by (cases vs) (auto simp: best3_def)
    then obtain x where x: "x \<in> set (our_keys me ps)" using nth_mem by blast
    then have "(n, v) \<in> set (our_keys me ps) \<or> outranks x (n, v)" using K s unfolding best3_def by blast
    then have "(n, v) \<in> set (our_keys me ps) \<or> v \<le> snd x" by (auto simp: outranks_def)
    then show "key_total (compared me ps) > 0" unfolding key_total_pos using x v
      by (auto intro: bexI [of _ "(n, v)"] bexI [of _ x])
  qed
qed (use contribution_bounds in auto)

end
