(* ===== verification/Ingest_Fight_Facts.thy ===== *)
theory Ingest_Fight_Facts
  imports Ingest_Fights
begin

text \<open>
  More on team fights: the window of recent states and the search in it, the sides of a fight, and the
  counts of significant fights.
\<close>

subsection \<open>The window of recent states\<close>

text \<open>At least a quarter of a second from state to state, and no state older than half a minute.\<close>

definition window_ok :: "aug_state list \<Rightarrow> bool" where
  "window_ok states \<longleftrightarrow>
     successively (\<lambda>a b. stSeconds a + 1 / 4 \<le> stSeconds b) states
     \<and> (\<forall>st \<in> set states. stSeconds (List.last states) - 30 \<le> stSeconds st)"

lemma successively_drop: "successively P xs \<Longrightarrow> successively P (drop n xs)"
  by (metis append_take_drop_id successively_append_iff)

lemma spaced_first_last:
  "successively (\<lambda>a b. stSeconds a + 1 / 4 \<le> stSeconds b) (st # states) \<Longrightarrow>
     stSeconds st + real (length states) / 4 \<le> stSeconds (List.last (st # states))"
proof (induction states arbitrary: st)
  case (Cons u us)
  then have "stSeconds st + 1 / 4 \<le> stSeconds u" "stSeconds u + real (length us) / 4 \<le> stSeconds (List.last (u # us))"
    by (simp_all add: successively_Cons)
  then show ?case by (simp add: field_simps)
qed simp

lemma window_length: "window_ok states \<Longrightarrow> length states \<le> 121"
proof (cases states)
  case (Cons st sts)
  assume w: "window_ok states"
  then have "stSeconds st + real (length sts) / 4 \<le> stSeconds (List.last states)"
    using spaced_first_last [of st sts] Cons by (simp add: window_ok_def)
  moreover have "stSeconds (List.last states) - 30 \<le> stSeconds st" using w Cons by (simp add: window_ok_def)
  ultimately show ?thesis using Cons by simp
qed simp

lemma window_map:
  assumes "map stSeconds states' = map stSeconds states" and "window_ok states"
  shows "window_ok states'"
proof -
  have w: "window_ok xs \<longleftrightarrow> successively (\<lambda>a b. a + 1 / 4 \<le> b) (map stSeconds xs)
      \<and> (\<forall>s \<in> set (map stSeconds xs). List.last (map stSeconds xs) - 30 \<le> s)" for xs
    by (cases "xs = []") (simp_all add: window_ok_def successively_map last_map)
  show ?thesis using assms unfolding w by simp
qed

lemma on_last_seconds: "(\<And>st. stSeconds (f st) = stSeconds st) \<Longrightarrow> map stSeconds (on_last f states) = map stSeconds states"
  by (cases states rule: rev_cases) (simp_all add: on_last_def)

lemma new_seconds [simp]: "stSeconds (NewAugmentedState s p) = s"
  by (cases p) (simp_all add: NewAugmentedState_def Let_def)

lemma window_history: "window_ok states \<Longrightarrow> window_ok (updateRecentHistory s states)"
proof (cases "states \<noteq> [] \<and> s - stSeconds (List.last states) < windowGranularity")
  case False
  assume w: "window_ok states"
  let ?n = "NewAugmentedState s (if states = [] then None else Some (List.last states))"
  let ?new = "updateRecentHistory s states"
  have new: "?new = dropWhile (\<lambda>st. stSeconds st < s - windowSeconds) (states @ [?n])"
    using False by (auto simp: updateRecentHistory_def)
  have "successively (\<lambda>a b. stSeconds a + 1 / 4 \<le> stSeconds b) (states @ [?n])"
    using w False by (auto simp: window_ok_def successively_append_iff windowGranularity_def)
  then have sp: "successively (\<lambda>a b. stSeconds a + 1 / 4 \<le> stSeconds b) ?new"
    unfolding new by (metis dropWhile_eq_drop successively_drop)
  have ne: "?new \<noteq> []" unfolding new by (auto simp: dropWhile_eq_Nil_conv windowSeconds_def)
  have last: "stSeconds (List.last ?new) = s"
    using ne unfolding new by (metis last_snoc last_appendR dropWhile_eq_drop last_drop new_seconds drop_eq_Nil2 not_le_imp_less)
  have hd: "s - 30 \<le> stSeconds (hd ?new)"
    using hd_dropWhile [of "\<lambda>st. stSeconds st < s - windowSeconds" "states @ [?n]"] ne
    unfolding new by (simp add: windowSeconds_def)
  have "stSeconds (hd ?new) \<le> stSeconds st" if "st \<in> set ?new" for st
  proof -
    have "successively (\<lambda>a b. stSeconds a \<le> stSeconds b) ?new"
      using sp by (rule successively_mono) simp
    then have "sorted_wrt (\<lambda>a b. stSeconds a \<le> stSeconds b) ?new"
      by (subst (asm) successively_conv_sorted_wrt) (auto intro: transpI)
    then show ?thesis using that ne by (cases ?new) auto
  qed
  with hd have "s - 30 \<le> stSeconds st" if "st \<in> set ?new" for st using that by force
  with sp last show ?thesis by (simp add: window_ok_def)
qed (simp add: updateRecentHistory_def)


lemma track_damage_seconds: "track_damage s t fa = Ok fa' \<Longrightarrow> map stSeconds (RecentStates fa') = map stSeconds (RecentStates fa)"
  by (auto simp: track_damage_def Let_def nil_panic_def map_update add_neutral_def list_update_same_conv
      split: option.splits if_splits dest!: findClosest_range)
    (metis findClosest_range length_map list_update_id map_update nth_map)?

lemma window_step:
  assumes "fight_step wa s e fa = Ok fa'" and "window_ok (RecentStates fa)"
  shows "window_ok (RecentStates fa')"
proof -
  have start: "RecentStates fa2 = RecentStates fa1" if "startTeamFight wa v s fa1 = Ok fa2" for v fa1 fa2
    using that by (cases rule: startTeamFight_cases) simp_all
  have [simp]: "RecentStates (set_fight tf f) = RecentStates f" for tf f by (simp add: set_fight_def)
  show ?thesis
  proof (cases e)
    case (DamageF t)
    then have "fa_AddDamage wa s t fa = Ok fa'" using assms(1) by simp
    then show ?thesis
      by (rule AddDamage_split) (use assms(2) start window_map [OF track_damage_seconds] in auto)
  next
    case (UpdateF t)
    have "window_ok (on_last (updateState s t) (updateRecentHistory s (RecentStates fa)))"
      using window_map [OF on_last_seconds] window_history [OF assms(2)] updateState_fields(1) by blast
    with UpdateF assms(1) show ?thesis
      by (auto simp: fa_AddStateUpdate_def Let_def bind_ok_Ok nil_panic_def split: option.splits)
  next
    case (DeathF v)
    then have "fa_AddDeath wa s v fa = Ok fa'" using assms(1) by simp
    then show ?thesis
      by (rule AddDeath_split) (use assms(2) start window_map [OF on_last_seconds] in \<open>auto simp: updateDeath_def\<close>)
  qed (use assms window_map [OF on_last_seconds] in
      \<open>auto simp: fa_AddLevelUp_def fa_AddAttack_def fa_AddTurretKill_def split: if_splits option.splits\<close>)
qed

text \<open>
  The history never holds more than 121 states, whatever the order and the times of the events:
  neighbours are a quarter of a second apart, and none is more than thirty seconds older than the
  newest.
\<close>

theorem history_bounded:
  assumes "run_fights es (NewTeamFightAnalysis pID dur) = Ok fa"
  shows "length (RecentStates fa) \<le> 121
     \<and> (\<forall>st \<in> set (RecentStates fa). stSeconds (List.last (RecentStates fa)) - 30 \<le> stSeconds st)"
proof -
  have "window_ok (RecentStates fa)"
    by (rule run_fights_induct [OF assms]) (auto intro: window_step, simp add: NewTeamFightAnalysis_def window_ok_def)
  then show ?thesis using window_length by (simp add: window_ok_def)
qed

subsection \<open>The search in the window\<close>

lemma closest_min:
  assumes "closest_loop t es \<bar>t - stSeconds si\<bar> (Some i) = Some k"
    and "sorted_wrt (\<lambda>a b. stSeconds (snd b) < stSeconds (snd a)) ((i, si) # es)"
    and "\<forall>x \<in> set es. length (ChampPositions (snd x)) = 10"
  shows "\<exists>sk. (k, sk) \<in> set ((i, si) # es) \<and> (\<forall>x \<in> set ((i, si) # es). \<bar>t - stSeconds sk\<bar> \<le> \<bar>t - stSeconds (snd x)\<bar>)"
  using assms
proof (induction es arbitrary: i si)
  case (Cons x es)
  obtain j sj where x: "x = (j, sj)" by fastforce
  with Cons.prems(3) have len: "length (ChampPositions sj) = 10" by simp
  show ?case
  proof (cases "\<bar>t - stSeconds sj\<bar> < \<bar>t - stSeconds si\<bar>")
    case True
    then have "closest_loop t es \<bar>t - stSeconds sj\<bar> (Some j) = Some k" using Cons.prems(1) x len by simp
    from Cons.IH [OF this] Cons.prems(2,3) x obtain sk where "(k, sk) \<in> set ((j, sj) # es)"
      "\<forall>y \<in> set ((j, sj) # es). \<bar>t - stSeconds sk\<bar> \<le> \<bar>t - stSeconds (snd y)\<bar>" by auto
    with True x show ?thesis by (intro exI [of _ sk]) force
  next
    case False
    then have k: "k = i" using Cons.prems(1) x len by simp
    have lt: "stSeconds sj < stSeconds si" "\<forall>y \<in> set es. stSeconds (snd y) < stSeconds sj"
      using Cons.prems(2) x by auto
    with False have "stSeconds sj \<le> t" by linarith
    have "\<bar>t - stSeconds si\<bar> \<le> \<bar>t - stSeconds (snd y)\<bar>" if "y \<in> set es" for y
    proof -
      have "stSeconds (snd y) < stSeconds sj" using lt(2) that by blast
      with \<open>stSeconds sj \<le> t\<close> False show ?thesis by linarith
    qed
    with False k x show ?thesis by (intro exI [of _ si]) auto
  qed
qed simp

text \<open>
  In a window whose states all have ten positions the search finds a state nearest in time,
  although it stops at the first state that is farther away than the one before.
\<close>

theorem closest_state:
  assumes "window_ok states" and "\<forall>st \<in> set states. length (ChampPositions st) = 10"
    and "findClosest t states = Some k"
  shows "k < length states \<and> (\<forall>st \<in> set states. \<bar>t - stSeconds (states ! k)\<bar> \<le> \<bar>t - stSeconds st\<bar>)"
proof -
  let ?es = "rev (List.enumerate 0 states)"
  have "successively (\<lambda>a b. stSeconds a < stSeconds b) states"
    using assms(1) unfolding window_ok_def by (metis (no_types, lifting) successively_mono less_add_same_cancel1 less_le_trans zero_less_divide_1_iff zero_less_numeral)
  then have "sorted_wrt (\<lambda>a b. stSeconds a < stSeconds b) states"
    by (subst (asm) successively_conv_sorted_wrt) (auto intro: transpI)
  then have "sorted_wrt (\<lambda>a b. stSeconds a < stSeconds b) (map snd (List.enumerate 0 states))" by simp
  then have sw: "sorted_wrt (\<lambda>a b. stSeconds (snd b) < stSeconds (snd a)) ?es"
    by (simp only: sorted_wrt_map sorted_wrt_rev)
  have in_es: "(j, st) \<in> set ?es \<longleftrightarrow> j < length states \<and> states ! j = st" for j st
    by (auto simp: in_set_enumerate_eq)
  then have len: "\<forall>x \<in> set ?es. length (ChampPositions (snd x)) = 10"
    using assms(2) by (metis nth_mem prod.collapse)
  show ?thesis
  proof (cases ?es)
    case Nil
    with assms(3) show ?thesis by (simp add: findClosest_def)
  next
    case (Cons y ys)
    obtain i si where y: "y = (i, si)" by fastforce
    with Cons len have "length (ChampPositions si) = 10" by simp
    with assms(3) Cons y have "closest_loop t ys \<bar>t - stSeconds si\<bar> (Some i) = Some k"
      by (auto simp: findClosest_def split: if_splits)
    from closest_min [OF this] sw len Cons y obtain sk where k: "(k, sk) \<in> set ?es"
      and "\<forall>x \<in> set ?es. \<bar>t - stSeconds sk\<bar> \<le> \<bar>t - stSeconds (snd x)\<bar>" by auto
    moreover have "\<exists>j. (j, st) \<in> set ?es" if "st \<in> set states" for st
      using that in_es by (metis in_set_conv_nth)
    ultimately show ?thesis using in_es by fastforce
  qed
qed

lemma demo_find: "findClosest 90 [demo_state] = Some 0"
  by (simp add: findClosest_def enumerate_eq_zip demo_state_def)

theorem closest_state_witness:
  "0 < length [demo_state] \<and> (\<forall>st \<in> set [demo_state]. \<bar>90 - stSeconds ([demo_state] ! 0)\<bar> \<le> \<bar>90 - stSeconds st\<bar>)"
  by (rule closest_state [OF _ _ demo_find]) (simp_all add: window_ok_def demo_state_def)

subsection \<open>The sides of a fight\<close>

text \<open>
  The dead of a fight took part in it, the kills on the other team and the deaths on the own one, and
  an influencer is a champion that was not there at the start.
\<close>

definition sides_ok :: "int \<Rightarrow> team_fight \<Rightarrow> bool" where
  "sides_ok me tf \<longleftrightarrow>
     set (TeamKills tf) \<subseteq> {v \<in> set (ParticipantIDs tf) \<union> set (InfluencerIDs tf). TeamID v = EnemyTeamID me}
     \<and> set (TeamDeaths tf) \<subseteq> {v \<in> set (ParticipantIDs tf) \<union> set (InfluencerIDs tf). TeamID v = TeamID me}
     \<and> set (InfluencerIDs tf) \<inter> set (ParticipantIDs tf) = {} \<and> (\<forall>i \<in> set (InfluencerIDs tf). TeamID i \<noteq> 0)
     \<and> distinct (TeamKills tf) \<and> distinct (TeamDeaths tf)
     \<and> (\<exists>p \<in> set (ParticipantIDs tf). TeamID p \<noteq> TeamID me)"

lemma insert_key_set [simp]: "set (insert_key k ks) = insert k (set ks)" "distinct (insert_key k ks) = distinct ks"
  by (auto simp: insert_key_def)

lemma sides_damage: "sides_ok me tf \<Longrightarrow> sides_ok me (damage_fight me b t tf)"
proof -
  assume s: "sides_ok me tf"
  have "TeamKills (damage_fight me b t tf) = TeamKills tf" "TeamDeaths (damage_fight me b t tf) = TeamDeaths tf"
    "InfluencerIDs (damage_fight me b t tf) =
       (if dAttackerID t \<notin> set (ParticipantIDs tf) \<and> VictimID t \<in> set (ParticipantIDs tf) \<and> TeamID (dAttackerID t) \<noteq> 0
        then insert_key (dAttackerID t) (InfluencerIDs tf) else InfluencerIDs tf)"
    by (simp_all add: damage_fight_def Let_def)
  with s show "sides_ok me (damage_fight me b t tf)" unfolding sides_ok_def by auto
qed

lemma sides_death: "sides_ok me tf \<Longrightarrow> sides_ok me (death_fight me v tf)"
  by (auto simp: sides_ok_def death_fight_def)

definition all_sides :: "fight_analysis \<Rightarrow> bool" where
  "all_sides fa \<longleftrightarrow> (\<forall>tf \<in> set (TeamFights fa). sides_ok (faParticipant fa) tf)"

lemma all_sides_start:
  assumes "startTeamFight wa v s fa = Ok fa'" and "all_sides fa"
  shows "all_sides fa'"
  using assms(1)
  by (cases rule: startTeamFight_cases) (use assms(2) in \<open>auto simp: all_sides_def sides_ok_def\<close>)

lemma all_sides_set:
  assumes "all_sides fa" and "currentFight fa = Some tf" and "sides_ok (faParticipant fa) tf \<Longrightarrow> sides_ok (faParticipant fa) tf'"
  shows "all_sides (set_fight tf' fa)"
proof -
  have "tf \<in> set (TeamFights fa)" using assms(2) by (auto simp: currentFight_def split: if_splits)
  then show ?thesis using assms(1,3) by (auto simp: all_sides_def set_fight_def dest: in_set_butlastD)
qed

lemma all_sides_step:
  assumes "fight_step wa s e fa = Ok fa'" and "all_sides fa"
  shows "all_sides fa'"
proof (cases e)
  case (DamageF t)
  then have "fa_AddDamage wa s t fa = Ok fa'" using assms(1) by simp
  then show ?thesis
  proof (rule AddDamage_split)
    fix fa1 fa2
    assume "track_damage s t fa = Ok fa1"
      and fa2: "fa2 = fa1 \<or> (currentFight fa1 = None \<and> startTeamFight wa (VictimID t) s fa1 = Ok fa2)"
      and fa': "fa' = fa2 \<or> (\<exists>b tf. currentFight fa2 = Some tf \<and> fa' = set_fight (damage_fight (faParticipant fa2) b t tf) fa2)"
    then have "all_sides fa1" using track_damage_same assms(2) by (auto simp: all_sides_def same_fights_def)
    then have "all_sides fa2" using fa2 all_sides_start by blast
    then show ?thesis using fa' all_sides_set sides_damage by blast
  qed
next
  case (UpdateF t)
  let ?fa1 = "fa\<lparr>RecentStates := on_last (updateState s t) (updateRecentHistory s (RecentStates fa))\<rparr>"
  have a: "all_sides ?fa1" using assms(2) by (simp add: all_sides_def)
  have c: "sides_ok me (computeNetGoldDiff q st tf) = sides_ok me tf" "sides_ok me (tf\<lparr>End := x\<rparr>) = sides_ok me tf" for me q st tf x
    by (simp_all add: sides_ok_def computeNetGoldDiff_def split: prod.split)
  from UpdateF assms(1) consider "fa' = ?fa1"
    | tf tf' where "currentFight ?fa1 = Some tf" "fa' = set_fight tf' ?fa1" "\<And>me. sides_ok me tf' = sides_ok me tf"
    using c by (auto simp: fa_AddStateUpdate_def Let_def bind_ok_Ok nil_panic_def split: option.splits)
  then show ?thesis
  proof cases
    case (2 tf tf')
    then show ?thesis using all_sides_set [OF a 2(1), of tf'] by simp
  qed (use a in simp)
next
  case (DeathF v)
  then have "fa_AddDeath wa s v fa = Ok fa'" using assms(1) by simp
  then show ?thesis
  proof (rule AddDeath_split)
    fix fa1 fa2
    assume "fa1 = fa \<or> (currentFight fa = None \<and> startTeamFight wa v s fa = Ok fa1)"
      and fa2: "fa2 = fa1 \<or> (\<exists>tf. currentFight fa1 = Some tf \<and> fa2 = set_fight (death_fight (faParticipant fa1) v tf) fa1)"
      and fa': "fa' = fa2\<lparr>RecentStates := on_last (updateDeath s v) (RecentStates fa2)\<rparr>"
    then have "all_sides fa1" using all_sides_start assms(2) by blast
    then have "all_sides fa2" using fa2 all_sides_set sides_death by blast
    then show ?thesis using fa' by (simp add: all_sides_def)
  qed
qed (use assms in \<open>auto simp: fa_AddLevelUp_def fa_AddAttack_def fa_AddTurretKill_def all_sides_def split: if_splits option.splits\<close>)



text \<open>A match in which all ten participants stand together when participant 7 dies.\<close>

definition demo_updates :: "int list \<Rightarrow> (real \<times> ward_analysis \<times> fight_event) list" where
  "demo_updates ps = map (\<lambda>p. (100, NewWardAnalysis, UpdateF (demo_ping p))) ps"

definition demo_final :: "int list \<Rightarrow> aug_state \<Rightarrow> aug_state" where
  "demo_final ps st = fold (\<lambda>p. updateState 100 (demo_ping p)) ps st"

lemma demo_updates_first:
  "run_fights (demo_updates (p # ps) @ es) fa
     = bind_ok (fa_AddStateUpdate 100 (demo_ping p) fa) (run_fights (demo_updates ps @ es))"
  by (simp add: demo_updates_def)

lemma demo_updates_run:
  "RecentStates fa = [st] \<Longrightarrow> stSeconds st = 100 \<Longrightarrow> TeamFights fa = [] \<Longrightarrow>
     run_fights (demo_updates ps @ es) fa = run_fights es (fa\<lparr>RecentStates := [demo_final ps st]\<rparr>)"
proof (induction ps arbitrary: st fa)
  case Nil
  then have "fa\<lparr>RecentStates := [st]\<rparr> = fa" by (cases fa) simp
  then show ?case by (simp add: demo_updates_def demo_final_def)
next
  case (Cons p ps)
  let ?fa = "fa\<lparr>RecentStates := [updateState 100 (demo_ping p) st]\<rparr>"
  have "fa_AddStateUpdate 100 (demo_ping p) fa = Ok ?fa"
    using Cons.prems by (simp add: fa_AddStateUpdate_def updateRecentHistory_def windowGranularity_def on_last_def
        currentFight_def Let_def)
  then have "run_fights (demo_updates (p # ps) @ es) fa = run_fights (demo_updates ps @ es) ?fa"
    by (simp add: demo_updates_def)
  also have "... = run_fights es (?fa\<lparr>RecentStates := [demo_final ps (updateState 100 (demo_ping p) st)]\<rparr>)"
    using Cons.prems(2,3) by (intro Cons.IH) (simp_all add: updateState_fields)
  finally show ?case by (simp add: demo_final_def)
qed

lemma demo_final_fields:
  "stSeconds (demo_final ps st) = stSeconds st"
  "ChampPositions (demo_final ps st) = fold (\<lambda>p. AList.update p (Some demo_place)) ps (ChampPositions st)"
  "(\<forall>i. IsAlive st i \<longrightarrow> IsAlive (demo_final ps st) i)"
  unfolding demo_final_def
  by (induction ps arbitrary: st) (simp_all add: updateState_fields demo_ping_def, simp add: updateState_def Let_def)

definition demo_match :: "(real \<times> ward_analysis \<times> fight_event) list" where
  "demo_match = demo_updates [1..10] @ [(101, NewWardAnalysis, DeathF 7)]"

lemma demo_match_run:
  "\<exists>fa. run_fights demo_match (NewTeamFightAnalysis 3 1800) = Ok fa \<and> faParticipant fa = 3
     \<and> map TeamKills (TeamFights fa) = [[7]]"
proof -
  have u: "[1..10::int] = 1 # [2..10]" "[2..10::int] = [2,3,4,5,6,7,8,9,10]" by (simp_all add: upto.simps)
  define st where "st = demo_final [2..10] (updateState 100 (demo_ping 1) (NewAugmentedState 100 None))"
  define fa where "fa = (NewTeamFightAnalysis 3 1800)\<lparr>RecentStates := [st]\<rparr>"
  let ?fa0 = "(NewTeamFightAnalysis 3 1800)\<lparr>RecentStates := [updateState 100 (demo_ping 1) (NewAugmentedState 100 None)]\<rparr>"
  have "fa_AddStateUpdate 100 (demo_ping 1) (NewTeamFightAnalysis 3 1800) = Ok ?fa0"
    by (simp add: fa_AddStateUpdate_def updateRecentHistory_def on_last_def
        currentFight_def Let_def NewTeamFightAnalysis_def windowSeconds_def)
  then have "run_fights demo_match (NewTeamFightAnalysis 3 1800)
      = run_fights (demo_updates [2..10] @ [(101, NewWardAnalysis, DeathF 7)]) ?fa0"
    unfolding demo_match_def u(1) demo_updates_first by (simp only: bind_ok.simps)
  also have "... = run_fights [(101, NewWardAnalysis, DeathF 7)] fa"
    by (subst demo_updates_run [of _ "updateState 100 (demo_ping 1) (NewAugmentedState 100 None)"])
      (simp_all add: updateState_fields fa_def st_def NewTeamFightAnalysis_def)
  finally have run: "run_fights demo_match (NewTeamFightAnalysis 3 1800) = run_fights [(101, NewWardAnalysis, DeathF 7)] fa" .
  have sec: "stSeconds st = 100" by (simp add: st_def demo_final_fields updateState_fields)
  have pos: "ChampPositions st = map (\<lambda>i. (i, Some demo_place)) [1..10]"
    by (simp add: st_def demo_final_fields updateState_fields u demo_ping_def NewAugmentedState_def Let_def)
  have alive: "IsAlive st i" if "i \<in> {1..10}" for i
    using that demo_final_fields(3) [of "updateState 100 (demo_ping 1) (NewAugmentedState 100 None)" "[2..10]"]
    by (simp add: st_def updateState_def Let_def NewAugmentedState_def)
  have p: "pos_of st i = Some demo_place" if "i \<in> {1..10}" for i
    using that by (simp add: pos_of_def pos map_of_map_restrict restrict_map_def)
  have near: "isCloserThan st i j 2000 = Ok True" if "i \<in> {1..10}" "j \<in> {1..10}" for i j
    using p [OF that(1)] p [OF that(2)] by (simp add: isCloserThan_def DistanceXY_def)
  have fc: "findClosest t [st] = Some 0" if "0 \<le> t" "t < 10000" for t
    using that sec by (simp add: findClosest_def enumerate_eq_zip pos)
  have all: "computeInitialParticipants 7 st = Ok [1..10]"
    by (simp add: computeInitialParticipants_def isFightParticipant_def participantDistance_def u near alive)
  have vis: "IsInVision NewWardAnalysis fa 0 i = Ok False" for i
    using sec by (simp add: IsInVision_def fa_def visionWindowHiddenMax_def visionWindowHiddenMin_def)
  have vs: "visions NewWardAnalysis fa 0 ps = Ok (map (\<lambda>p. (p, False)) ps)" for ps
    unfolding visions_def by (induction ps) (simp_all add: vis)
  have f: "currentFight fa = None" "faParticipant fa = 3" "RecentStates fa = [st]" "TeamFights fa = []" "faDuration fa = 1800"
    "ContDamage fa 7 = Some \<lparr>StartTime = 0, LastTime = 0, TotalPercentDamage = 0, NumDamageEvents = 0\<rparr>"
    by (simp_all add: fa_def currentFight_def NewTeamFightAnalysis_def)
  obtain g1 g2 where g: "team_gold st 100 = (g1, g2)" by fastforce
  have "\<exists>tf. build_fight NewWardAnalysis fa 7 0 101 st [1..10] = Ok (Some tf) \<and> ParticipantIDs tf = [1..10]
      \<and> InfluencerIDs tf = [] \<and> TeamKills tf = [] \<and> TeamDeaths tf = [] \<and> End tf = 1800"
    by (simp add: build_fight_def Let_def vs u TeamID_def BlueTeam_def RedTeam_def g f(2,5))
  then obtain tf where tf: "build_fight NewWardAnalysis fa 7 0 101 st [1..10] = Ok (Some tf)" "ParticipantIDs tf = [1..10]"
    "TeamKills tf = []" "End tf = 1800" by blast
  have start: "startTeamFight NewWardAnalysis 7 101 fa = Ok (fa\<lparr>TeamFights := [tf]\<rparr>)"
    using f alive near [of 7 3] fc [of 0] fc [of 101] all tf(1)
    by (simp add: startTeamFight_def Let_def isFightParticipant_def participantDistance_def)
  have d: "death_fight 3 7 tf = tf\<lparr>TeamKills := [7]\<rparr>"
    by (simp add: death_fight_def tf(2,3) insert_key_def TeamID_def EnemyTeamID_def BlueTeam_def RedTeam_def)
  show ?thesis
    using run start f tf(4) d by (simp add: fa_AddDeath_def Let_def currentFight_def set_fight_def)
qed


theorem history_bounded_witness:
  "\<exists>fa. run_fights demo_match (NewTeamFightAnalysis 3 1800) = Ok fa \<and> length (RecentStates fa) \<le> 121"
proof -
  obtain fa where fa: "run_fights demo_match (NewTeamFightAnalysis 3 1800) = Ok fa \<and> faParticipant fa = 3
     \<and> map TeamKills (TeamFights fa) = [[7]]" using demo_match_run by (rule exE)
  note run = conjunct1 [OF fa]
  from conjunct1 [OF history_bounded [OF run]] run show ?thesis by (intro exI [of _ fa] conjI)
qed


end
