(* ===== verification/Ingest_Advanced.thy ===== *)
theory Ingest_Advanced
  imports Ingest_Stats Ingest_Combos Ingest_Team_Comp Ingest_Fight_Facts
begin

text \<open>
  The statistics of one player in one match: \<open>ComputeAdvanced\<close> of
  \<open>lolstats-master/ingest/advanced_stats.go\<close>, which hands every event of the match to the analyses of the other
  theories and collects their results.
\<close>

subsection \<open>The participants\<close>

text \<open>\<open>byPID\<close> maps participant ids to participants; pointers into it are equal when the ids are.\<close>

definition buildPIDMap :: "participant list \<Rightarrow> int \<Rightarrow> (int \<times> participant) list \<times> participant option" where
  "buildPIDMap participants summonerID =
     fold (\<lambda>t (byPID, p). (AList.update (ParticipantID t) t byPID, if pSummonerID t = summonerID then Some t else p))
       participants ([], None)"

subsection \<open>The state of the loop\<close>

record adv_state =
  AttacksTotal :: int
  DamageTakenPercentTotal :: real
  LastChampDamage :: "int \<Rightarrow> (real \<times> damage) option"
  aDeaths :: int
  Minions :: minion_tracker
  Buddies :: buddy_finder
  Positions :: "(real \<times> position) list"
  DamageDealtTo :: damage_map
  DamageTakenFrom :: damage_map
  AbilityCounts :: "(string \<times> int) list"
  AbilityCounts0to10 :: "(string \<times> int) list"
  Coverage :: coverage_map
  Wards :: ward_analysis
  Fights :: fight_analysis
  TimeMgmt :: time_state
  ComboA :: combo_analysis

definition no_abilities :: "(string \<times> int) list" where
  "no_abilities = [(''Q'', 0), (''W'', 0), (''E'', 0), (''R'', 0)]"

definition adv_init :: "participant \<Rightarrow> real \<Rightarrow> adv_state" where
  "adv_init p matchDuration =
     \<lparr>AttacksTotal = 0, DamageTakenPercentTotal = 0, LastChampDamage = (\<lambda>_. None), aDeaths = 0,
      Minions = NewMinionStatTracker, Buddies = NewBuddyFinder, Positions = [], DamageDealtTo = [],
      DamageTakenFrom = [], AbilityCounts = no_abilities, AbilityCounts0to10 = no_abilities,
      Coverage = NewCoverageMap 12, Wards = NewWardAnalysis,
      Fights = NewTeamFightAnalysis (ParticipantID p) matchDuration,
      TimeMgmt = NewTimeManagement (ParticipantID p), ComboA = NewComboAnalysis p\<rparr>"

subsection \<open>The cases of the switch\<close>

definition adv_attack :: "participant \<Rightarrow> real \<Rightarrow> attack \<Rightarrow> adv_state \<Rightarrow> adv_state outcome" where
  "adv_attack p secs t a =
     bind_ok (fa_AddAttack t (Fights a)) (\<lambda>fa.
       let a1 = a\<lparr>Wards := wa_AddAttack secs t (Wards a), Minions := mkt_AddAttack t (Minions a), Fights := fa\<rparr> in
       if aAttackerID t \<noteq> ParticipantID p then Ok a1
       else
         let ability = is_ability (Slot t);
             a2 = a1\<lparr>AttacksTotal := AttacksTotal a1 + 1,
                     AbilityCounts := (if ability then bump 1 (Slot t) (AbilityCounts a1) else AbilityCounts a1),
                     AbilityCounts0to10 := (if ability \<and> secs \<le> 600 then bump 1 (Slot t) (AbilityCounts0to10 a1)
                                            else AbilityCounts0to10 a1)\<rparr>
         in Ok (a2\<lparr>ComboA := ca_AddAttack secs t (ComboA a2),
                   TimeMgmt := tm_AddAttack secs (TargetID t) (TargetType t) (TimeMgmt a2)\<rparr>))"

text \<open>The damage that a known victim took, up to the team fights.\<close>

definition adv_hurt ::
  "participant \<Rightarrow> real \<Rightarrow> damage \<Rightarrow> participant option \<Rightarrow> participant \<Rightarrow> adv_state \<Rightarrow> adv_state"
where
  "adv_hurt p secs t attacker victim a0 =
     (let a1 = (if attacker \<noteq> None
                then a0\<lparr>LastChampDamage := (LastChampDamage a0)(ParticipantID victim \<mapsto> (secs, t))\<rparr> else a0);
          a2 = (case attacker of
             None \<Rightarrow> a1
           | Some att \<Rightarrow>
               if ParticipantID att = ParticipantID victim then a1
               else
                 let b = (if dAttackerID t = ParticipantID p
                          then a1\<lparr>DamageDealtTo := dm_AddDamage (ChampionID victim) secs (Total t) (Percent t) (DamageDealtTo a1),
                                  ComboA := ca_AddDamage secs t (ComboA a1)\<rparr> else a1)
                 in if VictimID t = ParticipantID p
                    then b\<lparr>DamageTakenFrom := dm_AddDamage (ChampionID att) secs (Total t) (Percent t) (DamageTakenFrom b),
                           DamageTakenPercentTotal := DamageTakenPercentTotal b + Percent t\<rparr> else b)
      in if VictimID t = ParticipantID p
         then a2\<lparr>TimeMgmt := tm_AddDamage secs (dAttackerID t) (dAttackerType t) (TimeMgmt a2)\<rparr> else a2)"

definition for_fights :: "damage \<Rightarrow> participant option \<Rightarrow> participant \<Rightarrow> bool" where
  "for_fights t attacker victim \<longleftrightarrow>
     (case attacker of
        Some att \<Rightarrow> TeamID (ParticipantID victim) \<noteq> TeamID (ParticipantID att)
      | None \<Rightarrow> False) \<or> dAttackerType t = ActorTurret \<or> IsEpicMonster (dAttackerID t)"

definition adv_damage ::
  "participant \<Rightarrow> (int \<times> participant) list \<Rightarrow> real \<Rightarrow> damage \<Rightarrow> adv_state \<Rightarrow> adv_state outcome"
where
  "adv_damage p byPID secs t a =
     (let a0 = a\<lparr>Minions := mkt_AddDamage t (Minions a)\<rparr>; attacker = map_of byPID (dAttackerID t) in
      case map_of byPID (VictimID t) of
        None \<Rightarrow> Ok a0
      | Some victim \<Rightarrow>
          let a3 = adv_hurt p secs t attacker victim a0 in
          if for_fights t attacker victim
          then bind_ok (fa_AddDamage (Wards a3) secs t (Fights a3)) (\<lambda>fa. Ok (a3\<lparr>Fights := fa\<rparr>))
          else Ok a3)"

definition adv_update :: "participant \<Rightarrow> real \<Rightarrow> state_update \<Rightarrow> adv_state \<Rightarrow> adv_state outcome" where
  "adv_update p secs t a =
     bind_ok (fa_AddStateUpdate secs t (Fights a)) (\<lambda>fa.
       let a1 = a\<lparr>Fights := fa, Wards := wa_AddStateUpdate secs t (Wards a),
                  Buddies := bf_AddStateUpdate secs t (Buddies a)\<rparr> in
       if suParticipantID t \<noteq> ParticipantID p then Ok a1
       else
         let a2 = (if (Positions a1 = [] \<or> secs - fst (List.last (Positions a1)) > 3) \<and> Health t > 0
                   then a1\<lparr>Positions := Positions a1 @ [(secs, suPosition t)]\<rparr> else a1)
         in Ok (a2\<lparr>Coverage := cm_Add secs (suPosition t) (Coverage a2),
                   TimeMgmt := tm_AddStateUpdate secs (suPosition t) (Health t) (TimeMgmt a2)\<rparr>))"

definition adv_ward :: "participant \<Rightarrow> real \<Rightarrow> real \<Rightarrow> ward_placed \<Rightarrow> adv_state \<Rightarrow> adv_state outcome" where
  "adv_ward p matchDuration secs t a =
     (let a1 = a\<lparr>Wards := AddWardPlaced secs t matchDuration (Wards a)\<rparr> in
      if wpParticipantID t \<noteq> ParticipantID p then Ok a1
      else Ok (a1\<lparr>TimeMgmt := tm_AddWard secs (TimeMgmt a1)\<rparr>))"

text \<open>The champion who gets the credit for a death: the last one to damage the victim, within 13 seconds.\<close>

definition killer_of :: "(int \<times> participant) list \<Rightarrow> real \<Rightarrow> int \<Rightarrow> adv_state \<Rightarrow> participant option" where
  "killer_of byPID secs victimID a =
     (case LastChampDamage a victimID of
        None \<Rightarrow> None
      | Some (s, d) \<Rightarrow> if secs - s < 13 then map_of byPID (dAttackerID d) else None)"

definition credit_kill ::
  "participant \<Rightarrow> (int \<times> participant) list \<Rightarrow> real \<Rightarrow> int \<Rightarrow> participant option \<Rightarrow> adv_state \<Rightarrow> adv_state outcome"
where
  "credit_kill p byPID secs victimID killer a =
     (if map_option ParticipantID killer = Some (ParticipantID p)
      then (case map_of byPID victimID of
              None \<Rightarrow> nil_panic
            | Some victim \<Rightarrow> Ok (a\<lparr>DamageDealtTo := dm_AddDeath (ChampionID victim) secs (DamageDealtTo a)\<rparr>))
      else Ok a)"

definition own_death :: "participant \<Rightarrow> real \<Rightarrow> int \<Rightarrow> participant option \<Rightarrow> adv_state \<Rightarrow> adv_state" where
  "own_death p secs victimID killer a =
     (if victimID \<noteq> ParticipantID p then a
      else
        let a1 = (case killer of
                    None \<Rightarrow> a
                  | Some k \<Rightarrow> a\<lparr>DamageTakenFrom := dm_AddDeath (ChampionID k) secs (DamageTakenFrom a)\<rparr>)
        in a1\<lparr>aDeaths := aDeaths a1 + 1, TimeMgmt := tm_AddDeath secs (TimeMgmt a1)\<rparr>)"

definition adv_death ::
  "participant \<Rightarrow> (int \<times> participant) list \<Rightarrow> real \<Rightarrow> int \<Rightarrow> adv_state \<Rightarrow> adv_state outcome"
where
  "adv_death p byPID secs victimID a =
     bind_ok (fa_AddDeath (Wards a) secs victimID (Fights a)) (\<lambda>fa.
       let a1 = a\<lparr>Fights := fa\<rparr>; killer = killer_of byPID secs victimID a1 in
       bind_ok (credit_kill p byPID secs victimID killer a1) (\<lambda>a2. Ok (own_death p secs victimID killer a2)))"

definition adv_event ::
  "participant \<Rightarrow> (int \<times> participant) list \<Rightarrow> real \<Rightarrow> event \<Rightarrow> adv_state \<Rightarrow> adv_state outcome"
where
  "adv_event p byPID matchDuration e a =
     (case Body e of
        Attack t \<Rightarrow> adv_attack p (Seconds e) t a
      | Damage t \<Rightarrow> adv_damage p byPID (Seconds e) t a
      | StateUpdate t \<Rightarrow> adv_update p (Seconds e) t a
      | WardPlaced t \<Rightarrow> adv_ward p matchDuration (Seconds e) t a
      | WardDeath i \<Rightarrow> (case wa_AddWardDeath (Seconds e) i (Wards a) of
            Inl err \<Rightarrow> Err err
          | Inr wa \<Rightarrow> Ok (a\<lparr>Wards := wa\<rparr>))
      | Death pos victimID \<Rightarrow> adv_death p byPID (Seconds e) victimID a
      | LevelUp level i \<Rightarrow> Ok (a\<lparr>Minions := mkt_AddLevelUp i (Minions a), Fights := fa_AddLevelUp i (Fights a)\<rparr>)
      | BuildingKill ty i \<Rightarrow>
          Ok (if ty = ''turret'' then a\<lparr>Fights := fa_AddTurretKill i (Fights a)\<rparr> else a)
      | _ \<Rightarrow> Ok a)"

fun adv_loop ::
  "participant \<Rightarrow> (int \<times> participant) list \<Rightarrow> real \<Rightarrow> event list \<Rightarrow> adv_state \<Rightarrow> adv_state outcome"
where
  "adv_loop p byPID matchDuration [] a = Ok a"
| "adv_loop p byPID matchDuration (e # es) a =
     bind_ok (adv_event p byPID matchDuration e a) (adv_loop p byPID matchDuration es)"

subsection \<open>The statistics\<close>

record advanced_stats =
  asParticipantID :: int
  asSummonerID :: int
  asTeamID :: int
  asMatchID :: int
  asPlatformID :: string
  asPositions :: "(real \<times> position) list"
  asRolePosition :: "role option"
  asDamageDealt :: damage_map
  asDamageTaken :: damage_map
  DamageTakenPercentPerDeath :: real
  CarryFocusEfficiency :: real
  AttacksPerMinute :: real
  asAbilityCounts :: "(string \<times> int) list"
  asAbilityCounts0to10 :: "(string \<times> int) list"
  MapCoverages :: "(string \<times> real) list"
  asTeamComp :: team_comp
  TimeDetail :: "frame list"
  asUsefulPercent :: "(string \<times> real) list"
  asTeamFights :: "team_fight list"
  FavorableTeamFights :: fight_aggregate
  BalancedTeamFights :: fight_aggregate
  UnfavorableTeamFights :: fight_aggregate
  WardLives :: "int \<Rightarrow> json_ward list"
  asRevealsPerWardAverage :: real
  asLiveWardsAverage :: "(string \<times> real) list"
  FavorableFightPercent :: real
  GoodKills :: significant
  BadDeaths :: significant
  asCombos :: "combo_summary list"
  asComboDamagePerMinute :: real

text \<open>The part after the loop over the events, once the roles are known.\<close>

definition adv_finish ::
  "participant \<Rightarrow> (int \<times> participant) list \<Rightarrow> real \<Rightarrow> int \<Rightarrow> int \<Rightarrow> string \<Rightarrow> roles \<Rightarrow> adv_state \<Rightarrow> advanced_stats"
where
  "adv_finish p byPID matchDuration summonerID mID platformID rolePositions a =
     (let fav = Aggregate FavorableFights (Fights a);
          (good, bad, fa) = SignificantKillsAndDeaths (Fights a);
          tm = AddSupplemental (TeamFights fa) (TimeMgmt a);
          pID = ParticipantID p in
      \<lparr>asParticipantID = pID, asSummonerID = summonerID, asTeamID = TeamID pID, asMatchID = mID, asPlatformID = platformID,
       asPositions = Positions a, asRolePosition = map_of rolePositions pID,
       asDamageDealt = DamageDealtTo a, asDamageTaken = DamageTakenFrom a,
       DamageTakenPercentPerDeath = DamageTakenPercentTotal a / max (real_of_int (aDeaths a)) 1,
       CarryFocusEfficiency = CalculateCarryFocusEfficiency (TeamFights fa) rolePositions matchDuration,
       AttacksPerMinute = real_of_int (AttacksTotal a) / (matchDuration / 60),
       asAbilityCounts = AbilityCounts a, asAbilityCounts0to10 = AbilityCounts0to10 a,
       MapCoverages = Percents (Coverage a),
       asTeamComp = ComputeKeyAttributes (fold (\<lambda>(i, q). tc_AddParticipant p q) byPID no_team_comp),
       TimeDetail = AllFrames tm, asUsefulPercent = UsefulPercent (AllFrames tm) matchDuration,
       asTeamFights = TeamFights fa, FavorableTeamFights = fav,
       BalancedTeamFights = Aggregate BalancedFights (Fights a), UnfavorableTeamFights = Aggregate UnfavorableFights (Fights a),
       WardLives = ExportPlayerWards (Wards a), asRevealsPerWardAverage = RevealsPerWardAverage pID (Wards a),
       asLiveWardsAverage = LiveWardsAverage pID matchDuration (Wards a),
       FavorableFightPercent = 100 * real (Count fav) / max (real (length (TeamFights fa))) 1,
       GoodKills = good, BadDeaths = bad,
       asCombos = ComboSummary (ComboA a), asComboDamagePerMinute = ComboDamagePerMinute matchDuration (ComboA a)\<rparr>)"

definition ComputeAdvanced ::
  "event list \<Rightarrow> participant list \<Rightarrow> int \<Rightarrow> int \<Rightarrow> string \<Rightarrow> advanced_stats outcome"
where
  "ComputeAdvanced events participants summonerID mID platformID =
     (case buildPIDMap participants summonerID of
        (byPID, None) \<Rightarrow> Err (''no participant found with summoner id '' @ show_int summonerID)
      | (byPID, Some p) \<Rightarrow>
          let matchDuration = MatchDuration events in
          bind_ok (adv_loop p byPID matchDuration events (adv_init p matchDuration)) (\<lambda>a.
            case CalculateRolePosition (Minions a) (Buddies a) of
              Inl err \<Rightarrow> Err err
            | Inr roles \<Rightarrow> Ok (adv_finish p byPID matchDuration summonerID mID platformID roles a)))"

subsection \<open>What each analysis sees of the match\<close>

fun ward_evs :: "event list \<Rightarrow> (real \<times> ward_event) list" where
  "ward_evs [] = []"
| "ward_evs (e # es) =
     (case Body e of
        Attack t \<Rightarrow> [(Seconds e, AttackW t)]
      | StateUpdate t \<Rightarrow> [(Seconds e, UpdateW t)]
      | WardPlaced t \<Rightarrow> [(Seconds e, PlacedW t)]
      | WardDeath i \<Rightarrow> [(Seconds e, DeathW i)]
      | _ \<Rightarrow> []) @ ward_evs es"

definition time_ev :: "int \<Rightarrow> (int \<times> participant) list \<Rightarrow> event \<Rightarrow> tm_event list" where
  "time_ev pID byPID e =
     (case Body e of
        Attack t \<Rightarrow> if aAttackerID t = pID then [TmAttack (Seconds e) (TargetID t) (TargetType t)] else []
      | Damage t \<Rightarrow> if map_of byPID (VictimID t) \<noteq> None \<and> VictimID t = pID
                    then [TmDamage (Seconds e) (dAttackerID t) (dAttackerType t)] else []
      | StateUpdate t \<Rightarrow> if suParticipantID t = pID then [TmState (Seconds e) (suPosition t) (Health t)] else []
      | WardPlaced t \<Rightarrow> if wpParticipantID t = pID then [TmWard (Seconds e)] else []
      | Death _ v \<Rightarrow> if v = pID then [TmDeath (Seconds e)] else []
      | _ \<Rightarrow> [])"

definition combo_ev :: "int \<Rightarrow> (int \<times> participant) list \<Rightarrow> event \<Rightarrow> (real \<times> combo_event) list" where
  "combo_ev pID byPID e =
     (case Body e of
        Attack t \<Rightarrow> if aAttackerID t = pID then [(Seconds e, AttackC t)] else []
      | Damage t \<Rightarrow>
          (case (map_of byPID (dAttackerID t), map_of byPID (VictimID t)) of
             (Some att, Some v) \<Rightarrow> if ParticipantID att \<noteq> ParticipantID v \<and> dAttackerID t = pID then [(Seconds e, DamageC t)] else []
           | _ \<Rightarrow> [])
      | _ \<Rightarrow> [])"

lemma time_ev_time: "f \<in> set (time_ev pID byPID e) \<Longrightarrow> tm_time f = Seconds e"
  by (auto simp: time_ev_def split: body.splits if_splits)

text \<open>How one event changes the parts: at most one event of the team fights, the events above for the others.\<close>

definition parts_step ::
  "participant \<Rightarrow> (int \<times> participant) list \<Rightarrow> real \<Rightarrow> event \<Rightarrow> adv_state \<Rightarrow> adv_state \<Rightarrow> bool"
where
  "parts_step p byPID dur e a a' \<longleftrightarrow>
     run_wards dur (ward_evs [e]) (Wards a) = Inr (Wards a')
     \<and> TimeMgmt a' = fold tm_step (time_ev (ParticipantID p) byPID e) (TimeMgmt a)
     \<and> ComboA a' = fold combo_step (combo_ev (ParticipantID p) byPID e) (ComboA a)
     \<and> (\<exists>fes. run_fights fes (Fights a) = Ok (Fights a'))"

lemma no_fight_event: "\<exists>fes. run_fights fes fa = Ok fa"
  by (rule exI [of _ "[]"]) simp

lemma one_fight_event: "fight_step wa secs e fa = Ok fa' \<Longrightarrow> \<exists>fes. run_fights fes fa = Ok fa'"
  by (rule exI [of _ "[(secs, wa, e)]"]) simp

lemma attack_parts:
  assumes "adv_attack p (Seconds e) t a = Ok a'" and "Body e = Attack t"
  shows "parts_step p byPID dur e a a'"
proof -
  obtain fa where f: "fa_AddAttack t (Fights a) = Ok fa" using assms(1) by (auto simp: adv_attack_def bind_ok_Ok)
  then have "\<exists>fes. run_fights fes (Fights a) = Ok fa" using one_fight_event [of _ _ "AttackF t"] by simp
  then show ?thesis using assms f
    by (simp add: adv_attack_def Let_def parts_step_def time_ev_def combo_ev_def split: if_splits) auto
qed

lemma hurt_fields:
  "Fights (adv_hurt p s t att v a) = Fights a" "Wards (adv_hurt p s t att v a) = Wards a"
  "TimeMgmt (adv_hurt p s t att v a) =
     (if VictimID t = ParticipantID p then tm_AddDamage s (dAttackerID t) (dAttackerType t) (TimeMgmt a) else TimeMgmt a)"
  "ComboA (adv_hurt p s t att v a) =
     (case att of None \<Rightarrow> ComboA a
      | Some q \<Rightarrow> if ParticipantID q \<noteq> ParticipantID v \<and> dAttackerID t = ParticipantID p
                  then ca_AddDamage s t (ComboA a) else ComboA a)"
  by (auto simp: adv_hurt_def Let_def split: option.splits)

lemma damage_parts:
  assumes "adv_damage p byPID (Seconds e) t a = Ok a'" and "Body e = Damage t"
  shows "parts_step p byPID dur e a a'"
proof (cases "map_of byPID (VictimID t)")
  case None
  then show ?thesis using assms no_fight_event
    by (auto simp: adv_damage_def Let_def parts_step_def time_ev_def combo_ev_def split: option.splits)
next
  case (Some v)
  define b where "b = adv_hurt p (Seconds e) t (map_of byPID (dAttackerID t)) v (a\<lparr>Minions := mkt_AddDamage t (Minions a)\<rparr>)"
  have "a' = b \<or> (\<exists>fa. fa_AddDamage (Wards b) (Seconds e) t (Fights b) = Ok fa \<and> a' = b\<lparr>Fights := fa\<rparr>)"
    using assms(1) Some by (auto simp: adv_damage_def Let_def bind_ok_Ok b_def split: if_splits)
  then have "(\<exists>fes. run_fights fes (Fights a) = Ok (Fights a')) \<and> Wards a' = Wards b \<and> TimeMgmt a' = TimeMgmt b \<and> ComboA a' = ComboA b"
  proof (elim disjE exE conjE)
    assume "a' = b"
    then show ?thesis using no_fight_event [of "Fights a"] by (simp add: b_def hurt_fields)
  next
    fix fa assume f: "fa_AddDamage (Wards b) (Seconds e) t (Fights b) = Ok fa" "a' = b\<lparr>Fights := fa\<rparr>"
    then have "fight_step (Wards b) (Seconds e) (DamageF t) (Fights a) = Ok fa" by (simp add: b_def hurt_fields)
    from one_fight_event [OF this] f(2) show ?thesis by simp
  qed
  then show ?thesis using assms(2) Some
    by (simp add: parts_step_def b_def hurt_fields time_ev_def combo_ev_def split: option.splits)
qed

lemma update_parts:
  assumes "adv_update p (Seconds e) t a = Ok a'" and "Body e = StateUpdate t"
  shows "parts_step p byPID dur e a a'"
proof -
  obtain fa where f: "fa_AddStateUpdate (Seconds e) t (Fights a) = Ok fa" using assms(1) by (auto simp: adv_update_def bind_ok_Ok)
  then have "\<exists>fes. run_fights fes (Fights a) = Ok fa" using one_fight_event [of _ _ "UpdateF t"] by simp
  then show ?thesis using assms f
    by (auto simp: adv_update_def Let_def parts_step_def time_ev_def combo_ev_def split: if_splits)
qed

lemma credit_kill_fields:
  assumes "credit_kill p byPID s v k a = Ok b"
  shows "Fights b = Fights a" "Wards b = Wards a" "ComboA b = ComboA a" "TimeMgmt b = TimeMgmt a"
  using assms by (auto simp: credit_kill_def nil_panic_def split: if_splits option.splits)

lemma own_death_fields:
  "Fights (own_death p s v k a) = Fights a" "Wards (own_death p s v k a) = Wards a" "ComboA (own_death p s v k a) = ComboA a"
  "TimeMgmt (own_death p s v k a) = (if v = ParticipantID p then tm_AddDeath s (TimeMgmt a) else TimeMgmt a)"
  by (auto simp: own_death_def Let_def split: option.splits)

lemma death_parts:
  assumes "adv_death p byPID (Seconds e) v a = Ok a'" and "Body e = Death pos v"
  shows "parts_step p byPID dur e a a'"
proof -
  obtain fa b k where f: "fa_AddDeath (Wards a) (Seconds e) v (Fights a) = Ok fa"
    and b: "credit_kill p byPID (Seconds e) v k (a\<lparr>Fights := fa\<rparr>) = Ok b" and a': "a' = own_death p (Seconds e) v k b"
    using assms(1) by (auto simp: adv_death_def bind_ok_Ok Let_def)
  have "\<exists>fes. run_fights fes (Fights a) = Ok fa" using one_fight_event [of "Wards a" "Seconds e" "DeathF v"] f by simp
  then show ?thesis using assms(2) credit_kill_fields [OF b]
    by (simp add: a' own_death_fields parts_step_def combo_ev_def time_ev_def)
qed

lemma event_parts:
  assumes "adv_event p byPID dur e a = Ok a'"
  shows "parts_step p byPID dur e a a'"
proof (cases "Body e")
  case (Attack t) then show ?thesis using assms attack_parts by (simp add: adv_event_def)
next
  case (Damage t) then show ?thesis using assms damage_parts by (simp add: adv_event_def)
next
  case (StateUpdate t) then show ?thesis using assms update_parts by (simp add: adv_event_def)
next
  case (Death pos v) then show ?thesis using assms death_parts by (simp add: adv_event_def)
next
  case (LevelUp l i)
  then show ?thesis using assms one_fight_event [of _ _ "LevelUpF i" "Fights a" "fa_AddLevelUp i (Fights a)"]
    by (auto simp: adv_event_def parts_step_def time_ev_def combo_ev_def)
next
  case (BuildingKill ty i)
  then show ?thesis using assms no_fight_event one_fight_event [of _ _ "TurretF i" "Fights a" "fa_AddTurretKill i (Fights a)"]
    by (auto simp: adv_event_def parts_step_def time_ev_def combo_ev_def)
next
  case (WardPlaced t)
  then show ?thesis using assms no_fight_event
    by (auto simp: adv_event_def adv_ward_def Let_def parts_step_def time_ev_def combo_ev_def split: if_splits)
qed (use assms no_fight_event in \<open>auto simp: adv_event_def parts_step_def time_ev_def combo_ev_def split: sum.splits\<close>)

lemma run_wards_append:
  "run_wards d (xs @ ys) w = (case run_wards d xs w of Inl err \<Rightarrow> Inl err | Inr w' \<Rightarrow> run_wards d ys w')"
  by (induction xs arbitrary: w) (auto split: sum.splits)

lemma run_fights_append: "run_fights (xs @ ys) fa = bind_ok (run_fights xs fa) (run_fights ys)"
proof (induction xs arbitrary: fa)
  case (Cons x xs)
  obtain s wa e where x: "x = (s, wa, e)" by (metis prod_cases3)
  show ?case by (cases "fight_step wa s e fa") (simp_all add: x Cons.IH)
qed simp

lemma loop_parts:
  assumes "adv_loop p byPID dur es a = Ok a'"
  shows "run_wards dur (ward_evs es) (Wards a) = Inr (Wards a')
     \<and> TimeMgmt a' = fold tm_step (concat (map (time_ev (ParticipantID p) byPID) es)) (TimeMgmt a)
     \<and> ComboA a' = fold combo_step (concat (map (combo_ev (ParticipantID p) byPID) es)) (ComboA a)
     \<and> (\<exists>fes. run_fights fes (Fights a) = Ok (Fights a'))"
  using assms
proof (induction es arbitrary: a)
  case Nil
  then show ?case using no_fight_event by auto
next
  case (Cons e es)
  then obtain b where b: "adv_event p byPID dur e a = Ok b" "adv_loop p byPID dur es b = Ok a'" by (auto simp: bind_ok_Ok)
  note s = event_parts [OF b(1), unfolded parts_step_def] and r = Cons.IH [OF b(2)]
  have w: "ward_evs (e # es) = ward_evs [e] @ ward_evs es" by simp
  obtain xs ys where "run_fights xs (Fights a) = Ok (Fights b)" "run_fights ys (Fights b) = Ok (Fights a')" using s r by auto
  then have "run_fights (xs @ ys) (Fights a) = Ok (Fights a')" by (simp add: run_fights_append)
  then show ?case using s r unfolding w run_wards_append by (auto simp del: ward_evs.simps)
qed

subsection \<open>The composition\<close>

lemma compute_loop:
  assumes "ComputeAdvanced events ps sid mid plat = Ok res" and "buildPIDMap ps sid = (byPID, Some p)"
  obtains a roles where "adv_loop p byPID (MatchDuration events) events (adv_init p (MatchDuration events)) = Ok a"
    and "CalculateRolePosition (Minions a) (Buddies a) = Inr roles"
    and "res = adv_finish p byPID (MatchDuration events) sid mid plat roles a"
proof -
  obtain a where a: "adv_loop p byPID (MatchDuration events) events (adv_init p (MatchDuration events)) = Ok a"
    and r: "(case CalculateRolePosition (Minions a) (Buddies a) of Inl err \<Rightarrow> Err err
       | Inr roles \<Rightarrow> Ok (adv_finish p byPID (MatchDuration events) sid mid plat roles a)) = Ok res"
    using assms by (auto simp: ComputeAdvanced_def bind_ok_Ok Let_def)
  from r show thesis by (cases "CalculateRolePosition (Minions a) (Buddies a)") (use a that in auto)
qed

lemma init_parts [simp]:
  "Wards (adv_init p d) = NewWardAnalysis" "Fights (adv_init p d) = NewTeamFightAnalysis (ParticipantID p) d"
  "TimeMgmt (adv_init p d) = NewTimeManagement (ParticipantID p)" "ComboA (adv_init p d) = NewComboAnalysis p"
  by (simp_all add: adv_init_def)

lemma finish_fields:
  "TimeDetail (adv_finish p byPID d sid mid plat roles a) =
     AllFrames (AddSupplemental (asTeamFights (adv_finish p byPID d sid mid plat roles a)) (TimeMgmt a))"
  "asTeamFights (adv_finish p byPID d sid mid plat roles a) = TeamFights (snd (snd (SignificantKillsAndDeaths (Fights a))))"
  "WardLives (adv_finish p byPID d sid mid plat roles a) = ExportPlayerWards (Wards a)"
  "asCombos (adv_finish p byPID d sid mid plat roles a) = ComboSummary (ComboA a)"
  by (simp_all add: adv_finish_def Let_def split: prod.split)


lemma time_events_sorted:
  assumes "sorted (map Seconds events)"
  shows "sorted (map tm_time (concat (map (time_ev pID byPID) events)))"
proof -
  have one: "map tm_time (time_ev pID byPID e) = [] \<or> map tm_time (time_ev pID byPID e) = [Seconds e]" for e
    by (auto simp: time_ev_def split: body.splits)
  have le: "\<forall>s \<in> set (map tm_time (concat (map (time_ev pID byPID) es))). x \<le> s" if "\<forall>e \<in> set es. x \<le> Seconds e" for x es
    using that by (auto dest: time_ev_time)
  from assms show ?thesis
  proof (induction events)
    case (Cons e es)
    then show ?case using one [of e] le [of es "Seconds e"] by (auto simp: sorted_append)
  qed simp
qed

text \<open>
  The time line of the statistics: when the events of the match are in the order of time and the fights
  found in it are too, no two of the reported frames overlap, and each lasts a second or more.
\<close>

theorem advanced_time_line:
  assumes "ComputeAdvanced events ps sid mid plat = Ok res"
    and "sorted (map Seconds events)" and "fights_ordered (asTeamFights res)"
  shows "sorted_wrt (\<lambda>a b. fEnd a \<le> fBegin b) (TimeDetail res) \<and> (\<forall>f \<in> set (TimeDetail res). fBegin f + 1 \<le> fEnd f)"
proof -
  obtain byPID q where b: "buildPIDMap ps sid = (byPID, q)" by fastforce
  then obtain p where p: "buildPIDMap ps sid = (byPID, Some p)" using assms(1) by (cases q) (auto simp: ComputeAdvanced_def)
  obtain a roles where a: "adv_loop p byPID (MatchDuration events) events (adv_init p (MatchDuration events)) = Ok a"
    and res: "res = adv_finish p byPID (MatchDuration events) sid mid plat roles a"
    by (rule compute_loop [OF assms(1) p])
  have "tidy (frames (TimeMgmt a))" using loop_parts [OF a] match_frames(1) [OF time_events_sorted [OF assms(2)]] by simp
  then have "tidy (frames (AddSupplemental (asTeamFights res) (TimeMgmt a)))"
    unfolding AddSupplemental_def by (intro addRoaming_tidy addFighting_tidy assms(3))
  then have "tidy (TimeDetail res)" by (simp add: res finish_fields AllFrames_def tidy_filter)
  moreover have "\<forall>f \<in> set (TimeDetail res). fBegin f + 1 \<le> fEnd f" by (auto simp: res finish_fields AllFrames_def)
  ultimately show ?thesis by (simp add: tidy_def)
qed

subsection \<open>A match without fights\<close>

text \<open>Positions and plain attacks never start a fight, so with them alone the loop cannot fail.\<close>

fun quiet :: "body \<Rightarrow> bool" where
  "quiet (StateUpdate t) = True"
| "quiet (Attack t) = (Slot t \<notin> {''Summoner1'', ''Summoner2''})"
| "quiet _ = False"

fun quiet_minions :: "body \<Rightarrow> minion_tracker \<Rightarrow> minion_tracker" where
  "quiet_minions (Attack t) m = mkt_AddAttack t m"
| "quiet_minions _ m = m"

fun quiet_buddies :: "real \<Rightarrow> body \<Rightarrow> buddy_finder \<Rightarrow> buddy_finder" where
  "quiet_buddies s (StateUpdate t) b = bf_AddStateUpdate s t b"
| "quiet_buddies s _ b = b"

lemma quiet_event:
  assumes "quiet (Body e)" and "TeamFights (Fights a) = []"
  shows "\<exists>a'. adv_event p byPID d e a = Ok a' \<and> TeamFights (Fights a') = []
     \<and> Minions a' = quiet_minions (Body e) (Minions a) \<and> Buddies a' = quiet_buddies (Seconds e) (Body e) (Buddies a)"
proof (cases "Body e")
  case (Attack t)
  then have "fa_AddAttack t (Fights a) = Ok (Fights a)" using assms(1) by (simp add: fa_AddAttack_def)
  then show ?thesis using assms(2) Attack by (simp add: adv_event_def adv_attack_def Let_def)
next
  case (StateUpdate t)
  have "\<exists>fa. fa_AddStateUpdate (Seconds e) t (Fights a) = Ok fa \<and> TeamFights fa = []"
    using assms(2) by (simp add: fa_AddStateUpdate_def currentFight_def Let_def)
  then show ?thesis using StateUpdate by (auto simp: adv_event_def adv_update_def Let_def)
qed (use assms(1) in simp_all)

lemma quiet_loop:
  assumes "\<forall>e \<in> set es. quiet (Body e)" and "TeamFights (Fights a) = []"
  shows "\<exists>a'. adv_loop p byPID d es a = Ok a' \<and> TeamFights (Fights a') = []
     \<and> Minions a' = fold (quiet_minions \<circ> Body) es (Minions a)
     \<and> Buddies a' = fold (\<lambda>e. quiet_buddies (Seconds e) (Body e)) es (Buddies a)"
  using assms
proof (induction es arbitrary: a)
  case (Cons e es)
  obtain b where "adv_event p byPID d e a = Ok b" "TeamFights (Fights b) = []"
      "Minions b = quiet_minions (Body e) (Minions a)" "Buddies b = quiet_buddies (Seconds e) (Body e) (Buddies a)"
    using quiet_event [of e a p byPID d] Cons.prems by auto
  then show ?case using Cons.IH [of b] Cons.prems(1) by simp
qed simp

definition bot_place :: position where "bot_place = \<lparr>X = 8000, Y = 1000, Z = 50\<rparr>"

definition demo_su :: "int \<Rightarrow> event" where
  "demo_su i = \<lparr>EventType = ''state_update'', Seconds = 100, Body = StateUpdate \<lparr>Gold = 500, Health = 500, HealthMax = 600,
     InGrass = False, MinionsKilled = 0, NeutralMinionsKilled = 0, Mana = 0, ManaMax = 0, suParticipantID = i,
     suPosition = bot_place, UnderOwnTurret = False, UnderEnemyTurret = False\<rparr>\<rparr>"

definition demo_hit :: "int \<Rightarrow> event" where
  "demo_hit i = \<lparr>EventType = ''attack'', Seconds = 101, Body = Attack \<lparr>CooldownExpires = 0, aStart = None, aEnd = None,
     aAttackerID = i, aAttackerType = ActorHero, Slot = ''basic'', TargetID = 0, TargetType = ActorMinion,
     TargetPosition = Some bot_place\<rparr>\<rparr>"

definition demo_bv :: "event list" where
  "demo_bv = map demo_su [1, 2, 3, 4, 5, 6, 7, 8, 9, 10, 4, 9] @ map demo_hit [4, 9]"

definition demo_team :: "participant list" where
  "demo_team = map (\<lambda>i. \<lparr>ParticipantID = i, pSummonerID = 1000 + i, pSummonerName = ''s'', ChampionID = 99,
     Spell1 = ''flash'', Spell2 = ''smite''\<rparr>) [1..10]"

definition demo_me :: participant where
  "demo_me = \<lparr>ParticipantID = 4, pSummonerID = 1004, pSummonerName = ''s'', ChampionID = 99, Spell1 = ''flash'', Spell2 = ''smite''\<rparr>"

lemma demo_build: "\<exists>byPID. buildPIDMap demo_team 1004 = (byPID, Some demo_me)"
  by (simp add: buildPIDMap_def demo_team_def demo_me_def upto_rec1)

lemma demo_quiet: "\<forall>e \<in> set demo_bv. quiet (Body e)"
  by (simp add: demo_bv_def demo_su_def demo_hit_def)

lemma bot_lane: "AreaToRegion (AreaID bot_place) = RegionBot"
  by (simp add: AreaToRegion_def AreaID_def bot_place_def isBlue_def sr_defs ternary_def area_defs Let_def)

lemma demo_minions_run:
  "fold (quiet_minions \<circ> Body) demo_bv NewMinionStatTracker =
     \<lparr>MinionInteractions = [((4, 1, RegionBot), 1), ((9, 1, RegionBot), 1)], JungleMinionInteractions = [],
      LastChampLevel = map (\<lambda>i. (i, 1)) [1..10]\<rparr>"
  by (simp add: demo_bv_def demo_su_def demo_hit_def mkt_AddAttack_def addLaneMinionInteraction_def
      addJungleMinionInteraction_def IsJungleMinion_def monster_defs TeamID_def BlueTeam_def RedTeam_def
      NewMinionStatTracker_def bot_lane bump_def get0_def upto_rec1 Let_def)

lemma demo_buddies_run:
  "EarlyGameBuddyScore (fold (\<lambda>e. quiet_buddies (Seconds e) (Body e)) demo_bv NewBuddyFinder) =
     [((10, 6), 1), ((10, 7), 1), ((10, 8), 1), ((10, 9), 1), ((4, 1), 1), ((4, 2), 1), ((4, 3), 1), ((4, 5), 1),
      ((9, 6), 1), ((9, 7), 1), ((9, 8), 1), ((9, 10), 1)]"
  by (simp add: demo_bv_def demo_su_def demo_hit_def NewBuddyFinder_def bf_AddStateUpdate_def Let_def TeamID_def
      BlueTeam_def RedTeam_def DistanceXY_def bump_def get0_def)

lemma roles_by_scores:
  assumes "EarlyGameBuddyScore b = EarlyGameBuddyScore b'"
  shows "CalculateRolePosition m b = CalculateRolePosition m b'"
proof -
  have "BuddyFor p r b = BuddyFor p r b'" for p r using assms by (simp add: BuddyFor_def)
  then show ?thesis by (simp only: CalculateRolePosition_def)
qed

lemma demo_roles:
  "\<exists>roles. CalculateRolePosition (fold (quiet_minions \<circ> Body) demo_bv NewMinionStatTracker)
     (fold (\<lambda>e. quiet_buddies (Seconds e) (Body e)) demo_bv NewBuddyFinder) = Inr roles"
proof -
  define b where "b = \<lparr>EarlyGameBuddyScore = [((10, 6), 1), ((10, 7), 1), ((10, 8), 1), ((10, 9), 1), ((4, 1), 1), ((4, 2), 1),
     ((4, 3), 1), ((4, 5), 1), ((9, 6), 1), ((9, 7), 1), ((9, 8), 1), ((9, 10), 1)], LastStateUpdates = []\<rparr>"
  have "CalculateRolePosition \<lparr>MinionInteractions = [((4, 1, RegionBot), 1), ((9, 1, RegionBot), 1)], JungleMinionInteractions = [],
      LastChampLevel = map (\<lambda>i. (i, 1)) [1..10]\<rparr> b
    = Inr [(5, RoleJungle), (10, RoleJungle), (4, RoleSupport), (9, RoleSupport), (3, RoleMid), (8, RoleMid), (1, RoleAdc),
           (6, RoleAdc), (2, RoleTop), (7, RoleTop)]"
    unfolding b_def by code_simp
  then show ?thesis unfolding demo_minions_run
    by (subst roles_by_scores [where b' = b]) (simp_all add: demo_buddies_run b_def)
qed

lemma demo_computed:
  "\<exists>res. ComputeAdvanced demo_bv demo_team 1004 7 ''NA1'' = Ok res \<and> asTeamFights res = []"
proof -
  obtain byPID where b: "buildPIDMap demo_team 1004 = (byPID, Some demo_me)" using demo_build by auto
  let ?d = "MatchDuration demo_bv"
  obtain a where a: "adv_loop demo_me byPID ?d demo_bv (adv_init demo_me ?d) = Ok a" "TeamFights (Fights a) = []"
      "Minions a = fold (quiet_minions \<circ> Body) demo_bv NewMinionStatTracker"
      "Buddies a = fold (\<lambda>e. quiet_buddies (Seconds e) (Body e)) demo_bv NewBuddyFinder"
    using quiet_loop [OF demo_quiet, of "adv_init demo_me ?d" demo_me byPID ?d]
    by (auto simp: NewTeamFightAnalysis_def) (simp add: adv_init_def)
  obtain roles where "CalculateRolePosition (Minions a) (Buddies a) = Inr roles" using demo_roles by (auto simp: a(3,4))
  then have "ComputeAdvanced demo_bv demo_team 1004 7 ''NA1'' = Ok (adv_finish demo_me byPID ?d 1004 7 ''NA1'' roles a)"
    using a(1) b by (simp add: ComputeAdvanced_def Let_def)
  moreover have "asTeamFights (adv_finish demo_me byPID ?d 1004 7 ''NA1'' roles a) = []"
    using a(2) by (simp add: finish_fields SignificantKillsAndDeaths_def)
  ultimately show ?thesis by blast
qed


lemma advanced_time_line_witness:
  "\<exists>res. ComputeAdvanced demo_bv demo_team 1004 7 ''NA1'' = Ok res \<and>
     sorted_wrt (\<lambda>a b. fEnd a \<le> fBegin b) (TimeDetail res) \<and> (\<forall>f \<in> set (TimeDetail res). fBegin f + 1 \<le> fEnd f)"
proof -
  obtain res where res: "ComputeAdvanced demo_bv demo_team 1004 7 ''NA1'' = Ok res" "asTeamFights res = []"
    using demo_computed by auto
  have "sorted (map Seconds demo_bv)" by (simp add: demo_bv_def demo_su_def demo_hit_def)
  from advanced_time_line [OF res(1) this] res show ?thesis by (auto simp: fights_ordered_def)
qed

end
