(* ===== verification/Ingest_Books.thy ===== *)
theory Ingest_Books
  imports Ingest_Advanced
begin

text \<open>
  The bookkeeping of \<open>ComputeAdvanced\<close>: the totals it keeps beside the maps agree with them, and no event of a
  match, once all champions have been seen, makes it dereference nil.
\<close>

subsection \<open>Totals of a damage map\<close>

definition damage_total :: "(damage_summary \<Rightarrow> real) \<Rightarrow> damage_map \<Rightarrow> real" where
  "damage_total f dm = sum_list (map (\<lambda>(champ, m). sum_list (map (f \<circ> snd) m)) dm)"

definition damage_wf :: "damage_map \<Rightarrow> bool" where
  "damage_wf dm \<longleftrightarrow> distinct (map fst dm) \<and> (\<forall>(champ, m) \<in> set dm. distinct (map fst m))"

lemma sum_update:
  fixes g :: "'v \<Rightarrow> real"
  assumes "distinct (map fst m)"
  shows "sum_list (map (g \<circ> snd) (AList.update k v m)) =
    sum_list (map (g \<circ> snd) m) + g v - (case map_of m k of None \<Rightarrow> 0 | Some w \<Rightarrow> g w)"
  using assms
proof (induction m)
  case (Cons x m)
  then show ?case by (cases x) (auto simp: map_of_eq_None_iff split: option.splits)
qed simp

lemma set_update_mem: "x \<in> set (AList.update k v m) \<Longrightarrow> x = (k, v) \<or> x \<in> set m"
  by (induction m) (auto split: if_splits)

lemma stages_distinct: "damage_wf dm \<Longrightarrow> distinct (map fst (stages_of dm champ))"
  by (auto simp: damage_wf_def stages_of_def split: option.splits dest!: map_of_SomeD)

lemma damage_wf_add: "damage_wf dm \<Longrightarrow> damage_wf (addSummary c d s t p dm)"
proof -
  assume wf: "damage_wf dm"
  have "distinct (map fst (AList.update (gameStage s) x (stages_of dm (show_int c))))" for x
    using stages_distinct [OF wf] by (simp add: distinct_update)
  then have "distinct (map fst m)"
    if "(champ, m) \<in> set (AList.update (show_int c) (AList.update (gameStage s) x (stages_of dm (show_int c))) dm)" for champ m x
    using set_update_mem [OF that] wf by (auto simp: damage_wf_def)
  then show ?thesis using wf by (auto simp: addSummary_def damage_wf_def distinct_update Let_def)
qed

text \<open>What one addition changes.\<close>

lemma total_add:
  assumes "damage_wf dm" and "f no_damage = 0"
  shows "damage_total f (addSummary c d s t p dm) = damage_total f dm - f (summary_of dm (show_int c) (gameStage s))
    + f ((summary_of dm (show_int c) (gameStage s))\<lparr>Deaths := Deaths (summary_of dm (show_int c) (gameStage s)) + d,
           DamageTotal := DamageTotal (summary_of dm (show_int c) (gameStage s)) + t,
           DamagePercent := DamagePercent (summary_of dm (show_int c) (gameStage s)) + p\<rparr>)"
proof -
  define x where "x = (summary_of dm (show_int c) (gameStage s))\<lparr>Deaths := Deaths (summary_of dm (show_int c) (gameStage s)) + d,
           DamageTotal := DamageTotal (summary_of dm (show_int c) (gameStage s)) + t,
           DamagePercent := DamagePercent (summary_of dm (show_int c) (gameStage s)) + p\<rparr>"
  define m where "m = AList.update (gameStage s) x (stages_of dm (show_int c))"
  have tot: "damage_total f q = sum_list (map ((\<lambda>m. sum_list (map (f \<circ> snd) m)) \<circ> snd) q)" for q
    by (simp add: damage_total_def case_prod_unfold comp_def)
  have inner: "sum_list (map (f \<circ> snd) m) = sum_list (map (f \<circ> snd) (stages_of dm (show_int c))) + f x
      - f (summary_of dm (show_int c) (gameStage s))"
    unfolding m_def sum_update [OF stages_distinct [OF assms(1)]]
    using assms(2) by (simp add: summary_of_def split: option.split)
  have old: "(case map_of dm (show_int c) of None \<Rightarrow> 0 | Some w \<Rightarrow> sum_list (map (f \<circ> snd) w))
      = sum_list (map (f \<circ> snd) (stages_of dm (show_int c)))"
    by (simp add: stages_of_def split: option.split)
  have "distinct (map fst dm)" using assms(1) by (simp add: damage_wf_def)
  from sum_update [OF this, of "\<lambda>m. sum_list (map (f \<circ> snd) m)" "show_int c" m]
  have "damage_total f (AList.update (show_int c) m dm) = damage_total f dm + sum_list (map (f \<circ> snd) m)
      - sum_list (map (f \<circ> snd) (stages_of dm (show_int c)))" by (simp add: tot old)
  then show ?thesis using inner by (simp add: addSummary_def m_def x_def Let_def)
qed

lemma total_percent: "damage_wf dm \<Longrightarrow> damage_total DamagePercent (addSummary c d s t p dm) = damage_total DamagePercent dm + p"
  by (simp add: total_add no_damage_def)

lemma total_deaths:
  "damage_wf dm \<Longrightarrow> damage_total (real_of_int \<circ> Deaths) (addSummary c d s t p dm) = damage_total (real_of_int \<circ> Deaths) dm + real_of_int d"
  by (simp add: total_add no_damage_def)

subsection \<open>The invariant\<close>

definition counts_ok :: "adv_state \<Rightarrow> bool" where
  "counts_ok a \<longleftrightarrow> (\<forall>s. 0 \<le> get0 (AbilityCounts0to10 a) s \<and> get0 (AbilityCounts0to10 a) s \<le> get0 (AbilityCounts a) s)
     \<and> (\<Sum>s \<leftarrow> [''Q'', ''W'', ''E'', ''R'']. get0 (AbilityCounts a) s) \<le> AttacksTotal a"

definition taken_ok :: "adv_state \<Rightarrow> bool" where
  "taken_ok a \<longleftrightarrow> damage_wf (DamageTakenFrom a) \<and> damage_wf (DamageDealtTo a)
     \<and> damage_total DamagePercent (DamageTakenFrom a) = DamageTakenPercentTotal a
     \<and> damage_total (real_of_int \<circ> Deaths) (DamageTakenFrom a) \<le> real_of_int (aDeaths a)"

definition known_victims :: "(int \<times> participant) list \<Rightarrow> adv_state \<Rightarrow> bool" where
  "known_victims byPID a \<longleftrightarrow> (\<forall>v. LastChampDamage a v \<noteq> None \<longrightarrow> map_of byPID v \<noteq> None)"

definition spaced_positions :: "adv_state \<Rightarrow> bool" where
  "spaced_positions a \<longleftrightarrow> successively (\<lambda>u v. fst v - fst u > 3) (Positions a)"

lemma adv_attack_counts:
  assumes "adv_attack p s t a = Ok a'"
  shows "(AttacksTotal a', AbilityCounts a', AbilityCounts0to10 a') =
    (if aAttackerID t \<noteq> ParticipantID p then (AttacksTotal a, AbilityCounts a, AbilityCounts0to10 a)
     else (AttacksTotal a + 1, if is_ability (Slot t) then bump 1 (Slot t) (AbilityCounts a) else AbilityCounts a,
           if is_ability (Slot t) \<and> s \<le> 600 then bump 1 (Slot t) (AbilityCounts0to10 a) else AbilityCounts0to10 a))"
proof -
  obtain fa where "fa_AddAttack t (Fights a) = Ok fa" using assms by (auto simp: adv_attack_def bind_ok_Ok)
  then show ?thesis using assms by (auto simp: adv_attack_def Let_def split: if_splits)
qed

lemma counts_attack:
  assumes "counts_ok a" and "adv_attack p s t a = Ok a'"
  shows "counts_ok a'"
proof (cases "aAttackerID t = ParticipantID p")
  case False
  then show ?thesis using assms(1) adv_attack_counts [OF assms(2)] by (simp add: counts_ok_def)
next
  case True
  note n = adv_attack_counts [OF assms(2)]
  have g: "get0 (AbilityCounts0to10 a') x = get0 (AbilityCounts0to10 a) x + (if is_ability (Slot t) \<and> s \<le> 600 \<and> x = Slot t then 1 else 0)"
     "get0 (AbilityCounts a') x = get0 (AbilityCounts a) x + (if is_ability (Slot t) \<and> x = Slot t then 1 else 0)" for x
    using n True by (simp_all add: bump_lookup)
  have o: "0 \<le> get0 (AbilityCounts0to10 a) x \<and> get0 (AbilityCounts0to10 a) x \<le> get0 (AbilityCounts a) x" for x
    using assms(1) by (simp add: counts_ok_def)
  have "0 \<le> get0 (AbilityCounts0to10 a') x \<and> get0 (AbilityCounts0to10 a') x \<le> get0 (AbilityCounts a') x" for x
    using o [of x] by (auto simp: g)
  moreover have "(\<Sum>s \<leftarrow> [''Q'', ''W'', ''E'', ''R'']. get0 (AbilityCounts a') s) \<le> AttacksTotal a'"
  proof -
    have "AttacksTotal a' = AttacksTotal a + 1" using n True by simp
    moreover have "(\<Sum>s \<leftarrow> [''Q'', ''W'', ''E'', ''R'']. get0 (AbilityCounts a') s)
        = (\<Sum>s \<leftarrow> [''Q'', ''W'', ''E'', ''R'']. get0 (AbilityCounts a) s) + (if is_ability (Slot t) then 1 else 0)"
    proof (cases "is_ability (Slot t)")
      case True
      then have "Slot t = ''Q'' \<or> Slot t = ''W'' \<or> Slot t = ''E'' \<or> Slot t = ''R''" by (simp add: is_ability_def)
      then show ?thesis by (elim disjE) (simp_all add: g is_ability_def)
    qed (simp add: g)
    moreover have "(\<Sum>s \<leftarrow> [''Q'', ''W'', ''E'', ''R'']. get0 (AbilityCounts a) s) \<le> AttacksTotal a"
      using assms(1) unfolding counts_ok_def by blast
    ultimately show ?thesis by simp
  qed
  ultimately show ?thesis by (simp add: counts_ok_def)
qed

definition books_ok :: "(int \<times> participant) list \<Rightarrow> adv_state \<Rightarrow> bool" where
  "books_ok byPID a \<longleftrightarrow> counts_ok a \<and> taken_ok a \<and> known_victims byPID a \<and> spaced_positions a"

text \<open>The fields that the invariant is about; a step that leaves them alone keeps it.\<close>

definition books_of :: "adv_state \<Rightarrow> _" where
  "books_of a = (AttacksTotal a, AbilityCounts a, AbilityCounts0to10 a, DamageTakenFrom a, DamageDealtTo a,
     DamageTakenPercentTotal a, aDeaths a, LastChampDamage a, Positions a)"

lemma books_same: "books_of a' = books_of a \<Longrightarrow> books_ok byPID a \<Longrightarrow> books_ok byPID a'"
  by (simp add: books_of_def books_ok_def counts_ok_def taken_ok_def known_victims_def spaced_positions_def)

lemma books_attack:
  assumes "books_ok byPID a" and "adv_attack p s t a = Ok a'"
  shows "books_ok byPID a'"
proof -
  obtain fa where "fa_AddAttack t (Fights a) = Ok fa" using assms(2) by (auto simp: adv_attack_def bind_ok_Ok)
  then have "DamageTakenFrom a' = DamageTakenFrom a \<and> DamageDealtTo a' = DamageDealtTo a \<and> aDeaths a' = aDeaths a
     \<and> DamageTakenPercentTotal a' = DamageTakenPercentTotal a \<and> LastChampDamage a' = LastChampDamage a \<and> Positions a' = Positions a"
    using assms(2) by (auto simp: adv_attack_def Let_def split: if_splits)
  then show ?thesis using assms(1) counts_attack [OF _ assms(2)]
    by (simp add: books_ok_def taken_ok_def known_victims_def spaced_positions_def)
qed

lemma hurt_books:
  "AttacksTotal (adv_hurt p s t att v a) = AttacksTotal a" "AbilityCounts (adv_hurt p s t att v a) = AbilityCounts a"
  "AbilityCounts0to10 (adv_hurt p s t att v a) = AbilityCounts0to10 a" "aDeaths (adv_hurt p s t att v a) = aDeaths a"
  "Positions (adv_hurt p s t att v a) = Positions a"
  "LastChampDamage (adv_hurt p s t att v a) =
     (if att \<noteq> None then (LastChampDamage a)(ParticipantID v \<mapsto> (s, t)) else LastChampDamage a)"
  "DamageDealtTo (adv_hurt p s t att v a) =
     (case att of None \<Rightarrow> DamageDealtTo a
      | Some q \<Rightarrow> if ParticipantID q \<noteq> ParticipantID v \<and> dAttackerID t = ParticipantID p
                  then dm_AddDamage (ChampionID v) s (Total t) (Percent t) (DamageDealtTo a) else DamageDealtTo a)"
  "(DamageTakenFrom (adv_hurt p s t att v a), DamageTakenPercentTotal (adv_hurt p s t att v a)) =
     (case att of None \<Rightarrow> (DamageTakenFrom a, DamageTakenPercentTotal a)
      | Some q \<Rightarrow> if ParticipantID q \<noteq> ParticipantID v \<and> VictimID t = ParticipantID p
                  then (dm_AddDamage (ChampionID q) s (Total t) (Percent t) (DamageTakenFrom a), DamageTakenPercentTotal a + Percent t)
                  else (DamageTakenFrom a, DamageTakenPercentTotal a))"
  by (auto simp: adv_hurt_def Let_def split: option.splits)

lemma books_hurt:
  assumes "books_ok byPID a" and "map_of byPID (ParticipantID v) \<noteq> None"
  shows "books_ok byPID (adv_hurt p s t att v a)"
proof -
  have "counts_ok (adv_hurt p s t att v a)" "known_victims byPID (adv_hurt p s t att v a)" "spaced_positions (adv_hurt p s t att v a)"
    using assms by (auto simp: books_ok_def counts_ok_def known_victims_def spaced_positions_def hurt_books)
  moreover have "taken_ok (adv_hurt p s t att v a)"
    using assms(1) hurt_books(7,8) [of p s t att v a]
    by (cases att) (auto simp: books_ok_def taken_ok_def hurt_books(4) dm_AddDamage_def damage_wf_add total_percent total_deaths
        split: if_splits)
  ultimately show ?thesis by (simp add: books_ok_def)
qed

definition keyed :: "(int \<times> participant) list \<Rightarrow> bool" where
  "keyed byPID \<longleftrightarrow> (\<forall>i q. map_of byPID i = Some q \<longrightarrow> ParticipantID q = i)"

lemma books_damage:
  assumes "books_ok byPID a" and "keyed byPID" and "adv_damage p byPID s t a = Ok a'"
  shows "books_ok byPID a'"
proof -
  define a0 where "a0 = a\<lparr>Minions := mkt_AddDamage t (Minions a)\<rparr>"
  have a0: "books_ok byPID a0" by (rule books_same [OF _ assms(1)]) (simp add: a0_def books_of_def)
  show ?thesis
  proof (cases "map_of byPID (VictimID t)")
    case None
    then show ?thesis using assms(3) a0 by (simp add: adv_damage_def a0_def Let_def)
  next
    case (Some v)
    have "map_of byPID (ParticipantID v) \<noteq> None" using assms(2) Some by (auto simp: keyed_def)
    from books_hurt [OF a0 this] have h: "books_ok byPID (adv_hurt p s t (map_of byPID (dAttackerID t)) v a0)" .
    have "\<exists>fa. a' = (adv_hurt p s t (map_of byPID (dAttackerID t)) v a0)\<lparr>Fights := fa\<rparr>"
    proof (cases "for_fights t (map_of byPID (dAttackerID t)) v")
      case True
      then show ?thesis using assms(3) Some by (auto simp: adv_damage_def a0_def Let_def bind_ok_Ok)
    next
      case False
      then have "a' = adv_hurt p s t (map_of byPID (dAttackerID t)) v a0"
        using assms(3) Some by (simp add: adv_damage_def a0_def Let_def)
      then show ?thesis by (intro exI [of _ "Fights a'"]) simp
    qed
    then obtain fa where "a' = (adv_hurt p s t (map_of byPID (dAttackerID t)) v a0)\<lparr>Fights := fa\<rparr>" ..
    then show ?thesis by (intro books_same [OF _ h]) (simp add: books_of_def)
  qed
qed

lemma books_update:
  assumes "books_ok byPID a" and "adv_update p s t a = Ok a'"
  shows "books_ok byPID a'"
proof -
  obtain fa where fa: "fa_AddStateUpdate s t (Fights a) = Ok fa" using assms(2) by (auto simp: adv_update_def bind_ok_Ok)
  have pos: "Positions a' = Positions a \<or>
      Positions a' = Positions a @ [(s, suPosition t)] \<and> (Positions a = [] \<or> s - fst (List.last (Positions a)) > 3)"
    and rest: "books_of (a'\<lparr>Positions := Positions a\<rparr>) = books_of a"
    using assms(2) fa by (auto simp: adv_update_def Let_def books_of_def split: if_splits)
  have ok: "books_ok byPID (a'\<lparr>Positions := Positions a\<rparr>)" by (rule books_same [OF rest assms(1)])
  have "spaced_positions a'" using pos assms(1)
    by (cases "Positions a" rule: rev_cases) (auto simp: books_ok_def spaced_positions_def successively_append_iff)
  then show ?thesis using ok by (simp add: books_ok_def counts_ok_def taken_ok_def known_victims_def)
qed

lemma books_credit:
  assumes "books_ok byPID a" and "credit_kill p byPID s v k a = Ok b"
  shows "books_ok byPID b"
proof -
  have "b = a \<or> (\<exists>c. b = a\<lparr>DamageDealtTo := dm_AddDeath c s (DamageDealtTo a)\<rparr>)"
    using assms(2) by (auto simp: credit_kill_def nil_panic_def split: if_splits option.splits)
  then show ?thesis using assms(1)
    by (auto simp: books_ok_def counts_ok_def taken_ok_def known_victims_def spaced_positions_def dm_AddDeath_def damage_wf_add)
qed

lemma books_own_death:
  assumes "books_ok byPID a"
  shows "books_ok byPID (own_death p s v k a)"
proof (cases "v = ParticipantID p")
  case False
  then show ?thesis using assms by (simp add: own_death_def)
next
  case True
  then have "counts_ok (own_death p s v k a) \<and> known_victims byPID (own_death p s v k a) \<and> spaced_positions (own_death p s v k a)"
    using assms by (auto simp: own_death_def Let_def books_ok_def counts_ok_def known_victims_def spaced_positions_def split: option.split)
  moreover have "taken_ok (own_death p s v k a)"
    using assms True by (cases k) (simp_all add: own_death_def Let_def books_ok_def taken_ok_def dm_AddDeath_def damage_wf_add total_percent total_deaths)
  ultimately show ?thesis by (simp add: books_ok_def)
qed

lemma books_death:
  assumes "books_ok byPID a" and "adv_death p byPID s v a = Ok a'"
  shows "books_ok byPID a'"
proof -
  obtain fa b k where b: "credit_kill p byPID s v k (a\<lparr>Fights := fa\<rparr>) = Ok b" and a': "a' = own_death p s v k b"
    using assms(2) by (auto simp: adv_death_def bind_ok_Ok Let_def)
  have "books_ok byPID (a\<lparr>Fights := fa\<rparr>)" by (rule books_same [OF _ assms(1)]) (simp add: books_of_def)
  from books_own_death [OF books_credit [OF this b]] show ?thesis by (simp add: a')
qed

lemma books_event:
  assumes "books_ok byPID a" and "keyed byPID" and "adv_event p byPID d e a = Ok a'"
  shows "books_ok byPID a'"
proof -
  have same: "books_of a' = books_of a \<Longrightarrow> ?thesis" using books_same assms(1) by blast
  show ?thesis
  proof (cases "Body e")
    case (Attack t) then show ?thesis using assms books_attack by (simp add: adv_event_def)
  next
    case (Damage t) then show ?thesis using assms books_damage by (simp add: adv_event_def)
  next
    case (StateUpdate t) then show ?thesis using assms books_update by (simp add: adv_event_def)
  next
    case (Death pos v) then show ?thesis using assms books_death by (simp add: adv_event_def)
  next
    case (WardPlaced t)
    then have "books_of a' = books_of a" using assms(3) by (auto simp: adv_event_def adv_ward_def Let_def books_of_def split: if_splits)
    then show ?thesis by (rule same)
  next
    case (BuildingKill ty i)
    then show ?thesis using assms(3) by (intro same) (auto simp: adv_event_def books_of_def)
  next
    case (LevelUp l i)
    then show ?thesis using assms(3) by (intro same) (auto simp: adv_event_def books_of_def)
  next
    case (WardDeath i)
    then show ?thesis using assms(3) by (intro same) (auto simp: adv_event_def books_of_def split: sum.splits)
  qed (use assms in \<open>simp_all add: adv_event_def\<close>)
qed

lemma books_loop:
  assumes "books_ok byPID a" and "keyed byPID" and "adv_loop p byPID d es a = Ok a'"
  shows "books_ok byPID a'"
  using assms(1,3)
proof (induction es arbitrary: a)
  case (Cons e es)
  then obtain b where "adv_event p byPID d e a = Ok b" "adv_loop p byPID d es b = Ok a'" by (auto simp: bind_ok_Ok)
  then show ?case using Cons books_event assms(2) by blast
qed simp

lemma keyed_update: "keyed m \<Longrightarrow> keyed (AList.update (ParticipantID t) t m)"
  by (simp add: keyed_def)

lemma keyed_fold:
  "keyed m \<Longrightarrow> keyed (fst (fold (\<lambda>t (byPID, p). (AList.update (ParticipantID t) t byPID, if pSummonerID t = sid then Some t else p)) ps (m, q)))"
  by (induction ps arbitrary: m q) (simp_all add: keyed_update)

lemma keyed_build: "buildPIDMap ps sid = (byPID, q) \<Longrightarrow> keyed byPID"
  using keyed_fold [of "[]" sid ps None] by (simp add: buildPIDMap_def keyed_def)

lemma books_init: "books_ok byPID (adv_init p d)"
  by (simp add: books_ok_def adv_init_def counts_ok_def taken_ok_def known_victims_def spaced_positions_def damage_wf_def
      damage_total_def no_abilities_def get0_def)


lemma finish_books:
  "DamageTakenPercentPerDeath (adv_finish p byPID d sid mid plat roles a) = DamageTakenPercentTotal a / max (real_of_int (aDeaths a)) 1"
  "asDamageTaken (adv_finish p byPID d sid mid plat roles a) = DamageTakenFrom a"
  "AttacksPerMinute (adv_finish p byPID d sid mid plat roles a) = real_of_int (AttacksTotal a) / (d / 60)"
  "asAbilityCounts (adv_finish p byPID d sid mid plat roles a) = AbilityCounts a"
  "asAbilityCounts0to10 (adv_finish p byPID d sid mid plat roles a) = AbilityCounts0to10 a"
  "asPositions (adv_finish p byPID d sid mid plat roles a) = Positions a"
  by (simp_all add: adv_finish_def Let_def split: prod.split)

text \<open>
  The averages agree with the details reported beside them: the damage taken per death is the sum over
  the map of damage taken, divided by a number of deaths that is at least the deaths in this map; the
  uses of the abilities are at most the attacks counted per minute, those of the first ten minutes at most
  all of them; and the reported positions are more than three seconds apart.
\<close>

theorem books_agree:
  assumes "ComputeAdvanced events ps sid mid plat = Ok res"
  shows "\<exists>deaths attacks.
     DamageTakenPercentPerDeath res = damage_total DamagePercent (asDamageTaken res) / max deaths 1
     \<and> damage_total (real_of_int \<circ> Deaths) (asDamageTaken res) \<le> deaths
     \<and> AttacksPerMinute res = real_of_int attacks / (MatchDuration events / 60)
     \<and> (\<Sum>s \<leftarrow> [''Q'', ''W'', ''E'', ''R'']. get0 (asAbilityCounts res) s) \<le> attacks
     \<and> (\<forall>s. 0 \<le> get0 (asAbilityCounts0to10 res) s \<and> get0 (asAbilityCounts0to10 res) s \<le> get0 (asAbilityCounts res) s)
     \<and> successively (\<lambda>u v. fst v - fst u > 3) (asPositions res)"
proof -
  obtain byPID q where b: "buildPIDMap ps sid = (byPID, q)" by fastforce
  then obtain p where p: "buildPIDMap ps sid = (byPID, Some p)" using assms by (cases q) (auto simp: ComputeAdvanced_def)
  obtain a roles where a: "adv_loop p byPID (MatchDuration events) events (adv_init p (MatchDuration events)) = Ok a"
    and res: "res = adv_finish p byPID (MatchDuration events) sid mid plat roles a"
    by (rule compute_loop [OF assms p])
  have "books_ok byPID a" by (rule books_loop [OF books_init keyed_build [OF b] a])
  then show ?thesis
    by (intro exI [of _ "real_of_int (aDeaths a)"] exI [of _ "AttacksTotal a"])
      (simp add: res finish_books books_ok_def counts_ok_def taken_ok_def spaced_positions_def)
qed

lemma books_agree_witness:
  "\<exists>res. ComputeAdvanced demo_bv demo_team 1004 7 ''NA1'' = Ok res
     \<and> successively (\<lambda>u v. fst v - fst u > 3) (asPositions res)"
proof -
  obtain res where res: "ComputeAdvanced demo_bv demo_team 1004 7 ''NA1'' = Ok res" using demo_computed by auto
  with books_agree [OF res] show ?thesis by auto
qed

subsection \<open>No event dereferences nil\<close>

definition valid_body :: "body \<Rightarrow> bool" where
  "valid_body b \<longleftrightarrow>
     (case b of
        Attack t \<Rightarrow> valid_event (AttackF t)
      | Damage t \<Rightarrow> valid_event (DamageF t)
      | StateUpdate t \<Rightarrow> valid_event (UpdateF t)
      | Death _ v \<Rightarrow> valid_event (DeathF v)
      | _ \<Rightarrow> True)"

text \<open>An event that the fights accept leaves the loop in a good state, or fails as the death of an unknown ward.\<close>

definition proceeds :: "body \<Rightarrow> adv_state outcome \<Rightarrow> bool" where
  "proceeds b r \<longleftrightarrow> (\<exists>a'. r = Ok a' \<and> good_fights (Fights a')) \<or> ((\<exists>err. r = Err err) \<and> (\<exists>i. b = WardDeath i))"

lemma proceeds_Ok [simp]: "proceeds b (Ok a) \<longleftrightarrow> good_fights (Fights a)"
  by (simp add: proceeds_def)

lemma credit_known:
  assumes "map_of byPID v \<noteq> None"
  shows "\<exists>b. credit_kill p byPID s v k a = Ok b \<and> Fights b = Fights a"
  using assms by (auto simp: credit_kill_def)

lemma death_proceeds:
  assumes "good_fights (Fights a)" "known_victims byPID a" "valid_event (DeathF v)" "0 \<le> s" "s < 99999"
  shows "proceeds b (adv_death p byPID s v a)"
proof -
  obtain fa where fa: "fa_AddDeath (Wards a) s v (Fights a) = Ok fa" "good_fights fa"
    using fight_step_ok [OF assms(1,3-5), of "Wards a"] by auto
  define k where "k = killer_of byPID s v (a\<lparr>Fights := fa\<rparr>)"
  have "\<exists>c. credit_kill p byPID s v k (a\<lparr>Fights := fa\<rparr>) = Ok c \<and> Fights c = fa"
  proof (cases k)
    case None
    then show ?thesis by (simp add: credit_kill_def)
  next
    case (Some q)
    then have "LastChampDamage a v \<noteq> None" by (auto simp: k_def killer_of_def split: option.splits)
    then have "map_of byPID v \<noteq> None" using assms(2) by (auto simp: known_victims_def)
    from credit_known [OF this] show ?thesis by fastforce
  qed
  then show ?thesis using fa by (auto simp: adv_death_def Let_def k_def own_death_fields)
qed

lemma damage_proceeds:
  assumes "good_fights (Fights a)" "valid_event (DamageF t)" "0 \<le> s" "s < 99999"
  shows "proceeds b (adv_damage p byPID s t a)"
proof (cases "map_of byPID (VictimID t)")
  case None
  then show ?thesis using assms(1) by (simp add: adv_damage_def Let_def)
next
  case (Some v)
  define c where "c = adv_hurt p s t (map_of byPID (dAttackerID t)) v (a\<lparr>Minions := mkt_AddDamage t (Minions a)\<rparr>)"
  have c: "Fights c = Fights a" by (simp add: c_def hurt_fields)
  obtain fa where fa: "fa_AddDamage (Wards c) s t (Fights c) = Ok fa" "good_fights fa"
    using fight_step_ok [OF assms, of "Wards c"] by (auto simp: c)
  have "adv_damage p byPID s t a = (if for_fights t (map_of byPID (dAttackerID t)) v then Ok (c\<lparr>Fights := fa\<rparr>) else Ok c)"
    using Some fa(1) by (simp add: adv_damage_def c_def Let_def)
  then show ?thesis using fa(2) c assms(1) by simp
qed

lemma event_proceeds:
  assumes "good_fights (Fights a)" and "known_victims byPID a" and "valid_body (Body e)" and "0 \<le> Seconds e" and "Seconds e < 99999"
  shows "proceeds (Body e) (adv_event p byPID d e a)"
proof (cases "Body e")
  case (Attack t)
  obtain fa where "fa_AddAttack t (Fights a) = Ok fa" "good_fights fa"
    using fight_step_ok [OF assms(1) _ assms(4,5), of "AttackF t"] assms(3) Attack by (auto simp: valid_body_def)
  then show ?thesis by (simp add: adv_event_def adv_attack_def Attack Let_def)
next
  case (Damage t)
  then show ?thesis using damage_proceeds [OF assms(1) _ assms(4,5)] assms(3) by (simp add: adv_event_def valid_body_def)
next
  case (StateUpdate t)
  obtain fa where "fa_AddStateUpdate (Seconds e) t (Fights a) = Ok fa" "good_fights fa"
    using fight_step_ok [OF assms(1) _ assms(4,5), of "UpdateF t"] assms(3) StateUpdate by (auto simp: valid_body_def)
  then show ?thesis by (simp add: adv_event_def adv_update_def StateUpdate Let_def)
next
  case (Death pos v)
  then show ?thesis using death_proceeds [OF assms(1,2) _ assms(4,5)] assms(3) by (simp add: adv_event_def valid_body_def)
next
  case (WardPlaced t)
  then show ?thesis using assms(1) by (simp add: adv_event_def adv_ward_def Let_def)
next
  case (WardDeath i)
  then show ?thesis using assms(1) by (cases "wa_AddWardDeath (Seconds e) i (Wards a)") (simp_all add: adv_event_def proceeds_def)
next
  case (LevelUp l i)
  then show ?thesis using fight_step_ok [OF assms(1) _ assms(4,5), of "LevelUpF i"] by (simp add: adv_event_def)
next
  case (BuildingKill ty i)
  then show ?thesis using fight_step_ok [OF assms(1) _ assms(4,5), of "TurretF i"] assms(1) by (simp add: adv_event_def)
qed (use assms(1) in \<open>simp_all add: adv_event_def\<close>)

text \<open>
  C23: Once every participant has a position in the recent states, no event of a match makes the loop of
  \<open>ComputeAdvanced\<close> dereference nil, and this remains so, with the bookkeeping intact: neither in the fights nor in the credit for a kill,
  whose victim is always a participant. Only the death of an unknown ward ends it, with an error.
\<close>

theorem advanced_no_panic:
  assumes "good_fights (Fights a)" and "books_ok byPID a" and "keyed byPID"
    and "valid_body (Body e)" and "0 \<le> Seconds e" and "Seconds e < 99999"
  shows "proceeds (Body e) (adv_event p byPID d e a) \<and> (\<forall>a'. adv_event p byPID d e a = Ok a' \<longrightarrow> books_ok byPID a')"
  using event_proceeds [OF assms(1) _ assms(4-6)] books_event [OF assms(2,3)] assms(2) by (simp add: books_ok_def)

lemma advanced_no_panic_witness:
  "proceeds (Death bot_place 7) (adv_event demo_me [(4, demo_me)] 1800
     \<lparr>EventType = ''death'', Seconds = 110, Body = Death bot_place 7\<rparr> ((adv_init demo_me 1800)\<lparr>Fights := demo_fa\<rparr>))"
proof -
  have "books_ok [(4, demo_me)] ((adv_init demo_me 1800)\<lparr>Fights := demo_fa\<rparr>)"
    by (rule books_same [OF _ books_init [of _ demo_me 1800]]) (simp add: books_of_def)
  then show ?thesis
    using advanced_no_panic [of "(adv_init demo_me 1800)\<lparr>Fights := demo_fa\<rparr>" "[(4, demo_me)]"
        "\<lparr>EventType = ''death'', Seconds = 110, Body = Death bot_place 7\<rparr>" demo_me 1800] demo_fa_good
    by (simp add: keyed_def demo_me_def valid_body_def)
qed

end
