(* ===== verification/Packets.thy ===== *)
theory Packets
  imports Go_Prelude "HOL-Library.Word"
begin

text \<open>
  The blocks of a replay chunk or keyframe, \<open>lolpackets-master/cmd/unpack\<close> (\<open>block.go\<close> and
  \<open>readBlocks\<close> of \<open>unpack.go\<close>): a marker byte whose four high bits say in which format each
  field of the header follows, the header, and the content.

  Integers keep their width. A 32-bit float is its IEEE bits; the code only stores it. The input
  is the list of bytes left in a \<open>bytes.Reader\<close>. A read that finds too few bytes ends the process
  (\<open>log.Fatalln\<close>), which is the result \<open>Fatal\<close>. The library part states the format the other way
  round, as an encoder, and shows that reading inverts it.
\<close>

unbundle bit_operations_syntax

type_synonym byte = "8 word"

datatype 'a reading = Got 'a "byte list" | Fatal

primrec bind_read :: "'a reading \<Rightarrow> ('a \<Rightarrow> byte list \<Rightarrow> 'b reading) \<Rightarrow> 'b reading" where
  "bind_read (Got a r) f = f a r"
| "bind_read Fatal f = Fatal"

subsection \<open>Reading integers\<close>

definition readUint8 :: "byte list \<Rightarrow> 8 word reading" where
  "readUint8 r = (case r of b # r' \<Rightarrow> Got b r' | _ \<Rightarrow> Fatal)"

definition readUint16 :: "byte list \<Rightarrow> 16 word reading" where
  "readUint16 r = (case r of b0 # b1 # r' \<Rightarrow> Got (ucast b0 OR push_bit 8 (ucast b1)) r' | _ \<Rightarrow> Fatal)"

definition readUint32 :: "byte list \<Rightarrow> 32 word reading" where
  "readUint32 r =
     (case r of
        b0 # b1 # b2 # b3 # r' \<Rightarrow>
          Got (ucast b0 OR push_bit 8 (ucast b1) OR push_bit 16 (ucast b2) OR push_bit 24 (ucast b3)) r'
      | _ \<Rightarrow> Fatal)"

text \<open>
  \<open>float32(x)\<close> of a byte: with \<open>e\<close> the position of its highest bit, the exponent is \<open>127 + e\<close> and
  the bits below it are the high bits of the fraction.
\<close>

definition float32_of_byte :: "8 word \<Rightarrow> 32 word" where
  "float32_of_byte b =
     (case List.find (\<lambda>i. bit b i) [7, 6, 5, 4, 3, 2, 1, 0] of
        None \<Rightarrow> 0
      | Some e \<Rightarrow> push_bit 23 (word_of_nat (127 + e)) OR push_bit (23 - e) (take_bit e (ucast b)))"

subsection \<open>Blocks\<close>

record block =
  Marker :: "8 word"
  bTime :: "32 word"
  TimeLong :: bool
  bType :: "16 word"
  TypePresent :: bool
  Blockparam :: "32 word"
  BlockparamLong :: bool
  ContentLength :: "32 word"
  ContentLengthLong :: bool
  Content :: "byte list"

definition read_short :: "byte list \<Rightarrow> 32 word reading" where
  "read_short r = bind_read (readUint8 r) (\<lambda>b r'. Got (ucast b) r')"

definition read_time :: "bool \<Rightarrow> byte list \<Rightarrow> 32 word reading" where
  "read_time long r =
     (if long then readUint32 r else bind_read (readUint8 r) (\<lambda>b r'. Got (float32_of_byte b) r'))"

definition read_size :: "bool \<Rightarrow> byte list \<Rightarrow> 32 word reading" where
  "read_size long r = (if long then readUint32 r else read_short r)"

definition read_type :: "bool \<Rightarrow> byte list \<Rightarrow> 16 word reading" where
  "read_type present r = (if present then readUint16 r else Got 0 r)"

text \<open>
  \<open>r.Read(b.Content)\<close> of a \<open>bytes.Reader\<close>: at the end of the input the error \<open>io.EOF\<close> and a
  content of zeros; otherwise as many bytes as there are, and no error when there are fewer.
\<close>

definition read_content :: "nat \<Rightarrow> byte list \<Rightarrow> (byte list \<times> bool) \<times> byte list" where
  "read_content n r =
     ((take n r @ replicate (n - length r) 0, r = []), drop n r)"

text \<open>A block, and whether the error of the last read is \<open>io.EOF\<close>.\<close>

definition ReadBlock :: "byte list \<Rightarrow> (block \<times> bool) reading" where
  "ReadBlock r =
     bind_read (readUint8 r) (\<lambda>marker r.
     let timeLong = (marker AND 0x80 = 0); typePresent = (marker AND 0x40 = 0);
         paramLong = (marker AND 0x20 = 0); lengthLong = (marker AND 0x10 = 0) in
     bind_read (read_time timeLong r) (\<lambda>time r.
     bind_read (read_size lengthLong r) (\<lambda>len r.
     bind_read (read_type typePresent r) (\<lambda>typ r.
     bind_read (read_size paramLong r) (\<lambda>param r.
       (case read_content (unat len) r of ((content, eof), r') \<Rightarrow>
          Got (\<lparr>Marker = marker, bTime = time, TimeLong = timeLong, bType = typ,
                TypePresent = typePresent, Blockparam = param, BlockparamLong = paramLong,
                ContentLength = len, ContentLengthLong = lengthLong, Content = content\<rparr>, eof) r'))))))"

text \<open>How \<open>readBlocks\<close> ends: it returns (always nil, since the loop shadows \<open>err\<close>), or the process does.\<close>

datatype ending = Returned | Exited

lemma ReadBlock_shorter: "ReadBlock r = Got x r' \<Longrightarrow> length r' < length r"
proof -
  have t: "bind_read a f = Got y s \<longleftrightarrow> (\<exists>z u. a = Got z u \<and> f z u = Got y s)"
    for a :: "'a reading" and f :: "'a \<Rightarrow> byte list \<Rightarrow> 'b reading" and y s
    by (cases a) auto
  have u8: "readUint8 r = Got b s \<Longrightarrow> length s < length r" for r b s
    by (auto simp: readUint8_def split: list.splits)
  have u16: "readUint16 r = Got b s \<Longrightarrow> length s \<le> length r" for r b s
    by (auto simp: readUint16_def split: list.splits)
  have u32: "readUint32 r = Got b s \<Longrightarrow> length s \<le> length r" for r b s
    by (auto simp: readUint32_def split: list.splits)
  have sh: "read_short r = Got b s \<Longrightarrow> length s \<le> length r" for r b s
    by (auto simp: read_short_def t dest: u8)
  have tm: "read_time l r = Got b s \<Longrightarrow> length s \<le> length r" for l r b s
    by (auto simp: read_time_def t dest: u8 u32 split: if_splits)
  have sz: "read_size l r = Got b s \<Longrightarrow> length s \<le> length r" for l r b s
    by (auto simp: read_size_def dest: u32 sh split: if_splits)
  have ty: "read_type l r = Got b s \<Longrightarrow> length s \<le> length r" for l r b s
    by (auto simp: read_type_def dest: u16 split: if_splits)
  assume "ReadBlock r = Got x r'"
  then obtain m r1 a r2 b r3 c r4 d r5 n where
    "readUint8 r = Got m r1" "read_time (m AND 0x80 = 0) r1 = Got a r2"
    "read_size (m AND 0x10 = 0) r2 = Got b r3" "read_type (m AND 0x40 = 0) r3 = Got c r4"
    "read_size (m AND 0x20 = 0) r4 = Got d r5" "r' = drop n r5"
    by (auto simp: ReadBlock_def t Let_def read_content_def)
  with u8[of r m r1] tm[of _ r1 a r2] sz[of _ r2 b r3] ty[of _ r3 c r4] sz[of _ r4 d r5]
  show "length r' < length r" by fastforce
qed

function readBlocks :: "byte list \<Rightarrow> block list \<times> ending" where
  "readBlocks r =
     (case ReadBlock r of
        Fatal \<Rightarrow> ([], Exited)
      | Got (b, eof) r' \<Rightarrow>
          if eof then ([], Returned)
          else (case readBlocks r' of (bs, e) \<Rightarrow> (b # bs, e)))"
  by auto
termination by (relation "measure length") (auto dest: ReadBlock_shorter)

declare readBlocks.simps [simp del]

subsection \<open>The format, written\<close>

definition bytes2 :: "16 word \<Rightarrow> byte list" where
  "bytes2 w = [ucast w, ucast (drop_bit 8 w)]"

definition bytes4 :: "32 word \<Rightarrow> byte list" where
  "bytes4 w = [ucast w, ucast (drop_bit 8 w), ucast (drop_bit 16 w), ucast (drop_bit 24 w)]"

lemma read_bytes2 [simp]: "readUint16 (bytes2 w @ r) = Got w r"
  by (auto simp: readUint16_def bytes2_def bit_simps intro!: bit_word_eqI)

lemma read_bytes4 [simp]: "readUint32 (bytes4 w @ r) = Got w r"
proof -
  have "(ucast (ucast w :: byte) OR push_bit 8 (ucast (ucast (drop_bit 8 w) :: byte)) OR
      push_bit 16 (ucast (ucast (drop_bit 16 w) :: byte)) OR
      push_bit 24 (ucast (ucast (drop_bit 24 w) :: byte))) = w" (is "?l = _")
  proof (rule bit_word_eqI)
    fix n assume "n < LENGTH(32)"
    then consider "n < 8" | k where "k < 8" "n = 8 + k" | k where "k < 8" "n = 16 + k"
      | k where "k < 8" "n = 24 + k"
      proof -
      assume a: "n < 8 \<Longrightarrow> ?thesis" "\<And>k. k < 8 \<Longrightarrow> n = 8 + k \<Longrightarrow> ?thesis"
        "\<And>k. k < 8 \<Longrightarrow> n = 16 + k \<Longrightarrow> ?thesis" "\<And>k. k < 8 \<Longrightarrow> n = 24 + k \<Longrightarrow> ?thesis" "n < LENGTH(32)"
      show ?thesis using a(1) a(2)[of "n - 8"] a(3)[of "n - 16"] a(4)[of "n - 24"] a(5) by simp linarith
    qed
    then show "bit ?l n = bit w n" by cases (auto simp: bit_simps)
  qed
  then show ?thesis by (simp add: readUint32_def bytes4_def)
qed

text \<open>The byte whose float a relative time is.\<close>

definition time_byte :: "32 word \<Rightarrow> byte" where
  "time_byte t = hd (filter (\<lambda>b. float32_of_byte b = t) (map word_of_nat [0..<256]))"

lemma hd_of_member: "b \<in> set xs \<Longrightarrow> hd xs \<in> set xs"
  by (cases xs) auto

lemma time_byte: "float32_of_byte (time_byte (float32_of_byte b)) = float32_of_byte b"
proof -
  let ?bs = "filter (\<lambda>c. float32_of_byte c = float32_of_byte b) (map word_of_nat [0..<256])"
  have "unat b < 2 ^ 8" using unsigned_less[of b] by simp
  then have "b \<in> set ?bs" by (auto intro!: image_eqI[of _ _ "unat b"])
  then have "hd ?bs \<in> set ?bs" by (rule hd_of_member)
  then show ?thesis by (simp add: time_byte_def)
qed

definition encode_size :: "bool \<Rightarrow> 32 word \<Rightarrow> byte list" where
  "encode_size long w = (if long then bytes4 w else [ucast w])"

definition encode_header :: "block \<Rightarrow> byte list" where
  "encode_header b =
     Marker b # (if TimeLong b then bytes4 (bTime b) else [time_byte (bTime b)])
     @ encode_size (ContentLengthLong b) (ContentLength b)
     @ (if TypePresent b then bytes2 (bType b) else [])
     @ encode_size (BlockparamLong b) (Blockparam b)"

definition encode_block :: "block \<Rightarrow> byte list" where
  "encode_block b = encode_header b @ Content b"

text \<open>
  A block of the format: the flags are those of the marker, what is stored in a byte fits into
  one, an absent type is zero, and the content has its length, which is not zero.
\<close>

definition wf_block :: "block \<Rightarrow> bool" where
  "wf_block b \<longleftrightarrow>
     TimeLong b = (Marker b AND 0x80 = 0) \<and> TypePresent b = (Marker b AND 0x40 = 0) \<and>
     BlockparamLong b = (Marker b AND 0x20 = 0) \<and> ContentLengthLong b = (Marker b AND 0x10 = 0) \<and>
     (TimeLong b \<or> bTime b \<in> range float32_of_byte) \<and> (TypePresent b \<or> bType b = 0) \<and>
     (BlockparamLong b \<or> unat (Blockparam b) < 256) \<and>
     (ContentLengthLong b \<or> unat (ContentLength b) < 256) \<and>
     length (Content b) = unat (ContentLength b) \<and> Content b \<noteq> []"

lemma byte_back: "unat w < 256 \<Longrightarrow> ucast (ucast w :: byte) = (w :: 32 word)"
proof -
  assume "unat w < 256"
  then have "unat (ucast (ucast w :: byte) :: 32 word) = unat w"
    by (simp add: unsigned_ucast_eq take_bit_eq_mod unat_mod)
  then show ?thesis by (simp add: unsigned_word_eqI)
qed

lemma read_encoded_size: "long \<or> unat w < 256 \<Longrightarrow> read_size long (encode_size long w @ r) = Got w r"
  by (auto simp: read_size_def encode_size_def read_short_def readUint8_def byte_back)

lemma read_header:
  assumes "wf_block b"
  shows "ReadBlock (encode_header b @ r) =
    (case read_content (unat (ContentLength b)) r of
       ((content, eof), r') \<Rightarrow> Got (b\<lparr>Content := content\<rparr>, eof) r')"
proof -
  have t: "read_time (Marker b AND 0x80 = 0)
      ((if TimeLong b then bytes4 (bTime b) else [time_byte (bTime b)]) @ s) = Got (bTime b) s" for s
    using assms by (auto simp: wf_block_def read_time_def readUint8_def time_byte)
  have y: "read_type (Marker b AND 0x40 = 0) ((if TypePresent b then bytes2 (bType b) else []) @ s) =
      Got (bType b) s" for s
    using assms by (auto simp: wf_block_def read_type_def)
  have l: "read_size (Marker b AND 0x10 = 0) (encode_size (ContentLengthLong b) (ContentLength b) @ s) =
      Got (ContentLength b) s" for s
    using assms read_encoded_size by (auto simp: wf_block_def)
  have p: "read_size (Marker b AND 0x20 = 0) (encode_size (BlockparamLong b) (Blockparam b) @ s) =
      Got (Blockparam b) s" for s
    using assms read_encoded_size by (auto simp: wf_block_def)
  have flags: "\<lparr>Marker = Marker b, bTime = bTime b, TimeLong = Marker b AND 0x80 = 0, bType = bType b,
      TypePresent = Marker b AND 0x40 = 0, Blockparam = Blockparam b,
      BlockparamLong = Marker b AND 0x20 = 0, ContentLength = ContentLength b,
      ContentLengthLong = Marker b AND 0x10 = 0, Content = c\<rparr> = b\<lparr>Content := c\<rparr>" for c
    using assms by (cases b) (simp add: wf_block_def)
  have "readUint8 (encode_header b @ r) = Got (Marker b) (drop 1 (encode_header b @ r))"
    by (simp add: encode_header_def readUint8_def)
  moreover have "drop 1 (encode_header b @ r) =
      (if TimeLong b then bytes4 (bTime b) else [time_byte (bTime b)]) @
      (encode_size (ContentLengthLong b) (ContentLength b) @
      ((if TypePresent b then bytes2 (bType b) else []) @
      (encode_size (BlockparamLong b) (Blockparam b) @ r)))"
    by (simp add: encode_header_def)
  ultimately show ?thesis
    using flags by (simp add: ReadBlock_def t y l p split: prod.split)
qed

text \<open>
  C33: reading a block of the format gives the block back and stops right behind it.
\<close>

theorem block_roundtrip:
  assumes "wf_block b"
  shows "ReadBlock (encode_block b @ rest) = Got (b, False) rest"
  using read_header[OF assms, of "Content b @ rest"] assms
  by (simp add: encode_block_def read_content_def wf_block_def)

lemma nothing_left: "readBlocks [] = ([], Exited)"
  by (subst readBlocks.simps) (simp add: ReadBlock_def readUint8_def)

text \<open>
  a file of blocks is read in full, but the process then exits with an error.
\<close>

theorem blocks_read_then_exit:
  assumes "\<forall>b\<in>set bs. wf_block b"
  shows "readBlocks (concat (map encode_block bs)) = (bs, Exited)"
  using assms
proof (induction bs)
  case (Cons b bs)
  then have b: "wf_block b" by simp
  have "ReadBlock (concat (map encode_block (b # bs))) = Got (b, False) (concat (map encode_block bs))"
    using read_header[OF b, of "Content b @ concat (map encode_block bs)"] b
    by (simp add: encode_block_def read_content_def wf_block_def)
  with Cons show ?case by (subst readBlocks.simps) simp
qed (simp add: nothing_left)

text \<open>
  a block that is cut off in its content is reported in full length, with zeros.
\<close>

theorem cut_off_padded:
  assumes "wf_block b" "0 < n" "n < length (Content b)"
  shows "readBlocks (encode_header b @ take n (Content b)) =
    ([b\<lparr>Content := take n (Content b) @ replicate (length (Content b) - n) 0\<rparr>], Exited)"
proof -
  have "ReadBlock (encode_header b @ take n (Content b)) =
      Got (b\<lparr>Content := take n (Content b) @ replicate (length (Content b) - n) 0\<rparr>, False) []"
    using assms read_header[OF assms(1), of "take n (Content b)"]
    by (auto simp: read_content_def wf_block_def min_def)
  then show ?thesis by (subst readBlocks.simps) (simp add: nothing_left)
qed


subsection \<open>An example\<close>

text \<open>A block with a relative time of three milliseconds, no type and two bytes of content.\<close>

definition short_block :: block where
  "short_block =
     \<lparr>Marker = 0xF0, bTime = float32_of_byte 3, TimeLong = False, bType = 0, TypePresent = False,
      Blockparam = 5, BlockparamLong = False, ContentLength = 2, ContentLengthLong = False,
      Content = [7, 8]\<rparr>"

definition long_block :: block where
  "long_block =
     \<lparr>Marker = 0x03, bTime = 0x3F800000, TimeLong = True, bType = 0x61, TypePresent = True,
      Blockparam = 0x400000E2, BlockparamLong = True, ContentLength = 1, ContentLengthLong = True,
      Content = [1]\<rparr>"

lemma demo_blocks: "wf_block short_block" "wf_block long_block"
  by (simp_all add: wf_block_def short_block_def long_block_def)

theorem block_roundtrip_witness:
  "wf_block long_block \<and> ReadBlock (encode_block long_block @ [9]) = Got (long_block, False) [9]"
  using block_roundtrip[OF demo_blocks(2)] demo_blocks(2) by simp

theorem blocks_read_then_exit_witness:
  "readBlocks (concat (map encode_block [short_block, long_block])) = ([short_block, long_block], Exited)"
  by (rule blocks_read_then_exit) (simp add: demo_blocks)

theorem cut_off_padded_witness:
  "readBlocks (encode_header short_block @ [7]) = ([short_block\<lparr>Content := [7, 0]\<rparr>], Exited)"
  using cut_off_padded[OF demo_blocks(1), of 1] by (simp add: short_block_def)

end
