(* ===== verification/Video_Lock.thy ===== *)
theory Video_Lock
  imports Go_Services
begin

text \<open>
  The worker that records videos, \<open>lolvideo-master/worker\<close> (\<open>lock/lock.go\<close> and
  \<open>videogen_handler.go\<close>): a lock in the datastore for each output file, the request to the
  coordinator, the wait for the game's processes to be gone, the checks and the upload.

  \<open>video_env\<close> holds the parameters: how each remote call ends, the clock, whether the processes
  run at each look, and the local files. \<open>vops\<close> counts the calls and the readings of the clock.
  Times are in nanoseconds. A transaction of the datastore is one step. The request is sent in
  JSON, which cannot fail for its type.
\<close>

subsection \<open>Locks\<close>

record lock =
  Created :: int
  Expiration :: int

datatype stat_result = NotExist | StatError | FileSize int

record video_request =
  rrGameID :: int
  rrPlatformID :: string
  rrGameKey :: string
  rrGameLengthSeconds :: int
  rrSpectatorServer :: string
  rrMatchVersion :: string
  rrWorkerInstance :: string
  rrNeedsBootstrap :: bool
  rrRegion :: string
  rrChampFocus :: int

record video_world =
  locks :: "(string \<times> lock) list"
  uploaded :: "string list"
  posted :: "video_request list"
  vops :: nat

record video_env =
  ve_fate :: "nat \<Rightarrow> fate"
  ve_clock :: "nat \<Rightarrow> int"
  ve_running :: "nat \<Rightarrow> bool"
  ve_stat :: "nat \<Rightarrow> string \<Rightarrow> stat_result"

definition vtick :: "video_world \<Rightarrow> video_world" where
  "vtick w = w\<lparr>vops := Suc (vops w)\<rparr>"

text \<open>A call with an effect: its error if it has one, and the world afterwards.\<close>

definition vcall :: "video_env \<Rightarrow> (video_world \<Rightarrow> video_world) \<Rightarrow> video_world \<Rightarrow> string option \<times> video_world" where
  "vcall env eff w =
     (case answer_of (ve_fate env (vops w)) () of Inl e \<Rightarrow> Some e | Inr _ \<Rightarrow> None,
      vtick (effect_of (ve_fate env (vops w)) eff w))"

definition time_now :: "video_env \<Rightarrow> video_world \<Rightarrow> int \<times> video_world" where
  "time_now env w = (ve_clock env (vops w), vtick w)"

definition seconds :: "int \<Rightarrow> int" where
  "seconds d = wrap64 (d * 1000000000)"

definition GetLock :: "video_env \<Rightarrow> string \<Rightarrow> video_world \<Rightarrow> (string + lock option) \<times> video_world" where
  "GetLock env key w =
     (case vcall env (\<lambda>w. w) w of
        (Some e, w1) \<Rightarrow> (Inl e, w1)
      | (None, w1) \<Rightarrow> (Inr (map_of (locks w1) key), w1))"

definition CalculateExpiration :: "video_env \<Rightarrow> int \<Rightarrow> video_world \<Rightarrow> int \<times> video_world" where
  "CalculateExpiration env duration w =
     (case time_now env w of (t, w1) \<Rightarrow> (t + seconds duration, w1))"

definition WriteLock :: "video_env \<Rightarrow> string \<Rightarrow> int \<Rightarrow> video_world \<Rightarrow> string option \<times> video_world" where
  "WriteLock env key expiration w =
     (case time_now env w of (t, w1) \<Rightarrow>
        vcall env (\<lambda>w. w\<lparr>locks := AList.update key \<lparr>Created = t, Expiration = expiration\<rparr> (locks w)\<rparr>) w1)"

definition DeleteLock :: "video_env \<Rightarrow> string \<Rightarrow> video_world \<Rightarrow> string option \<times> video_world" where
  "DeleteLock env key w = vcall env (\<lambda>w. w\<lparr>locks := AList.delete key (locks w)\<rparr>) w"

definition Acquire :: "video_env \<Rightarrow> string \<Rightarrow> int \<Rightarrow> video_world \<Rightarrow> string option \<times> video_world" where
  "Acquire env key duration w =
     (case GetLock env key w of
        (Inl e, w1) \<Rightarrow> (Some e, w1)
      | (Inr lockObj, w1) \<Rightarrow>
     (case time_now env w1 of (t, w2) \<Rightarrow>
      if (case lockObj of None \<Rightarrow> False | Some l \<Rightarrow> Expiration l > t) then (Some ''active lock found'', w2)
      else (case CalculateExpiration env duration w2 of (expiration, w3) \<Rightarrow>
            WriteLock env key expiration w3)))"

subsection \<open>Messages\<close>

record lol_video =
  vdMatchId :: int
  vdPlatformId :: string
  vdKey :: string
  vdChampFocus :: int
  vdGameLengthSeconds :: int
  vdSpectatorServer :: string
  vdMatchVersion :: string

definition LolVideo_Valid :: "lol_video \<Rightarrow> bool" where
  "LolVideo_Valid rq \<longleftrightarrow>
     \<not> (vdMatchId rq = 0 \<or> vdPlatformId rq = [] \<or> vdKey rq = [] \<or> vdGameLengthSeconds rq = 0) \<and>
     \<not> (vdChampFocus rq < 1 \<or> vdChampFocus rq > 10)"

record videogen_worker =
  VideoInstanceID :: string
  VideoRegion :: string
  VideoClientVersion :: string
  VideoOutputPath :: string
  VideoDevServerMode :: bool
  MinVideoBitrateFileCheck :: int

definition VideogenLockOwner :: string where "VideogenLockOwner = ''LolVideogen''"
definition VideoExtraDurationSeconds :: int where "VideoExtraDurationSeconds = 60"

definition TrimRight_slash :: "string \<Rightarrow> string" where
  "TrimRight_slash s = rev (dropWhile (\<lambda>c. c = CHR ''/'') (rev s))"

definition video_name :: "lol_video \<Rightarrow> string" where
  "video_name msg =
     show_int (vdMatchId msg) @ ''-'' @ vdPlatformId msg @ ''-'' @ show_int (vdChampFocus msg) @ ''.mp4''"

definition expectedOutputFile :: "string \<Rightarrow> lol_video \<Rightarrow> string" where
  "expectedOutputFile basePath msg = TrimRight_slash basePath @ ''/'' @ video_name msg"

definition expectedLocalOutputFile :: "lol_video \<Rightarrow> string" where
  "expectedLocalOutputFile msg = ''z:'' @ [CHR 0x5C] @ video_name msg"

definition lock_key :: "videogen_worker \<Rightarrow> lol_video \<Rightarrow> string" where
  "lock_key f msg = VideogenLockOwner @ expectedOutputFile (VideoOutputPath f) msg"

definition mul64 :: "int \<Rightarrow> int \<Rightarrow> int" where
  "mul64 a b = wrap64 (a * b)"

text \<open>The division of Go truncates; the bitrate is a configured \<open>int\<close>.\<close>

definition quot :: "int \<Rightarrow> int \<Rightarrow> int" where
  "quot a b = sgn a * (\<bar>a\<bar> div b)"

definition minimumFileSize :: "videogen_worker \<Rightarrow> lol_video \<Rightarrow> int" where
  "minimumFileSize f msg =
     mul64 (quot (MinVideoBitrateFileCheck f) 8)
       (add64 (vdGameLengthSeconds msg) VideoExtraDurationSeconds)"

subsection \<open>The handler\<close>

definition video_request_of :: "video_env \<Rightarrow> videogen_worker \<Rightarrow> lol_video \<Rightarrow> video_world \<Rightarrow> video_request" where
  "video_request_of env f msg w =
     \<lparr>rrGameID = vdMatchId msg, rrPlatformID = vdPlatformId msg, rrGameKey = vdKey msg,
      rrGameLengthSeconds = vdGameLengthSeconds msg, rrSpectatorServer = vdSpectatorServer msg,
      rrMatchVersion = vdMatchVersion msg, rrWorkerInstance = VideoInstanceID f,
      rrNeedsBootstrap =
        (case ve_stat env (vops w) (''c:'' @ [CHR 0x5C] @ ''needs_bootstrap.txt'') of FileSize _ \<Rightarrow> True | _ \<Rightarrow> False),
      rrRegion = VideoRegion f, rrChampFocus = vdChampFocus msg\<rparr>"

text \<open>
  The handler up to the wait: it has ended, or it waits, with the time it started.
\<close>

definition begin_video ::
  "video_env \<Rightarrow> videogen_worker \<Rightarrow> lol_video \<Rightarrow> video_world \<Rightarrow> (unit outcome + int) \<times> video_world" where
  "begin_video env f msg w =
     (if \<not> LolVideo_Valid msg then (Inl (Err ''invalid message''), w)
      else if vdMatchVersion msg \<noteq> [] \<and> \<not> has_prefix (vdMatchVersion msg) (VideoClientVersion f)
      then (Inl (Err ''Client version mismatch''), w)
      else let outputFile = expectedOutputFile (VideoOutputPath f) msg;
               vidRequest = video_request_of env f msg w in
      case vcall env (\<lambda>w. w) w of
        (Some e, w1) \<Rightarrow> (Inl (Err e), w1)
      | (None, w1) \<Rightarrow>
      if outputFile \<in> set (uploaded w1) then (Inl (Ok ()), w1)
      else (case Acquire env (lock_key f msg) (vdGameLengthSeconds msg) w1 of
        (Some e, w2) \<Rightarrow> (Inl (Err e), w2)
      | (None, w2) \<Rightarrow>
     (case time_now env w2 of (startTime, w3) \<Rightarrow>
      if VideoDevServerMode f then (Inr startTime, w3)
      else (case vcall env (\<lambda>w. w\<lparr>posted := posted w @ [vidRequest]\<rparr>) w3 of
        (Some e, w4) \<Rightarrow> (Inl (Err e), snd (DeleteLock env (lock_key f msg) w4))
      | (None, w4) \<Rightarrow> (Inr startTime, w4)))))"

text \<open>
  The wait: the look \<open>i\<close> at the processes, after \<open>n\<close> in a row that found none. It ends at the
  third look in a row that finds none, if there ever is one.
\<close>

partial_function (option) wait_gone :: "(nat \<Rightarrow> bool) \<Rightarrow> nat \<Rightarrow> nat \<Rightarrow> nat option" where
  "wait_gone running i consecutive =
     (let consecutive' = (if running i then 0 else Suc consecutive) in
      if consecutive' > 2 then Some i else wait_gone running (Suc i) consecutive')"

definition finish_video ::
  "video_env \<Rightarrow> videogen_worker \<Rightarrow> lol_video \<Rightarrow> int \<Rightarrow> video_world \<Rightarrow> unit outcome \<times> video_world" where
  "finish_video env f msg startTime w =
     (case DeleteLock env (lock_key f msg) w of (_, w1) \<Rightarrow>
     (case time_now env w1 of (endTime, w2) \<Rightarrow>
      if endTime < startTime + seconds (vdGameLengthSeconds msg)
      then (Err ''Process ended before game length'', w2)
      else (case ve_stat env (vops w2) (expectedLocalOutputFile msg) of
        NotExist \<Rightarrow> (Err ''Video file not found'', w2)
      | StatError \<Rightarrow> (Panic ''nil pointer dereference'', w2)
      | FileSize n \<Rightarrow>
          if n < minimumFileSize f msg then (Err ''Video file too small'', w2)
          else (case vcall env (\<lambda>w. w\<lparr>uploaded := expectedOutputFile (VideoOutputPath f) msg # uploaded w\<rparr>) w2 of
            (Some e, w3) \<Rightarrow> (Err ''Error uploading to gcs'', w3)
          | (None, w3) \<Rightarrow> (Ok (), w3)))))"

text \<open>The whole handler; no result when the wait never ends.\<close>

definition Handle_video ::
  "video_env \<Rightarrow> videogen_worker \<Rightarrow> lol_video \<Rightarrow> video_world \<Rightarrow> (unit outcome \<times> video_world) option" where
  "Handle_video env f msg w =
     (case begin_video env f msg w of
        (Inl r, w1) \<Rightarrow> Some (r, w1)
      | (Inr startTime, w1) \<Rightarrow>
          map_option (\<lambda>_. finish_video env f msg startTime w1) (wait_gone (ve_running env) 0 0))"

subsection \<open>The wait\<close>

lemma wait_gone_found:
  assumes "k \<le> i" "\<not> running i" "\<not> running (Suc i)" "\<not> running (Suc (Suc i))"
  shows "\<exists>j. wait_gone running k c = Some j"
  using assms(1)
proof (induction "i - k" arbitrary: k c)
  case 0
  then show ?case
    using assms(2-) by (subst wait_gone.simps, simp add: Let_def)
      (subst wait_gone.simps, simp add: Let_def, subst wait_gone.simps, simp add: Let_def)
next
  case (Suc d)
  then show ?case using Suc.hyps(1)[of "Suc k"] by (subst wait_gone.simps) (auto simp: Let_def)
qed

lemma wait_gone_three:
  assumes "wait_gone running k c = Some j"
  shows "c \<le> 2 \<longrightarrow> k + 2 \<le> j + c \<and> (\<forall>m. k \<le> m \<and> m \<le> j \<and> j \<le> m + 2 \<longrightarrow> \<not> running m)"
proof (rule wait_gone.raw_induct[where P = "\<lambda>r k c j. c \<le> 2 \<longrightarrow> k + 2 \<le> j + c \<and>
    (\<forall>m. k \<le> m \<and> m \<le> j \<and> j \<le> m + 2 \<longrightarrow> \<not> r m)", OF _ assms])
  fix wg :: "(nat \<Rightarrow> bool) \<Rightarrow> nat \<Rightarrow> nat \<Rightarrow> nat option" and r k c j
  assume IH: "\<And>r k c j. wg r k c = Some j \<Longrightarrow> c \<le> 2 \<longrightarrow> k + 2 \<le> j + c \<and>
      (\<forall>m. k \<le> m \<and> m \<le> j \<and> j \<le> m + 2 \<longrightarrow> \<not> r m)"
    and body: "(let c' = if r k then 0 else Suc c in if c' > 2 then Some k else wg r (Suc k) c') = Some j"
  have k: "k \<le> m \<longleftrightarrow> m = k \<or> Suc k \<le> m" for m by auto
  consider "r k" | "\<not> r k" "c < 2" | "\<not> r k" "c = 2" | "c > 2" by linarith
  then show "c \<le> 2 \<longrightarrow> k + 2 \<le> j + c \<and> (\<forall>m. k \<le> m \<and> m \<le> j \<and> j \<le> m + 2 \<longrightarrow> \<not> r m)"
  proof cases
    case 1
    with body have "wg r (Suc k) 0 = Some j" by (simp add: Let_def)
    with IH have "Suc k + 2 \<le> j \<and> (\<forall>m. Suc k \<le> m \<and> m \<le> j \<and> j \<le> m + 2 \<longrightarrow> \<not> r m)" by fastforce
    then show ?thesis unfolding k by auto
  next
    case 2
    with body have "wg r (Suc k) (Suc c) = Some j" by (simp add: Let_def)
    with IH 2(2) have "Suc k + 2 \<le> j + Suc c \<and> (\<forall>m. Suc k \<le> m \<and> m \<le> j \<and> j \<le> m + 2 \<longrightarrow> \<not> r m)"
      by fastforce
    with 2(1) show ?thesis unfolding k by auto
  next
    case 3
    with body show ?thesis by (simp add: Let_def) (metis le_antisym)
  qed simp
qed

lemma wait_gone_iff:
  "(\<exists>j. wait_gone running 0 0 = Some j) \<longleftrightarrow>
     (\<exists>i. \<not> running i \<and> \<not> running (Suc i) \<and> \<not> running (Suc (Suc i)))"
proof
  assume "\<exists>j. wait_gone running 0 0 = Some j"
  then obtain j where "wait_gone running 0 0 = Some j" ..
  from wait_gone_three[OF this] have "2 \<le> j" "\<forall>m. m \<le> j \<and> j \<le> m + 2 \<longrightarrow> \<not> running m"
    by auto
  moreover from this(1) obtain i where "j = Suc (Suc i)" by (metis add_2_eq_Suc' le_add_diff_inverse2)
  ultimately show "\<exists>i. \<not> running i \<and> \<not> running (Suc i) \<and> \<not> running (Suc (Suc i))"
    by (intro exI[of _ i]) auto
next
  assume "\<exists>i. \<not> running i \<and> \<not> running (Suc i) \<and> \<not> running (Suc (Suc i))"
  then show "\<exists>j. wait_gone running 0 0 = Some j" using wait_gone_found[of 0] by blast
qed

text \<open>
  the handler returns exactly when it need not wait, or when three looks in a row find none of the
  processes.
\<close>

theorem video_returns:
  "(\<exists>r. Handle_video env f msg w = Some r) \<longleftrightarrow>
     isl (fst (begin_video env f msg w)) \<or>
     (\<exists>i. \<not> ve_running env i \<and> \<not> ve_running env (Suc i) \<and> \<not> ve_running env (Suc (Suc i)))"
  unfolding wait_gone_iff[symmetric] Handle_video_def
  by (auto split: sum.splits prod.splits)


subsection \<open>What the lock promises\<close>

lemma vcall_simps:
  "vops (snd (vcall env eff w)) = Suc (vops (effect_of (ve_fate env (vops w)) eff w))"
  "fst (vcall env eff w) = None \<longleftrightarrow> ve_fate env (vops w) = Done"
  "locks (snd (vcall env eff w)) = locks (effect_of (ve_fate env (vops w)) eff w)"
  by (simp_all add: vcall_def vtick_def split: sum.splits) (cases "ve_fate env (vops w)", simp_all)

lemma vcall_Done:
  "vcall env eff w = (None, w') \<Longrightarrow> ve_fate env (vops w) = Done \<and> w' = vtick (eff w)"
  by (cases "ve_fate env (vops w)") (auto simp: vcall_def)

lemma vcall_id: "vcall env (\<lambda>w. w) w = (r, w') \<Longrightarrow> w' = vtick w"
  by (cases "ve_fate env (vops w)") (auto simp: vcall_def)

lemma vcall_locks:
  "vcall env eff w = (r, w') \<Longrightarrow> (\<And>w. locks (eff w) = locks w) \<Longrightarrow> (\<And>w. vops (eff w) = vops w) \<Longrightarrow>
     locks w' = locks w \<and> vops w' = Suc (vops w)"
  by (cases "ve_fate env (vops w)") (auto simp: vcall_def vtick_def)

text \<open>The lock under a key that still holds at a time.\<close>

definition active :: "string \<Rightarrow> int \<Rightarrow> video_world \<Rightarrow> bool" where
  "active key t w \<longleftrightarrow> (\<exists>l. map_of (locks w) key = Some l \<and> Expiration l > t)"

lemma WriteLock_cases:
  assumes "WriteLock env key e w = (r, w')"
  shows "vops w' = vops w + 2 \<and> (\<exists>l. Expiration l = e \<and>
    (locks w' = locks w \<and> r \<noteq> None \<or> locks w' = AList.update key l (locks w)))"
proof -
  have "vcall env (\<lambda>w'. w'\<lparr>locks := AList.update key \<lparr>Created = ve_clock env (vops w), Expiration = e\<rparr> (locks w')\<rparr>)
      (vtick w) = (r, w')"
    using assms by (simp add: WriteLock_def time_now_def)
  then show ?thesis
    by (cases "ve_fate env (Suc (vops w))")
      (auto simp: vcall_def vtick_def intro!: exI[of _ "\<lparr>Created = ve_clock env (vops w), Expiration = e\<rparr>"])
qed

lemma Acquire_cases:
  assumes "Acquire env key d w = (r, w')"
  shows "vops w \<le> vops w' \<and> ((r \<noteq> None \<and> locks w' = locks w) \<or>
    (\<exists>l. \<not> active key (ve_clock env (Suc (vops w))) w \<and> vops w' = vops w + 5 \<and>
       Expiration l = ve_clock env (vops w + 2) + seconds d \<and>
       (locks w' = locks w \<and> r \<noteq> None \<or> locks w' = AList.update key l (locks w))))"
proof (cases "ve_fate env (vops w) = Done")
  case False
  then show ?thesis using assms
    by (cases "ve_fate env (vops w)") (auto simp: Acquire_def GetLock_def vcall_def vtick_def)
next
  case True
  then have g: "GetLock env key w = (Inr (map_of (locks w) key), vtick w)"
    by (simp add: GetLock_def vcall_def vtick_def)
  show ?thesis
  proof (cases "active key (ve_clock env (Suc (vops w))) w")
    case True
    then show ?thesis using assms g
      by (auto simp: Acquire_def time_now_def active_def vtick_def)
  next
    case False
    then have "WriteLock env key (ve_clock env (vops w + 2) + seconds d) (vtick (vtick (vtick w))) = (r, w')"
      using assms g
      by (auto simp: Acquire_def time_now_def active_def CalculateExpiration_def vtick_def split: option.splits if_splits)
    from WriteLock_cases[OF this] False show ?thesis by (auto simp: vtick_def)
  qed
qed

text \<open>
  two workers that acquire the same lock, with nobody deleting it in between, do so at least its
  duration apart.
\<close>

theorem acquire_excludes:
  assumes "mono (ve_clock env)" "Acquire env key d w = (None, w1)" "Acquire env key d' v = (None, v1)"
    and "vops w1 \<le> vops v" "map_of (locks v) key = map_of (locks w1) key"
  shows "ve_clock env (vops w) + seconds d \<le> ve_clock env (vops v1)"
proof -
  obtain l where l: "Expiration l = ve_clock env (vops w + 2) + seconds d" "locks w1 = AList.update key l (locks w)"
    using Acquire_cases[OF assms(2)] by auto
  have na: "\<not> active key (ve_clock env (Suc (vops v))) v" "vops v1 = vops v + 5"
    using Acquire_cases[OF assms(3)] by auto
  have "Expiration l \<le> ve_clock env (Suc (vops v))"
    using na(1) assms(5) by (simp add: active_def l(2) update_conv')
  also have "\<dots> \<le> ve_clock env (vops v1)" using assms(1) na(2) by (simp add: monoD)
  finally show ?thesis using l(1) monoD[OF assms(1), of "vops w" "vops w + 2"] by simp
qed

subsection \<open>Recordings\<close>

lemma vtick_simps [simp]: "locks (vtick w) = locks w" "vops (vtick w) = Suc (vops w)"
  "uploaded (vtick w) = uploaded w"
  by (simp_all add: vtick_def)

lemma post_locks:
  "vcall env (\<lambda>w. w\<lparr>posted := p w\<rparr>) w = (r, w') \<Longrightarrow> locks w' = locks w \<and> vops w' = Suc (vops w)"
  by (cases "ve_fate env (vops w)") (auto simp: vcall_def vtick_def)

lemma DeleteLock_cases:
  assumes "DeleteLock env key w = (r, w')"
  shows "vops w' = Suc (vops w) \<and> (locks w' = locks w \<or> locks w' = AList.delete key (locks w))"
  using assms by (cases "ve_fate env (vops w)") (auto simp: DeleteLock_def vcall_def vtick_def)

lemma begin_video_waits:
  assumes "begin_video env f msg w = (Inr t, w')"
  shows "\<exists>w2. Acquire env (lock_key f msg) (vdGameLengthSeconds msg) (vtick w) = (None, w2) \<and>
    t = ve_clock env (vops w2) \<and> locks w' = locks w2 \<and> vops w2 < vops w'"
proof -
  from assms obtain w1 where w1: "vcall env (\<lambda>w. w) w = (None, w1)"
    by (auto simp: begin_video_def Let_def split: if_splits prod.splits option.splits)
  then have v: "w1 = vtick w" by (rule vcall_id)
  obtain r w2 where a: "Acquire env (lock_key f msg) (vdGameLengthSeconds msg) (vtick w) = (r, w2)" by fastforce
  obtain r3 w4 where p: "vcall env (\<lambda>w'. w'\<lparr>posted := posted w' @ [video_request_of env f msg w]\<rparr>) (vtick w2) = (r3, w4)"
    by fastforce
  show ?thesis
    using assms w1 a p post_locks[OF p] unfolding v
    by (auto simp: begin_video_def Let_def time_now_def split: if_splits option.splits)
qed

lemma begin_video_locks:
  assumes "begin_video env f msg w = (x, w')"
  shows "vops w \<le> vops w' \<and> (locks w' = locks w \<or>
    (\<exists>n. vops w \<le> n \<and> n \<le> vops w' \<and> \<not> active (lock_key f msg) (ve_clock env n) w \<and>
      (\<forall>k. k \<noteq> lock_key f msg \<longrightarrow> map_of (locks w') k = map_of (locks w) k)))"
proof -
  obtain r1 w1 where w1: "vcall env (\<lambda>w. w) w = (r1, w1)" by fastforce
  then have v: "w1 = vtick w" by (rule vcall_id)
  obtain r w2 where a: "Acquire env (lock_key f msg) (vdGameLengthSeconds msg) (vtick w) = (r, w2)" by fastforce
  obtain r3 w4 where p: "vcall env (\<lambda>w'. w'\<lparr>posted := posted w' @ [video_request_of env f msg w]\<rparr>) (vtick w2) = (r3, w4)"
    by fastforce
  obtain r5 w5 where d: "DeleteLock env (lock_key f msg) w4 = (r5, w5)" by fastforce
  have w': "w' \<in> {w, vtick w, w2} \<or> r = None \<and> w' \<in> {vtick w2, w4, w5}"
    using assms w1 a p d unfolding v
    by (auto simp: begin_video_def Let_def time_now_def split: if_splits option.splits)
  have l4: "locks w4 = locks w2" "vops w4 = vops w2 + 2" using post_locks[OF p] by simp_all
  have l5: "vops w5 = Suc (vops w4)" "locks w5 = locks w4 \<or> locks w5 = AList.delete (lock_key f msg) (locks w4)"
    using DeleteLock_cases[OF d] by simp_all
  have le: "vops w \<le> vops w'" "Suc (vops w) \<le> vops w2" using w' l4 l5 Acquire_cases[OF a] by auto
  show ?thesis
  proof (cases "locks w' = locks w")
    case False
    then have c: "w' = w2 \<or> r = None \<and> w' \<in> {vtick w2, w4, w5}" using w' by auto
    with False l4 l5 obtain l where l: "\<not> active (lock_key f msg) (ve_clock env (Suc (Suc (vops w)))) (vtick w)"
        "vops w2 = vops w + 6" "locks w2 = AList.update (lock_key f msg) l (locks w)"
      using Acquire_cases[OF a] by auto
    have "\<forall>k. k \<noteq> lock_key f msg \<longrightarrow> map_of (locks w') k = map_of (locks w) k"
      using c l(3) l4 l5 by (auto simp: update_conv' delete_conv')
    moreover have "\<not> active (lock_key f msg) (ve_clock env (Suc (Suc (vops w)))) w"
      using l(1) by (simp add: active_def)
    moreover have "Suc (Suc (vops w)) \<le> vops w'" using c l(2) l4 l5 by auto
    ultimately show ?thesis using le(1) by (intro conjI disjI2 exI[of _ "Suc (Suc (vops w))"]) auto
  qed (simp add: le)
qed

text \<open>
  C31: a recording that succeeds has outlived its lock. The lock lasts for the length of the game from
  the moment it is acquired; a recording that ends sooner after the start than that is an error.
\<close>

theorem success_outlasts_lock:
  assumes "mono (ve_clock env)" "begin_video env f msg w = (Inr t, w1)" "vops w1 \<le> vops v"
    and "finish_video env f msg t v = (Ok (), v')"
  shows "\<exists>l. map_of (locks w1) (lock_key f msg) = Some l \<and> Expiration l \<le> ve_clock env (Suc (vops v))"
proof -
  obtain w2 where a: "Acquire env (lock_key f msg) (vdGameLengthSeconds msg) (vtick w) = (None, w2)"
      "t = ve_clock env (vops w2)" "locks w1 = locks w2" "vops w2 < vops w1"
    using begin_video_waits[OF assms(2)] by blast
  obtain l where l: "Expiration l = ve_clock env (vops w + 3) + seconds (vdGameLengthSeconds msg)"
      "locks w2 = AList.update (lock_key f msg) l (locks w)" "vops w2 = vops w + 6"
    using Acquire_cases[OF a(1)] by (auto simp: eval_nat_numeral)
  obtain r u where d: "DeleteLock env (lock_key f msg) v = (r, u)" by fastforce
  have u: "vops u = Suc (vops v)" using DeleteLock_cases[OF d] by simp
  have "t + seconds (vdGameLengthSeconds msg) \<le> ve_clock env (Suc (vops v))"
    using assms(4) by (auto simp: finish_video_def d time_now_def u split: if_splits)
  moreover have "ve_clock env (vops w + 3) \<le> t" unfolding a(2) l(3) using assms(1) by (simp add: monoD)
  ultimately have "Expiration l \<le> ve_clock env (Suc (vops v))" using l(1) by simp
  then show ?thesis by (simp add: a(3) l(2) update_conv')
qed


subsection \<open>Several workers\<close>

text \<open>
  A step of one of many workers of the same configuration: a message comes in and the worker
  starts to wait, or is done at once; or the wait is over. What a waiting worker records is kept
  with the time it started and the expiration of the lock it acquired.
\<close>

type_synonym video_sys = "video_world \<times> (nat \<Rightarrow> (lol_video \<times> int \<times> int) option)"

inductive video_step :: "video_env \<Rightarrow> videogen_worker \<Rightarrow> (int \<Rightarrow> int \<Rightarrow> bool) \<Rightarrow> video_sys \<Rightarrow> video_sys \<Rightarrow> bool"
  for env f may_end where
  video_starts: "ws i = None \<Longrightarrow> begin_video env f msg w = (Inr t, w') \<Longrightarrow>
    map_of (locks w') (lock_key f msg) = Some l \<Longrightarrow>
    video_step env f may_end (w, ws) (w', ws(i \<mapsto> (msg, t, Expiration l)))"
| video_refused: "ws i = None \<Longrightarrow> begin_video env f msg w = (Inl r, w') \<Longrightarrow>
    video_step env f may_end (w, ws) (w', ws)"
| video_ends: "ws i = Some (msg, t, e) \<Longrightarrow> may_end (ve_clock env (vops w)) e \<Longrightarrow>
    finish_video env f msg t w = (r, w') \<Longrightarrow>
    video_step env f may_end (w, ws) (w', ws(i := None))"

inductive_cases video_stepE: "video_step env f may_end s s'"

definition recording :: "videogen_worker \<Rightarrow> video_env \<Rightarrow> video_sys \<Rightarrow> nat \<Rightarrow> string \<Rightarrow> int \<Rightarrow> bool" where
  "recording f env s i key e \<longleftrightarrow>
     (\<exists>msg t. snd s i = Some (msg, t, e) \<and> lock_key f msg = key) \<and> ve_clock env (vops (fst s)) < e"

definition locks_hold :: "videogen_worker \<Rightarrow> video_env \<Rightarrow> video_sys \<Rightarrow> bool" where
  "locks_hold f env s \<longleftrightarrow>
     (\<forall>i key e. recording f env s i key e \<longrightarrow>
        (\<exists>l. map_of (locks (fst s)) key = Some l \<and> Expiration l = e) \<and>
        (\<forall>j e'. recording f env s j key e' \<longrightarrow> j = i))"

lemma recording_before:
  assumes "mono (ve_clock env)" "recording f env (w', ws) i key e" "vops w \<le> vops w'"
  shows "recording f env (w, ws) i key e"
  using assms(2) monoD[OF assms(1,3)] by (auto simp: recording_def)

lemma finish_video_locks:
  assumes "finish_video env f msg t w = (r, w')"
  shows "vops w \<le> vops w' \<and> (locks w' = locks w \<or> locks w' = AList.delete (lock_key f msg) (locks w))"
proof -
  obtain r1 w1 where d: "DeleteLock env (lock_key f msg) w = (r1, w1)" by fastforce
  obtain r3 w3 where c: "vcall env (\<lambda>w. w\<lparr>uploaded := expectedOutputFile (VideoOutputPath f) msg # uploaded w\<rparr>)
      (vtick w1) = (r3, w3)" by fastforce
  have "w' = vtick w1 \<or> w' = w3"
    using assms c by (auto simp: finish_video_def d time_now_def split: if_splits stat_result.splits option.splits)
  moreover have "locks w3 = locks (vtick w1) \<and> vops w3 = Suc (vops (vtick w1))"
    using vcall_locks[OF c] by simp
  ultimately show ?thesis using DeleteLock_cases[OF d] by auto
qed

lemma locks_holdI:
  assumes "\<And>i key e. recording f env s i key e \<Longrightarrow> \<exists>l. map_of (locks (fst s)) key = Some l \<and> Expiration l = e"
    and "\<And>i key e j e'. recording f env s i key e \<Longrightarrow> recording f env s j key e' \<Longrightarrow> j = i"
  shows "locks_hold f env s"
  using assms unfolding locks_hold_def by blast

lemma locks_holdD:
  assumes "locks_hold f env s" "recording f env s i key e"
  shows "\<exists>l. map_of (locks (fst s)) key = Some l \<and> Expiration l = e"
    and "recording f env s j key e' \<Longrightarrow> j = i"
  using assms unfolding locks_hold_def by blast+

lemma locks_hold_active:
  assumes "locks_hold f env (w, ws)" "recording f env (w, ws) j key e" "t < e"
  shows "active key t w"
  using locks_holdD(1)[OF assms(1,2)] assms(3) by (auto simp: active_def)

text \<open>A worker that starts leaves the locks of those that are still in time.\<close>

lemma begin_respects:
  assumes "mono (ve_clock env)" "locks_hold f env (w, ws)" "begin_video env f msg w = (x, w')"
    and "recording f env (w', ws) j key e"
  shows "map_of (locks w') key = map_of (locks w) key" and "recording f env (w, ws) j key e"
proof -
  note b = begin_video_locks[OF assms(3)]
  show r: "recording f env (w, ws) j key e" using recording_before[OF assms(1,4)] b by blast
  show "map_of (locks w') key = map_of (locks w) key"
  proof (rule ccontr)
    assume n: "map_of (locks w') key \<noteq> map_of (locks w) key"
    then have "key = lock_key f msg" using b by metis
    with n obtain n where m: "n \<le> vops w'" "\<not> active key (ve_clock env n) w" using b by auto
    have "ve_clock env n < e" using assms(4) monoD[OF assms(1) m(1)] by (simp add: recording_def)
    with locks_hold_active[OF assms(2) r] m(2) show False by blast
  qed
qed

lemma start_takes_expired:
  assumes "mono (ve_clock env)" "locks_hold f env (w, ws)" "begin_video env f msg w = (Inr t, w')"
    and "recording f env (w', ws) j key e"
  shows "key \<noteq> lock_key f msg"
proof
  assume k: "key = lock_key f msg"
  obtain w2 where a: "Acquire env (lock_key f msg) (vdGameLengthSeconds msg) (vtick w) = (None, w2)"
      "vops w2 < vops w'"
    using begin_video_waits[OF assms(3)] by blast
  have l: "\<not> active key (ve_clock env (Suc (Suc (vops w)))) w" "vops w2 = vops w + 6"
    using Acquire_cases[OF a(1)] k by (auto simp: active_def)
  have "ve_clock env (Suc (Suc (vops w))) \<le> ve_clock env (vops w')"
    using a(2) l(2) by (intro monoD[OF assms(1)]) simp
  then have "ve_clock env (Suc (Suc (vops w))) < e" using assms(4) by (simp add: recording_def)
  with locks_hold_active[OF assms(2) begin_respects(2)[OF assms]] l(1) show False by blast
qed

lemma locks_hold_start:
  assumes "mono (ve_clock env)" "locks_hold f env (w, ws)" "begin_video env f msg w = (Inr t, w')"
    and "map_of (locks w') (lock_key f msg) = Some l"
  shows "locks_hold f env (w', ws(i \<mapsto> (msg, t, Expiration l)))" (is "locks_hold f env ?s")
proof (rule locks_holdI)
  have own: "key = lock_key f msg \<and> e = Expiration l" if "recording f env ?s i key e" for key e
    using that by (auto simp: recording_def)
  have other: "recording f env (w', ws) j key e" if "recording f env ?s j key e" "j \<noteq> i" for j key e
    using that by (simp add: recording_def)
  fix j key e
  assume r: "recording f env ?s j key e"
  show "\<exists>l. map_of (locks (fst ?s)) key = Some l \<and> Expiration l = e"
  proof (cases "j = i")
    case True
    with own r assms(4) show ?thesis by auto
  next
    case False
    note o = begin_respects[OF assms(1-3) other[OF r False]]
    from locks_holdD(1)[OF assms(2) o(2)] o(1) show ?thesis by simp
  qed
  fix j' e'
  assume r': "recording f env ?s j' key e'"
  show "j' = j"
  proof (cases "j = i \<or> j' = i")
    case True
    then show ?thesis
      using own other r r' start_takes_expired[OF assms(1-3)] by metis
  next
    case False
    then show ?thesis
      using locks_holdD(2)[OF assms(2)] begin_respects(2)[OF assms(1-3) other] r r' by metis
  qed
qed

lemma locks_hold_refused:
  assumes "mono (ve_clock env)" "locks_hold f env (w, ws)" "begin_video env f msg w = (x, w')"
  shows "locks_hold f env (w', ws)"
proof (rule locks_holdI)
  fix j key e
  assume r: "recording f env (w', ws) j key e"
  note b = begin_respects[OF assms r]
  show "\<exists>l. map_of (locks (fst (w', ws))) key = Some l \<and> Expiration l = e"
    using locks_holdD(1)[OF assms(2) b(2)] b(1) by simp
  fix j' e'
  assume "recording f env (w', ws) j' key e'"
  then show "j' = j" by (rule locks_holdD(2)[OF assms(2) b(2) begin_respects(2)[OF assms]])
qed

lemma locks_hold_end:
  assumes "mono (ve_clock env)" "locks_hold f env (w, ws)" "ws i = Some (msg, t, e)"
    and "ve_clock env (vops w) < e" "finish_video env f msg t w = (r, w')"
  shows "locks_hold f env (w', ws(i := None))"
proof (rule locks_holdI)
  note fin = finish_video_locks[OF assms(5)]
  have i: "recording f env (w, ws) i (lock_key f msg) e" using assms(3,4) by (auto simp: recording_def)
  have before: "recording f env (w, ws) j key e' \<and> j \<noteq> i"
    if "recording f env (w', ws(i := None)) j key e'" for j key e'
  proof -
    have "j \<noteq> i" "recording f env (w', ws) j key e'" using that by (auto simp: recording_def split: if_splits)
    then show ?thesis using recording_before[OF assms(1)] fin by blast
  qed
  fix j key e'
  assume q: "recording f env (w', ws(i := None)) j key e'"
  have "key \<noteq> lock_key f msg" using before[OF q] locks_holdD(2)[OF assms(2) i] by blast
  then have "map_of (locks w') key = map_of (locks w) key" using fin by (auto simp: delete_conv')
  then show "\<exists>l. map_of (locks (fst (w', ws(i := None)))) key = Some l \<and> Expiration l = e'"
    using locks_holdD(1)[OF assms(2)] before[OF q] by auto
  fix j' e''
  assume "recording f env (w', ws(i := None)) j' key e''"
  then show "j' = j" using locks_holdD(2)[OF assms(2)] before before[OF q] by blast
qed

lemma locks_hold_step:
  assumes "mono (ve_clock env)" "video_step env f (<) s s'" "locks_hold f env s"
  shows "locks_hold f env s'"
  using assms(2)
proof cases
  case (video_starts ws i msg w t w' l)
  then show ?thesis using locks_hold_start[OF assms(1)] assms(3) by simp
next
  case (video_refused ws i msg w r w')
  then show ?thesis using locks_hold_refused[OF assms(1)] assms(3) by simp
next
  case (video_ends ws i msg t e w r w')
  then show ?thesis using locks_hold_end[OF assms(1)] assms(3) by simp
qed

text \<open>
  C17: as long as every recording ends before its lock expires, no file is recorded by two workers
  whose locks have not expired.
\<close>

theorem timely_recordings_exclusive:
  assumes "mono (ve_clock env)" "(video_step env f (<))\<^sup>*\<^sup>* (w, \<lambda>_. None) s"
    and "recording f env s i key e" "recording f env s j key e'"
  shows "i = j"
proof -
  have "locks_hold f env s"
    using assms(2)
  proof (induction rule: rtranclp_induct)
    case base
    show ?case by (simp add: locks_hold_def recording_def)
  next
    case (step s s')
    then show ?case using locks_hold_step[OF assms(1)] by blast
  qed
  with assms(3,4) show ?thesis unfolding locks_hold_def by blast
qed

subsection \<open>An overdue recording\<close>

definition demo_video :: lol_video where
  "demo_video =
     \<lparr>vdMatchId = 7, vdPlatformId = ''NA1'', vdKey = ''k'', vdChampFocus = 3, vdGameLengthSeconds = 1500,
      vdSpectatorServer = [], vdMatchVersion = []\<rparr>"

definition demo_recorder :: videogen_worker where
  "demo_recorder =
     \<lparr>VideoInstanceID = ''i-1'', VideoRegion = ''us-east-1'', VideoClientVersion = ''6.5.'',
      VideoOutputPath = ''gs:'', VideoDevServerMode = False, MinVideoBitrateFileCheck = 900000\<rparr>"

definition no_videos :: video_world where
  "no_videos = \<lparr>locks = [], uploaded = [], posted = [], vops = 0\<rparr>"

text \<open>
  The readings of the clock: the first worker starts at zero, the second after 1560 seconds; the
  first ends a second later, and a third starts another second later. The recorded file has
  \<open>bytes\<close> bytes.
\<close>

definition demo_times :: "nat \<Rightarrow> int" where
  "demo_times n =
     (if n < 9 then 0 else if n < 17 then 1560000000000 else if n < 19 then 1561000000000
      else 1562000000000)"

definition overdue_env :: "int \<Rightarrow> video_env" where
  "overdue_env bytes = \<lparr>ve_fate = (\<lambda>_. Done), ve_clock = demo_times, ve_running = (\<lambda>i. i < 4),
                       ve_stat = (\<lambda>_ _. FileSize bytes)\<rparr>"

lemma demo_times_mono: "mono demo_times"
  by (auto simp: mono_def demo_times_def)

abbreviation "demo_key \<equiv> lock_key demo_recorder demo_video"

definition demo_lock :: "int \<Rightarrow> lock" where
  "demo_lock t = \<lparr>Created = t, Expiration = t + 1500000000000\<rparr>"

lemma seconds_1500: "seconds 1500 = 1500000000000"
  by (simp add: seconds_def wrap64_def)

lemma begin_demo:
  assumes "\<forall>i\<in>{1..7}. demo_times (vops w + i) = t" "uploaded w = []"
    and "map_of (locks w) demo_key = None \<or> map_of (locks w) demo_key = Some (demo_lock t') \<and> t' + 1500000000000 \<le> t"
  shows "\<exists>r. begin_video (overdue_env bytes) demo_recorder demo_video w =
    (Inr t, w\<lparr>locks := AList.update demo_key (demo_lock t) (locks w), posted := posted w @ [r], vops := vops w + 8\<rparr>)"
proof -
  have c: "demo_times (Suc (vops w)) = t" "demo_times (Suc (Suc (vops w))) = t"
      "demo_times (Suc (Suc (Suc (vops w)))) = t" "demo_times (Suc (Suc (Suc (Suc (vops w))))) = t"
      "demo_times (Suc (Suc (Suc (Suc (Suc (vops w)))))) = t"
      "demo_times (Suc (Suc (Suc (Suc (Suc (Suc (vops w))))))) = t"
    using assms(1)[THEN bspec, of 1] assms(1)[THEN bspec, of 2] assms(1)[THEN bspec, of 3]
      assms(1)[THEN bspec, of 4] assms(1)[THEN bspec, of 5] assms(1)[THEN bspec, of 6]
    by (simp_all add: eval_nat_numeral)
  show ?thesis
    using assms(2,3)
    by (auto simp: begin_video_def Acquire_def GetLock_def WriteLock_def CalculateExpiration_def time_now_def
        vcall_def vtick_def overdue_env_def c LolVideo_Valid_def Let_def eval_nat_numeral demo_lock_def
        seconds_1500 demo_recorder_def demo_video_def)
qed


lemma finish_demo:
  assumes "demo_times (Suc (vops w)) = 1561000000000" "bytes < 175500000"
  shows "finish_video (overdue_env bytes) demo_recorder demo_video 0 w =
    (Err ''Video file too small'', w\<lparr>locks := AList.delete demo_key (locks w), vops := vops w + 2\<rparr>)"
proof -
  have q: "quot 900000 8 = 112500" by (simp add: quot_def)
  have "minimumFileSize demo_recorder demo_video = 175500000"
    by (simp add: minimumFileSize_def demo_recorder_def demo_video_def mul64_def add64_def
        q VideoExtraDurationSeconds_def wrap64_def)
  moreover have "vdGameLengthSeconds demo_video = 1500" by (simp add: demo_video_def)
  ultimately show ?thesis using assms
    by (simp add: finish_video_def DeleteLock_def vcall_def vtick_def time_now_def overdue_env_def
        seconds_1500 eval_nat_numeral)
qed

text \<open>
  without that, the lock protects nothing: a recording that fails after its lock expired deletes
  the lock of the worker that took over, and a third worker starts to record the same file while
  the second one's lock would still have held for 1498 seconds.
\<close>

theorem overdue_recording_frees_lock:
  "\<exists>s. (video_step (overdue_env 1) demo_recorder (\<lambda>_ _. True))\<^sup>*\<^sup>* (no_videos, \<lambda>_. None) s \<and>
     recording demo_recorder (overdue_env 1) s 1 demo_key 3060000000000 \<and>
     recording demo_recorder (overdue_env 1) s 2 demo_key 3062000000000"
proof -
  let ?S = "video_step (overdue_env 1) demo_recorder (\<lambda>_ _. True)"
  obtain r0 w0 where w0: "begin_video (overdue_env 1) demo_recorder demo_video no_videos = (Inr 0, w0)"
      "w0 = \<lparr>locks = [(demo_key, demo_lock 0)], uploaded = [], posted = [r0], vops = 8\<rparr>"
    using begin_demo[of no_videos 0 0 1] by (auto simp: no_videos_def demo_times_def)
  obtain r1 w1 where w1: "begin_video (overdue_env 1) demo_recorder demo_video w0 = (Inr 1560000000000, w1)"
      "w1 = \<lparr>locks = [(demo_key, demo_lock 1560000000000)], uploaded = [], posted = [r0, r1], vops = 16\<rparr>"
    using begin_demo[of w0 1560000000000 0 1] by (auto simp: w0(2) demo_times_def)
  define w2 where "w2 = w1\<lparr>locks := [], vops := 18\<rparr>"
  have f: "finish_video (overdue_env 1) demo_recorder demo_video 0 w1 = (Err ''Video file too small'', w2)"
    using finish_demo[of w1 1] by (simp add: w1(2) w2_def demo_times_def)
  obtain r2 w3 where w3: "begin_video (overdue_env 1) demo_recorder demo_video w2 = (Inr 1562000000000, w3)"
      "w3 = \<lparr>locks = [(demo_key, demo_lock 1562000000000)], uploaded = [], posted = [r0, r1, r2], vops = 26\<rparr>"
    using begin_demo[of w2 1562000000000 0 1] by (auto simp: w2_def w1(2) demo_times_def)
  define s1 where "s1 = (\<lambda>_::nat. None)(0 \<mapsto> (demo_video, 0::int, 1500000000000::int))"
  define s2 where "s2 = s1(1 \<mapsto> (demo_video, 1560000000000, 3060000000000))"
  define s3 where "s3 = s2(0 := None)"
  define s4 where "s4 = s3(2 \<mapsto> (demo_video, 1562000000000, 3062000000000))"
  have "?S (no_videos, \<lambda>_. None) (w0, s1)"
    using video_starts[of "\<lambda>_. None" 0, OF _ w0(1), of "demo_lock 0"] by (simp add: w0(2) s1_def demo_lock_def)
  moreover have "?S (w0, s1) (w1, s2)"
    using video_starts[of s1 1, OF _ w1(1), of "demo_lock 1560000000000"]
    by (simp add: w1(2) s2_def s1_def demo_lock_def)
  moreover have "?S (w1, s2) (w2, s3)"
    using video_ends[of s2 0, OF _ _ f] by (simp add: s3_def s2_def s1_def)
  moreover have "?S (w2, s3) (w3, s4)"
    using video_starts[of s3 2, OF _ w3(1), of "demo_lock 1562000000000"]
    by (simp add: w3(2) s4_def s3_def s2_def s1_def demo_lock_def)
  ultimately have "?S\<^sup>*\<^sup>* (no_videos, \<lambda>_. None) (w3, s4)"
    by (meson converse_rtranclp_into_rtranclp r_into_rtranclp)
  moreover have "recording demo_recorder (overdue_env 1) (w3, s4) 1 demo_key 3060000000000"
    "recording demo_recorder (overdue_env 1) (w3, s4) 2 demo_key 3062000000000"
    by (simp_all add: recording_def s4_def s3_def s2_def w3(2) overdue_env_def demo_times_def)
  ultimately show ?thesis by blast
qed

lemma first_start:
  "\<exists>w0. begin_video (overdue_env b) demo_recorder demo_video no_videos = (Inr 0, w0) \<and>
     locks w0 = [(demo_key, demo_lock 0)] \<and> uploaded w0 = [] \<and> vops w0 = 8"
  using begin_demo[of no_videos 0 0 b] by (auto simp: no_videos_def demo_times_def)

theorem timely_recordings_exclusive_witness:
  "\<exists>s. (video_step (overdue_env 1) demo_recorder (<))\<^sup>*\<^sup>* (no_videos, \<lambda>_. None) s \<and>
     recording demo_recorder (overdue_env 1) s 0 demo_key 1500000000000 \<and>
     \<not> recording demo_recorder (overdue_env 1) s 1 demo_key 1500000000000"
proof -
  obtain w0 where w0: "begin_video (overdue_env 1) demo_recorder demo_video no_videos = (Inr 0, w0)"
      "locks w0 = [(demo_key, demo_lock 0)]" "vops w0 = 8"
    using first_start by blast
  let ?s = "(w0, [0 \<mapsto> (demo_video, 0, 1500000000000)])"
  have m: "mono (ve_clock (overdue_env 1))" using demo_times_mono by (simp add: overdue_env_def)
  have r: "(video_step (overdue_env 1) demo_recorder (<))\<^sup>*\<^sup>* (no_videos, \<lambda>_. None) ?s"
    using video_starts[of "\<lambda>_. None" 0, OF _ w0(1), of "demo_lock 0"]
    by (intro r_into_rtranclp) (simp add: w0(2) demo_lock_def)
  have i: "recording demo_recorder (overdue_env 1) ?s 0 demo_key 1500000000000"
    by (simp add: recording_def w0(3) overdue_env_def demo_times_def)
  have "\<not> recording demo_recorder (overdue_env 1) ?s 1 demo_key 1500000000000"
    using timely_recordings_exclusive[OF m r i, of 1 1500000000000] by auto
  with r i show ?thesis by blast
qed

lemma finish_demo_ok:
  assumes "demo_times (Suc (vops w)) = 1561000000000"
  shows "fst (finish_video (overdue_env 175500000) demo_recorder demo_video 0 w) = Ok ()"
proof -
  have q: "quot 900000 8 = 112500" by (simp add: quot_def)
  have "minimumFileSize demo_recorder demo_video = 175500000"
    by (simp add: minimumFileSize_def demo_recorder_def demo_video_def mul64_def add64_def
        q VideoExtraDurationSeconds_def wrap64_def)
  moreover have "vdGameLengthSeconds demo_video = 1500" by (simp add: demo_video_def)
  ultimately show ?thesis using assms
    by (simp add: finish_video_def DeleteLock_def vcall_def vtick_def time_now_def overdue_env_def
        seconds_1500 eval_nat_numeral)
qed

theorem success_outlasts_lock_witness:
  "\<exists>l. map_of [(demo_key, demo_lock 0)] demo_key = Some l \<and>
     Expiration l \<le> ve_clock (overdue_env 175500000) 17"
proof -
  obtain w0 where w0: "begin_video (overdue_env 175500000) demo_recorder demo_video no_videos = (Inr 0, w0)"
      "locks w0 = [(demo_key, demo_lock 0)]" "vops w0 = 8"
    using first_start by blast
  have m: "mono (ve_clock (overdue_env 175500000))" using demo_times_mono by (simp add: overdue_env_def)
  have e: "fst (finish_video (overdue_env 175500000) demo_recorder demo_video 0 (w0\<lparr>vops := 16\<rparr>)) = Ok ()"
    by (rule finish_demo_ok) (simp add: demo_times_def)
  obtain v where "finish_video (overdue_env 175500000) demo_recorder demo_video 0 (w0\<lparr>vops := 16\<rparr>) = (Ok (), v)"
    using e by (metis prod.collapse)
  from success_outlasts_lock[OF m w0(1) _ this] show ?thesis by (simp add: w0)
qed

theorem acquire_excludes_witness:
  "ve_clock (overdue_env 1) 0 + seconds 1500 \<le> ve_clock (overdue_env 1) 13"
proof -
  have m: "mono (ve_clock (overdue_env 1))" using demo_times_mono by (simp add: overdue_env_def)
  have a: "Acquire (overdue_env 1) demo_key 1500 (w\<lparr>vops := 8 * n\<rparr>) =
      (None, w\<lparr>locks := AList.update demo_key (demo_lock (1560000000000 * int n)) (locks w), vops := 8 * n + 5\<rparr>)"
    if "n < 2" "locks w = [] \<and> n = 0 \<or> locks w = [(demo_key, demo_lock 0)] \<and> n = 1" for n w
    using that
    by (auto simp: Acquire_def GetLock_def WriteLock_def CalculateExpiration_def time_now_def vcall_def
        vtick_def overdue_env_def demo_times_def seconds_1500 demo_lock_def eval_nat_numeral)
  define w1 where "w1 = no_videos\<lparr>locks := [(demo_key, demo_lock 0)], vops := 5\<rparr>"
  have "no_videos = no_videos\<lparr>vops := 8 * 0\<rparr>" by (simp add: no_videos_def)
  then have "Acquire (overdue_env 1) demo_key 1500 no_videos = (None, w1)"
    using a[of 0 no_videos] by (simp add: no_videos_def w1_def)
  moreover have "Acquire (overdue_env 1) demo_key 1500 (w1\<lparr>vops := 8\<rparr>) =
      (None, w1\<lparr>locks := AList.update demo_key (demo_lock 1560000000000) (locks w1), vops := 13\<rparr>)"
    using a[of 1 w1] by (simp add: w1_def)
  ultimately have "ve_clock (overdue_env 1) (vops no_videos) + seconds 1500 \<le>
      ve_clock (overdue_env 1) (vops (w1\<lparr>locks := AList.update demo_key (demo_lock 1560000000000) (locks w1), vops := 13\<rparr>))"
    by (rule acquire_excludes[OF m]) (simp_all add: w1_def)
  then show ?thesis by (simp add: no_videos_def)
qed

end
