(* ===== verification/Elo_Runner.thy ===== *)
theory Elo_Runner
  imports Elo_Parse Elo_Convert Elo_Validate Go_Services
begin

text \<open>
  The job that turns the raw text of a replay into a baseview,
  \<open>lolelo-master/cmd/convert_runner/convert_handler.go\<close>: it downloads and parses the text and the
  details of the match, aligns the two, converts, stores the baseview, and asks for the advanced
  statistics of every participant. The steps are those of the theories \<open>Elo_Parse\<close>,
  \<open>Elo_Validate\<close> and \<open>Elo_Convert\<close>; this one composes them.

  Remote files are what is stored under their paths. \<open>rn_fate\<close> says how each call ends (temporary
  directories, copies, compression, queue), \<open>rn_lease\<close> whether the lease of the task has expired,
  \<open>rn_text\<close> and \<open>rn_details\<close> what the downloads of the text (its lines) and of the match details
  give. \<open>rn_decode\<close> decodes the fields of a line into an event (\<open>mapstructure\<close>), \<open>rn_spell\<close> names a
  summoner spell. JSON of these types can be written without error, and what is stored as a
  baseview is read back as such (its decoder is in \<open>Baseview\<close>).
\<close>

record baseview_doc =
  bvParticipants :: "participant list"
  bvEvents :: "event list"

record elo_process =
  epMatchId :: int
  epPlatformId :: string
  epEloDataPath :: string
  epMatchDetailsPath :: string
  epSummonerIds :: "int list"
  epOverride :: bool

definition LolEloDataProcess_Valid :: "elo_process \<Rightarrow> bool" where
  "LolEloDataProcess_Valid l \<longleftrightarrow>
     \<not> (epMatchId l = 0 \<or> epPlatformId l = [] \<or> epMatchDetailsPath l = [] \<or> epEloDataPath l = [] \<or>
        length (epSummonerIds l) = 0)"

record advanced_ingest =
  aiBaseviewPath :: string
  aiBaseviewType :: string
  aiMatchId :: int
  aiPlatformId :: string
  aiSummonerId :: int

record runner_world =
  baseviews :: "(string \<times> baseview_doc) list"
  advancedTopic :: "advanced_ingest list"
  rnops :: nat

record runner_env =
  OutputDir :: string
  rn_fate :: "nat \<Rightarrow> fate"
  rn_lease :: "nat \<Rightarrow> string option"
  rn_text :: "nat \<Rightarrow> string \<Rightarrow> string + string list"
  rn_details :: "nat \<Rightarrow> string \<Rightarrow> string + Elo_Validate.match_detail"
  rn_decode :: "elo_kind \<Rightarrow> field_map \<Rightarrow> elo outcome"
  rn_spell :: "int \<Rightarrow> string"

definition rtick :: "runner_world \<Rightarrow> runner_world" where
  "rtick w = w\<lparr>rnops := Suc (rnops w)\<rparr>"

definition rcall :: "runner_env \<Rightarrow> (runner_world \<Rightarrow> runner_world) \<Rightarrow> runner_world \<Rightarrow> string option \<times> runner_world" where
  "rcall e eff w =
     (case answer_of (rn_fate e (rnops w)) () of Inl err \<Rightarrow> Some err | Inr _ \<Rightarrow> None,
      rtick (effect_of (rn_fate e (rnops w)) eff w))"

definition lease :: "runner_env \<Rightarrow> runner_world \<Rightarrow> unit outcome" where
  "lease e w = (case rn_lease e (rnops w) of Some err \<Rightarrow> Err err | None \<Rightarrow> Ok ())"

definition of_fallible :: "'a fallible \<Rightarrow> 'a outcome" where
  "of_fallible x = (case x of Inl err \<Rightarrow> Err err | Inr a \<Rightarrow> Ok a)"

definition wrap_err :: "string \<Rightarrow> 'a outcome \<Rightarrow> 'a outcome" where
  "wrap_err p x = (case x of Err err \<Rightarrow> Err (p @ err) | _ \<Rightarrow> x)"

subsection \<open>Paths\<close>

text \<open>\<open>filepath.Split\<close> of a path and \<open>filepath.Base\<close> of a name, on paths with \<open>/\<close>.\<close>

definition split_path :: "string \<Rightarrow> string \<times> string" where
  "split_path p =
     (let base = rev (takeWhile (\<lambda>c. c \<noteq> CHR ''/'') (rev p)) in (take (length p - length base) p, base))"

definition base_of :: "string \<Rightarrow> string" where
  "base_of p =
     (let s = rev (dropWhile (\<lambda>c. c = CHR ''/'') (rev p)) in
      if p = [] then ''.'' else if s = [] then ''/'' else snd (split_path s))"

definition remoteBaseviewPath :: "runner_env \<Rightarrow> elo_process \<Rightarrow> string" where
  "remoteBaseviewPath e msg =
     OutputDir e @ ''/'' @ show_int (epMatchId msg) @ ''-'' @ PlatformFromString (epPlatformId msg) @ ''.baseview.json''"

subsection \<open>The steps\<close>

definition downloadEloEvents :: "runner_env \<Rightarrow> string \<Rightarrow> runner_world \<Rightarrow> elo list outcome \<times> runner_world" where
  "downloadEloEvents e path w =
     (case rn_text e (rnops w) path of
        Inl err \<Rightarrow> (Err err, rtick w)
      | Inr ls \<Rightarrow> (LogFile (rn_decode e) (Inr ls), rtick w))"

definition downloadMatchDetails ::
  "runner_env \<Rightarrow> string \<Rightarrow> runner_world \<Rightarrow> Elo_Validate.match_detail outcome \<times> runner_world" where
  "downloadMatchDetails e path w = (of_fallible (rn_details e (rnops w) path), rtick w)"

text \<open>The part of \<open>processEloText\<close> that computes the baseview.\<close>

definition baseview_of ::
  "(int \<Rightarrow> string) \<Rightarrow> elo list \<Rightarrow> Elo_Validate.match_detail \<Rightarrow> baseview_doc outcome" where
  "baseview_of spellName events md =
     bind_ok (AlignAPI events md) (\<lambda>events.
     bind_ok (of_fallible (CheckTruncation events (MatchDuration md))) (\<lambda>_.
     bind_ok (wrap_err ''unable to determine participants from match: ''
       (of_fallible (ParticipantMapMD spellName md))) (\<lambda>participants.
     bind_ok (wrap_err ''error extracting baseview: '' (of_fallible (EloToBaseview events participants))) (\<lambda>evs.
       Ok \<lparr>bvParticipants = participants, bvEvents = evs\<rparr>))))"

definition uploadCompressedJSON ::
  "runner_env \<Rightarrow> string \<Rightarrow> string \<Rightarrow> baseview_doc \<Rightarrow> runner_world \<Rightarrow> (string + string) \<times> runner_world" where
  "uploadCompressedJSON e localPath remoteDir bv w =
     (let remotePath = trim_suffix remoteDir ''/'' @ ''/'' @ base_of localPath in
      case rcall e (\<lambda>w. w) w of
        (Some err, w1) \<Rightarrow> (Inl err, w1)
      | (None, w1) \<Rightarrow>
     (case rcall e (\<lambda>w. w\<lparr>baseviews := AList.update remotePath bv (baseviews w)\<rparr>) w1 of
        (Some err, w2) \<Rightarrow> (Inl err, w2)
      | (None, w2) \<Rightarrow> (Inr remotePath, w2)))"

definition processEloText ::
  "runner_env \<Rightarrow> elo list \<Rightarrow> Elo_Validate.match_detail \<Rightarrow> string \<Rightarrow> runner_world \<Rightarrow>
     baseview_doc outcome \<times> runner_world" where
  "processEloText e events md path w =
     (case baseview_of (rn_spell e) events md of
        Err err \<Rightarrow> (Err err, w)
      | Panic p \<Rightarrow> (Panic p, w)
      | Ok bv \<Rightarrow>
     (case split_path path of (outputDir, localBaseview) \<Rightarrow>
     (case rcall e (\<lambda>w. w) w of
        (Some err, w1) \<Rightarrow> (Err err, w1)
      | (None, w1) \<Rightarrow>
     (case uploadCompressedJSON e localBaseview outputDir bv w1 of
        (Inl err, w2) \<Rightarrow> (Err err, w2)
      | (Inr remotePath, w2) \<Rightarrow>
          if remotePath \<noteq> path then (Err ''remotePath does not equal remoteBaseviewPath'', w2)
          else (bind_ok (lease e w2) (\<lambda>_. Ok bv), w2)))))"

fun publish_loop ::
  "runner_env \<Rightarrow> string \<Rightarrow> elo_process \<Rightarrow> participant list \<Rightarrow> runner_world \<Rightarrow> unit outcome \<times> runner_world" where
  "publish_loop e path msg [] w = (lease e w, w)"
| "publish_loop e path msg (p # ps) w =
     (let m = \<lparr>aiBaseviewPath = path, aiBaseviewType = ''elo'', aiMatchId = epMatchId msg,
               aiPlatformId = epPlatformId msg, aiSummonerId = pSummonerID p\<rparr> in
      case rcall e (\<lambda>w. w\<lparr>advancedTopic := advancedTopic w @ [m]\<rparr>) w of
        (Some err, w1) \<Rightarrow> (Err err, w1)
      | (None, w1) \<Rightarrow> publish_loop e path msg ps w1)"

definition publishMessage ::
  "runner_env \<Rightarrow> baseview_doc \<Rightarrow> string \<Rightarrow> elo_process \<Rightarrow> runner_world \<Rightarrow> unit outcome \<times> runner_world" where
  "publishMessage e bv path msg w = publish_loop e path msg (bvParticipants bv) w"

text \<open>The handler, for a message that was decoded.\<close>

definition convert_afresh ::
  "runner_env \<Rightarrow> elo_process \<Rightarrow> runner_world \<Rightarrow> unit outcome \<times> runner_world" where
  "convert_afresh e msg w =
     (case downloadEloEvents e (epEloDataPath msg) w of
        (Ok events, w1) \<Rightarrow>
     (case downloadMatchDetails e (epMatchDetailsPath msg) w1 of
        (Ok md, w2) \<Rightarrow>
     (case processEloText e events md (remoteBaseviewPath e msg) w2 of
        (Ok bv, w3) \<Rightarrow>
          (case lease e w3 of
             Ok _ \<Rightarrow> publishMessage e bv (remoteBaseviewPath e msg) msg w3
           | r \<Rightarrow> (r, w3))
      | (Err err, w3) \<Rightarrow> (Err err, w3)
      | (Panic p, w3) \<Rightarrow> (Panic p, w3))
      | (Err err, w2) \<Rightarrow> (Err err, w2)
      | (Panic p, w2) \<Rightarrow> (Panic p, w2))
      | (Err err, w1) \<Rightarrow> (Err err, w1)
      | (Panic p, w1) \<Rightarrow> (Panic p, w1))"

definition Handle_convert ::
  "runner_env \<Rightarrow> elo_process \<Rightarrow> runner_world \<Rightarrow> unit outcome \<times> runner_world" where
  "Handle_convert e msg w =
     (if \<not> LolEloDataProcess_Valid msg then (Err ''invalid LolEloDataProcess'', w)
      else case rcall e (\<lambda>w. w) w of
        (Some err, w1) \<Rightarrow> (Err err, w1)
      | (None, w1) \<Rightarrow>
     (case rcall e (\<lambda>w. w) w1 of
        (Some err, w2) \<Rightarrow> (Err err, w2)
      | (None, w2) \<Rightarrow>
     (case map_of (baseviews w2) (remoteBaseviewPath e msg) of
        None \<Rightarrow> convert_afresh e msg w2
      | Some bv \<Rightarrow>
          if epOverride msg then convert_afresh e msg w2
          else (case rcall e (\<lambda>w. w) w2 of
            (Some err, w3) \<Rightarrow> (Err err, w3)
          | (None, w3) \<Rightarrow> publishMessage e bv (remoteBaseviewPath e msg) msg w3))))"

subsection \<open>The path of the baseview\<close>

lemma split_path_at:
  assumes "CHR ''/'' \<notin> set b"
  shows "split_path (d @ CHR ''/'' # b) = (d @ ''/'', b)"
proof -
  have "takeWhile (\<lambda>c. c \<noteq> CHR ''/'') (rev b @ CHR ''/'' # rev d) = rev b"
    using assms by (intro takeWhile_append2[THEN trans]) auto
  then show ?thesis by (simp add: split_path_def Let_def)
qed

lemma base_of_plain: "CHR ''/'' \<notin> set b \<Longrightarrow> b \<noteq> [] \<Longrightarrow> base_of b = b"
proof -
  assume b: "CHR ''/'' \<notin> set b" "b \<noteq> []"
  have "dropWhile (\<lambda>c. c = CHR ''/'') (rev b) = rev b"
    using b by (cases "rev b") (auto simp: dropWhile_eq_self_iff)
  moreover have t: "takeWhile (\<lambda>c. c \<noteq> CHR ''/'') (rev b) = rev b"
    using b(1) by (subst takeWhile_eq_all_conv) auto
  ultimately show ?thesis using b(2) by (simp add: base_of_def split_path_def Let_def t)
qed

text \<open>The upload goes to the path it was split from; the check of the code never fails.\<close>

lemma upload_path:
  "split_path (remoteBaseviewPath e msg) = (d, b) \<Longrightarrow>
     trim_suffix d ''/'' @ ''/'' @ base_of b = remoteBaseviewPath e msg"
proof -
  assume s: "split_path (remoteBaseviewPath e msg) = (d, b)"
  have "CHR ''/'' \<in> set (remoteBaseviewPath e msg)" by (simp add: remoteBaseviewPath_def)
  then obtain x y where xy: "remoteBaseviewPath e msg = x @ CHR ''/'' # y" "CHR ''/'' \<notin> set y"
    by (metis split_list_last)
  have "last (remoteBaseviewPath e msg) = CHR ''n''" by (simp add: remoteBaseviewPath_def)
  with xy(1) have "y \<noteq> []" by (cases y) auto
  moreover have "d = x @ ''/''" "b = y" using s split_path_at[OF xy(2), of x] xy(1) by auto
  ultimately show ?thesis
    using base_of_plain[OF xy(2)] xy(1) by (simp add: trim_suffix_def has_suffix_def)
qed

subsection \<open>What is published\<close>

definition advanced_request :: "string \<Rightarrow> elo_process \<Rightarrow> participant \<Rightarrow> advanced_ingest" where
  "advanced_request path msg p =
     \<lparr>aiBaseviewPath = path, aiBaseviewType = ''elo'', aiMatchId = epMatchId msg,
      aiPlatformId = epPlatformId msg, aiSummonerId = pSummonerID p\<rparr>"

lemma rcall_id: "rcall e (\<lambda>w. w) w = (r, w') \<Longrightarrow> w' = rtick w"
  by (cases "rn_fate e (rnops w)") (auto simp: rcall_def)

lemma rtick_simps [simp]: "baseviews (rtick w) = baseviews w" "advancedTopic (rtick w) = advancedTopic w"
  by (simp_all add: rtick_def)

lemma publish_loop_prefix:
  "publish_loop e path msg ps w = (r, w') \<Longrightarrow>
     \<exists>n\<le>length ps. advancedTopic w' = advancedTopic w @ map (advanced_request path msg) (take n ps) \<and>
       baseviews w' = baseviews w \<and> (r = Ok () \<longrightarrow> n = length ps)"
proof (induction ps arbitrary: w)
  case (Cons p ps)
  show ?case
  proof (cases "rn_fate e (rnops w) = Done")
    case True
    then obtain w1 where w1: "publish_loop e path msg ps w1 = (r, w')"
        "advancedTopic w1 = advancedTopic w @ [advanced_request path msg p]" "baseviews w1 = baseviews w"
      using Cons.prems by (auto simp: rcall_def Let_def advanced_request_def)
    from Cons.IH[OF w1(1)] obtain n where "n \<le> length ps"
      "advancedTopic w' = advancedTopic w @ map (advanced_request path msg) (take (Suc n) (p # ps))"
      "baseviews w' = baseviews w" "r = Ok () \<longrightarrow> n = length ps"
      by (auto simp: w1)
    then show ?thesis by (intro exI[of _ "Suc n"]) auto
  next
    case False
    then have "(advancedTopic w' = advancedTopic w \<or> advancedTopic w' = advancedTopic w @ [advanced_request path msg p]) \<and>
        baseviews w' = baseviews w \<and> r \<noteq> Ok ()"
      using Cons.prems
      by (cases "rn_fate e (rnops w)") (auto simp: rcall_def Let_def advanced_request_def)
    then consider "advancedTopic w' = advancedTopic w" "baseviews w' = baseviews w" "r \<noteq> Ok ()"
      | "advancedTopic w' = advancedTopic w @ [advanced_request path msg p]" "baseviews w' = baseviews w" "r \<noteq> Ok ()"
      by blast
    then show ?thesis by cases (rule exI[of _ 0], simp, rule exI[of _ 1], simp)
  qed
qed (auto simp: lease_def split: option.splits)


lemma lease_Ok: "lease e w = Ok u \<Longrightarrow> rn_lease e (rnops w) = None"
  by (auto simp: lease_def split: option.splits)

lemma upload_stores:
  assumes "uploadCompressedJSON e b d bv w = (r, w')" "trim_suffix d ''/'' @ ''/'' @ base_of b = path"
  shows "advancedTopic w' = advancedTopic w \<and>
    (baseviews w' = baseviews w \<or> baseviews w' = AList.update path bv (baseviews w)) \<and>
    (\<forall>p. r = Inr p \<longrightarrow> p = path \<and> baseviews w' = AList.update path bv (baseviews w))"
  using assms
  by (cases "rn_fate e (rnops w)"; cases "rn_fate e (Suc (rnops w))")
    (auto simp: uploadCompressedJSON_def rcall_def rtick_def Let_def)

lemma process_stores:
  assumes "processEloText e events md (remoteBaseviewPath e msg) w = (r, w')"
  shows "advancedTopic w' = advancedTopic w \<and>
    (baseviews w' = baseviews w \<or> (\<exists>bv. baseview_of (rn_spell e) events md = Ok bv \<and>
       baseviews w' = AList.update (remoteBaseviewPath e msg) bv (baseviews w))) \<and>
    (\<forall>bv. r = Ok bv \<longrightarrow> baseview_of (rn_spell e) events md = Ok bv \<and>
       map_of (baseviews w') (remoteBaseviewPath e msg) = Some bv)"
proof (cases "baseview_of (rn_spell e) events md")
  case (Ok bv)
  obtain d b where s: "split_path (remoteBaseviewPath e msg) = (d, b)" by fastforce
  obtain r1 w1 where c: "rcall e (\<lambda>w. w) w = (r1, w1)" by fastforce
  obtain r2 w2 where u: "uploadCompressedJSON e b d bv (rtick w) = (r2, w2)" by fastforce
  note up = upload_stores[OF u upload_path[OF s]]
  show ?thesis
  proof (cases "r1 = None")
    case True
    then show ?thesis
      using assms Ok s c u up rcall_id[OF c]
      by (cases r2) (auto simp: processEloText_def bind_ok_Ok update_conv' lease_def
          split: if_splits option.splits)
  next
    case False
    then show ?thesis using assms Ok s c rcall_id[OF c] by (auto simp: processEloText_def)
  qed
qed (use assms in \<open>auto simp: processEloText_def\<close>)

text \<open>The baseview a fresh conversion computes, from what the downloads give.\<close>

definition fresh_baseview :: "runner_env \<Rightarrow> elo_process \<Rightarrow> baseview_doc \<Rightarrow> bool" where
  "fresh_baseview e msg bv \<longleftrightarrow>
     (\<exists>i j ls md events. rn_text e i (epEloDataPath msg) = Inr ls \<and> LogFile (rn_decode e) (Inr ls) = Ok events \<and>
        rn_details e j (epMatchDetailsPath msg) = Inr md \<and> baseview_of (rn_spell e) events md = Ok bv)"

text \<open>
  The effect of a run: the baseviews are those before, or with a fresh one at the path of the
  match; the requests are those for the first \<open>n\<close> participants of one that is stored there.
\<close>

definition run_effect :: "runner_env \<Rightarrow> elo_process \<Rightarrow> runner_world \<Rightarrow> unit outcome \<times> runner_world \<Rightarrow> bool" where
  "run_effect e msg w rw \<longleftrightarrow>
     (let path = remoteBaseviewPath e msg; w' = snd rw in
      (baseviews w' = baseviews w \<or>
       (\<exists>bv. fresh_baseview e msg bv \<and> baseviews w' = AList.update path bv (baseviews w))) \<and>
      (advancedTopic w' = advancedTopic w \<and> fst rw \<noteq> Ok () \<or>
       (\<exists>bv n. map_of (baseviews w') path = Some bv \<and> n \<le> length (bvParticipants bv) \<and>
          advancedTopic w' = advancedTopic w @ map (advanced_request path msg) (take n (bvParticipants bv)) \<and>
          (fst rw = Ok () \<longrightarrow> n = length (bvParticipants bv)))))"

lemma convert_afresh_effect:
  assumes "convert_afresh e msg w = (r, w')"
  shows "run_effect e msg w (r, w')"
proof -
  let ?path = "remoteBaseviewPath e msg"
  obtain x w1 where d1: "downloadEloEvents e (epEloDataPath msg) w = (x, w1)" by fastforce
  have w1: "baseviews w1 = baseviews w" "advancedTopic w1 = advancedTopic w"
    using d1 by (auto simp: downloadEloEvents_def split: sum.splits)
  show ?thesis
  proof (cases x)
    case (Ok events)
    then obtain ls where ls: "rn_text e (rnops w) (epEloDataPath msg) = Inr ls" "LogFile (rn_decode e) (Inr ls) = Ok events"
      using d1 by (auto simp: downloadEloEvents_def split: sum.splits)
    obtain y w2 where d2: "downloadMatchDetails e (epMatchDetailsPath msg) w1 = (y, w2)" by fastforce
    have w2: "baseviews w2 = baseviews w" "advancedTopic w2 = advancedTopic w"
      using d2 w1 by (auto simp: downloadMatchDetails_def)
    show ?thesis
    proof (cases y)
      case md: (Ok md)
      then have det: "rn_details e (rnops w1) (epMatchDetailsPath msg) = Inr md"
        using d2 by (auto simp: downloadMatchDetails_def of_fallible_def split: sum.splits)
      obtain z w3 where p: "processEloText e events md ?path w2 = (z, w3)" by fastforce
      note st = process_stores[OF p]
      have fresh: "fresh_baseview e msg bv" if "baseview_of (rn_spell e) events md = Ok bv" for bv
        unfolding fresh_baseview_def using ls det that by blast
      have bvs: "baseviews w3 = baseviews w \<or>
          (\<exists>bv. fresh_baseview e msg bv \<and> baseviews w3 = AList.update ?path bv (baseviews w))"
        using st fresh w2 by auto
      show ?thesis
      proof (cases "\<exists>bv. z = Ok bv \<and> is_ok (lease e w3)")
        case True
        then obtain bv where z: "z = Ok bv" "lease e w3 = Ok ()" by (auto simp: is_ok_def)
        have pub: "publish_loop e ?path msg (bvParticipants bv) w3 = (r, w')"
          using assms d1 d2 p Ok md z by (simp add: convert_afresh_def publishMessage_def)
        have "map_of (baseviews w3) ?path = Some bv" using st z by blast
        with publish_loop_prefix[OF pub] bvs st w2 show ?thesis
          unfolding run_effect_def Let_def fst_conv snd_conv by metis
      next
        case False
        then have "w' = w3 \<and> r \<noteq> Ok ()"
          using assms d1 d2 p Ok md
          by (cases z; cases "lease e w3") (auto simp: convert_afresh_def)
        with bvs st w2 show ?thesis by (simp add: run_effect_def Let_def)
      qed
    qed (use assms d1 d2 Ok w2 in \<open>auto simp: convert_afresh_def run_effect_def Let_def\<close>)
  qed (use assms d1 w1 in \<open>auto simp: convert_afresh_def run_effect_def Let_def\<close>)
qed

lemma run_effect_same:
  "baseviews v = baseviews w \<Longrightarrow> advancedTopic v = advancedTopic w \<Longrightarrow> run_effect e msg v rw = run_effect e msg w rw"
  by (simp add: run_effect_def)

text \<open>
  whatever fails, a run stores nothing but a fresh baseview of the match under its path, and it
  asks for the statistics of a prefix of the participants of the stored baseview, in order; when
  there is no error, of all of them.
\<close>

theorem conversion_effect: "run_effect e msg w (Handle_convert e msg w)"
proof -
  obtain r w' where h: "Handle_convert e msg w = (r, w')" by fastforce
  obtain r1 w1 where c1: "rcall e (\<lambda>w. w) w = (r1, w1)" by fastforce
  obtain r2 w2 where c2: "rcall e (\<lambda>w. w) w1 = (r2, w2)" by fastforce
  have w2: "w1 = rtick w" "w2 = rtick w1" using rcall_id c1 c2 by blast+
  note afresh = convert_afresh_effect[of e msg w2 r w']
  have same: "run_effect e msg w2 (r, w') = run_effect e msg w (r, w')"
    by (rule run_effect_same) (simp_all add: w2)
  have stop: "run_effect e msg w (r, w')" if "w' \<in> {w, w1, w2, rtick w2}" "r \<noteq> Ok ()"
    using that by (auto simp: run_effect_def Let_def w2)
  consider "w' \<in> {w, w1, w2}" "r \<noteq> Ok ()" | "convert_afresh e msg w2 = (r, w')"
    | bv where "r1 = None" "r2 = None" "map_of (baseviews w2) (remoteBaseviewPath e msg) = Some bv" "\<not> epOverride msg"
    using h c1 c2 by (auto simp: Handle_convert_def split: if_splits option.splits)
  then have "run_effect e msg w (r, w')"
  proof cases
    case 3
    obtain r3 w3 where c3: "rcall e (\<lambda>w. w) w2 = (r3, w3)" by fastforce
    then have w3: "w3 = rtick w2" by (rule rcall_id)
    show "run_effect e msg w (r, w')"
    proof (cases "LolEloDataProcess_Valid msg \<and> r3 = None")
      case True
      then have pub: "publish_loop e (remoteBaseviewPath e msg) msg (bvParticipants bv) w3 = (r, w')"
        using h c1 c2 c3 3 by (simp add: Handle_convert_def publishMessage_def)
      from publish_loop_prefix[OF pub] 3(3) w2 w3 show "run_effect e msg w (r, w')"
        unfolding run_effect_def Let_def fst_conv snd_conv by (metis rtick_simps)
    next
      case False
      then show "run_effect e msg w (r, w')" using h c1 c2 c3 3 w3 by (intro stop) (auto simp: Handle_convert_def split: if_splits)
    qed
  qed (use stop afresh same in blast)+
  then show ?thesis by (simp add: h)
qed


subsection \<open>A run in which nothing fails\<close>

text \<open>No call fails, the lease lasts, and the downloads give the text and the details.\<close>

definition runs_well :: "runner_env \<Rightarrow> elo_process \<Rightarrow> string list \<Rightarrow> Elo_Validate.match_detail \<Rightarrow> bool" where
  "runs_well e msg ls md \<longleftrightarrow>
     (\<forall>n. rn_fate e n = Done) \<and> (\<forall>n. rn_lease e n = None) \<and>
     (\<forall>n. rn_text e n (epEloDataPath msg) = Inr ls) \<and> (\<forall>n. rn_details e n (epMatchDetailsPath msg) = Inr md)"

lemma rcall_well: "rn_fate e (rnops w) = Done \<Longrightarrow> rcall e eff w = (None, rtick (eff w))"
  by (simp add: rcall_def)

lemma publish_loop_well:
  "(\<And>n. rn_fate e n = Done) \<Longrightarrow> (\<And>n. rn_lease e n = None) \<Longrightarrow>
     \<exists>w'. publish_loop e path msg ps w = (Ok (), w') \<and> baseviews w' = baseviews w \<and>
       advancedTopic w' = advancedTopic w @ map (advanced_request path msg) ps"
  by (induction ps arbitrary: w)
    (fastforce simp: lease_def rcall_well Let_def advanced_request_def)+

lemma process_well:
  assumes "\<And>n. rn_fate e n = Done" "\<And>n. rn_lease e n = None" "baseview_of (rn_spell e) events md = Ok bv"
  shows "\<exists>w'. processEloText e events md (remoteBaseviewPath e msg) w = (Ok bv, w') \<and>
    advancedTopic w' = advancedTopic w \<and>
    baseviews w' = AList.update (remoteBaseviewPath e msg) bv (baseviews w)"
proof -
  obtain d b where s: "split_path (remoteBaseviewPath e msg) = (d, b)" by fastforce
  then show ?thesis
    using assms upload_path[OF s]
    by (simp add: processEloText_def uploadCompressedJSON_def rcall_well lease_def Let_def)
qed

lemma convert_afresh_well:
  assumes "runs_well e msg ls md" "LogFile (rn_decode e) (Inr ls) = Ok events"
    and "baseview_of (rn_spell e) events md = Ok bv"
  shows "\<exists>w'. convert_afresh e msg w = (Ok (), w') \<and>
    baseviews w' = AList.update (remoteBaseviewPath e msg) bv (baseviews w) \<and>
    advancedTopic w' = advancedTopic w @
      map (advanced_request (remoteBaseviewPath e msg) msg) (bvParticipants bv)"
proof -
  have f: "rn_fate e n = Done" "rn_lease e n = None" for n using assms(1) by (simp_all add: runs_well_def)
  obtain w3 where p: "processEloText e events md (remoteBaseviewPath e msg) (rtick (rtick w)) = (Ok bv, w3)"
      "advancedTopic w3 = advancedTopic w"
      "baseviews w3 = AList.update (remoteBaseviewPath e msg) bv (baseviews w)"
    using process_well[OF f assms(3), of msg "rtick (rtick w)"] by auto
  obtain w4 where q: "publish_loop e (remoteBaseviewPath e msg) msg (bvParticipants bv) w3 = (Ok (), w4)"
      "baseviews w4 = baseviews w3"
      "advancedTopic w4 = advancedTopic w3 @ map (advanced_request (remoteBaseviewPath e msg) msg) (bvParticipants bv)"
    using publish_loop_well[OF f, of "remoteBaseviewPath e msg" msg "bvParticipants bv" w3] by blast
  have "downloadEloEvents e (epEloDataPath msg) w = (Ok events, rtick w)"
    using assms(1,2) by (simp add: downloadEloEvents_def runs_well_def)
  moreover have "downloadMatchDetails e (epMatchDetailsPath msg) (rtick w) = (Ok md, rtick (rtick w))"
    using assms(1) by (simp add: downloadMatchDetails_def runs_well_def of_fallible_def)
  ultimately show ?thesis using p q f
    by (simp add: convert_afresh_def lease_def publishMessage_def)
qed

text \<open>
  a run in which nothing fails, on text that parses and fits the match, stores the baseview and
  asks for the statistics of every participant. When the baseview is there already and is not to
  be replaced, it asks again for the same statistics and does not convert.
\<close>

theorem conversion_succeeds:
  assumes "LolEloDataProcess_Valid msg" "runs_well e msg ls md" "LogFile (rn_decode e) (Inr ls) = Ok events"
    and "baseview_of (rn_spell e) events md = Ok fresh"
    and "stored = map_of (baseviews w) (remoteBaseviewPath e msg)"
    and "bv = (case stored of Some old \<Rightarrow> if epOverride msg then fresh else old | None \<Rightarrow> fresh)"
  shows "\<exists>w'. Handle_convert e msg w = (Ok (), w') \<and>
    map_of (baseviews w') (remoteBaseviewPath e msg) = Some bv \<and>
    advancedTopic w' = advancedTopic w @
      map (advanced_request (remoteBaseviewPath e msg) msg) (bvParticipants bv)"
proof -
  have f: "rn_fate e n = Done" "rn_lease e n = None" for n using assms(2) by (simp_all add: runs_well_def)
  note start = Handle_convert_def rcall_well f assms(1)
  show ?thesis
  proof (cases "stored = None \<or> epOverride msg")
    case True
    then have bv: "bv = fresh" using assms(6) by (auto split: option.splits)
    have "Handle_convert e msg w = convert_afresh e msg (rtick (rtick w))"
      using True assms(5) by (auto simp: start split: option.splits)
    with convert_afresh_well[OF assms(2-4), of "rtick (rtick w)"] show ?thesis
      by (auto simp: bv update_conv')
  next
    case False
    then have old: "map_of (baseviews w) (remoteBaseviewPath e msg) = Some bv" "\<not> epOverride msg"
      using assms(5,6) by auto
    have "Handle_convert e msg w =
        publish_loop e (remoteBaseviewPath e msg) msg (bvParticipants bv) (rtick (rtick (rtick w)))"
      using old by (simp add: start publishMessage_def)
    with publish_loop_well[OF f, of "remoteBaseviewPath e msg" msg "bvParticipants bv" "rtick (rtick (rtick w))"] old
    show ?thesis by auto
  qed
qed

subsection \<open>An example\<close>

definition log_text :: "string list" where
  "log_text = [''ID_HERO'', ''DIE'', ''CHAMP_DIE'', ''LEVEL_UP'']"

definition log_events :: "elo list" where
  "log_events =
     [\<lparr>Time = 1, MatchSeconds = 0, EloBody = NetworkIDMappingE ''Ann'' 7 ''ID_HERO''\<rparr>,
      \<lparr>Time = 84, MatchSeconds = 0, EloBody = DieE 7\<rparr>,
      \<lparr>Time = 85, MatchSeconds = 0, EloBody = ChampDieE 7\<rparr>,
      \<lparr>Time = 86, MatchSeconds = 0, EloBody = LevelUpE 2 7\<rparr>]"

definition log_decode :: "elo_kind \<Rightarrow> field_map \<Rightarrow> elo outcome" where
  "log_decode k m =
     Ok (case k of KNetworkIDMapping _ \<Rightarrow> log_events ! 0 | KDie \<Rightarrow> log_events ! 1
         | KChampDie \<Rightarrow> log_events ! 2 | _ \<Rightarrow> log_events ! 3)"

definition log_detail :: Elo_Validate.match_detail where
  "log_detail =
     \<lparr>Frames = [[\<lparr>EventType = ''CHAMPION_KILL'', VictimID = 1, Timestamp = 90000\<rparr>]],
      Participants = [\<lparr>apParticipantID = 1, apChampionID = 22, apSpell1ID = 4, apSpell2ID = 11\<rparr>],
      Identities = [\<lparr>aiParticipantID = 1, aiSummonerID = 9, aiSummonerName = ''Ann''\<rparr>],
      MatchDuration = 95\<rparr>"

definition log_people :: "participant list" where
  "log_people = [\<lparr>ParticipantID = 1, pSummonerID = 9, pSummonerName = ''Ann'', ChampionID = 22,
                  Spell1 = ''Flash'', Spell2 = ''Flash''\<rparr>]"

lemma log_fields:
  "Elo_Parse.fields ''ID_HERO'' = Ok [(''event'', StrV ''ID_HERO'')]" "Elo_Parse.fields ''DIE'' = Ok [(''event'', StrV ''DIE'')]"
  "Elo_Parse.fields ''CHAMP_DIE'' = Ok [(''event'', StrV ''CHAMP_DIE'')]"
  "Elo_Parse.fields ''LEVEL_UP'' = Ok [(''event'', StrV ''LEVEL_UP'')]"
  by code_simp+

lemma log_parses: "LogFile log_decode (Inr log_text) = Ok log_events"
  by (simp add: LogFile_def log_text_def log_fields EloEvent_def event_kind_def log_decode_def)
    (simp add: log_events_def)

lemma log_aligned: "AlignAPI log_events log_detail = Ok (UpdateMatchSeconds log_events 6)"
  by (simp add: AlignAPI_def apiDeaths_def eloDeaths_def log_events_def log_detail_def
      determineEloToAPIOffset_def validateDeathCounts_def death_counts_def bump_def get0_def)

lemma log_full: "CheckTruncation (UpdateMatchSeconds log_events 6) 95 = Inr ()"
  by (simp add: CheckTruncation_def eloDurationSeconds_def UpdateMatchSeconds_def log_events_def
      set_match_seconds_def maxSecondsDiff_def)

lemma log_named: "ParticipantMapMD (\<lambda>_. ''Flash'') log_detail = Inr log_people"
  by (simp add: ParticipantMapMD_def log_detail_def sortParticipants_def add_identity_def log_people_def Let_def)

lemma log_converts: "\<exists>evs. EloToBaseview (UpdateMatchSeconds log_events 6) log_people = Inr evs"
  by (simp add: Let_def EloToBaseview_def log_events_def UpdateMatchSeconds_def set_match_seconds_def
      log_people_def AddEvent_def AddParticipant_def NewNetworkIDMap_def convert_one_def GetID_def
      placeWards_def ActorHero_def)


definition log_env :: "(nat \<Rightarrow> fate) \<Rightarrow> runner_env" where
  "log_env fates =
     \<lparr>OutputDir = ''gs:'', rn_fate = fates, rn_lease = (\<lambda>_. None), rn_text = (\<lambda>_ _. Inr log_text),
      rn_details = (\<lambda>_ _. Inr log_detail), rn_decode = log_decode, rn_spell = (\<lambda>_. ''Flash'')\<rparr>"

definition log_message :: elo_process where
  "log_message = \<lparr>epMatchId = 5, epPlatformId = ''na1'', epEloDataPath = ''e'', epMatchDetailsPath = ''m'',
                  epSummonerIds = [9], epOverride = False\<rparr>"

definition no_baseviews :: runner_world where
  "no_baseviews = \<lparr>baseviews = [], advancedTopic = [], rnops = 0\<rparr>"

lemma log_baseview:
  "\<exists>evs. baseview_of (\<lambda>_. ''Flash'') log_events log_detail = Ok \<lparr>bvParticipants = log_people, bvEvents = evs\<rparr>"
proof -
  have "MatchDuration log_detail = 95" by (simp add: log_detail_def)
  then show ?thesis using log_converts log_full
    by (auto simp: baseview_of_def log_aligned log_named of_fallible_def wrap_err_def)
qed

theorem conversion_succeeds_witness:
  "\<exists>w'. Handle_convert (log_env (\<lambda>_. Done)) log_message no_baseviews = (Ok (), w') \<and>
     advancedTopic w' = [\<lparr>aiBaseviewPath = ''gs:/5-NA1.baseview.json'', aiBaseviewType = ''elo'', aiMatchId = 5,
                          aiPlatformId = ''na1'', aiSummonerId = 9\<rparr>]"
proof -
  obtain evs where b: "baseview_of (\<lambda>_. ''Flash'') log_events log_detail = Ok \<lparr>bvParticipants = log_people, bvEvents = evs\<rparr>"
    using log_baseview by blast
  have p: "remoteBaseviewPath (log_env (\<lambda>_. Done)) log_message = ''gs:/5-NA1.baseview.json''"
  proof -
    have "show_int 5 = ''5''" "PlatformFromString ''na1'' = ''NA1''" by code_simp+
    then show ?thesis by (simp add: remoteBaseviewPath_def log_env_def log_message_def)
  qed
  have "\<exists>w'. Handle_convert (log_env (\<lambda>_. Done)) log_message no_baseviews = (Ok (), w') \<and>
     map_of (baseviews w') (remoteBaseviewPath (log_env (\<lambda>_. Done)) log_message) = Some \<lparr>bvParticipants = log_people, bvEvents = evs\<rparr> \<and>
     advancedTopic w' = advancedTopic no_baseviews @ map (advanced_request
       (remoteBaseviewPath (log_env (\<lambda>_. Done)) log_message) log_message) (bvParticipants \<lparr>bvParticipants = log_people, bvEvents = evs\<rparr>)"
    by (rule conversion_succeeds[of log_message "log_env (\<lambda>_. Done)" log_text log_detail log_events
          "\<lparr>bvParticipants = log_people, bvEvents = evs\<rparr>" None])
      (simp_all add: LolEloDataProcess_Valid_def log_message_def runs_well_def log_parses b no_baseviews_def, simp_all add: log_env_def log_parses b)
  moreover have "advancedTopic no_baseviews = []" "epMatchId log_message = 5" "epPlatformId log_message = ''na1''"
    by (simp_all add: no_baseviews_def log_message_def)
  ultimately show ?thesis
    by (auto simp: p log_people_def advanced_request_def)
qed

end
