(* ===== verification/Video_Datagen.thy ===== *)
theory Video_Datagen
  imports Video_Lock Elo_Runner
begin

text \<open>
  The worker that extracts the data of a replay, \<open>lolvideo-master/worker/datagen_handler.go\<close>: it
  asks the coordinator to replay a match on its machine, waits until the game is gone, validates
  the text the game left behind, uploads it and announces it to the conversion of \<open>Elo_Runner\<close>.

  The local file is its list of lines, each ended by a newline. \<open>dg_env\<close> holds the parameters: how
  each call ends, the processes at each look, what the game leaves of the local file
  (\<open>dg_replay\<close>), the downloads of match details, and those of the parser. The uploaded file is
  compressed in place first; \<open>dg_gzip\<close> stands for that. Requests and messages are written as JSON
  without error. \<open>failures\<close> is the package variable \<open>numDataExtractFailures\<close>.
\<close>

subsection \<open>Messages and state\<close>

record extract_message =
  exGameLengthSeconds :: int
  exIncreasedPlaybackSpeed :: bool
  exKey :: string
  exMatchId :: int
  exMatchDetailsPath :: string
  exMatchVersion :: string
  exPlatformId :: string
  exSpectatorServer :: string
  exSummonerIds :: "int list"
  exOverride :: bool
  exRetryNum :: int

definition extract_Valid :: "extract_message \<Rightarrow> bool" where
  "extract_Valid rq \<longleftrightarrow>
     \<not> (exMatchId rq = 0 \<or> exPlatformId rq = [] \<or> exKey rq = [] \<or> exGameLengthSeconds rq = 0 \<or>
        length (exSummonerIds rq) = 0)"

record bootstrap_game =
  bgGameID :: int
  bgGameKey :: string
  bgPlatformID :: string

record datagen_request =
  dqGameID :: int
  dqPlatformID :: string
  dqGameKey :: string
  dqGameLengthSeconds :: int
  dqSpectatorServer :: string
  dqMatchVersion :: string
  dqWorkerInstance :: string
  dqRegion :: string
  dqIncreasedPlaybackSpeed :: bool

datatype coordinator_request =
    StartReplay datagen_request
  | TerminateInstance string string
  | StartBootstrap bootstrap_game string string string

record datagen_worker =
  InstanceID :: string
  Region :: string
  ClientVersion :: string
  DataOutputPath :: string
  DevServerMode :: bool
  MaxRetries :: int

record dg_world =
  bootstrapGames :: "(string \<times> bootstrap_game) list"
  extracts :: "(string \<times> string list) list"
  localFile :: "string list option"
  eloQueue :: "elo_process list"
  retryQueue :: "extract_message list"
  coordinator :: "coordinator_request list"
  failures :: int
  dgops :: nat

record dg_env =
  dg_fate :: "nat \<Rightarrow> fate"
  dg_running :: "nat \<Rightarrow> nat \<Rightarrow> bool"
  dg_replay :: "nat \<Rightarrow> string list option \<Rightarrow> string list option"
  dg_stat_fails :: "nat \<Rightarrow> bool"
  dg_details :: "nat \<Rightarrow> string \<Rightarrow> string + Elo_Validate.match_detail"
  dg_decode :: "elo_kind \<Rightarrow> field_map \<Rightarrow> elo outcome"
  dg_spell :: "int \<Rightarrow> string"
  dg_gzip :: "string list \<Rightarrow> string list"

definition dtick :: "dg_world \<Rightarrow> dg_world" where
  "dtick w = w\<lparr>dgops := Suc (dgops w)\<rparr>"

definition dcall :: "dg_env \<Rightarrow> (dg_world \<Rightarrow> dg_world) \<Rightarrow> dg_world \<Rightarrow> string option \<times> dg_world" where
  "dcall e eff w =
     (case answer_of (dg_fate e (dgops w)) () of Inl err \<Rightarrow> Some err | Inr _ \<Rightarrow> None,
      dtick (effect_of (dg_fate e (dgops w)) eff w))"

definition file_size :: "string list \<Rightarrow> nat" where
  "file_size ls = sum_list (map (\<lambda>l. Suc (length l)) ls)"

definition dataOutputFile :: "string \<Rightarrow> extract_message \<Rightarrow> string" where
  "dataOutputFile basePath msg =
     TrimRight_slash basePath @ ''/'' @ show_int (exMatchId msg) @ ''-'' @ exPlatformId msg @ ''-data_extract.txt''"

subsection \<open>The steps\<close>

definition ValidateDataFile ::
  "(elo_kind \<Rightarrow> field_map \<Rightarrow> elo outcome) \<Rightarrow> (int \<Rightarrow> string) \<Rightarrow> string list \<Rightarrow>
     string + Elo_Validate.match_detail \<Rightarrow> unit outcome" where
  "ValidateDataFile decode spellName ls details =
     bind_ok (LogFile decode (Inr ls)) (\<lambda>events.
     bind_ok (of_fallible details) (\<lambda>matchDetail.
     bind_ok (AlignAPI events matchDetail) (\<lambda>events.
     bind_ok (of_fallible (CheckTruncation events (MatchDuration matchDetail))) (\<lambda>_.
     bind_ok (of_fallible (ParticipantMapMD spellName matchDetail)) (\<lambda>participants.
     bind_ok (of_fallible (EloToBaseview events participants)) (\<lambda>_. Ok ()))))))"

definition sendCompletedMessage ::
  "dg_env \<Rightarrow> extract_message \<Rightarrow> string \<Rightarrow> dg_world \<Rightarrow> string option \<times> dg_world" where
  "sendCompletedMessage e msg outputFile w =
     (let eloMsg = \<lparr>epMatchId = exMatchId msg, epPlatformId = exPlatformId msg, epEloDataPath = outputFile,
                    epMatchDetailsPath = exMatchDetailsPath msg, epSummonerIds = exSummonerIds msg,
                    epOverride = False\<rparr> in
      dcall e (\<lambda>w. w\<lparr>eloQueue := eloQueue w @ [eloMsg]\<rparr>) w)"

definition retryMessage :: "dg_env \<Rightarrow> extract_message \<Rightarrow> dg_world \<Rightarrow> string option \<times> dg_world" where
  "retryMessage e msg w = dcall e (\<lambda>w. w\<lparr>retryQueue := retryQueue w @ [msg]\<rparr>) w"

text \<open>Compress in place, copy to the store, remove the local file.\<close>

definition upload :: "dg_env \<Rightarrow> string \<Rightarrow> string list \<Rightarrow> dg_world \<Rightarrow> string option \<times> dg_world" where
  "upload e remotePath ls w =
     (case dcall e (\<lambda>w. w\<lparr>localFile := Some (dg_gzip e ls)\<rparr>) w of
        (Some err, w1) \<Rightarrow> (Some (''error compressing file: '' @ err), w1)
      | (None, w1) \<Rightarrow>
     (case dcall e (\<lambda>w. w\<lparr>extracts := AList.update remotePath ls (extracts w)\<rparr>) w1 of
        (Some err, w2) \<Rightarrow> (Some err, w2)
      | (None, w2) \<Rightarrow> dcall e (\<lambda>w. w\<lparr>localFile := None\<rparr>) w2))"

definition startReplay :: "dg_env \<Rightarrow> datagen_worker \<Rightarrow> datagen_request \<Rightarrow> dg_world \<Rightarrow> string option \<times> dg_world" where
  "startReplay e f req w =
     (if DevServerMode f then (None, w)
      else dcall e (\<lambda>w. w\<lparr>coordinator := coordinator w @ [StartReplay req]\<rparr>) w)"

text \<open>The game for bootstrapping this version, set from the message when there is none.\<close>

definition ensure_bootstrap :: "dg_env \<Rightarrow> datagen_worker \<Rightarrow> extract_message \<Rightarrow> dg_world \<Rightarrow> string option \<times> dg_world" where
  "ensure_bootstrap e f msg w =
     (case dcall e (\<lambda>w. w) w of
        (Some err, w1) \<Rightarrow> (None, w1)
      | (None, w1) \<Rightarrow>
     (case map_of (bootstrapGames w1) (ClientVersion f) of
        Some g \<Rightarrow> (None, w1)
      | None \<Rightarrow>
          dcall e (\<lambda>w. w\<lparr>bootstrapGames := AList.update (ClientVersion f)
            \<lparr>bgGameID = exMatchId msg, bgGameKey = exKey msg, bgPlatformID = exPlatformId msg\<rparr>
            (bootstrapGames w)\<rparr>) w1))"

definition result :: "string option \<times> dg_world \<Rightarrow> unit outcome \<times> dg_world" where
  "result x = (case x of (None, w) \<Rightarrow> (Ok (), w) | (Some err, w) \<Rightarrow> (Err err, w))"

definition deaths_differ :: "string \<Rightarrow> bool" where
  "deaths_differ err \<longleftrightarrow> has_prefix err ''api and elo differ in deaths''"

text \<open>What follows the replay, from the look for the local file on.\<close>

definition missing_file :: "dg_env \<Rightarrow> datagen_worker \<Rightarrow> dg_world \<Rightarrow> unit outcome \<times> dg_world" where
  "missing_file e f w =
     (let w1 = w\<lparr>failures := failures w + 1\<rparr> in
      (Err ''data file not found'',
       if failures w1 \<ge> 3
       then snd (dcall e (\<lambda>w. w\<lparr>coordinator := coordinator w @ [TerminateInstance (InstanceID f) (Region f)]\<rparr>) w1)
       else w1))"

definition check_file ::
  "dg_env \<Rightarrow> extract_message \<Rightarrow> string \<Rightarrow> string list \<Rightarrow> dg_world \<Rightarrow> unit outcome \<times> dg_world" where
  "check_file e msg outputFile ls w =
     (if file_size ls < 1 then (Err ''log file size is 0'', w)
      else case dcall e (\<lambda>w. w) w of
        (Some err, w1) \<Rightarrow> (Err err, w1)
      | (None, w1) \<Rightarrow>
     (case ValidateDataFile (dg_decode e) (dg_spell e) ls (dg_details e (dgops w1) (exMatchDetailsPath msg)) of
        Panic p \<Rightarrow> (Panic p, w1)
      | Err err \<Rightarrow>
          (let msg' = (if deaths_differ err then msg\<lparr>exRetryNum := add64 (exRetryNum msg) 1\<rparr> else msg);
               (r, w2) = retryMessage e msg' w1 in
           result (r, w2\<lparr>localFile := None\<rparr>))
      | Ok _ \<Rightarrow>
     (case upload e outputFile ls w1 of
        (Some err, w2) \<Rightarrow> (Err err, w2)
      | (None, w2) \<Rightarrow> result (sendCompletedMessage e msg outputFile w2))))"

definition after_replay ::
  "dg_env \<Rightarrow> datagen_worker \<Rightarrow> extract_message \<Rightarrow> string \<Rightarrow> dg_world \<Rightarrow> unit outcome \<times> dg_world" where
  "after_replay e f msg outputFile w =
     (if dg_stat_fails e (dgops w) then (Panic ''nil pointer dereference'', w\<lparr>failures := 0\<rparr>)
      else case localFile w of
        None \<Rightarrow> missing_file e f w
      | Some ls \<Rightarrow> check_file e msg outputFile ls (w\<lparr>failures := 0\<rparr>))"

definition datagen_request_of :: "datagen_worker \<Rightarrow> extract_message \<Rightarrow> datagen_request" where
  "datagen_request_of f msg =
     \<lparr>dqGameID = exMatchId msg, dqPlatformID = exPlatformId msg, dqGameKey = exKey msg,
      dqGameLengthSeconds = exGameLengthSeconds msg, dqSpectatorServer = exSpectatorServer msg,
      dqMatchVersion = exMatchVersion msg, dqWorkerInstance = InstanceID f, dqRegion = Region f,
      dqIncreasedPlaybackSpeed = exIncreasedPlaybackSpeed msg\<rparr>"

text \<open>The handler, for a message that was decoded; no result when the wait never ends.\<close>

definition Handle_datagen ::
  "dg_env \<Rightarrow> datagen_worker \<Rightarrow> extract_message \<Rightarrow> dg_world \<Rightarrow> (unit outcome \<times> dg_world) option" where
  "Handle_datagen e f msg w =
     (if \<not> extract_Valid msg then Some (Err ''invalid message'', w)
      else if exRetryNum msg > MaxRetries f then Some (Ok (), w)
      else if exMatchVersion msg \<noteq> [] \<and> \<not> has_prefix (exMatchVersion msg) (ClientVersion f)
      then Some (Err ''client version mismatch'', w)
      else case ensure_bootstrap e f msg w of
        (Some err, w1) \<Rightarrow> Some (Err err, w1)
      | (None, w1) \<Rightarrow>
     (let outputFile = dataOutputFile (DataOutputPath f) msg in
      case dcall e (\<lambda>w. w) w1 of
        (Some err, w2) \<Rightarrow> Some (Err (''error checking if output file exists: '' @ err), w2)
      | (None, w2) \<Rightarrow>
      if map_of (extracts w2) outputFile \<noteq> None \<and> \<not> exOverride msg
      then Some (result (sendCompletedMessage e msg outputFile w2))
      else (case startReplay e f (datagen_request_of f msg) w2 of
        (_, w3) \<Rightarrow>
          map_option (\<lambda>_. after_replay e f msg outputFile (w3\<lparr>localFile := dg_replay e (dgops w3) (localFile w3)\<rparr>))
            (wait_gone (dg_running e (dgops w3)) 0 0))))"

subsection \<open>Starting a machine\<close>

text \<open>
  \<open>Bootstrap\<close>: a machine that needs it replays the stored game of its version, or a default one,
  and waits in the same way.
\<close>

definition default_game :: bootstrap_game where
  "default_game = \<lparr>bgGameID = 2514154995, bgGameKey = ''hABXSycP8GLXeJjzbhuXw2nC5qdV9eK0'', bgPlatformID = ''NA1''\<rparr>"

definition Bootstrap :: "dg_env \<Rightarrow> datagen_worker \<Rightarrow> bool \<Rightarrow> dg_world \<Rightarrow> (unit outcome \<times> dg_world) option" where
  "Bootstrap e f needed w =
     (if \<not> needed then Some (Ok (), w)
      else case dcall e (\<lambda>w. w) w of
        (Some err, w1) \<Rightarrow> Some (Err err, w1)
      | (None, w1) \<Rightarrow>
     (let gameInfo = (case map_of (bootstrapGames w1) (ClientVersion f) of None \<Rightarrow> default_game | Some g \<Rightarrow> g);
          bootstrapReq = StartBootstrap gameInfo ''lolstreamer.vantagesports.gg:8080'' (InstanceID f) (Region f);
          (r, w2) = (if DevServerMode f then (None, w1)
                     else dcall e (\<lambda>w. w\<lparr>coordinator := coordinator w @ [bootstrapReq]\<rparr>) w1) in
      case r of
        Some err \<Rightarrow> Some (Err err, w2)
      | None \<Rightarrow> map_option (\<lambda>_. (Ok (), w2)) (wait_gone (dg_running e (dgops w2)) 0 0)))"

subsection \<open>What a run does\<close>

definition completion :: "datagen_worker \<Rightarrow> extract_message \<Rightarrow> elo_process" where
  "completion f msg =
     \<lparr>epMatchId = exMatchId msg, epPlatformId = exPlatformId msg,
      epEloDataPath = dataOutputFile (DataOutputPath f) msg, epMatchDetailsPath = exMatchDetailsPath msg,
      epSummonerIds = exSummonerIds msg, epOverride = False\<rparr>"

text \<open>Text that was validated against what some download of the match details gave.\<close>

definition validated :: "dg_env \<Rightarrow> extract_message \<Rightarrow> string list \<Rightarrow> unit outcome \<Rightarrow> bool" where
  "validated e msg ls r \<longleftrightarrow>
     (\<exists>n. ValidateDataFile (dg_decode e) (dg_spell e) ls (dg_details e n (exMatchDetailsPath msg)) = r)"

definition retried :: "extract_message \<Rightarrow> string \<Rightarrow> extract_message" where
  "retried msg err = (if deaths_differ err then msg\<lparr>exRetryNum := add64 (exRetryNum msg) 1\<rparr> else msg)"

definition dg_effect :: "dg_env \<Rightarrow> datagen_worker \<Rightarrow> extract_message \<Rightarrow> dg_world \<Rightarrow> unit outcome \<times> dg_world \<Rightarrow> bool" where
  "dg_effect e f msg w rw \<longleftrightarrow>
     (let w' = snd rw; out = dataOutputFile (DataOutputPath f) msg in
      (extracts w' = extracts w \<or>
       (\<exists>ls. validated e msg ls (Ok ()) \<and> extracts w' = AList.update out ls (extracts w))) \<and>
      (eloQueue w' = eloQueue w \<or>
       eloQueue w' = eloQueue w @ [completion f msg] \<and> map_of (extracts w') out \<noteq> None) \<and>
      (retryQueue w' = retryQueue w \<or>
       (\<exists>ls err. validated e msg ls (Err err) \<and> retryQueue w' = retryQueue w @ [retried msg err])) \<and>
      (fst rw = Ok () \<longrightarrow>
         exRetryNum msg > MaxRetries f \<and> w' = w \<or>
         eloQueue w' = eloQueue w @ [completion f msg] \<or>
         (\<exists>err. retryQueue w' = retryQueue w @ [retried msg err])))"

text \<open>The parts of the world the effect is about.\<close>

definition same_queues :: "dg_world \<Rightarrow> dg_world \<Rightarrow> bool" where
  "same_queues v w \<longleftrightarrow>
     extracts v = extracts w \<and> eloQueue v = eloQueue w \<and> retryQueue v = retryQueue w"

lemma same_queues_refl [simp]: "same_queues w w"
  by (simp add: same_queues_def)

lemma same_queues_trans: "same_queues u v \<Longrightarrow> same_queues v w \<Longrightarrow> same_queues u w"
  by (simp add: same_queues_def)

lemma dcall_effect:
  "dcall e eff w = (r, w') \<Longrightarrow> w' = dtick w \<and> r \<noteq> None \<or> w' = dtick (eff w)"
  by (cases "dg_fate e (dgops w)") (auto simp: dcall_def)

lemma dtick_simps [simp]:
  "extracts (dtick w) = extracts w" "eloQueue (dtick w) = eloQueue w" "retryQueue (dtick w) = retryQueue w"
  "localFile (dtick w) = localFile w" "failures (dtick w) = failures w" "coordinator (dtick w) = coordinator w"
  "bootstrapGames (dtick w) = bootstrapGames w" "dgops (dtick w) = Suc (dgops w)"
  by (simp_all add: dtick_def)

lemma dcall_same: "dcall e eff w = (r, w') \<Longrightarrow> same_queues (eff w) w \<Longrightarrow> same_queues w' w"
  by (drule dcall_effect) (auto simp: same_queues_def)

lemma stopped_effect:
  "same_queues w' w \<Longrightarrow> r \<noteq> Ok () \<Longrightarrow> dg_effect e f msg w (r, w')"
  by (simp add: dg_effect_def same_queues_def Let_def)

lemma send_completed_effect:
  assumes "sendCompletedMessage e msg (dataOutputFile (DataOutputPath f) msg) w = (r, w')"
  shows "extracts w' = extracts w \<and> retryQueue w' = retryQueue w \<and>
    (eloQueue w' = eloQueue w @ [completion f msg] \<or> eloQueue w' = eloQueue w \<and> r \<noteq> None)"
  using dcall_effect[OF assms[unfolded sendCompletedMessage_def Let_def]]
  by (auto simp: completion_def)

lemma upload_effect:
  assumes "upload e path ls w = (r, w')"
  shows "eloQueue w' = eloQueue w \<and> retryQueue w' = retryQueue w \<and>
    (extracts w' = AList.update path ls (extracts w) \<or> extracts w' = extracts w \<and> r \<noteq> None)"
proof -
  obtain r1 w1 where 1: "dcall e (\<lambda>w. w\<lparr>localFile := Some (dg_gzip e ls)\<rparr>) w = (r1, w1)" by fastforce
  obtain r2 w2 where 2: "dcall e (\<lambda>w. w\<lparr>extracts := AList.update path ls (extracts w)\<rparr>) w1 = (r2, w2)" by fastforce
  obtain r3 w3 where 3: "dcall e (\<lambda>w. w\<lparr>localFile := None\<rparr>) w2 = (r3, w3)" by fastforce
  show ?thesis
    using assms 1 2 3 dcall_effect[OF 1] dcall_effect[OF 2] dcall_effect[OF 3]
    by (auto simp: upload_def split: option.splits)
qed

lemma check_file_effect:
  assumes "check_file e msg (dataOutputFile (DataOutputPath f) msg) ls w = (r, w')"
  shows "dg_effect e f msg w (r, w')"
proof -
  let ?out = "dataOutputFile (DataOutputPath f) msg"
  obtain r1 w1 where c: "dcall e (\<lambda>w. w) w = (r1, w1)" by fastforce
  have w1: "w1 = dtick w" using dcall_effect[OF c] by auto
  define v where "v = ValidateDataFile (dg_decode e) (dg_spell e) ls (dg_details e (dgops w1) (exMatchDetailsPath msg))"
  have v: "validated e msg ls v" by (auto simp: validated_def v_def)
  show ?thesis
  proof (cases "file_size ls < 1 \<or> r1 \<noteq> None \<or> (\<exists>p. v = Panic p)")
    case True
    have "w' \<in> {w, w1} \<and> r \<noteq> Ok ()"
      using True assms c by (auto simp: check_file_def v_def[symmetric] split: if_splits option.splits)
    then show ?thesis using w1 by (intro stopped_effect) (auto simp: same_queues_def)
  next
    case False
    then have go: "\<not> file_size ls < 1" "r1 = None" "\<And>p. v \<noteq> Panic p" by auto
    show ?thesis
    proof (cases v)
      case (Err err)
      obtain r2 w2 where m: "retryMessage e (retried msg err) w1 = (r2, w2)" by fastforce
      have "r = fst (result (r2, w2)) \<and> w' = w2\<lparr>localFile := None\<rparr>"
        using assms go c Err m
        by (auto simp: check_file_def v_def[symmetric] retried_def result_def split: option.splits prod.splits)
      moreover have "\<exists>ls err'. validated e msg ls (Err err') \<and> retried msg err = retried msg err'"
        using v Err by blast
      ultimately show ?thesis
        using dcall_effect[OF m[unfolded retryMessage_def]] w1
        by (auto simp: dg_effect_def Let_def result_def split: option.splits; metis)
    next
      case (Ok u)
      obtain r2 w2 where up: "upload e ?out ls w1 = (r2, w2)" by fastforce
      note ue = upload_effect[OF up]
      show ?thesis
      proof (cases r2)
        case (Some err)
        then have "w' = w2" "r \<noteq> Ok ()" using assms go c Ok up by (auto simp: check_file_def v_def[symmetric])
        then show ?thesis using ue v Ok w1 by (auto simp: dg_effect_def Let_def)
      next
        case None
        obtain r3 w3 where s: "sendCompletedMessage e msg ?out w2 = (r3, w3)" by fastforce
        then have "result (r3, w3) = (r, w')"
          using assms go c Ok up None by (auto simp: check_file_def v_def[symmetric])
        then have "w' = w3" "r = Ok () \<longrightarrow> r3 = None" by (auto simp: result_def split: option.splits)
        then show ?thesis using send_completed_effect[OF s] ue None v Ok w1
          by (auto simp: dg_effect_def Let_def update_conv')
      qed
    qed (use go in blast)
  qed
qed

lemma dg_effect_from:
  "same_queues v w \<Longrightarrow> exRetryNum msg \<le> MaxRetries f \<Longrightarrow> dg_effect e f msg v rw \<Longrightarrow> dg_effect e f msg w rw"
  by (auto simp: dg_effect_def same_queues_def Let_def)

lemma after_replay_effect:
  assumes "after_replay e f msg (dataOutputFile (DataOutputPath f) msg) w = (r, w')"
    and "exRetryNum msg \<le> MaxRetries f"
  shows "dg_effect e f msg w (r, w')"
proof (cases "dg_stat_fails e (dgops w) \<or> localFile w = None")
  case True
  have "same_queues w' w \<and> r \<noteq> Ok ()"
  proof (cases "dg_stat_fails e (dgops w)")
    case False
    let ?w1 = "w\<lparr>failures := failures w + 1\<rparr>"
    obtain r2 w2 where c: "dcall e (\<lambda>w. w\<lparr>coordinator := coordinator w @ [TerminateInstance (InstanceID f) (Region f)]\<rparr>) ?w1 = (r2, w2)"
      by fastforce
    have "same_queues w2 w" using dcall_effect[OF c] by (auto simp: same_queues_def)
    then show ?thesis using assms(1) True False c
      by (auto simp: after_replay_def missing_file_def Let_def same_queues_def split: if_splits)
  qed (use assms(1) in \<open>auto simp: after_replay_def same_queues_def\<close>)
  then show ?thesis by (intro stopped_effect) simp_all
next
  case False
  then obtain ls where "check_file e msg (dataOutputFile (DataOutputPath f) msg) ls (w\<lparr>failures := 0\<rparr>) = (r, w')"
    using assms(1) by (auto simp: after_replay_def)
  from check_file_effect[OF this] show ?thesis
    by (rule dg_effect_from[rotated 2]) (simp_all add: same_queues_def assms(2))
qed

lemma ensure_bootstrap_same: "ensure_bootstrap e f msg w = (r, w') \<Longrightarrow> same_queues w' w"
proof -
  assume b: "ensure_bootstrap e f msg w = (r, w')"
  obtain r1 w1 where c: "dcall e (\<lambda>w. w) w = (r1, w1)" by fastforce
  have w1: "w1 = dtick w" using dcall_effect[OF c] by auto
  show ?thesis
  proof (cases "w' = w1")
    case False
    then have "dcall e (\<lambda>w. w\<lparr>bootstrapGames := AList.update (ClientVersion f)
        \<lparr>bgGameID = exMatchId msg, bgGameKey = exKey msg, bgPlatformID = exPlatformId msg\<rparr> (bootstrapGames w)\<rparr>) w1 = (r, w')"
      using b c by (auto simp: ensure_bootstrap_def split: option.splits)
    from dcall_effect[OF this] show ?thesis by (auto simp: same_queues_def w1)
  qed (simp add: w1 same_queues_def)
qed

lemma datagen_effect:
  assumes "Handle_datagen e f msg w = Some rw"
  shows "dg_effect e f msg w rw"
proof -
  obtain r w' where rw: "rw = (r, w')" by fastforce
  let ?out = "dataOutputFile (DataOutputPath f) msg"
  obtain r1 w1 where b: "ensure_bootstrap e f msg w = (r1, w1)" by fastforce
  obtain r2 w2 where x: "dcall e (\<lambda>w. w) w1 = (r2, w2)" by fastforce
  obtain r3 w3 where s: "startReplay e f (datagen_request_of f msg) w2 = (r3, w3)" by fastforce
  define w4 where "w4 = w3\<lparr>localFile := dg_replay e (dgops w3) (localFile w3)\<rparr>"
  have w2: "same_queues w2 w"
    using dcall_same[OF x] ensure_bootstrap_same[OF b] same_queues_trans by simp
  have "same_queues w3 w2"
  proof (cases "DevServerMode f")
    case False
    then have "dcall e (\<lambda>w. w\<lparr>coordinator := coordinator w @ [StartReplay (datagen_request_of f msg)]\<rparr>) w2 = (r3, w3)"
      using s by (simp add: startReplay_def)
    then show ?thesis by (rule dcall_same) (simp add: same_queues_def)
  qed (use s in \<open>simp add: startReplay_def\<close>)
  then have w4: "same_queues w4 w" using w2 by (simp add: w4_def same_queues_def)
  show ?thesis
  proof (cases "extract_Valid msg \<and> exRetryNum msg \<le> MaxRetries f \<and>
      \<not> (exMatchVersion msg \<noteq> [] \<and> \<not> has_prefix (exMatchVersion msg) (ClientVersion f))")
    case False
    then have "w' = w \<and> (r \<noteq> Ok () \<or> exRetryNum msg > MaxRetries f)"
      using assms by (auto simp: Handle_datagen_def rw split: if_splits)
    then show ?thesis by (auto simp: rw dg_effect_def Let_def)
  next
    case True
    consider "w' \<in> {w1, w2}" "r \<noteq> Ok ()" | "result (sendCompletedMessage e msg ?out w2) = (r, w')" "map_of (extracts w2) ?out \<noteq> None"
      | "after_replay e f msg ?out w4 = (r, w')"
      using assms True b x s
      by (auto simp: Handle_datagen_def rw w4_def[symmetric] Let_def not_less split: option.splits if_splits)
    then show ?thesis
    proof cases
      case 1
      then show ?thesis using w2 ensure_bootstrap_same[OF b] unfolding rw by (intro stopped_effect) auto
    next
      case 2
      obtain r5 w5 where c: "sendCompletedMessage e msg ?out w2 = (r5, w5)" by fastforce
      with 2(1) have "w' = w5" "r = Ok () \<longrightarrow> r5 = None" by (auto simp: result_def split: option.splits)
      then show ?thesis using send_completed_effect[OF c] 2(2) w2
        by (auto simp: rw dg_effect_def same_queues_def Let_def)
    next
      case 3
      from after_replay_effect[OF this] True have "dg_effect e f msg w4 (r, w')" by blast
      then show ?thesis unfolding rw using dg_effect_from[OF w4] True by blast
    qed
  qed
qed


text \<open>
  a run announces a match only when the store has its data; it stores only data that was
  validated against the match details; it sends the message to the retry queue only when the
  validation failed. It acknowledges the message only when it was tried too often, or is done, or
  is in the retry queue.
\<close>

theorem extraction_effect:
  assumes "Handle_datagen e f msg w = Some rw"
  shows "dg_effect e f msg w rw"
  by (rule datagen_effect[OF assms])

subsection \<open>Retries\<close>

text \<open>
  A machine on which nothing fails: the calls succeed, the processes end, and every replay leaves
  the same text. The store has no data of the match.
\<close>

definition replays_alike :: "dg_env \<Rightarrow> datagen_worker \<Rightarrow> extract_message \<Rightarrow> string list \<Rightarrow> Elo_Validate.match_detail \<Rightarrow> bool" where
  "replays_alike e f msg ls md \<longleftrightarrow>
     (\<forall>n. dg_fate e n = Done) \<and> (\<forall>n i. \<not> dg_running e n i) \<and> (\<forall>n x. dg_replay e n x = Some ls) \<and>
     (\<forall>n. \<not> dg_stat_fails e n) \<and> (\<forall>n. dg_details e n (exMatchDetailsPath msg) = Inr md) \<and>
     file_size ls \<ge> 1 \<and> extract_Valid msg \<and>
     (exMatchVersion msg = [] \<or> has_prefix (exMatchVersion msg) (ClientVersion f))"

lemma dcall_Done: "dg_fate e (dgops w) = Done \<Longrightarrow> dcall e eff w = (None, dtick (eff w))"
  by (simp add: dcall_def)

lemma wait_none: "\<forall>i. \<not> running i \<Longrightarrow> wait_gone running 0 0 = Some 2"
  by (subst wait_gone.simps, simp add: Let_def, subst wait_gone.simps, simp add: Let_def,
      subst wait_gone.simps, simp add: Let_def)

lemma ensure_bootstrap_Done:
  assumes "\<And>n. dg_fate e n = Done"
  shows "\<exists>w1. ensure_bootstrap e f msg w = (None, w1) \<and> same_queues w1 w \<and> localFile w1 = localFile w"
  using assms
  by (cases "map_of (bootstrapGames w) (ClientVersion f)")
    (simp_all add: ensure_bootstrap_def dcall_Done same_queues_def)

lemma replay_to_check:
  assumes "replays_alike e f msg ls md" "exRetryNum msg \<le> MaxRetries f"
    and "map_of (extracts w) (dataOutputFile (DataOutputPath f) msg) = None \<or> exOverride msg"
  shows "\<exists>v. same_queues v w \<and>
    Handle_datagen e f msg w = Some (check_file e msg (dataOutputFile (DataOutputPath f) msg) ls v)"
proof -
  have f: "\<And>n. dg_fate e n = Done" "\<And>n i. \<not> dg_running e n i" "\<And>n x. dg_replay e n x = Some ls"
      "\<And>n. \<not> dg_stat_fails e n" "extract_Valid msg"
      "exMatchVersion msg = [] \<or> has_prefix (exMatchVersion msg) (ClientVersion f)"
    using assms(1) by (auto simp: replays_alike_def)
  obtain w1 where b: "ensure_bootstrap e f msg w = (None, w1)" "same_queues w1 w"
    using ensure_bootstrap_Done[of e] f(1) by blast
  obtain r3 w3 where s: "startReplay e f (datagen_request_of f msg) (dtick w1) = (r3, w3)" by fastforce
  have w3: "same_queues w3 w"
    using s b(2) by (cases "DevServerMode f") (auto simp: startReplay_def dcall_Done f(1) same_queues_def)
  have "Handle_datagen e f msg w =
      Some (after_replay e f msg (dataOutputFile (DataOutputPath f) msg) (w3\<lparr>localFile := Some ls\<rparr>))"
    using assms(2,3) b s f
    by (auto simp: Handle_datagen_def dcall_Done Let_def wait_none same_queues_def)
  then show ?thesis using w3 f(4)
    by (intro exI[of _ "w3\<lparr>localFile := Some ls, failures := 0\<rparr>"]) (simp add: after_replay_def same_queues_def)
qed

lemma replay_retried:
  assumes "replays_alike e f msg ls md" "exRetryNum msg \<le> MaxRetries f"
    and "map_of (extracts w) (dataOutputFile (DataOutputPath f) msg) = None \<or> exOverride msg"
    and "ValidateDataFile (dg_decode e) (dg_spell e) ls (Inr md) = Err err"
  shows "\<exists>w'. Handle_datagen e f msg w = Some (Ok (), w') \<and>
    retryQueue w' = retryQueue w @ [retried msg err] \<and> extracts w' = extracts w"
proof -
  obtain v where v: "same_queues v w"
      "Handle_datagen e f msg w = Some (check_file e msg (dataOutputFile (DataOutputPath f) msg) ls v)"
    using replay_to_check[OF assms(1-3)] by blast
  have "\<And>n. dg_fate e n = Done" "\<And>n. dg_details e n (exMatchDetailsPath msg) = Inr md" "\<not> file_size ls < 1"
    using assms(1) by (auto simp: replays_alike_def)
  then show ?thesis using v assms(4)
    by (auto simp: check_file_def dcall_Done retryMessage_def result_def same_queues_def retried_def Let_def)
qed

text \<open>The message after \<open>n\<close> deliveries, each of what the one before put into the retry queue.\<close>

fun nth_retry :: "dg_env \<Rightarrow> datagen_worker \<Rightarrow> nat \<Rightarrow> extract_message \<Rightarrow> dg_world \<Rightarrow> extract_message option" where
  "nth_retry e f 0 msg w = Some msg"
| "nth_retry e f (Suc n) msg w =
     (case Handle_datagen e f msg w of
        Some (Ok _, w') \<Rightarrow>
          if length (retryQueue w') = Suc (length (retryQueue w))
          then nth_retry e f n (List.last (retryQueue w')) w' else None
      | _ \<Rightarrow> None)"

text \<open>
  C32: a match whose validation fails for another reason than its deaths is tried for ever: the limit
  on retries never applies, since the number in the message does not change.
\<close>

theorem other_errors_retried_forever:
  assumes "replays_alike e f msg ls md" "exRetryNum msg \<le> MaxRetries f"
    and "map_of (extracts w) (dataOutputFile (DataOutputPath f) msg) = None"
    and "ValidateDataFile (dg_decode e) (dg_spell e) ls (Inr md) = Err err" "\<not> deaths_differ err"
  shows "nth_retry e f n msg w = Some msg"
  using assms(3)
proof (induction n arbitrary: w)
  case (Suc n)
  obtain w' where "Handle_datagen e f msg w = Some (Ok (), w')" "retryQueue w' = retryQueue w @ [msg]"
      "extracts w' = extracts w"
    using replay_retried[OF assms(1,2) disjI1[OF Suc.prems] assms(4)] assms(5)
    by (auto simp: retried_def)
  with Suc show ?case by simp
qed simp

lemma dataOutputFile_retry [simp]: "dataOutputFile p (msg\<lparr>exRetryNum := k\<rparr>) = dataOutputFile p msg"
  by (simp add: dataOutputFile_def)

lemma replays_alike_retry [simp]: "replays_alike e f (msg\<lparr>exRetryNum := k\<rparr>) ls md = replays_alike e f msg ls md"
  by (simp add: replays_alike_def extract_Valid_def)

text \<open>
  a match whose deaths differ is tried until its number exceeds the limit, and then no more.
\<close>

theorem death_errors_end:
  assumes "replays_alike e f msg ls md" "is_int64 (exRetryNum msg)" "MaxRetries f < 2 ^ 63 - 1"
    and "map_of (extracts w) (dataOutputFile (DataOutputPath f) msg) = None"
    and "ValidateDataFile (dg_decode e) (dg_spell e) ls (Inr md) = Err err" "deaths_differ err"
    and "exRetryNum msg \<le> MaxRetries f"
  shows "nth_retry e f n msg w =
    (if exRetryNum msg + int n \<le> MaxRetries f + 1 then Some (msg\<lparr>exRetryNum := exRetryNum msg + int n\<rparr>) else None)"
proof -
  have "nth_retry e f n (msg\<lparr>exRetryNum := k\<rparr>) w =
      (if k + int n \<le> MaxRetries f + 1 then Some (msg\<lparr>exRetryNum := k + int n\<rparr>) else None)"
    if "is_int64 k" "k \<le> MaxRetries f + 1" "map_of (extracts w) (dataOutputFile (DataOutputPath f) msg) = None" for k n w
    using that
  proof (induction n arbitrary: k w)
    case (Suc n)
    show ?case
    proof (cases "k \<le> MaxRetries f")
      case True
      have "add64 k 1 = k + 1"
        using Suc.prems(1) True assms(3) unfolding add64_def
        by (intro wrap64_id) (simp add: is_int64_def int64_min_def int64_max_def)
      moreover have k1: "is_int64 (k + 1)"
        using Suc.prems(1) True assms(3) by (simp add: is_int64_def int64_min_def int64_max_def)
      ultimately obtain w' where w': "Handle_datagen e f (msg\<lparr>exRetryNum := k\<rparr>) w = Some (Ok (), w')"
          "retryQueue w' = retryQueue w @ [msg\<lparr>exRetryNum := k + 1\<rparr>]" "extracts w' = extracts w"
        using replay_retried[of e f "msg\<lparr>exRetryNum := k\<rparr>" ls md w err] assms(1,5,6) Suc.prems(3) True
        by (auto simp: retried_def)
      with Suc.IH[OF k1, of w'] Suc.prems(3) True show ?thesis by (simp add: algebra_simps)
    next
      case False
      then have "Handle_datagen e f (msg\<lparr>exRetryNum := k\<rparr>) w = Some (Ok (), w)"
        using assms(1) by (simp add: Handle_datagen_def replays_alike_def extract_Valid_def)
      with False Suc.prems(2) show ?thesis by simp
    qed
  qed simp
  from this[of "exRetryNum msg"] assms show ?thesis by simp
qed

subsection \<open>From the replay to the statistics\<close>

lemma of_fallible_Ok [simp]: "of_fallible x = Ok a \<longleftrightarrow> x = Inr a"
  by (cases x) (auto simp: of_fallible_def)

lemma validated_converts:
  assumes "ValidateDataFile decode spellName ls (Inr md) = Ok ()"
  shows "\<exists>events bv. LogFile decode (Inr ls) = Ok events \<and> baseview_of spellName events md = Ok bv"
proof -
  obtain events where ev: "LogFile decode (Inr ls) = Ok events"
    using assms by (auto simp: ValidateDataFile_def bind_ok_Ok)
  obtain aligned where al: "AlignAPI events md = Ok aligned" "CheckTruncation aligned (MatchDuration md) = Inr ()"
    using assms ev by (auto simp: ValidateDataFile_def bind_ok_Ok)
  obtain ps evs where "ParticipantMapMD spellName md = Inr ps" "EloToBaseview aligned ps = Inr evs"
    using assms ev al by (auto simp: ValidateDataFile_def bind_ok_Ok)
  with ev al show ?thesis
    by (auto simp: baseview_of_def of_fallible_def wrap_err_def)
qed


lemma replay_completes:
  assumes "replays_alike e f msg ls md" "exRetryNum msg \<le> MaxRetries f"
    and "map_of (extracts w) (dataOutputFile (DataOutputPath f) msg) = None \<or> exOverride msg"
    and "ValidateDataFile (dg_decode e) (dg_spell e) ls (Inr md) = Ok ()"
  shows "\<exists>w'. Handle_datagen e f msg w = Some (Ok (), w') \<and> eloQueue w' = eloQueue w @ [completion f msg] \<and>
    extracts w' = AList.update (dataOutputFile (DataOutputPath f) msg) ls (extracts w)"
proof -
  obtain v where v: "same_queues v w"
      "Handle_datagen e f msg w = Some (check_file e msg (dataOutputFile (DataOutputPath f) msg) ls v)"
    using replay_to_check[OF assms(1-3)] by blast
  have "\<And>n. dg_fate e n = Done" "\<And>n. dg_details e n (exMatchDetailsPath msg) = Inr md" "\<not> file_size ls < 1"
    using assms(1) by (auto simp: replays_alike_def)
  then show ?thesis using v assms(4)
    by (auto simp: check_file_def dcall_Done upload_def sendCompletedMessage_def result_def same_queues_def
        completion_def Let_def)
qed

subsection \<open>An example\<close>

definition demo_extract :: extract_message where
  "demo_extract =
     \<lparr>exGameLengthSeconds = 95, exIncreasedPlaybackSpeed = True, exKey = ''k'', exMatchId = 5,
      exMatchDetailsPath = ''m'', exMatchVersion = [], exPlatformId = ''NA1'', exSpectatorServer = [],
      exSummonerIds = [9], exOverride = False, exRetryNum = 0\<rparr>"

definition demo_machine :: datagen_worker where
  "demo_machine = \<lparr>InstanceID = ''i'', Region = ''r'', ClientVersion = ''6.5.'', DataOutputPath = ''gs:'',
                   DevServerMode = False, MaxRetries = 2\<rparr>"

definition demo_dg_env :: "Elo_Validate.match_detail \<Rightarrow> dg_env" where
  "demo_dg_env md =
     \<lparr>dg_fate = (\<lambda>_. Done), dg_running = (\<lambda>_ _. False), dg_replay = (\<lambda>_ _. Some log_text),
      dg_stat_fails = (\<lambda>_. False), dg_details = (\<lambda>_ _. Inr md), dg_decode = log_decode,
      dg_spell = (\<lambda>_. ''Flash''), dg_gzip = id\<rparr>"

definition new_machine :: dg_world where
  "new_machine = \<lparr>bootstrapGames = [], extracts = [], localFile = None, eloQueue = [], retryQueue = [],
                  coordinator = [], failures = 0, dgops = 0\<rparr>"

lemma demo_alike: "replays_alike (demo_dg_env md) demo_machine demo_extract log_text md"
  by (simp add: replays_alike_def demo_dg_env_def demo_extract_def extract_Valid_def log_text_def file_size_def)

lemma demo_valid: "ValidateDataFile log_decode (\<lambda>_. ''Flash'') log_text (Inr log_detail) = Ok ()"
proof -
  have "MatchDuration log_detail = 95" by (simp add: log_detail_def)
  then show ?thesis using log_converts log_full
    by (auto simp: ValidateDataFile_def log_parses log_aligned log_named of_fallible_def)
qed

lemma demo_completes:
  "\<exists>w'. Handle_datagen (demo_dg_env log_detail) demo_machine demo_extract new_machine = Some (Ok (), w') \<and>
     eloQueue w' = [completion demo_machine demo_extract] \<and>
     extracts w' = [(dataOutputFile (DataOutputPath demo_machine) demo_extract, log_text)]"
  using replay_completes[OF demo_alike, of new_machine log_detail] demo_valid
  by (simp add: new_machine_def demo_dg_env_def demo_extract_def demo_machine_def)

theorem extraction_effect_witness:
  "\<exists>rw. Handle_datagen (demo_dg_env log_detail) demo_machine demo_extract new_machine = Some rw \<and>
     dg_effect (demo_dg_env log_detail) demo_machine demo_extract new_machine rw"
  using demo_completes extraction_effect by blast


lemma demo_truncated:
  "ValidateDataFile log_decode (\<lambda>_. ''Flash'') log_text (Inr (log_detail\<lparr>MatchDuration := 500\<rparr>)) =
     Err ''elo duration differs from api match duration''"
proof -
  have al: "AlignAPI log_events (log_detail\<lparr>MatchDuration := 500\<rparr>) = AlignAPI log_events log_detail"
    unfolding AlignAPI_def apiDeaths_def by (simp add: log_detail_def)
  have ct: "CheckTruncation (UpdateMatchSeconds log_events 6) 500 = Inl ''elo duration differs from api match duration''"
    by (simp add: CheckTruncation_def eloDurationSeconds_def UpdateMatchSeconds_def log_events_def
        set_match_seconds_def maxSecondsDiff_def)
  show ?thesis
    unfolding ValidateDataFile_def log_parses by (simp add: al log_aligned ct of_fallible_def)
qed

theorem other_errors_retried_forever_witness:
  "nth_retry (demo_dg_env (log_detail\<lparr>MatchDuration := 500\<rparr>)) demo_machine 1000 demo_extract new_machine = Some demo_extract"
  by (rule other_errors_retried_forever[OF demo_alike])
    (simp_all add: demo_truncated demo_dg_env_def, simp_all add: demo_machine_def demo_extract_def new_machine_def
      deaths_differ_def has_prefix_def)

definition two_deaths :: Elo_Validate.match_detail where
  "two_deaths = log_detail\<lparr>Frames := [[\<lparr>EventType = ''CHAMPION_KILL'', VictimID = 1, Timestamp = 90000\<rparr>,
                                      \<lparr>EventType = ''CHAMPION_KILL'', VictimID = 1, Timestamp = 95000\<rparr>]]\<rparr>"

lemma demo_deaths_differ:
  "ValidateDataFile log_decode (\<lambda>_. ''Flash'') log_text (Inr two_deaths) =
     Err (''api and elo differ in deaths for participant '' @ show_int 1 @ '' by '' @ show_int 1)"
  by (simp add: ValidateDataFile_def log_parses two_deaths_def AlignAPI_def apiDeaths_def eloDeaths_def
      log_events_def log_detail_def determineEloToAPIOffset_def validateDeathCounts_def death_counts_def
      bump_def get0_def of_fallible_def)

theorem death_errors_end_witness:
  "nth_retry (demo_dg_env two_deaths) demo_machine 3 demo_extract new_machine = Some (demo_extract\<lparr>exRetryNum := 3\<rparr>)
   \<and> nth_retry (demo_dg_env two_deaths) demo_machine 4 demo_extract new_machine = None"
proof -
  have r: "exRetryNum demo_extract = 0" "MaxRetries demo_machine = 2" "extracts new_machine = []"
    by (simp_all add: demo_extract_def demo_machine_def new_machine_def)
  have "nth_retry (demo_dg_env two_deaths) demo_machine n demo_extract new_machine =
      (if exRetryNum demo_extract + int n \<le> MaxRetries demo_machine + 1
       then Some (demo_extract\<lparr>exRetryNum := exRetryNum demo_extract + int n\<rparr>) else None)" for n
    by (rule death_errors_end[OF demo_alike, where err = "''api and elo differ in deaths for participant '' @ show_int 1 @ '' by '' @ show_int 1"])
      (simp_all add: r is_int64_def int64_min_def int64_max_def deaths_differ_def has_prefix_def,
       simp add: demo_dg_env_def demo_deaths_differ)
  from this[of 3] this[of 4] show ?thesis by (simp add: r)
qed

end
