(* ===== verification/Basic_Stats.thy ===== *)
theory Basic_Stats
  imports Go_Services Ingest_Roles Complex_Main
begin

text \<open>
  The basic statistics of one player, computed from Riot's match details:
  \<open>lolstats-master/generate\<close> (\<open>match_detail.go\<close>, \<open>team_summaries.go\<close>, \<open>basic_stats.go\<close>), and the
  names of the roles in \<open>lolstats-master/utils.go\<close>.

  The records hold the fields of \<open>riot/api\<close> that this code reads. Reflection over the fields of a
  timeline is a function from the name of the field. The time of the computation is an argument.
  Numbers of type \<open>float64\<close> are real; a quotient that is not a number in Go is 0 here, and
  \<open>no_data_points\<close> says when that happens to the average of the deaths.
\<close>

subsection \<open>Roles of the meta\<close>

definition FromMetaRole :: "role option \<Rightarrow> string \<times> string" where
  "FromMetaRole metaRole =
     (case metaRole of
        Some RoleTop \<Rightarrow> (''TOP'', ''SOLO'')
      | Some RoleMid \<Rightarrow> (''MIDDLE'', ''SOLO'')
      | Some RoleJungle \<Rightarrow> (''JUNGLE'', ''NONE'')
      | Some RoleSupport \<Rightarrow> (''BOTTOM'', ''DUO_SUPPORT'')
      | Some RoleAdc \<Rightarrow> (''BOTTOM'', ''DUO_CARRY'')
      | None \<Rightarrow> ('''', ''''))"

definition GetMetaRole :: "string \<Rightarrow> string \<Rightarrow> role option" where
  "GetMetaRole lane role =
     List.find (\<lambda>m. FromMetaRole (Some m) = (lane, role)) [RoleTop, RoleMid, RoleJungle, RoleSupport, RoleAdc]"

definition Round :: "real \<Rightarrow> int" where
  "Round f = \<lfloor>f + 1 / 2\<rfloor>"

subsection \<open>Match details\<close>

record timeline_data =
  TenToTwenty :: real
  ThirtyToEnd :: real
  TwentyToThirty :: real
  ZeroToTen :: real

datatype timeline_field =
    AncientGolemAssistsPerMinCounts | AncientGolemKillsPerMinCounts
  | AssistedLaneDeathsPerMinDeltas | AssistedLaneKillsPerMinDeltas
  | BaronAssistsPerMinCounts | BaronKillsPerMinCounts | CreepsPerMinDeltas | CsDiffPerMinDeltas
  | DamageTakenDiffPerMinDeltas | DamageTakenPerMinDeltas | DragonAssistsPerMinCounts
  | DragonKillsPerMinCounts | ElderLizardAssistsPerMinCounts | ElderLizardKillsPerMinCounts
  | GoldPerMinDeltas | InhibitorAssistsPerMinCounts | InhibitorKillsPerMinCounts
  | TowerAssistsPerMinCounts | TowerKillsPerMinCounts | TowerKillsPerMinDeltas
  | VilemawAssistsPerMinCounts | VilemawKillsPerMinCounts | WardsPerMinDeltas
  | XpDiffPerMinDeltas | XpPerMinDeltas

record player_timeline =
  tlLane :: string
  tlRole :: string
  tlData :: "timeline_field \<Rightarrow> timeline_data"

record player_stats =
  psAssists :: int
  psChampLevel :: int
  psDeaths :: int
  psGoldEarned :: int
  psItems :: "int list"
  psKills :: int
  psNeutralMinionsKilled :: int
  psNeutralMinionsKilledEnemyJungle :: int
  psTotalDamageDealt :: int
  psTotalDamageDealtToChampions :: int
  psTotalDamageTaken :: int
  psTotalHeal :: int
  psWardsKilled :: int
  psWardsPlaced :: int
  psWinner :: bool

record player =
  plChampionID :: int
  plMasteries :: "(int \<times> int) list"
  plParticipantID :: int
  plSpell1ID :: int
  plSpell2ID :: int
  plStats :: player_stats
  plTeamID :: int
  plTimeline :: player_timeline

record identity =
  idParticipantID :: int
  idSummonerID :: int
  idSummonerName :: string

record match_team =
  teBaronKills :: int
  teDragonKills :: int
  teTowerKills :: int

record match_event =
  evType :: string
  evLevelUpType :: string
  evParticipantID :: int
  evTimestamp :: int
  evVictimID :: int

record match_frame =
  frEvents :: "match_event list"
  frLevels :: "(string \<times> int) list"

record match_details =
  mdMapID :: int
  mdMatchCreation :: int
  mdMatchDuration :: int
  mdMatchID :: int
  mdMatchMode :: string
  mdMatchType :: string
  mdMatchVersion :: string
  mdIdentities :: "identity list"
  mdParticipants :: "player list"
  mdPlatformID :: string
  mdQueueType :: string
  mdRegion :: string
  mdTeams :: "match_team list"
  mdFrames :: "match_frame list"

text \<open>The fields of type \<open>int32\<close> are narrowed.\<close>

definition int32 :: "int \<Rightarrow> int" where
  "int32 i = (i + 2 ^ 31) mod 2 ^ 32 - 2 ^ 31"

subsection \<open>The player\<close>

definition participantIdentity :: "match_details \<Rightarrow> int \<Rightarrow> identity fallible" where
  "participantIdentity m summonerID =
     (case List.find (\<lambda>i. idSummonerID i = summonerID) (mdIdentities m) of
        Some i \<Rightarrow> Inr i
      | None \<Rightarrow> Inl (''unable to find participant identity for id: '' @ show_int summonerID))"

definition playerAndParticipant :: "match_details \<Rightarrow> int \<Rightarrow> (identity \<times> player) fallible" where
  "playerAndParticipant m summonerID =
     (case participantIdentity m summonerID of
        Inl err \<Rightarrow> Inl err
      | Inr ident \<Rightarrow>
     (case List.find (\<lambda>p. plParticipantID p = idParticipantID ident) (mdParticipants m) of
        Some p \<Rightarrow> Inr (ident, p)
      | None \<Rightarrow> Inl (''no participant found for id: '' @ show_int summonerID)))"

definition computeLaneMatchup :: "player \<Rightarrow> player list \<Rightarrow> player list \<times> player list" where
  "computeLaneMatchup p players =
     (let lane = filter (\<lambda>c. tlLane (plTimeline c) = tlLane (plTimeline p)) players;
          ourLane = filter (\<lambda>c. plTeamID c = plTeamID p) lane;
          theirLane = filter (\<lambda>c. plTeamID c \<noteq> plTeamID p) lane;
          perfectMatch = filter (\<lambda>c. tlRole (plTimeline c) = tlRole (plTimeline p)) theirLane in
      if length perfectMatch = 1 \<and> length ourLane = length theirLane then ([p], perfectMatch)
      else (ourLane, theirLane))"

subsection \<open>The history row\<close>

record history_row =
  hrSummonerID :: int
  hrPlatform :: string
  hrQueueType :: string
  hrMatchCreation :: int
  hrChampionID :: int
  hrLane :: string
  hrChampionIndex :: int
  hrMapID :: int
  hrMatchDuration :: real
  hrMatchID :: int
  hrMatchMode :: string
  hrMatchType :: string
  hrMatchVersion :: string
  hrOffMeta :: bool
  hrOpponentChampionID :: int
  hrRole :: string
  hrSummonerName :: string
  hrWon :: bool
  hrKills :: int
  hrDeaths :: int
  hrAssists :: int

definition ComputeHistory :: "match_details \<Rightarrow> int \<Rightarrow> history_row fallible" where
  "ComputeHistory m summonerID =
     (case playerAndParticipant m summonerID of
        Inl err \<Rightarrow> Inl err
      | Inr (player, participant) \<Rightarrow>
          let (ourLane, theirLane) = computeLaneMatchup participant (mdParticipants m);
              offMeta = (length ourLane \<noteq> 1 \<or> length theirLane \<noteq> 1);
              st = plStats participant in
          Inr \<lparr>hrSummonerID = idSummonerID player, hrPlatform = mdPlatformID m, hrQueueType = mdQueueType m,
               hrMatchCreation = mdMatchCreation m, hrChampionID = plChampionID participant,
               hrLane = tlLane (plTimeline participant), hrChampionIndex = plParticipantID participant,
               hrMapID = mdMapID m, hrMatchDuration = real_of_int (mdMatchDuration m), hrMatchID = mdMatchID m,
               hrMatchMode = mdMatchMode m, hrMatchType = mdMatchType m, hrMatchVersion = mdMatchVersion m,
               hrOffMeta = offMeta, hrOpponentChampionID = (if offMeta then 0 else plChampionID (hd theirLane)),
               hrRole = tlRole (plTimeline participant), hrSummonerName = idSummonerName player,
               hrWon = psWinner st, hrKills = psKills st, hrDeaths = psDeaths st, hrAssists = psAssists st\<rparr>)"

subsection \<open>Team summaries\<close>

record team_summary =
  tsKills :: int
  tsDeaths :: int
  tsAssists :: int
  tsTowers :: int
  tsBarons :: int
  tsDragons :: int

record participant_info =
  piChampID :: int
  piChampLevel :: int
  piSpell1ID :: int
  piSpell2ID :: int
  piMasteries :: "(string \<times> int) list"
  piKills :: int
  piDeaths :: int
  piAssists :: int
  piGold :: int
  piTotalDamageDealtToChampions :: int
  piWardsPlaced :: int
  piWardKills :: int
  piItems :: "int list"
  piRole :: "role option"
  piSummonerID :: int
  piSummonerName :: string

record team_summaries =
  Team1 :: team_summary
  Team2 :: team_summary
  tsParticipants :: "participant_info list"

definition team_start :: "match_team \<Rightarrow> team_summary" where
  "team_start t =
     \<lparr>tsKills = 0, tsDeaths = 0, tsAssists = 0, tsTowers = int32 (teTowerKills t),
      tsBarons = int32 (teBaronKills t), tsDragons = int32 (teDragonKills t)\<rparr>"

definition team_add :: "player_stats \<Rightarrow> team_summary \<Rightarrow> team_summary" where
  "team_add st t =
     t\<lparr>tsKills := tsKills t + psKills st, tsDeaths := tsDeaths t + psDeaths st,
       tsAssists := tsAssists t + psAssists st\<rparr>"

definition participant_info_of :: "player \<Rightarrow> identity \<Rightarrow> participant_info" where
  "participant_info_of p ident =
     (let st = plStats p in
      \<lparr>piChampID = int32 (plChampionID p), piChampLevel = psChampLevel st,
       piSpell1ID = int32 (plSpell1ID p), piSpell2ID = int32 (plSpell2ID p),
       piMasteries = fold (\<lambda>(k, r). AList.update (show_int k) r) (plMasteries p) [],
       piKills = psKills st, piDeaths = psDeaths st, piAssists = psAssists st, piGold = psGoldEarned st,
       piTotalDamageDealtToChampions = psTotalDamageDealtToChampions st,
       piWardsPlaced = psWardsPlaced st, piWardKills = psWardsKilled st, piItems = psItems st,
       piRole = GetMetaRole (tlLane (plTimeline p)) (tlRole (plTimeline p)),
       piSummonerID = idSummonerID ident, piSummonerName = idSummonerName ident\<rparr>)"

text \<open>The loop, with the identities from the participant's index on.\<close>

fun summaries_loop :: "player list \<Rightarrow> identity list \<Rightarrow> team_summaries \<Rightarrow> team_summaries outcome" where
  "summaries_loop [] ids s = Ok s"
| "summaries_loop (p # ps) [] s = Panic ''index out of range''"
| "summaries_loop (p # ps) (i # ids) s =
     (let s1 = (if plTeamID p = 100 then s\<lparr>Team1 := team_add (plStats p) (Team1 s)\<rparr>
                else if plTeamID p = 200 then s\<lparr>Team2 := team_add (plStats p) (Team2 s)\<rparr>
                else s) in
      summaries_loop ps ids (s1\<lparr>tsParticipants := tsParticipants s1 @ [participant_info_of p i]\<rparr>))"

definition ComputeTeamSummaries :: "match_details \<Rightarrow> team_summaries outcome" where
  "ComputeTeamSummaries m =
     (case mdTeams m of
        t1 # t2 # _ \<Rightarrow>
          summaries_loop (mdParticipants m) (mdIdentities m)
            \<lparr>Team1 = team_start t1, Team2 = team_start t2, tsParticipants = []\<rparr>
      | _ \<Rightarrow> Panic ''index out of range'')"

subsection \<open>The statistics\<close>

record time_percent =
  tpTime :: real
  tpPercent :: real

record basic_stats =
  bsSummonerID :: int
  bsPlatformID :: string
  bsMatchID :: int
  bsMatchCreation :: int
  bsMatchDuration :: int
  bsLastUpdated :: int
  bsTeamSummaries :: "team_summaries option"
  bsChampionID :: int
  bsLane :: string
  bsRole :: string
  bsOpponentChampionID :: int
  bsQueueType :: string
  bsMatchVersion :: string
  bsTier :: string
  bsDivision :: string
  bsChampionIndex :: int
  bsWon :: bool
  bsKills :: int
  bsDeaths :: int
  bsAssists :: int
  CSPerMinuteZeroToTen :: real
  CSPerMinuteDiffZeroToTen :: "real option"
  NeutralMinionsKilledPerMinute :: real
  NeutralMinionsKilledEnemyJunglePerMinute :: real
  GoldZeroToTen :: real
  GoldDiffZeroToTen :: "real option"
  GoldTenToTwenty :: real
  GoldDiffTenToTwenty :: "real option"
  GoldTwentyToThirty :: real
  GoldDiffTwentyToThirty :: "real option"
  Level6Seconds :: real
  Level6DiffSeconds :: "real option"
  bsWardsPlaced :: int
  WardsPlacedPerMinute :: real
  WardsKilledPerMinute :: real
  TotalDamageDealt :: int
  TotalDamageDealtPerMinute :: real
  TotalDamageDealtToChampions :: int
  TotalDamageDealtToChampionsPerMinute :: real
  TotalDamageTaken :: int
  TotalDamageTakenPerMinute :: real
  TotalHeal :: int
  TotalHealPerMinute :: real
  DeadPercentLast5 :: "time_percent list"
  AverageDeathTimePercentage :: real

definition zero_stats :: basic_stats where
  "zero_stats =
     \<lparr>bsSummonerID = 0, bsPlatformID = [], bsMatchID = 0, bsMatchCreation = 0, bsMatchDuration = 0,
      bsLastUpdated = 0, bsTeamSummaries = None, bsChampionID = 0, bsLane = [], bsRole = [],
      bsOpponentChampionID = 0, bsQueueType = [], bsMatchVersion = [], bsTier = [], bsDivision = [],
      bsChampionIndex = 0, bsWon = False, bsKills = 0, bsDeaths = 0, bsAssists = 0,
      CSPerMinuteZeroToTen = 0, CSPerMinuteDiffZeroToTen = None, NeutralMinionsKilledPerMinute = 0,
      NeutralMinionsKilledEnemyJunglePerMinute = 0, GoldZeroToTen = 0, GoldDiffZeroToTen = None,
      GoldTenToTwenty = 0, GoldDiffTenToTwenty = None, GoldTwentyToThirty = 0,
      GoldDiffTwentyToThirty = None, Level6Seconds = 0, Level6DiffSeconds = None, bsWardsPlaced = 0,
      WardsPlacedPerMinute = 0, WardsKilledPerMinute = 0, TotalDamageDealt = 0,
      TotalDamageDealtPerMinute = 0, TotalDamageDealtToChampions = 0,
      TotalDamageDealtToChampionsPerMinute = 0, TotalDamageTaken = 0, TotalDamageTakenPerMinute = 0,
      TotalHeal = 0, TotalHealPerMinute = 0, DeadPercentLast5 = [], AverageDeathTimePercentage = 0\<rparr>"

definition addParticipantStats :: "player \<Rightarrow> int \<Rightarrow> basic_stats \<Rightarrow> basic_stats" where
  "addParticipantStats p matchSeconds stats =
     (let matchMinutes = real_of_int matchSeconds / 60;
          per_minute = (\<lambda>n. real_of_int n / matchMinutes);
          st = plStats p; gold = tlData (plTimeline p) GoldPerMinDeltas in
      stats\<lparr>bsAssists := psAssists st,
        CSPerMinuteZeroToTen := ZeroToTen (tlData (plTimeline p) CreepsPerMinDeltas),
        bsDeaths := psDeaths st,
        GoldTenToTwenty := TenToTwenty gold, GoldTwentyToThirty := TwentyToThirty gold, GoldZeroToTen := ZeroToTen gold,
        bsKills := psKills st,
        NeutralMinionsKilledEnemyJunglePerMinute := per_minute (psNeutralMinionsKilledEnemyJungle st),
        NeutralMinionsKilledPerMinute := per_minute (psNeutralMinionsKilled st),
        TotalDamageDealt := psTotalDamageDealt st, TotalDamageDealtPerMinute := per_minute (psTotalDamageDealt st),
        TotalDamageDealtToChampions := psTotalDamageDealtToChampions st,
        TotalDamageDealtToChampionsPerMinute := per_minute (psTotalDamageDealtToChampions st),
        TotalDamageTaken := psTotalDamageTaken st, TotalDamageTakenPerMinute := per_minute (psTotalDamageTaken st),
        TotalHeal := psTotalHeal st, TotalHealPerMinute := per_minute (psTotalHeal st),
        WardsPlacedPerMinute := per_minute (psWardsPlaced st), WardsKilledPerMinute := per_minute (psWardsKilled st),
        bsWardsPlaced := psWardsPlaced st\<rparr>)"

definition no_timeline_data :: timeline_data where
  "no_timeline_data = \<lparr>TenToTwenty = 0, ThirtyToEnd = 0, TwentyToThirty = 0, ZeroToTen = 0\<rparr>"

definition add_data :: "timeline_data \<Rightarrow> timeline_data \<Rightarrow> timeline_data" where
  "add_data a b =
     \<lparr>TenToTwenty = TenToTwenty a + TenToTwenty b, ThirtyToEnd = ThirtyToEnd a + ThirtyToEnd b,
      TwentyToThirty = TwentyToThirty a + TwentyToThirty b, ZeroToTen = ZeroToTen a + ZeroToTen b\<rparr>"

definition addToTimeline :: "player_timeline \<Rightarrow> player_timeline \<Rightarrow> player_timeline" where
  "addToTimeline dest src = dest\<lparr>tlData := (\<lambda>field. add_data (tlData dest field) (tlData src field))\<rparr>"

definition combineParticipantTimelines :: "player list \<Rightarrow> player_timeline" where
  "combineParticipantTimelines players =
     fold (\<lambda>a combined. addToTimeline combined (plTimeline a)) players
       \<lparr>tlLane = [], tlRole = [], tlData = (\<lambda>_. no_timeline_data)\<rparr>"

definition addLaneDiffStats :: "player list \<Rightarrow> player list \<Rightarrow> basic_stats \<Rightarrow> basic_stats" where
  "addLaneDiffStats us them row =
     (if length them = 0 then row
      else let numUs = max 1 (real (length us)); numThem = max 1 (real (length them));
               usTimeline = combineParticipantTimelines us; themTimeline = combineParticipantTimelines them;
               diff = (\<lambda>field part. part (tlData usTimeline field) / numUs - part (tlData themTimeline field) / numThem) in
        row\<lparr>CSPerMinuteDiffZeroToTen := Some (diff CreepsPerMinDeltas ZeroToTen),
            GoldDiffZeroToTen := Some (diff GoldPerMinDeltas ZeroToTen),
            GoldDiffTenToTwenty := Some (diff GoldPerMinDeltas TenToTwenty),
            GoldDiffTwentyToThirty := Some (diff GoldPerMinDeltas TwentyToThirty)\<rparr>)"

definition avgEventSeconds :: "real \<Rightarrow> (int \<rightharpoonup> match_event) \<Rightarrow> player list \<Rightarrow> real" where
  "avgEventSeconds defaultSeconds events participants =
     (if length participants = 0 then defaultSeconds
      else sum_list (map (\<lambda>p. case events (plParticipantID p) of
                            Some e \<Rightarrow> real_of_int (evTimestamp e) / 1000
                          | None \<Rightarrow> defaultSeconds) participants) / real (length participants))"

text \<open>The loop over the events: who reached level 6 by which event, and the levels so far.\<close>

definition level_event :: "match_event \<Rightarrow> (int \<rightharpoonup> match_event) \<times> (int \<Rightarrow> int) \<Rightarrow> (int \<rightharpoonup> match_event) \<times> (int \<Rightarrow> int)" where
  "level_event e s =
     (case s of (level6, cur) \<Rightarrow>
      if evType e \<noteq> ''SKILL_LEVEL_UP'' \<or> evLevelUpType e \<noteq> ''NORMAL'' then (level6, cur)
      else let who = evParticipantID e in
        (if cur who = 5 then level6(who \<mapsto> e) else level6, cur(who := cur who + 1)))"

definition level6ByParticipant :: "match_details \<Rightarrow> int \<rightharpoonup> match_event" where
  "level6ByParticipant m =
     fst (fold level_event (concat (map frEvents (mdFrames m))) (Map.empty, \<lambda>_. 0))"

definition addLevelStats :: "match_details \<Rightarrow> player \<Rightarrow> player list \<Rightarrow> player list \<Rightarrow> basic_stats \<Rightarrow> basic_stats" where
  "addLevelStats m p us them row =
     (let level6 = level6ByParticipant m; matchSecs = real_of_int (mdMatchDuration m);
          row1 = row\<lparr>Level6Seconds := avgEventSeconds matchSecs level6 [p]\<rparr> in
      if length them \<noteq> 0
      then row1\<lparr>Level6DiffSeconds := Some (avgEventSeconds matchSecs level6 them - avgEventSeconds matchSecs level6 us)\<rparr>
      else row1)"

subsection \<open>Time spent dead\<close>

definition deathEndSeconds :: "real \<Rightarrow> int \<Rightarrow> real" where
  "deathEndSeconds secs level =
     (let base = real_of_int level * 5 / 2 + 15 / 2;
          minutes = secs / 60;
          endTime = base;
          endTime = (if minutes > 15 then endTime + base / 100 * (minutes - 15) * 2 * (375 / 1000) else endTime);
          endTime = (if minutes > 30 then endTime + base / 100 * (minutes - 30) * 2 * (2 / 10) else endTime);
          endTime = (if minutes > 45 then endTime + base / 100 * (minutes - 45) * 2 * (145 / 100) else endTime);
          endTime = (if minutes > 535 / 10 then base * (15 / 10) else endTime) in
      secs + endTime)"

text \<open>The deaths of a participant, each with the time it ends.\<close>

definition deathSpawnTimes :: "match_details \<Rightarrow> int \<Rightarrow> (real \<times> real) list" where
  "deathSpawnTimes m pID =
     concat (map (\<lambda>frame.
       map (\<lambda>e. let deathSeconds = real_of_int (evTimestamp e) / 1000;
                    level = (case map_of (frLevels frame) (show_int pID) of Some l \<Rightarrow> l | None \<Rightarrow> 0) in
                (deathSeconds, deathEndSeconds deathSeconds level))
         (filter (\<lambda>e. evType e = ''CHAMPION_KILL'' \<and> evVictimID e = pID) (frEvents frame)))
       (mdFrames m))"

fun dead_between :: "(real \<times> real) list \<Rightarrow> real \<Rightarrow> real \<Rightarrow> real" where
  "dead_between [] start end' = 0"
| "dead_between ((died, spawned) # ds) start end' =
     (if died \<ge> end' then 0
      else (if spawned > start then min end' spawned - max start died else 0) + dead_between ds start end')"

text \<open>A point of the sliding window for each full minute of the match.\<close>

definition dead_percent :: "(real \<times> real) list \<Rightarrow> real \<Rightarrow> real" where
  "dead_percent ds end' = 100 * dead_between ds (max 0 (end' - 300)) end' / 300"

definition data_points :: "int \<Rightarrow> real list" where
  "data_points duration = map (\<lambda>k. 60 * real k) [1..<Suc (nat (duration div 60))]"

definition no_data_points :: "int \<Rightarrow> bool" where
  "no_data_points duration \<longleftrightarrow> duration < 60"

definition addDeathTimePercentage :: "match_details \<Rightarrow> player \<Rightarrow> basic_stats \<Rightarrow> basic_stats" where
  "addDeathTimePercentage m p row =
     (let ds = deathSpawnTimes m (plParticipantID p); ends = data_points (mdMatchDuration m) in
      row\<lparr>DeadPercentLast5 := DeadPercentLast5 row @ map (\<lambda>e. \<lparr>tpTime = e, tpPercent = dead_percent ds e\<rparr>) ends,
          AverageDeathTimePercentage := sum_list (map (dead_percent ds) ends) / real (length ends)\<rparr>)"

subsection \<open>All of it\<close>

definition stats_start :: "match_details \<Rightarrow> int \<Rightarrow> identity \<Rightarrow> player \<Rightarrow> player list \<times> player list \<Rightarrow> basic_stats" where
  "stats_start m now player participant lanes =
     zero_stats\<lparr>bsChampionID := plChampionID participant, bsChampionIndex := plParticipantID participant,
       bsWon := psWinner (plStats participant), bsLane := tlLane (plTimeline participant),
       bsMatchCreation := mdMatchCreation m, bsMatchDuration := mdMatchDuration m, bsMatchID := mdMatchID m,
       bsMatchVersion := mdMatchVersion m, bsPlatformID := mdPlatformID m, bsQueueType := mdQueueType m,
       bsRole := tlRole (plTimeline participant), bsSummonerID := idSummonerID player, bsLastUpdated := now,
       bsOpponentChampionID :=
         (case lanes of (ourLane, theirLane) \<Rightarrow>
            if length ourLane = 1 \<and> length theirLane = 1 then plChampionID (hd theirLane) else 0)\<rparr>"

definition ComputeBasic :: "match_details \<Rightarrow> int \<Rightarrow> int \<Rightarrow> basic_stats outcome" where
  "ComputeBasic m now summonerID =
     (case playerAndParticipant m summonerID of
        Inl err \<Rightarrow> Err err
      | Inr (player, participant) \<Rightarrow>
     (case computeLaneMatchup participant (mdParticipants m) of (ourLane, theirLane) \<Rightarrow>
        bind_ok (ComputeTeamSummaries m) (\<lambda>summaries.
          Ok (addDeathTimePercentage m participant
            (addLevelStats m participant ourLane theirLane
              (addLaneDiffStats ourLane theirLane
                (addParticipantStats participant (mdMatchDuration m)
                  ((stats_start m now player participant (ourLane, theirLane))\<lparr>bsTeamSummaries := Some summaries\<rparr>))))))))"

definition TrimNonStats :: "basic_stats \<Rightarrow> basic_stats" where
  "TrimNonStats s = s\<lparr>bsTeamSummaries := None, DeadPercentLast5 := []\<rparr>"

subsection \<open>Averages over a team\<close>

text \<open>
  Reading through the nil pointer of a missing difference panics. The slice of dead times of the
  first player that has any becomes that of the average, so the sums are written into it.
\<close>

definition plus_diff :: "real option \<Rightarrow> real option \<Rightarrow> real option outcome" where
  "plus_diff average basic =
     (case basic of
        None \<Rightarrow> Panic ''nil pointer dereference''
      | Some b \<Rightarrow> Ok (Some ((case average of None \<Rightarrow> 0 | Some a \<Rightarrow> a) + b)))"

fun plus_percents :: "time_percent list \<Rightarrow> time_percent list \<Rightarrow> time_percent list outcome" where
  "plus_percents average [] = Ok average"
| "plus_percents [] (b # bs) = Panic ''index out of range''"
| "plus_percents (a # average) (b # bs) =
     bind_ok (plus_percents average bs) (\<lambda>rest. Ok (a\<lparr>tpPercent := tpPercent a + tpPercent b\<rparr> # rest))"

definition average_add :: "basic_stats \<Rightarrow> basic_stats \<Rightarrow> basic_stats outcome" where
  "average_add basic average =
     bind_ok (plus_diff (CSPerMinuteDiffZeroToTen average) (CSPerMinuteDiffZeroToTen basic)) (\<lambda>cs.
     bind_ok (plus_diff (GoldDiffZeroToTen average) (GoldDiffZeroToTen basic)) (\<lambda>gold0.
     bind_ok (plus_diff (GoldDiffTenToTwenty average) (GoldDiffTenToTwenty basic)) (\<lambda>gold1.
     bind_ok (plus_diff (GoldDiffTwentyToThirty average) (GoldDiffTwentyToThirty basic)) (\<lambda>gold2.
     bind_ok (plus_diff (Level6DiffSeconds average) (Level6DiffSeconds basic)) (\<lambda>level6.
     bind_ok (if DeadPercentLast5 average = [] then Ok (DeadPercentLast5 basic)
              else plus_percents (DeadPercentLast5 average) (DeadPercentLast5 basic)) (\<lambda>dead.
       Ok (average\<lparr>bsPlatformID := bsPlatformID basic, bsMatchID := bsMatchID basic,
         bsMatchCreation := bsMatchCreation basic, bsMatchDuration := bsMatchDuration basic,
         bsLastUpdated := bsLastUpdated basic, bsTeamSummaries := bsTeamSummaries basic,
         bsQueueType := bsQueueType basic, bsMatchVersion := bsMatchVersion basic, bsWon := bsWon basic,
         bsKills := bsKills average + bsKills basic, bsDeaths := bsDeaths average + bsDeaths basic,
         bsAssists := bsAssists average + bsAssists basic,
         CSPerMinuteZeroToTen := CSPerMinuteZeroToTen average + CSPerMinuteZeroToTen basic,
         CSPerMinuteDiffZeroToTen := cs,
         NeutralMinionsKilledPerMinute := NeutralMinionsKilledPerMinute average + NeutralMinionsKilledPerMinute basic,
         NeutralMinionsKilledEnemyJunglePerMinute :=
           NeutralMinionsKilledEnemyJunglePerMinute average + NeutralMinionsKilledEnemyJunglePerMinute basic,
         GoldZeroToTen := GoldZeroToTen average + GoldZeroToTen basic, GoldDiffZeroToTen := gold0,
         GoldTenToTwenty := GoldTenToTwenty average + GoldTenToTwenty basic, GoldDiffTenToTwenty := gold1,
         GoldTwentyToThirty := GoldTwentyToThirty average + GoldTwentyToThirty basic, GoldDiffTwentyToThirty := gold2,
         Level6Seconds := Level6Seconds average + Level6Seconds basic, Level6DiffSeconds := level6,
         bsWardsPlaced := bsWardsPlaced average + bsWardsPlaced basic,
         WardsPlacedPerMinute := WardsPlacedPerMinute average + WardsPlacedPerMinute basic,
         WardsKilledPerMinute := WardsKilledPerMinute average + WardsKilledPerMinute basic,
         TotalDamageDealt := TotalDamageDealt average + TotalDamageDealt basic,
         TotalDamageDealtPerMinute := TotalDamageDealtPerMinute average + TotalDamageDealtPerMinute basic,
         TotalDamageDealtToChampions := TotalDamageDealtToChampions average + TotalDamageDealtToChampions basic,
         TotalDamageDealtToChampionsPerMinute :=
           TotalDamageDealtToChampionsPerMinute average + TotalDamageDealtToChampionsPerMinute basic,
         TotalDamageTaken := TotalDamageTaken average + TotalDamageTaken basic,
         TotalDamageTakenPerMinute := TotalDamageTakenPerMinute average + TotalDamageTakenPerMinute basic,
         TotalHeal := TotalHeal average + TotalHeal basic,
         TotalHealPerMinute := TotalHealPerMinute average + TotalHealPerMinute basic,
         AverageDeathTimePercentage := AverageDeathTimePercentage average + AverageDeathTimePercentage basic,
         DeadPercentLast5 := dead\<rparr>)))))))"

fun average_loop :: "basic_stats list \<Rightarrow> basic_stats \<Rightarrow> basic_stats outcome" where
  "average_loop [] average = Ok average"
| "average_loop (b # bs) average = bind_ok (average_add b average) (average_loop bs)"

definition average_finish :: "real \<Rightarrow> basic_stats \<Rightarrow> basic_stats" where
  "average_finish n a =
     (let half_up = (\<lambda>i. Round (real_of_int i / n)) in
      a\<lparr>bsKills := half_up (bsKills a), bsDeaths := half_up (bsDeaths a), bsAssists := half_up (bsAssists a),
        CSPerMinuteZeroToTen := CSPerMinuteZeroToTen a / n,
        CSPerMinuteDiffZeroToTen := map_option (\<lambda>x. x / n) (CSPerMinuteDiffZeroToTen a),
        NeutralMinionsKilledPerMinute := NeutralMinionsKilledPerMinute a / n,
        NeutralMinionsKilledEnemyJunglePerMinute := NeutralMinionsKilledEnemyJunglePerMinute a / n,
        GoldZeroToTen := GoldZeroToTen a / n, GoldDiffZeroToTen := map_option (\<lambda>x. x / n) (GoldDiffZeroToTen a),
        GoldTenToTwenty := GoldTenToTwenty a / n, GoldDiffTenToTwenty := map_option (\<lambda>x. x / n) (GoldDiffTenToTwenty a),
        GoldTwentyToThirty := GoldTwentyToThirty a / n,
        GoldDiffTwentyToThirty := map_option (\<lambda>x. x / n) (GoldDiffTwentyToThirty a),
        Level6Seconds := Level6Seconds a / n, Level6DiffSeconds := map_option (\<lambda>x. x / n) (Level6DiffSeconds a),
        bsWardsPlaced := half_up (bsWardsPlaced a), WardsPlacedPerMinute := WardsPlacedPerMinute a / n,
        WardsKilledPerMinute := WardsKilledPerMinute a / n,
        TotalDamageDealt := half_up (TotalDamageDealt a), TotalDamageDealtPerMinute := TotalDamageDealtPerMinute a / n,
        TotalDamageDealtToChampions := half_up (TotalDamageDealtToChampions a),
        TotalDamageDealtToChampionsPerMinute := TotalDamageDealtToChampionsPerMinute a / n,
        TotalDamageTaken := half_up (TotalDamageTaken a), TotalDamageTakenPerMinute := TotalDamageTakenPerMinute a / n,
        TotalHeal := half_up (TotalHeal a), TotalHealPerMinute := TotalHealPerMinute a / n,
        AverageDeathTimePercentage := AverageDeathTimePercentage a / n,
        DeadPercentLast5 := map (\<lambda>t. t\<lparr>tpPercent := tpPercent t / n\<rparr>) (DeadPercentLast5 a)\<rparr>)"

fun write_shared :: "time_percent list \<Rightarrow> basic_stats list \<Rightarrow> basic_stats list" where
  "write_shared dead [] = []"
| "write_shared dead (b # bs) =
     (if DeadPercentLast5 b = [] then b # write_shared dead bs else b\<lparr>DeadPercentLast5 := dead\<rparr> # bs)"

text \<open>The average, and the players' statistics as they are afterwards.\<close>

definition AverageBasicStats :: "basic_stats list \<Rightarrow> (basic_stats \<times> basic_stats list) outcome" where
  "AverageBasicStats bs =
     (if length bs = 0 then Ok (zero_stats, bs)
      else bind_ok (average_loop bs zero_stats) (\<lambda>added.
        let average = average_finish (real (length bs)) added in
        Ok (average, write_shared (DeadPercentLast5 average) bs)))"

subsection \<open>Dead times\<close>

text \<open>Deaths in order, none before the end of the one before it.\<close>

fun apart :: "real \<Rightarrow> (real \<times> real) list \<Rightarrow> bool" where
  "apart from [] = True"
| "apart from ((died, spawned) # ds) \<longleftrightarrow> from \<le> died \<and> died \<le> spawned \<and> apart spawned ds"

lemma dead_between_nonneg:
  "apart from ds \<Longrightarrow> s \<le> e \<Longrightarrow> 0 \<le> dead_between ds s e"
  by (induction ds s e arbitrary: "from" rule: dead_between.induct) (auto intro!: add_nonneg_nonneg)

lemma dead_between_bound:
  "apart from ds \<Longrightarrow> s \<le> e \<Longrightarrow> dead_between ds s e \<le> max 0 (e - max s from)"
proof (induction ds s e arbitrary: "from" rule: dead_between.induct)
  case (2 died spawned ds s e)
  show ?case
  proof (cases "died \<ge> e")
    case False
    have "dead_between ds s e \<le> max 0 (e - max s spawned)" using 2 False by simp
    then show ?thesis using 2(2,3) False by (auto simp: max_def min_def split: if_splits)
  qed simp
qed simp

lemma dead_percent_bounds:
  assumes "apart 0 ds" "0 \<le> e"
  shows "0 \<le> dead_percent ds e" "dead_percent ds e \<le> 100" "dead_percent ds e \<le> e / 3"
proof -
  let ?s = "max 0 (e - 300)"
  have "dead_between ds ?s e \<le> max 0 (e - max ?s 0)" "0 \<le> dead_between ds ?s e"
    using dead_between_bound[OF assms(1), of ?s e] dead_between_nonneg[OF assms(1), of ?s e] assms(2) by simp_all
  then show "0 \<le> dead_percent ds e" "dead_percent ds e \<le> 100" "dead_percent ds e \<le> e / 3"
    using assms(2) by (auto simp: dead_percent_def max_def split: if_splits)
qed

lemma data_points_nonneg: "e \<in> set (data_points d) \<Longrightarrow> 0 \<le> e"
  by (auto simp: data_points_def)

lemma data_points_empty: "data_points d = [] \<longleftrightarrow> no_data_points d"
  by (auto simp: data_points_def no_data_points_def)

lemma average_between:
  assumes "\<forall>x\<in>set xs. lo \<le> f x \<and> f x \<le> hi" "xs \<noteq> []"
  shows "lo \<le> sum_list (map f xs) / real (length xs) \<and> sum_list (map f xs) / real (length xs) \<le> hi"
proof -
  have "real (length xs) * lo \<le> sum_list (map f xs) \<and> sum_list (map f xs) \<le> real (length xs) * hi"
    using assms(1) by (induction xs) (auto simp: algebra_simps)
  then show ?thesis using assms(2) by (auto simp: field_simps)
qed

lemma basic_parts:
  assumes "ComputeBasic m now s = Ok b"
  obtains ident p summaries where "playerAndParticipant m s = Inr (ident, p)" "ComputeTeamSummaries m = Ok summaries"
    "b = (let lanes = computeLaneMatchup p (mdParticipants m) in
       addDeathTimePercentage m p (addLevelStats m p (fst lanes) (snd lanes) (addLaneDiffStats (fst lanes) (snd lanes)
         (addParticipantStats p (mdMatchDuration m) ((stats_start m now ident p lanes)\<lparr>bsTeamSummaries := Some summaries\<rparr>)))))"
  using assms by (auto simp: ComputeBasic_def bind_ok_Ok Let_def split: sum.splits prod.splits)

lemma lane_diff_fields [simp]:
  "DeadPercentLast5 (addLaneDiffStats us them row) = DeadPercentLast5 row"
  "bsChampionIndex (addLaneDiffStats us them row) = bsChampionIndex row"
  "Level6DiffSeconds (addLaneDiffStats us them row) = Level6DiffSeconds row"
  by (simp_all add: addLaneDiffStats_def Let_def)

lemma level_fields [simp]:
  "DeadPercentLast5 (addLevelStats m p us them row) = DeadPercentLast5 row"
  "bsChampionIndex (addLevelStats m p us them row) = bsChampionIndex row"
  "CSPerMinuteDiffZeroToTen (addLevelStats m p us them row) = CSPerMinuteDiffZeroToTen row"
  "GoldDiffZeroToTen (addLevelStats m p us them row) = GoldDiffZeroToTen row"
  "GoldDiffTenToTwenty (addLevelStats m p us them row) = GoldDiffTenToTwenty row"
  "GoldDiffTwentyToThirty (addLevelStats m p us them row) = GoldDiffTwentyToThirty row"
  by (simp_all add: addLevelStats_def Let_def)

lemma participant_fields [simp]:
  "DeadPercentLast5 (addParticipantStats p secs row) = DeadPercentLast5 row"
  "bsChampionIndex (addParticipantStats p secs row) = bsChampionIndex row"
  "CSPerMinuteDiffZeroToTen (addParticipantStats p secs row) = CSPerMinuteDiffZeroToTen row"
  "Level6DiffSeconds (addParticipantStats p secs row) = Level6DiffSeconds row"
  by (simp_all add: addParticipantStats_def Let_def)

lemma start_fields [simp]:
  "DeadPercentLast5 (stats_start m now ident p lanes) = []"
  "bsChampionIndex (stats_start m now ident p lanes) = plParticipantID p"
  "CSPerMinuteDiffZeroToTen (stats_start m now ident p lanes) = None"
  "Level6DiffSeconds (stats_start m now ident p lanes) = None"
  by (simp_all add: stats_start_def zero_stats_def)

lemma death_fields [simp]:
  "bsChampionIndex (addDeathTimePercentage m p row) = bsChampionIndex row"
  "CSPerMinuteDiffZeroToTen (addDeathTimePercentage m p row) = CSPerMinuteDiffZeroToTen row"
  "GoldDiffZeroToTen (addDeathTimePercentage m p row) = GoldDiffZeroToTen row"
  "GoldDiffTenToTwenty (addDeathTimePercentage m p row) = GoldDiffTenToTwenty row"
  "GoldDiffTwentyToThirty (addDeathTimePercentage m p row) = GoldDiffTwentyToThirty row"
  "Level6DiffSeconds (addDeathTimePercentage m p row) = Level6DiffSeconds row"
  by (simp_all add: addDeathTimePercentage_def Let_def)

text \<open>
  when the deaths of a player do not overlap, each point of the window of five minutes is a
  percentage, in the first minutes at most the part of the window that the match has lasted; and the
  average of the points is a percentage too.
\<close>

theorem dead_percentages:
  assumes "ComputeBasic m now s = Ok b" "apart 0 (deathSpawnTimes m (bsChampionIndex b))"
  shows "length (DeadPercentLast5 b) = nat (mdMatchDuration m div 60)"
    and "\<forall>t\<in>set (DeadPercentLast5 b). 0 \<le> tpPercent t \<and> tpPercent t \<le> min 100 (tpTime t / 3)"
    and "0 \<le> AverageDeathTimePercentage b" "AverageDeathTimePercentage b \<le> 100"
proof -
  obtain ident p row where b: "b = addDeathTimePercentage m p row" "DeadPercentLast5 row = []" "bsChampionIndex row = plParticipantID p"
    by (rule basic_parts[OF assms(1)], unfold Let_def, rule that, assumption) simp_all
  let ?ds = "deathSpawnTimes m (plParticipantID p)" and ?ends = "data_points (mdMatchDuration m)"
  have ap: "apart 0 ?ds" using assms(2) b by simp
  show "length (DeadPercentLast5 b) = nat (mdMatchDuration m div 60)"
    by (simp add: b addDeathTimePercentage_def Let_def data_points_def)
  show "\<forall>t\<in>set (DeadPercentLast5 b). 0 \<le> tpPercent t \<and> tpPercent t \<le> min 100 (tpTime t / 3)"
    using dead_percent_bounds[OF ap] data_points_nonneg by (auto simp: b addDeathTimePercentage_def Let_def)
  have pts: "\<forall>e\<in>set ?ends. 0 \<le> dead_percent ?ds e \<and> dead_percent ?ds e \<le> 100"
    using dead_percent_bounds[OF ap] data_points_nonneg by auto
  have "AverageDeathTimePercentage b = sum_list (map (dead_percent ?ds) ?ends) / real (length ?ends)"
    by (simp add: b(1) addDeathTimePercentage_def Let_def)
  then show "0 \<le> AverageDeathTimePercentage b" "AverageDeathTimePercentage b \<le> 100"
    using average_between[OF pts] by (cases "?ends = []"; simp)+
qed

text \<open>
  the time to respawn grows beyond the last rule's factor of one and a half and then drops: whoever
  dies right at 53.5 minutes stays dead longer than whoever dies later.
\<close>

theorem respawn_drops:
  assumes "3210 < t" "0 \<le> level"
  shows "deathEndSeconds 3210 level - 3210 = (162925 / 100000) * (real_of_int level * 5 / 2 + 15 / 2)"
    and "deathEndSeconds t level - t = (15 / 10) * (real_of_int level * 5 / 2 + 15 / 2)"
    and "deathEndSeconds t level - t < deathEndSeconds 3210 level - 3210"
proof -
  show a: "deathEndSeconds 3210 level - 3210 = (162925 / 100000) * (real_of_int level * 5 / 2 + 15 / 2)"
    by (simp add: deathEndSeconds_def Let_def field_simps)
  show b: "deathEndSeconds t level - t = (15 / 10) * (real_of_int level * 5 / 2 + 15 / 2)"
    using assms by (simp add: deathEndSeconds_def Let_def field_simps)
  have "0 < real_of_int level * 5 / 2 + 15 / 2" using assms(2) by simp
  then show "deathEndSeconds t level - t < deathEndSeconds 3210 level - 3210" unfolding a b by simp
qed

subsection \<open>Opponents in a lane\<close>

lemma filter_own: "distinct xs \<Longrightarrow> p \<in> set xs \<Longrightarrow> filter (\<lambda>c. c = p) xs = [p]"
  by (induction xs) (auto simp: filter_empty_conv)

lemma perfect_mirror:
  assumes "computeLaneMatchup p ps = ([p], [q])" "p \<in> set ps" "distinct ps"
    and "\<forall>c\<in>set ps. plTeamID c = 100 \<or> plTeamID c = 200"
    and "\<forall>c\<in>set ps. plTeamID c = plTeamID p \<and> tlLane (plTimeline c) = tlLane (plTimeline p) \<and>
      tlRole (plTimeline c) = tlRole (plTimeline p) \<longrightarrow> c = p"
  shows "computeLaneMatchup q ps = ([q], [p])"
proof -
  define lane where "lane = filter (\<lambda>c. tlLane (plTimeline c) = tlLane (plTimeline p)) ps"
  define our where "our = filter (\<lambda>c. plTeamID c = plTeamID p) lane"
  define their where "their = filter (\<lambda>c. plTeamID c \<noteq> plTeamID p) lane"
  define perf where "perf = filter (\<lambda>c. tlRole (plTimeline c) = tlRole (plTimeline p)) their"
  have m: "(if length perf = 1 \<and> length our = length their then ([p], perf) else (our, their)) = ([p], [q])"
    using assms(1) by (simp only: computeLaneMatchup_def Let_def lane_def our_def their_def perf_def)
  have q: "q \<in> set their"
  proof (cases "length perf = 1 \<and> length our = length their")
    case True
    with m have "q \<in> set perf" by simp
    then show ?thesis by (simp add: perf_def)
  next
    case False
    with m have "their = [q]" by auto
    then show ?thesis by simp
  qed
  then have q': "q \<in> set ps" "tlLane (plTimeline q) = tlLane (plTimeline p)" "plTeamID q \<noteq> plTeamID p"
    by (auto simp: their_def lane_def)
  have team: "plTeamID c = plTeamID q \<longleftrightarrow> plTeamID c \<noteq> plTeamID p" if "c \<in> set ps" for c
    using assms(2,4) q' that by (metis (full_types))
  have sub: "set lane \<subseteq> set ps" by (auto simp: lane_def)
  have "filter (\<lambda>c. plTeamID c = plTeamID q) lane = their" "filter (\<lambda>c. plTeamID c \<noteq> plTeamID q) lane = our"
    unfolding their_def our_def using team sub by (auto intro!: filter_cong)
  then have mirror: "computeLaneMatchup q ps =
      (let perf' = filter (\<lambda>c. tlRole (plTimeline c) = tlRole (plTimeline q)) our in
       if length perf' = 1 \<and> length their = length our then ([q], perf') else (their, our))"
    by (simp only: computeLaneMatchup_def Let_def q'(2) lane_def[symmetric])
  show ?thesis
  proof (cases "length perf = 1 \<and> length our = length their")
    case True
    with m have perf: "perf = [q]" by simp
    then have "q \<in> set perf" by simp
    then have r: "tlRole (plTimeline q) = tlRole (plTimeline p)" by (simp add: perf_def)
    have "filter (\<lambda>c. tlRole (plTimeline c) = tlRole (plTimeline p)) our = filter (\<lambda>c. c = p) our"
      using assms(5) by (auto simp: our_def lane_def intro!: filter_cong)
    also have "\<dots> = [p]"
      using assms(2,3) by (intro filter_own) (auto simp: our_def lane_def)
    finally show ?thesis using True mirror r by (simp add: Let_def)
  next
    case False
    with m have "our = [p]" "their = [q]" by auto
    then show ?thesis using mirror by (simp add: Let_def)
  qed
qed

text \<open>The differences of the lane, as a list.\<close>

definition lane_diffs :: "basic_stats \<Rightarrow> real option list" where
  "lane_diffs b =
     [CSPerMinuteDiffZeroToTen b, GoldDiffZeroToTen b, GoldDiffTenToTwenty b, GoldDiffTwentyToThirty b, Level6DiffSeconds b]"

lemma lane_diffs_of:
  assumes "ComputeBasic m now s = Ok b" "playerAndParticipant m s = Inr (ident, p)"
    and "computeLaneMatchup p (mdParticipants m) = (us, them)"
  shows "them \<noteq> [] \<Longrightarrow> lane_diffs b =
      (let row = addLaneDiffStats us them zero_stats; avg = avgEventSeconds (real_of_int (mdMatchDuration m)) (level6ByParticipant m) in
       [CSPerMinuteDiffZeroToTen row, GoldDiffZeroToTen row, GoldDiffTenToTwenty row, GoldDiffTwentyToThirty row,
        Some (avg them - avg us)])"
    and "them = [] \<Longrightarrow> lane_diffs b = replicate 5 None"
proof -
  obtain summaries where b: "b = addDeathTimePercentage m p (addLevelStats m p us them (addLaneDiffStats us them
      (addParticipantStats p (mdMatchDuration m) ((stats_start m now ident p (us, them))\<lparr>bsTeamSummaries := Some summaries\<rparr>))))"
    by (rule basic_parts[OF assms(1)]) (use assms(2,3) in \<open>auto simp: Let_def\<close>)
  show "them \<noteq> [] \<Longrightarrow> lane_diffs b =
      (let row = addLaneDiffStats us them zero_stats; avg = avgEventSeconds (real_of_int (mdMatchDuration m)) (level6ByParticipant m) in
       [CSPerMinuteDiffZeroToTen row, GoldDiffZeroToTen row, GoldDiffTenToTwenty row, GoldDiffTwentyToThirty row,
        Some (avg them - avg us)])"
    by (simp add: lane_diffs_def b Let_def) (simp add: addLaneDiffStats_def addLevelStats_def Let_def)
  show "them = [] \<Longrightarrow> lane_diffs b = replicate 5 None"
    by (simp add: lane_diffs_def b eval_nat_numeral)
      (simp add: addLaneDiffStats_def addLevelStats_def addParticipantStats_def stats_start_def zero_stats_def Let_def)
qed

lemma participant_in: "playerAndParticipant m s = Inr (ident, p) \<Longrightarrow> p \<in> set (mdParticipants m)"
  by (auto simp: playerAndParticipant_def find_Some_iff split: sum.splits option.splits)

text \<open>
  C26: when a player has one clear opponent in the lane, the opponent's matchup is the player, and the
  differences of the one are the negatives of the other's.
\<close>

theorem lane_opponents_mirror:
  assumes "ComputeBasic m now s1 = Ok b1" "ComputeBasic m now s2 = Ok b2"
    and "playerAndParticipant m s1 = Inr (i1, p)" "playerAndParticipant m s2 = Inr (i2, q)"
    and "computeLaneMatchup p (mdParticipants m) = ([p], [q])"
    and "distinct (mdParticipants m)" "\<forall>c\<in>set (mdParticipants m). plTeamID c = 100 \<or> plTeamID c = 200"
    and "\<forall>c\<in>set (mdParticipants m). plTeamID c = plTeamID p \<and> tlLane (plTimeline c) = tlLane (plTimeline p) \<and>
      tlRole (plTimeline c) = tlRole (plTimeline p) \<longrightarrow> c = p"
  shows "computeLaneMatchup q (mdParticipants m) = ([q], [p]) \<and>
    lane_diffs b2 = map (map_option uminus) (lane_diffs b1) \<and> None \<notin> set (lane_diffs b1)"
proof -
  have mir: "computeLaneMatchup q (mdParticipants m) = ([q], [p])"
    by (rule perfect_mirror[OF assms(5) participant_in[OF assms(3)] assms(6-8)])
  note d1 = lane_diffs_of(1)[OF assms(1,3,5)] and d2 = lane_diffs_of(1)[OF assms(2,4) mir]
  show ?thesis by (simp add: mir d1 d2 addLaneDiffStats_def Let_def)
qed

subsection \<open>Averages\<close>

lemma average_add_panics: "None \<in> set (lane_diffs b) \<Longrightarrow> average_add b a = Panic ''nil pointer dereference''"
  unfolding average_add_def lane_diffs_def
  by (cases "CSPerMinuteDiffZeroToTen b"; cases "GoldDiffZeroToTen b"; cases "GoldDiffTenToTwenty b";
      cases "GoldDiffTwentyToThirty b"; cases "Level6DiffSeconds b") (simp_all add: plus_diff_def)

text \<open>
  a player who has no opponent in the lane has no differences, and the average over a team that
  contains such a player panics: the team's page cannot be shown.
\<close>

theorem no_opponent_no_average:
  assumes "ComputeBasic m now s = Ok b" "playerAndParticipant m s = Inr (ident, p)"
    and "\<forall>c\<in>set (mdParticipants m). tlLane (plTimeline c) = tlLane (plTimeline p) \<longrightarrow> plTeamID c = plTeamID p"
    and "b \<in> set bs"
  shows "lane_diffs b = replicate 5 None" "\<exists>e. AverageBasicStats bs = Panic e"
proof -
  obtain us them where l: "computeLaneMatchup p (mdParticipants m) = (us, them)" by fastforce
  then have "them = []" using assms(3)
    by (auto simp: computeLaneMatchup_def Let_def filter_empty_conv split: if_splits)
  then show n: "lane_diffs b = replicate 5 None" using lane_diffs_of(2)[OF assms(1,2)] l by simp
  have pp: "plus_percents as cs \<noteq> Err e" for as cs e
  proof (induction as cs rule: plus_percents.induct)
    case (3 a as c cs)
    then show ?case by (cases "plus_percents as cs") auto
  qed simp_all
  have ok: "average_add c a \<noteq> Err e" for c a e
  proof -
    have bo: "bind_ok x f \<noteq> Err e" if "\<And>e. x \<noteq> Err e" "\<And>y. f y \<noteq> Err e" for x :: "'x outcome" and f :: "'x \<Rightarrow> basic_stats outcome"
      using that by (cases x) auto
    show ?thesis
      unfolding average_add_def by (intro bo) (auto simp: plus_diff_def pp split: option.splits)
  qed
  have "\<exists>e. average_loop bs a = Panic e" for a
    using assms(4)
  proof (induction bs arbitrary: a)
    case (Cons c cs)
    show ?case
    proof (cases "average_add c a")
      case (Ok a')
      then have "c \<noteq> b" using average_add_panics[of b a] n by auto
      with Cons Ok show ?thesis by auto
    qed (use ok in auto)
  qed simp
  then obtain e where "average_loop bs zero_stats = Panic e" by blast
  then show "\<exists>e. AverageBasicStats bs = Panic e" using assms(4) by (auto simp: AverageBasicStats_def)
qed

text \<open>The fields whose average is the mean, and those whose average is rounded.\<close>

definition mean_fields :: "(basic_stats \<Rightarrow> real) list" where
  "mean_fields =
     [CSPerMinuteZeroToTen, NeutralMinionsKilledPerMinute, NeutralMinionsKilledEnemyJunglePerMinute, GoldZeroToTen,
      GoldTenToTwenty, GoldTwentyToThirty, Level6Seconds, WardsPlacedPerMinute, WardsKilledPerMinute,
      TotalDamageDealtPerMinute, TotalDamageDealtToChampionsPerMinute, TotalDamageTakenPerMinute,
      TotalHealPerMinute, AverageDeathTimePercentage]"

definition rounded_fields :: "(basic_stats \<Rightarrow> int) list" where
  "rounded_fields =
     [bsKills, bsDeaths, bsAssists, bsWardsPlaced, TotalDamageDealt, TotalDamageDealtToChampions, TotalDamageTaken, TotalHeal]"

definition diff_at :: "nat \<Rightarrow> basic_stats \<Rightarrow> real" where
  "diff_at i b = (case lane_diffs b ! i of None \<Rightarrow> 0 | Some x \<Rightarrow> x)"

definition dead_at :: "nat \<Rightarrow> basic_stats \<Rightarrow> real" where
  "dead_at i b = (if i < length (DeadPercentLast5 b) then tpPercent (DeadPercentLast5 b ! i) else 0)"

lemma plus_percents_same:
  "length as = length bs \<Longrightarrow>
     plus_percents as bs = Ok (map2 (\<lambda>a b. a\<lparr>tpPercent := tpPercent a + tpPercent b\<rparr>) as bs)"
  by (induction as bs rule: list_induct2) simp_all

definition sums_to :: "basic_stats \<Rightarrow> basic_stats list \<Rightarrow> basic_stats \<Rightarrow> bool" where
  "sums_to a bs a' \<longleftrightarrow>
     (\<forall>f\<in>set mean_fields. f a' = f a + sum_list (map f bs)) \<and>
     (\<forall>f\<in>set rounded_fields. f a' = f a + sum_list (map f bs)) \<and>
     (\<forall>i<5. diff_at i a' = diff_at i a + sum_list (map (diff_at i) bs)) \<and>
     (\<forall>i. dead_at i a' = dead_at i a + sum_list (map (dead_at i) bs))"

lemma sums_toD:
  assumes "sums_to a bs a'"
  shows "f \<in> set mean_fields \<Longrightarrow> f a' = f a + sum_list (map f bs)"
    and "g \<in> set rounded_fields \<Longrightarrow> g a' = g a + sum_list (map g bs)"
    and "i < 5 \<Longrightarrow> diff_at i a' = diff_at i a + sum_list (map (diff_at i) bs)"
    and "dead_at j a' = dead_at j a + sum_list (map (dead_at j) bs)"
  using assms by (auto simp: sums_to_def)

lemma sums_to_Cons:
  assumes "sums_to a [b] a1" "sums_to a1 bs a'"
  shows "sums_to a (b # bs) a'"
  unfolding sums_to_def
proof (intro conjI ballI allI impI)
  fix f assume "f \<in> set mean_fields"
  then show "f a' = f a + sum_list (map f (b # bs))" using sums_toD(1)[OF assms(1)] sums_toD(1)[OF assms(2)] by fastforce
next
  fix f assume "f \<in> set rounded_fields"
  then show "f a' = f a + sum_list (map f (b # bs))" using sums_toD(2)[OF assms(1)] sums_toD(2)[OF assms(2)] by fastforce
qed (simp_all add: sums_toD(3,4)[OF assms(1)] sums_toD(3,4)[OF assms(2)])

lemma dead_at_update [simp]:
  "dead_at i (b\<lparr>DeadPercentLast5 := dead\<rparr>) = (if i < length dead then tpPercent (dead ! i) else 0)"
  by (simp add: dead_at_def)

lemma average_add_ok:
  assumes "None \<notin> set (lane_diffs b)" "length (DeadPercentLast5 b) = n"
    and "DeadPercentLast5 a = [] \<or> length (DeadPercentLast5 a) = n"
  shows "\<exists>a'. average_add b a = Ok a' \<and> sums_to a [b] a' \<and> length (DeadPercentLast5 a') = n \<and> None \<notin> set (lane_diffs a')"
proof -
  obtain d1 d2 d3 d4 d5 where d: "CSPerMinuteDiffZeroToTen b = Some d1" "GoldDiffZeroToTen b = Some d2"
    "GoldDiffTenToTwenty b = Some d3" "GoldDiffTwentyToThirty b = Some d4" "Level6DiffSeconds b = Some d5"
    using assms(1)
    by (cases "CSPerMinuteDiffZeroToTen b"; cases "GoldDiffZeroToTen b"; cases "GoldDiffTenToTwenty b";
        cases "GoldDiffTwentyToThirty b"; cases "Level6DiffSeconds b") (auto simp: lane_diffs_def)
  define dead where "dead = (if DeadPercentLast5 a = [] then DeadPercentLast5 b
    else map2 (\<lambda>a b. a\<lparr>tpPercent := tpPercent a + tpPercent b\<rparr>) (DeadPercentLast5 a) (DeadPercentLast5 b))"
  have dd: "(if DeadPercentLast5 a = [] then Ok (DeadPercentLast5 b)
      else plus_percents (DeadPercentLast5 a) (DeadPercentLast5 b)) = Ok dead"
    using assms(2,3) by (auto simp: dead_def plus_percents_same)
  have sum: "(if i < length dead then tpPercent (dead ! i) else 0) = dead_at i a + dead_at i b" "length dead = n" for i
    using assms(2,3) by (auto simp: dead_def dead_at_def)
  have i5: "i < 5 \<longleftrightarrow> i = 0 \<or> i = 1 \<or> i = 2 \<or> i = 3 \<or> i = 4" for i :: nat by auto
  show ?thesis
    using sum unfolding average_add_def dd d plus_diff_def
    by (simp add: sums_to_def mean_fields_def rounded_fields_def i5 diff_at_def lane_diffs_def d)
qed

lemma average_loop_ok:
  assumes "\<forall>b\<in>set bs. None \<notin> set (lane_diffs b) \<and> length (DeadPercentLast5 b) = n"
    and "DeadPercentLast5 a = [] \<or> length (DeadPercentLast5 a) = n" "bs \<noteq> []"
  shows "\<exists>a'. average_loop bs a = Ok a' \<and> sums_to a bs a' \<and> length (DeadPercentLast5 a') = n \<and> None \<notin> set (lane_diffs a')"
  using assms
proof (induction bs arbitrary: a)
  case (Cons b bs)
  obtain a1 where a1: "average_add b a = Ok a1" "sums_to a [b] a1" "length (DeadPercentLast5 a1) = n" "None \<notin> set (lane_diffs a1)"
    using average_add_ok[of b n a] Cons.prems by auto
  show ?case
  proof (cases "bs = []")
    case False
    then obtain a' where a': "average_loop bs a1 = Ok a'" "sums_to a1 bs a'" "length (DeadPercentLast5 a') = n" "None \<notin> set (lane_diffs a')"
      using Cons.IH[of a1] Cons.prems a1(3) by auto
    with a1 sums_to_Cons[OF a1(2) a'(2)] show ?thesis by auto
  qed (use a1 in simp)
qed simp

lemma average_finish_fields:
  "f \<in> set mean_fields \<Longrightarrow> f (average_finish n a) = f a / n"
  "g \<in> set rounded_fields \<Longrightarrow> g (average_finish n a) = Round (real_of_int (g a) / n)"
  "i < 5 \<Longrightarrow> diff_at i (average_finish n a) = diff_at i a / n"
  "dead_at j (average_finish n a) = dead_at j a / n"
  by (auto simp: average_finish_def Let_def mean_fields_def rounded_fields_def diff_at_def lane_diffs_def dead_at_def
      less_Suc_eq eval_nat_numeral split: option.splits)

text \<open>
  C27: the average over players who all have an opponent and as many points of time exists, and is the
  mean of every rate and difference, of each point of the window of dead times, and the rounded
  mean of every count.
\<close>

theorem average_is_mean:
  assumes "bs \<noteq> []" "\<forall>b\<in>set bs. None \<notin> set (lane_diffs b) \<and> length (DeadPercentLast5 b) = n"
  shows "\<exists>a bs'. AverageBasicStats bs = Ok (a, bs') \<and>
    (\<forall>f\<in>set mean_fields. f a = sum_list (map f bs) / length bs) \<and>
    (\<forall>f\<in>set rounded_fields. f a = Round (real_of_int (sum_list (map f bs)) / length bs)) \<and>
    (\<forall>i<5. diff_at i a = sum_list (map (diff_at i) bs) / length bs) \<and>
    (\<forall>i<n. dead_at i a = sum_list (map (dead_at i) bs) / length bs)"
proof -
  obtain a' where a': "average_loop bs zero_stats = Ok a'" "sums_to zero_stats bs a'"
    using average_loop_ok[OF assms(2) _ assms(1), of zero_stats] by (auto simp: zero_stats_def)
  have z: "f \<in> set mean_fields \<Longrightarrow> f zero_stats = 0" "g \<in> set rounded_fields \<Longrightarrow> g zero_stats = 0"
    "i < 5 \<Longrightarrow> diff_at i zero_stats = 0" "dead_at j zero_stats = 0" for f g i j
    by (auto simp: zero_stats_def mean_fields_def rounded_fields_def diff_at_def lane_diffs_def dead_at_def
        less_Suc_eq eval_nat_numeral)
  let ?a = "average_finish (real (length bs)) a'"
  have r: "AverageBasicStats bs = Ok (?a, write_shared (DeadPercentLast5 ?a) bs)"
    using a'(1) assms(1) by (simp add: AverageBasicStats_def Let_def)
  have "f ?a = sum_list (map f bs) / length bs" if "f \<in> set mean_fields" for f
    using average_finish_fields(1)[OF that] sums_toD(1)[OF a'(2) that] z(1)[OF that] by simp
  moreover have "f ?a = Round (real_of_int (sum_list (map f bs)) / length bs)" if "f \<in> set rounded_fields" for f
    using average_finish_fields(2)[OF that] sums_toD(2)[OF a'(2) that] z(2)[OF that] by simp
  moreover have "diff_at i ?a = sum_list (map (diff_at i) bs) / length bs" if "i < 5" for i
    by (simp add: average_finish_fields(3) sums_toD(3)[OF a'(2)] z(3) that)
  moreover have "dead_at i ?a = sum_list (map (dead_at i) bs) / length bs" for i
    by (simp add: average_finish_fields(4) sums_toD(4)[OF a'(2)] z(4))
  ultimately show ?thesis using r by blast
qed

subsection \<open>Summaries\<close>

definition team_total :: "(player_stats \<Rightarrow> int) \<Rightarrow> int \<Rightarrow> player list \<Rightarrow> int" where
  "team_total f team ps = sum_list (map (f \<circ> plStats) (filter (\<lambda>p. plTeamID p = team) ps))"

lemma summaries_loop_ok:
  "length ps \<le> length ids \<Longrightarrow> \<exists>s'. summaries_loop ps ids s = Ok s' \<and>
     tsKills (Team1 s') = tsKills (Team1 s) + team_total psKills 100 ps \<and>
     tsDeaths (Team1 s') = tsDeaths (Team1 s) + team_total psDeaths 100 ps \<and>
     tsAssists (Team1 s') = tsAssists (Team1 s) + team_total psAssists 100 ps \<and>
     tsKills (Team2 s') = tsKills (Team2 s) + team_total psKills 200 ps \<and>
     tsDeaths (Team2 s') = tsDeaths (Team2 s) + team_total psDeaths 200 ps \<and>
     tsAssists (Team2 s') = tsAssists (Team2 s) + team_total psAssists 200 ps \<and>
     tsParticipants s' = tsParticipants s @ map2 participant_info_of ps ids"
proof (induction ps ids s rule: summaries_loop.induct)
  case (3 p ps i ids s)
  have "length ps \<le> length ids" using 3(2) by simp
  from 3(1)[OF refl this] show ?case by (auto simp: Let_def team_total_def team_add_def)
qed (simp_all add: team_total_def)

lemma summaries_loop_panic: "length ids < length ps \<Longrightarrow> \<exists>e. summaries_loop ps ids s = Panic e"
  by (induction ps ids s rule: summaries_loop.induct) (auto simp: Let_def)

text \<open>
  the summaries exist exactly when there are two teams and an identity for every participant;
  otherwise the code panics. They add up the kills of each team, and name the participants in order.
\<close>

theorem summaries_total:
  "(if 2 \<le> length (mdTeams m) \<and> length (mdParticipants m) \<le> length (mdIdentities m)
    then \<exists>s. ComputeTeamSummaries m = Ok s \<and>
      tsKills (Team1 s) = team_total psKills 100 (mdParticipants m) \<and>
      tsDeaths (Team1 s) = team_total psDeaths 100 (mdParticipants m) \<and>
      tsAssists (Team1 s) = team_total psAssists 100 (mdParticipants m) \<and>
      tsKills (Team2 s) = team_total psKills 200 (mdParticipants m) \<and>
      tsDeaths (Team2 s) = team_total psDeaths 200 (mdParticipants m) \<and>
      tsAssists (Team2 s) = team_total psAssists 200 (mdParticipants m) \<and>
      tsParticipants s = map2 participant_info_of (mdParticipants m) (mdIdentities m)
    else \<exists>e. ComputeTeamSummaries m = Panic e)"
proof (cases "mdTeams m")
  case (Cons t1 ts)
  show ?thesis
  proof (cases ts)
    case (Cons t2 ts')
    with \<open>mdTeams m = t1 # ts\<close> show ?thesis
      using summaries_loop_ok[of "mdParticipants m" "mdIdentities m" "\<lparr>Team1 = team_start t1, Team2 = team_start t2, tsParticipants = []\<rparr>"]
        summaries_loop_panic[of "mdIdentities m" "mdParticipants m" "\<lparr>Team1 = team_start t1, Team2 = team_start t2, tsParticipants = []\<rparr>"]
      by (auto simp: ComputeTeamSummaries_def team_start_def)
  qed (simp add: ComputeTeamSummaries_def Cons)
qed (simp add: ComputeTeamSummaries_def)

text \<open>A role that is recognised is named by its lane and role, and each role is recognised.\<close>

lemma metarole_roundtrip:
  "GetMetaRole lane role = Some r \<longleftrightarrow> FromMetaRole (Some r) = (lane, role)"
  by (cases r) (auto simp: GetMetaRole_def FromMetaRole_def)

subsection \<open>An example\<close>

definition demo_timeline :: "string \<Rightarrow> string \<Rightarrow> real \<Rightarrow> player_timeline" where
  "demo_timeline lane role cs =
     \<lparr>tlLane = lane, tlRole = role,
      tlData = (\<lambda>f. if f = CreepsPerMinDeltas then no_timeline_data\<lparr>ZeroToTen := cs\<rparr> else no_timeline_data)\<rparr>"

definition demo_player :: "int \<Rightarrow> int \<Rightarrow> player_timeline \<Rightarrow> player" where
  "demo_player i team played =
     \<lparr>plChampionID = 10 + i, plMasteries = [], plParticipantID = i, plSpell1ID = 4, plSpell2ID = 11,
      plStats = \<lparr>psAssists = 1, psChampLevel = 9, psDeaths = 1, psGoldEarned = 100, psItems = replicate 7 0,
        psKills = 2, psNeutralMinionsKilled = 3, psNeutralMinionsKilledEnemyJungle = 1, psTotalDamageDealt = 9,
        psTotalDamageDealtToChampions = 5, psTotalDamageTaken = 4, psTotalHeal = 0, psWardsKilled = 1,
        psWardsPlaced = 2, psWinner = team = 100\<rparr>,
      plTeamID = team, plTimeline = played\<rparr>"

definition demo_match :: match_details where
  "demo_match =
     \<lparr>mdMapID = 11, mdMatchCreation = 0, mdMatchDuration = 120, mdMatchID = 5, mdMatchMode = ''CLASSIC'',
      mdMatchType = ''MATCHED_GAME'', mdMatchVersion = ''6.5'',
      mdIdentities = [\<lparr>idParticipantID = 1, idSummonerID = 11, idSummonerName = ''Ann''\<rparr>,
                      \<lparr>idParticipantID = 2, idSummonerID = 22, idSummonerName = ''Bob''\<rparr>,
                      \<lparr>idParticipantID = 6, idSummonerID = 66, idSummonerName = ''Cid''\<rparr>],
      mdParticipants = [demo_player 1 100 (demo_timeline ''TOP'' ''SOLO'' 7),
                        demo_player 2 100 (demo_timeline ''JUNGLE'' ''NONE'' 1),
                        demo_player 6 200 (demo_timeline ''TOP'' ''SOLO'' 5)],
      mdPlatformID = ''NA1'', mdQueueType = ''RANKED_SOLO_5x5'', mdRegion = ''NA'',
      mdTeams = replicate 2 \<lparr>teBaronKills = 0, teDragonKills = 1, teTowerKills = 2\<rparr>,
      mdFrames = [\<lparr>frEvents = [\<lparr>evType = ''CHAMPION_KILL'', evLevelUpType = [], evParticipantID = 0, evTimestamp = 40000,
                                evVictimID = 1\<rparr>], frLevels = [(''1'', 1)]\<rparr>]\<rparr>"

lemma demo_players:
  "playerAndParticipant demo_match 11 =
     Inr (\<lparr>idParticipantID = 1, idSummonerID = 11, idSummonerName = ''Ann''\<rparr>, demo_player 1 100 (demo_timeline ''TOP'' ''SOLO'' 7))"
  "playerAndParticipant demo_match 22 =
     Inr (\<lparr>idParticipantID = 2, idSummonerID = 22, idSummonerName = ''Bob''\<rparr>, demo_player 2 100 (demo_timeline ''JUNGLE'' ''NONE'' 1))"
  "playerAndParticipant demo_match 66 =
     Inr (\<lparr>idParticipantID = 6, idSummonerID = 66, idSummonerName = ''Cid''\<rparr>, demo_player 6 200 (demo_timeline ''TOP'' ''SOLO'' 5))"
  by (simp_all add: playerAndParticipant_def participantIdentity_def demo_match_def demo_player_def)

lemma basic_exists:
  assumes "playerAndParticipant m s = Inr (i, p)" "ComputeTeamSummaries m = Ok t"
  shows "\<exists>b. ComputeBasic m now s = Ok b"
  using assms by (simp add: ComputeBasic_def split: prod.splits)

lemma demo_summaries: "\<exists>t. ComputeTeamSummaries demo_match = Ok t"
  using summaries_total[of demo_match] by (auto simp: demo_match_def)

lemma demo_deaths:
  "deathSpawnTimes demo_match 1 = [(40, 50)]" "deathSpawnTimes demo_match 2 = []" "deathSpawnTimes demo_match 6 = []"
proof -
  have "show_int 1 = ''1''" by code_simp
  then show "deathSpawnTimes demo_match 1 = [(40, 50)]" "deathSpawnTimes demo_match 2 = []" "deathSpawnTimes demo_match 6 = []"
    by (simp_all add: deathSpawnTimes_def demo_match_def deathEndSeconds_def Let_def)
qed

lemma basic_index: "ComputeBasic m now s = Ok b \<Longrightarrow> playerAndParticipant m s = Inr (i, p) \<Longrightarrow> bsChampionIndex b = plParticipantID p"
  by (erule basic_parts) (auto simp: Let_def)

theorem dead_percentages_witness:
  "\<exists>b. ComputeBasic demo_match 0 11 = Ok b \<and> length (DeadPercentLast5 b) = 2 \<and>
     list_all (\<lambda>t. tpPercent t \<le> min 100 (tpTime t / 3)) (DeadPercentLast5 b) \<and> AverageDeathTimePercentage b \<le> 100"
proof -
  obtain b where b: "ComputeBasic demo_match 0 11 = Ok b"
    using basic_exists[OF demo_players(1)] demo_summaries by blast
  have "bsChampionIndex b = 1" using basic_index[OF b demo_players(1)] by (simp add: demo_player_def)
  then have "apart 0 (deathSpawnTimes demo_match (bsChampionIndex b))" by (simp add: demo_deaths)
  note d = dead_percentages[OF b this]
  have "mdMatchDuration demo_match = 120" by (simp add: demo_match_def)
  with b d show ?thesis by (simp add: list_all_iff)
qed

theorem respawn_drops_witness:
  "deathEndSeconds 3211 18 - 3211 < deathEndSeconds 3210 18 - 3210"
  using respawn_drops(3)[of 3211 18] by simp

lemma demo_lanes:
  "computeLaneMatchup (demo_player 1 100 (demo_timeline ''TOP'' ''SOLO'' 7)) (mdParticipants demo_match) =
     ([demo_player 1 100 (demo_timeline ''TOP'' ''SOLO'' 7)], [demo_player 6 200 (demo_timeline ''TOP'' ''SOLO'' 5)])"
  by (simp add: computeLaneMatchup_def demo_match_def demo_player_def demo_timeline_def)

theorem lane_opponents_mirror_witness:
  "\<exists>b1 b2. ComputeBasic demo_match 0 11 = Ok b1 \<and> ComputeBasic demo_match 0 66 = Ok b2 \<and>
     lane_diffs b2 = map (map_option uminus) (lane_diffs b1)"
proof -
  obtain b1 b2 where b: "ComputeBasic demo_match 0 11 = Ok b1" "ComputeBasic demo_match 0 66 = Ok b2"
    using basic_exists[OF demo_players(1)] basic_exists[OF demo_players(3)] demo_summaries by blast
  have "distinct (mdParticipants demo_match)" by (simp add: demo_match_def demo_player_def)
  moreover have "\<forall>c\<in>set (mdParticipants demo_match). plTeamID c = 100 \<or> plTeamID c = 200"
    by (simp add: demo_match_def demo_player_def)
  moreover have "\<forall>c\<in>set (mdParticipants demo_match). plTeamID c = plTeamID (demo_player 1 100 (demo_timeline ''TOP'' ''SOLO'' 7)) \<and>
      tlLane (plTimeline c) = tlLane (plTimeline (demo_player 1 100 (demo_timeline ''TOP'' ''SOLO'' 7))) \<and>
      tlRole (plTimeline c) = tlRole (plTimeline (demo_player 1 100 (demo_timeline ''TOP'' ''SOLO'' 7))) \<longrightarrow>
      c = demo_player 1 100 (demo_timeline ''TOP'' ''SOLO'' 7)"
    by (simp add: demo_match_def demo_player_def demo_timeline_def)
  ultimately show ?thesis
    using b lane_opponents_mirror[OF b demo_players(1,3) demo_lanes] by blast
qed

theorem no_opponent_no_average_witness:
  "\<exists>b e. ComputeBasic demo_match 0 22 = Ok b \<and> AverageBasicStats [b] = Panic e"
proof -
  obtain b where b: "ComputeBasic demo_match 0 22 = Ok b"
    using basic_exists[OF demo_players(2)] demo_summaries by blast
  have "\<forall>c\<in>set (mdParticipants demo_match). tlLane (plTimeline c) = tlLane (plTimeline (demo_player 2 100 (demo_timeline ''JUNGLE'' ''NONE'' 1))) \<longrightarrow>
      plTeamID c = plTeamID (demo_player 2 100 (demo_timeline ''JUNGLE'' ''NONE'' 1))"
    by (simp add: demo_match_def demo_player_def demo_timeline_def)
  from no_opponent_no_average(2)[OF b demo_players(2) this, of "[b]"] b show ?thesis by auto
qed

definition two_diffs :: "real \<Rightarrow> basic_stats" where
  "two_diffs x = zero_stats\<lparr>bsKills := 3, CSPerMinuteDiffZeroToTen := Some x, GoldDiffZeroToTen := Some 0,
     GoldDiffTenToTwenty := Some 0, GoldDiffTwentyToThirty := Some 0, Level6DiffSeconds := Some 0\<rparr>"

theorem average_is_mean_witness:
  "\<exists>a bs'. AverageBasicStats [two_diffs 2, two_diffs 4] = Ok (a, bs') \<and> diff_at 0 a = 3 \<and> bsKills a = 3"
proof -
  have "\<forall>b\<in>set [two_diffs 2, two_diffs 4]. None \<notin> set (lane_diffs b) \<and> length (DeadPercentLast5 b) = 0"
    by (simp add: two_diffs_def lane_diffs_def zero_stats_def)
  from average_is_mean[OF _ this] obtain a bs' where a: "AverageBasicStats [two_diffs 2, two_diffs 4] = Ok (a, bs')"
      "\<forall>f\<in>set rounded_fields. f a = Round (real_of_int (sum_list (map f [two_diffs 2, two_diffs 4])) / 2)"
      "\<forall>i<5. diff_at i a = sum_list (map (diff_at i) [two_diffs 2, two_diffs 4]) / 2"
    by auto
  have "diff_at 0 a = 3" using spec[OF a(3), of 0] by (simp add: diff_at_def lane_diffs_def two_diffs_def)
  moreover have "bsKills a = 3" using a(2) by (simp add: rounded_fields_def Round_def two_diffs_def)
  ultimately show ?thesis using a(1) by blast
qed

end
