(* ===== verification/Stats_Ingesters.thy ===== *)
theory Stats_Ingesters
  imports Basic_Stats Ingest_Advanced Elo_Runner Goals_Update
begin

text \<open>
  The two jobs that compute and store statistics:
  \<open>lolstats-master/cmd/basic_stats_ingester\<close> (one message for each player of a downloaded match) and
  \<open>lolstats-master/cmd/advanced_stats_ingester\<close> (one for each player of a baseview).

  \<open>ingest_env\<close> holds the parameters: how each call ends (the local files too), the lease of the
  message, what the downloads give, the answer of the Riot proxy, and the clock. The worlds are
  the rows of the datastore, the files of the store and the messages for the goals updater.
  The advanced statistics are taken to have a JSON form; for the basic ones see \<open>UploadBasicStats\<close>.
\<close>

subsection \<open>Ranks\<close>

definition tier_ord :: "string \<Rightarrow> int" where
  "tier_ord t =
     (if t = ''BRONZE'' then 1 else if t = ''SILVER'' then 2 else if t = ''GOLD'' then 3
      else if t = ''PLATINUM'' then 4 else if t = ''DIAMOND'' then 5 else if t = ''MASTER'' then 6
      else if t = ''CHALLENGER'' then 7 else 0)"

definition division_ord :: "string \<Rightarrow> int" where
  "division_ord d =
     (if d = ''V'' then 1 else if d = ''IV'' then 2 else if d = ''III'' then 3
      else if d = ''II'' then 4 else if d = ''I'' then 5 else 0)"

definition isHigherRank :: "string \<Rightarrow> string \<Rightarrow> string \<Rightarrow> string \<Rightarrow> bool" where
  "isHigherRank t1 d1 t2 d2 \<longleftrightarrow>
     (if tier_ord t1 > tier_ord t2 then True
      else tier_ord t1 = tier_ord t2 \<and> division_ord d1 > division_ord d2)"

record league =
  lgQueue :: string
  lgTier :: string
  lgDivisions :: "string list"

definition counted_league :: "league \<Rightarrow> bool" where
  "counted_league l \<longleftrightarrow> lgQueue l = ''RANKED_SOLO_5x5'' \<or> lgQueue l = ''RANKED_FLEX_SR''"

definition league_rank :: "league \<Rightarrow> string \<times> string" where
  "league_rank l = (lgTier l, if lgDivisions l = [] then [] else List.last (lgDivisions l))"

definition rank_step :: "league \<Rightarrow> string \<times> string \<Rightarrow> string \<times> string" where
  "rank_step l best =
     (if \<not> counted_league l then best
      else case (league_rank l, best) of ((curTier, curDivision), (tier, division)) \<Rightarrow>
        if (tier = [] \<and> division = []) \<or> isHigherRank curTier curDivision tier division
        then (curTier, curDivision) else (tier, division))"

definition best_rank :: "league list \<Rightarrow> string \<times> string" where
  "best_rank leagues = fold rank_step leagues ([], [])"

text \<open>\<open>strings.Contains\<close>.\<close>

definition contains :: "string \<Rightarrow> string \<Rightarrow> bool" where
  "contains s part \<longleftrightarrow> sublist part s"

subsection \<open>State and parameters\<close>

record basic_message = Dispatch.basic_ingest +
  biOverride :: bool

record advanced_message = advanced_ingest +
  aiOverride :: bool

record stats_world =
  historyRows :: "(string \<times> history_row) list"
  basicFiles :: "(string \<times> basic_stats) list"
  advancedFiles :: "(string \<times> advanced_stats) list"
  bqAdvanced :: "string list"
  goalsTopic :: "goals_update list"
  ingops :: nat

record ingest_env =
  in_fate :: "nat \<Rightarrow> fate"
  in_lease :: "nat \<Rightarrow> string option"
  in_match :: "nat \<Rightarrow> string \<Rightarrow> string + match_details"
  in_leagues :: "nat \<Rightarrow> string \<Rightarrow> int \<Rightarrow> string + (string \<times> league list) list"
  in_baseview :: "nat \<Rightarrow> string \<Rightarrow> string + baseview_doc"
  in_now :: "nat \<Rightarrow> int"
  BasicStatsStoreLocation :: string
  BqImportLocation :: string
  advancedOutputDir :: string
  bqOutputDir :: string

definition itick :: "stats_world \<Rightarrow> stats_world" where
  "itick w = w\<lparr>ingops := Suc (ingops w)\<rparr>"

definition icall :: "ingest_env \<Rightarrow> (stats_world \<Rightarrow> stats_world) \<Rightarrow> stats_world \<Rightarrow> string option \<times> stats_world" where
  "icall e eff w =
     (case answer_of (in_fate e (ingops w)) () of Inl err \<Rightarrow> Some err | Inr _ \<Rightarrow> None,
      itick (effect_of (in_fate e (ingops w)) eff w))"

definition ctx_err :: "ingest_env \<Rightarrow> stats_world \<Rightarrow> unit outcome" where
  "ctx_err e w = (case in_lease e (ingops w) of Some err \<Rightarrow> Err err | None \<Rightarrow> Ok ())"

subsection \<open>Basic statistics\<close>

definition FetchCachedMatch :: "ingest_env \<Rightarrow> string \<Rightarrow> stats_world \<Rightarrow> (string + match_details) \<times> stats_world" where
  "FetchCachedMatch e path w = (in_match e (ingops w) path, itick w)"

definition FetchRank :: "ingest_env \<Rightarrow> int \<Rightarrow> string \<Rightarrow> stats_world \<Rightarrow> (string + string \<times> string) \<times> stats_world" where
  "FetchRank e summonerID platform w =
     (case in_leagues e (ingops w) (region_string (RegionFromPlatform platform)) summonerID of
        Inl err \<Rightarrow> (if contains err ''code: 404'' then Inr (''BRONZE'', ''V'') else Inl err, itick w)
      | Inr leagues \<Rightarrow> (Inr (best_rank (concat (map snd leagues))), itick w))"

definition row_key :: "match_details \<Rightarrow> int \<Rightarrow> string" where
  "row_key m summonerID = show_int (mdMatchID m) @ ''-'' @ to_lower (mdRegion m) @ ''-'' @ show_int summonerID"

definition writeToGCD ::
  "ingest_env \<Rightarrow> match_details \<Rightarrow> history_row \<Rightarrow> int \<Rightarrow> stats_world \<Rightarrow> (string + bool) \<times> stats_world" where
  "writeToGCD e m row summonerID w =
     (let key = row_key m summonerID in
      case icall e (\<lambda>w. w) w of
        (Some err, w1) \<Rightarrow> (Inl err, w1)
      | (None, w1) \<Rightarrow>
          if map_of (historyRows w1) key \<noteq> None then (Inr True, w1)
          else (case icall e (\<lambda>w. w\<lparr>historyRows := AList.update key row (historyRows w)\<rparr>) w1 of
            (Some err, w2) \<Rightarrow> (Inl err, w2)
          | (None, w2) \<Rightarrow> (Inr False, w2)))"

definition basic_file :: "string \<Rightarrow> basic_stats \<Rightarrow> string" where
  "basic_file dest s =
     dest @ ''/'' @ show_int (bsMatchID s) @ ''-'' @ bsPlatformID s @ ''-'' @ show_int (bsSummonerID s) @ ''.basic.json''"

text \<open>
  \<open>vjson.Compress\<close> fails on a number that is not one, which is what the average over no data points
  is. A match of a minute or more has no such number among its basic statistics.
\<close>

definition UploadBasicStats :: "ingest_env \<Rightarrow> basic_stats \<Rightarrow> string \<Rightarrow> stats_world \<Rightarrow> string option \<times> stats_world" where
  "UploadBasicStats e stats dest w =
     (if no_data_points (bsMatchDuration stats) then (Some ''json: unsupported value: NaN'', w)
      else case icall e (\<lambda>w. w) w of
        (Some err, w1) \<Rightarrow> (Some err, w1)
      | (None, w1) \<Rightarrow> icall e (\<lambda>w. w\<lparr>basicFiles := AList.update (basic_file dest stats) stats (basicFiles w)\<rparr>) w1)"

definition store_basic :: "ingest_env \<Rightarrow> basic_stats \<Rightarrow> stats_world \<Rightarrow> unit outcome \<times> stats_world" where
  "store_basic e stats w =
     (case UploadBasicStats e stats (BasicStatsStoreLocation e) w of
        (Some err, w1) \<Rightarrow> (Err err, w1)
      | (None, w1) \<Rightarrow>
     (case UploadBasicStats e (TrimNonStats stats) (BqImportLocation e) w1 of
        (Some err, w2) \<Rightarrow> (Err err, w2)
      | (None, w2) \<Rightarrow> (Ok (), w2)))"

definition basic_after_row ::
  "ingest_env \<Rightarrow> basic_message \<Rightarrow> match_details \<Rightarrow> string \<times> string \<Rightarrow> bool \<Rightarrow> stats_world \<Rightarrow> unit outcome \<times> stats_world" where
  "basic_after_row e msg m rank found w =
     (if found \<and> \<not> biOverride msg then (ctx_err e w, w)
      else case ComputeBasic m (in_now e (ingops w)) (biSummonerId msg) of
        Panic p \<Rightarrow> (Panic p, w)
      | Err err \<Rightarrow> (Err (''cant generate basic stats: '' @ err), w)
      | Ok stats \<Rightarrow> store_basic e (stats\<lparr>bsTier := fst rank, bsDivision := snd rank\<rparr>) w)"

text \<open>The handler, for a message that was decoded. The first call makes the directory for the task.\<close>

definition Handle_basic :: "ingest_env \<Rightarrow> basic_message \<Rightarrow> stats_world \<Rightarrow> unit outcome \<times> stats_world" where
  "Handle_basic e msg w =
     (if \<not> Dispatch.LolBasicStatsIngest_Valid (Dispatch.basic_ingest.truncate msg) then (Err ''invalid message'', w)
      else case icall e (\<lambda>w. w) w of
        (Some err, w0) \<Rightarrow> (Err err, w0)
      | (None, w0) \<Rightarrow>
     (case FetchCachedMatch e (biMatchDetailsPath msg) w0 of
        (Inl err, w1) \<Rightarrow> (Err err, w1)
      | (Inr m, w1) \<Rightarrow>
     (case ComputeHistory m (biSummonerId msg) of
        Inl err \<Rightarrow> (Err err, w1)
      | Inr row \<Rightarrow>
     (case FetchRank e (biSummonerId msg) (PlatformFromString (biPlatformId msg)) w1 of
        (Inl err, w2) \<Rightarrow> (Err (''couldn't get rank info: '' @ err), w2)
      | (Inr rank, w2) \<Rightarrow>
     (case writeToGCD e m row (biSummonerId msg) w2 of
        (Inl err, w3) \<Rightarrow> (Err err, w3)
      | (Inr found, w3) \<Rightarrow> basic_after_row e msg m rank found w3)))))"

subsection \<open>Advanced statistics\<close>

definition LolAdvancedStatsIngest_Valid :: "advanced_ingest \<Rightarrow> bool" where
  "LolAdvancedStatsIngest_Valid l \<longleftrightarrow>
     \<not> (aiMatchId l = 0 \<or> aiPlatformId l = [] \<or> aiSummonerId l = 0 \<or> aiBaseviewType l = [] \<or> aiBaseviewPath l = [])"

primrec role_string :: "role \<Rightarrow> string" where
  "role_string RoleTop = ''top''"
| "role_string RoleMid = ''mid''"
| "role_string RoleAdc = ''adc''"
| "role_string RoleJungle = ''jng''"
| "role_string RoleSupport = ''sup''"

definition advanced_file :: "advanced_message \<Rightarrow> string" where
  "advanced_file msg =
     show_int (aiMatchId msg) @ ''-'' @ PlatformFromString (aiPlatformId msg) @ ''-'' @ show_int (aiSummonerId msg) @
     ''.advanced.json''"

text \<open>Write, compress, copy.\<close>

definition zipAndUpload :: "ingest_env \<Rightarrow> (stats_world \<Rightarrow> stats_world) \<Rightarrow> stats_world \<Rightarrow> string option \<times> stats_world" where
  "zipAndUpload e eff w =
     (case icall e (\<lambda>w. w) w of
        (Some err, w1) \<Rightarrow> (Some err, w1)
      | (None, w1) \<Rightarrow>
     (case icall e (\<lambda>w. w) w1 of
        (Some err, w2) \<Rightarrow> (Some err, w2)
      | (None, w2) \<Rightarrow> icall e eff w2))"

definition goal_message :: "advanced_stats \<Rightarrow> goals_update" where
  "goal_message stats =
     \<lparr>guMatchId = asMatchID stats, guPlatformId = asPlatformID stats, guSummonerId = asSummonerID stats,
      guRolePosition = (case asRolePosition stats of None \<Rightarrow> [] | Some r \<Rightarrow> role_string r), guChampionId = 0\<rparr>"

definition sendGoalUpdateMessage :: "ingest_env \<Rightarrow> advanced_stats \<Rightarrow> stats_world \<Rightarrow> string option \<times> stats_world" where
  "sendGoalUpdateMessage e stats w = icall e (\<lambda>w. w\<lparr>goalsTopic := goalsTopic w @ [goal_message stats]\<rparr>) w"

definition role_error :: "string \<Rightarrow> bool" where
  "role_error err \<longleftrightarrow> has_prefix err ''error in role position calculation''"

definition store_advanced :: "ingest_env \<Rightarrow> advanced_message \<Rightarrow> advanced_stats \<Rightarrow> stats_world \<Rightarrow> unit outcome \<times> stats_world" where
  "store_advanced e msg stats w =
     (let remotePath = advancedOutputDir e @ ''/'' @ advanced_file msg;
          bqRemotePath = bqOutputDir e @ ''/'' @ advanced_file msg in
      case zipAndUpload e (\<lambda>w. w\<lparr>advancedFiles := AList.update remotePath stats (advancedFiles w)\<rparr>) w of
        (Some err, w1) \<Rightarrow> (Err err, w1)
      | (None, w1) \<Rightarrow>
     (case zipAndUpload e (\<lambda>w. w\<lparr>bqAdvanced := bqRemotePath # bqAdvanced w\<rparr>) w1 of
        (Some err, w2) \<Rightarrow> (Err err, w2)
      | (None, w2) \<Rightarrow>
     (case sendGoalUpdateMessage e stats w2 of
        (Some err, w3) \<Rightarrow> (Err err, w3)
      | (None, w3) \<Rightarrow> (ctx_err e w3, w3))))"

definition advanced_afresh :: "ingest_env \<Rightarrow> advanced_message \<Rightarrow> stats_world \<Rightarrow> unit outcome \<times> stats_world" where
  "advanced_afresh e msg w =
     (case icall e (\<lambda>w. w) w of
        (Some err, w1) \<Rightarrow> (Err err, w1)
      | (None, w1) \<Rightarrow>
     (case in_baseview e (ingops w1) (aiBaseviewPath msg) of
        Inl err \<Rightarrow> (Err err, itick w1)
      | Inr bv \<Rightarrow>
     (case ComputeAdvanced (bvEvents bv) (bvParticipants bv) (aiSummonerId msg) (aiMatchId msg)
             (PlatformFromString (aiPlatformId msg)) of
        Panic p \<Rightarrow> (Panic p, itick w1)
      | Err err \<Rightarrow> (if role_error err then Ok () else Err err, itick w1)
      | Ok stats \<Rightarrow> store_advanced e msg stats (itick w1))))"

definition Handle_advanced :: "ingest_env \<Rightarrow> advanced_message \<Rightarrow> stats_world \<Rightarrow> unit outcome \<times> stats_world" where
  "Handle_advanced e msg w =
     (if \<not> LolAdvancedStatsIngest_Valid (advanced_ingest.truncate msg) then (Err ''invalid message'', w)
      else if aiSummonerId msg = -32 then (Ok (), w)
      else let remotePath = advancedOutputDir e @ ''/'' @ advanced_file msg in
      case icall e (\<lambda>w. w) w of
        (Some err, w1) \<Rightarrow> (Err err, w1)
      | (None, w1) \<Rightarrow>
          if map_of (advancedFiles w1) remotePath \<noteq> None \<and> \<not> aiOverride msg then (ctx_err e w1, w1)
          else advanced_afresh e msg w1)"

subsection \<open>The best rank\<close>

definition rank_le :: "string \<times> string \<Rightarrow> string \<times> string \<Rightarrow> bool" where
  "rank_le a b \<longleftrightarrow> tier_ord (fst a) < tier_ord (fst b) \<or>
     tier_ord (fst a) = tier_ord (fst b) \<and> division_ord (snd a) \<le> division_ord (snd b)"

lemma ords_nonneg: "0 \<le> tier_ord t" "0 \<le> division_ord d"
  by (simp_all add: tier_ord_def division_ord_def)

lemma rank_step_le:
  "rank_le best (rank_step l best)" "counted_league l \<Longrightarrow> rank_le (league_rank l) (rank_step l best)"
  "rank_step l best = best \<or> counted_league l \<and> rank_step l best = league_rank l"
  using ords_nonneg
  by (auto simp: rank_step_def rank_le_def isHigherRank_def order_less_le split: prod.splits)
    (auto simp: tier_ord_def division_ord_def split: if_splits)

lemma rank_le_trans: "rank_le a b \<Longrightarrow> rank_le b c \<Longrightarrow> rank_le a c"
  by (auto simp: rank_le_def)

text \<open>
  the rank that is stored with the statistics is the player's best in the two queues that count,
  in whatever order the leagues come.
\<close>

theorem best_rank_is_best:
  shows "counted_league l \<Longrightarrow> l \<in> set leagues \<Longrightarrow> rank_le (league_rank l) (best_rank leagues)"
    and "best_rank leagues = ([], []) \<or> (\<exists>l\<in>set leagues. counted_league l \<and> best_rank leagues = league_rank l)"
proof -
  have grow: "rank_le best (fold rank_step ls best)" for ls best
  proof (induction ls arbitrary: best)
    case (Cons k ks)
    show ?case using rank_le_trans[OF rank_step_le(1) Cons.IH] by simp
  qed (simp add: rank_le_def)
  have "rank_le (league_rank l) (fold rank_step ls best)" if "counted_league l" "l \<in> set ls" for ls best
    using that
  proof (induction ls arbitrary: best)
    case (Cons k ks)
    then show ?case using rank_le_trans[OF rank_step_le(2)[of l best] grow] by (cases "l = k") auto
  qed simp
  then show "counted_league l \<Longrightarrow> l \<in> set leagues \<Longrightarrow> rank_le (league_rank l) (best_rank leagues)"
    by (simp add: best_rank_def)
  have "fold rank_step ls best = best \<or> (\<exists>l\<in>set ls. counted_league l \<and> fold rank_step ls best = league_rank l)" for ls best
  proof (induction ls arbitrary: best)
    case (Cons k ks)
    show ?case using Cons.IH[of "rank_step k best"] rank_step_le(3)[of k best] by auto
  qed simp
  then show "best_rank leagues = ([], []) \<or> (\<exists>l\<in>set leagues. counted_league l \<and> best_rank leagues = league_rank l)"
    by (simp add: best_rank_def)
qed

subsection \<open>Calls\<close>

lemma itick_fields [simp]:
  "historyRows (itick w) = historyRows w" "basicFiles (itick w) = basicFiles w"
  "advancedFiles (itick w) = advancedFiles w" "bqAdvanced (itick w) = bqAdvanced w" "goalsTopic (itick w) = goalsTopic w"
  by (simp_all add: itick_def)

lemma icall_cases:
  assumes "icall e eff w = (r, w')"
  shows "w' = itick w \<and> r \<noteq> None \<or> w' = itick (eff w)"
  using assms by (cases "in_fate e (ingops w)") (auto simp: icall_def)

lemma icall_None: "icall e eff w = (None, w') \<Longrightarrow> w' = itick (eff w)"
  using icall_cases by fastforce

lemma icall_id: "icall e (\<lambda>w. w) w = (r, w') \<Longrightarrow> w' = itick w"
  using icall_cases by fastforce

lemma icall_id_ex: obtains r where "icall e (\<lambda>w. w) w = (r, itick w)"
  using icall_id by (metis surj_pair)

lemma icall_well: "in_fate e (ingops w) = Done \<Longrightarrow> icall e eff w = (None, itick (eff w))"
  by (simp add: icall_def)

subsection \<open>A history row ends the retries\<close>

lemma FetchRank_ex: obtains rank where "FetchRank e s p w = (rank, itick w)"
  by (cases "in_leagues e (ingops w) (region_string (RegionFromPlatform p)) s") (simp_all add: FetchRank_def)

lemma basic_row_found:
  assumes "map_of (historyRows w) (row_key m (biSummonerId msg)) \<noteq> None" "\<not> biOverride msg"
    and "\<forall>n. in_match e n (biMatchDetailsPath msg) = Inr m" "Handle_basic e msg w = (r, w')"
  shows "basicFiles w' = basicFiles w \<and> historyRows w' = historyRows w"
proof (cases "LolBasicStatsIngest_Valid (Dispatch.basic_ingest.truncate msg)")
  case True
  obtain r0 where c0: "icall e (\<lambda>w. w) w = (r0, itick w)" by (rule icall_id_ex)
  have f: "FetchCachedMatch e (biMatchDetailsPath msg) (itick w) = (Inr m, itick (itick w))"
    using assms(3) by (simp add: FetchCachedMatch_def)
  let ?w2 = "itick (itick (itick w))"
  obtain rank where k: "FetchRank e (biSummonerId msg) (PlatformFromString (biPlatformId msg)) (itick (itick w)) = (rank, ?w2)"
    by (rule FetchRank_ex)
  obtain r3 where c3: "icall e (\<lambda>w. w) ?w2 = (r3, itick ?w2)" by (rule icall_id_ex)
  show ?thesis
    using assms(4) True assms(1,2)
    by (cases "ComputeHistory m (biSummonerId msg)")
      (auto simp: Handle_basic_def c0 f k writeToGCD_def c3 basic_after_row_def Let_def
        split: option.splits sum.splits)
qed (use assms(4) in \<open>simp add: Handle_basic_def\<close>)

definition redeliver_basic :: "ingest_env list \<Rightarrow> basic_message \<Rightarrow> stats_world \<Rightarrow> stats_world" where
  "redeliver_basic es msg w = fold (\<lambda>e w. snd (Handle_basic e msg w)) es w"

lemma redeliver_row_found:
  assumes "map_of (historyRows w) (row_key m (biSummonerId msg)) \<noteq> None" "\<not> biOverride msg"
    and "\<forall>e\<in>set es. \<forall>n. in_match e n (biMatchDetailsPath msg) = Inr m"
  shows "basicFiles (redeliver_basic es msg w) = basicFiles w"
  using assms(1,3)
proof (induction es arbitrary: w)
  case (Cons e es)
  obtain r w' where h: "Handle_basic e msg w = (r, w')" by fastforce
  have "basicFiles w' = basicFiles w \<and> historyRows w' = historyRows w"
    using basic_row_found[OF Cons.prems(1) assms(2) _ h] Cons.prems(2) by simp
  then show ?case using Cons.IH[of w'] Cons.prems h by (simp add: redeliver_basic_def)
qed (simp add: redeliver_basic_def)

lemma upload_rows: "UploadBasicStats e s dest w = (r, w') \<Longrightarrow> historyRows w' = historyRows w"
proof -
  assume u: "UploadBasicStats e s dest w = (r, w')"
  obtain r1 w1 where c1: "icall e (\<lambda>w. w) w = (r1, w1)" by fastforce
  have w1: "w1 = itick w" by (rule icall_id[OF c1])
  show ?thesis
    using u icall_cases[of e "\<lambda>w. w\<lparr>basicFiles := AList.update (basic_file dest s) s (basicFiles w)\<rparr>" w1 r w']
    by (auto simp: UploadBasicStats_def c1 w1 split: if_splits option.splits)
qed

lemma after_row_rows: "basic_after_row e msg m rank found w = (r, w') \<Longrightarrow> historyRows w' = historyRows w"
proof -
  have st: "store_basic e s w = (r, w') \<Longrightarrow> historyRows w' = historyRows w" for s
    by (auto simp: store_basic_def split: prod.splits option.splits dest!: upload_rows)
  show "basic_after_row e msg m rank found w = (r, w') \<Longrightarrow> historyRows w' = historyRows w"
    by (auto simp: basic_after_row_def split: if_splits outcome.splits dest: st)
qed

lemma history_row_added:
  assumes "Handle_basic e msg w = (r, w')" "\<forall>n. in_match e n (biMatchDetailsPath msg) = Inr m"
  shows "historyRows w' = historyRows w \<or> map_of (historyRows w') (row_key m (biSummonerId msg)) \<noteq> None"
proof (cases "LolBasicStatsIngest_Valid (Dispatch.basic_ingest.truncate msg)")
  case True
  obtain r0 where c0: "icall e (\<lambda>w. w) w = (r0, itick w)" by (rule icall_id_ex)
  have f: "FetchCachedMatch e (biMatchDetailsPath msg) (itick w) = (Inr m, itick (itick w))"
    using assms(2) by (simp add: FetchCachedMatch_def)
  obtain rank w2 where k: "FetchRank e (biSummonerId msg) (PlatformFromString (biPlatformId msg)) (itick (itick w)) = (rank, w2)" by fastforce
  have w2: "historyRows w2 = historyRows w" using k by (auto simp: FetchRank_def split: sum.splits)
  have g: "historyRows w3 = historyRows w2 \<or> map_of (historyRows w3) (row_key m (biSummonerId msg)) \<noteq> None"
    if "writeToGCD e m row (biSummonerId msg) w2 = (x, w3)" for row x w3
  proof -
    obtain r1 w1 where c1: "icall e (\<lambda>w. w) w2 = (r1, w1)" by fastforce
    have w1: "w1 = itick w2" by (rule icall_id[OF c1])
    obtain r4 w4 where c4: "icall e (\<lambda>w. w\<lparr>historyRows := AList.update (row_key m (biSummonerId msg)) row (historyRows w)\<rparr>) w1 = (r4, w4)"
      by fastforce
    show ?thesis using that icall_cases[OF c4] by (auto simp: writeToGCD_def Let_def c1 w1 c4[unfolded w1] split: option.splits if_splits)
  qed
  show ?thesis
    using assms(1) True w2
    by (auto simp: Handle_basic_def c0 f k split: option.splits sum.splits prod.splits dest!: g after_row_rows)
qed (use assms(1) in \<open>simp add: Handle_basic_def\<close>)

text \<open>
  the history row is written before the statistics. When a run fails after that, redelivering the
  message acknowledges it because of the row, and the statistics are never stored.
\<close>

theorem failed_upload_lost:
  assumes "Handle_basic e msg w = (Err err, w1)" "historyRows w1 \<noteq> historyRows w" "basicFiles w1 = basicFiles w"
    and "\<not> biOverride msg" "\<forall>e'\<in>set (e # es). \<forall>n. in_match e' n (biMatchDetailsPath msg) = Inr m"
  shows "basicFiles (redeliver_basic es msg w1) = basicFiles w"
proof -
  have "map_of (historyRows w1) (row_key m (biSummonerId msg)) \<noteq> None"
    using history_row_added[OF assms(1)] assms(2,5) by auto
  from redeliver_row_found[OF this assms(4)] assms(3,5) show ?thesis by simp
qed


subsection \<open>A stored file ends the retries\<close>

definition redeliver_advanced :: "ingest_env list \<Rightarrow> advanced_message \<Rightarrow> stats_world \<Rightarrow> stats_world" where
  "redeliver_advanced es msg w = fold (\<lambda>e w. snd (Handle_advanced e msg w)) es w"

lemma advanced_file_found:
  assumes "map_of (advancedFiles w) (advancedOutputDir e @ ''/'' @ advanced_file msg) \<noteq> None" "\<not> aiOverride msg"
  shows "snd (Handle_advanced e msg w) \<in> {w, itick w}"
proof -
  obtain r0 where c0: "icall e (\<lambda>w. w) w = (r0, itick w)" by (rule icall_id_ex)
  show ?thesis using assms by (auto simp: Handle_advanced_def c0 Let_def split: option.splits)
qed

lemma redeliver_file_found:
  assumes "map_of (advancedFiles w) (dir @ ''/'' @ advanced_file msg) \<noteq> None" "\<not> aiOverride msg"
    and "\<forall>e\<in>set es. advancedOutputDir e = dir"
  shows "goalsTopic (redeliver_advanced es msg w) = goalsTopic w \<and> bqAdvanced (redeliver_advanced es msg w) = bqAdvanced w"
  using assms(1,3)
proof (induction es arbitrary: w)
  case (Cons e es)
  have s: "snd (Handle_advanced e msg w) \<in> {w, itick w}"
    using advanced_file_found[of w e msg] Cons.prems assms(2) by simp
  then show ?case using Cons.IH[of w] Cons.IH[of "itick w"] Cons.prems by (auto simp: redeliver_advanced_def)
qed (simp add: redeliver_advanced_def)

lemma zip_cases:
  assumes "zipAndUpload e eff w = (r, w')"
  shows "(\<exists>n. w' = (itick ^^ n) w) \<and> r \<noteq> None \<or> w' = itick (eff (itick (itick w)))"
proof -
  obtain r1 where c1: "icall e (\<lambda>w. w) w = (r1, itick w)" by (rule icall_id_ex)
  obtain r2 where c2: "icall e (\<lambda>w. w) (itick w) = (r2, itick (itick w))" by (rule icall_id_ex)
  have n: "itick w = (itick ^^ 1) w" "itick (itick w) = (itick ^^ 2) w" "itick (itick (itick w)) = (itick ^^ 3) w"
    by (simp_all add: eval_nat_numeral)
  show ?thesis using assms icall_cases[of e eff "itick (itick w)" r w']
    by (cases r1; cases r2) (auto simp: zipAndUpload_def c1 c2 intro: exI[of _ 1] exI[of _ 2] exI[of _ 3] simp: eval_nat_numeral)
qed

lemma ticks_fields [simp]:
  "advancedFiles ((itick ^^ n) w) = advancedFiles w" "goalsTopic ((itick ^^ n) w) = goalsTopic w" "bqAdvanced ((itick ^^ n) w) = bqAdvanced w"
  by (induction n) simp_all

text \<open>What a run of the handler can have done.\<close>

lemma advanced_effect:
  assumes "Handle_advanced e msg w = (r, w')"
  shows "(advancedFiles w' = advancedFiles w \<and> goalsTopic w' = goalsTopic w \<and> bqAdvanced w' = bqAdvanced w) \<or>
    (\<exists>n bv stats. in_baseview e n (aiBaseviewPath msg) = Inr bv \<and>
      LolAdvancedStatsIngest_Valid (advanced_ingest.truncate msg) \<and>
      ComputeAdvanced (bvEvents bv) (bvParticipants bv) (aiSummonerId msg) (aiMatchId msg) (PlatformFromString (aiPlatformId msg)) = Ok stats \<and>
      advancedFiles w' = AList.update (advancedOutputDir e @ ''/'' @ advanced_file msg) stats (advancedFiles w) \<and>
      (goalsTopic w' = goalsTopic w \<or> goalsTopic w' = goalsTopic w @ [goal_message stats] \<and>
        bqAdvanced w' = (bqOutputDir e @ ''/'' @ advanced_file msg) # bqAdvanced w))"
proof -
  have st: "(advancedFiles w2 = advancedFiles w1 \<and> goalsTopic w2 = goalsTopic w1 \<and> bqAdvanced w2 = bqAdvanced w1) \<or>
      advancedFiles w2 = AList.update (advancedOutputDir e @ ''/'' @ advanced_file msg) s (advancedFiles w1) \<and>
      (goalsTopic w2 = goalsTopic w1 \<or> goalsTopic w2 = goalsTopic w1 @ [goal_message s] \<and>
        bqAdvanced w2 = (bqOutputDir e @ ''/'' @ advanced_file msg) # bqAdvanced w1)"
    if "store_advanced e msg s w1 = (r2, w2)" for s w1 r2 w2
  proof -
    obtain ra wa where a: "zipAndUpload e (\<lambda>w. w\<lparr>advancedFiles :=
        AList.update (advancedOutputDir e @ ''/'' @ advanced_file msg) s (advancedFiles w)\<rparr>) w1 = (ra, wa)" by fastforce
    obtain rb wb where b: "zipAndUpload e (\<lambda>w. w\<lparr>bqAdvanced := (bqOutputDir e @ ''/'' @ advanced_file msg) # bqAdvanced w\<rparr>) wa = (rb, wb)"
      by fastforce
    obtain rc wc where c: "sendGoalUpdateMessage e s wb = (rc, wc)" by fastforce
    have "w2 = (if ra \<noteq> None then wa else if rb \<noteq> None then wb else wc)"
      using that[unfolded store_advanced_def Let_def] a b c by (auto split: option.splits)
    then show ?thesis
      using zip_cases[OF a] zip_cases[OF b] icall_cases[OF c[unfolded sendGoalUpdateMessage_def]]
      by (cases ra; cases rb) auto
  qed
  obtain r0 where c0: "icall e (\<lambda>w. w) w = (r0, itick w)" by (rule icall_id_ex)
  obtain r1 where c1: "icall e (\<lambda>w. w) (itick w) = (r1, itick (itick w))" by (rule icall_id_ex)
  let ?w = "itick (itick w)"
  let ?run = "\<lambda>bv stats. in_baseview e (ingops ?w) (aiBaseviewPath msg) = Inr bv \<and>
      LolAdvancedStatsIngest_Valid (advanced_ingest.truncate msg) \<and>
      ComputeAdvanced (bvEvents bv) (bvParticipants bv) (aiSummonerId msg) (aiMatchId msg) (PlatformFromString (aiPlatformId msg)) = Ok stats \<and>
      store_advanced e msg stats (itick ?w) = (r, w')"
  show ?thesis
  proof (cases "\<exists>bv stats. ?run bv stats")
    case True
    then obtain bv stats where run: "?run bv stats" by blast
    then have "store_advanced e msg stats (itick ?w) = (r, w')" by simp
    from st[OF this] show ?thesis
    proof (elim disjE)
      assume "advancedFiles w' = advancedFiles (itick ?w) \<and> goalsTopic w' = goalsTopic (itick ?w) \<and> bqAdvanced w' = bqAdvanced (itick ?w)"
      then show ?thesis by simp
    qed (rule disjI2, intro exI[of _ "ingops ?w"] exI[of _ bv] exI[of _ stats], use run in simp)
  next
    case False
    then show ?thesis using assms
      by (auto simp: Handle_advanced_def advanced_afresh_def c0 c1 Let_def
          split: if_splits option.splits sum.splits outcome.splits)
  qed
qed

text \<open>
  C28: the statistics file is written before the query file and the message to the goals updater. When a
  run fails between them, redelivering the message acknowledges it because of the file, and the
  player's goals are never told of the match.
\<close>

theorem goal_message_lost:
  assumes "Handle_advanced e msg w = (Err err, w1)" "advancedFiles w1 \<noteq> advancedFiles w" "goalsTopic w1 = goalsTopic w"
    and "\<not> aiOverride msg" "list_all (\<lambda>e'. advancedOutputDir e' = advancedOutputDir e) es"
  shows "goalsTopic (redeliver_advanced es msg w1) = goalsTopic w \<and> bqAdvanced (redeliver_advanced es msg w1) = bqAdvanced w1"
proof -
  obtain stats where "advancedFiles w1 = AList.update (advancedOutputDir e @ ''/'' @ advanced_file msg) stats (advancedFiles w)"
    using advanced_effect[OF assms(1)] assms(2) by auto
  then have "map_of (advancedFiles w1) (advancedOutputDir e @ ''/'' @ advanced_file msg) \<noteq> None"
    by (simp add: update_conv')
  from redeliver_file_found[OF this assms(4), of es] assms(3,5) show ?thesis
    by (simp add: list_all_iff)
qed

subsection \<open>The goals updater accepts the message\<close>

lemma build_in: "buildPIDMap ps s = (byPID, Some p) \<Longrightarrow> p \<in> set ps"
proof -
  have step: "snd (fold (\<lambda>t (byPID, q). (AList.update (ParticipantID t) t byPID, if pSummonerID t = s then Some t else q)) xs (b, q)) = Some p
      \<Longrightarrow> q = Some p \<or> p \<in> set xs" for xs b q
  proof (induction xs arbitrary: b q)
    case (Cons x xs)
    then show ?case
      using Cons.IH[of "AList.update (ParticipantID x) x b" "if pSummonerID x = s then Some x else q"]
      by (simp split: if_splits) blast+
  qed simp
  then show "buildPIDMap ps s = (byPID, Some p) \<Longrightarrow> p \<in> set ps"
    unfolding buildPIDMap_def using step[of ps "[]" None] by auto
qed

lemma computed_identity:
  assumes "ComputeAdvanced events ps sid mid plat = Ok res" "\<And>q. q \<in> set ps \<Longrightarrow> ParticipantID q \<in> {1..10}"
  shows "asMatchID res = mid \<and> asPlatformID res = plat \<and> asSummonerID res = sid \<and> asRolePosition res \<noteq> None"
proof -
  obtain byPID q where b: "buildPIDMap ps sid = (byPID, q)" by fastforce
  then obtain p where p: "buildPIDMap ps sid = (byPID, Some p)" using assms(1) by (cases q) (auto simp: ComputeAdvanced_def)
  obtain a roles where r: "CalculateRolePosition (Minions a) (Buddies a) = Inr roles"
    and res: "res = adv_finish p byPID (Baseview.MatchDuration events) sid mid plat roles a"
    by (rule compute_loop [OF assms(1) p])
  obtain r9 where "roles = fill_top r9"
    using r by (auto simp: CalculateRolePosition_def Let_def split: if_splits)
  then have "map_of roles (ParticipantID p) \<noteq> None"
    using assms(2)[OF build_in[OF p]] by (auto simp: fill_top_lookup)
  then show ?thesis by (simp add: res adv_finish_def Let_def split: prod.splits)
qed

text \<open>
  C13: the message that the advanced ingester sends after it stored the statistics is one the goals
  updater accepts, about the player and the match of the message that was ingested.
\<close>

theorem goals_message_accepted:
  assumes "Handle_advanced e msg w = (r, w')" "goalsTopic w' \<noteq> goalsTopic w"
    and "\<And>n bv. in_baseview e n (aiBaseviewPath msg) = Inr bv \<Longrightarrow>
      list_all (\<lambda>q. ParticipantID q \<in> {1..10}) (bvParticipants bv)"
  shows "\<exists>g. goalsTopic w' = goalsTopic w @ [g] \<and> LolGoalsUpdate_Valid g \<and> guMatchId g = aiMatchId msg \<and>
    guSummonerId g = aiSummonerId msg \<and> guPlatformId g = PlatformFromString (aiPlatformId msg)"
proof -
  obtain n bv stats where s: "in_baseview e n (aiBaseviewPath msg) = Inr bv"
      "LolAdvancedStatsIngest_Valid (advanced_ingest.truncate msg)"
      "ComputeAdvanced (bvEvents bv) (bvParticipants bv) (aiSummonerId msg) (aiMatchId msg) (PlatformFromString (aiPlatformId msg)) = Ok stats"
      "goalsTopic w' = goalsTopic w @ [goal_message stats]"
    using advanced_effect[OF assms(1)] assms(2) by auto
  have "asMatchID stats = aiMatchId msg \<and> asPlatformID stats = PlatformFromString (aiPlatformId msg) \<and>
      asSummonerID stats = aiSummonerId msg \<and> asRolePosition stats \<noteq> None"
    using computed_identity[OF s(3)] assms(3)[OF s(1)] by (simp add: list_all_iff)
  moreover have "role_string x \<noteq> []" for x by (cases x) simp_all
  ultimately show ?thesis using s(2,4)
    by (auto simp: goal_message_def LolGoalsUpdate_Valid_def LolAdvancedStatsIngest_Valid_def PlatformFromString_def
        to_upper_def advanced_ingest.defs)
qed

subsection \<open>An example\<close>

definition demo_ing :: "(nat \<Rightarrow> fate) \<Rightarrow> ingest_env" where
  "demo_ing fate =
     \<lparr>in_fate = fate, in_lease = (\<lambda>_. None), in_match = (\<lambda>_ _. Inr Basic_Stats.demo_match),
      in_leagues = (\<lambda>_ _ _. Inr [(''11'', [\<lparr>lgQueue = ''RANKED_SOLO_5x5'', lgTier = ''GOLD'', lgDivisions = [''II'']\<rparr>])]),
      in_baseview = (\<lambda>_ _. Inr \<lparr>bvParticipants = demo_team, bvEvents = demo_bv\<rparr>), in_now = (\<lambda>_. 0),
      BasicStatsStoreLocation = ''gs://stats'', BqImportLocation = ''gs://import'',
      advancedOutputDir = ''gs://advanced'', bqOutputDir = ''gs://import''\<rparr>"

definition demo_basic_msg :: basic_message where
  "demo_basic_msg = \<lparr>biMatchDetailsPath = ''m'', biMatchId = 5, biPlatformId = ''NA1'', biSummonerId = 11, biOverride = False\<rparr>"

definition demo_adv_msg :: advanced_message where
  "demo_adv_msg = \<lparr>aiBaseviewPath = ''b'', aiBaseviewType = ''elo'', aiMatchId = 7, aiPlatformId = ''na1'', aiSummonerId = 1004,
     aiOverride = False\<rparr>"

definition empty_world :: stats_world where
  "empty_world = \<lparr>historyRows = [], basicFiles = [], advancedFiles = [], bqAdvanced = [], goalsTopic = [], ingops = 0\<rparr>"

lemmas demo_ing_simps = demo_ing_def demo_basic_msg_def demo_adv_msg_def empty_world_def

lemma demo_basic:
  obtains row stats where "ComputeHistory Basic_Stats.demo_match 11 = Inr row" "ComputeBasic Basic_Stats.demo_match 0 11 = Ok stats"
    "bsMatchDuration stats = 120"
proof -
  have h: "\<exists>row. ComputeHistory Basic_Stats.demo_match 11 = Inr row"
    by (simp add: ComputeHistory_def demo_players(1) Let_def split: prod.splits)
  obtain b where b: "ComputeBasic Basic_Stats.demo_match 0 11 = Ok b"
    using basic_exists[OF demo_players(1)] demo_summaries by blast
  have "bsMatchDuration b = mdMatchDuration Basic_Stats.demo_match"
    using b by (rule basic_parts)
      (simp add: Let_def stats_start_def addDeathTimePercentage_def addLevelStats_def addLaneDiffStats_def
        addParticipantStats_def split: prod.splits)
  then show thesis using that h b by (auto simp: Basic_Stats.demo_match_def)
qed

lemma demo_best: "best_rank [\<lparr>lgQueue = ''RANKED_SOLO_5x5'', lgTier = ''GOLD'', lgDivisions = [''II'']\<rparr>] = (''GOLD'', ''II'')"
  by (simp add: best_rank_def rank_step_def counted_league_def league_rank_def)

lemma demo_messages_valid:
  "LolBasicStatsIngest_Valid (Dispatch.basic_ingest.truncate demo_basic_msg)"
  "LolAdvancedStatsIngest_Valid (advanced_ingest.truncate demo_adv_msg)"
  by (simp_all add: demo_ing_simps LolBasicStatsIngest_Valid_def LolAdvancedStatsIngest_Valid_def
      Dispatch.basic_ingest.defs advanced_ingest.defs)

lemma demo_basic_run:
  assumes "\<And>n. n < 5 \<Longrightarrow> fate n = Done"
  shows "\<exists>stats row. bsMatchDuration stats = 120 \<and> Handle_basic (demo_ing fate) demo_basic_msg empty_world =
    store_basic (demo_ing fate) (stats\<lparr>bsTier := ''GOLD'', bsDivision := ''II''\<rparr>)
      (empty_world\<lparr>historyRows := [(row_key Basic_Stats.demo_match 11, row)], ingops := 5\<rparr>)"
proof -
  obtain row stats where c: "ComputeHistory Basic_Stats.demo_match 11 = Inr row" "ComputeBasic Basic_Stats.demo_match 0 11 = Ok stats"
    "bsMatchDuration stats = 120" by (rule demo_basic)
  note f = assms[of 0, simplified] assms[of 1, simplified] assms[of 2, simplified] assms[of 3, simplified] assms[of 4, simplified]
  have "Handle_basic (demo_ing fate) demo_basic_msg empty_world =
    store_basic (demo_ing fate) (stats\<lparr>bsTier := ''GOLD'', bsDivision := ''II''\<rparr>)
      (empty_world\<lparr>historyRows := [(row_key Basic_Stats.demo_match 11, row)], ingops := 5\<rparr>)"
    using demo_messages_valid(1) c f
    by (simp add: Handle_basic_def demo_ing_simps icall_def itick_def FetchCachedMatch_def FetchRank_def demo_best[simplified]
        writeToGCD_def basic_after_row_def Let_def eval_nat_numeral)
  then show ?thesis using c(3) by blast
qed

theorem best_rank_is_best_witness:
  "rank_le (''GOLD'', ''II'') (best_rank [\<lparr>lgQueue = ''RANKED_FLEX_SR'', lgTier = ''GOLD'', lgDivisions = [''II'']\<rparr>])"
  using best_rank_is_best(1)[of "\<lparr>lgQueue = ''RANKED_FLEX_SR'', lgTier = ''GOLD'', lgDivisions = [''II'']\<rparr>"
      "[\<lparr>lgQueue = ''RANKED_FLEX_SR'', lgTier = ''GOLD'', lgDivisions = [''II'']\<rparr>]"]
  by (simp add: counted_league_def league_rank_def)

lemma demo_uploads:
  assumes "bsMatchDuration stats = 120" "ingops w = 5"
  shows "fate 5 = Done \<Longrightarrow> fate 6 = Done \<Longrightarrow> fate 7 = Done \<Longrightarrow> fate 8 = Done \<Longrightarrow>
      \<exists>w'. store_basic (demo_ing fate) stats w = (Ok (), w')"
    and "fate 5 = Refused err \<Longrightarrow> store_basic (demo_ing fate) stats w = (Err err, itick w)"
  using assms by (simp_all add: store_basic_def UploadBasicStats_def no_data_points_def TrimNonStats_def icall_def itick_def demo_ing_def
      eval_nat_numeral)


theorem failed_upload_lost_witness:
  "\<exists>w1. Handle_basic (demo_ing ((\<lambda>_. Done)(5 := Refused ''storage''))) demo_basic_msg empty_world = (Err ''storage'', w1) \<and>
     historyRows w1 \<noteq> [] \<and> basicFiles (redeliver_basic [demo_ing (\<lambda>_. Done)] demo_basic_msg w1) = []"
proof -
  let ?fate = "(\<lambda>_. Done)(5 := Refused ''storage'')"
  obtain stats row where run: "bsMatchDuration stats = 120"
      "Handle_basic (demo_ing ?fate) demo_basic_msg empty_world =
       store_basic (demo_ing ?fate) (stats\<lparr>bsTier := ''GOLD'', bsDivision := ''II''\<rparr>)
         (empty_world\<lparr>historyRows := [(row_key Basic_Stats.demo_match 11, row)], ingops := 5\<rparr>)" (is "_ = store_basic _ ?stats ?w")
    using demo_basic_run[of ?fate] by auto
  then have w1: "Handle_basic (demo_ing ?fate) demo_basic_msg empty_world = (Err ''storage'', itick ?w)"
    using demo_uploads(2)[of ?stats ?w ?fate "''storage''"] by simp
  have "basicFiles (redeliver_basic [demo_ing (\<lambda>_. Done)] demo_basic_msg (itick ?w)) = basicFiles empty_world"
    by (rule failed_upload_lost[OF w1, where m = Basic_Stats.demo_match]) (simp_all add: demo_ing_simps)
  with w1 show ?thesis by (auto simp: empty_world_def)
qed

lemma demo_advanced_run:
  assumes "\<And>n. n < 2 \<Longrightarrow> fate n = Done"
  shows "\<exists>stats. Handle_advanced (demo_ing fate) demo_adv_msg empty_world =
    store_advanced (demo_ing fate) demo_adv_msg stats (empty_world\<lparr>ingops := 3\<rparr>)"
proof -
  obtain stats where c: "ComputeAdvanced demo_bv demo_team 1004 7 ''NA1'' = Ok stats" using demo_computed by auto
  have "PlatformFromString ''na1'' = ''NA1''" by code_simp
  then have "Handle_advanced (demo_ing fate) demo_adv_msg empty_world =
    store_advanced (demo_ing fate) demo_adv_msg stats (empty_world\<lparr>ingops := 3\<rparr>)"
    using demo_messages_valid(2) c assms[of 0] assms[of 1]
    by (simp add: Handle_advanced_def advanced_afresh_def demo_ing_simps icall_def itick_def Let_def eval_nat_numeral)
  then show ?thesis by blast
qed

lemma demo_storing:
  fixes stats :: advanced_stats
  shows "\<exists>w'. store_advanced (demo_ing (\<lambda>_. Done)) demo_adv_msg stats (empty_world\<lparr>ingops := 3\<rparr>) = (Ok (), w') \<and> goalsTopic w' \<noteq> []"
    and "\<exists>w1. store_advanced (demo_ing ((\<lambda>_. Done)(6 := Refused ''storage''))) demo_adv_msg stats (empty_world\<lparr>ingops := 3\<rparr>) =
      (Err ''storage'', w1) \<and> advancedFiles w1 \<noteq> [] \<and> goalsTopic w1 = []"
  by (simp_all add: store_advanced_def zipAndUpload_def sendGoalUpdateMessage_def icall_def itick_def ctx_err_def Let_def
      demo_ing_def empty_world_def)

theorem goal_message_lost_witness:
  "\<exists>w1. Handle_advanced (demo_ing ((\<lambda>_. Done)(6 := Refused ''storage''))) demo_adv_msg empty_world = (Err ''storage'', w1) \<and>
     advancedFiles w1 \<noteq> [] \<and> goalsTopic (redeliver_advanced [demo_ing (\<lambda>_. Done)] demo_adv_msg w1) = []"
proof -
  let ?e = "demo_ing ((\<lambda>_. Done)(6 := Refused ''storage''))"
  obtain stats where h: "Handle_advanced ?e demo_adv_msg empty_world =
      store_advanced ?e demo_adv_msg stats (empty_world\<lparr>ingops := 3\<rparr>)"
    using demo_advanced_run[of "(\<lambda>_. Done)(6 := Refused ''storage'')"] by auto
  obtain w1 where w1: "Handle_advanced ?e demo_adv_msg empty_world = (Err ''storage'', w1)" "advancedFiles w1 \<noteq> []" "goalsTopic w1 = []"
    using demo_storing(2)[of stats] h by auto
  have "goalsTopic (redeliver_advanced [demo_ing (\<lambda>_. Done)] demo_adv_msg w1) = goalsTopic empty_world \<and>
      bqAdvanced (redeliver_advanced [demo_ing (\<lambda>_. Done)] demo_adv_msg w1) = bqAdvanced w1"
    by (rule goal_message_lost[OF w1(1)]) (use w1(2,3) in \<open>simp_all add: demo_ing_simps\<close>)
  with w1 show ?thesis by (auto simp: empty_world_def)
qed

theorem goals_message_accepted_witness:
  "\<exists>w' g. Handle_advanced (demo_ing (\<lambda>_. Done)) demo_adv_msg empty_world = (Ok (), w') \<and> goalsTopic w' = [g] \<and>
     LolGoalsUpdate_Valid g \<and> guSummonerId g = 1004"
proof -
  obtain w' where w': "Handle_advanced (demo_ing (\<lambda>_. Done)) demo_adv_msg empty_world = (Ok (), w')" "goalsTopic w' \<noteq> []"
    using demo_advanced_run[of "\<lambda>_. Done"] demo_storing(1) by fastforce
  have "\<exists>g. goalsTopic w' = goalsTopic empty_world @ [g] \<and> LolGoalsUpdate_Valid g \<and> guMatchId g = aiMatchId demo_adv_msg \<and>
    guSummonerId g = aiSummonerId demo_adv_msg \<and> guPlatformId g = PlatformFromString (aiPlatformId demo_adv_msg)"
    by (rule goals_message_accepted[OF w'(1)])
      (use w'(2) in \<open>auto simp: demo_ing_simps demo_team_def list_all_iff\<close>)
  then show ?thesis using w'(1) by (auto simp: demo_ing_simps)
qed

end
