(* ===== verification/Advanced_Average.thy ===== *)
theory Advanced_Average
  imports Ingest_Books Basic_Stats
begin

text \<open>
  The average of the advanced statistics over the players of a team: \<open>AverageAdvancedStats\<close> of
  \<open>lolstats-master/ingest/advanced_stats.go\<close>. Rates, percentages and the entries of the maps become means
  (counts are rounded); the fights, the good kills and the bad deaths are added up.

  In the code the maps of the average are at first the maps of the statistics themselves, to which
  the others are then added. The statistics are decoded from files for the call and are not used after
  it, so only the resulting average is modelled.
\<close>

subsection \<open>Adding up\<close>

definition add_damage :: "damage_summary \<Rightarrow> damage_summary \<Rightarrow> damage_summary" where
  "add_damage s t = \<lparr>DamageTotal = DamageTotal s + DamageTotal t, DamagePercent = DamagePercent s + DamagePercent t,
                     Deaths = Deaths s + Deaths t\<rparr>"

definition merge_stage ::
  "string \<times> damage_summary \<Rightarrow> (string \<times> damage_summary) list \<Rightarrow> (string \<times> damage_summary) list" where
  "merge_stage x stages =
     (case x of (stage, s) \<Rightarrow>
      AList.update stage (case map_of stages stage of None \<Rightarrow> s | Some t \<Rightarrow> add_damage t s) stages)"

definition merge_champ :: "string \<times> (string \<times> damage_summary) list \<Rightarrow> damage_map \<Rightarrow> damage_map" where
  "merge_champ x dm =
     (case x of (champ, stages) \<Rightarrow>
      AList.update champ (case map_of dm champ of None \<Rightarrow> stages | Some old \<Rightarrow> fold merge_stage stages old) dm)"

definition merge_damage :: "damage_map \<Rightarrow> damage_map \<Rightarrow> damage_map" where
  "merge_damage new dm = fold merge_champ new dm"

definition add_entries :: "('k \<times> 'v :: monoid_add) list \<Rightarrow> ('k \<times> 'v) list \<Rightarrow> ('k \<times> 'v) list" where
  "add_entries new m = fold (\<lambda>(k, v). bump v k) new m"

definition add_fights :: "fight_aggregate \<Rightarrow> fight_aggregate \<Rightarrow> fight_aggregate" where
  "add_fights a b = a\<lparr>Count := Count a + Count b, TotalKills := TotalKills a + TotalKills b,
                      TotalDeaths := TotalDeaths a + TotalDeaths b\<rparr>"

definition add_significant :: "significant \<Rightarrow> significant \<Rightarrow> significant" where
  "add_significant a b =
     \<lparr>sfTotal = sfTotal a + sfTotal b, NumbersDifference = NumbersDifference a + NumbersDifference b,
      NumbersDifferenceLackingVision = NumbersDifferenceLackingVision a + NumbersDifferenceLackingVision b,
      HealthDifference = HealthDifference a + HealthDifference b,
      GoldSpentDifference = GoldSpentDifference a + GoldSpentDifference b,
      NeutralDamageDifference = NeutralDamageDifference a + NeutralDamageDifference b,
      Other = Other a + Other b\<rparr>"

definition no_fights :: fight_aggregate where
  "no_fights = \<lparr>Count = 0, TotalKills = 0, TotalDeaths = 0, NetKills = 0\<rparr>"

text \<open>The zero value.\<close>

definition zero_advanced :: advanced_stats where
  "zero_advanced =
     \<lparr>asParticipantID = 0, asSummonerID = 0, asTeamID = 0, asMatchID = 0, asPlatformID = [], asPositions = [],
      asRolePosition = None, asDamageDealt = [], asDamageTaken = [], DamageTakenPercentPerDeath = 0,
      CarryFocusEfficiency = 0, AttacksPerMinute = 0, asAbilityCounts = [], asAbilityCounts0to10 = [], MapCoverages = [],
      asTeamComp = no_team_comp, TimeDetail = [], asUsefulPercent = [], asTeamFights = [],
      FavorableTeamFights = no_fights, BalancedTeamFights = no_fights, UnfavorableTeamFights = no_fights,
      WardLives = (\<lambda>_. []), asRevealsPerWardAverage = 0, asLiveWardsAverage = [], FavorableFightPercent = 0,
      GoodKills = no_significant, BadDeaths = no_significant, asCombos = [], asComboDamagePerMinute = 0\<rparr>"

definition advanced_add :: "advanced_stats \<Rightarrow> advanced_stats \<Rightarrow> advanced_stats" where
  "advanced_add adv a = a
     \<lparr>asTeamID := asTeamID adv, asMatchID := asMatchID adv, asPlatformID := asPlatformID adv,
      asDamageDealt := merge_damage (asDamageDealt adv) (asDamageDealt a),
      asDamageTaken := merge_damage (asDamageTaken adv) (asDamageTaken a),
      DamageTakenPercentPerDeath := DamageTakenPercentPerDeath a + DamageTakenPercentPerDeath adv,
      CarryFocusEfficiency := CarryFocusEfficiency a + CarryFocusEfficiency adv,
      AttacksPerMinute := AttacksPerMinute a + AttacksPerMinute adv,
      asAbilityCounts := add_entries (asAbilityCounts adv) (asAbilityCounts a),
      asAbilityCounts0to10 := add_entries (asAbilityCounts0to10 adv) (asAbilityCounts0to10 a),
      MapCoverages := add_entries (MapCoverages adv) (MapCoverages a),
      asUsefulPercent := add_entries (asUsefulPercent adv) (asUsefulPercent a),
      FavorableTeamFights := add_fights (FavorableTeamFights a) (FavorableTeamFights adv),
      BalancedTeamFights := add_fights (BalancedTeamFights a) (BalancedTeamFights adv),
      UnfavorableTeamFights := add_fights (UnfavorableTeamFights a) (UnfavorableTeamFights adv),
      asRevealsPerWardAverage := asRevealsPerWardAverage a + asRevealsPerWardAverage adv,
      asLiveWardsAverage := add_entries (asLiveWardsAverage adv) (asLiveWardsAverage a),
      FavorableFightPercent := FavorableFightPercent a + FavorableFightPercent adv,
      GoodKills := add_significant (GoodKills a) (GoodKills adv),
      BadDeaths := add_significant (BadDeaths a) (BadDeaths adv),
      asComboDamagePerMinute := asComboDamagePerMinute a + asComboDamagePerMinute adv\<rparr>"

subsection \<open>Dividing\<close>

definition divide_damage :: "real \<Rightarrow> damage_map \<Rightarrow> damage_map" where
  "divide_damage n dm =
     map (\<lambda>(champ, stages). (champ, map (\<lambda>(stage, s).
       (stage, \<lparr>DamageTotal = DamageTotal s / n, DamagePercent = DamagePercent s / n,
                Deaths = Round (real_of_int (Deaths s) / n)\<rparr>)) stages)) dm"

definition divide_counts :: "real \<Rightarrow> (string \<times> int) list \<Rightarrow> (string \<times> int) list" where
  "divide_counts n m = map (\<lambda>(k, v). (k, Round (real_of_int v / n))) m"

definition divide_values :: "real \<Rightarrow> (string \<times> real) list \<Rightarrow> (string \<times> real) list" where
  "divide_values n m = map (\<lambda>(k, v). (k, v / n)) m"

definition net_kills :: "fight_aggregate \<Rightarrow> fight_aggregate" where
  "net_kills t = t\<lparr>NetKills := (real (TotalKills t) - real (TotalDeaths t)) / max (real (Count t)) 1\<rparr>"

definition advanced_finish :: "real \<Rightarrow> advanced_stats \<Rightarrow> advanced_stats" where
  "advanced_finish n a = a
     \<lparr>asDamageDealt := divide_damage n (asDamageDealt a), asDamageTaken := divide_damage n (asDamageTaken a),
      DamageTakenPercentPerDeath := DamageTakenPercentPerDeath a / n, CarryFocusEfficiency := CarryFocusEfficiency a / n,
      AttacksPerMinute := AttacksPerMinute a / n, asRevealsPerWardAverage := asRevealsPerWardAverage a / n,
      FavorableFightPercent := FavorableFightPercent a / n, asComboDamagePerMinute := asComboDamagePerMinute a / n,
      asAbilityCounts := divide_counts n (asAbilityCounts a), asAbilityCounts0to10 := divide_counts n (asAbilityCounts0to10 a),
      MapCoverages := divide_values n (MapCoverages a), asUsefulPercent := divide_values n (asUsefulPercent a),
      asLiveWardsAverage := divide_values n (asLiveWardsAverage a),
      FavorableTeamFights := net_kills (FavorableTeamFights a), BalancedTeamFights := net_kills (BalancedTeamFights a),
      UnfavorableTeamFights := net_kills (UnfavorableTeamFights a)\<rparr>"

definition AverageAdvancedStats :: "advanced_stats list \<Rightarrow> advanced_stats" where
  "AverageAdvancedStats stats =
     (if stats = [] then zero_advanced
      else advanced_finish (real (length stats)) (fold advanced_add stats zero_advanced))"

subsection \<open>Entries\<close>

lemma get0_simps [simp]:
  fixes m :: "('k \<times> 'v :: monoid_add) list"
  shows "get0 ([] :: ('k \<times> 'v) list) k = 0" "get0 ((j, v) # m) k = (if k = j then v else get0 m k)"
  by (simp_all add: get0_def)

lemma get0_missing: "k \<notin> fst ` set m \<Longrightarrow> get0 m k = 0"
  by (simp add: get0_def map_of_eq_None_iff[THEN iffD2])

lemma get0_add_entries:
  assumes "distinct (map fst new)"
  shows "get0 (add_entries new m) k = get0 m k + get0 new k"
  using assms unfolding add_entries_def
  by (induction new arbitrary: m) (auto simp: bump_lookup get0_missing)

lemma Round_0 [simp]: "Round 0 = 0"
  by (simp add: Round_def)

lemma map_of_map_snd: "map_of (map (\<lambda>(k, v). (k, h v)) m) k = map_option h (map_of m k)"
  by (induction m) auto

lemma get0_divide:
  "get0 (divide_values n m) k = get0 m k / n"
  "get0 (divide_counts n c) k = Round (real_of_int (get0 c k) / n)"
  unfolding divide_values_def divide_counts_def get0_def map_of_map_snd
  by (auto split: option.splits)

lemma get0_sum_entries:
  assumes "\<And>x a. m (advanced_add x a) = add_entries (m x) (m a)" "list_all (\<lambda>x. distinct (map fst (m x))) xs"
  shows "get0 (m (fold advanced_add xs a)) k = get0 (m a) k + sum_list (map (\<lambda>x. get0 (m x) k) xs)"
  using assms(2)
  by (induction xs arbitrary: a) (simp_all add: assms(1) get0_add_entries add.assoc)

subsection \<open>Damage\<close>

lemma add_damage_simps [simp]:
  "add_damage s no_damage = s" "add_damage no_damage s = s"
  "DamageTotal (add_damage s t) = DamageTotal s + DamageTotal t"
  "DamagePercent (add_damage s t) = DamagePercent s + DamagePercent t"
  "Deaths (add_damage s t) = Deaths s + Deaths t"
  by (simp_all add: add_damage_def no_damage_def)

definition stage_summary :: "(string \<times> damage_summary) list \<Rightarrow> string \<Rightarrow> damage_summary" where
  "stage_summary stages stage = (case map_of stages stage of None \<Rightarrow> no_damage | Some s \<Rightarrow> s)"

lemma summary_of_stage: "summary_of dm champ stage = stage_summary (stages_of dm champ) stage"
  by (simp add: summary_of_def stage_summary_def)

lemma merge_stages:
  assumes "distinct (map fst new)"
  shows "stage_summary (fold merge_stage new old) stage = add_damage (stage_summary old stage) (stage_summary new stage)"
  using assms
proof (induction new arbitrary: old)
  case (Cons x new)
  obtain j s where x: "x = (j, s)" by fastforce
  have "map_of new j = None" using Cons.prems by (simp add: x map_of_eq_None_iff)
  with Cons show ?case
    by (auto simp: x merge_stage_def stage_summary_def update_conv' split: option.splits)
qed (simp add: stage_summary_def)

lemma merge_champs:
  assumes "damage_wf new"
  shows "summary_of (merge_damage new dm) champ stage = add_damage (summary_of dm champ stage) (summary_of new champ stage)"
  using assms unfolding merge_damage_def
proof (induction new arbitrary: dm)
  case (Cons x new)
  obtain c stages where x: "x = (c, stages)" by fastforce
  have d: "distinct (map fst stages)" "damage_wf new" "map_of new c = None"
    using Cons.prems by (auto simp: x damage_wf_def map_of_eq_None_iff)
  have n: "stages_of new c = []" using d(3) by (simp add: stages_of_def)
  have step: "summary_of (merge_champ (c, stages) dm) champ stage =
      (if champ = c then add_damage (summary_of dm champ stage) (stage_summary stages stage) else summary_of dm champ stage)"
    using merge_stages[OF d(1)]
    by (auto simp: merge_champ_def summary_of_stage stages_of_def update_conv' split: option.splits)
      (simp add: stage_summary_def)
  have "summary_of ((c, stages) # new) champ stage = (if champ = c then stage_summary stages stage else summary_of new champ stage)"
    by (simp add: summary_of_stage stages_of_def)
  moreover have "champ = c \<Longrightarrow> summary_of new champ stage = no_damage" by (simp add: summary_of_stage n stage_summary_def)
  ultimately show ?case using Cons.IH[OF d(2), of "merge_champ (c, stages) dm"] step by (auto simp: x)
qed (simp add: summary_of_stage stages_of_def stage_summary_def)

lemma sum_damage:
  assumes "\<And>x a. d (advanced_add x a) = merge_damage (d x) (d a)" "list_all (\<lambda>x. damage_wf (d x)) xs"
  shows "DamageTotal (summary_of (d (fold advanced_add xs a)) c s) =
           DamageTotal (summary_of (d a) c s) + sum_list (map (\<lambda>x. DamageTotal (summary_of (d x) c s)) xs)"
    and "DamagePercent (summary_of (d (fold advanced_add xs a)) c s) =
           DamagePercent (summary_of (d a) c s) + sum_list (map (\<lambda>x. DamagePercent (summary_of (d x) c s)) xs)"
    and "Deaths (summary_of (d (fold advanced_add xs a)) c s) =
           Deaths (summary_of (d a) c s) + sum_list (map (\<lambda>x. Deaths (summary_of (d x) c s)) xs)"
  using assms(2) by (induction xs arbitrary: a) (simp_all add: assms(1) merge_champs)

lemma divided_damage:
  "summary_of (divide_damage n dm) c s =
     \<lparr>DamageTotal = DamageTotal (summary_of dm c s) / n, DamagePercent = DamagePercent (summary_of dm c s) / n,
      Deaths = Round (real_of_int (Deaths (summary_of dm c s)) / n)\<rparr>"
  unfolding divide_damage_def summary_of_def stages_of_def map_of_map_snd
  by (auto simp: map_of_map_snd no_damage_def split: option.splits)

subsection \<open>The average\<close>

definition rate_fields :: "(advanced_stats \<Rightarrow> real) list" where
  "rate_fields = [DamageTakenPercentPerDeath, CarryFocusEfficiency, AttacksPerMinute, asRevealsPerWardAverage,
     FavorableFightPercent, asComboDamagePerMinute]"

definition value_maps :: "(advanced_stats \<Rightarrow> (string \<times> real) list) list" where
  "value_maps = [MapCoverages, asUsefulPercent, asLiveWardsAverage]"

definition count_maps :: "(advanced_stats \<Rightarrow> (string \<times> int) list) list" where
  "count_maps = [asAbilityCounts, asAbilityCounts0to10]"

definition damage_maps :: "(advanced_stats \<Rightarrow> damage_map) list" where
  "damage_maps = [asDamageDealt, asDamageTaken]"

definition advanced_wf :: "advanced_stats \<Rightarrow> bool" where
  "advanced_wf x \<longleftrightarrow> list_all (\<lambda>m. distinct (map fst (m x))) value_maps \<and> list_all (\<lambda>m. distinct (map fst (m x))) count_maps \<and>
     list_all (\<lambda>d. damage_wf (d x)) damage_maps"

lemma rates_sum:
  assumes "f \<in> set rate_fields"
  shows "f (fold advanced_add xs a) = f a + sum_list (map f xs)"
proof -
  have "f (advanced_add x a) = f a + f x" for x a
    using assms by (auto simp: rate_fields_def advanced_add_def)
  then show ?thesis by (induction xs arbitrary: a) simp_all
qed

lemma wf_maps:
  assumes "list_all advanced_wf xs"
  shows "m \<in> set value_maps \<Longrightarrow> list_all (\<lambda>x. distinct (map fst (m x))) xs"
    and "c \<in> set count_maps \<Longrightarrow> list_all (\<lambda>x. distinct (map fst (c x))) xs"
    and "d \<in> set damage_maps \<Longrightarrow> list_all (\<lambda>x. damage_wf (d x)) xs"
  using assms by (auto simp: list_all_iff advanced_wf_def)

lemma kills_sum:
  "sfTotal (GoodKills (fold advanced_add xs a)) = sfTotal (GoodKills a) + sum_list (map (sfTotal \<circ> GoodKills) xs)"
  "sfTotal (BadDeaths (fold advanced_add xs a)) = sfTotal (BadDeaths a) + sum_list (map (sfTotal \<circ> BadDeaths) xs)"
  by (induction xs arbitrary: a) (simp_all add: advanced_add_def add_significant_def)

text \<open>
  the average of a team's advanced statistics is the mean of every rate, of every entry of every map
  and of the damage between each pair in each stage (rounded for counts), while the good kills and the
  bad deaths are totals.
\<close>

theorem advanced_average_is_mean:
  assumes "stats \<noteq> []" "list_all advanced_wf stats"
  defines "a \<equiv> AverageAdvancedStats stats" and "n \<equiv> real (length stats)"
  shows "(\<forall>f\<in>set rate_fields. f a = sum_list (map f stats) / n) \<and>
    (\<forall>m\<in>set value_maps. \<forall>k. get0 (m a) k = sum_list (map (\<lambda>x. get0 (m x) k) stats) / n) \<and>
    (\<forall>m\<in>set count_maps. \<forall>k. get0 (m a) k = Round (real_of_int (sum_list (map (\<lambda>x. get0 (m x) k) stats)) / n)) \<and>
    (\<forall>d\<in>set damage_maps. \<forall>c s.
       DamageTotal (summary_of (d a) c s) = sum_list (map (\<lambda>x. DamageTotal (summary_of (d x) c s)) stats) / n \<and>
       DamagePercent (summary_of (d a) c s) = sum_list (map (\<lambda>x. DamagePercent (summary_of (d x) c s)) stats) / n \<and>
       Deaths (summary_of (d a) c s) = Round (real_of_int (sum_list (map (\<lambda>x. Deaths (summary_of (d x) c s)) stats)) / n)) \<and>
    sfTotal (GoodKills a) = sum_list (map (sfTotal \<circ> GoodKills) stats) \<and>
    sfTotal (BadDeaths a) = sum_list (map (sfTotal \<circ> BadDeaths) stats)"
proof -
  let ?s = "fold advanced_add stats zero_advanced"
  have a: "a = advanced_finish n ?s" using assms(1) by (simp add: a_def n_def AverageAdvancedStats_def)
  have z: "\<And>f. f \<in> set rate_fields \<Longrightarrow> f zero_advanced = 0" "\<And>m. m \<in> set value_maps \<Longrightarrow> m zero_advanced = []"
    "\<And>m. m \<in> set count_maps \<Longrightarrow> m zero_advanced = []" "\<And>d. d \<in> set damage_maps \<Longrightarrow> d zero_advanced = []"
    by (auto simp: rate_fields_def value_maps_def count_maps_def damage_maps_def zero_advanced_def)
  have fin: "\<And>f. f \<in> set rate_fields \<Longrightarrow> f a = f ?s / n" "\<And>m. m \<in> set value_maps \<Longrightarrow> m a = divide_values n (m ?s)"
    "\<And>m. m \<in> set count_maps \<Longrightarrow> m a = divide_counts n (m ?s)" "\<And>d. d \<in> set damage_maps \<Longrightarrow> d a = divide_damage n (d ?s)"
    "GoodKills a = GoodKills ?s" "BadDeaths a = BadDeaths ?s"
    by (auto simp: a advanced_finish_def rate_fields_def value_maps_def count_maps_def damage_maps_def)
  have add: "\<And>m x a. m \<in> set value_maps \<Longrightarrow> m (advanced_add x a) = add_entries (m x) (m a)"
    "\<And>m x a. m \<in> set count_maps \<Longrightarrow> m (advanced_add x a) = add_entries (m x) (m a)"
    "\<And>d x a. d \<in> set damage_maps \<Longrightarrow> d (advanced_add x a) = merge_damage (d x) (d a)"
    by (auto simp: advanced_add_def value_maps_def count_maps_def damage_maps_def)
  have e: "summary_of [] c s = no_damage" for c s
    by (simp add: summary_of_def stages_of_def)
  note w = wf_maps[OF assms(2)]
  have "get0 (m a) k = sum_list (map (\<lambda>x. get0 (m x) k) stats) / n" if "m \<in> set value_maps" for m k
    using get0_sum_entries[of m stats zero_advanced k, OF add(1)[OF that] w(1)[OF that]] z(2)[OF that]
    by (simp add: fin(2)[OF that] get0_divide)
  moreover have "get0 (m a) k = Round (real_of_int (sum_list (map (\<lambda>x. get0 (m x) k) stats)) / n)" if "m \<in> set count_maps" for m k
    using get0_sum_entries[of m stats zero_advanced k, OF add(2)[OF that] w(2)[OF that]] z(3)[OF that]
    by (simp add: fin(3)[OF that] get0_divide)
  moreover have "DamageTotal (summary_of (d a) c s) = sum_list (map (\<lambda>x. DamageTotal (summary_of (d x) c s)) stats) / n \<and>
       DamagePercent (summary_of (d a) c s) = sum_list (map (\<lambda>x. DamagePercent (summary_of (d x) c s)) stats) / n \<and>
       Deaths (summary_of (d a) c s) = Round (real_of_int (sum_list (map (\<lambda>x. Deaths (summary_of (d x) c s)) stats)) / n)"
    if "d \<in> set damage_maps" for d c s
    using sum_damage[of d stats zero_advanced c s, OF add(3)[OF that] w(3)[OF that]] z(4)[OF that]
    by (simp add: fin(4)[OF that] divided_damage e no_damage_def)
  moreover have "sfTotal (GoodKills a) = sum_list (map (sfTotal \<circ> GoodKills) stats) \<and>
      sfTotal (BadDeaths a) = sum_list (map (sfTotal \<circ> BadDeaths) stats)"
    by (simp add: fin kills_sum zero_advanced_def no_significant_def)
  ultimately show ?thesis by (simp add: fin(1) rates_sum z(1))
qed

definition demo_advanced :: "real \<Rightarrow> advanced_stats" where
  "demo_advanced x = zero_advanced\<lparr>AttacksPerMinute := x, MapCoverages := [(''full'', 2 * x)]\<rparr>"

theorem advanced_average_is_mean_witness:
  "AttacksPerMinute (AverageAdvancedStats [demo_advanced 1, demo_advanced 2]) = 3 / 2 \<and>
   get0 (MapCoverages (AverageAdvancedStats [demo_advanced 1, demo_advanced 2])) ''full'' = 3"
proof -
  have wf: "list_all advanced_wf [demo_advanced 1, demo_advanced 2]"
    by (simp add: advanced_wf_def demo_advanced_def zero_advanced_def value_maps_def count_maps_def damage_maps_def damage_wf_def)
  note mean = advanced_average_is_mean[OF _ wf]
  have "AttacksPerMinute (AverageAdvancedStats [demo_advanced 1, demo_advanced 2]) = 3 / 2"
    using mean[THEN conjunct1] by (simp add: rate_fields_def) (simp add: demo_advanced_def)
  moreover have "get0 (MapCoverages (AverageAdvancedStats [demo_advanced 1, demo_advanced 2])) ''full'' = 3"
    using mean[THEN conjunct2, THEN conjunct1, THEN bspec, THEN spec, of MapCoverages "''full''"]
    by (simp add: value_maps_def) (simp add: demo_advanced_def)
  ultimately show ?thesis ..
qed

end
