(* ===== verification/Stats_Server.thy ===== *)
theory Stats_Server
  imports Advanced_Average Users_Service
begin

text \<open>
  The statistics server: \<open>lolstats-master/server/lolstatsserver.go\<close> and the requests of
  \<open>lolstats-master/utils.go\<close>.

  A request is answered from the files that the ingesters wrote, from the datastore, or by a query to
  the warehouse whose text the server puts together from the request. \<open>stats_server\<close> holds the
  configuration, and as parameters what the services answer: the claims of a token, the accounts of a
  user, the content of a file and its decoding, the rows of a query. \<open>Percentiles\<close>, \<open>SummonerMatches\<close>
  and \<open>Search\<close> also give the list of the queries they sent.
\<close>

subsection \<open>Requests\<close>

record stats_request =
  srPlatform :: string
  srQueueType :: string
  srPatchPrefix :: string
  srTier :: string
  srDivision :: string
  srLane :: string
  srRole :: string
  srRolePosition :: string
  srChampionId :: int
  srOpponentChampionId :: int
  srSummonerId :: int
  srLastN :: int
  srSelects :: "string list"

record search_request =
  sqPlatform :: string
  sqQueueType :: string
  sqPatchPrefix :: string
  sqTiers :: "string list option"
  sqRolePosition :: string
  sqChampionId :: int
  sqOpponentChampionId :: int
  sqGoodKills :: "string list"
  sqExcludeSummonerId :: int
  sqTopStat :: string
  sqLastN :: int

record match_request =
  mrSummonerId :: int
  mrPlatform :: string
  mrMatchId :: int

record team_request =
  trTeamId :: int
  trPlatform :: string
  trMatchId :: int

record history_request =
  hqSummonerId :: int
  hqPlatform :: string
  hqQueueType :: string
  hqLimit :: int
  hqCursor :: string

definition StatsRequest_Valid :: "stats_request \<Rightarrow> bool" where
  "StatsRequest_Valid r \<longleftrightarrow> srSelects r \<noteq> [] \<and>
     \<not> (srPlatform r = [] \<and> srPatchPrefix r = [] \<and> srTier r = [] \<and> srDivision r = [] \<and> srLane r = [] \<and> srRole r = [] \<and>
        srChampionId r = 0 \<and> srOpponentChampionId r = 0 \<and> srSummonerId r = 0 \<and> srQueueType r = [] \<and> srRolePosition r = [])"

definition HistoryRequest_Valid :: "history_request \<Rightarrow> bool" where
  "HistoryRequest_Valid r \<longleftrightarrow> hqSummonerId r \<noteq> 0 \<and> hqPlatform r \<noteq> [] \<and> hqLimit r \<noteq> 0"

definition MatchRequest_Valid :: "match_request \<Rightarrow> bool" where
  "MatchRequest_Valid r \<longleftrightarrow> mrSummonerId r \<noteq> 0 \<and> mrPlatform r \<noteq> [] \<and> mrMatchId r \<noteq> 0"

definition TeamRequest_Valid :: "team_request \<Rightarrow> bool" where
  "TeamRequest_Valid r \<longleftrightarrow> (trTeamId r = 100 \<or> trTeamId r = 200) \<and> trPlatform r \<noteq> [] \<and> trMatchId r \<noteq> 0"

definition SearchRequest_Valid :: "search_request \<Rightarrow> bool" where
  "SearchRequest_Valid r \<longleftrightarrow> sqChampionId r \<noteq> 0 \<and> sqLastN r \<noteq> 0 \<and> sqRolePosition r \<noteq> [] \<and> sqTopStat r \<noteq> []"

subsection \<open>The text of a query\<close>

definition quoted :: "string \<Rightarrow> string" where
  "quoted v = CHR 0x22 # v @ [CHR 0x22]"

definition text_filter :: "string \<Rightarrow> string \<Rightarrow> string" where
  "text_filter label v = (if v \<noteq> [] then label @ quoted v else [])"

definition int_filter :: "string \<Rightarrow> int \<Rightarrow> string" where
  "int_filter label i = (if i \<noteq> 0 then label @ show_int i else [])"

definition prefix_filter :: "string \<Rightarrow> string \<Rightarrow> string" where
  "prefix_filter label v = (if v \<noteq> [] then label @ quoted (v @ ''%'') else [])"

definition BuildWhereClause :: "stats_request \<Rightarrow> string" where
  "BuildWhereClause r =
     ''1=1'' @
     text_filter '' AND basic.platform_id='' (srPlatform r) @
     text_filter '' AND basic.queue_type='' (srQueueType r) @
     prefix_filter '' AND match_version LIKE '' (srPatchPrefix r) @
     text_filter '' AND tier = '' (srTier r) @
     text_filter '' AND division = '' (srDivision r) @
     text_filter '' AND lane = '' (srLane r) @
     text_filter '' AND role = '' (srRole r) @
     int_filter '' AND champion_id = '' (srChampionId r) @
     int_filter '' AND opponent_champion_id = '' (srOpponentChampionId r) @
     int_filter '' AND basic.summoner_id = '' (srSummonerId r)"

definition BuildAdvancedWhereClause :: "stats_request \<Rightarrow> string" where
  "BuildAdvancedWhereClause r = ''1=1'' @ text_filter '' AND role_position = '' (srRolePosition r)"

text \<open>\<open>strings.Join\<close> with a comma.\<close>

fun commas :: "string list \<Rightarrow> string" where
  "commas [] = []"
| "commas [x] = x"
| "commas (x # xs) = x @ '','' @ commas xs"

definition tiers_filter :: "string list option \<Rightarrow> string" where
  "tiers_filter tiers =
     (case tiers of None \<Rightarrow> [] | Some ts \<Rightarrow> '' AND basic.tier in ('' @ commas (map quoted ts) @ '')'')"

definition kills_filter :: "string list \<Rightarrow> string" where
  "kills_filter ks = concat (map (\<lambda>k. '' AND good_kills.'' @ k @ '' > 0'') ks)"

definition Search_BuildWhereClause :: "search_request \<Rightarrow> string" where
  "Search_BuildWhereClause r =
     ''basic.opponent_champion_id != 0'' @
     text_filter '' AND basic.platform_id = '' (sqPlatform r) @
     text_filter '' AND basic.queue_type = '' (sqQueueType r) @
     prefix_filter '' AND match_version like '' (sqPatchPrefix r) @
     tiers_filter (sqTiers r) @
     text_filter '' AND role_position = '' (sqRolePosition r) @
     int_filter '' AND basic.champion_id = '' (sqChampionId r) @
     int_filter '' AND basic.opponent_champion_id = '' (sqOpponentChampionId r) @
     kills_filter (sqGoodKills r) @
     int_filter '' AND basic.summoner_id != '' (sqExcludeSummonerId r)"

text \<open>\<open>^[a-zA-Z0-9_.]*$\<close>, for every field.\<close>

definition plain_char :: "char \<Rightarrow> bool" where
  "plain_char c \<longleftrightarrow>
     (let n = of_char c :: nat in
      97 \<le> n \<and> n \<le> 122 \<or> 65 \<le> n \<and> n \<le> 90 \<or> 48 \<le> n \<and> n \<le> 57 \<or> n = 95 \<or> n = 46)"

definition checkInvalidCharacters :: "string list \<Rightarrow> bool" where
  "checkInvalidCharacters texts = list_all (list_all plain_char) texts"

definition expressions :: "(string \<times> string) list" where
  "expressions =
     [(''kda'', ''CASE WHEN deaths = 0 THEN (kills+assists)/1.0 ELSE (kills+assists)/deaths END''),
      (''q_per_minute'', ''ability_counts.Q*60/match_duration''),
      (''w_per_minute'', ''ability_counts.W*60/match_duration''),
      (''e_per_minute'', ''ability_counts.E*60/match_duration''),
      (''r_per_minute'', ''ability_counts.R*60/match_duration''),
      (''q_per_minute_zero_to_ten'', ''ability_counts_zero_to_ten.Q/10''),
      (''w_per_minute_zero_to_ten'', ''ability_counts_zero_to_ten.W/10''),
      (''e_per_minute_zero_to_ten'', ''ability_counts_zero_to_ten.E/10''),
      (''r_per_minute_zero_to_ten'', ''ability_counts_zero_to_ten.R/10''),
      (''good_kills_total_per_minute'', ''good_kills.total*60/match_duration''),
      (''good_kills_numbers_difference_per_minute'', ''good_kills.numbers_difference*60/match_duration''),
      (''good_kills_numbers_difference_lacking_vision_per_minute'',
       ''good_kills.numbers_difference_lacking_vision*60/match_duration''),
      (''good_kills_health_difference_per_minute'', ''good_kills.health_difference*60/match_duration''),
      (''good_kills_gold_spent_difference_per_minute'', ''good_kills.gold_spent_difference*60/match_duration''),
      (''good_kills_neutral_damage_difference_per_minute'', ''good_kills.neutral_damage_difference*60/match_duration''),
      (''good_kills_other_per_minute'', ''good_kills.other*60/match_duration''),
      (''bad_deaths_total_per_minute'', ''bad_deaths.total*60/match_duration''),
      (''bad_deaths_numbers_difference_per_minute'', ''bad_deaths.numbers_difference*60/match_duration''),
      (''bad_deaths_numbers_difference_lacking_vision_per_minute'',
       ''bad_deaths.numbers_difference_lacking_vision*60/match_duration''),
      (''bad_deaths_health_difference_per_minute'', ''bad_deaths.health_difference*60/match_duration''),
      (''bad_deaths_gold_spent_difference_per_minute'', ''bad_deaths.gold_spent_difference*60/match_duration''),
      (''bad_deaths_neutral_damage_difference_per_minute'', ''bad_deaths.neutral_damage_difference*60/match_duration''),
      (''bad_deaths_other_per_minute'', ''bad_deaths.other*60/match_duration''),
      (''good_kills_other_minus_bad_deaths_other_per_minute'', ''(good_kills.other-bad_deaths.other)*60/match_duration''),
      (''map_coverages.full'', ''map_coverages.`full`''),
      (''attacks_per_minute_useful'', ''attacks_per_minute/useful_percent.all*100''),
      (''combo_damage_per_minute_useful'', ''combo_damage_per_minute/useful_percent.all*100'')]"

definition translateExpression :: "string \<Rightarrow> string" where
  "translateExpression e = (case map_of expressions e of None \<Rightarrow> e | Some t \<Rightarrow> t)"

definition column_name :: "string \<Rightarrow> string" where
  "column_name e = map (\<lambda>c. if c = CHR ''.'' then CHR ''_'' else c) e"

subsection \<open>The server\<close>

datatype bq_value = BqNull | BqInt int | BqFloat real | BqString string | BqList "bq_value list"

type_synonym bq_row = "(string \<times> bq_value) list"

record history_query =
  qySummonerId :: int
  qyPlatform :: string
  qyQueueType :: "string option"
  qyLimit :: int
  qyStart :: "string option"

record stats_server =
  svProjectID :: string
  BasicTable :: string
  AdvancedTable :: string
  MatchDetailsDir :: string
  StatsDir :: string
  svClaims :: "string \<Rightarrow> string + string"
  svUsers :: "string \<Rightarrow> string + pb_user list"
  svRead :: "string \<Rightarrow> string + string"
  svMatch :: "string \<Rightarrow> string + match_details"
  svBasic :: "string \<Rightarrow> string + basic_stats"
  svBasicJson :: "basic_stats \<Rightarrow> string + string"
  svAdvanced :: "string \<Rightarrow> string + advanced_stats"
  svAdvancedJson :: "advanced_stats \<Rightarrow> string + string"
  svHistory :: "history_query \<Rightarrow> string + history_row list \<times> string"
  svQuery :: "string \<Rightarrow> string + bq_row list"

definition in_dev :: "stats_server \<Rightarrow> bool" where
  "in_dev s \<longleftrightarrow> svProjectID s = ''vs-dev''"

text \<open>The user that the claims are about; there are no claims in development.\<close>

definition validateCtx :: "stats_server \<Rightarrow> string \<Rightarrow> string + string" where
  "validateCtx s token = (if in_dev s then Inr [] else svClaims s token)"

definition participantIdentitiesInMatch :: "stats_server \<Rightarrow> int \<Rightarrow> string \<Rightarrow> string + identity list" where
  "participantIdentitiesInMatch s matchID platformID =
     (let region = RegionFromPlatform (PlatformFromString platformID);
          filename = MatchDetailsDir s @ ''/'' @ show_int matchID @ ''-'' @ region_string region @ ''.json'' in
      case svRead s filename of
        Inl err \<Rightarrow> Inl (''Unable to fetch match details json for '' @ filename @ '': '' @ err)
      | Inr data \<Rightarrow> (case svMatch s data of Inl err \<Rightarrow> Inl err | Inr m \<Rightarrow> Inr (mdIdentities m)))"

definition has_summoner :: "pb_user list \<Rightarrow> string \<Rightarrow> identity \<Rightarrow> bool" where
  "has_summoner accounts region i =
     list_ex (\<lambda>u. pbSummonerId u = show_int (idSummonerID i) \<and> pbRegion u = region) accounts"

definition validateSummonerAccess :: "stats_server \<Rightarrow> string \<Rightarrow> identity list \<Rightarrow> string \<Rightarrow> string option" where
  "validateSummonerAccess s sub pIds platformID =
     (if in_dev s then None
      else case svUsers s sub of
        Inl err \<Rightarrow> Some err
      | Inr accounts \<Rightarrow>
          if list_ex (has_summoner accounts (region_string (RegionFromPlatform (PlatformFromString platformID)))) pIds
          then None else Some ''user not allowed to request data for match'')"

subsection \<open>History\<close>

definition History :: "stats_server \<Rightarrow> string \<Rightarrow> history_request \<Rightarrow> string + history_row list \<times> string" where
  "History s token r =
     (case validateCtx s token of
        Inl err \<Rightarrow> Inl err
      | Inr sub \<Rightarrow>
          if \<not> HistoryRequest_Valid r then Inl ''invalid request''
          else svHistory s
            \<lparr>qySummonerId = hqSummonerId r, qyPlatform = hqPlatform r,
             qyQueueType = (if hqQueueType r \<noteq> [] then Some (hqQueueType r) else None), qyLimit = hqLimit r,
             qyStart = (if hqCursor r \<noteq> [] then Some (hqCursor r) else None)\<rparr>)"

subsection \<open>Statistics of a match\<close>

definition stats_file :: "stats_server \<Rightarrow> int \<Rightarrow> string \<Rightarrow> int \<Rightarrow> string \<Rightarrow> string" where
  "stats_file s matchID platform summonerID kind =
     StatsDir s @ ''/'' @ show_int matchID @ ''-'' @ platform @ ''-'' @ show_int summonerID @ kind"

text \<open>What the four handlers below do first: the players of the match, when the user may see them.\<close>

definition allowed_players :: "stats_server \<Rightarrow> string \<Rightarrow> int \<Rightarrow> string \<Rightarrow> string + identity list" where
  "allowed_players s token matchID platform =
     (case validateCtx s token of
        Inl err \<Rightarrow> Inl err
      | Inr sub \<Rightarrow>
     (case participantIdentitiesInMatch s matchID platform of
        Inl err \<Rightarrow> Inl err
      | Inr pIds \<Rightarrow>
     (case validateSummonerAccess s sub pIds platform of Some err \<Rightarrow> Inl err | None \<Rightarrow> Inr pIds)))"

definition Details :: "stats_server \<Rightarrow> string \<Rightarrow> match_request \<Rightarrow> string + string" where
  "Details s token r =
     (if \<not> MatchRequest_Valid r then Inl ''invalid request''
      else case allowed_players s token (mrMatchId r) (mrPlatform r) of
        Inl err \<Rightarrow> Inl err
      | Inr pIds \<Rightarrow> svRead s (stats_file s (mrMatchId r) (mrPlatform r) (mrSummonerId r) ''.basic.json''))"

definition Advanced :: "stats_server \<Rightarrow> string \<Rightarrow> match_request \<Rightarrow> string + string" where
  "Advanced s token r =
     (if \<not> MatchRequest_Valid r then Inl ''invalid request''
      else case allowed_players s token (mrMatchId r) (mrPlatform r) of
        Inl err \<Rightarrow> Inl err
      | Inr pIds \<Rightarrow> svRead s (stats_file s (mrMatchId r) (mrPlatform r) (mrSummonerId r) ''.advanced.json''))"

text \<open>The loops over the players of the team: the files for the answer, and what they hold.\<close>

fun team_files ::
  "stats_server \<Rightarrow> (string \<Rightarrow> string + 'a) \<Rightarrow> team_request \<Rightarrow> string \<Rightarrow> identity list \<Rightarrow> string + (int \<times> string) list \<times> 'a list"
where
  "team_files s decode r kind [] = Inr ([], [])"
| "team_files s decode r kind (i # is) =
     (if TeamID (idParticipantID i) \<noteq> trTeamId r then team_files s decode r kind is
      else case svRead s (stats_file s (trMatchId r) (trPlatform r) (idSummonerID i) kind) of
        Inl err \<Rightarrow> team_files s decode r kind is
      | Inr data \<Rightarrow>
     (case decode data of
        Inl err \<Rightarrow> Inl err
      | Inr st \<Rightarrow>
     (case team_files s decode r kind is of
        Inl err \<Rightarrow> Inl err
      | Inr (texts, decoded) \<Rightarrow> Inr ((idParticipantID i, data) # texts, st # decoded))))"

definition TeamDetails :: "stats_server \<Rightarrow> string \<Rightarrow> team_request \<Rightarrow> (int \<times> string) list outcome" where
  "TeamDetails s token r =
     (if \<not> TeamRequest_Valid r then Err ''invalid request''
      else case allowed_players s token (trMatchId r) (trPlatform r) of
        Inl err \<Rightarrow> Err err
      | Inr pIds \<Rightarrow>
     (case team_files s (svBasic s) r ''.basic.json'' pIds of
        Inl err \<Rightarrow> Err err
      | Inr (texts, aggBasicStats) \<Rightarrow>
          if aggBasicStats = [] then Err ''No basic stats found''
          else case AverageBasicStats aggBasicStats of
            Panic p \<Rightarrow> Panic p
          | Err err \<Rightarrow> Err err
          | Ok (average, rest) \<Rightarrow>
              (case svBasicJson s average of Inl err \<Rightarrow> Err err | Inr data \<Rightarrow> Ok (texts @ [(trTeamId r, data)]))))"

definition TeamAdvanced :: "stats_server \<Rightarrow> string \<Rightarrow> team_request \<Rightarrow> string + (int \<times> string) list" where
  "TeamAdvanced s token r =
     (if \<not> TeamRequest_Valid r then Inl ''invalid request''
      else case allowed_players s token (trMatchId r) (trPlatform r) of
        Inl err \<Rightarrow> Inl err
      | Inr pIds \<Rightarrow>
     (case team_files s (svAdvanced s) r ''.advanced.json'' pIds of
        Inl err \<Rightarrow> Inl err
      | Inr (texts, agg) \<Rightarrow>
          if agg = [] then Inl ''No advanced stats found''
          else case svAdvancedJson s (AverageAdvancedStats agg) of
            Inl err \<Rightarrow> Inl err
          | Inr data \<Rightarrow> Inr (texts @ [(trTeamId r, data)])))"

subsection \<open>Queries\<close>

definition joined :: "stats_server \<Rightarrow> string \<Rightarrow> string" where
  "joined s kind =
     '' FROM `'' @ BasicTable s @ ''` basic '' @ kind @ '' JOIN `'' @ AdvancedTable s @
     ''` advanced ON basic.summoner_id = advanced.summoner_id AND basic.platform_id = advanced.platform_id'' @
     '' AND basic.match_id = advanced.match_id WHERE ''"

definition both_clauses :: "stats_request \<Rightarrow> string" where
  "both_clauses r = BuildWhereClause r @ '' AND '' @ BuildAdvancedWhereClause r"

definition quantile_column :: "string \<Rightarrow> string" where
  "quantile_column e = ''APPROX_QUANTILES('' @ translateExpression e @ '', 100) as '' @ column_name e"

definition percentiles_query :: "stats_server \<Rightarrow> stats_request \<Rightarrow> string" where
  "percentiles_query s r =
     (let columns = commas (map quantile_column (srSelects r)) in
      if srLastN r \<noteq> 0
      then ''SELECT count(*) as count, '' @ columns @ '' FROM (SELECT *'' @ joined s ''LEFT OUTER'' @ both_clauses r @
           '' ORDER BY match_creation desc LIMIT '' @ show_int (srLastN r) @ '')''
      else ''SELECT count(*) as count, '' @ columns @ joined s ''LEFT OUTER'' @ both_clauses r)"

definition plain_column :: "string \<Rightarrow> string" where
  "plain_column e = translateExpression e @ '' as '' @ column_name e"

definition matches_query :: "stats_server \<Rightarrow> stats_request \<Rightarrow> string" where
  "matches_query s r =
     ''SELECT '' @ commas (map plain_column (srSelects r) @ [''basic_match_id as match_id'']) @
     '' FROM (SELECT *,basic.match_id as basic_match_id'' @ joined s ''LEFT OUTER'' @ both_clauses r @
     '' ORDER BY match_creation desc LIMIT '' @ show_int (srLastN r) @ '') ORDER BY match_creation DESC''"

definition search_query :: "stats_server \<Rightarrow> search_request \<Rightarrow> string \<Rightarrow> string" where
  "search_query s r orderBy =
     ''SELECT basic.match_id, basic.platform_id, basic.opponent_champion_id, basic.tier, basic.gold_diff_zero_to_ten,'' @
     '' advanced.good_kills.*, basic.cs_per_minute_diff_zero_to_ten'' @ joined s ''INNER'' @ Search_BuildWhereClause r @
     '' ORDER BY '' @ orderBy @ '' LIMIT '' @ show_int (sqLastN r)"

definition checked_fields :: "stats_request \<Rightarrow> string list" where
  "checked_fields r =
     [srPlatform r, srQueueType r, srPatchPrefix r, srTier r, srDivision r, srLane r, srRole r] @ srSelects r"

definition search_fields :: "search_request \<Rightarrow> string list" where
  "search_fields r =
     [sqPlatform r, sqQueueType r, sqPatchPrefix r, sqRolePosition r] @
     (case sqTiers r of None \<Rightarrow> [] | Some ts \<Rightarrow> ts) @ sqGoodKills r"

definition bad_characters :: string where
  "bad_characters = ''one or more selects has invalid characters in it''"

subsection \<open>Percentiles\<close>

fun as_float :: "bq_value \<Rightarrow> real option" where
  "as_float (BqFloat x) = Some x"
| "as_float (BqInt i) = Some (real_of_int i)"
| "as_float _ = None"

fun floats :: "bq_value list \<Rightarrow> real list option" where
  "floats [] = Some []"
| "floats (v # vs) = (case (as_float v, floats vs) of (Some x, Some xs) \<Rightarrow> Some (x # xs) | _ \<Rightarrow> None)"

record stat_list =
  slCount :: int
  slResult :: "(string \<times> real list) list"

fun percentile_columns :: "bq_row \<Rightarrow> stat_list \<Rightarrow> stat_list outcome" where
  "percentile_columns [] out = Ok out"
| "percentile_columns ((k, v) # row) out =
     (if k = ''count'' then
        percentile_columns row (case v of BqInt i \<Rightarrow> out\<lparr>slCount := i\<rparr> | _ \<Rightarrow> out)
      else case v of
        BqList vs \<Rightarrow>
          (case floats vs of
             None \<Rightarrow> Err ''unhandled type''
           | Some xs \<Rightarrow> percentile_columns row (out\<lparr>slResult := AList.update k xs (slResult out)\<rparr>))
      | _ \<Rightarrow> Panic ''interface conversion'')"

definition Percentiles :: "stats_server \<Rightarrow> string \<Rightarrow> stats_request \<Rightarrow> string list \<times> stat_list outcome" where
  "Percentiles s token r =
     (if \<not> StatsRequest_Valid r then ([], Err ''invalid request'')
      else case validateCtx s token of
        Inl err \<Rightarrow> ([], Err err)
      | Inr sub \<Rightarrow>
          if \<not> checkInvalidCharacters (checked_fields r) then ([], Err bad_characters)
          else ([percentiles_query s r],
            case svQuery s (percentiles_query s r) of
              Inl err \<Rightarrow> Err err
            | Inr [row] \<Rightarrow> percentile_columns row \<lparr>slCount = 0, slResult = []\<rparr>
            | Inr _ \<Rightarrow> Err ''expected 1 result''))"

subsection \<open>The matches of a summoner\<close>

text \<open>One row: the value goes to the row's place in the column's list, which starts as zeros.\<close>

fun place_row :: "nat \<Rightarrow> nat \<Rightarrow> bq_row \<Rightarrow> (string \<times> real list) list \<Rightarrow> (string \<times> real list) list option" where
  "place_row n i [] res = Some res"
| "place_row n i ((k, v) # row) res =
     (case as_float v of
        None \<Rightarrow> None
      | Some x \<Rightarrow> place_row n i row
          (AList.update k ((case map_of res k of None \<Rightarrow> replicate n 0 | Some xs \<Rightarrow> xs)[i := x]) res))"

fun place_rows :: "nat \<Rightarrow> nat \<Rightarrow> bq_row list \<Rightarrow> (string \<times> real list) list \<Rightarrow> (string \<times> real list) list option" where
  "place_rows n i [] res = Some res"
| "place_rows n i (row # found) res = Option.bind (place_row n i row res) (place_rows n (Suc i) found)"

definition SummonerMatches :: "stats_server \<Rightarrow> string \<Rightarrow> stats_request \<Rightarrow> string list \<times> stat_list outcome" where
  "SummonerMatches s token r =
     (if \<not> StatsRequest_Valid r then ([], Err ''invalid request'')
      else if srLastN r = 0 \<or> srSummonerId r = 0 \<or> srPlatform r = [] then ([], Err ''Missing required parameters'')
      else case validateCtx s token of
        Inl err \<Rightarrow> ([], Err err)
      | Inr sub \<Rightarrow>
     (case validateSummonerAccess s sub [\<lparr>idParticipantID = 0, idSummonerID = srSummonerId r, idSummonerName = []\<rparr>] (srPlatform r) of
        Some err \<Rightarrow> ([], Err err)
      | None \<Rightarrow>
          if \<not> checkInvalidCharacters (checked_fields r) then ([], Err bad_characters)
          else ([matches_query s r],
            case svQuery s (matches_query s r) of
              Inl err \<Rightarrow> Err err
            | Inr found \<Rightarrow>
                (case place_rows (length found) 0 found [] of
                   None \<Rightarrow> Err ''unhandled type''
                 | Some res \<Rightarrow> Ok \<lparr>slCount = int (length found), slResult = res\<rparr>))))"

subsection \<open>Search\<close>

record replay_entry =
  rpMatchId :: int
  rpPlatform :: string
  rpGoldDiffZeroToTen :: real
  rpGoodKills :: "(string \<times> int) list"
  rpOpponentChampionId :: int
  rpTier :: string
  rpCsDiff :: real

definition order_by :: "string \<Rightarrow> string option" where
  "order_by stat =
     (if stat = ''laning'' then Some ''gold_diff_zero_to_ten DESC''
      else if stat = ''engagements'' then Some ''good_kills.total DESC''
      else if stat = ''cs_diff'' then Some ''cs_per_minute_diff_zero_to_ten DESC''
      else None)"

definition kill_columns :: "string list" where
  "kill_columns = [''total'', ''numbers_difference'', ''numbers_difference_lacking_vision'', ''health_difference'',
     ''gold_spent_difference'', ''neutral_damage_difference'', ''other'']"

definition kills_of :: "bq_row \<Rightarrow> (string \<times> int) list" where
  "kills_of row = concat (map (\<lambda>k. case map_of row k of Some (BqInt i) \<Rightarrow> [(k, i)] | _ \<Rightarrow> []) kill_columns)"

text \<open>The type assertions on the columns panic on any other type, and on a null.\<close>

definition search_row :: "bq_row \<Rightarrow> replay_entry outcome" where
  "search_row row =
     (case (map_of row ''match_id'', map_of row ''platform_id'', map_of row ''gold_diff_zero_to_ten'',
            map_of row ''opponent_champion_id'', map_of row ''tier'', map_of row ''cs_per_minute_diff_zero_to_ten'') of
        (Some (BqInt m), Some (BqString p), Some (BqFloat g), Some (BqInt c), Some (BqString t), Some (BqFloat d)) \<Rightarrow>
          Ok \<lparr>rpMatchId = m, rpPlatform = p, rpGoldDiffZeroToTen = g, rpGoodKills = kills_of row,
              rpOpponentChampionId = c, rpTier = t, rpCsDiff = d\<rparr>
      | _ \<Rightarrow> Panic ''interface conversion'')"

fun search_rows :: "bq_row list \<Rightarrow> replay_entry list outcome" where
  "search_rows [] = Ok []"
| "search_rows (row # found) = bind_ok (search_row row) (\<lambda>x. bind_ok (search_rows found) (\<lambda>xs. Ok (x # xs)))"

definition Search :: "stats_server \<Rightarrow> string \<Rightarrow> search_request \<Rightarrow> string list \<times> replay_entry list outcome" where
  "Search s token r =
     (if \<not> SearchRequest_Valid r then ([], Err ''invalid request'')
      else case validateCtx s token of
        Inl err \<Rightarrow> ([], Err err)
      | Inr sub \<Rightarrow>
     (case order_by (sqTopStat r) of
        None \<Rightarrow> ([], Err ''invalid top_stat'')
      | Some orderBy \<Rightarrow>
          if \<not> checkInvalidCharacters (search_fields r) then ([], Err bad_characters)
          else ([search_query s r orderBy],
            case svQuery s (search_query s r orderBy) of Inl err \<Rightarrow> Err err | Inr found \<Rightarrow> search_rows found)))"

subsection \<open>What a query says outside its literals\<close>

text \<open>A double quote opens a literal and the next one closes it. \<open>outside\<close> leaves the literals out.\<close>

fun outside :: "bool \<Rightarrow> string \<Rightarrow> string" where
  "outside inside [] = []"
| "outside inside (c # cs) =
     (if c = CHR 0x22 then c # outside (\<not> inside) cs
      else if inside then outside True cs else c # outside False cs)"

fun ends_inside :: "bool \<Rightarrow> string \<Rightarrow> bool" where
  "ends_inside inside [] = inside"
| "ends_inside inside (c # cs) = ends_inside (if c = CHR 0x22 then \<not> inside else inside) cs"

definition no_quote :: "string \<Rightarrow> bool" where
  "no_quote x \<longleftrightarrow> CHR 0x22 \<notin> set x"

lemma outside_append:
  "outside b (x @ y) = outside b x @ outside (ends_inside b x) y"
  "ends_inside b (x @ y) = ends_inside (ends_inside b x) y"
  by (induction x arbitrary: b) auto

lemma no_quote_outside: "no_quote x \<Longrightarrow> outside False x = x"
  and no_quote_inside: "no_quote x \<Longrightarrow> outside True x = []"
  and no_quote_ends: "no_quote x \<Longrightarrow> ends_inside b x = b"
  by (induction x arbitrary: b) (auto simp: no_quote_def)

lemma quoted_outside:
  "no_quote v \<Longrightarrow> outside False (quoted v) = [CHR 0x22, CHR 0x22]" "no_quote v \<Longrightarrow> ends_inside False (quoted v) = False"
  by (simp_all add: quoted_def outside_append no_quote_inside no_quote_ends)

lemma no_quote_append [simp]: "no_quote (x @ y) \<longleftrightarrow> no_quote x \<and> no_quote y" "no_quote []"
  "no_quote (c # x) \<longleftrightarrow> c \<noteq> CHR 0x22 \<and> no_quote x"
  by (auto simp: no_quote_def)

lemma plain_no_quote: "list_all plain_char x \<Longrightarrow> no_quote x"
  by (induction x) (auto simp: plain_char_def Let_def)

lemma show_int_no_quote [simp]: "no_quote (show_int i)"
proof -
  have "digit_char d \<noteq> CHR 0x22" if "d < 10" for d
  proof -
    have "digit_val (digit_char d) = Some d" using that by simp
    moreover have "digit_val CHR 0x22 = None" by (simp add: digit_val_def)
    ultimately show ?thesis by auto
  qed
  then have "no_quote (show_nat n)" for n using show_nat_chars[of "CHR 0x22" n] by (metis no_quote_def)
  then show ?thesis by (simp add: show_int_def)
qed

text \<open>A text that says the same outside its literals, and leaves no literal open.\<close>

definition alike :: "string \<Rightarrow> string \<Rightarrow> bool" where
  "alike x y \<longleftrightarrow> outside False x = outside False y \<and> \<not> ends_inside False x \<and> \<not> ends_inside False y"

named_theorems alike

lemma alike_append [alike]: "alike x y \<Longrightarrow> alike x' y' \<Longrightarrow> alike (x @ x') (y @ y')"
  by (simp add: alike_def outside_append)

lemma alike_refl [alike]: "no_quote x \<Longrightarrow> alike x x"
  by (simp add: alike_def no_quote_ends)

lemma alike_quoted [alike]: "no_quote x \<Longrightarrow> no_quote y \<Longrightarrow> alike (quoted x) (quoted y)"
  by (simp add: alike_def quoted_outside)

lemma alike_text [alike]:
  "no_quote label \<Longrightarrow> list_all plain_char v \<Longrightarrow> list_all plain_char w \<Longrightarrow> v = [] \<longleftrightarrow> w = [] \<Longrightarrow>
   alike (text_filter label v) (text_filter label w)"
  by (auto simp: text_filter_def intro!: alike plain_no_quote)

lemma alike_prefix [alike]:
  "no_quote label \<Longrightarrow> list_all plain_char v \<Longrightarrow> list_all plain_char w \<Longrightarrow> v = [] \<longleftrightarrow> w = [] \<Longrightarrow>
   alike (prefix_filter label v) (prefix_filter label w)"
  by (auto simp: prefix_filter_def dest: plain_no_quote intro!: alike)

lemma alike_if [alike]: "alike x x' \<Longrightarrow> alike y y' \<Longrightarrow> alike (if b then x else y) (if b then x' else y')"
  by simp

lemma alike_int [alike]: "no_quote label \<Longrightarrow> alike (int_filter label i) (int_filter label i)"
  by (auto simp: int_filter_def intro!: alike)

lemma alike_commas: "list_all2 alike xs ys \<Longrightarrow> alike (commas xs) (commas ys)"
proof (induction rule: list_all2_induct)
  case (Cons x xs y ys)
  then have "alike (x @ '','' @ commas xs) (y @ '','' @ commas ys)" by (intro alike) simp_all
  with Cons show ?case by (cases xs; cases ys) auto
qed (simp add: alike_refl)

definition same_stats_shape :: "stats_request \<Rightarrow> stats_request \<Rightarrow> bool" where
  "same_stats_shape r r' \<longleftrightarrow>
     (srPlatform r = [] \<longleftrightarrow> srPlatform r' = []) \<and> (srQueueType r = [] \<longleftrightarrow> srQueueType r' = []) \<and>
     (srPatchPrefix r = [] \<longleftrightarrow> srPatchPrefix r' = []) \<and> (srTier r = [] \<longleftrightarrow> srTier r' = []) \<and>
     (srDivision r = [] \<longleftrightarrow> srDivision r' = []) \<and> (srLane r = [] \<longleftrightarrow> srLane r' = []) \<and>
     (srRole r = [] \<longleftrightarrow> srRole r' = []) \<and> (srRolePosition r = [] \<longleftrightarrow> srRolePosition r' = []) \<and>
     srChampionId r = srChampionId r' \<and> srOpponentChampionId r = srOpponentChampionId r' \<and>
     srSummonerId r = srSummonerId r' \<and> srLastN r = srLastN r' \<and> srSelects r = srSelects r'"

definition same_search_shape :: "search_request \<Rightarrow> search_request \<Rightarrow> bool" where
  "same_search_shape r r' \<longleftrightarrow>
     (sqPlatform r = [] \<longleftrightarrow> sqPlatform r' = []) \<and> (sqQueueType r = [] \<longleftrightarrow> sqQueueType r' = []) \<and>
     (sqPatchPrefix r = [] \<longleftrightarrow> sqPatchPrefix r' = []) \<and> (sqRolePosition r = [] \<longleftrightarrow> sqRolePosition r' = []) \<and>
     map_option length (sqTiers r) = map_option length (sqTiers r') \<and>
     sqChampionId r = sqChampionId r' \<and> sqOpponentChampionId r = sqOpponentChampionId r' \<and>
     sqGoodKills r = sqGoodKills r' \<and> sqExcludeSummonerId r = sqExcludeSummonerId r' \<and> sqTopStat r = sqTopStat r' \<and>
     sqLastN r = sqLastN r'"

lemma expressions_no_quote: "list_all (\<lambda>(k, t). no_quote t) expressions"
  by code_simp

lemma translate_no_quote: "no_quote e \<Longrightarrow> no_quote (translateExpression e)"
  using expressions_no_quote by (auto simp: translateExpression_def list_all_iff split: option.splits dest!: map_of_SomeD)

lemma column_no_quote: "no_quote e \<Longrightarrow> no_quote (column_name e)"
  by (auto simp: column_name_def no_quote_def)

lemma commas_no_quote: "list_all no_quote xs \<Longrightarrow> no_quote (commas xs)"
  by (induction xs rule: commas.induct) auto

lemma selects_no_quote:
  assumes "checkInvalidCharacters (checked_fields r)"
  shows "no_quote (commas (map quantile_column (srSelects r)))"
    "no_quote (commas (map plain_column (srSelects r) @ [''basic_match_id as match_id'']))"
proof -
  have "list_all no_quote (srSelects r)"
    using assms by (auto simp: checkInvalidCharacters_def checked_fields_def list_all_iff[of no_quote] list_all_iff[of "list_all plain_char"]
        intro!: plain_no_quote)
  then have "list_all no_quote (map quantile_column (srSelects r))"
    "list_all no_quote (map plain_column (srSelects r) @ [''basic_match_id as match_id''])"
    by (auto simp: list_all_iff quantile_column_def plain_column_def translate_no_quote column_no_quote)
  then show "no_quote (commas (map quantile_column (srSelects r)))"
    "no_quote (commas (map plain_column (srSelects r) @ [''basic_match_id as match_id'']))"
    by (blast intro: commas_no_quote)+
qed

definition tables_plain :: "stats_server \<Rightarrow> bool" where
  "tables_plain s \<longleftrightarrow> no_quote (BasicTable s) \<and> no_quote (AdvancedTable s)"

lemma joined_alike [alike]: "tables_plain s \<Longrightarrow> no_quote kind \<Longrightarrow> alike (joined s kind) (joined s kind)"
  by (rule alike_refl) (simp add: joined_def tables_plain_def)

lemma checked_plain:
  assumes "checkInvalidCharacters (checked_fields r)"
  shows "list_all plain_char (srPlatform r)" "list_all plain_char (srQueueType r)" "list_all plain_char (srPatchPrefix r)"
    "list_all plain_char (srTier r)" "list_all plain_char (srDivision r)" "list_all plain_char (srLane r)"
    "list_all plain_char (srRole r)"
  using assms by (simp_all add: checkInvalidCharacters_def checked_fields_def)

lemma where_alike:
  assumes "same_stats_shape r r'" "checkInvalidCharacters (checked_fields r)" "checkInvalidCharacters (checked_fields r')"
  shows "alike (BuildWhereClause r) (BuildWhereClause r')"
proof -
  note f = checked_plain[OF assms(2)] checked_plain[OF assms(3)] assms(1)[unfolded same_stats_shape_def]
  have n: "srChampionId r' = srChampionId r" "srOpponentChampionId r' = srOpponentChampionId r" "srSummonerId r' = srSummonerId r"
    using assms(1) by (simp_all add: same_stats_shape_def)
  show ?thesis unfolding BuildWhereClause_def n by (intro alike; simp add: f)
qed

lemma both_clauses_alike:
  assumes "same_stats_shape r r'" "checkInvalidCharacters (checked_fields r)" "checkInvalidCharacters (checked_fields r')"
    and "list_all plain_char (srRolePosition r)" "list_all plain_char (srRolePosition r')"
  shows "alike (both_clauses r) (both_clauses r')"
proof -
  have "alike (BuildAdvancedWhereClause r) (BuildAdvancedWhereClause r')"
    unfolding BuildAdvancedWhereClause_def using assms(1,4,5)
    by (intro alike; simp add: same_stats_shape_def)
  then show ?thesis unfolding both_clauses_def by (intro where_alike[OF assms(1-3)] alike; simp)
qed

text \<open>
  C14: two requests that set the same filters, give the same numbers and select the same columns, and whose
  texts have no character but letters, digits, underscores and dots, lead to queries that differ in
  nothing but the content of literals: no text of a user becomes part of the query itself.
\<close>

theorem plain_texts_stay_literals:
  assumes "tables_plain s" "same_stats_shape r r'"
    and "list_all plain_char (srRolePosition r)" "list_all plain_char (srRolePosition r')"
    and "fst (Percentiles s token r) = [q] \<and> fst (Percentiles s token' r') = [q'] \<or>
      fst (SummonerMatches s token r) = [q] \<and> fst (SummonerMatches s token' r') = [q']"
  shows "outside False q = outside False q'"
proof -
  have sel: "srSelects r' = srSelects r" "srLastN r' = srLastN r" using assms(2) by (simp_all add: same_stats_shape_def)
  have p: "alike (percentiles_query s r) (percentiles_query s r')" "alike (matches_query s r) (matches_query s r')"
    if c: "checkInvalidCharacters (checked_fields r)" "checkInvalidCharacters (checked_fields r')"
  proof -
    note b = both_clauses_alike[OF assms(2) c assms(3,4)] and n = selects_no_quote[OF c(1)]
    show "alike (percentiles_query s r) (percentiles_query s r')"
      unfolding percentiles_query_def Let_def sel
      by (intro alike b assms(1); simp add: n)
    show "alike (matches_query s r) (matches_query s r')"
      unfolding matches_query_def sel by (intro alike b assms(1); simp only: n no_quote_append show_int_no_quote; simp)
  qed
  from assms(5) show ?thesis
  proof
    assume "fst (Percentiles s token r) = [q] \<and> fst (Percentiles s token' r') = [q']"
    then have "checkInvalidCharacters (checked_fields r) \<and> q = percentiles_query s r"
      "checkInvalidCharacters (checked_fields r') \<and> q' = percentiles_query s r'"
      by (auto simp: Percentiles_def split: if_splits sum.splits)
    then show ?thesis using p(1) by (simp add: alike_def)
  next
    assume "fst (SummonerMatches s token r) = [q] \<and> fst (SummonerMatches s token' r') = [q']"
    then have "checkInvalidCharacters (checked_fields r) \<and> q = matches_query s r"
      "checkInvalidCharacters (checked_fields r') \<and> q' = matches_query s r'"
      by (auto simp: SummonerMatches_def split: if_splits sum.splits option.splits)
    then show ?thesis using p(2) by (simp add: alike_def)
  qed
qed

lemma int_no_quote: "no_quote label \<Longrightarrow> no_quote (int_filter label i)"
  by (simp add: int_filter_def)

lemma kills_no_quote: "list_all (list_all plain_char) ks \<Longrightarrow> no_quote (kills_filter ks)"
  by (induction ks) (simp_all add: kills_filter_def plain_no_quote)

lemma search_where_alike:
  assumes "same_search_shape r r'" "checkInvalidCharacters (search_fields r)" "checkInvalidCharacters (search_fields r')"
  shows "alike (Search_BuildWhereClause r) (Search_BuildWhereClause r')"
proof -
  have f: "list_all plain_char (sqPlatform x)" "list_all plain_char (sqQueueType x)" "list_all plain_char (sqPatchPrefix x)"
    "list_all plain_char (sqRolePosition x)" "list_all (list_all plain_char) (sqGoodKills x)"
    "\<And>ts. sqTiers x = Some ts \<Longrightarrow> list_all (list_all plain_char) ts"
    if "checkInvalidCharacters (search_fields x)" for x
    using that by (auto simp: checkInvalidCharacters_def search_fields_def list_all_append)
  note fr = f[OF assms(2)] f[OF assms(3)] assms(1)[unfolded same_search_shape_def]
  have n: "sqChampionId r' = sqChampionId r" "sqOpponentChampionId r' = sqOpponentChampionId r" "sqGoodKills r' = sqGoodKills r"
    "sqExcludeSummonerId r' = sqExcludeSummonerId r" "map_option length (sqTiers r) = map_option length (sqTiers r')"
    using assms(1) by (simp_all add: same_search_shape_def)
  have kills: "no_quote (kills_filter (sqGoodKills r))" "no_quote (kills_filter (sqGoodKills r'))"
    using fr(5) by (simp_all add: kills_no_quote n(3))
  have tiers: "alike (tiers_filter (sqTiers r)) (tiers_filter (sqTiers r'))"
  proof (cases "sqTiers r")
    case (Some ts)
    then obtain ts' where ts': "sqTiers r' = Some ts'" "length ts = length ts'" using n(5) by (cases "sqTiers r'") auto
    have "list_all2 alike (map quoted ts) (map quoted ts')"
      using ts'(2) f(6)[OF assms(2) Some] f(6)[OF assms(3) ts'(1)]
      by (auto simp: list_all2_conv_all_nth list_all_length intro!: alike plain_no_quote)
    then show ?thesis unfolding tiers_filter_def Some ts'(1) option.case
      by (intro alike alike_commas) simp_all
  qed (use n(5) in \<open>auto simp: tiers_filter_def intro!: alike\<close>)
  show ?thesis
    unfolding Search_BuildWhereClause_def n(1-4) by (intro tiers alike; simp add: fr kills int_no_quote)
qed

text \<open>
  the same for \<open>Search\<close>, which checks every text of its request.
\<close>

theorem search_texts_stay_literals:
  assumes "tables_plain s" "same_search_shape r r'"
    and "fst (Search s token r) = [q]" "fst (Search s token' r') = [q']"
  shows "outside False q = outside False q'"
proof -
  have sel: "sqTopStat r' = sqTopStat r" "sqLastN r' = sqLastN r" using assms(2) by (simp_all add: same_search_shape_def)
  obtain ob where ob: "order_by (sqTopStat r) = Some ob" "checkInvalidCharacters (search_fields r)" "q = search_query s r ob"
    using assms(3) by (auto simp: Search_def split: if_splits sum.splits option.splits)
  moreover have "checkInvalidCharacters (search_fields r') \<and> q' = search_query s r' ob"
    using assms(4) ob(1) by (auto simp: Search_def sel split: if_splits sum.splits option.splits)
  moreover have "no_quote ob" using ob(1) by (auto simp: order_by_def split: if_splits)
  moreover have "alike (search_query s r ob) (search_query s r' ob)"
    if "checkInvalidCharacters (search_fields r')" "no_quote ob"
    unfolding search_query_def sel
    by (intro alike search_where_alike assms(1,2) ob(2) that; simp add: that)
  ultimately show ?thesis by (simp add: alike_def)
qed

text \<open>
  C15: \<open>Percentiles\<close> does not check the role position. Whatever the text, a request that is otherwise
  accepted and gives the text between quotes as its role position has it in the query outside every
  literal.
\<close>

theorem role_position_injection:
  assumes "fst (Percentiles s token r) \<noteq> []" "tables_plain s" "no_quote t"
  shows "\<exists>q. fst (Percentiles s token (r\<lparr>srRolePosition := quoted t\<rparr>)) = [q] \<and> sublist t (outside False q)"
proof -
  let ?r = "r\<lparr>srRolePosition := quoted t\<rparr>"
  have c: "checkInvalidCharacters (checked_fields r)" "StatsRequest_Valid r" "\<exists>sub. validateCtx s token = Inr sub"
    using assms(1) by (auto simp: Percentiles_def split: if_splits sum.splits)
  have same: "checked_fields ?r = checked_fields r" "srSelects ?r = srSelects r" by (simp_all add: checked_fields_def)
  then have q: "fst (Percentiles s token ?r) = [percentiles_query s ?r]"
    using c by (auto simp: Percentiles_def StatsRequest_Valid_def quoted_def)
  have closed: "ends_inside False x = False" if "alike x x" for x using that by (simp add: alike_def)
  have pre: "alike (commas (map quantile_column (srSelects r))) (commas (map quantile_column (srSelects r)))"
    "alike (joined s ''LEFT OUTER'') (joined s ''LEFT OUTER'')" "alike (BuildWhereClause ?r) (BuildWhereClause ?r)"
  proof -
    show "alike (commas (map quantile_column (srSelects r))) (commas (map quantile_column (srSelects r)))"
      by (rule alike_refl[OF selects_no_quote(1)[OF c(1)]])
    show "alike (joined s ''LEFT OUTER'') (joined s ''LEFT OUTER'')" by (rule joined_alike[OF assms(2)]) simp
    show "alike (BuildWhereClause ?r) (BuildWhereClause ?r)"
      using c(1) by (intro where_alike) (simp_all add: same_stats_shape_def checked_fields_def)
  qed
  obtain x y where xy: "percentiles_query s ?r = x @ quoted (quoted t) @ y" "alike x x"
  proof (cases "srLastN r = 0")
    case True
    show thesis
      by (rule that[of "''SELECT count(*) as count, '' @ commas (map quantile_column (srSelects r)) @ joined s ''LEFT OUTER'' @
            BuildWhereClause ?r @ '' AND '' @ ''1=1'' @ '' AND role_position = ''" "[]"])
        (simp add: percentiles_query_def Let_def both_clauses_def BuildAdvancedWhereClause_def text_filter_def True quoted_def,
         (rule alike_append pre | (rule alike_refl, simp))+)
  next
    case False
    show thesis
      by (rule that[of "''SELECT count(*) as count, '' @ commas (map quantile_column (srSelects r)) @ '' FROM (SELECT *'' @
            joined s ''LEFT OUTER'' @ BuildWhereClause ?r @ '' AND '' @ ''1=1'' @ '' AND role_position = ''"
            "'' ORDER BY match_creation desc LIMIT '' @ show_int (srLastN r) @ '')''"])
        (simp add: percentiles_query_def Let_def both_clauses_def BuildAdvancedWhereClause_def text_filter_def False quoted_def,
         (rule alike_append pre | (rule alike_refl, simp))+)
  qed
  have "sublist t (outside False (quoted (quoted t) @ y))"
  proof -
    have "outside False (quoted (quoted t) @ y) = [CHR 0x22, CHR 0x22] @ t @ ([CHR 0x22, CHR 0x22] @ outside False y)"
      using assms(3) by (simp add: quoted_def outside_append no_quote_outside no_quote_ends)
    then show ?thesis by (metis sublist_appendI)
  qed
  then have "sublist t (outside False (percentiles_query s ?r))"
    unfolding xy(1) outside_append(1)[of False x] closed[OF xy(2)] by (metis append.assoc sublist_def)
  then show ?thesis using q by simp
qed

subsection \<open>Who may see a match\<close>

text \<open>The token's user has an account for a player of the match, in the region of its platform.\<close>

definition plays_in :: "stats_server \<Rightarrow> string \<Rightarrow> int \<Rightarrow> string \<Rightarrow> bool" where
  "plays_in s token matchID platform \<longleftrightarrow>
     (case (svClaims s token, participantIdentitiesInMatch s matchID platform) of
        (Inr sub, Inr pIds) \<Rightarrow>
          (case svUsers s sub of
             Inl err \<Rightarrow> False
           | Inr accounts \<Rightarrow> list_ex (has_summoner accounts (region_string (RegionFromPlatform (PlatformFromString platform)))) pIds)
      | _ \<Rightarrow> False)"

lemma allowed_plays_in:
  assumes "\<not> in_dev s" "allowed_players s token matchID platform = Inr pIds"
  shows "plays_in s token matchID platform"
  using assms by (auto simp: allowed_players_def validateCtx_def plays_in_def validateSummonerAccess_def
      split: sum.splits option.splits if_splits)

text \<open>
  C16: outside development, the statistics of a match are shown to nobody but a user who has an account for
  one of its players in the region of its platform.
\<close>

theorem only_own_matches:
  assumes "\<not> in_dev s"
  shows "(\<forall>text. Details s token r = Inr text \<longrightarrow> plays_in s token (mrMatchId r) (mrPlatform r)) \<and>
    (\<forall>text. Advanced s token r = Inr text \<longrightarrow> plays_in s token (mrMatchId r) (mrPlatform r)) \<and>
    (\<forall>team. TeamDetails s token t = Ok team \<longrightarrow> plays_in s token (trMatchId t) (trPlatform t)) \<and>
    (\<forall>team. TeamAdvanced s token t = Inr team \<longrightarrow> plays_in s token (trMatchId t) (trPlatform t))"
  using allowed_plays_in[OF assms]
  by (auto simp: Details_def Advanced_def TeamDetails_def TeamAdvanced_def split: if_splits sum.splits)

subsection \<open>A player without an opponent\<close>

text \<open>
  when the team has a player without an opponent in the lane, the request for the team's
  statistics panics instead of being answered.
\<close>

theorem team_page_panics:
  assumes "ComputeBasic m ms sid = Ok b" "playerAndParticipant m sid = Inr (ident, p)"
    and "list_all (\<lambda>c. tlLane (plTimeline c) = tlLane (plTimeline p) \<longrightarrow> plTeamID c = plTeamID p) (mdParticipants m)"
    and "TeamRequest_Valid r" "allowed_players s token (trMatchId r) (trPlatform r) = Inr pIds"
    and "team_files s (svBasic s) r ''.basic.json'' pIds = Inr (texts, bs)" "b \<in> set bs"
  shows "\<exists>e. TeamDetails s token r = Panic e"
proof -
  obtain e where "AverageBasicStats bs = Panic e"
    using no_opponent_no_average(2)[OF assms(1,2) _ assms(7)] assms(3) by (auto simp: list_all_iff)
  then show ?thesis using assms(4-7) by (auto simp: TeamDetails_def)
qed

subsection \<open>Missing values\<close>

lemma place_row_iff:
  "(\<exists>res'. place_row n i row res = Some res') \<longleftrightarrow> list_all (\<lambda>(k, v). as_float v \<noteq> None) row"
proof (induction row arbitrary: res)
  case (Cons x row)
  obtain k v where x: "x = (k, v)" by fastforce
  show ?case by (cases "as_float v") (simp_all add: x Cons.IH)
qed simp

lemma place_rows_iff:
  "(\<exists>res'. place_rows n i found res = Some res') \<longleftrightarrow> list_all (list_all (\<lambda>(k, v). as_float v \<noteq> None)) found"
proof (induction found arbitrary: i res)
  case (Cons row found)
  show ?case
  proof (cases "place_row n i row res")
    case None
    then have "\<not> list_all (\<lambda>(k, v). as_float v \<noteq> None) row" using place_row_iff[of n i row res] by simp
    with None show ?thesis by simp
  next
    case (Some res')
    then have "list_all (\<lambda>(k, v). as_float v \<noteq> None) row" using place_row_iff[of n i row res] by auto
    with Some Cons.IH[of "Suc i" res'] show ?thesis by simp
  qed
qed simp

text \<open>The value of a column for a row; a place that nothing was put in holds zero.\<close>

definition cell :: "(string \<times> real list) list \<Rightarrow> string \<Rightarrow> nat \<Rightarrow> real" where
  "cell res k i = (case map_of res k of None \<Rightarrow> 0 | Some xs \<Rightarrow> if i < length xs then xs ! i else 0)"

definition wide :: "nat \<Rightarrow> (string \<times> real list) list \<Rightarrow> bool" where
  "wide n res \<longleftrightarrow> (\<forall>k xs. map_of res k = Some xs \<longrightarrow> length xs = n)"

lemma place_cell:
  assumes "wide n res" "i < n"
    and "res' = AList.update k ((case map_of res k of None \<Rightarrow> replicate n 0 | Some xs \<Rightarrow> xs)[i := x]) res"
  shows "wide n res'" "cell res' k' j = (if k' = k \<and> j = i then x else cell res k' j)"
  using assms by (auto simp: wide_def cell_def update_conv' split: option.splits if_splits)

lemma place_row_cell:
  assumes "place_row n i row res = Some res'" "wide n res" "i < n" "distinct (map fst row)"
  shows "wide n res' \<and> (\<forall>k j. cell res' k j =
    (if j = i then (case map_of row k of None \<Rightarrow> cell res k j | Some v \<Rightarrow> the (as_float v)) else cell res k j))"
  using assms(1,2,4)
proof (induction row arbitrary: res)
  case (Cons y row)
  obtain k0 v0 where y: "y = (k0, v0)" by fastforce
  obtain x where x: "as_float v0 = Some x" using Cons.prems(1) by (auto simp: y split: option.splits)
  let ?r = "AList.update k0 ((case map_of res k0 of None \<Rightarrow> replicate n 0 | Some xs \<Rightarrow> xs)[i := x]) res"
  note s = place_cell[where k = k0 and x = x, OF Cons.prems(2) assms(3) refl]
  have "map_of row k0 = None" using Cons.prems(3) by (simp add: y map_of_eq_None_iff)
  moreover have "place_row n i row ?r = Some res'" using Cons.prems(1) by (simp add: y x)
  ultimately show ?case using Cons.IH[of ?r] s Cons.prems(3) by (auto simp: y x split: option.splits)
qed simp

lemma place_rows_cell:
  assumes "place_rows n i found res = Some res'" "wide n res" "i + length found \<le> n" "list_all (\<lambda>row. distinct (map fst row)) found"
    and "j < length found" "map_of (found ! j) k = Some v"
  shows "cell res' k (i + j) = the (as_float v)"
  using assms
proof (induction found arbitrary: i res j)
  case (Cons row found)
  obtain r where r: "place_row n i row res = Some r" "place_rows n (Suc i) found r = Some res'"
    using Cons.prems(1) by (auto simp: bind_eq_Some_conv)
  have c: "wide n r" "cell r k j' = (if j' = i then (case map_of row k of None \<Rightarrow> cell res k j' | Some v \<Rightarrow> the (as_float v)) else cell res k j')" for j'
    using place_row_cell[OF r(1) Cons.prems(2)] Cons.prems(3,4) by auto
  have keep: "cell res'' k j' = cell r'' k j'" if "place_rows n i' fs r'' = Some res''" "wide n r''" "i' + length fs \<le> n"
      "list_all (\<lambda>row. distinct (map fst row)) fs" "j' < i'" for res'' r'' i' fs j'
    using that
  proof (induction fs arbitrary: i' r'')
    case (Cons row' fs)
    obtain q where q: "place_row n i' row' r'' = Some q" "place_rows n (Suc i') fs q = Some res''"
      using Cons.prems(1) by (auto simp: bind_eq_Some_conv)
    then show ?case using Cons.IH[OF q(2)] place_row_cell[OF q(1) Cons.prems(2)] Cons.prems(3-5) by auto
  qed simp
  show ?case
  proof (cases j)
    case 0
    then show ?thesis using keep[OF r(2) c(1), of i] c(2)[of i] Cons.prems(3,4,6) by simp
  next
    case (Suc j0)
    then show ?thesis using Cons.IH[OF r(2) c(1), of j0] Cons.prems(3-6) by simp
  qed
qed simp

text \<open>
  C29: the matches of a summoner are answered only when no value of any row is missing, and then each
  column has for each match the value of its row. As the rows come from an outer join, one match without
  advanced statistics is enough for an error.
\<close>

theorem matches_all_or_nothing:
  assumes "fst (SummonerMatches s token r) = [q]" "svQuery s q = Inr found"
  shows "((\<exists>out. snd (SummonerMatches s token r) = Ok out) \<longleftrightarrow> list_all (list_all (\<lambda>(k, v). as_float v \<noteq> None)) found) \<and>
    (\<forall>out j k v. snd (SummonerMatches s token r) = Ok out \<and> list_all (\<lambda>row. distinct (map fst row)) found \<and> j < length found \<and>
      map_of (found ! j) k = Some v \<longrightarrow> as_float v = Some (cell (slResult out) k j))"
proof -
  have q: "snd (SummonerMatches s token r) =
      (case place_rows (length found) 0 found [] of
         None \<Rightarrow> Err ''unhandled type''
       | Some res \<Rightarrow> Ok \<lparr>slCount = int (length found), slResult = res\<rparr>)"
    using assms by (auto simp: SummonerMatches_def split: if_splits sum.splits option.splits)
  then have all: "(\<exists>out. snd (SummonerMatches s token r) = Ok out) \<longleftrightarrow> list_all (list_all (\<lambda>(k, v). as_float v \<noteq> None)) found"
    using place_rows_iff[of "length found" 0 found "[]"] by (auto split: option.splits)
  have "as_float v = Some (cell (slResult out) k j)"
    if ok: "snd (SummonerMatches s token r) = Ok out" "list_all (\<lambda>row. distinct (map fst row)) found" "j < length found"
      "map_of (found ! j) k = Some v" for out j k v
  proof -
    have "place_rows (length found) 0 found [] = Some (slResult out)" using ok(1) q by (auto split: option.splits)
    from place_rows_cell[OF this _ _ ok(2-4)] have "cell (slResult out) k j = the (as_float v)" by (simp add: wide_def)
    moreover have "as_float v \<noteq> None"
      using all ok(1,3) map_of_SomeD[OF ok(4)] by (fastforce simp: list_all_iff)
    ultimately show ?thesis by auto
  qed
  then show ?thesis using all by blast
qed

subsection \<open>An example\<close>

definition demo_server :: stats_server where
  "demo_server =
     \<lparr>svProjectID = ''vs-main'', BasicTable = ''lol.basic'', AdvancedTable = ''lol.advanced'', MatchDetailsDir = ''m'', StatsDir = ''s'',
      svClaims = (\<lambda>t. if t = ''ann'' then Inr ''u1'' else Inl ''bad token''),
      svUsers = (\<lambda>_. Inr [\<lparr>pbId = ''1'', pbUserId = ''u1'', pbSummonerId = show_int 11, pbRegion = ''na'', pbVantagePointBalance = 0,
                            pbConfirmed = True\<rparr>]),
      svRead = (\<lambda>f. Inr f), svMatch = (\<lambda>_. Inr Basic_Stats.demo_match),
      svBasic = (\<lambda>_. case ComputeBasic Basic_Stats.demo_match 0 22 of Ok b \<Rightarrow> Inr b | _ \<Rightarrow> Inl ''none''),
      svBasicJson = (\<lambda>_. Inr []), svAdvanced = (\<lambda>_. Inr (demo_advanced 1)), svAdvancedJson = (\<lambda>_. Inr []),
      svHistory = (\<lambda>_. Inr ([], [])), svQuery = (\<lambda>_. Inr [[(''kda'', BqFloat 2), (''match_id'', BqInt 5)]])\<rparr>"

definition demo_request :: "string \<Rightarrow> stats_request" where
  "demo_request tier =
     \<lparr>srPlatform = ''NA1'', srQueueType = [], srPatchPrefix = [], srTier = tier, srDivision = [], srLane = [], srRole = [],
      srRolePosition = [], srChampionId = 0, srOpponentChampionId = 0, srSummonerId = 11, srLastN = 20, srSelects = [''kda'']\<rparr>"

definition demo_search :: "string \<Rightarrow> search_request" where
  "demo_search tier =
     \<lparr>sqPlatform = ''NA1'', sqQueueType = [], sqPatchPrefix = [], sqTiers = Some [tier], sqRolePosition = ''mid'', sqChampionId = 1,
      sqOpponentChampionId = 0, sqGoodKills = [''total''], sqExcludeSummonerId = 0, sqTopStat = ''laning'', sqLastN = 5\<rparr>"

lemma demo_region: "region_string (RegionFromPlatform (PlatformFromString ''NA1'')) = ''na''"
  by code_simp

lemma demo_checks:
  "checkInvalidCharacters (checked_fields (demo_request ''GOLD''))" "checkInvalidCharacters (checked_fields (demo_request ''DIAMOND''))"
  "checkInvalidCharacters (search_fields (demo_search ''GOLD''))" "checkInvalidCharacters (search_fields (demo_search ''SILVER''))"
  by code_simp+

lemma demo_tables: "tables_plain demo_server" "\<not> in_dev demo_server"
  by (simp_all add: tables_plain_def demo_server_def in_dev_def)

lemma demo_valid_request: "StatsRequest_Valid (demo_request t)" "validateCtx demo_server ''ann'' = Inr ''u1''"
  "SearchRequest_Valid (demo_search t)" "order_by (sqTopStat (demo_search t)) = Some ''gold_diff_zero_to_ten DESC''"
  by (simp_all add: StatsRequest_Valid_def SearchRequest_Valid_def demo_request_def demo_search_def validateCtx_def in_dev_def
      demo_server_def order_by_def)

lemma demo_access: "allowed_players demo_server ''ann'' 5 ''NA1'' = Inr (mdIdentities Basic_Stats.demo_match)"
  unfolding allowed_players_def demo_valid_request(2) participantIdentitiesInMatch_def validateSummonerAccess_def demo_region
  by (simp add: demo_server_def in_dev_def Let_def has_summoner_def Basic_Stats.demo_match_def)

lemma demo_percentiles:
  "checkInvalidCharacters (checked_fields (demo_request t)) \<Longrightarrow>
   fst (Percentiles demo_server ''ann'' (demo_request t)) = [percentiles_query demo_server (demo_request t)]"
  by (simp add: Percentiles_def demo_valid_request)

theorem plain_texts_stay_literals_witness:
  "outside False (percentiles_query demo_server (demo_request ''GOLD'')) =
   outside False (percentiles_query demo_server (demo_request ''DIAMOND''))"
proof -
  have "same_stats_shape (demo_request ''GOLD'') (demo_request ''DIAMOND'')" by (simp add: same_stats_shape_def demo_request_def)
  then show ?thesis
    by (rule plain_texts_stay_literals[OF demo_tables(1) _ _ _
          disjI1[OF conjI[OF demo_percentiles[OF demo_checks(1)] demo_percentiles[OF demo_checks(2)]]]])
      (simp_all add: demo_request_def)
qed

theorem search_texts_stay_literals_witness:
  "outside False (search_query demo_server (demo_search ''GOLD'') ''gold_diff_zero_to_ten DESC'') =
   outside False (search_query demo_server (demo_search ''SILVER'') ''gold_diff_zero_to_ten DESC'')"
proof -
  have s: "fst (Search demo_server ''ann'' (demo_search t)) = [search_query demo_server (demo_search t) ''gold_diff_zero_to_ten DESC'']"
    if "checkInvalidCharacters (search_fields (demo_search t))" for t
    using that by (simp add: Search_def demo_valid_request)
  have "same_search_shape (demo_search ''GOLD'') (demo_search ''SILVER'')" by (simp add: same_search_shape_def demo_search_def)
  from search_texts_stay_literals[OF demo_tables(1) this s[OF demo_checks(3)] s[OF demo_checks(4)]] show ?thesis .
qed

theorem role_position_injection_witness:
  "\<exists>q. fst (Percentiles demo_server ''ann'' ((demo_request ''GOLD'')\<lparr>srRolePosition := quoted '' OR 1=1 --''\<rparr>)) = [q] \<and>
     sublist '' OR 1=1 --'' (outside False q)"
  by (rule role_position_injection[OF _ demo_tables(1)]) (simp_all add: demo_percentiles[OF demo_checks(1)])

theorem only_own_matches_witness:
  "\<exists>text. Details demo_server ''ann'' \<lparr>mrSummonerId = 22, mrPlatform = ''NA1'', mrMatchId = 5\<rparr> = Inr text \<and>
     plays_in demo_server ''ann'' 5 ''NA1''"
proof -
  have d: "\<exists>text. Details demo_server ''ann'' \<lparr>mrSummonerId = 22, mrPlatform = ''NA1'', mrMatchId = 5\<rparr> = Inr text"
    by (simp add: Details_def MatchRequest_Valid_def demo_access) (simp add: demo_server_def)
  with only_own_matches[OF demo_tables(2), of "''ann''" "\<lparr>mrSummonerId = 22, mrPlatform = ''NA1'', mrMatchId = 5\<rparr>"]
  show ?thesis by auto
qed

theorem team_page_panics_witness:
  "\<exists>e. TeamDetails demo_server ''ann'' \<lparr>trTeamId = 100, trPlatform = ''NA1'', trMatchId = 5\<rparr> = Panic e"
proof -
  let ?r = "\<lparr>trTeamId = 100, trPlatform = ''NA1'', trMatchId = 5\<rparr>"
  obtain b where b: "ComputeBasic Basic_Stats.demo_match 0 22 = Ok b"
    using basic_exists[OF demo_players(2)] demo_summaries by blast
  have "\<exists>texts. team_files demo_server (svBasic demo_server) ?r ''.basic.json'' (mdIdentities Basic_Stats.demo_match) = Inr (texts, [b, b])"
    using b by (simp add: Basic_Stats.demo_match_def TeamID_def BlueTeam_def RedTeam_def demo_server_def)
  then obtain texts where "team_files demo_server (svBasic demo_server) ?r ''.basic.json'' (mdIdentities Basic_Stats.demo_match) = Inr (texts, [b, b])" ..
  from team_page_panics[OF b demo_players(2) _ _ _ this, of "''ann''"] demo_access show ?thesis
    by (simp add: TeamRequest_Valid_def) (simp add: Basic_Stats.demo_match_def Basic_Stats.demo_player_def demo_timeline_def)
qed

theorem matches_all_or_nothing_witness:
  "\<exists>out. snd (SummonerMatches demo_server ''ann'' (demo_request ''GOLD'')) = Ok out \<and> cell (slResult out) ''kda'' 0 = 2"
proof -
  have a: "validateSummonerAccess demo_server ''u1'' [\<lparr>idParticipantID = 0, idSummonerID = 11, idSummonerName = []\<rparr>] ''NA1'' = None"
    unfolding validateSummonerAccess_def demo_region by (simp add: demo_server_def in_dev_def has_summoner_def)
  have f: "fst (SummonerMatches demo_server ''ann'' (demo_request ''GOLD'')) = [matches_query demo_server (demo_request ''GOLD'')]"
    using a demo_checks(1) by (simp add: SummonerMatches_def demo_valid_request) (simp add: demo_request_def)
  have q: "svQuery demo_server (matches_query demo_server (demo_request ''GOLD'')) = Inr [[(''kda'', BqFloat 2), (''match_id'', BqInt 5)]]"
    by (simp add: demo_server_def)
  obtain out where out: "snd (SummonerMatches demo_server ''ann'' (demo_request ''GOLD'')) = Ok out"
    using conjunct1[OF matches_all_or_nothing[OF f q]] by auto
  have "as_float (BqFloat 2) = Some (cell (slResult out) ''kda'' 0)"
    by (rule conjunct2[OF matches_all_or_nothing[OF f q], rule_format]) (use out in simp_all)
  with out show ?thesis by simp
qed

end
