(* ===== verification/Crawl.thy ===== *)
theory Crawl
  imports Basic_Stats Dispatch
begin

text \<open>
  How matches come into the system: \<open>lolcrawl-master/cmd/summoner_crawl\<close> looks up which matches a summoner
  played and asks for their download; \<open>lolcrawl-master/cmd/match_download\<close> gets the details of a match from
  Riot, fills in who played it, stores them, and hands the message on to the dispatcher.

  \<open>crawl_env\<close> holds the parameters: how the calls to the file store and to the queues end, what the Riot
  API answers, the clock (in seconds), \<open>time.Parse\<close>, and the matches whose stored file cannot be decoded. The
  files of a store are kept by their name in it.
\<close>

subsection \<open>Data\<close>

record game_player =
  gpChampionID :: int
  gpSummonerID :: int
  gpTeamID :: int

record game =
  gmChampionID :: int
  gmFellowPlayers :: "game_player list"
  gmGameID :: int
  gmMapId :: int
  gmSubType :: string
  gmTeamID :: int

record recent_games =
  rgGames :: "game list"
  rgSummonerID :: int

record match_ref =
  mfMatchID :: int
  mfPlatformID :: string
  mfQueue :: string
  mfTimestamp :: int

record summoner_crawl =
  scHistoryType :: string
  scPlatformId :: string
  scSince :: string
  scSummonerId :: int

record crawl_world =
  matchFiles :: "(string \<times> match_details) list"
  recentFiles :: "(string \<times> game) list"
  currentFiles :: "(string \<times> (int \<times> string) list) list"
  downloads :: "match_download list"
  downloaded :: "match_download list"
  crops :: nat

record crawl_env =
  cw_fate :: "nat \<Rightarrow> fate"
  cw_now :: "nat \<Rightarrow> int"
  cw_parse :: "string \<Rightarrow> string \<Rightarrow> string + int"
  cw_platform :: "string \<Rightarrow> string option"
  cw_match :: "nat \<Rightarrow> string \<Rightarrow> int \<Rightarrow> string + match_details"
  cw_match_list :: "nat \<Rightarrow> int \<Rightarrow> string + match_ref list"
  cw_recent :: "nat \<Rightarrow> int \<Rightarrow> string + recent_games"
  cw_damaged :: "nat \<Rightarrow> match_details option"

definition ctick :: "crawl_world \<Rightarrow> crawl_world" where
  "ctick w = w\<lparr>crops := Suc (crops w)\<rparr>"

definition ccall :: "crawl_env \<Rightarrow> (crawl_world \<Rightarrow> crawl_world) \<Rightarrow> crawl_world \<Rightarrow> string option \<times> crawl_world" where
  "ccall e eff w =
     (case answer_of (cw_fate e (crops w)) () of Inl err \<Rightarrow> Some err | Inr _ \<Rightarrow> None,
      ctick (effect_of (cw_fate e (crops w)) eff w))"

definition no_match :: match_details where
  "no_match =
     \<lparr>mdMapID = 0, mdMatchCreation = 0, mdMatchDuration = 0, mdMatchID = 0, mdMatchMode = [], mdMatchType = [],
      mdMatchVersion = [], mdIdentities = [], mdParticipants = [], mdPlatformID = [], mdQueueType = [], mdRegion = [],
      mdTeams = [], mdFrames = []\<rparr>"

definition match_name :: "int \<Rightarrow> string \<Rightarrow> string" where
  "match_name matchID region = show_int matchID @ ''-'' @ region @ ''.json''"

definition recent_name :: "int \<Rightarrow> string \<Rightarrow> string" where
  "recent_name gameID region = show_int gameID @ ''-'' @ region @ ''.recent.json''"

definition current_name :: "int \<Rightarrow> string \<Rightarrow> string" where
  "current_name matchID platform = show_int matchID @ ''-'' @ platform @ ''/current_game.json''"

subsection \<open>Downloading a match\<close>

definition GetCachedMatch :: "crawl_env \<Rightarrow> string \<Rightarrow> int \<Rightarrow> crawl_world \<Rightarrow> (string + match_details) \<times> crawl_world" where
  "GetCachedMatch e region matchID w =
     (case ccall e (\<lambda>w. w) w of
        (Some err, w1) \<Rightarrow> (Inl err, w1)
      | (None, w1) \<Rightarrow>
     (case map_of (matchFiles w1) (match_name matchID region) of
        None \<Rightarrow> (Inr no_match, w1)
      | Some m \<Rightarrow>
     (case ccall e (\<lambda>w. w) w1 of
        (Some err, w2) \<Rightarrow> (Inl err, w2)
      | (None, w2) \<Rightarrow> (Inr (case cw_damaged e (crops w1) of None \<Rightarrow> m | Some partly \<Rightarrow> partly), w2))))"

definition IsParticipantIdentitiesEmpty :: "match_details \<Rightarrow> bool" where
  "IsParticipantIdentitiesEmpty m \<longleftrightarrow> mdIdentities m = [] \<or> idSummonerID (hd (mdIdentities m)) = 0"

text \<open>An assignment to \<open>ParticipantIdentities[i]\<close>.\<close>

definition set_identity :: "nat \<Rightarrow> identity \<Rightarrow> identity list \<Rightarrow> identity list outcome" where
  "set_identity i x ids = (if i < length ids then Ok (ids[i := x]) else Panic ''index out of range'')"

fun current_identities :: "nat \<Rightarrow> (int \<times> string) list \<Rightarrow> identity list \<Rightarrow> identity list outcome" where
  "current_identities i [] ids = Ok ids"
| "current_identities i ((summoner, name) # ps) ids =
     bind_ok (set_identity i \<lparr>idParticipantID = int i + 1, idSummonerID = summoner, idSummonerName = name\<rparr> ids)
       (current_identities (Suc i) ps)"

definition FixParticipantIdentitiesWithCurrentGame ::
  "crawl_env \<Rightarrow> match_details \<Rightarrow> string \<Rightarrow> crawl_world \<Rightarrow> match_details outcome \<times> crawl_world" where
  "FixParticipantIdentitiesWithCurrentGame e m platform w =
     (case ccall e (\<lambda>w. w) w of
        (Some err, w1) \<Rightarrow> (Err err, w1)
      | (None, w1) \<Rightarrow>
     (case map_of (currentFiles w1) (current_name (mdMatchID m) (to_lower platform)) of
        None \<Rightarrow> (Err ''no such file'', w1)
      | Some ps \<Rightarrow> (bind_ok (current_identities 0 ps (mdIdentities m)) (\<lambda>ids. Ok (m\<lparr>mdIdentities := ids\<rparr>)), w1)))"

fun recent_identities :: "game_player list \<Rightarrow> nat \<Rightarrow> player list \<Rightarrow> identity list \<Rightarrow> identity list outcome" where
  "recent_identities fellows i [] ids = Ok ids"
| "recent_identities fellows i (p # ps) ids =
     (case List.find (\<lambda>g. gpChampionID g = plChampionID p \<and> gpTeamID g = plTeamID p) fellows of
        None \<Rightarrow> Err ''unable to find summonerid''
      | Some g \<Rightarrow>
          bind_ok (set_identity i \<lparr>idParticipantID = int i + 1, idSummonerID = gpSummonerID g, idSummonerName = []\<rparr> ids)
            (recent_identities fellows (Suc i) ps))"

definition FixParticipantIdentitiesWithRecentGames ::
  "crawl_env \<Rightarrow> match_details \<Rightarrow> string \<Rightarrow> crawl_world \<Rightarrow> match_details outcome \<times> crawl_world" where
  "FixParticipantIdentitiesWithRecentGames e m region w =
     (case ccall e (\<lambda>w. w) w of
        (Some err, w1) \<Rightarrow> (Err err, w1)
      | (None, w1) \<Rightarrow>
     (case map_of (recentFiles w1) (recent_name (mdMatchID m) region) of
        None \<Rightarrow> (Err ''no such file'', w1)
      | Some g \<Rightarrow>
          (bind_ok (recent_identities (gmFellowPlayers g) 0 (mdParticipants m) (mdIdentities m)) (\<lambda>ids. Ok (m\<lparr>mdIdentities := ids\<rparr>)), w1)))"

definition CacheMatch :: "crawl_env \<Rightarrow> match_details \<Rightarrow> crawl_world \<Rightarrow> string option \<times> crawl_world" where
  "CacheMatch e m w =
     (case ccall e (\<lambda>w. w) w of
        (Some err, w1) \<Rightarrow> (Some err, w1)
      | (None, w1) \<Rightarrow>
          ccall e (\<lambda>w. w\<lparr>matchFiles := AList.update (match_name (mdMatchID m) (to_lower (mdRegion m))) m (matchFiles w)\<rparr>) w1)"

definition fix_identities ::
  "crawl_env \<Rightarrow> match_download \<Rightarrow> match_details \<Rightarrow> crawl_world \<Rightarrow> match_details outcome \<times> crawl_world" where
  "fix_identities e msg m w =
     (let platform = PlatformFromString (mdPlatformId msg); region = region_string (RegionFromPlatform platform) in
      case ccall e (\<lambda>w. w) w of
        (Some err, w1) \<Rightarrow> (Err err, w1)
      | (None, w1) \<Rightarrow>
          if map_of (currentFiles w1) (current_name (mdMatchID m) (to_lower (mdPlatformID m))) \<noteq> None
          then FixParticipantIdentitiesWithCurrentGame e m platform w1
          else if map_of (recentFiles w1) (recent_name (mdMatchID m) region) \<noteq> None
          then FixParticipantIdentitiesWithRecentGames e m region w1
          else (Err ''no current_game or match details'', w1))"

text \<open>The details to work with, and whether they are new; \<open>None\<close> when the message is dropped as too old.\<close>

definition Timeout404 :: int where "Timeout404 = - (8 * 60 * 60)"

definition fetch_match ::
  "crawl_env \<Rightarrow> match_download \<Rightarrow> int \<Rightarrow> crawl_world \<Rightarrow> (string + (match_details \<times> bool) option) \<times> crawl_world" where
  "fetch_match e msg published w =
     (let region = region_string (RegionFromPlatform (PlatformFromString (mdPlatformId msg))) in
      case GetCachedMatch e region (mdMatchId msg) w of
        (Inl err, w1) \<Rightarrow> (Inl err, w1)
      | (Inr cached, w1) \<Rightarrow>
          if mdFrames cached \<noteq> [] then (Inr (Some (cached, False)), w1)
          else case cw_platform e (mdPlatformId msg) of
            Some err \<Rightarrow> (Inl err, w1)
          | None \<Rightarrow>
              let old = (published < cw_now e (crops w1) + Timeout404) in
              (case cw_match e (crops w1) (mdPlatformId msg) (mdMatchId msg) of
                 Inl err \<Rightarrow> (if err = ''api error - code: 404'' \<and> old then Inr None else Inl err, ctick w1)
               | Inr m \<Rightarrow>
                   (if mdFrames m = [] then if old then Inr None else Inl ''timeline missing from match details''
                    else Inr (Some (m, True)), ctick w1)))"

definition Handle_download ::
  "crawl_env \<Rightarrow> match_download \<Rightarrow> int \<Rightarrow> crawl_world \<Rightarrow> unit outcome \<times> crawl_world" where
  "Handle_download e msg published w =
     (if \<not> LolMatchDownload_Valid msg then (Err ''invalid message'', w)
      else case ccall e (\<lambda>w. w) w of
        (Some err, w0) \<Rightarrow> (Err err, w0)
      | (None, w0) \<Rightarrow>
     (case fetch_match e msg published w0 of
        (Inl err, w1) \<Rightarrow> (Err err, w1)
      | (Inr None, w1) \<Rightarrow> (Ok (), w1)
      | (Inr (Some (m, fresh)), w1) \<Rightarrow>
     (case (if IsParticipantIdentitiesEmpty m then fix_identities e msg m w1 else (Ok m, w1)) of
        (Panic p, w2) \<Rightarrow> (Panic p, w2)
      | (Err err, w2) \<Rightarrow> (Err err, w2)
      | (Ok m', w2) \<Rightarrow>
     (case (if fresh \<or> IsParticipantIdentitiesEmpty m then CacheMatch e m' w2 else (None, w2)) of
        (Some err, w3) \<Rightarrow> (Err (''error saving match: '' @ err), w3)
      | (None, w3) \<Rightarrow>
     (case ccall e (\<lambda>w. w\<lparr>downloaded := downloaded w @ [msg]\<rparr>) w3 of
        (Some err, w4) \<Rightarrow> (Err err, w4)
      | (None, w4) \<Rightarrow> (Ok (), w4))))))"

subsection \<open>Crawling a summoner\<close>

text \<open>
  The layout that \<open>Valid\<close> parses is the text of the message and the text is the layout; the handler has
  them the other way round. The zero time is the one \<open>time.Time\<close> starts with.
\<close>

definition RFC3339 :: string where "RFC3339 = ''2006-01-02T15:04:05Z07:00''"
definition zero_time :: int where "zero_time = - 62135596800"

definition LolSummonerCrawl_Valid :: "crawl_env \<Rightarrow> summoner_crawl \<Rightarrow> bool" where
  "LolSummonerCrawl_Valid e l \<longleftrightarrow>
     \<not> (scSummonerId l = 0 \<or> scPlatformId l = [] \<or> scHistoryType l = []) \<and>
     (scHistoryType l = ''ranked_history'' \<or> scHistoryType l = ''recent'') \<and>
     (case (if scSince l \<noteq> [] then cw_parse e (scSince l) RFC3339 else Inr zero_time) of
        Inl err \<Rightarrow> False
      | Inr t \<Rightarrow> \<not> (scHistoryType l = ''ranked_history'' \<and> t = zero_time))"

text \<open>\<open>MatchesRef\<close> with the options of \<open>rankedHistory\<close>.\<close>

definition MatchesRef :: "int \<Rightarrow> int \<Rightarrow> match_ref \<Rightarrow> bool" where
  "MatchesRef since until r \<longleftrightarrow>
     since * 1000 \<le> mfTimestamp r \<and> mfTimestamp r \<le> until * 1000 \<and> mfQueue r = ''TEAM_BUILDER_DRAFT_RANKED_5x5''"

definition rankedHistory :: "crawl_env \<Rightarrow> int \<Rightarrow> int \<Rightarrow> crawl_world \<Rightarrow> (string + match_ref list) \<times> crawl_world" where
  "rankedHistory e since summonerId w =
     (let until = cw_now e (crops w) in
      case cw_match_list e (crops w) summonerId of
        Inl err \<Rightarrow> (Inl err, ctick w)
      | Inr refs \<Rightarrow>
          (if length (filter (MatchesRef since until) refs) \<noteq> length refs then Inl ''riot returned invalid refs'' else Inr refs, ctick w))"

definition counted_type :: "string \<Rightarrow> bool" where
  "counted_type t \<longleftrightarrow> t \<in> {''NORMAL'', ''RANKED_SOLO_5x5'', ''RANKED_TEAM_5x5'', ''RANKED_FLEX_SR'', ''TEAM_BUILDER_RANKED_SOLO'', ''NONE''}"

definition with_self :: "int \<Rightarrow> game \<Rightarrow> game" where
  "with_self summoner g =
     g\<lparr>gmFellowPlayers := gmFellowPlayers g @ [\<lparr>gpChampionID = gmChampionID g, gpSummonerID = summoner, gpTeamID = gmTeamID g\<rparr>]\<rparr>"

definition filterAndModify :: "recent_games \<Rightarrow> recent_games" where
  "filterAndModify r =
     r\<lparr>rgGames := filter (\<lambda>g. length (gmFellowPlayers g) = 10)
        (map (with_self (rgSummonerID r)) (filter (\<lambda>g. gmMapId g = 11 \<and> counted_type (gmSubType g)) (rgGames r)))\<rparr>"

fun save_games :: "crawl_env \<Rightarrow> string \<Rightarrow> game list \<Rightarrow> crawl_world \<Rightarrow> string option \<times> crawl_world" where
  "save_games e region [] w = (None, w)"
| "save_games e region (g # gs) w =
     (case ccall e (\<lambda>w. w) w of
        (Some err, w1) \<Rightarrow> (Some err, w1)
      | (None, w1) \<Rightarrow>
     (case ccall e (\<lambda>w. w\<lparr>recentFiles := AList.update (recent_name (gmGameID g) region) g (recentFiles w)\<rparr>) w1 of
        (Some err, w2) \<Rightarrow> (Some err, w2)
      | (None, w2) \<Rightarrow> save_games e region gs w2))"

definition saveRecentGames :: "crawl_env \<Rightarrow> recent_games \<Rightarrow> string \<Rightarrow> crawl_world \<Rightarrow> string option \<times> crawl_world" where
  "saveRecentGames e r region w =
     (case ccall e (\<lambda>w. w) w of
        (Some err, w1) \<Rightarrow> (Some err, w1)
      | (None, w1) \<Rightarrow> save_games e region (rgGames r) w1)"

definition download_of :: "int \<Rightarrow> string \<Rightarrow> match_download" where
  "download_of matchID platform =
     \<lparr>mdKey = [], mdMatchId = matchID, mdPlatformId = platform, mdObservedSummonerIds = [], mdReplayServer = []\<rparr>"

fun sendMatchDownloadRequests :: "crawl_env \<Rightarrow> match_download list \<Rightarrow> crawl_world \<Rightarrow> string option \<times> crawl_world" where
  "sendMatchDownloadRequests e [] w = (None, w)"
| "sendMatchDownloadRequests e (m # ms) w =
     (case ccall e (\<lambda>w. w\<lparr>downloads := downloads w @ [m]\<rparr>) w of
        (Some err, w1) \<Rightarrow> (Some err, w1)
      | (None, w1) \<Rightarrow> sendMatchDownloadRequests e ms w1)"

definition processMatchList :: "crawl_env \<Rightarrow> match_ref list \<Rightarrow> crawl_world \<Rightarrow> string option \<times> crawl_world" where
  "processMatchList e refs w = sendMatchDownloadRequests e (map (\<lambda>r. download_of (mfMatchID r) (mfPlatformID r)) refs) w"

definition processRecentGames :: "crawl_env \<Rightarrow> recent_games \<Rightarrow> string \<Rightarrow> crawl_world \<Rightarrow> string option \<times> crawl_world" where
  "processRecentGames e r platformID w = sendMatchDownloadRequests e (map (\<lambda>g. download_of (gmGameID g) platformID) (rgGames r)) w"

definition crawl_ranked :: "crawl_env \<Rightarrow> summoner_crawl \<Rightarrow> crawl_world \<Rightarrow> string option \<times> crawl_world" where
  "crawl_ranked e msg w =
     (case (if scSince msg \<noteq> [] then cw_parse e RFC3339 (scSince msg) else Inr (cw_now e (crops w) - 24 * 60 * 60)) of
        Inl err \<Rightarrow> (Some err, w)
      | Inr since \<Rightarrow>
     (case rankedHistory e since (scSummonerId msg) w of
        (Inl err, w1) \<Rightarrow> (Some err, w1)
      | (Inr refs, w1) \<Rightarrow> processMatchList e refs w1))"

definition crawl_recent :: "crawl_env \<Rightarrow> summoner_crawl \<Rightarrow> crawl_world \<Rightarrow> string option \<times> crawl_world" where
  "crawl_recent e msg w =
     (case cw_recent e (crops w) (scSummonerId msg) of
        Inl err \<Rightarrow> (if err = ''api error - code: 404'' then None else Some err, ctick w)
      | Inr games \<Rightarrow>
          (let r = filterAndModify games in
           case saveRecentGames e r (region_string (RegionFromPlatform (PlatformFromString (scPlatformId msg)))) (ctick w) of
             (Some err, w1) \<Rightarrow> (Some err, w1)
           | (None, w1) \<Rightarrow> processRecentGames e r (scPlatformId msg) w1))"

definition Handle_crawl :: "crawl_env \<Rightarrow> summoner_crawl \<Rightarrow> crawl_world \<Rightarrow> string option \<times> crawl_world" where
  "Handle_crawl e msg w =
     (if \<not> LolSummonerCrawl_Valid e msg then (Some ''invalid message'', w)
      else case cw_platform e (scPlatformId msg) of
        Some err \<Rightarrow> (Some err, w)
      | None \<Rightarrow>
          if scHistoryType msg = ''ranked_history'' then crawl_ranked e msg w
          else if scHistoryType msg = ''recent'' then crawl_recent e msg w
          else (Some ''Unrecognized history_type'', w))"

subsection \<open>Calls\<close>

lemma ctick_fields [simp]:
  "matchFiles (ctick w) = matchFiles w" "recentFiles (ctick w) = recentFiles w" "currentFiles (ctick w) = currentFiles w"
  "downloads (ctick w) = downloads w" "downloaded (ctick w) = downloaded w"
  by (simp_all add: ctick_def)

lemma ccall_cases: "ccall e eff w = (r, w') \<Longrightarrow> w' = ctick w \<and> r \<noteq> None \<or> w' = ctick (eff w)"
  by (cases "cw_fate e (crops w)") (auto simp: ccall_def)

lemma ccall_id: "ccall e (\<lambda>w. w) w = (r, w') \<Longrightarrow> w' = ctick w"
  using ccall_cases by fastforce

lemma ccall_None: "ccall e eff w = (None, w') \<Longrightarrow> w' = ctick (eff w)"
  using ccall_cases by fastforce

lemma ccall_well: "cw_fate e (crops w) = Done \<Longrightarrow> ccall e eff w = (None, ctick (eff w))"
  by (simp add: ccall_def)

subsection \<open>What was downloaded is stored\<close>

text \<open>Every file has the name of the match it holds.\<close>

definition store_keyed :: "crawl_world \<Rightarrow> bool" where
  "store_keyed w \<longleftrightarrow>
     list_all (\<lambda>(k, m). k = match_name (mdMatchID m) (to_lower (mdRegion m))) (matchFiles w)"

lemma keyed_at: "store_keyed w \<Longrightarrow> map_of (matchFiles w) k = Some m \<Longrightarrow> k = match_name (mdMatchID m) (to_lower (mdRegion m))"
  by (auto simp: store_keyed_def list_all_iff dest!: map_of_SomeD)

text \<open>What Riot answers is the match that was asked for.\<close>

definition honest_riot :: "crawl_env \<Rightarrow> match_download \<Rightarrow> bool" where
  "honest_riot e msg \<longleftrightarrow>
     (\<forall>n m. cw_match e n (mdPlatformId msg) (mdMatchId msg) = Inr m \<longrightarrow>
       match_name (mdMatchID m) (to_lower (mdRegion m)) =
       match_name (mdMatchId msg) (region_string (RegionFromPlatform (PlatformFromString (mdPlatformId msg)))))"

abbreviation wanted :: "match_download \<Rightarrow> string" where
  "wanted msg \<equiv> match_name (mdMatchId msg) (region_string (RegionFromPlatform (PlatformFromString (mdPlatformId msg))))"

lemma cached_world:
  assumes "GetCachedMatch e region i w = (r, w')"
  shows "matchFiles w' = matchFiles w \<and> downloaded w' = downloaded w"
    and "(\<And>n. cw_damaged e n = None) \<Longrightarrow> r = Inr m \<Longrightarrow> mdFrames m \<noteq> [] \<Longrightarrow> map_of (matchFiles w) (match_name i region) = Some m"
proof -
  obtain r1 w1 where c1: "ccall e (\<lambda>w. w) w = (r1, w1)" by fastforce
  have w1: "w1 = ctick w" by (rule ccall_id[OF c1])
  obtain r2 w2 where c2: "ccall e (\<lambda>w. w) w1 = (r2, w2)" by fastforce
  have w2: "w2 = ctick w1" by (rule ccall_id[OF c2])
  show "matchFiles w' = matchFiles w \<and> downloaded w' = downloaded w"
    using assms c2 w2 by (auto simp: GetCachedMatch_def c1 w1 split: option.splits)
  show "(\<And>n. cw_damaged e n = None) \<Longrightarrow> r = Inr m \<Longrightarrow> mdFrames m \<noteq> [] \<Longrightarrow> map_of (matchFiles w) (match_name i region) = Some m"
    using assms c2 w2 by (auto simp: GetCachedMatch_def c1 w1 no_match_def split: option.splits)
qed

lemma fetched:
  assumes "fetch_match e msg published w = (r, w')"
  shows "matchFiles w' = matchFiles w \<and> downloaded w' = downloaded w"
    and "(\<And>n. cw_damaged e n = None) \<Longrightarrow> r = Inr (Some (m, fresh)) \<Longrightarrow> mdFrames m \<noteq> [] \<and>
      (fresh \<longrightarrow> (\<exists>n. cw_match e n (mdPlatformId msg) (mdMatchId msg) = Inr m)) \<and>
      (\<not> fresh \<longrightarrow> map_of (matchFiles w) (wanted msg) = Some m)"
proof -
  obtain c w1 where c: "GetCachedMatch e (region_string (RegionFromPlatform (PlatformFromString (mdPlatformId msg)))) (mdMatchId msg) w = (c, w1)"
    by fastforce
  note cw = cached_world[OF c]
  show "matchFiles w' = matchFiles w \<and> downloaded w' = downloaded w"
    using assms cw(1) by (auto simp: fetch_match_def c Let_def split: sum.splits option.splits if_splits)
  show "(\<And>n. cw_damaged e n = None) \<Longrightarrow> r = Inr (Some (m, fresh)) \<Longrightarrow> mdFrames m \<noteq> [] \<and>
      (fresh \<longrightarrow> (\<exists>n. cw_match e n (mdPlatformId msg) (mdMatchId msg) = Inr m)) \<and>
      (\<not> fresh \<longrightarrow> map_of (matchFiles w) (wanted msg) = Some m)"
    using assms cw(2) by (auto simp: fetch_match_def c Let_def split: sum.splits option.splits if_splits)
qed

lemma fixed:
  assumes "fix_identities e msg m w = (r, w')"
  shows "matchFiles w' = matchFiles w \<and> downloaded w' = downloaded w"
    and "r = Ok m' \<Longrightarrow> \<exists>ids. m' = m\<lparr>mdIdentities := ids\<rparr>"
proof -
  obtain r1 w1 where c1: "ccall e (\<lambda>w. w) w = (r1, w1)" by fastforce
  have w1: "w1 = ctick w" by (rule ccall_id[OF c1])
  obtain r2 w2 where c2: "ccall e (\<lambda>w. w) w1 = (r2, w2)" by fastforce
  have w2: "w2 = ctick w1" by (rule ccall_id[OF c2])
  show "matchFiles w' = matchFiles w \<and> downloaded w' = downloaded w"
    using assms c2 w2
    by (auto simp: fix_identities_def FixParticipantIdentitiesWithCurrentGame_def FixParticipantIdentitiesWithRecentGames_def
        c1 w1 Let_def split: option.splits if_splits)
  show "r = Ok m' \<Longrightarrow> \<exists>ids. m' = m\<lparr>mdIdentities := ids\<rparr>"
    using assms c2 w2
    by (auto simp: fix_identities_def FixParticipantIdentitiesWithCurrentGame_def FixParticipantIdentitiesWithRecentGames_def
        c1 w1 Let_def bind_ok_Ok split: option.splits if_splits)
qed

lemma list_all_update: "list_all P m \<Longrightarrow> P (k, v) \<Longrightarrow> list_all P (AList.update k v m)"
  by (induction m) auto

lemma store_keyed_update:
  assumes "store_keyed w"
  shows "store_keyed (w\<lparr>matchFiles := AList.update (match_name (mdMatchID m) (to_lower (mdRegion m))) m (matchFiles w)\<rparr>)"
  using assms by (simp add: store_keyed_def list_all_update)

lemma cached_match:
  assumes "CacheMatch e m w = (r, w')"
  shows "downloaded w' = downloaded w" "store_keyed w \<Longrightarrow> store_keyed w'"
    "r = None \<Longrightarrow> map_of (matchFiles w') (match_name (mdMatchID m) (to_lower (mdRegion m))) = Some m"
proof -
  obtain r1 w1 where c1: "ccall e (\<lambda>w. w) w = (r1, w1)" by fastforce
  have w1: "w1 = ctick w" by (rule ccall_id[OF c1])
  let ?eff = "\<lambda>w. w\<lparr>matchFiles := AList.update (match_name (mdMatchID m) (to_lower (mdRegion m))) m (matchFiles w)\<rparr>"
  obtain r2 w2 where c2: "ccall e ?eff w1 = (r2, w2)" by fastforce
  note e2 = ccall_cases[OF c2]
  have f: "downloaded w2 = downloaded w" "store_keyed w \<Longrightarrow> store_keyed w2"
    using e2 store_keyed_update[of w m] by (auto simp: w1 store_keyed_def)
  have w': "w' = w1 \<or> w' = w2" using assms by (auto simp: CacheMatch_def c1 c2 split: option.splits)
  then show "downloaded w' = downloaded w" "store_keyed w \<Longrightarrow> store_keyed w'"
    using f by (auto simp: w1 store_keyed_def)
  show "r = None \<Longrightarrow> map_of (matchFiles w') (match_name (mdMatchID m) (to_lower (mdRegion m))) = Some m"
    using assms c2 by (auto simp: CacheMatch_def c1 update_conv' split: option.splits dest!: ccall_None)
qed

lemma identified:
  assumes "(if IsParticipantIdentitiesEmpty m then fix_identities e msg m w else (Ok m, w)) = (y, w')"
  shows "matchFiles w' = matchFiles w" "downloaded w' = downloaded w"
    and "y = Ok m' \<Longrightarrow> \<exists>ids. m' = m\<lparr>mdIdentities := ids\<rparr>"
    and "y = Ok m' \<Longrightarrow> \<not> IsParticipantIdentitiesEmpty m \<Longrightarrow> m' = m"
proof -
  show "matchFiles w' = matchFiles w" "downloaded w' = downloaded w"
    using assms fixed(1) by (auto split: if_splits)
  show "\<exists>ids. m' = m\<lparr>mdIdentities := ids\<rparr>" if "y = Ok m'"
  proof (cases "IsParticipantIdentitiesEmpty m")
    case True
    then show ?thesis using assms fixed(2) that by simp
  next
    case False
    then show ?thesis using assms that by (intro exI[of _ "mdIdentities m"]) simp
  qed
  show "y = Ok m' \<Longrightarrow> \<not> IsParticipantIdentitiesEmpty m \<Longrightarrow> m' = m" using assms by simp
qed

lemma saved:
  assumes "(if c then CacheMatch e m w else (None, w)) = (z, w')"
  shows "downloaded w' = downloaded w" "store_keyed w \<Longrightarrow> store_keyed w'"
    and "z = None \<Longrightarrow> match_name (mdMatchID m) (to_lower (mdRegion m)) = k \<Longrightarrow>
      (\<not> c \<Longrightarrow> map_of (matchFiles w) k = Some m) \<Longrightarrow> map_of (matchFiles w') k = Some m"
  using assms cached_match[of e m w z w'] by (auto split: if_splits)

text \<open>The run after the details were fetched.\<close>

lemma handed_on:
  assumes "mdFrames m \<noteq> []" "match_name (mdMatchID m) (to_lower (mdRegion m)) = wanted msg" "store_keyed w"
    and "\<not> fresh \<Longrightarrow> map_of (matchFiles w) (wanted msg) = Some m"
    and "(if IsParticipantIdentitiesEmpty m then fix_identities e msg m w else (Ok m, w)) = (Ok m', w2)"
    and "(if fresh \<or> IsParticipantIdentitiesEmpty m then CacheMatch e m' w2 else (None, w2)) = (None, w3)"
    and "ccall e (\<lambda>w. w\<lparr>downloaded := downloaded w @ [msg]\<rparr>) w3 = (q, w')"
  shows "store_keyed w' \<and> (downloaded w' \<noteq> downloaded w \<longrightarrow> downloaded w' = downloaded w @ [msg] \<and>
    (\<exists>m. map_of (matchFiles w') (wanted msg) = Some m \<and> mdFrames m \<noteq> []))"
proof -
  note i = identified[OF assms(5)] and s = saved[OF assms(6)]
  obtain ids where ids: "m' = m\<lparr>mdIdentities := ids\<rparr>" using i(3) by blast
  have k2: "store_keyed w2" using assms(3) i(1) by (simp add: store_keyed_def)
  have "map_of (matchFiles w3) (wanted msg) = Some m'"
    by (rule s(3)) (use assms(2,4) i(1,4) ids in auto)
  then show ?thesis
    using ccall_cases[OF assms(7)] s(1,2) i(2) k2 assms(1) by (auto simp: store_keyed_def ids)
qed

text \<open>
  C11: when the downloader hands a message on, the details of its match are in the store, with a timeline.
  The files keep the names of their matches.
\<close>

theorem published_is_stored:
  assumes "Handle_download e msg published w = (r, w')" "store_keyed w" "honest_riot e msg" "\<And>n. cw_damaged e n = None"
  shows "store_keyed w' \<and> (downloaded w' \<noteq> downloaded w \<longrightarrow> downloaded w' = downloaded w @ [msg] \<and>
    (\<exists>m. map_of (matchFiles w') (wanted msg) = Some m \<and> mdFrames m \<noteq> []))"
proof (cases "LolMatchDownload_Valid msg")
  case True
  obtain r0 w0 where c0: "ccall e (\<lambda>w. w) w = (r0, w0)" by fastforce
  have w0: "w0 = ctick w" by (rule ccall_id[OF c0])
  obtain x w1 where x: "fetch_match e msg published w0 = (x, w1)" by fastforce
  have k1: "store_keyed w1" "downloaded w1 = downloaded w" "matchFiles w1 = matchFiles w0" "store_keyed w0" "downloaded w0 = downloaded w"
    using fetched(1)[OF x] assms(2) by (auto simp: store_keyed_def w0)
  show ?thesis
  proof (cases "\<exists>m fresh. x = Inr (Some (m, fresh)) \<and> r0 = None")
    case True
    then obtain m fresh where m: "x = Inr (Some (m, fresh))" "r0 = None" by blast
    note f = fetched(2)[OF x assms(4) m(1)]
    have key: "match_name (mdMatchID m) (to_lower (mdRegion m)) = wanted msg"
      using f assms(3) keyed_at[OF k1(4)] by (cases fresh) (auto simp: honest_riot_def)
    obtain y w2 where y: "(if IsParticipantIdentitiesEmpty m then fix_identities e msg m w1 else (Ok m, w1)) = (y, w2)"
      by fastforce
    note k2 = identified(1,2)[OF y]
    have run: "(case y of Panic p \<Rightarrow> (Panic p, w2) | Err err \<Rightarrow> (Err err, w2)
      | Ok m' \<Rightarrow> (case (if fresh \<or> IsParticipantIdentitiesEmpty m then CacheMatch e m' w2 else (None, w2)) of
          (Some err, w3) \<Rightarrow> (Err (''error saving match: '' @ err), w3)
        | (None, w3) \<Rightarrow> (case ccall e (\<lambda>w. w\<lparr>downloaded := downloaded w @ [msg]\<rparr>) w3 of
            (Some err, w4) \<Rightarrow> (Err err, w4) | (None, w4) \<Rightarrow> (Ok (), w4)))) = (r, w')"
      using assms(1) \<open>LolMatchDownload_Valid msg\<close> m x y c0 by (simp add: Handle_download_def cong: if_cong)
    show ?thesis
    proof (cases y)
      case (Ok m')
      obtain z w3 where z: "(if fresh \<or> IsParticipantIdentitiesEmpty m then CacheMatch e m' w2 else (None, w2)) = (z, w3)"
        by fastforce
      obtain q w4 where q: "ccall e (\<lambda>w. w\<lparr>downloaded := downloaded w @ [msg]\<rparr>) w3 = (q, w4)" by fastforce
      have w': "w' = (if z = None then w4 else w3)" using run Ok z q by (auto split: option.splits)
      show ?thesis
      proof (cases z)
        case None
        have s: "map_of (matchFiles w1) (wanted msg) = Some m" if "\<not> fresh" using f that k1(3) by simp
        show ?thesis
          using handed_on[OF conjunct1[OF f] key k1(1) s y[unfolded Ok] z[unfolded None] q] by (simp add: w' None k1(2))
      qed (use saved(1,2)[OF z] k1 k2 in \<open>simp add: w' store_keyed_def\<close>)
    qed (use run k1 k2 in \<open>auto simp: store_keyed_def\<close>)
  next
    case False
    then have "w' = w0 \<or> w' = w1"
      using assms(1) \<open>LolMatchDownload_Valid msg\<close> c0 x by (auto simp: Handle_download_def split: option.splits sum.splits)
    then show ?thesis using k1 by auto
  qed
qed (use assms(1,2) in \<open>simp add: Handle_download_def\<close>)

subsection \<open>Details without identities\<close>

definition calls_done :: "crawl_env \<Rightarrow> bool" where
  "calls_done e \<longleftrightarrow> (\<forall>n. cw_fate e n = Done) \<and> (\<forall>n. cw_damaged e n = None)"

lemma done_ccall: "calls_done e \<Longrightarrow> ccall e eff w = (None, ctick (eff w))"
  by (simp add: calls_done_def ccall_def)

text \<open>
  details with no identities at all count as empty, but they cannot be filled in: the assignment of the
  first player of the current game is out of range, and the task panics, on every delivery.
\<close>

theorem no_identities_panics:
  assumes "calls_done e" "LolMatchDownload_Valid msg"
    and "map_of (matchFiles w) (wanted msg) = Some m" "mdFrames m \<noteq> []" "mdIdentities m = []"
    and "map_of (currentFiles w) (current_name (mdMatchID m) (to_lower (mdPlatformID m))) = Some (p # ps)"
    and "to_lower (PlatformFromString (mdPlatformId msg)) = to_lower (mdPlatformID m)"
  shows "\<exists>err w'. Handle_download e msg published w = (Panic err, w') \<and> matchFiles w' = matchFiles w \<and>
    currentFiles w' = currentFiles w"
proof -
  have d: "cw_damaged e n = None" for n using assms(1) by (simp add: calls_done_def)
  have f: "fetch_match e msg published (ctick w) = (Inr (Some (m, False)), ctick (ctick (ctick w)))"
    using assms(3,4) by (simp add: fetch_match_def GetCachedMatch_def done_ccall[OF assms(1)] d Let_def)
  obtain s n where p: "p = (s, n)" by fastforce
  have "fix_identities e msg m v = (Panic ''index out of range'', ctick (ctick v))" if "currentFiles v = currentFiles w" for v
    using that assms(5-7)
    by (simp add: fix_identities_def FixParticipantIdentitiesWithCurrentGame_def done_ccall[OF assms(1)] Let_def p set_identity_def)
  then show ?thesis
    using assms(2,5) f by (simp add: Handle_download_def done_ccall[OF assms(1)] IsParticipantIdentitiesEmpty_def)
qed

text \<open>
  a match that Riot does not know is given up once its message is eight hours old, and retried
  before. Nothing is stored or handed on in either case.
\<close>

theorem unknown_match_given_up:
  assumes "calls_done e" "LolMatchDownload_Valid msg" "cw_platform e (mdPlatformId msg) = None"
    and "map_of (matchFiles w) (wanted msg) = None"
    and "\<And>n. cw_match e n (mdPlatformId msg) (mdMatchId msg) = Inl ''api error - code: 404''" "\<And>n. cw_now e n = t"
  shows "\<exists>w'. Handle_download e msg published w =
      (if published < t - 8 * 60 * 60 then Ok () else Err ''api error - code: 404'', w') \<and>
    matchFiles w' = matchFiles w \<and> downloaded w' = downloaded w"
proof -
  have "fetch_match e msg published (ctick w) =
      (if published < t - 8 * 60 * 60 then Inr None else Inl ''api error - code: 404'', ctick (ctick (ctick w)))"
    using assms(3-6) by (simp add: fetch_match_def GetCachedMatch_def done_ccall[OF assms(1)] no_match_def Let_def Timeout404_def)
  then show ?thesis using assms(2) by (simp add: Handle_download_def done_ccall[OF assms(1)])
qed

subsection \<open>Identities from a recent game\<close>

definition fellow_of :: "game_player list \<Rightarrow> player \<Rightarrow> game_player option" where
  "fellow_of fellows p = List.find (\<lambda>g. gpChampionID g = plChampionID p \<and> gpTeamID g = plTeamID p) fellows"

lemma recent_step:
  "recent_identities fellows i (p # ps) ids = Ok ids' \<longleftrightarrow>
   (\<exists>g. fellow_of fellows p = Some g \<and> i < length ids \<and>
     recent_identities fellows (Suc i) ps
       (ids[i := \<lparr>idParticipantID = int i + 1, idSummonerID = gpSummonerID g, idSummonerName = []\<rparr>]) = Ok ids')"
  by (auto simp: fellow_of_def set_identity_def bind_ok_Ok split: option.splits)

lemma recent_from:
  "(\<exists>ids'. recent_identities fellows i ps ids = Ok ids') \<longleftrightarrow>
     (ps = [] \<or> i + length ps \<le> length ids) \<and> list_all (\<lambda>p. fellow_of fellows p \<noteq> None) ps"
proof (induction ps arbitrary: i ids)
  case (Cons p ps)
  show ?case unfolding recent_step using Cons.IH[of "Suc i"]
    by (cases "fellow_of fellows p"; cases "i < length ids"; cases ps) (auto simp: Suc_le_eq)
qed simp

lemma recent_values:
  assumes "recent_identities fellows i ps ids = Ok ids'"
  shows "length ids' = length ids \<and> (\<forall>j<i. ids' ! j = ids ! j) \<and>
    (\<forall>j<length ps. \<exists>g. fellow_of fellows (ps ! j) = Some g \<and>
       ids' ! (i + j) = \<lparr>idParticipantID = int (i + j) + 1, idSummonerID = gpSummonerID g, idSummonerName = []\<rparr>)"
  using assms
proof (induction ps arbitrary: i ids)
  case (Cons p ps)
  obtain g where g: "fellow_of fellows p = Some g" "i < length ids"
    "recent_identities fellows (Suc i) ps
       (ids[i := \<lparr>idParticipantID = int i + 1, idSummonerID = gpSummonerID g, idSummonerName = []\<rparr>]) = Ok ids'"
    using Cons.prems by (auto simp: recent_step simp del: recent_identities.simps)
  note IH = Cons.IH[OF g(3)]
  have "\<exists>g. fellow_of fellows ((p # ps) ! j) = Some g \<and>
       ids' ! (i + j) = \<lparr>idParticipantID = int (i + j) + 1, idSummonerID = gpSummonerID g, idSummonerName = []\<rparr>"
    if "j < length (p # ps)" for j
    using IH g that by (cases j) auto
  then show ?case using IH by auto
qed simp

text \<open>
  the details of a match get their identities from a saved game just when each participant has a
  player of the game with its champion and team, and then each has that player's summoner.
\<close>

theorem recent_identities_match:
  assumes "length (mdParticipants m) \<le> length (mdIdentities m)"
  shows "(\<exists>ids. recent_identities fellows 0 (mdParticipants m) (mdIdentities m) = Ok ids) \<longleftrightarrow>
      list_all (\<lambda>p. list_ex (\<lambda>g. gpChampionID g = plChampionID p \<and> gpTeamID g = plTeamID p) fellows) (mdParticipants m)"
    and "recent_identities fellows 0 (mdParticipants m) (mdIdentities m) = Ok ids \<Longrightarrow> j < length (mdParticipants m) \<Longrightarrow>
      \<exists>g\<in>set fellows. gpChampionID g = plChampionID (mdParticipants m ! j) \<and> gpTeamID g = plTeamID (mdParticipants m ! j) \<and>
        ids ! j = \<lparr>idParticipantID = int j + 1, idSummonerID = gpSummonerID g, idSummonerName = []\<rparr>"
proof -
  have f: "fellow_of fellows p \<noteq> None \<longleftrightarrow> list_ex (\<lambda>g. gpChampionID g = plChampionID p \<and> gpTeamID g = plTeamID p) fellows" for p
    by (auto simp: fellow_of_def find_None_iff list_ex_iff)
  show "(\<exists>ids. recent_identities fellows 0 (mdParticipants m) (mdIdentities m) = Ok ids) \<longleftrightarrow>
      list_all (\<lambda>p. list_ex (\<lambda>g. gpChampionID g = plChampionID p \<and> gpTeamID g = plTeamID p) fellows) (mdParticipants m)"
    unfolding recent_from f using assms by simp
  assume "recent_identities fellows 0 (mdParticipants m) (mdIdentities m) = Ok ids" "j < length (mdParticipants m)"
  then obtain g where g: "fellow_of fellows (mdParticipants m ! j) = Some g"
    "ids ! j = \<lparr>idParticipantID = int j + 1, idSummonerID = gpSummonerID g, idSummonerName = []\<rparr>"
    using recent_values by fastforce
  from g(1) have "g \<in> set fellows \<and> gpChampionID g = plChampionID (mdParticipants m ! j) \<and> gpTeamID g = plTeamID (mdParticipants m ! j)"
    by (auto simp: fellow_of_def find_Some_iff)
  then show "\<exists>g\<in>set fellows. gpChampionID g = plChampionID (mdParticipants m ! j) \<and> gpTeamID g = plTeamID (mdParticipants m ! j) \<and>
        ids ! j = \<lparr>idParticipantID = int j + 1, idSummonerID = gpSummonerID g, idSummonerName = []\<rparr>"
    using g(2) by blast
qed

subsection \<open>What a crawl asks for\<close>

lemma sends:
  "sendMatchDownloadRequests e ms w = (r, w') \<Longrightarrow>
   recentFiles w' = recentFiles w \<and> (\<exists>sent. downloads w' = downloads w @ sent \<and> set sent \<subseteq> set ms)"
proof (induction ms arbitrary: w)
  case (Cons m ms)
  obtain r1 w1 where c: "ccall e (\<lambda>w. w\<lparr>downloads := downloads w @ [m]\<rparr>) w = (r1, w1)" by fastforce
  have f: "recentFiles w1 = recentFiles w" "downloads w1 = downloads w \<or> downloads w1 = downloads w @ [m]"
    using ccall_cases[OF c] by auto
  show ?case
  proof (cases r1)
    case None
    then have "sendMatchDownloadRequests e ms w1 = (r, w')" using Cons.prems c by simp
    from Cons.IH[OF this] f ccall_None[OF c[unfolded None]] show ?thesis by (auto intro: exI[of _ "m # _"])
  next
    case (Some err)
    then have "w' = w1" using Cons.prems c by simp
    with f show ?thesis by (auto intro: exI[of _ "[]"] exI[of _ "[m]"])
  qed
qed simp

abbreviation saved_as :: "string \<Rightarrow> game \<Rightarrow> string \<times> game" where
  "saved_as region g \<equiv> (recent_name (gmGameID g) region, g)"

lemma save_kept:
  "save_games e region gs w = (r, w') \<Longrightarrow> downloads w' = downloads w \<and>
   (r = None \<longrightarrow> map_of (recentFiles w') = map_of (recentFiles w) ++ map_of (map (saved_as region) (rev gs)))"
proof (induction gs arbitrary: w)
  case (Cons g gs)
  obtain r1 w1 where c1: "ccall e (\<lambda>w. w) w = (r1, w1)" by fastforce
  have w1: "w1 = ctick w" by (rule ccall_id[OF c1])
  obtain r2 w2 where c2: "ccall e (\<lambda>w. w\<lparr>recentFiles := AList.update (recent_name (gmGameID g) region) g (recentFiles w)\<rparr>) w1 = (r2, w2)"
    by fastforce
  have d2: "downloads w2 = downloads w" using ccall_cases[OF c2] by (auto simp: w1)
  show ?case
  proof (cases "r1 = None \<and> r2 = None")
    case True
    then have s: "save_games e region gs w2 = (r, w')" using Cons.prems c1 c2 by simp
    have "map_of (recentFiles w2) = map_of (recentFiles w) ++ map_of [saved_as region g]"
      using ccall_None[OF c2[unfolded conjunct2[OF True]]] by (simp add: w1 update_conv')
    then have "map_of (recentFiles w) ++ map_of (map (saved_as region) (rev (g # gs))) =
        map_of (recentFiles w2) ++ map_of (map (saved_as region) (rev gs))"
      by (simp only: rev.simps map_append list.map map_of_append map_add_assoc)
    then show ?thesis using Cons.IH[OF s] d2 by metis
  next
    case False
    then show ?thesis using Cons.prems c1 c2 d2 w1 by (auto split: option.splits)
  qed
qed simp

lemma kept_game:
  assumes "g \<in> set gs"
  shows "\<exists>g'\<in>set gs. (m ++ map_of (map (saved_as region) (rev gs))) (recent_name (gmGameID g) region) = Some g'"
proof -
  have "map_of (map (saved_as region) (rev gs)) (recent_name (gmGameID g) region) \<noteq> None"
    using assms by (auto simp: map_of_eq_None_iff image_iff)
  then obtain g' where "map_of (map (saved_as region) (rev gs)) (recent_name (gmGameID g) region) = Some g'" by blast
  moreover from map_of_SomeD[OF this] have "g' \<in> set gs" by auto
  ultimately show ?thesis by auto
qed


text \<open>
  a match list with one match outside the options is refused as a whole: no download is asked for,
  not even of the matches that do fit.
\<close>

theorem ranked_all_or_nothing:
  assumes "cw_match_list e (crops w) (scSummonerId msg) = Inr refs" "cw_parse e RFC3339 (scSince msg) = Inr since" "scSince msg \<noteq> []"
    and "\<not> list_all (MatchesRef since (cw_now e (crops w))) refs"
  shows "\<exists>err. crawl_ranked e msg w = (Some err, ctick w)"
proof -
  have "length (filter (MatchesRef since (cw_now e (crops w))) refs) \<noteq> length refs"
    using assms(4) length_filter_less[of _ refs] by (metis list_all_iff less_irrefl)
  then show ?thesis using assms(1-3) by (simp add: crawl_ranked_def rankedHistory_def Let_def)
qed

subsection \<open>An example\<close>

definition demo_fellow :: "nat \<Rightarrow> game_player" where
  "demo_fellow i = \<lparr>gpChampionID = 10 + int i, gpSummonerID = 100 + int i, gpTeamID = (if i < 5 then 100 else 200)\<rparr>"

definition demo_game :: game where
  "demo_game = \<lparr>gmChampionID = 10, gmFellowPlayers = map demo_fellow [1..<10], gmGameID = 5, gmMapId = 11, gmSubType = ''NORMAL'', gmTeamID = 100\<rparr>"

definition demo_ref :: match_ref where
  "demo_ref = \<lparr>mfMatchID = 5, mfPlatformID = ''NA1'', mfQueue = ''TEAM_BUILDER_DRAFT_RANKED_5x5'', mfTimestamp = 500\<rparr>"

definition demo_crawl :: "(string + match_details) \<Rightarrow> crawl_env" where
  "demo_crawl answer =
     \<lparr>cw_fate = (\<lambda>_. Done), cw_now = (\<lambda>_. 100000), cw_parse = (\<lambda>_ _. Inr 1), cw_platform = (\<lambda>_. None), cw_match = (\<lambda>_ _ _. answer),
      cw_match_list = (\<lambda>_ _. Inr [demo_ref]), cw_recent = (\<lambda>_ _. Inr \<lparr>rgGames = [demo_game], rgSummonerID = 100\<rparr>),
      cw_damaged = (\<lambda>_. None)\<rparr>"

definition no_files :: crawl_world where
  "no_files = \<lparr>matchFiles = [], recentFiles = [], currentFiles = [], downloads = [], downloaded = [], crops = 0\<rparr>"

definition demo_task :: match_download where
  "demo_task = download_of 5 ''NA1''"

lemma demo_task_facts: "LolMatchDownload_Valid demo_task" "wanted demo_task = match_name 5 ''na''"
  "mdPlatformId demo_task = ''NA1''" "mdMatchId demo_task = 5"
proof -
  have "region_string (RegionFromPlatform (PlatformFromString ''NA1'')) = ''na''" by code_simp
  then show "LolMatchDownload_Valid demo_task" "wanted demo_task = match_name 5 ''na''"
    "mdPlatformId demo_task = ''NA1''" "mdMatchId demo_task = 5"
    by (simp_all add: demo_task_def download_of_def LolMatchDownload_Valid_def)
qed

lemma demo_lower: "to_lower ''NA'' = ''na''" "to_lower ''NA1'' = ''na1''" "to_lower (PlatformFromString ''NA1'') = ''na1''"
  by code_simp+

lemma demo_calls: "calls_done (demo_crawl a)"
  by (simp add: calls_done_def demo_crawl_def)

lemma demo_details: "match_name (mdMatchID demo_match) (to_lower (mdRegion demo_match)) = match_name 5 ''na''" "mdFrames demo_match \<noteq> []"
  "\<not> IsParticipantIdentitiesEmpty demo_match"
  using demo_lower(1) by (simp_all add: demo_match_def IsParticipantIdentitiesEmpty_def)

theorem published_is_stored_witness:
  "\<exists>w'. Handle_download (demo_crawl (Inr demo_match)) demo_task 0 no_files = (Ok (), w') \<and> downloaded w' = [demo_task] \<and>
     (\<exists>m. map_of (matchFiles w') (match_name 5 ''na'') = Some m \<and> mdFrames m \<noteq> [])"
proof -
  let ?e = "demo_crawl (Inr demo_match)"
  note d = done_ccall[OF demo_calls[of "Inr demo_match"]]
  have f: "fetch_match ?e demo_task 0 (ctick no_files) = (Inr (Some (demo_match, True)), ctick (ctick (ctick no_files)))"
    using demo_details(2)
    by (simp add: fetch_match_def GetCachedMatch_def d Let_def) (simp add: no_files_def no_match_def demo_crawl_def)
  have h: "\<exists>w'. Handle_download ?e demo_task 0 no_files = (Ok (), w') \<and> downloaded w' \<noteq> downloaded no_files"
    using demo_task_facts(1) demo_details(3) by (simp add: Handle_download_def d f CacheMatch_def)
  then obtain w' where w': "Handle_download ?e demo_task 0 no_files = (Ok (), w')" "downloaded w' \<noteq> downloaded no_files" by blast
  have "honest_riot ?e demo_task"
    using demo_details(1) demo_task_facts(2) by (simp add: honest_riot_def demo_crawl_def)
  from published_is_stored[OF w'(1) _ this] w' show ?thesis
    by (simp add: demo_task_facts(2) demo_crawl_def) (simp add: no_files_def store_keyed_def)
qed

theorem no_identities_panics_witness:
  "\<exists>err w'. Handle_download (demo_crawl (Inr demo_match)) demo_task 0
      (no_files\<lparr>matchFiles := [(match_name 5 ''na'', demo_match\<lparr>mdIdentities := []\<rparr>)],
                currentFiles := [(current_name 5 ''na1'', [(11, ''Ann'')])]\<rparr>) = (Panic err, w')"
proof -
  let ?m = "demo_match\<lparr>mdIdentities := []\<rparr>"
  let ?w = "no_files\<lparr>matchFiles := [(match_name 5 ''na'', ?m)], currentFiles := [(current_name 5 ''na1'', [(11, ''Ann'')])]\<rparr>"
  have m: "mdMatchID demo_match = 5" "mdPlatformID demo_match = ''NA1''" by (simp_all add: demo_match_def)
  have "map_of (matchFiles ?w) (wanted demo_task) = Some ?m" by (simp only: demo_task_facts(2)) simp
  moreover have "mdFrames ?m \<noteq> []" "mdIdentities ?m = []" using demo_details(2) by simp_all
  moreover have "map_of (currentFiles ?w) (current_name (mdMatchID ?m) (to_lower (mdPlatformID ?m))) = Some [(11, ''Ann'')]"
    using m demo_lower(2) by simp
  moreover have "to_lower (PlatformFromString (mdPlatformId demo_task)) = to_lower (mdPlatformID ?m)"
    using m demo_lower(2,3) demo_task_facts(3) by simp
  ultimately show ?thesis using no_identities_panics[OF demo_calls demo_task_facts(1), of ?w ?m "(11, ''Ann'')" "[]"] by blast
qed

theorem unknown_match_given_up_witness:
  "\<exists>w'. Handle_download (demo_crawl (Inl ''api error - code: 404'')) demo_task 0 no_files = (Ok (), w')"
proof -
  let ?e = "demo_crawl (Inl ''api error - code: 404'')"
  have "cw_platform ?e (mdPlatformId demo_task) = None" "map_of (matchFiles no_files) (wanted demo_task) = None"
    "cw_match ?e n (mdPlatformId demo_task) (mdMatchId demo_task) = Inl ''api error - code: 404''" "cw_now ?e n = 100000" for n
    by (simp_all add: demo_crawl_def no_files_def)
  from unknown_match_given_up[OF demo_calls demo_task_facts(1) this, of 0] show ?thesis by auto
qed

definition two_identities :: "identity list" where
  "two_identities = replicate 3 \<lparr>idParticipantID = 0, idSummonerID = 0, idSummonerName = []\<rparr>"

theorem recent_identities_match_witness:
  "\<exists>ids. recent_identities (map demo_fellow [1, 2, 6]) 0 (mdParticipants demo_match) two_identities = Ok ids \<and>
     map idSummonerID ids = [101, 102, 106]"
proof -
  let ?m = "demo_match\<lparr>mdIdentities := two_identities\<rparr>" and ?f = "map demo_fellow [1, 2, 6]"
  have len: "length (mdParticipants ?m) \<le> length (mdIdentities ?m)" by (simp add: demo_match_def two_identities_def)
  obtain ids where ids: "recent_identities ?f 0 (mdParticipants ?m) (mdIdentities ?m) = Ok ids"
    using recent_identities_match(1)[OF len, of ?f] by (auto simp: demo_match_def demo_player_def demo_fellow_def)
  moreover have "map idSummonerID ids = [101, 102, 106]"
    using ids by (auto simp: demo_match_def two_identities_def demo_player_def demo_fellow_def set_identity_def eval_nat_numeral)
  ultimately show ?thesis by auto
qed


theorem ranked_all_or_nothing_witness:
  "\<exists>err. crawl_ranked (demo_crawl (Inr demo_match)) \<lparr>scHistoryType = ''ranked_history'', scPlatformId = ''NA1'', scSince = ''1'', scSummonerId = 100\<rparr> no_files =
     (Some err, ctick no_files)"
  by (rule ranked_all_or_nothing[where refs = "[demo_ref]" and since = 1])
    (simp_all add: demo_crawl_def MatchesRef_def demo_ref_def)

end
